(* ===== verification/Ems_Prelude.thy ===== *)
theory Ems_Prelude
  imports Main "HOL-Library.Word" "HOL-Library.Signed_Division" "HOL-Library.Sublist"
begin

text \<open>
  Prelude of the development: the types every component shares, the status codes of
  \<^verbatim>\<open>c/ems/inc/ems_types.h\<close>, the functions of the C library the code calls on strings
  (\<open>strstr\<close>, \<open>strchr\<close>, \<open>strncmp\<close>, ...) and the generic lemmas about lists the component
  proofs use.

  A C string is modelled as the list of its characters before the terminating NUL, and a
  pointer into a string as the suffix of the string it points to; the distance of two such
  pointers is the difference of the lengths of the suffixes.
\<close>

unbundle bit_operations_syntax

subsection \<open>Collections of facts\<close>

named_theorems cstring \<open>facts about the C string functions\<close>
named_theorems queue_simps \<open>facts about the intrusive queue\<close>
named_theorems buffer_simps \<open>facts about ems_buffer\<close>

subsection \<open>Addresses and flags\<close>

type_synonym addr = nat

text \<open>Flag words are \<open>ems_uint\<close>, 32 bits wide.\<close>

type_synonym flags = "32 word"

definition ems_flag_like :: "flags \<Rightarrow> flags \<Rightarrow> bool" where
  "ems_flag_like fld flg \<longleftrightarrow> fld AND flg \<noteq> 0"

definition ems_flag_set :: "flags \<Rightarrow> flags \<Rightarrow> flags" where
  "ems_flag_set fld flg = fld OR flg"

definition ems_flag_unset :: "flags \<Rightarrow> flags \<Rightarrow> flags" where
  "ems_flag_unset fld flg = (if ems_flag_like fld flg then fld XOR flg else fld)"

lemma ems_flag_set_bit:
  "ems_flag_like (ems_flag_set fld (2 ^ n)) (2 ^ n) \<longleftrightarrow> n < 32"
proof -
  have "(fld OR 2 ^ n) AND 2 ^ n = (2 ^ n :: flags)"
    by (rule bit_word_eqI) (auto simp: bit_simps)
  then show ?thesis
    by (simp add: ems_flag_like_def ems_flag_set_def not_le)
qed

lemma ems_flag_like_bit: "ems_flag_like fld (2 ^ n) \<longleftrightarrow> bit fld n"
proof -
  have "fld AND 2 ^ n = of_bool (bit fld n) * 2 ^ n"
    by (rule bit_word_eqI) (auto simp: bit_simps)
  moreover have "bit fld n \<Longrightarrow> n < 32" by (auto dest: bit_imp_le_length)
  ultimately show ?thesis by (auto simp: ems_flag_like_def)
qed

subsection \<open>Status codes\<close>

abbreviation (input) "EMS_OK \<equiv> (0 :: int)"
abbreviation (input) "EMS_ERR \<equiv> (-1 :: int)"
abbreviation (input) "EMS_ERR_TICKET_EXIST \<equiv> (-2 :: int)"

text \<open>The value of \<open>EAGAIN\<close> on Linux.\<close>

abbreviation (input) "EAGAIN \<equiv> (11 :: int)"

subsection \<open>Options\<close>

lemma option_eqI:
  assumes "\<And>b. x = Some b \<longleftrightarrow> y = Some b"
  shows "x = y"
proof (cases y)
  case None
  then show ?thesis using assms by (cases x) auto
next
  case (Some b)
  then show ?thesis using assms [of b] by simp
qed

subsection \<open>Lists\<close>

lemma takeWhile_append_stop:
  "takeWhile P ys = [] \<Longrightarrow> takeWhile P zs = [] \<Longrightarrow> takeWhile P (xs @ ys) = takeWhile P (xs @ zs)"
  by (induction xs) auto

subsection \<open>Characters\<close>

text \<open>
  \<open>uchr\<close> reads a character as \<open>unsigned char\<close>, \<open>schr\<close> as the signed \<open>char\<close> of the
  platform the code is built for.
\<close>

definition uchr :: "char \<Rightarrow> nat" where
  "uchr c = of_char c"

definition schr :: "char \<Rightarrow> int" where
  "schr c = (if uchr c < 128 then int (uchr c) else int (uchr c) - 256)"

lemma uchr_less [simp]: "uchr c < 256"
  by (simp add: uchr_def)

lemma uchr_le [simp]: "uchr c \<le> 255"
  using uchr_less [of c] by linarith

lemma char_of_uchr [simp]: "char_of (uchr c) = c"
  by (simp add: uchr_def)

lemma uchr_char_of [simp]: "n < 256 \<Longrightarrow> uchr (char_of n) = n"
  by (simp add: uchr_def)

lemma schr_bounds: "-128 \<le> schr c" "schr c \<le> 127"
  using uchr_less [of c] by (auto simp: schr_def simp del: uchr_less)

subsection \<open>The C string functions\<close>

text \<open>\<open>strstr\<close>: the first suffix of the haystack that starts with the needle.\<close>

fun strstr :: "string \<Rightarrow> string \<Rightarrow> string option" where
  "strstr [] n = (if n = [] then Some [] else None)"
| "strstr (c # h) n = (if prefix n (c # h) then Some (c # h) else strstr h n)"

fun strchr :: "string \<Rightarrow> char \<Rightarrow> string option" where
  "strchr [] c = None"
| "strchr (x # s) c = (if x = c then Some (x # s) else strchr s c)"

definition strncmp_eq :: "string \<Rightarrow> string \<Rightarrow> nat \<Rightarrow> bool" where
  "strncmp_eq s t n \<longleftrightarrow> take n s = take n t"

lemma strstr_prefix [cstring]: "strstr h n = Some s \<Longrightarrow> prefix n s"
  by (induction h n rule: strstr.induct) (auto split: if_splits)

lemma strstr_suffix [cstring]: "strstr h n = Some s \<Longrightarrow> suffix s h"
  by (induction h n rule: strstr.induct) (auto split: if_splits simp: suffix_Cons)

lemma strstr_split:
  assumes "strstr h n = Some s"
  obtains pre post where "h = pre @ n @ post" and "s = n @ post"
  using strstr_prefix [OF assms] strstr_suffix [OF assms]
  by (auto simp: prefix_def suffix_def)

lemma strstr_len_le [cstring]: "strstr h n = Some s \<Longrightarrow> length s \<le> length h"
  by (blast dest: strstr_suffix suffix_length_le)

lemma strstr_None_iff [cstring]: "strstr h n = None \<longleftrightarrow> \<not> sublist n h"
  by (induction h n rule: strstr.induct) (auto simp: sublist_Cons_right)

lemma strstr_first [cstring]:
  "strstr h n = Some s \<Longrightarrow> i < length h - length s \<Longrightarrow> \<not> prefix n (drop i h)"
proof (induction h n arbitrary: i rule: strstr.induct)
  case (1 n)
  then show ?case by (auto split: if_splits)
next
  case (2 c h n)
  then show ?case
    by (cases i) (auto split: if_splits dest!: strstr_len_le simp: Suc_diff_le)
qed

lemma strchr_Some [cstring]:
  "strchr s c = Some t \<Longrightarrow> \<exists>pre post. s = pre @ c # post \<and> t = c # post \<and> c \<notin> set pre"
proof (induction s)
  case Nil
  then show ?case by simp
next
  case (Cons x s)
  show ?case
  proof (cases "x = c")
    case True
    with Cons.prems show ?thesis by force
  next
    case False
    with Cons obtain pre post where "s = pre @ c # post" "t = c # post" "c \<notin> set pre" by auto
    with False have "x # s = (x # pre) @ c # post \<and> t = c # post \<and> c \<notin> set (x # pre)" by simp
    then show ?thesis by blast
  qed
qed

lemma strchr_None [cstring]: "strchr s c = None \<longleftrightarrow> c \<notin> set s"
  by (induction s) auto

subsection \<open>Overwriting a part of a memory area\<close>

text \<open>\<open>memcpy (mem + off, src, length src)\<close> inside an area.\<close>

definition mem_write :: "'a list \<Rightarrow> nat \<Rightarrow> 'a list \<Rightarrow> 'a list" where
  "mem_write mem off src = take off mem @ src @ drop (off + length src) mem"

lemma length_mem_write [simp]:
  "off + length src \<le> length mem \<Longrightarrow> length (mem_write mem off src) = length mem"
  by (simp add: mem_write_def)

lemma take_mem_write [simp]: "off \<le> length mem \<Longrightarrow> take off (mem_write mem off src) = take off mem"
  by (simp add: mem_write_def)

lemma mem_write_Nil [simp]: "mem_write mem off [] = mem"
  by (simp add: mem_write_def)

lemma mem_write_region:
  "off \<le> length mem \<Longrightarrow> take (length src) (drop off (mem_write mem off src)) = src"
  by (simp add: mem_write_def)

lemma take_mem_write_extend:
  "off \<le> length mem \<Longrightarrow> take (off + length src) (mem_write mem off src) = take off mem @ src"
  by (simp add: mem_write_def min_def)

subsection \<open>Removal from lists\<close>

lemma set_fold_remove1: "distinct xs \<Longrightarrow> set (fold remove1 ys xs) = set xs - set ys"
  by (induction ys arbitrary: xs) (auto simp: distinct_remove1 set_remove1_eq)

subsection \<open>Systems of steps\<close>

text \<open>
  A component that reacts to events is a set of initial states and a step relation; a property of
  the initial states that every step keeps holds in every state that can be reached.
\<close>

locale step_system =
  fixes start :: "'s \<Rightarrow> bool"
    and step :: "'s \<Rightarrow> 's \<Rightarrow> bool"
    and inv :: "'s \<Rightarrow> bool"
  assumes start_law: "start s \<Longrightarrow> inv s"
    and step_law: "inv s \<Longrightarrow> step s t \<Longrightarrow> inv t"
begin

lemma steps_inv: "step\<^sup>*\<^sup>* s t \<Longrightarrow> inv s \<Longrightarrow> inv t"
  by (induction rule: rtranclp_induct) (auto intro: step_law)

lemma reachable_inv: "start s \<Longrightarrow> step\<^sup>*\<^sup>* s t \<Longrightarrow> inv t"
  using start_law steps_inv by blast

lemma reachable_step_inv: "start s \<Longrightarrow> step\<^sup>*\<^sup>* s t \<Longrightarrow> step t u \<Longrightarrow> inv u"
  using reachable_inv step_law by blast

end

end
