(* ===== verification/Ems_Queue.thy ===== *)
theory Ems_Queue
  imports Ems_Prelude
begin

text \<open>
  The intrusive circular doubly linked list of \<^verbatim>\<open>c/ems/inc/ems_queue.h\<close>.
  The macros are modelled on an explicit store: two maps from the address of a queue node to
  the addresses in its \<open>prev\<close> and \<open>next\<close> fields, updated by one assignment after the other
  in the order of the macro's text. The abstraction predicate \<open>ring\<close> says that the nodes
  reachable from a head form a well-linked ring that holds a given list; each operation is
  shown to implement the operation on lists. The build without \<open>DEBUG\<close> is modelled:
  \<open>ems_queue_remove\<close> leaves the links of the removed node as they were.
\<close>

record qheap =
  prv :: "addr \<Rightarrow> addr"
  nxt :: "addr \<Rightarrow> addr"

abbreviation set_prev :: "addr \<Rightarrow> addr \<Rightarrow> qheap \<Rightarrow> qheap" where
  "set_prev a v h \<equiv> h\<lparr>prv := (prv h)(a := v)\<rparr>"

abbreviation set_next :: "addr \<Rightarrow> addr \<Rightarrow> qheap \<Rightarrow> qheap" where
  "set_next a v h \<equiv> h\<lparr>nxt := (nxt h)(a := v)\<rparr>"

subsection \<open>The macros\<close>

definition ems_queue_init :: "addr \<Rightarrow> qheap \<Rightarrow> qheap" where
  "ems_queue_init q h =
    (let h1 = set_prev q q h
     in set_next q q h1)"

definition ems_queue_empty :: "addr \<Rightarrow> qheap \<Rightarrow> bool" where
  "ems_queue_empty q h \<longleftrightarrow> q = prv h q"

definition ems_queue_insert_head :: "addr \<Rightarrow> addr \<Rightarrow> qheap \<Rightarrow> qheap" where
  "ems_queue_insert_head q x h =
    (let h1 = set_next x (nxt h q) h;
         h2 = set_prev (nxt h1 x) x h1;
         h3 = set_prev x q h2
     in set_next q x h3)"

definition ems_queue_insert_tail :: "addr \<Rightarrow> addr \<Rightarrow> qheap \<Rightarrow> qheap" where
  "ems_queue_insert_tail q x h =
    (let h1 = set_prev x (prv h q) h;
         h2 = set_next (prv h1 x) x h1;
         h3 = set_next x q h2
     in set_prev q x h3)"

definition ems_queue_head :: "addr \<Rightarrow> qheap \<Rightarrow> addr" where
  "ems_queue_head q h = nxt h q"

definition ems_queue_last :: "addr \<Rightarrow> qheap \<Rightarrow> addr" where
  "ems_queue_last q h = prv h q"

definition ems_queue_remove :: "addr \<Rightarrow> qheap \<Rightarrow> qheap" where
  "ems_queue_remove x h =
    (let h1 = set_prev (nxt h x) (prv h x) h
     in set_next (prv h1 x) (nxt h1 x) h1)"

definition ems_queue_split :: "addr \<Rightarrow> addr \<Rightarrow> addr \<Rightarrow> qheap \<Rightarrow> qheap" where
  "ems_queue_split q p n h =
    (let h1 = set_prev n (prv h q) h;
         h2 = set_next (prv h1 n) n h1;
         h3 = set_next n p h2;
         h4 = set_prev q (prv h3 p) h3;
         h5 = set_next (prv h4 q) q h4
     in set_prev p n h5)"

definition ems_queue_add :: "addr \<Rightarrow> addr \<Rightarrow> qheap \<Rightarrow> qheap" where
  "ems_queue_add q n h =
    (let h1 = set_next (prv h q) (nxt h n) h;
         h2 = set_prev (nxt h1 n) (prv h1 q) h1;
         h3 = set_prev q (prv h2 n) h2
     in set_next (prv h3 q) q h3)"

text \<open>
  The loops take fuel: \<open>None\<close> stands for a traversal that has not come back to the sentinel
  within the fuel. A ring of \<open>n\<close> nodes needs \<open>n + 1\<close> units.
\<close>

fun ems_queue_foreach :: "nat \<Rightarrow> addr \<Rightarrow> addr \<Rightarrow> qheap \<Rightarrow> addr list option" where
  "ems_queue_foreach 0 q p h = None"
| "ems_queue_foreach (Suc n) q p h =
    (if p = q then Some []
     else map_option ((#) p) (ems_queue_foreach n q (nxt h p) h))"

definition ems_queue_len :: "nat \<Rightarrow> addr \<Rightarrow> qheap \<Rightarrow> nat option" where
  "ems_queue_len fuel q h = map_option length (ems_queue_foreach fuel q (ems_queue_head q h) h)"

fun ems_queue_clean :: "nat \<Rightarrow> addr \<Rightarrow> qheap \<Rightarrow> qheap option" where
  "ems_queue_clean 0 q h = None"
| "ems_queue_clean (Suc n) q h =
    (if ems_queue_empty q h then Some h
     else ems_queue_clean n q (ems_queue_remove (ems_queue_head q h) h))"

text \<open>\<open>ems_queue_clear\<close> also hands each removed node to a destructor, in order.\<close>

fun ems_queue_clear :: "nat \<Rightarrow> addr \<Rightarrow> qheap \<Rightarrow> (qheap \<times> addr list) option" where
  "ems_queue_clear 0 q h = None"
| "ems_queue_clear (Suc n) q h =
    (if ems_queue_empty q h then Some (h, [])
     else (let x = ems_queue_head q h
           in map_option (\<lambda>(h', ds). (h', x # ds)) (ems_queue_clear n q (ems_queue_remove x h))))"

subsection \<open>Well-linked rings\<close>

fun links :: "qheap \<Rightarrow> addr \<Rightarrow> addr list \<Rightarrow> addr \<Rightarrow> bool" where
  "links h a [] b \<longleftrightarrow> nxt h a = b \<and> prv h b = a"
| "links h a (x # xs) b \<longleftrightarrow> nxt h a = x \<and> prv h x = a \<and> links h x xs b"

definition ring :: "qheap \<Rightarrow> addr \<Rightarrow> addr list \<Rightarrow> bool" where
  "ring h q xs \<longleftrightarrow> distinct (q # xs) \<and> links h q xs q"

lemma links_append [queue_simps]:
  "links h a (xs @ x # ys) b \<longleftrightarrow> links h a xs x \<and> links h x ys b"
  by (induction xs arbitrary: a) auto

lemma links_frame:
  assumes "\<And>y. y \<in> set (a # xs) \<Longrightarrow> nxt h' y = nxt h y"
    and "\<And>y. y \<in> set (b # xs) \<Longrightarrow> prv h' y = prv h y"
  shows "links h' a xs b = links h a xs b"
  using assms
proof (induction xs arbitrary: a)
  case Nil
  then show ?case by simp
next
  case (Cons x xs)
  have "links h' x xs b = links h x xs b"
    using Cons.prems by (intro Cons.IH) auto
  with Cons.prems show ?case by simp
qed

text \<open>
  Most operations keep a chain of nodes and only change where its last node points to.
\<close>

lemma links_retarget:
  assumes "links h a xs b" and "distinct (a # xs)"
    and "\<And>y. y \<in> set (a # xs) \<Longrightarrow> y \<noteq> last (a # xs) \<Longrightarrow> nxt h' y = nxt h y"
    and "\<And>y. y \<in> set xs \<Longrightarrow> prv h' y = prv h y"
    and "nxt h' (last (a # xs)) = c" and "prv h' c = last (a # xs)"
  shows "links h' a xs c"
  using assms
proof (induction xs arbitrary: a)
  case Nil
  then show ?case by simp
next
  case (Cons x xs)
  have "links h' x xs c"
    using Cons.prems by (intro Cons.IH) auto
  moreover have "last (x # xs) \<in> set (x # xs)" by (rule last_in_set) simp
  then have "a \<noteq> last (x # xs)" using Cons.prems(2) by auto
  then have "nxt h' a = nxt h a" using Cons.prems(3) [of a] by simp
  then have "nxt h' a = x" using Cons.prems(1) by simp
  moreover have "prv h' x = a"
    using Cons.prems(1) Cons.prems(4) [of x] by simp
  ultimately show ?case by simp
qed

lemma links_next: "links h a xs b \<Longrightarrow> nxt h a = hd (xs @ [b])"
  by (cases xs) auto

lemma links_prev: "links h a xs b \<Longrightarrow> prv h b = last (a # xs)"
  by (induction xs arbitrary: a) auto

lemma ring_next: "ring h q xs \<Longrightarrow> nxt h q = hd (xs @ [q])"
  by (auto simp: ring_def dest: links_next)

lemma ring_prev: "ring h q xs \<Longrightarrow> prv h q = last (q # xs)"
  by (auto simp: ring_def dest: links_prev)

lemma ring_distinct: "ring h q xs \<Longrightarrow> distinct xs \<and> q \<notin> set xs"
  by (simp add: ring_def)

text \<open>Two rings on disjoint sets of nodes do not see each other's updates.\<close>

lemma ring_frame:
  assumes "ring h q xs"
    and "\<And>y. y \<in> set (q # xs) \<Longrightarrow> nxt h' y = nxt h y"
    and "\<And>y. y \<in> set (q # xs) \<Longrightarrow> prv h' y = prv h y"
  shows "ring h' q xs"
  using assms links_frame [of q xs h' h q] by (simp add: ring_def)

subsection \<open>The operations on rings\<close>

lemma links_set_next_other:
  "y \<notin> set (a # xs) \<Longrightarrow> links (set_next y v h) a xs b = links h a xs b"
  by (rule links_frame) auto

lemma links_set_prev_other:
  "y \<notin> set (b # xs) \<Longrightarrow> links (set_prev y v h) a xs b = links h a xs b"
  by (rule links_frame) auto

lemma ring_init: "ring (ems_queue_init q h) q []"
  by (simp add: ring_def ems_queue_init_def Let_def)

lemma ring_empty: "ring h q xs \<Longrightarrow> ems_queue_empty q h \<longleftrightarrow> xs = []"
  using ring_prev [of h q xs] ring_distinct [of h q xs]
  by (cases xs rule: rev_cases) (auto simp: ems_queue_empty_def)

lemma ring_head: "ring h q (x # xs) \<Longrightarrow> ems_queue_head q h = x"
  by (simp add: ring_def ems_queue_head_def)

lemma ring_last: "ring h q (xs @ [x]) \<Longrightarrow> ems_queue_last q h = x"
  using ring_prev [of h q "xs @ [x]"] by (simp add: ems_queue_last_def)

text \<open>
  A ring has no distinguished node: it can be seen from any of its members. Insertion and
  removal at any place are therefore insertion and removal next to the head, seen from there.
\<close>

lemma ring_rotate: "ring h q (as @ p # bs) \<longleftrightarrow> ring h p (bs @ q # as)"
  by (auto simp: ring_def links_append)

lemma ring_insert_tail:
  assumes "ring h q xs" and "x \<notin> set (q # xs)"
  shows "ring (ems_queue_insert_tail q x h) q (xs @ [x])"
proof -
  let ?h = "ems_queue_insert_tail q x h"
  have l: "links h q xs q" and d: "distinct (q # xs)" using assms(1) by (auto simp: ring_def)
  have lp: "prv h q = last (q # xs)" using ring_prev [OF assms(1)] .
  have nxt: "nxt ?h = (nxt h)(last (q # xs) := x, x := q)"
    and prv: "prv ?h = (prv h)(x := last (q # xs), q := x)"
    using assms(2) lp by (auto simp: ems_queue_insert_tail_def Let_def fun_eq_iff)
  have "last (q # xs) \<noteq> x" using assms(2) last_in_set [of "q # xs"] by auto
  then have "links ?h q xs x"
    using assms(2) d by (intro links_retarget [OF l d]) (auto simp: nxt prv)
  then have "links ?h q (xs @ [x]) q" by (simp add: links_append nxt prv)
  with assms d show ?thesis by (auto simp: ring_def)
qed

lemma ring_insert_before:
  assumes "ring h q (as @ p # bs)" and "x \<notin> set (q # as @ p # bs)"
  shows "ring (ems_queue_insert_tail p x h) q (as @ x # p # bs)"
proof -
  from assms(1) have "ring h p (bs @ q # as)" by (simp add: ring_rotate)
  then have "ring (ems_queue_insert_tail p x h) p ((bs @ q # as) @ [x])"
    using assms(2) by (intro ring_insert_tail) auto
  then show ?thesis using ring_rotate [of _ p bs q "as @ [x]"] by simp
qed

text \<open>Inserting after \<open>q\<close> is inserting before the node after \<open>q\<close>.\<close>

lemma insert_head_eq_tail:
  assumes "ring h q xs" and "x \<notin> set (q # xs)"
  shows "ems_queue_insert_head q x h = ems_queue_insert_tail (nxt h q) x h"
proof -
  have bk: "prv h (nxt h q) = q"
    using assms(1) by (cases xs) (auto simp: ring_def)
  have "nxt h q \<noteq> x" using ring_next [OF assms(1)] assms(2) by (cases xs) auto
  with bk assms(2) show ?thesis
    by (intro qheap.equality)
       (auto simp: ems_queue_insert_head_def ems_queue_insert_tail_def Let_def fun_eq_iff)
qed

lemma ring_insert_head:
  assumes "ring h q xs" and "x \<notin> set (q # xs)"
  shows "ring (ems_queue_insert_head q x h) q (x # xs)"
proof (cases xs)
  case Nil
  with assms have "nxt h q = q" by (simp add: ring_def)
  with assms Nil show ?thesis
    using ring_insert_tail [of h q "[]" x] by (simp add: insert_head_eq_tail)
next
  case (Cons y ys)
  with assms have "nxt h q = y" by (simp add: ring_def)
  with assms Cons show ?thesis
    using ring_insert_before [of h q "[]" y ys x] by (simp add: insert_head_eq_tail)
qed

lemma ring_remove_self:
  assumes "ring h x (y # ys)"
  shows "ring (ems_queue_remove x h) y ys"
proof -
  let ?h = "ems_queue_remove x h" and ?z = "last (y # ys)"
  have d: "distinct (x # y # ys)" and l: "links h x (y # ys) x"
    using assms by (auto simp: ring_def)
  have nx: "nxt h x = y" and px: "prv h x = ?z"
    using l ring_prev [OF assms] by auto
  have "?z \<noteq> x" "y \<noteq> x" using d last_in_set [of "y # ys"] by auto
  then have nxt: "nxt ?h = (nxt h)(?z := y)" and prv: "prv ?h = (prv h)(y := ?z)"
    using nx px by (auto simp: ems_queue_remove_def Let_def fun_eq_iff)
  have "links h y ys x" using l by simp
  moreover have "distinct (y # ys)" using d by simp
  ultimately have "links ?h y ys y"
    by (rule links_retarget) (use d in \<open>auto simp: nxt prv\<close>)
  with d show ?thesis by (simp add: ring_def)
qed

lemma ring_remove:
  assumes "ring h q (as @ x # bs)"
  shows "ring (ems_queue_remove x h) q (as @ bs)"
proof -
  from assms have r: "ring h x (bs @ q # as)" by (simp add: ring_rotate)
  show ?thesis
  proof (cases bs)
    case Nil
    with r show ?thesis by (simp add: ring_remove_self)
  next
    case (Cons y ys)
    with r have "ring (ems_queue_remove x h) y (ys @ q # as)" by (simp add: ring_remove_self)
    with Cons show ?thesis by (simp add: ring_rotate)
  qed
qed

lemma ring_remove_member:
  assumes "ring h q xs" and "x \<in> set xs"
  shows "ring (ems_queue_remove x h) q (remove1 x xs)"
proof -
  obtain as bs where xs: "xs = as @ x # bs" and "x \<notin> set as"
    using split_list_first [OF assms(2)] by blast
  with assms(1) show ?thesis using ring_remove [of h q as x bs] by (simp add: remove1_append)
qed

text \<open>What removal does outside the ring it works in: nothing.\<close>

lemma remove_frame:
  assumes "ring h q xs" and "x \<in> set xs" and "y \<notin> set (q # xs)"
  shows "nxt (ems_queue_remove x h) y = nxt h y \<and> prv (ems_queue_remove x h) y = prv h y"
proof -
  obtain as bs where xs: "xs = as @ x # bs" using split_list [OF assms(2)] by blast
  with assms(1) have r: "ring h x (bs @ q # as)" by (simp add: ring_rotate)
  have "nxt h x \<in> set (q # xs)" "prv h x \<in> set (q # xs)" "nxt h x \<noteq> x" "prv h x \<noteq> x"
    using ring_next [OF r] ring_prev [OF r] ring_distinct [OF r] xs
    by (cases bs; auto split: if_splits)+
  with assms(3) show ?thesis by (auto simp: ems_queue_remove_def Let_def)
qed

lemma insert_tail_frame:
  assumes "ring h q xs" and "y \<notin> set (x # q # xs)"
  shows "nxt (ems_queue_insert_tail q x h) y = nxt h y \<and> prv (ems_queue_insert_tail q x h) y = prv h y"
  using assms ring_prev [OF assms(1)] by (auto simp: ems_queue_insert_tail_def Let_def)

subsection \<open>Splitting a queue and joining two\<close>

lemma ring_split:
  assumes "ring h q (as @ p # bs)" and "n \<notin> set (q # as @ p # bs)"
  shows "ring (ems_queue_split q p n h) q as" and "ring (ems_queue_split q p n h) n (p # bs)"
proof -
  let ?h = "ems_queue_split q p n h" and ?y = "last (p # bs)" and ?z = "last (q # as)"
  have d: "distinct (q # as @ p # bs)" and l1: "links h q as p" and l2: "links h p bs q"
    using assms(1) by (auto simp: ring_def links_append)
  have y: "prv h q = ?y" and z: "prv h p = ?z"
    using links_prev [OF l2] links_prev [OF l1] by auto
  have yin: "?y \<in> set (p # bs)" and zin: "?z \<in> set (q # as)" by (rule last_in_set; simp)+
  then have ne: "?y \<noteq> n" "?z \<noteq> n" "?y \<noteq> ?z" "n \<noteq> p" "n \<noteq> q" "p \<noteq> q"
    using assms(2) d by auto
  have nxt: "nxt ?h = (nxt h)(?y := n, n := p, ?z := q)"
    and prv: "prv ?h = (prv h)(n := ?y, q := ?z, p := n)"
    using ne y z by (auto simp: ems_queue_split_def Let_def fun_eq_iff)
  have "links ?h q as q"
    using l1 by (rule links_retarget) (use d assms(2) yin ne in \<open>auto simp: nxt prv\<close>)
  with d show "ring ?h q as" by (simp add: ring_def)
  have "links ?h p bs n"
    using l2 by (rule links_retarget) (use d assms(2) zin ne in \<open>auto simp: nxt prv\<close>)
  moreover have "nxt ?h n = p" "prv ?h p = n" using ne nxt prv by auto
  ultimately show "ring ?h n (p # bs)" using d assms(2) by (simp add: ring_def)
qed

lemma ring_add:
  assumes "ring h q xs" and "ring h n ys" and "set (q # xs) \<inter> set (n # ys) = {}"
  shows "ring (ems_queue_add q n h) q (xs @ ys)"
proof (cases ys)
  case Nil
  let ?z = "last (q # xs)"
  have d: "distinct (q # xs)" and l: "links h q xs q" and n: "nxt h n = n" "prv h n = n" "n \<notin> set (q # xs)"
    using assms Nil by (auto simp: ring_def)
  have "?z \<in> set (q # xs)" by (rule last_in_set) simp
  then have "?z \<noteq> n" using n by auto
  then have "nxt (ems_queue_add q n h) = (nxt h)(?z := q)"
    and "prv (ems_queue_add q n h) = (prv h)(n := ?z, q := ?z)"
    using n ring_prev [OF assms(1)] by (auto simp: ems_queue_add_def Let_def fun_eq_iff)
  then have "links (ems_queue_add q n h) q xs q"
    using n d by (intro links_retarget [OF l d]) auto
  with d Nil show ?thesis by (simp add: ring_def)
next
  case (Cons y bs)
  let ?h = "ems_queue_add q n h" and ?z = "last (q # xs)" and ?w = "last (y # bs)"
  have d: "distinct (q # xs)" "distinct (n # y # bs)" and l1: "links h q xs q"
    and l2: "nxt h n = y" "prv h y = n" "links h y bs n"
    using assms Cons by (auto simp: ring_def)
  have z: "prv h q = ?z" and w: "prv h n = ?w"
    using links_prev [OF l1] links_prev [OF l2(3)] by auto
  have zin: "?z \<in> set (q # xs)" and win: "?w \<in> set (y # bs)" by (rule last_in_set; simp)+
  then have ne: "?z \<noteq> n" "?w \<noteq> n" "?z \<noteq> ?w" "?w \<noteq> q" "y \<noteq> q" "n \<noteq> q" "y \<noteq> n"
    using assms(3) d Cons by auto
  have nxt: "nxt ?h = (nxt h)(?z := y, ?w := q)" and prv: "prv ?h = (prv h)(y := ?z, q := ?w)"
    using ne z w l2 by (auto simp: ems_queue_add_def Let_def fun_eq_iff)
  have "links ?h q xs y"
    using l1 d(1) by (rule links_retarget) (use assms(3) d Cons win ne in \<open>auto simp: nxt prv\<close>)
  moreover have "links ?h y bs q"
    using l2(3) by (rule links_retarget) (use assms(3) d Cons zin ne in \<open>auto simp: nxt prv\<close>)
  ultimately have "links ?h q (xs @ ys) q" using Cons by (simp add: links_append)
  with d assms(3) Cons show ?thesis by (auto simp: ring_def)
qed

subsection \<open>Traversals\<close>

lemma foreach_links:
  "links h a xs q \<Longrightarrow> q \<notin> set xs \<Longrightarrow> length xs < fuel \<Longrightarrow>
    ems_queue_foreach fuel q (nxt h a) h = Some xs"
proof (induction xs arbitrary: a fuel)
  case Nil
  then show ?case by (cases fuel) auto
next
  case (Cons x xs)
  then obtain n where "fuel = Suc n" by (cases fuel) auto
  moreover have "ems_queue_foreach n q (nxt h x) h = Some xs"
    using Cons.prems \<open>fuel = Suc n\<close> by (intro Cons.IH) auto
  ultimately show ?case using Cons.prems by auto
qed

lemma foreach_ring:
  "ring h q xs \<Longrightarrow> length xs < fuel \<Longrightarrow>
    ems_queue_foreach fuel q (ems_queue_head q h) h = Some xs"
  by (auto simp: ring_def ems_queue_head_def intro: foreach_links)

lemma len_ring: "ring h q xs \<Longrightarrow> length xs < fuel \<Longrightarrow> ems_queue_len fuel q h = Some (length xs)"
  by (simp add: ems_queue_len_def foreach_ring)

lemma clean_ring:
  "ring h q xs \<Longrightarrow> length xs < fuel \<Longrightarrow>
    \<exists>h'. ems_queue_clean fuel q h = Some h' \<and> ring h' q []"
proof (induction xs arbitrary: h fuel)
  case Nil
  then show ?case by (cases fuel) (auto simp: ring_empty)
next
  case (Cons x xs)
  then obtain n where n: "fuel = Suc n" "length xs < n" by (cases fuel) auto
  have "ring (ems_queue_remove x h) q xs"
    using Cons.prems(1) ring_remove [of h q "[]" x xs] by simp
  from Cons.IH [OF this n(2)] show ?case
    using Cons.prems(1) n(1) by (simp add: ring_empty ring_head)
qed

lemma clear_ring:
  "ring h q xs \<Longrightarrow> length xs < fuel \<Longrightarrow>
    \<exists>h'. ems_queue_clear fuel q h = Some (h', xs) \<and> ring h' q []"
proof (induction xs arbitrary: h fuel)
  case Nil
  then show ?case by (cases fuel) (auto simp: ring_empty)
next
  case (Cons x xs)
  then obtain n where n: "fuel = Suc n" "length xs < n" by (cases fuel) auto
  have "ring (ems_queue_remove x h) q xs"
    using Cons.prems(1) ring_remove [of h q "[]" x xs] by simp
  from Cons.IH [OF this n(2)] show ?case
    using Cons.prems(1) n(1) by (auto simp: ring_empty ring_head Let_def)
qed

subsection \<open>The interface: a queue of nodes\<close>

text \<open>
  What the code that keeps its objects in queues relies on: a node that is not in the queue is
  appended at its end, the head is the oldest node, any member can be taken out, and the test
  for emptiness is right.
\<close>

locale node_queue =
  fixes holds :: "'h \<Rightarrow> 'n \<Rightarrow> 'n list \<Rightarrow> bool"
    and enq :: "'n \<Rightarrow> 'n \<Rightarrow> 'h \<Rightarrow> 'h"
    and rmv :: "'n \<Rightarrow> 'h \<Rightarrow> 'h"
    and first :: "'n \<Rightarrow> 'h \<Rightarrow> 'n"
    and isempty :: "'n \<Rightarrow> 'h \<Rightarrow> bool"
  assumes holds_distinct: "holds h q xs \<Longrightarrow> distinct (q # xs)"
    and holds_enq: "holds h q xs \<Longrightarrow> x \<notin> set (q # xs) \<Longrightarrow> holds (enq q x h) q (xs @ [x])"
    and holds_rmv: "holds h q (as @ x # bs) \<Longrightarrow> holds (rmv x h) q (as @ bs)"
    and holds_first: "holds h q (x # xs) \<Longrightarrow> first q h = x"
    and holds_isempty: "holds h q xs \<Longrightarrow> isempty q h \<longleftrightarrow> xs = []"
begin

text \<open>Appending a list of fresh nodes one by one keeps their order.\<close>

lemma holds_enq_all:
  "holds h q xs \<Longrightarrow> distinct ys \<Longrightarrow> set ys \<inter> set (q # xs) = {} \<Longrightarrow>
    holds (fold (enq q) ys h) q (xs @ ys)"
proof (induction ys arbitrary: h xs)
  case Nil
  then show ?case by simp
next
  case (Cons y ys)
  have "holds (enq q y h) q (xs @ [y])"
    using Cons.prems by (intro holds_enq) auto
  then have "holds (fold (enq q) ys (enq q y h)) q ((xs @ [y]) @ ys)"
    using Cons.prems by (intro Cons.IH) auto
  then show ?case by simp
qed

text \<open>Taking a member out and appending it again moves it to the end: the step of an LRU list.\<close>

lemma holds_touch:
  assumes "holds h q (as @ x # bs)"
  shows "holds (enq q x (rmv x h)) q (as @ bs @ [x])"
proof -
  have "holds (rmv x h) q (as @ bs)" using assms by (rule holds_rmv)
  moreover have "x \<notin> set (q # as @ bs)" using holds_distinct [OF assms] by auto
  ultimately show ?thesis using holds_enq [of "rmv x h" q "as @ bs" x] by simp
qed

text \<open>Dropping the oldest node, as the LRU lists do when they are full.\<close>

lemma holds_evict:
  assumes "holds h q xs" and "\<not> isempty q h"
  shows "holds (rmv (first q h) h) q (tl xs)"
proof -
  obtain y ys where xs: "xs = y # ys" using assms holds_isempty by (cases xs) auto
  then show ?thesis using assms holds_first [of h q y ys] holds_rmv [of h q "[]" y ys] by simp
qed

end

interpretation eq: node_queue ring ems_queue_insert_tail ems_queue_remove ems_queue_head ems_queue_empty
  by unfold_locales
    (auto simp: ring_empty intro: ring_insert_tail ring_remove ring_head dest: ring_distinct)

subsection \<open>Properties\<close>

text \<open>A store with three queue nodes, for the witnesses: the ring of head 0 holds 1 and 2.\<close>

definition qheap_zero :: qheap where
  "qheap_zero = \<lparr>prv = (\<lambda>_. 0), nxt = (\<lambda>_. 0)\<rparr>"

definition qheap_12 :: qheap where
  "qheap_12 = ems_queue_insert_tail 0 2 (ems_queue_insert_tail 0 1 (ems_queue_init 0 qheap_zero))"

lemma ring_qheap_12: "ring qheap_12 0 [1, 2]"
  by (simp add: ring_def qheap_12_def qheap_zero_def ems_queue_insert_tail_def ems_queue_init_def)

text \<open>
  C40: On a well-linked ring, inserting at the head, inserting before any member and removing any
  member are the corresponding operations on the list the ring holds; removal writes no link of
  a node outside the ring.
\<close>

theorem queue_ops_refine_lists:
  assumes "ring h q (as @ p # bs)" and "x \<notin> set (q # as @ p # bs)"
  shows "ring (ems_queue_insert_head q x h) q (x # as @ p # bs)
    \<and> ring (ems_queue_insert_tail q x h) q (as @ p # bs @ [x])
    \<and> ring (ems_queue_insert_tail p x h) q (as @ x # p # bs)
    \<and> ring (ems_queue_remove p h) q (as @ bs)
    \<and> nxt (ems_queue_remove p h) x = nxt h x \<and> prv (ems_queue_remove p h) x = prv h x"
  using assms ring_insert_head [OF assms] ring_insert_tail [OF assms] ring_insert_before [OF assms]
    ring_remove [OF assms(1)] remove_frame [OF assms(1), of p x] by simp

theorem queue_ops_refine_lists_witness:
  "ring (ems_queue_insert_tail 2 3 qheap_12) 0 [1, 3, 2] \<and> ring (ems_queue_remove 2 qheap_12) 0 [1]"
  using queue_ops_refine_lists [of qheap_12 0 "[1]" 2 "[]" 3] ring_qheap_12 by simp

text \<open>
  Splitting a queue at a member and appending the second part again restores the queue.
\<close>

theorem queue_split_add_roundtrip:
  assumes "ring h q (as @ p # bs)" and "n \<notin> set (q # as @ p # bs)"
  shows "ring (ems_queue_split q p n h) q as
    \<and> ring (ems_queue_split q p n h) n (p # bs)
    \<and> ring (ems_queue_add q n (ems_queue_split q p n h)) q (as @ p # bs)"
proof -
  have "set (q # as) \<inter> set (n # p # bs) = {}"
    using assms ring_distinct [OF assms(1)] by auto
  then have "ring (ems_queue_add q n (ems_queue_split q p n h)) q (as @ p # bs)"
    using ring_split [OF assms] by (intro ring_add)
  with ring_split [OF assms] show ?thesis by simp
qed

theorem queue_split_add_roundtrip_witness:
  "ring (ems_queue_split 0 2 3 qheap_12) 3 [2]
    \<and> ring (ems_queue_add 0 3 (ems_queue_split 0 2 3 qheap_12)) 0 [1, 2]"
  using queue_split_add_roundtrip [of qheap_12 0 "[1]" 2 "[]" 3] ring_qheap_12 by simp

text \<open>
  Every traversal of a ring ends: with one unit of fuel more than it has nodes,
  \<open>ems_queue_foreach\<close> visits the nodes in order, \<open>ems_queue_len\<close> counts them, and
  \<open>ems_queue_clear\<close> hands each to the destructor once, in order, and leaves the ring empty.
\<close>

theorem queue_loops_terminate:
  assumes "ring h q xs" and "length xs < fuel"
  shows "ems_queue_foreach fuel q (ems_queue_head q h) h = Some xs
    \<and> ems_queue_len fuel q h = Some (length xs)
    \<and> (\<exists>h'. ems_queue_clear fuel q h = Some (h', xs) \<and> ring h' q [])
    \<and> (\<exists>h'. ems_queue_clean fuel q h = Some h' \<and> ring h' q [])"
  using foreach_ring [OF assms] len_ring [OF assms] clear_ring [OF assms] clean_ring [OF assms]
  by blast

theorem queue_loops_terminate_witness:
  "ems_queue_len 3 0 qheap_12 = Some 2 \<and> (\<exists>h'. ems_queue_clear 3 0 qheap_12 = Some (h', [1, 2]) \<and> ring h' 0 [])"
  using queue_loops_terminate [OF ring_qheap_12, of 3] by simp

end
