(* ===== verification/Ems_Str.thy ===== *)
theory Ems_Str
  imports Ems_Prelude
begin

text \<open>
  The counted string of \<^verbatim>\<open>c/ems/inc/ems_str.h\<close> and \<^verbatim>\<open>c/ems/src/utils/ems_str.c\<close>:
  a length and a pointer to a copy of the text, \<open>None\<close> for the null pointer.
  \<open>str_set\<close> takes whether the allocation of the copy succeeds as its first argument; when it
  fails the code stores the length and a null pointer, which the model keeps.
\<close>

record ems_str =
  str_len :: nat
  str_data :: "string option"

definition str_init :: ems_str where
  "str_init = \<lparr>str_len = 0, str_data = None\<rparr>"

definition str_set :: "bool \<Rightarrow> ems_str option \<Rightarrow> string option \<Rightarrow> ems_str option \<times> int" where
  "str_set alloc str text =
    (case str of
       None \<Rightarrow> (None, EMS_OK)
     | Some s \<Rightarrow>
         (case text of
            Some t \<Rightarrow> (Some \<lparr>str_len = length t, str_data = (if alloc then Some t else None)\<rparr>, EMS_OK)
          | None \<Rightarrow> (Some \<lparr>str_len = 0, str_data = None\<rparr>, EMS_OK)))"

definition str_clear :: "ems_str option \<Rightarrow> ems_str option" where
  "str_clear str = fst (str_set True str None)"

text \<open>The length field agrees with the text, and an absent text has length 0.\<close>

definition str_ok :: "ems_str \<Rightarrow> bool" where
  "str_ok s \<longleftrightarrow> str_len s = (case str_data s of None \<Rightarrow> 0 | Some t \<Rightarrow> length t)"

lemma str_ok_init: "str_ok str_init"
  by (simp add: str_ok_def str_init_def)

lemma str_ok_set: "alloc \<or> text = None \<Longrightarrow> fst (str_set alloc (Some s) text) = Some s' \<Longrightarrow> str_ok s'"
  by (auto simp: str_set_def str_ok_def split: option.splits)

lemma str_set_text: "fst (str_set True (Some s) (Some t)) = Some s' \<Longrightarrow> str_data s' = Some t \<and> str_len s' = length t"
  by (auto simp: str_set_def)

lemma str_clear_eq: "str_clear (Some s) = Some str_init"
  by (simp add: str_clear_def str_set_def str_init_def)

end
