(* ===== verification/Ems_Hash.thy ===== *)
theory Ems_Hash
  imports Ems_Queue Ems_Str "HOL-Library.Multiset"
begin

text \<open>
  The chained hash table of \<^verbatim>\<open>c/ems/src/utils/ems_hash.c\<close>.
  The table is an array of \<open>n_base\<close> queue heads; an object is entered in a bucket with the
  \<open>ems_hash_fd\<close> embedded in it, which holds its reduced hash value and its key. A bucket is the
  list of the addresses of its nodes (the operations of \<open>Ems_Queue\<close> refine those on lists), and
  \<open>fd_crc\<close>, \<open>fd_key\<close> are the fields of the nodes by address.
  The functions that index the array return \<open>None\<close> where the index is outside it: the assertions
  that would stop the code are compiled out of a release build. Allocation may fail: the
  constructors take whether it succeeds.
\<close>

record ems_hash =
  n_base :: int
  base :: "addr list list"
  fd_crc :: "addr \<Rightarrow> int"
  fd_key :: "addr \<Rightarrow> string"

subsection \<open>The operations\<close>

definition hash_crc :: "string \<Rightarrow> int" where
  "hash_crc src = foldl (\<lambda>crc c. crc XOR (push_bit 8 (schr c) XOR schr c)) 0 src"

definition hash_find :: "ems_hash \<Rightarrow> addr list \<Rightarrow> string \<Rightarrow> addr option" where
  "hash_find hash head key = find (\<lambda>p. fd_key hash p = key) head"

definition ems_hash_init :: "bool \<Rightarrow> ems_hash \<Rightarrow> int \<Rightarrow> int \<times> ems_hash" where
  "ems_hash_init alloc hash b =
    (if \<not> alloc then (EMS_ERR, hash\<lparr>n_base := 0, base := []\<rparr>)
     else (EMS_OK, hash\<lparr>n_base := b, base := replicate (nat b) []\<rparr>))"

definition ems_hash_create :: "bool \<Rightarrow> bool \<Rightarrow> ems_hash \<Rightarrow> int \<Rightarrow> ems_hash option" where
  "ems_hash_create alloc alloc_base mem b =
    (if \<not> alloc then None
     else (case ems_hash_init alloc_base mem b of (ret, hash) \<Rightarrow>
             if ret \<noteq> EMS_OK then None else Some hash))"

definition ems_hash_uninit :: "ems_hash \<Rightarrow> ems_hash" where
  "ems_hash_uninit hash = hash\<lparr>base := [], n_base := 0\<rparr>"

definition ems_hash_insert :: "ems_hash \<Rightarrow> addr \<Rightarrow> (int \<times> ems_hash) option" where
  "ems_hash_insert hash fd =
    (let crc = fd_crc hash fd smod n_base hash;
         hash1 = hash\<lparr>fd_crc := (fd_crc hash)(fd := crc)\<rparr>
     in if crc < 0 \<or> int (length (base hash1)) \<le> crc then None
        else (let head = base hash1 ! nat crc
              in case hash_find hash1 head (fd_key hash1 fd) of
                   Some _ \<Rightarrow> Some (EMS_ERR_TICKET_EXIST, hash1)
                 | None \<Rightarrow> Some (EMS_OK, hash1\<lparr>base := (base hash1)[nat crc := fd # head]\<rparr>)))"

definition ems_hash_remove :: "ems_hash \<Rightarrow> addr \<Rightarrow> ems_hash" where
  "ems_hash_remove hash fd = hash\<lparr>base := map (remove1 fd) (base hash)\<rparr>"

definition ems_hash_find :: "ems_hash \<Rightarrow> string \<Rightarrow> addr option option" where
  "ems_hash_find hash key =
    (let crc = hash_crc key smod n_base hash
     in if crc < 0 \<or> int (length (base hash)) \<le> crc then None
        else Some (hash_find hash (base hash ! nat crc) key))"

definition ems_hash_fd_init :: "ems_hash \<Rightarrow> addr \<Rightarrow> ems_hash" where
  "ems_hash_fd_init hash fd =
    hash\<lparr>fd_crc := (fd_crc hash)(fd := 0), fd_key := (fd_key hash)(fd := [])\<rparr>"

definition ems_hash_fd_set_key :: "ems_hash \<Rightarrow> addr \<Rightarrow> string \<Rightarrow> ems_hash" where
  "ems_hash_fd_set_key hash fd key =
    hash\<lparr>fd_crc := (fd_crc hash)(fd := hash_crc key), fd_key := (fd_key hash)(fd := key)\<rparr>"

definition ems_hash_clean :: "ems_hash \<Rightarrow> ems_hash" where
  "ems_hash_clean hash = hash\<lparr>base := map (\<lambda>_. []) (base hash)\<rparr>"

text \<open>The walk stops at the first callback that does not return \<open>EMS_OK\<close> and returns its status.\<close>

fun hash_walk_list :: "(addr \<Rightarrow> 's \<Rightarrow> int \<times> 's) \<Rightarrow> addr list \<Rightarrow> 's \<Rightarrow> int \<times> 's" where
  "hash_walk_list cb [] s = (EMS_OK, s)"
| "hash_walk_list cb (fd # fds) s =
    (case cb fd s of (ret, s') \<Rightarrow> if ret \<noteq> EMS_OK then (ret, s') else hash_walk_list cb fds s')"

definition ems_hash_walk :: "ems_hash \<Rightarrow> (addr \<Rightarrow> 's \<Rightarrow> int \<times> 's) \<Rightarrow> 's \<Rightarrow> int \<times> 's" where
  "ems_hash_walk hash cb arg = hash_walk_list cb (concat (base hash)) arg"

text \<open>\<open>snprintf (buf, 128, "%x", n)\<close> of a 32-bit \<open>n\<close>; the result has at most 8 digits.\<close>

definition hex_digit :: "nat \<Rightarrow> char" where
  "hex_digit d = ''0123456789abcdef'' ! d"

fun hex_string :: "nat \<Rightarrow> string" where
  "hex_string n = (if n < 16 then [hex_digit n] else hex_string (n div 16) @ [hex_digit (n mod 16)])"

declare hex_string.simps [simp del]

definition ems_hash_key :: "32 word \<Rightarrow> string" where
  "ems_hash_key n = take 127 (hex_string (unat n))"

subsection \<open>The hash value\<close>

lemma signed_xor_bound:
  assumes "-(2 ^ n) \<le> (a :: int)" "a < 2 ^ n" "-(2 ^ n) \<le> b" "b < 2 ^ n"
  shows "-(2 ^ n) \<le> a XOR b \<and> a XOR b < 2 ^ n"
proof -
  have "signed_take_bit n a = a" "signed_take_bit n b = b"
    using assms by (simp_all add: signed_take_bit_int_eq_self_iff)
  moreover have "signed_take_bit n (a XOR b) = signed_take_bit n a XOR signed_take_bit n b"
    by (rule bit_eqI) (auto simp: bit_simps)
  ultimately have "signed_take_bit n (a XOR b) = a XOR b" by simp
  then show ?thesis by (simp add: signed_take_bit_int_eq_self_iff)
qed

lemma hash_step_range: "0 \<le> push_bit 8 (schr c) XOR schr c \<and> push_bit 8 (schr c) XOR schr c < 2 ^ 15"
proof -
  have b: "-128 \<le> schr c" "schr c \<le> 127" by (rule schr_bounds)+
  have p: "push_bit 8 (schr c) = schr c * 256" by (simp add: push_bit_eq_mult)
  have "-(2 ^ 15) \<le> push_bit 8 (schr c) XOR schr c \<and> push_bit 8 (schr c) XOR schr c < 2 ^ 15"
    using b by (intro signed_xor_bound) (auto simp: p)
  moreover have "0 \<le> push_bit 8 (schr c) XOR schr c"
    by (simp add: p zero_le_mult_iff)
  ultimately show ?thesis by blast
qed

lemma hash_crc_range: "0 \<le> hash_crc s \<and> hash_crc s < 2 ^ 15"
proof -
  let ?f = "\<lambda>crc c. crc XOR (push_bit 8 (schr c) XOR schr c)"
  have "0 \<le> a \<and> a < 2 ^ 15 \<Longrightarrow> 0 \<le> foldl ?f a s \<and> foldl ?f a s < 2 ^ 15" for a
  proof (induction s arbitrary: a)
    case Nil
    then show ?case by simp
  next
    case (Cons c s)
    have "-(2 ^ 15) \<le> ?f a c \<and> ?f a c < 2 ^ 15"
      using Cons.prems hash_step_range [of c] by (intro signed_xor_bound; linarith)
    moreover have "0 \<le> ?f a c" using Cons.prems hash_step_range [of c] by simp
    ultimately show ?case using Cons.IH [of "?f a c"] by simp
  qed
  then show ?thesis unfolding hash_crc_def by simp
qed

subsection \<open>The invariant and the map a table represents\<close>

definition hash_slot :: "ems_hash \<Rightarrow> string \<Rightarrow> nat" where
  "hash_slot h k = nat (hash_crc k smod n_base h)"

definition hash_nodes :: "ems_hash \<Rightarrow> addr set" where
  "hash_nodes h = set (concat (base h))"

definition hash_ok :: "ems_hash \<Rightarrow> bool" where
  "hash_ok h \<longleftrightarrow> 0 < n_base h \<and> length (base h) = nat (n_base h)
     \<and> distinct (concat (base h))
     \<and> (\<forall>i < length (base h). \<forall>a \<in> set (base h ! i). hash_slot h (fd_key h a) = i)
     \<and> inj_on (fd_key h) (hash_nodes h)"

definition hash_map :: "ems_hash \<Rightarrow> string \<Rightarrow> addr option" where
  "hash_map h k = find (\<lambda>a. fd_key h a = k) (concat (base h))"

text \<open>A node is ready to be inserted: it is not in the table and its hash value is that of its key.\<close>

definition fd_ready :: "ems_hash \<Rightarrow> addr \<Rightarrow> bool" where
  "fd_ready h a \<longleftrightarrow> a \<notin> hash_nodes h
     \<and> fd_crc h a smod n_base h = hash_crc (fd_key h a) smod n_base h"

lemma hash_nodes_iff: "a \<in> hash_nodes h \<longleftrightarrow> (\<exists>i < length (base h). a \<in> set (base h ! i))"
  unfolding hash_nodes_def set_concat set_conv_nth [of "base h"] by blast

lemma smod_range: "0 < (n :: int) \<Longrightarrow> 0 \<le> x \<Longrightarrow> 0 \<le> x smod n \<and> x smod n < n"
  by (cases "x = 0") (auto simp: signed_modulo_int_def)

lemma crc_index:
  assumes "hash_ok h"
  shows "0 \<le> hash_crc k smod n_base h" and "hash_crc k smod n_base h < int (length (base h))"
    and "hash_slot h k < length (base h)"
proof -
  have "0 < n_base h" "length (base h) = nat (n_base h)" using assms by (auto simp: hash_ok_def)
  with smod_range [of "n_base h" "hash_crc k"] hash_crc_range [of k]
  show "0 \<le> hash_crc k smod n_base h" "hash_crc k smod n_base h < int (length (base h))"
    "hash_slot h k < length (base h)"
    by (auto simp: hash_slot_def nat_less_iff)
qed

lemma find_unique:
  assumes "inj_on f (set xs)" and "a \<in> set xs" and "f a = k"
  shows "find (\<lambda>x. f x = k) xs = Some a"
  using assms by (induction xs) (auto simp: inj_on_def)

lemma hash_map_Some_iff:
  assumes "hash_ok h"
  shows "hash_map h k = Some a \<longleftrightarrow> a \<in> hash_nodes h \<and> fd_key h a = k"
proof
  assume "hash_map h k = Some a"
  then obtain i where "i < length (concat (base h))" "a = concat (base h) ! i" "fd_key h a = k"
    by (auto simp: hash_map_def find_Some_iff)
  then show "a \<in> hash_nodes h \<and> fd_key h a = k"
    by (auto simp: hash_nodes_def simp del: set_concat)
next
  assume "a \<in> hash_nodes h \<and> fd_key h a = k"
  moreover have "inj_on (fd_key h) (hash_nodes h)" using assms by (simp add: hash_ok_def)
  ultimately show "hash_map h k = Some a"
    unfolding hash_map_def hash_nodes_def by (intro find_unique) auto
qed

lemma hash_map_None_iff:
  "hash_map h k = None \<longleftrightarrow> k \<notin> fd_key h ` hash_nodes h"
  by (auto simp: hash_map_def hash_nodes_def find_None_iff simp del: set_concat)

lemma in_nodes_slot:
  "hash_ok h \<Longrightarrow> a \<in> hash_nodes h \<Longrightarrow> a \<in> set (base h ! hash_slot h (fd_key h a))"
  by (auto simp: hash_ok_def hash_nodes_iff)

lemma slot_in_nodes: "i < length (base h) \<Longrightarrow> set (base h ! i) \<subseteq> hash_nodes h"
  by (auto simp: hash_nodes_iff)

lemma hash_find_slot:
  assumes "hash_ok h"
  shows "hash_find h (base h ! hash_slot h k) k = hash_map h k"
proof (cases "hash_map h k")
  case None
  with slot_in_nodes [OF crc_index(3) [OF assms, of k]]
  have "hash_find h (base h ! hash_slot h k) k = None"
    by (auto simp: hash_map_None_iff hash_find_def find_None_iff)
  with None show ?thesis by simp
next
  case (Some a)
  then have a: "a \<in> hash_nodes h" "fd_key h a = k" using hash_map_Some_iff [OF assms] by auto
  then have "a \<in> set (base h ! hash_slot h k)" using in_nodes_slot [OF assms] by auto
  moreover have "inj_on (fd_key h) (set (base h ! hash_slot h k))"
    using assms slot_in_nodes [OF crc_index(3) [OF assms, of k]]
    by (auto simp: hash_ok_def intro: inj_on_subset)
  ultimately show ?thesis unfolding hash_find_def using a Some by (simp add: find_unique)
qed

lemma ems_hash_find_eq:
  assumes "hash_ok h"
  shows "ems_hash_find h k = Some (hash_map h k)"
  using crc_index [OF assms, of k] hash_find_slot [OF assms, of k]
  by (simp add: ems_hash_find_def Let_def hash_slot_def)

lemma ems_hash_init_ok:
  "0 < b \<Longrightarrow> ems_hash_init True h b = (EMS_OK, h') \<Longrightarrow> hash_ok h' \<and> hash_map h' = (\<lambda>_. None)"
  by (auto simp: ems_hash_init_def hash_ok_def hash_nodes_def hash_map_def fun_eq_iff find_None_iff)

subsection \<open>Insertion and removal\<close>

lemma hash_nodes_crc [simp]: "hash_nodes (h\<lparr>fd_crc := c\<rparr>) = hash_nodes h"
  by (simp add: hash_nodes_def)

lemma hash_ok_crc [simp]: "hash_ok (h\<lparr>fd_crc := c\<rparr>) = hash_ok h"
  by (simp add: hash_ok_def hash_slot_def)

lemma hash_map_crc [simp]: "hash_map (h\<lparr>fd_crc := c\<rparr>) = hash_map h"
  by (simp add: hash_map_def fun_eq_iff)

lemma hash_find_crc [simp]: "hash_find (h\<lparr>fd_crc := c\<rparr>) = hash_find h"
  by (simp add: hash_find_def fun_eq_iff)

lemma mset_concat_update:
  "i < length xss \<Longrightarrow> mset (concat (xss[i := a # xss ! i])) = add_mset a (mset (concat xss))"
  by (subst (2) id_take_nth_drop [of i xss]) (simp_all add: upd_conv_take_nth_drop)

lemma set_concat_update:
  "i < length xss \<Longrightarrow> set (concat (xss[i := a # xss ! i])) = insert a (set (concat xss))"
  using mset_concat_update [of i xss a] by (metis set_mset_mset set_mset_add_mset_insert)

lemma hash_nodes_push:
  "i < length (base h) \<Longrightarrow> hash_nodes (h\<lparr>base := (base h)[i := a # base h ! i]\<rparr>) = insert a (hash_nodes h)"
  using set_concat_update [of i "base h" a] by (simp add: hash_nodes_def del: set_concat)

lemma distinct_concat_update:
  assumes "i < length xss" and "distinct (concat xss)" and "a \<notin> set (concat xss)"
  shows "distinct (concat (xss[i := a # xss ! i]))"
proof -
  have "mset (concat (xss[i := a # xss ! i])) = mset (a # concat xss)"
    using mset_concat_update [OF assms(1)] by simp
  then show ?thesis using assms(2,3) mset_eq_imp_distinct_iff by fastforce
qed

lemma push_ok:
  assumes ok: "hash_ok h" and a: "a \<notin> hash_nodes h" and new: "hash_map h (fd_key h a) = None"
    and i: "i = hash_slot h (fd_key h a)"
  defines "h' \<equiv> h\<lparr>base := (base h)[i := a # base h ! i]\<rparr>"
  shows "hash_ok h'" and "hash_map h' = (hash_map h)(fd_key h a \<mapsto> a)"
proof -
  have il: "i < length (base h)" using crc_index(3) [OF ok] i by simp
  have st: "hash_nodes h' = insert a (hash_nodes h)"
    using hash_nodes_push [OF il] by (simp add: h'_def)
  have "inj_on (fd_key h) (insert a (hash_nodes h))"
    using ok new a by (auto simp: hash_ok_def hash_map_None_iff)
  moreover have "\<forall>j < length (base h'). \<forall>x \<in> set (base h' ! j). hash_slot h' (fd_key h' x) = j"
    using ok i il by (auto simp: h'_def hash_ok_def hash_slot_def nth_list_update split: if_splits)
  ultimately show okh': "hash_ok h'"
    using ok distinct_concat_update [OF il, of a] a st by (simp add: hash_ok_def h'_def hash_nodes_def)
  show "hash_map h' = (hash_map h)(fd_key h a \<mapsto> a)"
  proof
    fix k
    show "hash_map h' k = ((hash_map h)(fd_key h a \<mapsto> a)) k"
    proof (cases "k = fd_key h a")
      case True
      then have "hash_map h' k = Some a"
        using hash_map_Some_iff [OF okh', of k a] st by (simp add: h'_def)
      with True show ?thesis by simp
    next
      case False
      have "hash_map h' k = Some b \<longleftrightarrow> hash_map h k = Some b" for b
        using False hash_map_Some_iff [OF okh', of k b] hash_map_Some_iff [OF ok, of k b] st
        by (auto simp: h'_def)
      then have "hash_map h' k = hash_map h k" by (rule option_eqI)
      with False show ?thesis by simp
    qed
  qed
qed

lemma insert_index:
  assumes "hash_ok h" and "fd_ready h a"
  shows "nat (fd_crc h a smod n_base h) = hash_slot h (fd_key h a)"
    and "\<not> (fd_crc h a smod n_base h < 0 \<or> int (length (base h)) \<le> fd_crc h a smod n_base h)"
  using assms crc_index [OF assms(1), of "fd_key h a"] by (auto simp: fd_ready_def hash_slot_def)

lemma ems_hash_insert_new:
  assumes "hash_ok h" and "fd_ready h a" and "hash_map h (fd_key h a) = None"
  obtains h' where "ems_hash_insert h a = Some (EMS_OK, h')" and "hash_ok h'"
    and "hash_map h' = (hash_map h)(fd_key h a \<mapsto> a)" and "fd_key h' = fd_key h"
    and "hash_nodes h' = insert a (hash_nodes h)"
proof -
  let ?i = "hash_slot h (fd_key h a)"
  let ?h1 = "h\<lparr>fd_crc := (fd_crc h)(a := fd_crc h a smod n_base h)\<rparr>"
  let ?h' = "?h1\<lparr>base := (base ?h1)[?i := a # base ?h1 ! ?i]\<rparr>"
  have "ems_hash_insert h a = Some (EMS_OK, ?h')"
    using insert_index [OF assms(1,2)] hash_find_slot [OF assms(1), of "fd_key h a"] assms(3)
    by (simp add: ems_hash_insert_def Let_def)
  moreover have "hash_ok ?h'" "hash_map ?h' = (hash_map ?h1)(fd_key ?h1 a \<mapsto> a)"
    using assms by (intro push_ok; simp add: fd_ready_def hash_slot_def)+
  moreover have "hash_nodes ?h' = insert a (hash_nodes h)"
    using crc_index(3) [OF assms(1)] hash_nodes_push [of ?i ?h1 a] by simp
  ultimately show ?thesis using that by simp
qed

lemma ems_hash_insert_dup:
  assumes "hash_ok h" and "fd_ready h a" and "hash_map h (fd_key h a) = Some b"
  shows "ems_hash_insert h a =
    Some (EMS_ERR_TICKET_EXIST, h\<lparr>fd_crc := (fd_crc h)(a := fd_crc h a smod n_base h)\<rparr>)"
  using insert_index [OF assms(1,2)] hash_find_slot [OF assms(1), of "fd_key h a"] assms(3)
  by (simp add: ems_hash_insert_def Let_def)

lemma concat_remove1:
  "distinct (concat xss) \<Longrightarrow> concat (map (remove1 a) xss) = removeAll a (concat xss)"
  by (induction xss) (auto simp: distinct_remove1_removeAll)

lemma ems_hash_remove_ok:
  assumes "hash_ok h"
  shows "hash_ok (ems_hash_remove h a)"
    and "hash_nodes (ems_hash_remove h a) = hash_nodes h - {a}"
proof -
  have d: "distinct (concat (base h))" using assms by (simp add: hash_ok_def)
  have c: "concat (base (ems_hash_remove h a)) = removeAll a (concat (base h))"
    using concat_remove1 [OF d] by (simp add: ems_hash_remove_def)
  then show "hash_nodes (ems_hash_remove h a) = hash_nodes h - {a}"
    by (simp only: hash_nodes_def set_removeAll)
  show "hash_ok (ems_hash_remove h a)"
    unfolding hash_ok_def c
    using assms d \<open>hash_nodes (ems_hash_remove h a) = hash_nodes h - {a}\<close>
    by (auto simp: hash_ok_def ems_hash_remove_def hash_slot_def distinct_removeAll
        intro: inj_on_subset dest: set_remove1_subset [THEN subsetD])
qed

lemma ems_hash_remove_map:
  assumes ok: "hash_ok h" and a: "hash_map h k = Some a"
  shows "hash_map (ems_hash_remove h a) = (hash_map h)(k := None)"
proof
  fix j
  have r: "hash_ok (ems_hash_remove h a)" "hash_nodes (ems_hash_remove h a) = hash_nodes h - {a}"
    using ems_hash_remove_ok [OF ok] by auto
  have key: "fd_key (ems_hash_remove h a) = fd_key h" by (simp add: ems_hash_remove_def)
  have in_a: "a \<in> hash_nodes h" "fd_key h a = k" and inj: "inj_on (fd_key h) (hash_nodes h)"
    using hash_map_Some_iff [OF ok] a ok by (auto simp: hash_ok_def)
  have "hash_map (ems_hash_remove h a) j = Some b \<longleftrightarrow> b \<in> hash_nodes h - {a} \<and> fd_key h b = j" for b
    using hash_map_Some_iff [OF r(1)] by (simp add: r(2) key)
  moreover have "b \<in> hash_nodes h - {a} \<and> fd_key h b = j \<longleftrightarrow> hash_map h j = Some b \<and> j \<noteq> k" for b
    unfolding hash_map_Some_iff [OF ok] using in_a inj_onD [OF inj, of b a] by auto
  ultimately have "hash_map (ems_hash_remove h a) j = Some b \<longleftrightarrow> hash_map h j = Some b \<and> j \<noteq> k" for b
    by simp
  then show "hash_map (ems_hash_remove h a) j = ((hash_map h)(k := None)) j"
    by (intro option_eqI) simp
qed

subsection \<open>The interface: a table of keyed nodes\<close>

text \<open>
  What the users of the table rely on: a lookup after an insertion of a new key returns the
  inserted node and every other lookup is unchanged, an insertion of a key that is present
  changes no lookup, and removing the node a key leads to removes that key only.
\<close>

locale node_table =
  fixes ok :: "'t \<Rightarrow> bool"
    and lookup :: "'t \<Rightarrow> 'k \<Rightarrow> 'a option"
    and key :: "'t \<Rightarrow> 'a \<Rightarrow> 'k"
    and ready :: "'t \<Rightarrow> 'a \<Rightarrow> bool"
    and ins :: "'t \<Rightarrow> 'a \<Rightarrow> (int \<times> 't) option"
    and rem :: "'t \<Rightarrow> 'a \<Rightarrow> 't"
  assumes ins_new: "ok t \<Longrightarrow> ready t a \<Longrightarrow> lookup t (key t a) = None \<Longrightarrow>
      \<exists>t'. ins t a = Some (0, t') \<and> ok t' \<and> lookup t' = (lookup t)(key t a \<mapsto> a)"
    and ins_dup: "ok t \<Longrightarrow> ready t a \<Longrightarrow> lookup t (key t a) = Some b \<Longrightarrow>
      \<exists>t'. ins t a = Some (-2, t') \<and> ok t' \<and> lookup t' = lookup t"
    and rem_ok: "ok t \<Longrightarrow> lookup t k = Some a \<Longrightarrow>
      ok (rem t a) \<and> lookup (rem t a) = (lookup t)(k := None)"
begin

lemma ins_total:
  "ok t \<Longrightarrow> ready t a \<Longrightarrow> \<exists>r t'. ins t a = Some (r, t') \<and> ok t' \<and> lookup t' (key t a) \<noteq> None"
  using ins_new [of t a] ins_dup [of t a] by (cases "lookup t (key t a)") fastforce+

lemma ins_first_wins:
  "ok t \<Longrightarrow> ready t a \<Longrightarrow> lookup t (key t a) = Some b \<Longrightarrow> ins t a = Some (r, t') \<Longrightarrow>
    r \<noteq> 0 \<and> lookup t' (key t a) = Some b"
  using ins_dup by fastforce

lemma ins_rem_restores:
  assumes "ok t" and "ready t a" and "lookup t (key t a) = None" and "ins t a = Some (r, t')"
  shows "r = 0 \<and> ok (rem t' a) \<and> lookup (rem t' a) = lookup t"
proof -
  from assms have "r = 0" "ok t'" "lookup t' = (lookup t)(key t a \<mapsto> a)"
    using ins_new [of t a] by auto
  with rem_ok [of t' "key t a" a] assms(3) show ?thesis by (auto simp: fun_upd_idem)
qed

end

interpretation ht: node_table hash_ok hash_map fd_key fd_ready ems_hash_insert ems_hash_remove
proof unfold_locales
  fix t a
  assume "hash_ok t" "fd_ready t a" "hash_map t (fd_key t a) = None"
  then show "\<exists>t'. ems_hash_insert t a = Some (0, t') \<and> hash_ok t'
      \<and> hash_map t' = (hash_map t)(fd_key t a \<mapsto> a)"
    by (rule ems_hash_insert_new) blast
next
  fix t a b
  assume "hash_ok t" "fd_ready t a" "hash_map t (fd_key t a) = Some b"
  then show "\<exists>t'. ems_hash_insert t a = Some (-2, t') \<and> hash_ok t' \<and> hash_map t' = hash_map t"
    by (auto simp: ems_hash_insert_dup)
next
  fix t k a
  assume "hash_ok t" "hash_map t k = Some a"
  then show "hash_ok (ems_hash_remove t a) \<and> hash_map (ems_hash_remove t a) = (hash_map t)(k := None)"
    using ems_hash_remove_ok ems_hash_remove_map by blast
qed

subsection \<open>Walking the table, and the numeric keys\<close>

lemma hash_walk_all:
  "(\<And>fd s. fd \<in> set fds \<Longrightarrow> fst (cb fd s) = 0) \<Longrightarrow>
    hash_walk_list cb fds s = (0, fold (\<lambda>fd s. snd (cb fd s)) fds s)"
proof (induction fds arbitrary: s)
  case Nil
  then show ?case by simp
next
  case (Cons fd fds)
  from Cons.prems [of fd s] obtain s' where "cb fd s = (0, s')" by (cases "cb fd s") auto
  with Cons show ?case by simp
qed

lemma hex_string_small: "n < 16 \<Longrightarrow> hex_string n = [hex_digit n]"
  by (simp add: hex_string.simps)

lemma hex_string_big: "16 \<le> n \<Longrightarrow> hex_string n = hex_string (n div 16) @ [hex_digit (n mod 16)]"
  by (subst hex_string.simps) simp

lemma hex_string_ne [simp]: "hex_string n \<noteq> []" "[] \<noteq> hex_string n"
  by (subst hex_string.simps; simp)+

lemma hex_digit_inj: "a < 16 \<Longrightarrow> b < 16 \<Longrightarrow> hex_digit a = hex_digit b \<Longrightarrow> a = b"
proof -
  have "distinct ''0123456789abcdef''" by simp
  moreover assume "a < 16" "b < 16" "hex_digit a = hex_digit b"
  ultimately show "a = b" by (auto simp: hex_digit_def nth_eq_iff_index_eq simp del: distinct.simps)
qed

lemma hex_string_inj: "hex_string m = hex_string n \<Longrightarrow> m = n"
proof (induction m arbitrary: n rule: hex_string.induct)
  case (1 m)
  show ?case
  proof (cases "m < 16 \<or> n < 16")
    case True
    then show ?thesis using "1.prems"
      by (cases "m < 16"; cases "n < 16") (auto simp: hex_string_small hex_string_big dest: hex_digit_inj)
  next
    case False
    with "1.prems" have e: "hex_string (m div 16) = hex_string (n div 16)"
      "hex_digit (m mod 16) = hex_digit (n mod 16)"
      by (simp_all add: hex_string_big)
    from "1.IH" [OF _ e(1)] False have "m div 16 = n div 16" by simp
    moreover have "m mod 16 = n mod 16" using hex_digit_inj [OF _ _ e(2)] by simp
    ultimately show ?thesis by (metis div_mult_mod_eq)
  qed
qed

lemma length_hex_string: "n < 16 ^ Suc k \<Longrightarrow> length (hex_string n) \<le> Suc k"
proof (induction k arbitrary: n)
  case 0
  then show ?case by (simp add: hex_string_small)
next
  case (Suc k)
  then have "n div 16 < 16 ^ Suc k" by (simp add: less_mult_imp_div_less)
  with Suc.IH [of "n div 16"] show ?case by (subst hex_string.simps) auto
qed

lemma ems_hash_key_eq: "ems_hash_key n = hex_string (unat n)"
proof -
  have "unat n < 16 ^ Suc 7" using unsigned_less [of n] by simp
  from length_hex_string [OF this] show ?thesis by (simp add: ems_hash_key_def)
qed

lemma ems_hash_key_inj: "ems_hash_key m = ems_hash_key n \<longleftrightarrow> m = n"
  using hex_string_inj [of "unat m" "unat n"] by (auto simp: ems_hash_key_eq word_unat_eq_iff)

subsection \<open>Properties\<close>

text \<open>A table of 128 buckets, as the DNS forwarder creates it, with one keyed node, for the witnesses.\<close>

definition hash_mem0 :: ems_hash where
  "hash_mem0 = \<lparr>n_base = 0, base = [], fd_crc = (\<lambda>_. 0), fd_key = (\<lambda>_. [])\<rparr>"

definition hash_128 :: ems_hash where
  "hash_128 = ems_hash_fd_set_key (snd (ems_hash_init True hash_mem0 128)) 7 ''1a2b''"

lemma ems_hash_init_success: "\<exists>h'. ems_hash_init True h b = (EMS_OK, h')"
  by (simp add: ems_hash_init_def)

lemma hash_set_key_base [simp]:
  "base (ems_hash_fd_set_key h a k) = base h" "n_base (ems_hash_fd_set_key h a k) = n_base h"
  "hash_nodes (ems_hash_fd_set_key h a k) = hash_nodes h"
  by (simp_all add: ems_hash_fd_set_key_def hash_nodes_def)

lemma set_key_ok:
  assumes "hash_ok h" and "a \<notin> hash_nodes h"
  shows "hash_ok (ems_hash_fd_set_key h a k)" and "hash_map (ems_hash_fd_set_key h a k) = hash_map h"
    and "fd_ready (ems_hash_fd_set_key h a k) a" and "fd_key (ems_hash_fd_set_key h a k) a = k"
proof -
  let ?h = "ems_hash_fd_set_key h a k"
  have e: "x \<in> hash_nodes h \<Longrightarrow> fd_key ?h x = fd_key h x" for x
    using assms(2) by (auto simp: ems_hash_fd_set_key_def)
  then show ok: "hash_ok ?h"
    using assms(1) slot_in_nodes [of _ h]
    by (auto simp: hash_ok_def hash_slot_def inj_on_def) (metis subsetD)
  show "hash_map ?h = hash_map h"
  proof
    fix j
    have "hash_map ?h j = Some b \<longleftrightarrow> hash_map h j = Some b" for b
      using hash_map_Some_iff [OF ok, of j b] hash_map_Some_iff [OF assms(1), of j b] e by auto
    then show "hash_map ?h j = hash_map h j" by (rule option_eqI)
  qed
  show "fd_ready ?h a" "fd_key ?h a = k"
    using assms(2) by (auto simp: fd_ready_def ems_hash_fd_set_key_def hash_nodes_def)
qed

lemma hash_128_ok: "hash_ok hash_128" "hash_map hash_128 = (\<lambda>_. None)" "fd_ready hash_128 7"
  "fd_key hash_128 7 = ''1a2b''"
proof -
  obtain h where h: "ems_hash_init True hash_mem0 128 = (EMS_OK, h)"
    using ems_hash_init_success by blast
  have ok: "hash_ok h" and none: "hash_map h = (\<lambda>_. None)"
    using ems_hash_init_ok [OF _ h] by simp_all
  have fresh: "7 \<notin> hash_nodes h"
    using hash_map_None_iff [of h "fd_key h 7"] none by auto
  have eq: "hash_128 = ems_hash_fd_set_key h 7 ''1a2b''" by (simp add: hash_128_def h)
  show "hash_ok hash_128" "hash_map hash_128 = (\<lambda>_. None)" "fd_ready hash_128 7"
    "fd_key hash_128 7 = ''1a2b''"
    unfolding eq using set_key_ok [OF ok fresh, of "''1a2b''"] none by simp_all
qed

text \<open>
  The hash value of any byte string, signed characters included, is between 0 and 32767, so
  a lookup in a well-formed table never indexes outside the bucket array, whatever the key, and
  it returns the node the table holds for the key.
\<close>

theorem hash_find_in_range:
  assumes "hash_ok h"
  shows "0 \<le> hash_crc k \<and> hash_crc k < 2 ^ 15
    \<and> ems_hash_find h k = Some (hash_map h k)
    \<and> (ems_hash_find h k = Some (Some a) \<longrightarrow> a \<in> hash_nodes h \<and> fd_key h a = k)"
  using assms hash_crc_range [of k] hash_map_Some_iff [OF assms, of k a]
  by (simp add: ems_hash_find_eq)

theorem hash_find_in_range_witness:
  "0 \<le> hash_crc [CHR 0xFF, CHR 0x80] \<and> ems_hash_find hash_128 [CHR 0xFF, CHR 0x80] = Some None"
  using hash_find_in_range [OF hash_128_ok(1), of "[CHR 0xFF, CHR 0x80]"] hash_128_ok(2) by simp

text \<open>
  C38: Inserting a node implements a map that keeps the first binding: with a new key the table
  maps the key to the node and \<open>EMS_OK\<close> is returned, with a key that is present nothing
  changes and \<open>EMS_ERR_TICKET_EXIST\<close> is returned; the table stays well-formed.
\<close>

theorem hash_insert_refines_map:
  assumes "hash_ok h" and "fd_ready h a"
  shows "\<exists>r h'. ems_hash_insert h a = Some (r, h') \<and> hash_ok h'
    \<and> (if hash_map h (fd_key h a) = None
       then r = EMS_OK \<and> hash_map h' = (hash_map h)(fd_key h a \<mapsto> a)
       else r = EMS_ERR_TICKET_EXIST \<and> hash_map h' = hash_map h)"
  using ht.ins_new [OF assms] ht.ins_dup [OF assms] by (cases "hash_map h (fd_key h a)") auto

theorem hash_insert_refines_map_witness:
  "\<exists>h'. ems_hash_insert hash_128 7 = Some (EMS_OK, h') \<and> hash_map h' = [''1a2b'' \<mapsto> 7]"
  using hash_insert_refines_map [OF hash_128_ok(1,3)] hash_128_ok(2,4) by auto

text \<open>
  Inserting a node under a new key and removing it again restores every lookup of the table.
\<close>

theorem hash_insert_remove_roundtrip:
  assumes "hash_ok h" and "fd_ready h a" and "hash_map h (fd_key h a) = None"
    and "ems_hash_insert h a = Some (r, h')"
  shows "r = EMS_OK \<and> hash_ok (ems_hash_remove h' a) \<and> hash_map (ems_hash_remove h' a) = hash_map h"
  using assms by (rule ht.ins_rem_restores)

theorem hash_insert_remove_roundtrip_witness:
  "\<exists>r h'. ems_hash_insert hash_128 7 = Some (r, h')
    \<and> hash_map (ems_hash_remove h' 7) = hash_map hash_128"
proof -
  obtain r h' where "ems_hash_insert hash_128 7 = Some (r, h')"
    using ht.ins_total [OF hash_128_ok(1,3)] by auto
  with hash_insert_remove_roundtrip [OF hash_128_ok(1,3) _ this] hash_128_ok(2) show ?thesis by auto
qed

end
