(* ===== verification/Ems_Buffer.thy ===== *)
theory Ems_Buffer
  imports Ems_Prelude
begin

text \<open>
  The linear byte buffer of \<^verbatim>\<open>c/ems/src/utils/ems_buffer.c\<close>.
  The memory between \<open>head\<close> and \<open>tail\<close> is a list, the read and write pointers are offsets
  from \<open>head\<close>. A buffer whose memory was released (all pointers null) has the empty memory.
  The contents of freshly allocated memory are not determined by the code: the functions that
  allocate take them as an argument \<open>garbage\<close>, and whether the allocation succeeds.
  \<open>ems_buffer_refresh\<close> moves the unread bytes to the front with \<open>memcpy\<close>; the model gives the
  call the effect of a move.
\<close>

record 'a ems_buffer =
  bmem :: "'a list"
  brd :: nat
  bwr :: nat

subsection \<open>The operations\<close>

definition buf_size :: "'a ems_buffer \<Rightarrow> int" where
  "buf_size b = int (length (bmem b))"

definition buf_left :: "'a ems_buffer \<Rightarrow> int" where
  "buf_left b = \<bar>int (length (bmem b)) - int (bwr b)\<bar>"

definition buf_len :: "'a ems_buffer \<Rightarrow> int" where
  "buf_len b = \<bar>int (bwr b) - int (brd b)\<bar>"

definition buf_trash :: "'a ems_buffer \<Rightarrow> int" where
  "buf_trash b = \<bar>int (brd b)\<bar>"

definition ems_buffer_init :: "bool \<Rightarrow> (nat \<Rightarrow> 'a) \<Rightarrow> nat \<Rightarrow> int \<times> 'a ems_buffer" where
  "ems_buffer_init alloc garbage sz =
    (if \<not> alloc then (EMS_ERR, \<lparr>bmem = [], brd = 0, bwr = 0\<rparr>)
     else (EMS_OK, \<lparr>bmem = map garbage [0..<sz], brd = 0, bwr = 0\<rparr>))"

definition ems_buffer_new :: "bool \<Rightarrow> bool \<Rightarrow> (nat \<Rightarrow> 'a) \<Rightarrow> nat \<Rightarrow> 'a ems_buffer option" where
  "ems_buffer_new alloc alloc_mem garbage sz =
    (if \<not> alloc then None
     else (case ems_buffer_init alloc_mem garbage sz of (ret, b) \<Rightarrow>
             if ret \<noteq> EMS_OK then None else Some b))"

definition ems_buffer_uninit :: "'a ems_buffer \<Rightarrow> 'a ems_buffer" where
  "ems_buffer_uninit b = \<lparr>bmem = [], brd = 0, bwr = 0\<rparr>"

text \<open>The origins of a seek are \<open>EMS_BUFFER_SEEK_SET\<close> = 1, \<open>..._CUR\<close> = 2, \<open>..._END\<close> = 3.\<close>

definition ems_buffer_seek_rd :: "'a ems_buffer \<Rightarrow> int \<Rightarrow> int \<Rightarrow> int \<times> 'a ems_buffer" where
  "ems_buffer_seek_rd b off pos =
    (if pos = 1 then
       (if off < 0 \<or> off > buf_len b + buf_trash b then (EMS_ERR, b)
        else (EMS_OK, b\<lparr>brd := nat off\<rparr>))
     else if pos = 2 then
       (if off > buf_len b \<or> off < - buf_trash b then (EMS_ERR, b)
        else (EMS_OK, b\<lparr>brd := nat (int (brd b) + off)\<rparr>))
     else if pos = 3 then
       (if off > 0 \<or> off < - (buf_len b + buf_trash b) then (EMS_ERR, b)
        else (EMS_OK, b\<lparr>brd := nat (int (bwr b) + off)\<rparr>))
     else (EMS_ERR, b))"

definition ems_buffer_seek_wr :: "'a ems_buffer \<Rightarrow> int \<Rightarrow> int \<Rightarrow> int \<times> 'a ems_buffer" where
  "ems_buffer_seek_wr b off pos =
    (if pos = 1 then
       (if off < 0 \<or> off > buf_len b + buf_left b then (EMS_ERR, b)
        else (EMS_OK, b\<lparr>bwr := nat (int (brd b) + off)\<rparr>))
     else if pos = 2 then
       (if off < - buf_len b \<or> off > buf_left b then (EMS_ERR, b)
        else (EMS_OK, b\<lparr>bwr := nat (int (bwr b) + off)\<rparr>))
     else if pos = 3 then
       (if off > 0 \<or> off < - (buf_len b + buf_left b) then (EMS_ERR, b)
        else (EMS_OK, b\<lparr>bwr := nat (int (length (bmem b)) + off)\<rparr>))
     else (EMS_OK, b))"

definition ems_buffer_refresh :: "'a ems_buffer \<Rightarrow> 'a ems_buffer" where
  "ems_buffer_refresh b =
    (if buf_trash b > 0 then
       (let len = nat (buf_len b);
            mem = mem_write (bmem b) 0 (take len (drop (brd b) (bmem b)))
        in b\<lparr>bmem := mem, brd := 0, bwr := len\<rparr>)
     else b)"

text \<open>\<open>buffer_fetch\<close> returns its status, the bytes it copies to the destination, and the buffer.\<close>

definition buffer_fetch :: "'a ems_buffer \<Rightarrow> int \<Rightarrow> bool \<Rightarrow> int \<times> 'a list \<times> 'a ems_buffer" where
  "buffer_fetch b len drain =
    (if \<not> len > 0 then (EMS_ERR, [], b)
     else (let len' = (if buf_len b < len then buf_len b else len);
               dest = take (nat len') (drop (brd b) (bmem b))
           in (len', dest, if drain then snd (ems_buffer_seek_rd b len' 2) else b)))"

definition ems_buffer_read :: "'a ems_buffer \<Rightarrow> int \<Rightarrow> int \<times> 'a list \<times> 'a ems_buffer" where
  "ems_buffer_read b len = buffer_fetch b len True"

definition ems_buffer_prefetch :: "'a ems_buffer \<Rightarrow> int \<Rightarrow> int \<times> 'a list \<times> 'a ems_buffer" where
  "ems_buffer_prefetch b len = buffer_fetch b len False"

definition ems_buffer_write :: "'a ems_buffer \<Rightarrow> 'a list \<Rightarrow> int \<Rightarrow> int \<times> 'a ems_buffer" where
  "ems_buffer_write b src len =
    (if \<not> len \<ge> 0 then (EMS_ERR, b)
     else (let len' = (if len > buf_left b then buf_left b else len);
               b1 = b\<lparr>bmem := mem_write (bmem b) (bwr b) (take (nat len') src)\<rparr>
           in (len', snd (ems_buffer_seek_wr b1 len' 2))))"

definition ems_buffer_clear :: "'a ems_buffer \<Rightarrow> 'a ems_buffer" where
  "ems_buffer_clear b = b\<lparr>brd := 0, bwr := 0\<rparr>"

text \<open>
  \<open>ems_buffer_increase\<close>: the new size is computed in \<open>ems_uint\<close>; \<open>garbage\<close> is what the memory
  added by \<open>realloc\<close> holds.
\<close>

definition ems_buffer_increase :: "bool \<Rightarrow> (nat \<Rightarrow> 'a) \<Rightarrow> 'a ems_buffer \<Rightarrow> nat \<Rightarrow> int \<times> 'a ems_buffer" where
  "ems_buffer_increase alloc garbage b inc =
    (let b1 = ems_buffer_refresh b
     in if buf_left b1 > int inc then (EMS_OK, b1)
        else (let len = nat (buf_len b1);
                  total = (nat (buf_size b1) + inc) mod 2 ^ 32
              in if alloc then (EMS_OK, \<lparr>bmem = take total (bmem b1 @ map garbage [0..<inc]), brd = 0, bwr = len\<rparr>)
                 else (EMS_ERR, b1)))"

subsection \<open>The invariant and the queue of bytes a buffer holds\<close>

definition buf_ok :: "'a ems_buffer \<Rightarrow> bool" where
  "buf_ok b \<longleftrightarrow> brd b \<le> bwr b \<and> bwr b \<le> length (bmem b)"

definition contents :: "'a ems_buffer \<Rightarrow> 'a list" where
  "contents b = take (bwr b - brd b) (drop (brd b) (bmem b))"

definition room :: "'a ems_buffer \<Rightarrow> nat" where
  "room b = length (bmem b) - bwr b"

lemma length_contents: "buf_ok b \<Longrightarrow> length (contents b) = bwr b - brd b"
  by (simp add: buf_ok_def contents_def diff_le_mono min_absorb2)

lemma buf_counts [buffer_simps]:
  assumes "buf_ok b"
  shows "buf_size b = int (length (bmem b))" and "buf_left b = int (room b)"
    and "buf_len b = int (length (contents b))" and "buf_trash b = int (brd b)"
    and "length (bmem b) = brd b + length (contents b) + room b"
proof -
  have le: "brd b \<le> bwr b" "bwr b \<le> length (bmem b)" using assms by (auto simp: buf_ok_def)
  have len: "length (contents b) = bwr b - brd b" by (rule length_contents [OF assms])
  show "buf_size b = int (length (bmem b))" "buf_trash b = int (brd b)"
    by (simp_all add: buf_size_def buf_trash_def)
  show "buf_left b = int (room b)" "buf_len b = int (length (contents b))"
    "length (bmem b) = brd b + length (contents b) + room b"
    using le len by (simp_all add: buf_left_def buf_len_def room_def of_nat_diff)
qed

lemma buf_ok_init:
  "buf_ok (snd (ems_buffer_init alloc g sz))" "contents (snd (ems_buffer_init alloc g sz)) = []"
  by (simp_all add: ems_buffer_init_def buf_ok_def contents_def)

lemma seek_rd_ok: "buf_ok b \<Longrightarrow> ems_buffer_seek_rd b off pos = (r, b') \<Longrightarrow> buf_ok b'"
  by (auto simp: ems_buffer_seek_rd_def buf_ok_def buf_len_def buf_trash_def split: if_splits)

lemma seek_wr_ok: "buf_ok b \<Longrightarrow> ems_buffer_seek_wr b off pos = (r, b') \<Longrightarrow> buf_ok b'"
  by (auto simp: ems_buffer_seek_wr_def buf_ok_def buf_len_def buf_left_def split: if_splits)

lemma seek_rd_cur:
  assumes "buf_ok b" and "n \<le> length (contents b)"
  shows "ems_buffer_seek_rd b (int n) 2 = (EMS_OK, b\<lparr>brd := brd b + n\<rparr>)"
  using assms by (auto simp: ems_buffer_seek_rd_def buffer_simps nat_add_distrib)

lemma seek_wr_cur:
  assumes "buf_ok b" and "n \<le> room b"
  shows "ems_buffer_seek_wr b (int n) 2 = (EMS_OK, b\<lparr>bwr := bwr b + n\<rparr>)"
  using assms by (auto simp: ems_buffer_seek_wr_def buffer_simps nat_add_distrib)

lemma drain_ok:
  assumes "buf_ok b" and "n \<le> length (contents b)"
  shows "buf_ok (b\<lparr>brd := brd b + n\<rparr>)" and "contents (b\<lparr>brd := brd b + n\<rparr>) = drop n (contents b)"
    and "room (b\<lparr>brd := brd b + n\<rparr>) = room b"
  using assms by (auto simp: buf_ok_def contents_def room_def take_drop drop_drop add.commute)

lemma append_ok:
  assumes "buf_ok b" and "length xs \<le> room b"
  defines "b' \<equiv> b\<lparr>bmem := mem_write (bmem b) (bwr b) xs, bwr := bwr b + length xs\<rparr>"
  shows "buf_ok b'" and "contents b' = contents b @ xs" and "room b' = room b - length xs"
proof -
  have le: "brd b \<le> bwr b" "bwr b \<le> length (bmem b)" "bwr b + length xs \<le> length (bmem b)"
    using assms(1,2) by (auto simp: buf_ok_def room_def)
  then show "buf_ok b'" by (simp add: b'_def buf_ok_def)
  have "drop (brd b) (take (bwr b + length xs) (mem_write (bmem b) (bwr b) xs))
      = drop (brd b) (take (bwr b) (bmem b)) @ xs"
    using le by (simp add: take_mem_write_extend)
  then show "contents b' = contents b @ xs"
    using le by (simp add: b'_def contents_def drop_take)
  show "room b' = room b - length xs" using le by (simp add: b'_def room_def)
qed

lemma fetch_eq:
  assumes "buf_ok b" and "0 < n"
  shows "buffer_fetch b (int n) drain =
    (let m = min n (length (contents b))
     in (int m, take m (contents b), if drain then b\<lparr>brd := brd b + m\<rparr> else b))"
proof -
  let ?m = "min n (length (contents b))"
  have l: "(if buf_len b < int n then buf_len b else int n) = int ?m"
    using assms(1) by (auto simp: buffer_simps)
  have "take ?m (drop (brd b) (bmem b)) = take ?m (contents b)"
    using assms(1) by (simp add: contents_def buf_ok_def min_def)
  with l show ?thesis
    using assms seek_rd_cur [OF assms(1), of ?m] by (auto simp: buffer_fetch_def Let_def)
qed

lemma write_eq:
  assumes "buf_ok b" and "n \<le> length src"
  shows "ems_buffer_write b src (int n) =
    (let m = min n (room b)
     in (int m, b\<lparr>bmem := mem_write (bmem b) (bwr b) (take m src), bwr := bwr b + m\<rparr>))"
proof -
  let ?m = "min n (room b)"
  have l: "(if int n > buf_left b then buf_left b else int n) = int ?m"
    using assms(1) by (auto simp: buffer_simps)
  let ?b = "b\<lparr>bmem := mem_write (bmem b) (bwr b) (take ?m src)\<rparr>"
  have "buf_ok ?b" "?m \<le> room ?b"
    using assms by (auto simp: buf_ok_def room_def)
  then show ?thesis
    using l seek_wr_cur [of ?b ?m] by (simp add: ems_buffer_write_def Let_def)
qed

lemma refresh_eq:
  assumes "buf_ok b"
  shows "buf_ok (ems_buffer_refresh b)" and "contents (ems_buffer_refresh b) = contents b"
    and "brd (ems_buffer_refresh b) = 0" and "length (bmem (ems_buffer_refresh b)) = length (bmem b)"
  using assms
  by (auto simp: ems_buffer_refresh_def Let_def buf_trash_def buf_len_def buf_ok_def contents_def
      mem_write_def nat_diff_distrib min_def)


lemma increase_ok:
  assumes "buf_ok b" and "ems_buffer_increase alloc g b inc = (r, b')"
    and "length (bmem b) + inc < 2 ^ 32"
  shows "buf_ok b'" and "contents b' = contents b" and "r = EMS_OK \<Longrightarrow> inc \<le> room b'"
    and "r = EMS_OK \<or> \<not> alloc"
proof -
  let ?b = "ems_buffer_refresh b"
  note ref = refresh_eq [OF assms(1)]
  have tot: "(nat (buf_size ?b) + inc) mod 2 ^ 32 = length (bmem b) + inc"
    using assms(3) by (simp add: buf_size_def ref)
  have len: "nat (buf_len ?b) = bwr ?b" "bwr ?b \<le> length (bmem ?b)"
    and c: "contents ?b = take (bwr ?b) (bmem ?b)"
    using ref by (auto simp: buf_len_def buf_ok_def contents_def)
  show "buf_ok b'" "contents b' = contents b" "r = EMS_OK \<Longrightarrow> inc \<le> room b'" "r = EMS_OK \<or> \<not> alloc"
    using assms(2) ref len c tot
    by (auto simp: ems_buffer_increase_def Let_def buf_left_def room_def buf_ok_def contents_def
        split: if_splits)
qed

subsection \<open>The interface: a bounded first-in first-out queue of bytes\<close>

text \<open>
  What the users of the buffer rely on: writing appends as much as fits, reading takes from the
  front, and nothing else happens.
\<close>

locale byte_fifo =
  fixes inv :: "'b \<Rightarrow> bool"
    and cont :: "'b \<Rightarrow> 'a list"
    and space :: "'b \<Rightarrow> nat"
    and put :: "'b \<Rightarrow> 'a list \<Rightarrow> int \<Rightarrow> int \<times> 'b"
    and take_out :: "'b \<Rightarrow> int \<Rightarrow> int \<times> 'a list \<times> 'b"
  assumes put_law: "inv b \<Longrightarrow> n \<le> length src \<Longrightarrow> put b src (int n) = (r, b') \<Longrightarrow>
      inv b' \<and> r = int (min n (space b)) \<and> cont b' = cont b @ take (min n (space b)) src
      \<and> space b' = space b - min n (space b)"
    and get_law: "inv b \<Longrightarrow> 0 < n \<Longrightarrow> take_out b (int n) = (r, out, b') \<Longrightarrow>
      inv b' \<and> r = int (length out) \<and> out = take n (cont b) \<and> cont b' = drop n (cont b)
      \<and> space b' = space b"
begin

text \<open>Writing a list of chunks one after the other; whatever does not fit is dropped.\<close>

lemma put_fits:
  assumes "inv b" and "length src \<le> space b" and "put b src (int (length src)) = (r, b')"
  shows "inv b' \<and> r = int (length src) \<and> cont b' = cont b @ src \<and> space b' = space b - length src"
  using put_law [OF assms(1) order_refl assms(3)] assms(2) by (simp add: min_absorb1)

lemma puts_fit:
  "inv b \<Longrightarrow> length (concat css) \<le> space b \<Longrightarrow>
    b' = fold (\<lambda>cs b. snd (put b cs (int (length cs)))) css b \<Longrightarrow>
    inv b' \<and> cont b' = cont b @ concat css \<and> space b' = space b - length (concat css)"
proof (induction css arbitrary: b)
  case Nil
  then show ?case by simp
next
  case (Cons cs css)
  obtain r b1 where b1: "put b cs (int (length cs)) = (r, b1)" by fastforce
  have s: "inv b1 \<and> r = int (length cs) \<and> cont b1 = cont b @ cs \<and> space b1 = space b - length cs"
    using Cons.prems(1,2) by (intro put_fits [OF _ _ b1]) auto
  then have "inv b' \<and> cont b' = cont b1 @ concat css \<and> space b' = space b1 - length (concat css)"
    using Cons.prems(2,3) b1 by (intro Cons.IH) auto
  with s show ?case by simp
qed

text \<open>Reading in two steps is reading once.\<close>

lemma get_get:
  assumes "inv b" and "0 < m" and "0 < n"
    and "take_out b (int m) = (r1, o1, b1)" and "take_out b1 (int n) = (r2, o2, b2)"
  shows "o1 @ o2 = take (m + n) (cont b) \<and> cont b2 = drop (m + n) (cont b)"
  using get_law [OF assms(1,2,4)] get_law [OF _ assms(3,5)] by (auto simp: take_add add.commute)

lemma put_get:
  assumes "inv b" and "cont b = []" and "src \<noteq> []" and "length src \<le> space b"
    and "put b src (int (length src)) = (r, b')" and "take_out b' (int (length src)) = (r', out, b'')"
  shows "out = src \<and> r' = r \<and> cont b'' = []"
  using put_fits [OF assms(1,4,5)] assms(2,3) get_law [OF _ _ assms(6)] by auto

end

interpretation bf: byte_fifo buf_ok contents room ems_buffer_write ems_buffer_read
proof unfold_locales
  fix b b' :: "'a ems_buffer" and n src r
  assume a: "buf_ok b" "n \<le> length src" "ems_buffer_write b src (int n) = (r, b')"
  let ?m = "min n (room b)"
  have "length (take ?m src) = ?m" using a(2) by simp
  then show "buf_ok b' \<and> r = int ?m \<and> contents b' = contents b @ take ?m src \<and> room b' = room b - ?m"
    using a append_ok [OF a(1), of "take ?m src"] by (auto simp: write_eq Let_def)
next
  fix b b' :: "'a ems_buffer" and n r out
  assume a: "buf_ok b" "0 < n" "ems_buffer_read b (int n) = (r, out, b')"
  let ?m = "min n (length (contents b))"
  from a have e: "r = int ?m" "out = take ?m (contents b)" "b' = b\<lparr>brd := brd b + ?m\<rparr>"
    by (simp_all add: ems_buffer_read_def fetch_eq Let_def)
  have "take ?m (contents b) = take n (contents b)" "drop ?m (contents b) = drop n (contents b)"
    by (simp_all add: min_def)
  then show "buf_ok b' \<and> r = int (length out) \<and> out = take n (contents b)
      \<and> contents b' = drop n (contents b) \<and> room b' = room b"
    using e drain_ok [OF a(1), of ?m] by (simp add: min.commute)
qed

subsection \<open>Properties\<close>

lemma fetch_any_ok:
  assumes "buf_ok b" and "buffer_fetch b len drain = (r, out, b')"
  shows "buf_ok b'"
proof (cases "0 < len")
  case True
  then obtain n where "len = int n" "0 < n" by (metis zero_less_imp_eq_int)
  with assms show ?thesis by (auto simp: fetch_eq Let_def drain_ok split: if_splits)
qed (use assms in \<open>simp add: buffer_fetch_def\<close>)

lemma write_any_ok:
  assumes "buf_ok b" and "len \<le> int (length src)" and "ems_buffer_write b src len = (r, b')"
  shows "buf_ok b'"
proof (cases "0 \<le> len")
  case True
  then obtain n where "len = int n" by (metis nonneg_int_cases)
  with assms show ?thesis using bf.put_law [OF assms(1), of n src r b'] by simp
qed (use assms in \<open>simp add: ems_buffer_write_def\<close>)

text \<open>
  The read and write pointers stay ordered and inside the memory (\<open>buf_ok\<close>) under every
  operation with any arguments, the sequence of arguments of a write being at least as long as
  the length it is given; a failing seek leaves the buffer as it was.
\<close>

theorem buffer_invariant:
  assumes "buf_ok b" and "len \<le> int (length src)" and "length (bmem b) + inc < 2 ^ 32"
  shows "buf_ok (snd (ems_buffer_seek_rd b off pos)) \<and> buf_ok (snd (ems_buffer_seek_wr b off pos))
    \<and> (fst (ems_buffer_seek_rd b off pos) \<noteq> EMS_OK \<longrightarrow> snd (ems_buffer_seek_rd b off pos) = b)
    \<and> buf_ok (snd (ems_buffer_write b src len))
    \<and> buf_ok (snd (snd (ems_buffer_read b off))) \<and> snd (snd (ems_buffer_prefetch b off)) = b
    \<and> buf_ok (ems_buffer_refresh b) \<and> buf_ok (ems_buffer_clear b)
    \<and> buf_ok (snd (ems_buffer_increase alloc g b inc))"
proof -
  have "buf_ok (snd (snd (ems_buffer_read b off)))"
    by (cases "buffer_fetch b off True") (auto simp: ems_buffer_read_def dest: fetch_any_ok [OF assms(1)])
  moreover have "snd (snd (ems_buffer_prefetch b off)) = b"
    by (simp add: ems_buffer_prefetch_def buffer_fetch_def Let_def)
  moreover have "fst (ems_buffer_seek_rd b off pos) \<noteq> EMS_OK \<Longrightarrow> snd (ems_buffer_seek_rd b off pos) = b"
    by (auto simp: ems_buffer_seek_rd_def split: if_splits)
  moreover have "buf_ok (ems_buffer_clear b)"
    by (simp add: ems_buffer_clear_def buf_ok_def)
  ultimately show ?thesis
    using seek_rd_ok [OF assms(1) surjective_pairing] seek_wr_ok [OF assms(1) surjective_pairing]
      write_any_ok [OF assms(1,2) surjective_pairing] refresh_eq(1) [OF assms(1)]
      increase_ok(1) [OF assms(1) surjective_pairing assms(3)]
    by blast
qed

definition buf_abc :: "char ems_buffer" where
  "buf_abc = \<lparr>bmem = ''abcdef'', brd = 1, bwr = 3\<rparr>"

lemma buf_abc: "buf_ok buf_abc" "contents buf_abc = ''bc''" "room buf_abc = 3" "length (bmem buf_abc) = 6"
  by (simp_all add: buf_abc_def buf_ok_def contents_def room_def)

theorem buffer_invariant_witness:
  "buf_ok (snd (ems_buffer_write buf_abc ''xyzt'' 4)) \<and> buf_ok (snd (ems_buffer_seek_rd buf_abc (-1) 2))"
  using buffer_invariant [of buf_abc 4 "''xyzt''" 0 "-1" 2] buf_abc by simp

text \<open>
  C39: Bytes are first in, first out: when they fit, a write followed by a read of everything
  returns the unread bytes and then the written ones, the two calls report the numbers of bytes
  written and read, and the buffer is empty afterwards; without the drain the bytes remain.
\<close>

theorem buffer_fifo_roundtrip:
  assumes "buf_ok b" and "src \<noteq> []" and "length src \<le> room b"
    and "ems_buffer_write b src (int (length src)) = (r, b')"
    and "amount = int (length (contents b)) + r"
  shows "r = int (length src)
    \<and> fst (ems_buffer_read b' amount) = amount
    \<and> fst (snd (ems_buffer_read b' amount)) = contents b @ src
    \<and> contents (snd (snd (ems_buffer_read b' amount))) = []
    \<and> fst (snd (ems_buffer_prefetch b' amount)) = contents b @ src"
proof -
  from bf.put_fits [OF assms(1,3,4)]
  have p: "buf_ok b'" "r = int (length src)" "contents b' = contents b @ src" by auto
  let ?n = "length (contents b) + length src"
  have n: "amount = int ?n" "0 < ?n" using p assms(2,5) by auto
  obtain r2 out b2 where g: "ems_buffer_read b' (int ?n) = (r2, out, b2)" by (metis prod_cases3)
  from bf.get_law [OF p(1) n(2) g]
  have "r2 = int (length out)" "out = contents b @ src" "contents b2 = []" using p(3) by simp_all
  moreover have "fst (snd (ems_buffer_prefetch b' (int ?n))) = contents b @ src"
    using p unfolding ems_buffer_prefetch_def fetch_eq [OF p(1) n(2)] by (simp add: Let_def)
  ultimately show ?thesis using p(2) n(1) g by simp
qed

theorem buffer_fifo_roundtrip_witness:
  "fst (snd (ems_buffer_read (snd (ems_buffer_write buf_abc ''xy'' 2)) 4)) = ''bcxy''"
  using buffer_fifo_roundtrip [of buf_abc "''xy''" _ _ 4, OF _ _ _ surjective_pairing] buf_abc
    bf.put_fits [of buf_abc "''xy''", OF _ _ surjective_pairing]
  by simp

text \<open>
  Growing a buffer never loses or reorders an unread byte, whether the allocation succeeds or
  not; it only fails when the allocation does, and when it succeeds a write of \<open>inc\<close> bytes fits.
\<close>

theorem buffer_increase_keeps_contents:
  assumes "buf_ok b" and "length (bmem b) + inc < 2 ^ 32"
    and "ems_buffer_increase alloc g b inc = (r, b')"
  shows "contents b' = contents b \<and> (r = EMS_OK \<or> \<not> alloc) \<and> (r = EMS_OK \<longrightarrow> inc \<le> room b')"
  using increase_ok [OF assms(1,3,2)] by simp

theorem buffer_increase_keeps_contents_witness:
  "contents (snd (ems_buffer_increase True (\<lambda>_. CHR ''?'') buf_abc 100)) = ''bc''"
  using buffer_increase_keeps_contents [of buf_abc 100, OF _ _ surjective_pairing] buf_abc by simp

end
