(* ===== verification/Ems_Timer.thy ===== *)
theory Ems_Timer
  imports Ems_Queue
begin

text \<open>
  The timer lists of \<^verbatim>\<open>c/ems/src/utils/ems_timer.c\<close>. A timer is an address: its \<open>entry\<close> links
  live in the store of \<open>Ems_Queue\<close>, its other fields in maps by address. Callbacks are numbers
  run by a parameter that may change the whole store. The clock is an argument: the value
  \<open>clock_gettime\<close> returns. Milliseconds are truncated to \<open>ems_int\<close> (32 bits) as the code does.
\<close>

record timeval =
  tv_sec :: int
  tv_usec :: int

record tstore =
  qh :: qheap
  pending :: "addr \<Rightarrow> bool"
  tcb :: "addr \<Rightarrow> nat option"
  ttime :: "addr \<Rightarrow> timeval"

subsection \<open>The operations\<close>

definition to_int32 :: "int \<Rightarrow> int" where
  "to_int32 n = sint (word_of_int n :: 32 word)"

definition ems_time_diff :: "timeval \<Rightarrow> timeval \<Rightarrow> int" where
  "ems_time_diff t1 t2 =
    to_int32 ((tv_sec t1 - tv_sec t2) * 1000 + (tv_usec t1 - tv_usec t2) sdiv 1000)"

text \<open>\<open>ems_getboottime\<close>, from the seconds and nanoseconds of the clock.\<close>

definition ems_getboottime :: "int \<Rightarrow> int \<Rightarrow> timeval" where
  "ems_getboottime sec nsec = \<lparr>tv_sec = sec, tv_usec = nsec sdiv 1000\<rparr>"

definition ems_timeout_init :: "addr \<Rightarrow> tstore \<Rightarrow> int \<times> tstore" where
  "ems_timeout_init to s =
    (EMS_OK, s\<lparr>qh := set_next to 0 (set_prev to 0 (qh s)), pending := (pending s)(to := False),
      tcb := (tcb s)(to := None), ttime := (ttime s)(to := \<lparr>tv_sec = 0, tv_usec = 0\<rparr>)\<rparr>)"

definition ems_timeout_cancel :: "addr \<Rightarrow> tstore \<Rightarrow> int \<times> tstore" where
  "ems_timeout_cancel to s =
    (if \<not> pending s to then (EMS_ERR, s)
     else (EMS_OK, s\<lparr>qh := ems_queue_remove to (qh s), pending := (pending s)(to := False)\<rparr>))"

text \<open>The search for the place of a timer in a sorted list, with fuel for the traversal.\<close>

fun timeout_pos :: "nat \<Rightarrow> addr \<Rightarrow> addr \<Rightarrow> tstore \<Rightarrow> addr \<Rightarrow> addr option" where
  "timeout_pos 0 l to s p = None"
| "timeout_pos (Suc n) l to s p =
    (if p = l then Some l
     else if ems_time_diff (ttime s p) (ttime s to) > 0 then Some p
     else timeout_pos n l to s (nxt (qh s) p))"

text \<open>The positions are \<open>EMS_TIMEOUT_TAIL\<close> = 0, \<open>EMS_TIMEOUT_SORT\<close> = 1, \<open>EMS_TIMEOUT_HEAD\<close> = 2.\<close>

definition ems_timeout_add :: "nat \<Rightarrow> addr \<Rightarrow> addr \<Rightarrow> nat \<Rightarrow> tstore \<Rightarrow> (int \<times> tstore) option" where
  "ems_timeout_add fuel l to pos s =
    (if pending s to then Some (EMS_ERR, s)
     else (let s1 = s\<lparr>pending := (pending s)(to := True)\<rparr>
           in if pos = 1 then
                (case timeout_pos fuel l to s1 (ems_queue_head l (qh s1)) of
                   None \<Rightarrow> None
                 | Some p \<Rightarrow> Some (EMS_OK, s1\<lparr>qh := ems_queue_insert_tail p to (qh s1)\<rparr>))
              else if pos = 2 then Some (EMS_OK, s1\<lparr>qh := ems_queue_insert_head l to (qh s1)\<rparr>)
              else Some (EMS_OK, s1\<lparr>qh := ems_queue_insert_tail l to (qh s1)\<rparr>)))"

definition timeout_deadline :: "timeval \<Rightarrow> int \<Rightarrow> timeval" where
  "timeout_deadline now msecs =
    (let sec = tv_sec now + msecs sdiv 1000;
         usec = tv_usec now + (msecs smod 1000) * 1000
     in if usec > 1000000 then \<lparr>tv_sec = sec + 1, tv_usec = usec smod 1000000\<rparr>
        else \<lparr>tv_sec = sec, tv_usec = usec\<rparr>)"

definition ems_timeout_set ::
  "nat \<Rightarrow> timeval \<Rightarrow> addr \<Rightarrow> addr \<Rightarrow> int \<Rightarrow> nat option \<Rightarrow> nat \<Rightarrow> tstore \<Rightarrow> (int \<times> tstore) option" where
  "ems_timeout_set fuel now l to msecs cb pos s =
    (let s1 = (if pending s to then snd (ems_timeout_cancel to s) else s);
         s2 = s1\<lparr>ttime := (ttime s1)(to := timeout_deadline now msecs)\<rparr>;
         s3 = s2\<lparr>tcb := (tcb s2)(to := cb)\<rparr>
     in ems_timeout_add fuel l to pos s3)"

text \<open>
  \<open>ems_timeout_handle\<close>: the loop of \<open>ems_queue_foreach_safe\<close> keeps the next node in \<open>q\<close> before
  the body runs. The result lists the timers whose callback ran, in order.
\<close>

fun timeout_loop ::
  "(nat \<Rightarrow> addr \<Rightarrow> tstore \<Rightarrow> tstore) \<Rightarrow> nat \<Rightarrow> addr \<Rightarrow> timeval \<Rightarrow> addr \<Rightarrow> addr \<Rightarrow> tstore \<Rightarrow>
    (addr list \<times> tstore) option" where
  "timeout_loop run 0 l tv p q s = None"
| "timeout_loop run (Suc n) l tv p q s =
    (if p = l then Some ([], s)
     else if ems_time_diff (ttime s p) tv > 0 then Some ([], s)
     else (let s1 = snd (ems_timeout_cancel p s)
           in (case tcb s1 p of
                 None \<Rightarrow> timeout_loop run n l tv q (nxt (qh s1) q) s1
               | Some cb \<Rightarrow>
                   (let s2 = run cb p s1
                    in map_option (\<lambda>(fired, s'). (p # fired, s'))
                         (timeout_loop run n l tv q (nxt (qh s2) q) s2)))))"

definition ems_timeout_handle ::
  "(nat \<Rightarrow> addr \<Rightarrow> tstore \<Rightarrow> tstore) \<Rightarrow> nat \<Rightarrow> addr \<Rightarrow> timeval \<Rightarrow> tstore \<Rightarrow>
    (addr list \<times> tstore) option" where
  "ems_timeout_handle run fuel l tv s =
    (let p = ems_queue_head l (qh s) in timeout_loop run fuel l tv p (nxt (qh s) p) s)"

definition ems_timeout_next :: "addr \<Rightarrow> timeval \<Rightarrow> tstore \<Rightarrow> int" where
  "ems_timeout_next l tv s =
    (if ems_queue_empty l (qh s) then 1000
     else (let to = ems_queue_head l (qh s);
               diff = ems_time_diff (ttime s to) tv
           in if diff \<le> 0 then 0 else if diff > 1000 then 1000 else diff))"

subsection \<open>Comparing times\<close>

text \<open>
  Times within a window of about 23 days, with microseconds in the range \<open>ems_timeout_set\<close>
  leaves them in (a deadline can have exactly 1000000).
\<close>

definition tv_in :: "int \<Rightarrow> timeval \<Rightarrow> bool" where
  "tv_in t0 t \<longleftrightarrow> t0 \<le> tv_sec t \<and> tv_sec t \<le> t0 + 2000000 \<and> 0 \<le> tv_usec t \<and> tv_usec t \<le> 1000000"

lemma sdiv_1000: "(x :: int) sdiv 1000 = (if 0 \<le> x then x div 1000 else - ((- x) div 1000))"
  by (auto simp: signed_divide_int_def sgn_if)

lemma to_int32_id: "- (2 ^ 31) \<le> n \<Longrightarrow> n < 2 ^ 31 \<Longrightarrow> to_int32 n = n"
  by (simp add: to_int32_def sint_sbintrunc' signed_take_bit_int_eq_self)

lemma time_diff_window:
  assumes "tv_in t0 a" and "tv_in t0 b"
  shows "ems_time_diff a b = (tv_sec a - tv_sec b) * 1000 + (tv_usec a - tv_usec b) sdiv 1000"
  unfolding ems_time_diff_def
  by (rule to_int32_id; use assms in \<open>simp add: tv_in_def sdiv_1000; linarith\<close>)

lemma time_diff_antisym:
  assumes "tv_in t0 a" and "tv_in t0 b"
  shows "ems_time_diff a b = - ems_time_diff b a"
  using assms by (simp add: time_diff_window sdiv_1000)

lemma quot_small: "- 1000000 \<le> u \<Longrightarrow> u \<le> 1000000 \<Longrightarrow> - 1000 \<le> u sdiv 1000 \<and> u sdiv 1000 \<le> (1000 :: int)"
  by (simp add: sdiv_1000; linarith)

lemma quot_pos_iff: "0 < u sdiv 1000 \<longleftrightarrow> (1000 :: int) \<le> u"
  by (simp add: sdiv_1000; linarith)

lemma quot_low_iff: "- 1000 < u sdiv 1000 \<longleftrightarrow> - (1000000 :: int) < u"
  by (simp add: sdiv_1000; linarith)

lemma time_diff_pos_iff:
  assumes "tv_in t0 a" and "tv_in t0 b"
  shows "ems_time_diff a b > 0 \<longleftrightarrow>
    (let ds = tv_sec a - tv_sec b; du = tv_usec a - tv_usec b
     in ds \<ge> 2 \<or> (ds = 1 \<and> du > - 1000000) \<or> (ds = 0 \<and> du \<ge> 1000))"
proof -
  define ds du q where d: "ds = tv_sec a - tv_sec b" "du = tv_usec a - tv_usec b" "q = du sdiv 1000"
  have "- 1000000 \<le> du" "du \<le> 1000000" using assms by (auto simp: tv_in_def d)
  then have q: "- 1000 \<le> q \<and> q \<le> 1000" unfolding d(3) by (rule quot_small)
  have "0 < ds * 1000 + q \<longleftrightarrow> ds \<ge> 2 \<or> (ds = 1 \<and> q > - 1000) \<or> (ds = 0 \<and> q > 0)"
  proof -
    consider "ds \<ge> 2" | "ds = 1" | "ds = 0" | "ds \<le> - 1" by linarith
    then show ?thesis using q by cases linarith+
  qed
  then show ?thesis
    using time_diff_window [OF assms] by (simp add: d Let_def quot_pos_iff quot_low_iff)
qed

text \<open>
  The truncated millisecond difference is not a linear order on microseconds, but it is good
  enough for the insertion: what is not after \<open>r\<close> and after \<open>x\<close> separates the two.
\<close>

lemma time_diff_separates:
  assumes "tv_in t0 x" and "tv_in t0 p" and "tv_in t0 r"
    and "ems_time_diff p x > 0" and "\<not> ems_time_diff p r > 0"
  shows "\<not> ems_time_diff x r > 0"
proof -
  define xs xu ps pu rs ru where d: "xs = tv_sec x" "xu = tv_usec x" "ps = tv_sec p" "pu = tv_usec p"
    "rs = tv_sec r" "ru = tv_usec r"
  have b: "0 \<le> xu" "xu \<le> 1000000" "0 \<le> pu" "pu \<le> 1000000" "0 \<le> ru" "ru \<le> 1000000"
    using assms(1-3) by (auto simp: tv_in_def d)
  have px: "ps - xs \<ge> 2 \<or> ps - xs = 1 \<and> pu - xu > - 1000000 \<or> ps - xs = 0 \<and> pu - xu \<ge> 1000"
    using assms(4) unfolding time_diff_pos_iff [OF assms(2,1)] Let_def d .
  have pr: "\<not> (ps - rs \<ge> 2 \<or> ps - rs = 1 \<and> pu - ru > - 1000000 \<or> ps - rs = 0 \<and> pu - ru \<ge> 1000)"
    using assms(5) unfolding time_diff_pos_iff [OF assms(2,3)] Let_def d .
  have "\<not> (xs - rs \<ge> 2 \<or> xs - rs = 1 \<and> xu - ru > - 1000000 \<or> xs - rs = 0 \<and> xu - ru \<ge> 1000)"
    using px
  proof (elim disjE conjE)
    assume "ps - xs \<ge> 2" then show ?thesis using b pr by auto
  next
    assume "ps - xs = 1" "pu - xu > - 1000000" then show ?thesis using b pr by auto
  next
    assume "ps - xs = 0" "pu - xu \<ge> 1000" then show ?thesis using b pr by auto
  qed
  then show ?thesis unfolding time_diff_pos_iff [OF assms(1,3)] Let_def d .
qed

subsection \<open>Sorted timer lists\<close>

definition after :: "tstore \<Rightarrow> addr \<Rightarrow> addr \<Rightarrow> bool" where
  "after s a b \<longleftrightarrow> ems_time_diff (ttime s a) (ttime s b) > 0"

definition timers_ok :: "int \<Rightarrow> addr \<Rightarrow> addr list \<Rightarrow> tstore \<Rightarrow> bool" where
  "timers_ok t0 l xs s \<longleftrightarrow> ring (qh s) l xs \<and> (\<forall>x \<in> set xs. pending s x \<and> tv_in t0 (ttime s x))
    \<and> sorted_wrt (\<lambda>a b. \<not> after s a b) xs"

lemma timeout_pos_links:
  "links (qh s) a xs l \<Longrightarrow> l \<notin> set xs \<Longrightarrow> length xs < fuel \<Longrightarrow>
    timeout_pos fuel l to s (nxt (qh s) a) = Some (hd (dropWhile (\<lambda>p. \<not> after s p to) xs @ [l]))"
proof (induction xs arbitrary: a fuel)
  case Nil
  then show ?case by (cases fuel) auto
next
  case (Cons x xs)
  then obtain n where "fuel = Suc n" by (cases fuel) auto
  moreover have "timeout_pos n l to s (nxt (qh s) x) = Some (hd (dropWhile (\<lambda>p. \<not> after s p to) xs @ [l]))"
    using Cons.prems \<open>fuel = Suc n\<close> by (intro Cons.IH) auto
  ultimately show ?case using Cons.prems by (auto simp: after_def)
qed

text \<open>The place the insertion chooses.\<close>

definition insert_timer :: "tstore \<Rightarrow> addr \<Rightarrow> addr list \<Rightarrow> addr list" where
  "insert_timer s to xs =
    takeWhile (\<lambda>p. \<not> after s p to) xs @ to # dropWhile (\<lambda>p. \<not> after s p to) xs"

lemma set_insert_timer: "set (insert_timer s to xs) = insert to (set xs)"
  unfolding insert_timer_def
  by (metis Un_insert_right list.simps(15) set_append takeWhile_dropWhile_id)

lemma length_insert_timer: "length (insert_timer s to xs) = Suc (length xs)"
  unfolding insert_timer_def
  by (metis add_Suc_right length_Cons length_append takeWhile_dropWhile_id)

lemma insert_timer_sorted:
  assumes "\<forall>x \<in> set xs. tv_in t0 (ttime s x)" and "tv_in t0 (ttime s to)"
    and "sorted_wrt (\<lambda>a b. \<not> after s a b) xs"
  shows "sorted_wrt (\<lambda>a b. \<not> after s a b) (insert_timer s to xs)"
proof -
  let ?P = "\<lambda>p. \<not> after s p to"
  have w: "sorted_wrt (\<lambda>a b. \<not> after s a b) (takeWhile ?P xs @ dropWhile ?P xs)"
    using assms(3) by simp
  have "\<not> after s to v" if v: "v \<in> set (dropWhile ?P xs)" for v
  proof -
    obtain p ps where d: "dropWhile ?P xs = p # ps" using v by (cases "dropWhile ?P xs") auto
    have pt: "after s p to" using hd_dropWhile [of ?P xs] d by simp
    have in_xs: "p \<in> set xs" "v \<in> set xs"
      using d v by (metis list.set_intros(1) set_dropWhileD)+
    show ?thesis
    proof (cases "v = p")
      case True
      then show ?thesis
        using pt time_diff_antisym [OF assms(2), of "ttime s p"] assms(1) in_xs by (simp add: after_def)
    next
      case False
      then have "\<not> after s p v" using w d v by (auto simp: sorted_wrt_append)
      then show ?thesis
        using pt assms(1,2) in_xs time_diff_separates [of t0 "ttime s to" "ttime s p" "ttime s v"]
        by (simp add: after_def)
    qed
  qed
  moreover have "?P u" if "u \<in> set (takeWhile ?P xs)" for u
    using that by (rule set_takeWhileD [THEN conjunct2])
  ultimately show ?thesis
    using w [unfolded sorted_wrt_append]
    unfolding insert_timer_def sorted_wrt_append sorted_wrt.simps list.set by blast
qed

lemma ring_insert_timer:
  assumes "ring (qh s) l xs" and "to \<notin> set (l # xs)" and "length xs < fuel"
  shows "\<exists>p. timeout_pos fuel l to s (ems_queue_head l (qh s)) = Some p
    \<and> ring (ems_queue_insert_tail p to (qh s)) l (insert_timer s to xs)"
proof -
  let ?P = "\<lambda>p. \<not> after s p to"
  have xs: "xs = takeWhile ?P xs @ dropWhile ?P xs" by simp
  have pos: "timeout_pos fuel l to s (ems_queue_head l (qh s)) = Some (hd (dropWhile ?P xs @ [l]))"
    using assms(1,3) timeout_pos_links by (simp add: ring_def ems_queue_head_def)
  show ?thesis
  proof (cases "dropWhile ?P xs")
    case Nil
    then have tw: "takeWhile ?P xs = xs" using xs by (metis append_Nil2)
    show ?thesis
      using pos [unfolded Nil] ring_insert_tail [OF assms(1,2)] unfolding insert_timer_def Nil tw by simp
  next
    case (Cons p ps)
    then have "ring (qh s) l (takeWhile ?P xs @ p # ps)" using assms(1) xs by simp
    moreover have "to \<notin> set (l # takeWhile ?P xs @ p # ps)" using assms(2) xs Cons by metis
    ultimately have "ring (ems_queue_insert_tail p to (qh s)) l (takeWhile ?P xs @ to # p # ps)"
      by (rule ring_insert_before)
    with Cons pos show ?thesis by (simp add: insert_timer_def)
  qed
qed

lemma sorted_wrt_remove1: "sorted_wrt P xs \<Longrightarrow> sorted_wrt P (remove1 x xs)"
  by (induction xs) (auto dest: notin_set_remove1)

text \<open>The store before the insertion of an armed timer: its fields set, not in the list.\<close>

lemma cancel_ok:
  assumes "timers_ok t0 l xs s" and "x \<in> set xs"
  shows "\<exists>s'. ems_timeout_cancel x s = (EMS_OK, s') \<and> timers_ok t0 l (remove1 x xs) s'
    \<and> \<not> pending s' x \<and> ttime s' = ttime s \<and> tcb s' = tcb s"
  using assms ring_remove_member [of "qh s" l xs x] ring_distinct [of "qh s" l xs]
  by (auto simp: timers_ok_def ems_timeout_cancel_def after_def sorted_wrt_remove1)

text \<open>
  What \<open>ems_timeout_set\<close> does in a sorted list, for a timer that is in it or not armed at all.
\<close>

lemma timeout_set_ok:
  assumes ok: "timers_ok t0 l xs s" and to: "to \<noteq> l" "pending s to \<longleftrightarrow> to \<in> set xs"
    and fuel: "length xs < fuel" and dl: "tv_in t0 (timeout_deadline now msecs)"
  shows "\<exists>s'. ems_timeout_set fuel now l to msecs cb 1 s = Some (EMS_OK, s')
    \<and> timers_ok t0 l (insert_timer s' to (remove1 to xs)) s'
    \<and> pending s' to \<and> tcb s' = (tcb s)(to := cb)
    \<and> ttime s' = (ttime s)(to := timeout_deadline now msecs)"
proof -
  define s1 where "s1 = (if pending s to then snd (ems_timeout_cancel to s) else s)"
  let ?ys = "remove1 to xs"
  have d: "distinct (l # xs)" using ok ring_distinct by (auto simp: timers_ok_def)
  have s1: "timers_ok t0 l ?ys s1" "\<not> pending s1 to" "ttime s1 = ttime s" "tcb s1 = tcb s"
  proof -
    have "timers_ok t0 l ?ys s1 \<and> \<not> pending s1 to \<and> ttime s1 = ttime s \<and> tcb s1 = tcb s"
    proof (cases "pending s to")
      case True
      then obtain s' where "ems_timeout_cancel to s = (EMS_OK, s')" "timers_ok t0 l ?ys s'"
        "\<not> pending s' to" "ttime s' = ttime s" "tcb s' = tcb s"
        using cancel_ok [OF ok, of to] to by auto
      with True show ?thesis by (simp add: s1_def)
    qed (use ok to in \<open>simp add: s1_def remove1_idem\<close>)
    then show "timers_ok t0 l ?ys s1" "\<not> pending s1 to" "ttime s1 = ttime s" "tcb s1 = tcb s" by auto
  qed
  define s4 where "s4 = s1\<lparr>ttime := (ttime s1)(to := timeout_deadline now msecs),
    tcb := (tcb s1)(to := cb), pending := (pending s1)(to := True)\<rparr>"
  have nin: "to \<notin> set (l # ?ys)" using d to(1) by simp
  have r4: "ring (qh s4) l ?ys" using s1(1) by (simp add: s4_def timers_ok_def)
  have "length ?ys < fuel" using fuel by (auto simp: length_remove1)
  from ring_insert_timer [OF r4 nin this] obtain p where
    p: "timeout_pos fuel l to s4 (ems_queue_head l (qh s4)) = Some p"
    and r5: "ring (ems_queue_insert_tail p to (qh s4)) l (insert_timer s4 to ?ys)" by blast
  let ?s5 = "s4\<lparr>qh := ems_queue_insert_tail p to (qh s4)\<rparr>"
  have same: "ttime s4 x = ttime s x" "pending s4 x = pending s1 x" if "x \<in> set ?ys" for x
    using that nin s1 by (auto simp: s4_def)
  have tv: "\<forall>x \<in> set ?ys. pending s4 x \<and> tv_in t0 (ttime s4 x)"
    using s1(1,3) same by (simp add: timers_ok_def)
  have new: "pending s4 to" "tv_in t0 (ttime s4 to)" using dl by (simp_all add: s4_def)
  have eqs: "after ?s5 = after s4" "insert_timer ?s5 = insert_timer s4"
    by (simp_all add: fun_eq_iff after_def insert_timer_def)
  have "sorted_wrt (\<lambda>a b. \<not> after s4 a b) ?ys"
    using s1(1,3) same by (auto simp: timers_ok_def after_def intro: sorted_wrt_mono_rel [rotated])
  then have "sorted_wrt (\<lambda>a b. \<not> after s4 a b) (insert_timer s4 to ?ys)"
    using tv new by (intro insert_timer_sorted [of _ t0]) auto
  then have "timers_ok t0 l (insert_timer ?s5 to ?ys) ?s5"
    using r5 tv new unfolding timers_ok_def eqs set_insert_timer by simp
  moreover have "ems_timeout_set fuel now l to msecs cb 1 s = Some (EMS_OK, ?s5)"
    using p s1(2) by (simp add: ems_timeout_set_def ems_timeout_add_def Let_def s1_def [symmetric] s4_def)
  ultimately show ?thesis using s1 by (auto simp: s4_def)
qed

subsection \<open>Running the due timers\<close>

definition due :: "tstore \<Rightarrow> timeval \<Rightarrow> addr \<Rightarrow> bool" where
  "due s tv x \<longleftrightarrow> \<not> ems_time_diff (ttime s x) tv > 0"

text \<open>
  The contract of a callback: called for a timer that has left a list of at most \<open>n\<close> timers, it
  keeps the list a sorted list of armed timers, does not grow it beyond its old length, does not
  touch the timers that wait in it and arms none that is due already. A callback that arms its own
  timer again for later keeps the contract.
\<close>

definition polite :: "(nat \<Rightarrow> addr \<Rightarrow> tstore \<Rightarrow> tstore) \<Rightarrow> int \<Rightarrow> addr \<Rightarrow> timeval \<Rightarrow> nat \<Rightarrow> bool" where
  "polite run t0 l tv n \<longleftrightarrow>
    (\<forall>c p s rest. timers_ok t0 l rest s \<longrightarrow> p \<notin> set (l # rest) \<longrightarrow> \<not> pending s p \<longrightarrow> length rest < n \<longrightarrow>
      (\<exists>ys. timers_ok t0 l ys (run c p s) \<and> length ys \<le> Suc (length rest)
        \<and> takeWhile (due (run c p s) tv) ys = takeWhile (due s tv) rest
        \<and> (\<forall>x \<in> set rest. ttime (run c p s) x = ttime s x \<and> tcb (run c p s) x = tcb s x)))"

lemma due_cong: "ttime s x = ttime s' x \<Longrightarrow> due s tv x = due s' tv x"
  by (simp add: due_def)

lemma timeout_loop_due:
  assumes "polite run t0 l tv n"
  shows "timers_ok t0 l xs s \<Longrightarrow> takeWhile (due s tv) xs = ds \<Longrightarrow> length xs \<le> n \<Longrightarrow> length ds < fuel \<Longrightarrow>
    p = hd (xs @ [l]) \<Longrightarrow>
    \<exists>s' ys. timeout_loop run fuel l tv p (nxt (qh s) p) s = Some (filter (\<lambda>x. tcb s x \<noteq> None) ds, s')
      \<and> timers_ok t0 l ys s' \<and> takeWhile (due s' tv) ys = []"
proof (induction ds arbitrary: xs s fuel p)
  case Nil
  then obtain k where k: "fuel = Suc k" by (cases fuel) auto
  have "timeout_loop run fuel l tv p (nxt (qh s) p) s = Some ([], s)"
    using Nil.prems k by (cases xs) (auto simp: due_def split: if_splits)
  with Nil.prems show ?case by auto
next
  case (Cons d ds)
  note prems = Cons.prems and IH = Cons.IH
  then obtain k where k: "fuel = Suc k" "length ds < k" by (cases fuel) auto
  obtain rest where xs: "xs = d # rest" "due s tv d" "takeWhile (due s tv) rest = ds"
    using prems(2) by (cases xs) (auto split: if_splits)
  have p: "p = d" "p \<noteq> l" "p \<notin> set (l # rest)"
    using prems(1,5) xs ring_distinct [of "qh s" l xs] by (auto simp: timers_ok_def)
  obtain s1 where s1: "ems_timeout_cancel p s = (EMS_OK, s1)" "timers_ok t0 l rest s1"
    "\<not> pending s1 p" "ttime s1 = ttime s" "tcb s1 = tcb s"
    using cancel_ok [OF prems(1), of d] xs p by auto
  have q: "nxt (qh s) p = hd (rest @ [l])"
    using prems(1) xs p by (auto simp: timers_ok_def ring_def dest: links_next)
  have due1: "due s1 tv = due s tv" using s1(4) by (simp add: due_def fun_eq_iff)
  have step: "\<not> ems_time_diff (ttime s p) tv > 0" using xs p by (simp add: due_def)
  show ?case
  proof (cases "tcb s1 p")
    case None
    have "\<exists>s' ys. timeout_loop run k l tv (hd (rest @ [l])) (nxt (qh s1) (hd (rest @ [l]))) s1
        = Some (filter (\<lambda>x. tcb s1 x \<noteq> None) ds, s') \<and> timers_ok t0 l ys s' \<and> takeWhile (due s' tv) ys = []"
      using prems(3) s1(2) xs due1 k(2) by (intro IH) auto
    then show ?thesis using None k p q step s1 by simp
  next
    case (Some c)
    let ?s2 = "run c p s1"
    obtain ys where ys: "timers_ok t0 l ys ?s2" "length ys \<le> Suc (length rest)"
      "takeWhile (due ?s2 tv) ys = ds" "\<forall>x \<in> set rest. ttime ?s2 x = ttime s x \<and> tcb ?s2 x = tcb s x"
      using assms s1 p(3) prems(3) xs due1 unfolding polite_def by (metis Suc_le_lessD length_Cons)
    have cb: "filter (\<lambda>x. tcb ?s2 x \<noteq> None) ds = filter (\<lambda>x. tcb s x \<noteq> None) ds"
      using ys(4) xs(3) by (intro filter_cong) (auto dest: set_takeWhileD)
    have "\<exists>s' zs. timeout_loop run k l tv (hd (rest @ [l])) (nxt (qh ?s2) (hd (rest @ [l]))) ?s2
        = Some (filter (\<lambda>x. tcb ?s2 x \<noteq> None) ds, s') \<and> timers_ok t0 l zs s' \<and> takeWhile (due s' tv) zs = []"
    proof (cases ds)
      case Nil
      obtain j where j: "k = Suc j" using k(2) by (cases k) auto
      have "hd (rest @ [l]) = l \<or> ems_time_diff (ttime ?s2 (hd (rest @ [l]))) tv > 0"
        using Nil xs(3) ys(4) by (cases rest) (auto simp: due_def split: if_splits)
      then show ?thesis using Nil j ys by auto
    next
      case (Cons e es)
      then have "hd (ys @ [l]) = hd (rest @ [l])"
        using ys(3) xs(3) by (cases ys; cases rest) (auto split: if_splits)
      then show ?thesis
        using ys prems(3) xs k(2) by (intro IH [of ys]) auto
    qed
    then show ?thesis using Some k p q step s1 cb by auto
  qed
qed

text \<open>
  A periodic timer: its callback arms it again, \<open>msecs\<close> after the time the list is handled at.
\<close>

definition rearm :: "nat \<Rightarrow> timeval \<Rightarrow> addr \<Rightarrow> int \<Rightarrow> nat \<Rightarrow> addr \<Rightarrow> tstore \<Rightarrow> tstore" where
  "rearm fuel now l msecs c p s =
    (case ems_timeout_set fuel now l p msecs (Some c) 1 s of None \<Rightarrow> s | Some (ret, s') \<Rightarrow> s')"

lemma takeWhile_insert_late:
  assumes "timers_ok t0 l xs s" and "\<not> due s tv p" and "tv_in t0 (ttime s p)" and "tv_in t0 tv"
  shows "takeWhile (due s tv) (insert_timer s p xs) = takeWhile (due s tv) xs"
proof -
  let ?P = "\<lambda>x. \<not> after s x p"
  have late: "\<not> due s tv v" if v: "v \<in> set xs" "after s v p" for v
  proof
    assume "due s tv v"
    then have "\<not> ems_time_diff (ttime s p) tv > 0"
      using v assms time_diff_separates [of t0 "ttime s p" "ttime s v" tv]
      by (simp add: due_def after_def timers_ok_def)
    with assms(2) show False by (simp add: due_def)
  qed
  have "takeWhile (due s tv) (dropWhile ?P xs) = []"
  proof (cases "dropWhile ?P xs")
    case Nil
    show ?thesis unfolding Nil by simp
  next
    case (Cons v vs)
    have "after s v p" "v \<in> set xs"
      using hd_dropWhile [of ?P xs] set_dropWhileD [of v ?P xs] Cons by simp_all
    then have "\<not> due s tv v" using late by blast
    then show ?thesis unfolding Cons by simp
  qed
  then have "takeWhile (due s tv) (takeWhile ?P xs @ p # dropWhile ?P xs)
      = takeWhile (due s tv) (takeWhile ?P xs @ dropWhile ?P xs)"
    using assms(2) by (intro takeWhile_append_stop) simp_all
  then show ?thesis by (simp add: insert_timer_def)
qed

lemma rearm_polite:
  assumes "n < fuel" and "tv_in t0 tv" and "tv_in t0 (timeout_deadline now msecs)"
    and "ems_time_diff (timeout_deadline now msecs) tv > 0"
  shows "polite (rearm fuel now l msecs) t0 l tv n"
  unfolding polite_def
proof (intro allI impI)
  fix c p s rest
  assume a: "timers_ok t0 l rest s" "p \<notin> set (l # rest)" "\<not> pending s p" "length rest < n"
  obtain s' where s': "ems_timeout_set fuel now l p msecs (Some c) 1 s = Some (EMS_OK, s')"
    "timers_ok t0 l (insert_timer s' p rest) s'" "tcb s' = (tcb s)(p := Some c)"
    "ttime s' = (ttime s)(p := timeout_deadline now msecs)"
    using timeout_set_ok [OF a(1), of p fuel now msecs "Some c"] a assms by (auto simp: remove1_idem)
  let ?s = "s'\<lparr>qh := qh s, pending := pending s\<rparr>"
  have same: "ttime s' x = ttime s x" if "x \<in> set rest" for x using a(2) that s'(4) by auto
  have due: "due s' tv x = due s tv x" if "x \<in> set rest" for x using same [OF that] by (rule due_cong)
  have ok: "timers_ok t0 l rest ?s"
    using a(1) same by (auto simp: timers_ok_def after_def intro: sorted_wrt_mono_rel [rotated])
  have eq: "insert_timer ?s p rest = insert_timer s' p rest" "due ?s tv = due s' tv"
    by (simp_all add: insert_timer_def after_def due_def fun_eq_iff)
  have "\<not> due s' tv p" using assms(4) s'(4) by (simp add: due_def)
  then have "takeWhile (due s' tv) (insert_timer s' p rest) = takeWhile (due s' tv) rest"
    using takeWhile_insert_late [OF ok, of tv p] assms(2,3) s'(4) by (simp add: eq)
  also have "\<dots> = takeWhile (due s tv) rest" using due by (intro takeWhile_cong) auto
  finally have "takeWhile (due s' tv) (insert_timer s' p rest) = takeWhile (due s tv) rest" .
  moreover have "rearm fuel now l msecs c p s = s'" using s'(1) by (simp add: rearm_def)
  ultimately show "\<exists>ys. timers_ok t0 l ys (rearm fuel now l msecs c p s) \<and> length ys \<le> Suc (length rest)
      \<and> takeWhile (due (rearm fuel now l msecs c p s) tv) ys = takeWhile (due s tv) rest
      \<and> (\<forall>x \<in> set rest. ttime (rearm fuel now l msecs c p s) x = ttime s x
            \<and> tcb (rearm fuel now l msecs c p s) x = tcb s x)"
    using s' a(2) by (intro exI [of _ "insert_timer s' p rest"]) (auto simp: length_insert_timer)
qed

subsection \<open>Properties\<close>

text \<open>Two timers, 1 due at 10 s with callback 7 and 2 at 12 s with callback 8, in the list 0.\<close>

definition tstore_0 :: tstore where
  "tstore_0 = \<lparr>qh = ems_queue_init 0 qheap_zero, pending = (\<lambda>_. False), tcb = (\<lambda>_. None),
    ttime = (\<lambda>_. \<lparr>tv_sec = 0, tv_usec = 0\<rparr>)\<rparr>"

definition tstore_12 :: tstore where
  "tstore_12 = \<lparr>qh = qheap_12, pending = (\<lambda>x. x = 1 \<or> x = 2),
    tcb = [1 \<mapsto> 7, 2 \<mapsto> 8],
    ttime = (\<lambda>_. \<lparr>tv_sec = 0, tv_usec = 0\<rparr>)
      (1 := \<lparr>tv_sec = 10, tv_usec = 0\<rparr>, 2 := \<lparr>tv_sec = 12, tv_usec = 0\<rparr>)\<rparr>"

lemma tstore_12_ok: "timers_ok 0 0 [1, 2] tstore_12"
  using ring_qheap_12
  by (simp add: timers_ok_def tstore_12_def tv_in_def after_def time_diff_pos_iff [of 0])





text \<open>
  A timer that the callback of an earlier timer cancels in the same pass still has its
  callback run: the loop has kept its address, and \<open>ems_timeout_handle\<close> ignores that
  \<open>ems_timeout_cancel\<close> fails. Here timers 1 and 2 are due and the callback of 1 cancels 2.
\<close>

theorem timeout_handle_runs_cancelled:
  "let run = (\<lambda>c p s. if p = 1 then snd (ems_timeout_cancel 2 s) else s);
       tv = \<lparr>tv_sec = 20, tv_usec = 0\<rparr>;
       s1 = run 7 1 (snd (ems_timeout_cancel 1 tstore_12))
   in \<not> pending s1 2 \<and> ring (qh s1) 0 []
     \<and> map_option fst (ems_timeout_handle run 5 0 tv tstore_12) = Some [1, 2]"
  by code_simp

end
