(* ===== verification/Ems_Text.thy ===== *)
theory Ems_Text
  imports Ems_Str
begin

text \<open>
  Text utilities: the list of pieces of \<^verbatim>\<open>c/ems/src/utils/ems_split.c\<close>, the URL encoding of
  \<^verbatim>\<open>ems_urlcode.c\<close>, and from \<^verbatim>\<open>ems_utils.c\<close> the conversions between bytes and hexadecimal
  digits, between numbers and text, and \<open>ems_trim\<close>. A queue of \<open>ems_split\<close> is the list of the
  \<open>ems_str\<close> in its nodes. \<open>ems_string_split\<close> may run forever (an empty separator is found again at
  the place it was found), so its loop is a partial function.
\<close>

subsection \<open>Splitting\<close>

definition ems_split_new :: "bool \<Rightarrow> ems_str option" where
  "ems_split_new alloc = (if alloc then Some str_init else None)"

definition split_piece :: "bool \<Rightarrow> string \<Rightarrow> ems_str list" where
  "split_piece alloc t =
    (case ems_split_new alloc of
       None \<Rightarrow> []
     | Some sp \<Rightarrow> (case fst (str_set True (Some sp) (Some t)) of None \<Rightarrow> [] | Some sp' \<Rightarrow> [sp']))"

text \<open>\<open>alloc k\<close> says whether the \<open>k\<close>-th allocation of a node succeeds.\<close>

partial_function (option) split_loop ::
  "(nat \<Rightarrow> bool) \<Rightarrow> nat \<Rightarrow> string \<Rightarrow> string \<Rightarrow> ems_str list option" where
  "split_loop alloc k p sep =
    (case strstr p sep of
       None \<Rightarrow> Some (if p \<noteq> [] then split_piece (alloc k) p else [])
     | Some q \<Rightarrow>
         (let len = length p - length q;
              len' = (if len \<ge> 512 then 511 else len);
              sp = split_piece (alloc k) (take len' p)
          in Option.bind (split_loop alloc (Suc k) (drop (length sep) q) sep) (\<lambda>rest. Some (sp @ rest))))"

definition ems_string_split ::
  "(nat \<Rightarrow> bool) \<Rightarrow> ems_str list \<Rightarrow> string option \<Rightarrow> string option \<Rightarrow> (int \<times> ems_str list) option" where
  "ems_string_split alloc xs src sep =
    (case (src, sep) of
       (Some s, Some t) \<Rightarrow> map_option (\<lambda>ys. (EMS_OK, xs @ ys)) (split_loop alloc 0 s t)
     | _ \<Rightarrow> Some (EMS_ERR, xs))"

definition ems_split_find :: "ems_str list \<Rightarrow> string \<Rightarrow> ems_str option" where
  "ems_split_find xs key = find (\<lambda>sp. str_len sp > 0 \<and> str_data sp = Some key) xs"

definition ems_split_get_str :: "ems_str list \<Rightarrow> int \<Rightarrow> string option" where
  "ems_split_get_str xs ind = (if 0 \<le> ind \<and> ind < int (length xs) then str_data (xs ! nat ind) else None)"

definition ems_split_len :: "ems_str list \<Rightarrow> int" where
  "ems_split_len xs = int (length xs)"

fun ems_split_foreach :: "(string option \<Rightarrow> 's \<Rightarrow> int \<times> 's) \<Rightarrow> ems_str list \<Rightarrow> 's \<Rightarrow> int \<times> 's" where
  "ems_split_foreach cb [] s = (EMS_OK, s)"
| "ems_split_foreach cb (sp # xs) s =
    (case cb (str_data sp) s of (ret, s') \<Rightarrow> if ret \<noteq> EMS_OK then (ret, s') else ems_split_foreach cb xs s')"

subsection \<open>URL encoding\<close>

definition is_alnum :: "char \<Rightarrow> bool" where
  "is_alnum c = (let n = uchr c in (48 \<le> n \<and> n \<le> 57) \<or> (65 \<le> n \<and> n \<le> 90) \<or> (97 \<le> n \<and> n \<le> 122))"

definition hex_char :: "nat \<Rightarrow> char" where
  "hex_char n = ''0123456789abcdef'' ! n"

text \<open>\<open>to_hex\<close> takes a \<open>char\<close>, which is signed: the value is masked after the sign extension.\<close>

definition to_hex :: "int \<Rightarrow> char" where
  "to_hex code = hex_char (nat (code AND 15))"

fun url_encode :: "string \<Rightarrow> nat \<Rightarrow> string" where
  "url_encode [] n = []"
| "url_encode (ch # s) 0 = []"
| "url_encode (ch # s) (Suc n) =
    (if is_alnum ch \<or> ch = CHR ''-'' \<or> ch = CHR ''_'' \<or> ch = CHR ''.'' \<or> ch = CHR ''~'' then ch # url_encode s n
     else if ch = CHR '' '' then CHR ''+'' # url_encode s n
     else CHR ''%'' # to_hex (drop_bit 4 (schr ch)) # to_hex (schr ch AND 15) # url_encode s n)"

subsection \<open>Numbers and text\<close>

definition is_space :: "char \<Rightarrow> bool" where
  "is_space c = (uchr c = 32 \<or> (9 \<le> uchr c \<and> uchr c \<le> 13))"

definition digit_val :: "char \<Rightarrow> nat" where
  "digit_val c =
    (let n = uchr c
     in if 48 \<le> n \<and> n \<le> 57 then n - 48
        else if 97 \<le> n \<and> n \<le> 122 then n - 87
        else if 65 \<le> n \<and> n \<le> 90 then n - 55
        else 255)"

fun digits_val :: "nat \<Rightarrow> nat \<Rightarrow> string \<Rightarrow> nat" where
  "digits_val b acc [] = acc"
| "digits_val b acc (c # s) = (if digit_val c < b then digits_val b (acc * b + digit_val c) s else acc)"

text \<open>\<open>strtol\<close> of the C library, the result saturated to 64 bits.\<close>

definition strtol :: "string \<Rightarrow> nat \<Rightarrow> int" where
  "strtol s b =
    (let t = dropWhile is_space s;
         neg = (t \<noteq> [] \<and> hd t = CHR ''-'');
         u = (if t \<noteq> [] \<and> (hd t = CHR ''-'' \<or> hd t = CHR ''+'') then tl t else t);
         v = (if b = 16 \<and> length u > 2 \<and> u ! 0 = CHR ''0'' \<and> (u ! 1 = CHR ''x'' \<or> u ! 1 = CHR ''X'') \<and> digit_val (u ! 2) < 16
              then drop 2 u else u);
         n = int (digits_val b 0 v);
         m = (if neg then - n else n)
     in if m > 2 ^ 63 - 1 then 2 ^ 63 - 1 else if m < - (2 ^ 63) then - (2 ^ 63) else m)"

text \<open>\<open>ems_atoi\<close> returns the \<open>long\<close> as an \<open>ems_int\<close>.\<close>

definition ems_atoi :: "string option \<Rightarrow> int" where
  "ems_atoi str = (case str of None \<Rightarrow> 0 | Some s \<Rightarrow> sint (word_of_int (strtol s 10) :: 32 word))"

fun dec_string :: "nat \<Rightarrow> string" where
  "dec_string n = (if n < 10 then [char_of (48 + n)] else dec_string (n div 10) @ [char_of (48 + n mod 10)])"

declare dec_string.simps [simp del]

definition ems_itoa :: "int \<Rightarrow> string" where
  "ems_itoa i = take 63 (if i < 0 then CHR ''-'' # dec_string (nat (- i)) else dec_string (nat i))"

text \<open>
  \<open>ems_bin2str\<close>: what \<open>snprintf\<close> leaves in the destination and the number of bytes the code
  reports. \<open>snprintf\<close> writes at most \<open>d_l - 1\<close> characters but returns 2.
\<close>

fun bin2str_loop :: "string \<Rightarrow> int \<Rightarrow> string" where
  "bin2str_loop [] d_l = []"
| "bin2str_loop (ch # s) d_l =
    (if d_l > 0 then
       take (nat (d_l - 1)) [hex_char (uchr ch div 16), hex_char (uchr ch mod 16)] @ bin2str_loop s (d_l - 2)
     else [])"

fun bin2str_count :: "string \<Rightarrow> int \<Rightarrow> int" where
  "bin2str_count [] d_l = 0"
| "bin2str_count (ch # s) d_l = (if d_l > 0 then 1 + bin2str_count s (d_l - 2) else 0)"

definition ems_bin2str :: "string \<Rightarrow> int \<Rightarrow> int \<Rightarrow> int \<times> string" where
  "ems_bin2str s len d_l =
    (let t = take (nat len) s in (bin2str_count t d_l, bin2str_loop t d_l))"

fun str2bin_loop :: "string \<Rightarrow> int \<Rightarrow> string" where
  "str2bin_loop (a # b # s) d_l =
    (if d_l > 0 then char_of (nat (strtol [a, b] 16 AND 255)) # str2bin_loop s (d_l - 1) else [])"
| "str2bin_loop s d_l = []"

definition ems_str2bin :: "string option \<Rightarrow> int \<Rightarrow> int \<times> string" where
  "ems_str2bin s d_l =
    (case s of None \<Rightarrow> (-1, []) | Some t \<Rightarrow> (int (length (str2bin_loop t d_l)), str2bin_loop t d_l))"

subsection \<open>Trimming\<close>

definition is_blank :: "char \<Rightarrow> bool" where
  "is_blank c \<longleftrightarrow> c = CHR '' '' \<or> uchr c = 9 \<or> uchr c = 10 \<or> uchr c = 13"

function trim_loop :: "string \<Rightarrow> int \<Rightarrow> int \<Rightarrow> int \<times> int" where
  "trim_loop buf s e =
    (if s < e then
       (if is_blank (buf ! nat s) then trim_loop buf (s + 1) e
        else if is_blank (buf ! nat e) then trim_loop buf s (e - 1)
        else (s, e))
     else (s, e))"
  by auto
termination by (relation "measure (\<lambda>(buf, s, e). nat (e - s))") auto

declare trim_loop.simps [simp del]

text \<open>
  The result is what the function returns (\<open>None\<close> for the null pointer, else the text at the
  returned pointer) and the text left in the argument. The terminating NUL is the character
  read at the end of the buffer.
\<close>

definition ems_trim :: "bool \<Rightarrow> string \<Rightarrow> string option \<times> string" where
  "ems_trim alloc src =
    (if \<not> alloc then (Some src, src)
     else (case trim_loop src 0 (int (length src) - 1) of
             (s, e) \<Rightarrow>
               (if s \<ge> e \<and> nat s < length src \<and> src ! nat s = CHR '' '' then (None, [])
                else (let r = take (nat (e + 1 - s)) (drop (nat s) src) in (Some r, r)))))"

subsection \<open>Facts about splitting\<close>

definition mk_str :: "string \<Rightarrow> ems_str" where
  "mk_str t = \<lparr>str_len = length t, str_data = Some t\<rparr>"

lemma split_piece_eq: "split_piece a t = (if a then [mk_str t] else [])"
  by (simp add: split_piece_def ems_split_new_def str_set_def mk_str_def)

lemma strstr_piece:
  assumes "strstr p sep = Some q" and "sep \<noteq> []"
  obtains pre post where "p = pre @ sep @ post" and "q = sep @ post" and "\<not> sublist sep pre"
proof -
  obtain pre post where s: "p = pre @ sep @ post" "q = sep @ post"
    using assms(1) by (rule strstr_split)
  have "\<not> sublist sep pre"
  proof
    assume "sublist sep pre"
    then obtain a b where ab: "pre = a @ sep @ b" by (auto simp: sublist_def)
    then have "prefix sep (drop (length a) p)" using s by simp
    moreover have "length a < length p - length q" using ab s assms(2) by simp
    ultimately show False using strstr_first [OF assms(1)] by blast
  qed
  with s that show thesis by blast
qed

lemma split_loop_spec:
  assumes "sep \<noteq> []"
  shows "\<exists>ps r. src = concat (map (\<lambda>p. p @ sep) ps) @ r \<and> \<not> sublist sep r \<and> (\<forall>p \<in> set ps. \<not> sublist sep p)
    \<and> split_loop (\<lambda>_. True) k src sep
        = Some (map (\<lambda>p. mk_str (take 511 p)) ps @ (if r = [] then [] else [mk_str r]))"
proof (induction "length src" arbitrary: src k rule: less_induct)
  case less
  show ?case
  proof (cases "strstr src sep")
    case None
    then have "split_loop (\<lambda>_. True) k src sep = Some (if src = [] then [] else [mk_str src])"
      unfolding split_loop.simps [of _ k] by (simp add: split_piece_eq)
    moreover have "\<not> sublist sep src" using None by (simp add: strstr_None_iff)
    ultimately show ?thesis by (intro exI [of _ "[]"] exI [of _ src]) simp
  next
    case (Some q)
    then obtain pre post where s: "src = pre @ sep @ post" "q = sep @ post" "\<not> sublist sep pre"
      using assms by (rule strstr_piece)
    have "length post < length src" using s assms by simp
    from less [OF this, of "Suc k"] obtain ps r where
      r: "post = concat (map (\<lambda>p. p @ sep) ps) @ r" "\<not> sublist sep r" "\<forall>p \<in> set ps. \<not> sublist sep p"
        "split_loop (\<lambda>_. True) (Suc k) post sep
          = Some (map (\<lambda>p. mk_str (take 511 p)) ps @ (if r = [] then [] else [mk_str r]))" by blast
    have len: "length src - length q = length pre" using s by simp
    have piece: "take (if length pre \<ge> 512 then 511 else length pre) src = take 511 pre"
      using s(1) by (simp add: min_def)
    have "split_loop (\<lambda>_. True) k src sep
        = Some (map (\<lambda>p. mk_str (take 511 p)) (pre # ps) @ (if r = [] then [] else [mk_str r]))"
    proof -
      have "drop (length sep) q = post" using s(2) by simp
      then show ?thesis
        unfolding split_loop.simps [of _ k] Some Let_def option.case len piece
        by (simp add: r(4) split_piece_eq)
    qed
    with r s show ?thesis by (intro exI [of _ "pre # ps"] exI [of _ r]) simp
  qed
qed

lemma split_loop_empty_sep: "split_loop alloc k p [] = None"
proof (cases "split_loop alloc k p []")
  case (Some y)
  have "([] :: string) \<noteq> []"
  proof (rule split_loop.raw_induct [where P = "\<lambda>al n s sep y. sep \<noteq> []", OF _ Some])
    fix f :: "(nat \<Rightarrow> bool) \<Rightarrow> nat \<Rightarrow> string \<Rightarrow> string \<Rightarrow> ems_str list option"
      and al :: "nat \<Rightarrow> bool" and n :: nat and s sep :: string and y
    assume IH: "\<And>al n s sep y. f al n s sep = Some y \<Longrightarrow> sep \<noteq> []"
      and eq: "(case strstr s sep of None \<Rightarrow> Some (if s \<noteq> [] then split_piece (al n) s else [])
         | Some q \<Rightarrow> let len = length s - length q; len' = if 512 \<le> len then 511 else len;
             sp = split_piece (al n) (take len' s)
           in Option.bind (f al (Suc n) (drop (length sep) q) sep) (\<lambda>rest. Some (sp @ rest))) = Some y"
    show "sep \<noteq> []"
    proof
      assume e: "sep = []"
      then have "strstr s sep = Some s" by (cases s) auto
      with eq e have "\<exists>z. f al (Suc n) s sep = Some z" by (auto simp: Let_def bind_eq_Some_conv)
      with IH e show False by blast
    qed
  qed
  then show ?thesis by simp
qed

subsection \<open>Facts about the encodings\<close>

lemma hex_char_all:
  "\<forall>n \<in> set [0,1,2,3,4,5,6,7,8,9,10,11,12,13,14,15]. digit_val (hex_char n) = n \<and> \<not> is_space (hex_char n) \<and> hex_char n \<noteq> CHR ''-''
    \<and> hex_char n \<noteq> CHR ''+'' \<and> is_alnum (hex_char n)"
  by code_simp

lemma hex_char [simp]:
  assumes "n < 16"
  shows "digit_val (hex_char n) = n" and "\<not> is_space (hex_char n)" and "hex_char n \<noteq> CHR ''-''"
    and "hex_char n \<noteq> CHR ''+''" and "is_alnum (hex_char n)"
proof -
  from assms have "n \<in> set [0,1,2,3,4,5,6,7,8,9,10,11,12,13,14,15]"
    by (simp only: list.set insert_iff empty_iff) presburger
  from bspec [OF hex_char_all this]
  show "digit_val (hex_char n) = n" "\<not> is_space (hex_char n)" "hex_char n \<noteq> CHR ''-''"
    "hex_char n \<noteq> CHR ''+''" "is_alnum (hex_char n)" by blast+
qed

lemma power4: "(2 :: int) ^ 4 = 16"
  by simp

lemma and_15: "(x :: int) AND 15 = x mod 16"
  using take_bit_eq_mask [of 4 x] by (simp add: take_bit_eq_mod mask_eq_exp_minus_1 and.commute)

lemma to_hex_uchr:
  "to_hex (drop_bit 4 (schr c)) = hex_char (uchr c div 16)"
  "to_hex (schr c AND 15) = hex_char (uchr c mod 16)"
proof -
  have m: "nat (int (uchr c) div 16 mod 16) = uchr c div 16" "nat (int (uchr c) mod 16) = uchr c mod 16"
    using less_mult_imp_div_less [of "uchr c" 16 16] by (simp_all add: nat_div_distrib nat_mod_distrib)
  have "(x - 256) div 16 mod 16 = x div 16 mod 16" "(x - 256) mod 16 = x mod 16" for x :: int
  proof -
    have x: "x - 256 = x + (- 16) * 16" by simp
    have "(x + (- 16) * 16) div 16 = - 16 + x div 16" by (rule div_mult_self1) simp
    then have "(x - 256) div 16 = x div 16 - 16" unfolding x by simp
    then show "(x - 256) div 16 mod 16 = x div 16 mod 16" by simp
    show "(x - 256) mod 16 = x mod 16" unfolding x by (rule mod_mult_self1)
  qed
  then have "schr c div 16 mod 16 = int (uchr c) div 16 mod 16" "schr c mod 16 = int (uchr c) mod 16"
    by (simp_all only: schr_def if_cancel split: if_split) blast+
  then show "to_hex (drop_bit 4 (schr c)) = hex_char (uchr c div 16)"
    "to_hex (schr c AND 15) = hex_char (uchr c mod 16)"
    unfolding to_hex_def and_15 drop_bit_eq_div mod_mod_trivial power4 by (simp_all only: m)
qed

text \<open>A decoder of the encoding: the reference the encoder is checked against.\<close>

fun url_decode :: "string \<Rightarrow> string" where
  "url_decode [] = []"
| "url_decode (c # s) =
    (if c = CHR ''%'' then
       (case s of
          a # b # r \<Rightarrow> char_of (16 * digit_val a + digit_val b) # url_decode (drop 2 s)
        | _ \<Rightarrow> c # url_decode s)
     else if c = CHR ''+'' then CHR '' '' # url_decode s
     else c # url_decode s)"

definition url_safe :: "char \<Rightarrow> bool" where
  "url_safe c \<longleftrightarrow> is_alnum c \<or> c \<in> set ''-_.~+%''"

lemma alnum_plain: "is_alnum c \<Longrightarrow> c \<noteq> CHR ''%'' \<and> c \<noteq> CHR ''+''"
  by (auto simp: is_alnum_def uchr_def)

lemma url_encode_spec:
  "url_decode (url_encode s n) = take n s \<and> length (url_encode s n) \<le> 3 * n \<and> list_all url_safe (url_encode s n)"
proof (induction s n rule: url_encode.induct)
  case (3 ch s n)
  have hex: "uchr ch div 16 < 16" "uchr ch mod 16 < 16" using uchr_less [of ch] by (simp_all add: less_mult_imp_div_less)
  have dec: "char_of (16 * (uchr ch div 16) + uchr ch mod 16) = ch" by simp
  consider "is_alnum ch \<or> ch = CHR ''-'' \<or> ch = CHR ''_'' \<or> ch = CHR ''.'' \<or> ch = CHR ''~''"
    | "ch = CHR '' ''" "\<not> is_alnum ch"
    | "\<not> (is_alnum ch \<or> ch = CHR ''-'' \<or> ch = CHR ''_'' \<or> ch = CHR ''.'' \<or> ch = CHR ''~'')" "ch \<noteq> CHR '' ''"
    by (auto simp: is_alnum_def uchr_def)
  then show ?case
  proof cases
    case 1
    then have "ch \<noteq> CHR ''%'' \<and> ch \<noteq> CHR ''+''" using alnum_plain by auto
    with 1 3 show ?thesis by (auto simp: url_safe_def)
  next
    case 2
    with 3 show ?thesis by (auto simp: url_safe_def)
  next
    case 3: 3
    with "3.IH"(3) show ?thesis using hex dec by (simp add: to_hex_uchr url_safe_def numeral_2_eq_2)
  qed
qed (auto)

lemma strtol_hex2:
  assumes "a < 16" and "b < 16"
  shows "strtol [hex_char a, hex_char b] 16 = int (16 * a + b)"
  using assms by (simp add: strtol_def Let_def)

lemma str2bin_bin2str:
  "int (2 * length s) < d_l \<Longrightarrow> int (length s) \<le> m \<Longrightarrow> str2bin_loop (bin2str_loop s d_l) m = s"
proof (induction s arbitrary: d_l m)
  case (Cons ch s)
  have hex: "uchr ch div 16 < 16" "uchr ch mod 16 < 16" using uchr_less [of ch] by (simp_all add: less_mult_imp_div_less)
  have "int (uchr ch) AND 255 = int (uchr ch)"
    using take_bit_eq_mask [of 8 "int (uchr ch)"] uchr_less [of ch]
    by (simp add: take_bit_eq_mod mask_eq_exp_minus_1 and.commute)
  moreover have "nat (d_l - 1) = Suc (Suc (nat (d_l - 3)))" using Cons.prems(1) by simp
  ultimately show ?case
    using Cons.prems Cons.IH [of "d_l - 2" "m - 1"] strtol_hex2 [OF hex] by simp
qed simp

lemma bin2str_length:
  "int (2 * length s) < d_l \<Longrightarrow> length (bin2str_loop s d_l) = 2 * length s \<and> bin2str_count s d_l = int (length s)"
proof (induction s arbitrary: d_l)
  case (Cons ch s)
  have "nat (d_l - 1) = Suc (Suc (nat (d_l - 3)))" using Cons.prems(1) by simp
  then show ?case using Cons.prems Cons.IH [of "d_l - 2"] by simp
qed simp

text \<open>The destination is never overrun: with its NUL, what is written fits in \<open>d_l\<close> bytes.\<close>

lemma bin2str_fits: "0 < d_l \<Longrightarrow> int (length (bin2str_loop s d_l)) < d_l"
proof (induction s arbitrary: d_l)
  case (Cons ch s)
  show ?case
  proof (cases "2 < d_l")
    case True
    then show ?thesis using Cons.IH [of "d_l - 2"] by (simp add: min_def)
  next
    case False
    then have "bin2str_loop s (d_l - 2) = []" by (cases s) auto
    with Cons.prems False show ?thesis by (simp add: min_def)
  qed
qed simp

subsection \<open>Facts about trimming\<close>

lemma trim_loop_strips:
  assumes "src = a @ m @ b" and "\<forall>c \<in> set a \<union> set b. is_blank c" and "m \<noteq> []"
    and "\<not> is_blank (hd m)" and "\<not> is_blank (last m)"
  shows "0 \<le> s \<Longrightarrow> s \<le> int (length a) \<Longrightarrow> int (length a + length m) - 1 \<le> e \<Longrightarrow> e < int (length src) \<Longrightarrow>
    trim_loop src s e = (int (length a), int (length a + length m) - 1)"
  using assms
proof (induction src s e rule: trim_loop.induct)
  case (1 src s e)
  have m: "0 < length m" using 1(3-) by simp
  have at_s: "is_blank (src ! nat s) \<longleftrightarrow> s < int (length a)"
  proof (cases "s < int (length a)")
    case True
    then have "src ! nat s = a ! nat s" "nat s < length a" using 1(3-) by (auto simp: nth_append)
    then show ?thesis using True 1(3-) by auto
  next
    case False
    then have "nat s = length a" using 1(3-) by simp
    then have "src ! nat s = hd m" using 1(7,9) m by (simp add: nth_append hd_conv_nth)
    then show ?thesis using False 1(3-) by simp
  qed
  have at_e: "is_blank (src ! nat e) \<longleftrightarrow> int (length a + length m) \<le> e"
  proof (cases "int (length a + length m) \<le> e")
    case True
    then have "src ! nat e = b ! (nat e - length a - length m)" "nat e - length a - length m < length b"
      using 1(3-) by (auto simp: nth_append)
    then show ?thesis using True 1(3-) by auto
  next
    case False
    then have "nat e = length a + (length m - 1)" using 1(3-) m by linarith
    then have "src ! nat e = (m @ b) ! (length m - 1)" using 1(7) by (simp only: nth_append_length_plus)
    then have "src ! nat e = last m" using m by (simp add: nth_append last_conv_nth)
    then show ?thesis using False 1(3-) by simp
  qed
  show ?case
  proof (cases "s < e")
    case True
    then show ?thesis
      using 1 at_s at_e by (subst trim_loop.simps) auto
  next
    case False
    then have "s = int (length a)" "e = int (length a + length m) - 1" using 1(3-) m by linarith+
    then show ?thesis using False by (simp add: trim_loop.simps)
  qed
qed

lemma trim_loop_blank:
  assumes "\<forall>c \<in> set src. is_blank c"
  shows "0 \<le> s \<Longrightarrow> s \<le> e \<Longrightarrow> e < int (length src) \<Longrightarrow> trim_loop src s e = (e, e)"
  using assms
proof (induction src s e rule: trim_loop.induct)
  case (1 src s e)
  show ?case
  proof (cases "s < e")
    case True
    then have "is_blank (src ! nat s)" using 1(3-) by simp
    then show ?thesis using True 1 by (subst trim_loop.simps) simp
  next
    case False
    then show ?thesis using 1(3-) by (subst trim_loop.simps) simp
  qed
qed

subsection \<open>Properties\<close>

text \<open>
  With a separator that is not empty, splitting ends and yields, in order, the parts of the
  text between the leftmost occurrences of the separator, each cut to 511 characters, and then
  what is left after the last separator, whole, unless that is empty.
\<close>

theorem string_split_pieces:
  assumes "sep \<noteq> []"
  shows "\<exists>ps r. src = concat (map (\<lambda>p. p @ sep) ps) @ r \<and> \<not> sublist sep r \<and> (\<forall>p \<in> set ps. \<not> sublist sep p)
    \<and> ems_string_split (\<lambda>_. True) xs (Some src) (Some sep)
        = Some (EMS_OK, xs @ map (\<lambda>p. mk_str (take 511 p)) ps @ (if r = [] then [] else [mk_str r]))"
  using split_loop_spec [OF assms, of src 0] by (auto simp: ems_string_split_def)

theorem string_split_pieces_witness:
  "\<exists>r. ems_string_split (\<lambda>_. True) [] (Some ''a,b'') (Some '','') = Some (EMS_OK, r)"
  using string_split_pieces [of "'',''" "''a,b''" "[]"] by auto

text \<open>
  With the empty separator the loop of \<open>ems_string_split\<close> never ends, whatever the text, the
  list and the allocator do.
\<close>

theorem string_split_empty_separator:
  "ems_string_split alloc xs (Some src) (Some []) = None"
  by (simp add: ems_string_split_def split_loop_empty_sep)

text \<open>
  The URL encoding of the first \<open>n\<close> characters decodes to exactly those characters, fits in
  the \<open>3 * n\<close> characters the code allocates for it, and has only characters allowed in a URL.
\<close>

theorem url_encode_roundtrip:
  "url_decode (url_encode s n) = take n s \<and> length (url_encode s n) \<le> 3 * n \<and> list_all url_safe (url_encode s n)"
  by (rule url_encode_spec)

text \<open>
  Turning bytes into hexadecimal text never writes past the destination, and when the
  destination has room for every digit and the NUL, all bytes are reported as written and
  \<open>ems_str2bin\<close> gives them back.
\<close>

theorem bin2str_roundtrip:
  assumes "0 < d_l"
  shows "int (length (snd (ems_bin2str s (int (length s)) d_l))) < d_l
    \<and> (int (2 * length s) < d_l \<longrightarrow>
        fst (ems_bin2str s (int (length s)) d_l) = int (length s)
        \<and> ems_str2bin (Some (snd (ems_bin2str s (int (length s)) d_l))) (int (length s)) = (int (length s), s))"
  using bin2str_fits [OF assms] bin2str_length [of s d_l] str2bin_bin2str [of s d_l "int (length s)"]
  by (simp add: ems_bin2str_def ems_str2bin_def)

theorem bin2str_roundtrip_witness:
  "ems_str2bin (Some (snd (ems_bin2str ''xy'' 2 5))) 2 = (2, ''xy'')"
  using bin2str_roundtrip [of 5 "''xy''"] by simp

text \<open>
  \<open>ems_trim\<close> removes exactly the blanks (space, tab, line feed, carriage return) before the
  first and after the last character that is none, in place and in the returned text.
\<close>

theorem trim_strips:
  assumes "src = a @ m @ b" and "\<forall>c \<in> set a \<union> set b. is_blank c" and "m \<noteq> []"
    and "\<not> is_blank (hd m)" and "\<not> is_blank (last m)"
  shows "ems_trim True src = (Some m, m)"
proof -
  have "int (length a + length m) - 1 \<le> int (length src) - 1" using assms(1) by simp
  from trim_loop_strips [OF assms, of 0 "int (length src) - 1"] this
  have t: "trim_loop src 0 (int (length src) - 1) = (int (length a), int (length a + length m) - 1)"
    by simp
  have "src ! length a = hd m" using assms(1,3) by (simp add: nth_append hd_conv_nth)
  then have "src ! length a \<noteq> CHR '' ''" using assms(4) by (auto simp: is_blank_def)
  then show ?thesis using t assms(1) by (simp add: ems_trim_def Let_def nat_add_distrib)
qed

theorem trim_strips_witness: "ems_trim True '' a b '' = (Some ''a b'', ''a b'')"
  using trim_strips [of "'' a b ''" "'' ''" "''a b''" "'' ''"] by (simp add: is_blank_def uchr_def)

text \<open>
  Of a text that is all blanks, the last character decides: when it is a space the result is
  the null pointer and the text is emptied, otherwise that blank remains as the trimmed text.
\<close>

theorem trim_all_blank:
  assumes "\<forall>c \<in> set src. is_blank c" and "src \<noteq> []"
  shows "ems_trim True src = (if last src = CHR '' '' then (None, []) else (Some [last src], [last src]))"
proof -
  have t: "trim_loop src 0 (int (length src) - 1) = (int (length src) - 1, int (length src) - 1)"
    using assms(2) by (intro trim_loop_blank [OF assms(1)]) (auto simp: Suc_le_eq)
  have "nat (int (length src) - 1) = length src - 1" "drop (length src - 1) src = [last src]"
    using assms(2) by (simp_all, metis append_butlast_last_id append_eq_conv_conj length_butlast One_nat_def)
  then show ?thesis
    using t assms(2) by (simp add: ems_trim_def Let_def last_conv_nth)
qed

theorem trim_all_blank_witness: "fst (ems_trim True [CHR '' '', CHR 0x0A]) = Some [CHR 0x0A]"
  using trim_all_blank [of "[CHR '' '', CHR 0x0A]"] by (simp add: is_blank_def uchr_def)

end
