(* ===== verification/Ems_Mem.thy ===== *)
theory Ems_Mem
  imports Ems_Prelude
begin

text \<open>
  The slab allocator of \<^verbatim>\<open>c/ems/src/utils/ems_mem.c\<close> (built with \<open>USE_MEM_POOL\<close>).
  A manager holds the list of its size classes, a class the list of its slabs, a slab the address
  of its memory and the map of its used chunks (\<open>True\<close> is \<open>BLOCK_USED\<close>). A slab is referred to by
  its position in the list of its class. Memory obtained from the C library is described by an
  argument of type \<open>mem_env\<close>: whether the allocations of the slab record, of its memory (at which
  address) and of its map succeed, and what \<open>malloc\<close> or \<open>realloc\<close> return for the caller. Calls that
  change memory outside the manager are returned as actions. The growth factor is a \<open>float\<close>; its
  effect on a chunk size is the argument \<open>grow\<close>. Locks are not modelled: every operation holds the
  lock of its class from beginning to end.
\<close>

record mem_slab =
  s_head :: nat
  s_tail :: nat
  s_buf :: nat
  s_super :: "bool list"
  s_cur :: int
  s_left :: int

record mem_class =
  sz_slab :: nat
  sz_chunk :: nat
  perslab :: nat
  slabs :: "mem_slab list"

record mem_mgmt =
  classes :: "mem_class list"
  max_chunk :: int
  min_chunk :: int
  maxcls :: nat

record mem_env =
  e_slab :: bool
  e_buf :: "nat option"
  e_map :: bool
  e_sys :: "nat option"

datatype mem_act = Sys_free nat | Sys_realloc nat int | Memcpy nat nat nat

subsection \<open>The operations\<close>

text \<open>
  \<open>mem_pool_init_class\<close>: the classes built from the chunk size \<open>mc\<close> on, at most \<open>n\<close> of them;
  \<open>ok\<close> says for each whether its allocation succeeds. The result is the status, the classes
  entered and the final value of \<open>max_chunk\<close>. A chunk size of 0 divides by zero: \<open>None\<close>.
\<close>

fun mem_pool_init_class ::
  "(int \<Rightarrow> int) \<Rightarrow> (nat \<Rightarrow> bool) \<Rightarrow> nat \<Rightarrow> int \<Rightarrow> (int \<times> mem_class list \<times> int) option" where
  "mem_pool_init_class grow ok 0 mc = Some (EMS_OK, [], mc)"
| "mem_pool_init_class grow ok (Suc n) mc =
    (if \<not> mc \<le> 2048 then Some (EMS_OK, [], mc)
     else if \<not> ok n then Some (EMS_ERR, [], mc)
     else if mc \<le> 0 then None
     else (let cls = \<lparr>sz_slab = 65536, sz_chunk = nat mc, perslab = 65536 div nat mc, slabs = []\<rparr>
           in map_option (\<lambda>(ret, cs, m). (ret, cls # cs, m)) (mem_pool_init_class grow ok n (grow mc))))"

definition mem_pool_uninit :: "mem_mgmt option \<Rightarrow> int \<times> mem_mgmt option" where
  "mem_pool_uninit gmem = (case gmem of None \<Rightarrow> (EMS_ERR, None) | Some _ \<Rightarrow> (EMS_OK, None))"

definition mem_pool_init :: "bool \<Rightarrow> (int \<Rightarrow> int) \<Rightarrow> (nat \<Rightarrow> bool) \<Rightarrow> (int \<times> mem_mgmt option) option" where
  "mem_pool_init alloc grow ok =
    (if \<not> alloc then Some (EMS_ERR, None)
     else (case mem_pool_init_class grow ok 10 16 of
             None \<Rightarrow> None
           | Some (ret, cs, mc) \<Rightarrow>
               (let m = \<lparr>classes = cs, max_chunk = mc, min_chunk = 16, maxcls = 10\<rparr>
                in if ret \<noteq> EMS_OK then Some (EMS_ERR, snd (mem_pool_uninit (Some m)))
                   else Some (EMS_OK, Some m))))"

fun first_index :: "('a \<Rightarrow> bool) \<Rightarrow> 'a list \<Rightarrow> nat option" where
  "first_index P [] = None"
| "first_index P (x # xs) = (if P x then Some 0 else map_option Suc (first_index P xs))"

definition mem_pool_get_class :: "mem_mgmt \<Rightarrow> int \<Rightarrow> nat option" where
  "mem_pool_get_class mgmt sz = first_index (\<lambda>cls. sz \<le> int (sz_chunk cls)) (classes mgmt)"

text \<open>
  The search for a free chunk goes round the map until it is back where it started. The fuel is
  the number of chunks, one more than the turns the loop can make.
\<close>

fun get_block_loop :: "nat \<Rightarrow> nat \<Rightarrow> bool list \<Rightarrow> nat \<Rightarrow> nat \<Rightarrow> int" where
  "get_block_loop 0 n m tail cur = -1"
| "get_block_loop (Suc f) n m tail cur =
    (if tail = cur then -1
     else if \<not> m ! cur then int cur
     else get_block_loop f n m tail ((cur + 1) mod n))"

definition mem_slab_get_block :: "mem_class \<Rightarrow> mem_slab \<Rightarrow> int" where
  "mem_slab_get_block cls slab =
    (let cur = (if s_cur slab < 0 then 0 else nat (s_cur slab));
         m = s_super slab
     in if \<not> m ! cur then int cur
        else get_block_loop (perslab cls) (perslab cls) m cur ((cur + 1) mod perslab cls))"

definition mem_slab_malloc :: "mem_class \<Rightarrow> mem_slab \<Rightarrow> nat option \<times> mem_slab" where
  "mem_slab_malloc cls slab =
    (if s_left slab \<le> 0 then (None, slab)
     else (let cur = mem_slab_get_block cls slab
           in if cur < 0 then (None, slab)
              else (Some (s_buf slab + nat cur * sz_chunk cls),
                    slab\<lparr>s_super := (s_super slab)[nat cur := True],
                      s_cur := int ((nat cur + 1) mod perslab cls), s_left := s_left slab - 1\<rparr>)))"

definition mem_pool_slab_init :: "mem_env \<Rightarrow> mem_class \<Rightarrow> int \<times> mem_slab option" where
  "mem_pool_slab_init e cls =
    (case e_buf e of
       None \<Rightarrow> (EMS_ERR, None)
     | Some buf \<Rightarrow>
         (if \<not> e_map e then (EMS_ERR, None)
          else (EMS_OK, Some \<lparr>s_head = buf, s_tail = buf + sz_slab cls, s_buf = buf,
                  s_super = replicate (perslab cls + 1) False, s_cur = 0, s_left = int (perslab cls)\<rparr>)))"

definition mem_pool_slab_find :: "mem_class \<Rightarrow> nat option" where
  "mem_pool_slab_find cls = first_index (\<lambda>slab. s_left slab > 0) (slabs cls)"

text \<open>The class is \<open>None\<close> where the code passes the null pointer.\<close>

definition mem_pool_slab_malloc :: "mem_env \<Rightarrow> mem_class option \<Rightarrow> nat option \<times> mem_class option" where
  "mem_pool_slab_malloc e c =
    (case c of
       None \<Rightarrow> (None, None)
     | Some cls \<Rightarrow>
         (case mem_pool_slab_find cls of
            Some i \<Rightarrow>
              (case mem_slab_malloc cls (slabs cls ! i) of
                 (ptr, slab) \<Rightarrow> (ptr, Some (cls\<lparr>slabs := (slabs cls)[i := slab]\<rparr>)))
          | None \<Rightarrow>
              (if \<not> e_slab e then (None, Some cls)
               else (case mem_pool_slab_init e cls of
                       (ret, None) \<Rightarrow> (None, Some cls)
                     | (ret, Some slab) \<Rightarrow>
                         (case mem_slab_malloc cls slab of
                            (ptr, slab') \<Rightarrow> (ptr, Some (cls\<lparr>slabs := slab' # slabs cls\<rparr>)))))))"

text \<open>\<open>mem_pool_slab_free\<close> for the slab at position \<open>i\<close> of its class and a pointer into it.\<close>

definition slab_freed :: "mem_slab \<Rightarrow> nat \<Rightarrow> mem_slab" where
  "slab_freed slab cur =
    (let s = slab\<lparr>s_super := (s_super slab)[cur := False], s_left := s_left slab + 1\<rparr>
     in if s_super s ! nat (s_cur s) then s\<lparr>s_cur := int cur\<rparr> else s)"

definition mem_pool_slab_free :: "mem_class \<Rightarrow> nat \<Rightarrow> nat \<Rightarrow> mem_class" where
  "mem_pool_slab_free cls i ptr =
    (let slab = slabs cls ! i;
         cur = (ptr - s_buf slab) div sz_chunk cls;
         slab1 = (if cur < perslab cls then slab_freed slab cur else slab);
         cls1 = cls\<lparr>slabs := (slabs cls)[i := slab1]\<rparr>
     in if s_left slab1 = int (perslab cls) \<and> \<not> (i = 0 \<and> i = length (slabs cls) - 1)
        then cls1\<lparr>slabs := take i (slabs cls1) @ drop (Suc i) (slabs cls1)\<rparr>
        else cls1)"

fun mem_pool_find_ptr :: "mem_class list \<Rightarrow> nat \<Rightarrow> (nat \<times> nat) option" where
  "mem_pool_find_ptr [] ptr = None"
| "mem_pool_find_ptr (cls # cs) ptr =
    (case first_index (\<lambda>slab. s_head slab \<le> ptr \<and> s_tail slab > ptr) (slabs cls) of
       Some i \<Rightarrow> Some (0, i)
     | None \<Rightarrow> map_option (\<lambda>(c, i). (Suc c, i)) (mem_pool_find_ptr cs ptr))"

definition set_class :: "mem_mgmt \<Rightarrow> nat \<Rightarrow> mem_class \<Rightarrow> mem_mgmt" where
  "set_class mgmt c cls = mgmt\<lparr>classes := (classes mgmt)[c := cls]\<rparr>"

definition mem_malloc :: "mem_env \<Rightarrow> mem_mgmt option \<Rightarrow> int \<Rightarrow> nat option \<times> mem_mgmt option" where
  "mem_malloc e gmem sz =
    (case gmem of
       None \<Rightarrow> (e_sys e, None)
     | Some mgmt \<Rightarrow>
         (if sz > max_chunk mgmt then (e_sys e, Some mgmt)
          else (case mem_pool_get_class mgmt sz of
                  None \<Rightarrow> (e_sys e, Some mgmt)
                | Some c \<Rightarrow>
                    (case mem_pool_slab_malloc e (Some (classes mgmt ! c)) of
                       (Some ptr, Some cls) \<Rightarrow> (Some ptr, Some (set_class mgmt c cls))
                     | (None, Some cls) \<Rightarrow> (e_sys e, Some (set_class mgmt c cls))
                     | (_, None) \<Rightarrow> (e_sys e, Some mgmt)))))"

definition mem_free :: "mem_mgmt option \<Rightarrow> nat \<Rightarrow> mem_mgmt option \<times> mem_act list" where
  "mem_free gmem ptr =
    (case gmem of
       None \<Rightarrow> (None, [Sys_free ptr])
     | Some mgmt \<Rightarrow>
         (case mem_pool_find_ptr (classes mgmt) ptr of
            Some (c, i) \<Rightarrow> (Some (set_class mgmt c (mem_pool_slab_free (classes mgmt ! c) i ptr)), [])
          | None \<Rightarrow> (Some mgmt, [Sys_free ptr])))"

text \<open>
  \<open>mem_realloc\<close>: the slab is found before the new block is taken, and freed after; the new block
  can only come from a class of larger chunks, so its position stays valid.
\<close>

definition mem_realloc ::
  "mem_env \<Rightarrow> mem_mgmt option \<Rightarrow> nat \<Rightarrow> int \<Rightarrow> nat option \<times> mem_mgmt option \<times> mem_act list" where
  "mem_realloc e gmem ptr sz =
    (case gmem of
       None \<Rightarrow> (e_sys e, None, [Sys_realloc ptr sz])
     | Some mgmt \<Rightarrow>
         (case mem_pool_find_ptr (classes mgmt) ptr of
            None \<Rightarrow> (e_sys e, Some mgmt, [Sys_realloc ptr sz])
          | Some (c, i) \<Rightarrow>
              (if int (sz_chunk (classes mgmt ! c)) \<ge> sz then (Some ptr, Some mgmt, [])
               else (case mem_malloc e (Some mgmt) sz of
                       (Some new, Some m) \<Rightarrow>
                         (Some new, Some (set_class m c (mem_pool_slab_free (classes m ! c) i ptr)),
                          [Memcpy new ptr (sz_chunk (classes mgmt ! c))])
                     | (_, m) \<Rightarrow> (None, m, [])))))"

subsection \<open>Searching\<close>

lemma first_index_Some:
  "first_index P xs = Some i \<Longrightarrow> \<exists>as x bs. xs = as @ x # bs \<and> length as = i \<and> P x"
proof (induction xs arbitrary: i)
  case (Cons x xs)
  show ?case
  proof (cases "P x")
    case True
    with Cons.prems have "x # xs = [] @ x # xs \<and> length [] = i \<and> P x" by simp
    then show ?thesis by blast
  next
    case False
    with Cons.prems obtain j where "first_index P xs = Some j" "i = Suc j" by auto
    with Cons.IH obtain as y bs where "xs = as @ y # bs" "length as = j" "P y" by blast
    then have "x # xs = (x # as) @ y # bs \<and> length (x # as) = i \<and> P y" using \<open>i = Suc j\<close> by simp
    then show ?thesis by blast
  qed
qed simp

lemma first_index_None: "first_index P xs = None \<longleftrightarrow> (\<forall>x \<in> set xs. \<not> P x)"
  by (induction xs) auto

text \<open>
  The circular search: started one place after \<open>tail\<close> it finds a free chunk, or has seen that
  all others are used; it never runs out of fuel.
\<close>

lemma get_block_loop_spec:
  assumes "tail < n"
  shows "1 \<le> j \<Longrightarrow> j \<le> n \<Longrightarrow> n - j < f \<Longrightarrow>
    (\<exists>k < n. get_block_loop f n m tail ((tail + j) mod n) = int k \<and> \<not> m ! k)
    \<or> (get_block_loop f n m tail ((tail + j) mod n) = -1 \<and> (\<forall>i. j \<le> i \<longrightarrow> i < n \<longrightarrow> m ! ((tail + i) mod n)))"
proof (induction f arbitrary: j)
  case (Suc f)
  let ?cur = "(tail + j) mod n"
  show ?case
  proof (cases "j = n")
    case True
    then show ?thesis using assms by simp
  next
    case False
    then have j: "j < n" using Suc.prems by simp
    have ne: "tail \<noteq> ?cur"
    proof (cases "tail + j < n")
      case True
      then show ?thesis using Suc.prems by simp
    next
      case False
      then have "?cur = tail + j - n" using assms j by (simp add: mod_if)
      then show ?thesis using False j assms by simp
    qed
    have nxt: "(?cur + 1) mod n = (tail + Suc j) mod n" by (simp add: mod_simps)
    show ?thesis
    proof (cases "m ! ?cur")
      case False
      have "?cur < n" using assms by simp
      then show ?thesis using False ne by auto
    next
      case True
      have "n - Suc j < f" "Suc j \<le> n" using Suc.prems j by simp_all
      from Suc.IH [OF _ this(2,1)] have
        "(\<exists>k < n. get_block_loop f n m tail ((tail + Suc j) mod n) = int k \<and> \<not> m ! k)
        \<or> (get_block_loop f n m tail ((tail + Suc j) mod n) = -1
          \<and> (\<forall>i. Suc j \<le> i \<longrightarrow> i < n \<longrightarrow> m ! ((tail + i) mod n)))" by simp
      moreover have "\<forall>i. j \<le> i \<longrightarrow> i < n \<longrightarrow> m ! ((tail + i) mod n)"
        if "\<forall>i. Suc j \<le> i \<longrightarrow> i < n \<longrightarrow> m ! ((tail + i) mod n)"
        using that True by (metis le_neq_implies_less Suc_leI)
      moreover have "get_block_loop (Suc f) n m tail ?cur = get_block_loop f n m tail ((tail + Suc j) mod n)"
        using True ne by (simp only: get_block_loop.simps nxt if_False simp_thms if_True)
      ultimately show ?thesis by metis
    qed
  qed
qed simp

subsection \<open>The invariant\<close>

definition free_chunks :: "mem_class \<Rightarrow> mem_slab \<Rightarrow> nat" where
  "free_chunks cls slab = length (filter Not (take (perslab cls) (s_super slab)))"

definition slab_ok :: "mem_class \<Rightarrow> mem_slab \<Rightarrow> bool" where
  "slab_ok cls slab \<longleftrightarrow> 0 < perslab cls \<and> 0 < sz_chunk cls \<and> perslab cls * sz_chunk cls \<le> sz_slab cls
    \<and> s_head slab = s_buf slab \<and> s_tail slab = s_buf slab + sz_slab cls
    \<and> length (s_super slab) = perslab cls + 1 \<and> 0 \<le> s_cur slab \<and> s_cur slab < int (perslab cls)
    \<and> s_left slab = int (free_chunks cls slab)"

text \<open>The chunks in use, with their size.\<close>

definition slab_live :: "mem_class \<Rightarrow> mem_slab \<Rightarrow> (nat \<times> nat) set" where
  "slab_live cls slab =
    (\<lambda>k. (s_buf slab + k * sz_chunk cls, sz_chunk cls)) ` {k. k < perslab cls \<and> s_super slab ! k}"

lemma filter_Not_update:
  "k < length xs \<Longrightarrow> \<not> xs ! k \<Longrightarrow> Suc (length (filter Not (xs[k := True]))) = length (filter Not xs)"
  by (induction xs arbitrary: k) (auto split: nat.split simp: nth_Cons')

lemma filter_Not_update':
  "k < length xs \<Longrightarrow> xs ! k \<Longrightarrow> length (filter Not (xs[k := False])) = Suc (length (filter Not xs))"
  by (induction xs arbitrary: k) (auto split: nat.split simp: nth_Cons')

lemma filter_Not_pos: "0 < length (filter Not xs) \<longleftrightarrow> (\<exists>k < length xs. \<not> xs ! k)"
proof -
  have "0 < length (filter Not xs) \<longleftrightarrow> (\<exists>x \<in> set xs. \<not> x)"
    by (induction xs) auto
  also have "\<dots> \<longleftrightarrow> (\<exists>k < length xs. \<not> xs ! k)" by (metis in_set_conv_nth)
  finally show ?thesis .
qed

lemma get_block_spec:
  assumes "slab_ok cls slab" and "0 < s_left slab"
  obtains k where "mem_slab_get_block cls slab = int k" and "k < perslab cls" and "\<not> s_super slab ! k"
proof -
  let ?n = "perslab cls" and ?m = "s_super slab" and ?t = "nat (s_cur slab)"
  have t: "?t < ?n" "\<not> s_cur slab < 0" "0 < ?n" using assms(1) by (auto simp: slab_ok_def)
  obtain k where k: "k < ?n" "\<not> ?m ! k"
    using assms filter_Not_pos [of "take ?n ?m"] by (auto simp: slab_ok_def free_chunks_def)
  have g: "mem_slab_get_block cls slab =
      (if \<not> ?m ! ?t then int ?t else get_block_loop ?n ?n ?m ?t ((?t + 1) mod ?n))"
    using t by (simp add: mem_slab_get_block_def Let_def)
  show thesis
  proof (cases "?m ! ?t")
    case False
    with g have "mem_slab_get_block cls slab = int ?t" by simp
    then show ?thesis using t(1) False by (rule that)
  next
    case True
    define i where "i = (k + ?n - ?t) mod ?n"
    have "(?t + i) mod ?n = (?t + (k + ?n - ?t)) mod ?n" by (simp add: i_def mod_simps)
    also have "\<dots> = k" using t k by simp
    finally have ik: "(?t + i) mod ?n = k" .
    then have "1 \<le> i" using True k t by (cases i) auto
    moreover have "i < ?n" using t by (simp add: i_def)
    ultimately have "\<not> (\<forall>i. 1 \<le> i \<longrightarrow> i < ?n \<longrightarrow> ?m ! ((?t + i) mod ?n))" using ik k by blast
    with get_block_loop_spec [OF t(1), of 1 ?n ?m] t(3) g True that show ?thesis by fastforce
  qed
qed

lemma slab_malloc_ok:
  assumes "slab_ok cls slab" and "0 < s_left slab"
  obtains p slab' where "mem_slab_malloc cls slab = (Some p, slab')" and "slab_ok cls slab'"
    and "slab_live cls slab' = insert (p, sz_chunk cls) (slab_live cls slab)"
    and "(p, sz_chunk cls) \<notin> slab_live cls slab"
    and "s_head slab' = s_head slab" and "s_tail slab' = s_tail slab"
proof -
  obtain k where k: "mem_slab_get_block cls slab = int k" "k < perslab cls" "\<not> s_super slab ! k"
    using get_block_spec [OF assms] .
  define slab' where "slab' = slab\<lparr>s_super := (s_super slab)[k := True],
    s_cur := int ((k + 1) mod perslab cls), s_left := s_left slab - 1\<rparr>"
  have "Suc (free_chunks cls slab') = free_chunks cls slab"
    using k assms filter_Not_update [of k "take (perslab cls) (s_super slab)"]
    by (simp add: free_chunks_def slab'_def take_update_swap slab_ok_def)
  then have ok: "slab_ok cls slab'"
    using assms k by (auto simp: slab_ok_def slab'_def)
  have len: "k < length (s_super slab)" "0 < sz_chunk cls" using assms k by (auto simp: slab_ok_def)
  have "{i. i < perslab cls \<and> s_super slab' ! i} = insert k {i. i < perslab cls \<and> s_super slab ! i}"
    using k len by (auto simp: slab'_def nth_list_update)
  then have live: "slab_live cls slab' = insert (s_buf slab + k * sz_chunk cls, sz_chunk cls) (slab_live cls slab)"
    by (simp add: slab_live_def slab'_def)
  have "(s_buf slab + k * sz_chunk cls, sz_chunk cls) \<notin> slab_live cls slab"
    using k len by (auto simp: slab_live_def)
  moreover have "mem_slab_malloc cls slab = (Some (s_buf slab + k * sz_chunk cls), slab')"
    using assms(2) k by (simp add: mem_slab_malloc_def Let_def slab'_def)
  ultimately show thesis using that ok live by (auto simp: slab'_def)
qed

lemma slab_live_in:
  assumes "slab_ok cls slab" and "(p, c) \<in> slab_live cls slab"
  shows "s_head slab \<le> p" and "p + c \<le> s_tail slab" and "0 < c" and "c = sz_chunk cls"
proof -
  obtain k where k: "k < perslab cls" "p = s_buf slab + k * sz_chunk cls" "c = sz_chunk cls"
    using assms(2) by (auto simp: slab_live_def)
  have "Suc k * sz_chunk cls \<le> perslab cls * sz_chunk cls" using k(1) by (intro mult_right_mono) auto
  then show "s_head slab \<le> p" "p + c \<le> s_tail slab" "0 < c" "c = sz_chunk cls"
    using assms(1) k by (auto simp: slab_ok_def)
qed

lemma slab_freed_ok:
  assumes "slab_ok cls slab" and "(p, c) \<in> slab_live cls slab"
  defines "slab' \<equiv> slab_freed slab ((p - s_buf slab) div sz_chunk cls)"
  shows "(p - s_buf slab) div sz_chunk cls < perslab cls" and "slab_ok cls slab'"
    and "slab_live cls slab' = slab_live cls slab - {(p, c)}"
    and "s_head slab' = s_head slab" and "s_tail slab' = s_tail slab"
proof -
  have pos: "0 < sz_chunk cls" using assms(1) by (simp add: slab_ok_def)
  obtain k where k: "k < perslab cls" "p = s_buf slab + k * sz_chunk cls" "c = sz_chunk cls" "s_super slab ! k"
    using assms(2) by (auto simp: slab_live_def)
  have cur: "(p - s_buf slab) div sz_chunk cls = k" using k pos by simp
  then show "(p - s_buf slab) div sz_chunk cls < perslab cls" using k by simp
  have eqs: "s_super slab' = (s_super slab)[k := False]" "s_left slab' = s_left slab + 1"
    "s_buf slab' = s_buf slab" "s_head slab' = s_head slab" "s_tail slab' = s_tail slab"
    "s_cur slab' = s_cur slab \<or> s_cur slab' = int k"
    by (simp_all add: slab'_def slab_freed_def Let_def cur)
  have len: "k < length (s_super slab)" using assms(1) k by (simp add: slab_ok_def)
  have "free_chunks cls slab' = Suc (free_chunks cls slab)"
    using k assms(1) filter_Not_update' [of k "take (perslab cls) (s_super slab)"]
    by (simp add: free_chunks_def eqs take_update_swap slab_ok_def)
  then show "slab_ok cls slab'"
    using assms(1) k eqs by (auto simp: slab_ok_def)
  have "{i. i < perslab cls \<and> s_super slab' ! i} = {i. i < perslab cls \<and> s_super slab ! i} - {k}"
    using len by (auto simp: eqs nth_list_update)
  moreover have "inj (\<lambda>i. (s_buf slab + i * sz_chunk cls, sz_chunk cls))"
    using pos by (auto simp: inj_on_def)
  ultimately show "slab_live cls slab' = slab_live cls slab - {(p, c)}"
    using k by (simp add: slab_live_def eqs image_set_diff)
  show "s_head slab' = s_head slab" "s_tail slab' = s_tail slab" using eqs by auto
qed

lemma no_live:
  assumes "slab_ok cls slab" and "s_left slab = int (perslab cls)"
  shows "slab_live cls slab = {}"
proof -
  have "length (filter Not (take (perslab cls) (s_super slab))) = length (take (perslab cls) (s_super slab))"
    using assms by (simp add: slab_ok_def free_chunks_def)
  then have "filter Not (take (perslab cls) (s_super slab)) = take (perslab cls) (s_super slab)"
    using length_filter_less [of _ "take (perslab cls) (s_super slab)" Not] filter_id_conv
    by (metis less_irrefl)
  then have "\<forall>x \<in> set (take (perslab cls) (s_super slab)). \<not> x" by (simp add: filter_id_conv)
  then have "\<not> s_super slab ! k" if "k < perslab cls" for k
    using that assms(1) by (auto simp: slab_ok_def in_set_conv_nth)
  then show ?thesis by (auto simp: slab_live_def)
qed

subsection \<open>The manager\<close>

text \<open>No two slabs share memory; the classes are ordered by the size of their chunks.\<close>

definition apart :: "mem_slab \<Rightarrow> mem_slab \<Rightarrow> bool" where
  "apart s t \<longleftrightarrow> s_tail s \<le> s_head t \<or> s_tail t \<le> s_head s"

definition all_slabs :: "mem_class list \<Rightarrow> mem_slab list" where
  "all_slabs cs = concat (map slabs cs)"

definition classes_ok :: "mem_class list \<Rightarrow> bool" where
  "classes_ok cs \<longleftrightarrow> (\<forall>cls \<in> set cs. \<forall>slab \<in> set (slabs cls). slab_ok cls slab)
    \<and> (\<forall>cls \<in> set cs. 0 < perslab cls \<and> 0 < sz_chunk cls \<and> perslab cls * sz_chunk cls \<le> sz_slab cls)
    \<and> sorted_wrt apart (all_slabs cs) \<and> sorted_wrt (\<lambda>c d. sz_chunk c < sz_chunk d) cs"

definition class_live :: "mem_class \<Rightarrow> (nat \<times> nat) set" where
  "class_live cls = (\<Union>slab \<in> set (slabs cls). slab_live cls slab)"

definition live :: "mem_class list \<Rightarrow> (nat \<times> nat) set" where
  "live cs = (\<Union>cls \<in> set cs. class_live cls)"

lemma apart_sym: "apart s t = apart t s"
  by (auto simp: apart_def)

lemma all_slabs_append [simp]: "all_slabs (cs @ ds) = all_slabs cs @ all_slabs ds"
  and all_slabs_Cons [simp]: "all_slabs (c # cs) = slabs c @ all_slabs cs"
  and all_slabs_Nil [simp]: "all_slabs [] = []"
  by (simp_all add: all_slabs_def)

lemma live_append [simp]: "live (cs @ ds) = live cs \<union> live ds"
  and live_Cons [simp]: "live (c # cs) = class_live c \<union> live cs"
  by (auto simp: live_def)

lemma set_all_slabs: "set (all_slabs cs) = (\<Union>cls \<in> set cs. set (slabs cls))"
  by (simp add: all_slabs_def)

text \<open>A live chunk lies in a slab.\<close>

lemma live_slab:
  assumes "(p, c) \<in> live cs"
  obtains cs1 cls cs2 as slab bs where "cs = cs1 @ cls # cs2" and "slabs cls = as @ slab # bs"
    and "(p, c) \<in> slab_live cls slab"
proof -
  obtain cls where cls: "cls \<in> set cs" "(p, c) \<in> class_live cls" using assms by (auto simp: live_def)
  then obtain slab where slab: "slab \<in> set (slabs cls)" "(p, c) \<in> slab_live cls slab" by (auto simp: class_live_def)
  obtain cs1 cs2 where "cs = cs1 @ cls # cs2" using split_list [OF cls(1)] by blast
  moreover obtain as bs where "slabs cls = as @ slab # bs" using split_list [OF slab(1)] by blast
  ultimately show thesis using slab(2) that by blast
qed

lemma slabs_upd [simp]:
  "slab_ok (cls\<lparr>slabs := x\<rparr>) s = slab_ok cls s" "slab_live (cls\<lparr>slabs := x\<rparr>) s = slab_live cls s"
  by (simp_all add: slab_ok_def slab_live_def free_chunks_def)

lemma slabs_upd_malloc [simp]: "mem_slab_malloc (cls\<lparr>slabs := x\<rparr>) s = mem_slab_malloc cls s"
  by (simp add: mem_slab_malloc_def mem_slab_get_block_def Let_def)

text \<open>The chunks in use outside one slab.\<close>

definition rest_live :: "mem_class list \<Rightarrow> mem_class \<Rightarrow> mem_class list \<Rightarrow> mem_slab list \<Rightarrow> (nat \<times> nat) set" where
  "rest_live cs1 cls cs2 ss = live cs1 \<union> live cs2 \<union> (\<Union>s \<in> set ss. slab_live cls s)"

lemma live_split:
  "slabs cls = as @ slab # bs \<Longrightarrow> live (cs1 @ cls # cs2) = slab_live cls slab \<union> rest_live cs1 cls cs2 (as @ bs)"
  by (auto simp: rest_live_def class_live_def)

lemma live_slabs_upd:
  "live (cs1 @ cls\<lparr>slabs := as @ mid @ bs\<rparr> # cs2)
    = (\<Union>s \<in> set mid. slab_live cls s) \<union> rest_live cs1 cls cs2 (as @ bs)"
  by (auto simp: rest_live_def class_live_def)

lemma live_in_slab:
  assumes "classes_ok cs" and "(p, c) \<in> live cs"
  obtains t where "t \<in> set (all_slabs cs)" and "s_head t \<le> p" and "p + c \<le> s_tail t" and "0 < c"
proof -
  obtain cs1 cls cs2 as slab bs where d: "cs = cs1 @ cls # cs2" "slabs cls = as @ slab # bs"
    "(p, c) \<in> slab_live cls slab" using live_slab [OF assms(2)] by metis
  then have "slab_ok cls slab" using assms(1) by (auto simp: classes_ok_def)
  then show thesis using slab_live_in [OF _ d(3)] d that [of slab] by auto
qed

lemma rest_apart:
  assumes "classes_ok (cs1 @ cls # cs2)" and "slabs cls = as @ slab # bs"
    and "(q, d) \<in> rest_live cs1 cls cs2 (as @ bs)"
  shows "0 < d \<and> (q + d \<le> s_head slab \<or> s_tail slab \<le> q)"
proof -
  have ex: "\<exists>t. t \<in> set (all_slabs cs1 @ as @ bs @ all_slabs cs2) \<and> s_head t \<le> q \<and> q + d \<le> s_tail t \<and> 0 < d"
  proof -
    consider "(q, d) \<in> live cs1" | "(q, d) \<in> live cs2" | t where "t \<in> set (as @ bs)" "(q, d) \<in> slab_live cls t"
      using assms(3) by (auto simp: rest_live_def)
    then show ?thesis
    proof cases
      case 1
      have "classes_ok cs1" using assms(1) by (auto simp: classes_ok_def sorted_wrt_append)
      from live_in_slab [OF this 1] show ?thesis by (metis Un_iff set_append)
    next
      case 2
      have "classes_ok cs2" using assms(1) by (auto simp: classes_ok_def sorted_wrt_append)
      from live_in_slab [OF this 2] show ?thesis by (metis Un_iff set_append)
    next
      case 3
      then have "slab_ok cls t" using assms(1,2) by (auto simp: classes_ok_def)
      from slab_live_in [OF this 3(2)] 3(1) show ?thesis by auto
    qed
  qed
  then obtain t where t: "t \<in> set (all_slabs cs1 @ as @ bs @ all_slabs cs2)"
    "s_head t \<le> q" "q + d \<le> s_tail t" "0 < d" by blast
  have "apart t slab"
    using assms(1,2) t(1) by (auto simp: classes_ok_def sorted_wrt_append apart_sym)
  with t show ?thesis by (auto simp: apart_def)
qed

lemma classes_ok_upd:
  assumes "classes_ok (cs1 @ cls # cs2)" and "slabs cls = as @ slab # bs"
    and "mid = [] \<or> (\<exists>s. mid = [s] \<and> slab_ok cls s \<and> s_head s = s_head slab \<and> s_tail s = s_tail slab)"
  shows "classes_ok (cs1 @ cls\<lparr>slabs := as @ mid @ bs\<rparr> # cs2)"
proof -
  have a: "sorted_wrt apart (all_slabs cs1 @ (as @ slab # bs) @ all_slabs cs2)"
    using assms(1,2) by (simp add: classes_ok_def)
  have "sorted_wrt apart (all_slabs cs1 @ (as @ mid @ bs) @ all_slabs cs2)"
    using assms(3)
  proof (elim disjE exE conjE)
    assume "mid = []"
    then show ?thesis using a by (simp add: sorted_wrt_append)
  next
    fix s
    assume s: "mid = [s]" "s_head s = s_head slab" "s_tail s = s_tail slab"
    then have "apart s = apart slab" "\<And>t. apart t s = apart t slab" by (auto simp: apart_def fun_eq_iff)
    then show ?thesis using a s(1) by (simp add: sorted_wrt_append)
  qed
  moreover have "sorted_wrt (\<lambda>c d. sz_chunk c < sz_chunk d) (cs1 @ cls\<lparr>slabs := as @ mid @ bs\<rparr> # cs2)"
    using assms(1) by (simp add: classes_ok_def sorted_wrt_append)
  ultimately show ?thesis
    using assms by (auto simp: classes_ok_def)
qed

lemma first_index_at: "\<forall>x \<in> set as. \<not> P x \<Longrightarrow> P x \<Longrightarrow> first_index P (as @ x # bs) = Some (length as)"
  by (induction as) auto

lemma find_ptr_at:
  assumes "classes_ok (cs1 @ cls # cs2)" and "slabs cls = as @ slab # bs"
    and "s_head slab \<le> p" and "p < s_tail slab"
  shows "mem_pool_find_ptr (cs1 @ cls # cs2) p = Some (length cs1, length as)"
  using assms
proof (induction cs1)
  case Nil
  have "\<forall>t \<in> set as. \<not> (s_head t \<le> p \<and> s_tail t > p)"
    using Nil by (fastforce simp: classes_ok_def sorted_wrt_append apart_def)
  then show ?case using Nil by (simp add: first_index_at)
next
  case (Cons c cs1)
  have "\<forall>t \<in> set (slabs c). apart t slab"
    using Cons.prems by (auto simp: classes_ok_def sorted_wrt_append)
  then have "\<forall>t \<in> set (slabs c). \<not> (s_head t \<le> p \<and> s_tail t > p)"
    using Cons.prems(3,4) by (fastforce simp: apart_def)
  then have "first_index (\<lambda>t. s_head t \<le> p \<and> s_tail t > p) (slabs c) = None"
    by (simp add: first_index_None)
  moreover have "classes_ok (cs1 @ cls # cs2)"
    using Cons.prems(1) by (auto simp: classes_ok_def sorted_wrt_append)
  ultimately show ?case using Cons by simp
qed

lemma set_class_at:
  "classes m = cs1 @ cls # cs2 \<Longrightarrow> classes (set_class m (length cs1) cls') = cs1 @ cls' # cs2"
  by (simp add: set_class_def)

subsection \<open>Freeing\<close>

lemma slab_free_at:
  assumes "slab_ok cls slab" and "slabs cls = as @ slab # bs" and "(p, c) \<in> slab_live cls slab"
  obtains mid where "mem_pool_slab_free cls (length as) p = cls\<lparr>slabs := as @ mid @ bs\<rparr>"
    and "mid = [] \<or> (\<exists>s. mid = [s] \<and> slab_ok cls s \<and> s_head s = s_head slab \<and> s_tail s = s_tail slab)"
    and "(\<Union>s \<in> set mid. slab_live cls s) = slab_live cls slab - {(p, c)}"
proof -
  let ?cur = "(p - s_buf slab) div sz_chunk cls"
  let ?s = "slab_freed slab ?cur"
  note f = slab_freed_ok [OF assms(1,3)]
  have "mem_pool_slab_free cls (length as) p =
    (if s_left ?s = int (perslab cls) \<and> \<not> (length as = 0 \<and> length as = length (slabs cls) - 1)
     then cls\<lparr>slabs := as @ [] @ bs\<rparr> else cls\<lparr>slabs := as @ [?s] @ bs\<rparr>)"
    using f(1) by (auto simp: mem_pool_slab_free_def Let_def assms(2))
  moreover have "slab_live cls slab - {(p, c)} = {}" if "s_left ?s = int (perslab cls)"
    using no_live [OF f(2) that] f(3) by simp
  ultimately show thesis
    using f(2-5) that [of "[]"] that [of "[?s]"] by (auto split: if_splits)
qed

lemma live_unique:
  assumes "classes_ok (cs1 @ cls # cs2)" and "slabs cls = as @ slab # bs"
    and "s_head slab \<le> p" and "p < s_tail slab"
  shows "(p, d) \<notin> rest_live cs1 cls cs2 (as @ bs)"
  using rest_apart [OF assms(1,2)] assms(3,4) by fastforce

lemma mem_free_ok:
  assumes "classes_ok (classes m)" and "(p, c) \<in> live (classes m)"
  obtains m' where "mem_free (Some m) p = (Some m', [])" and "classes_ok (classes m')"
    and "live (classes m') = live (classes m) - {(p, c)}"
proof -
  obtain cs1 cls cs2 as slab bs where d: "classes m = cs1 @ cls # cs2" "slabs cls = as @ slab # bs"
    "(p, c) \<in> slab_live cls slab" using live_slab [OF assms(2)] by metis
  have ok: "classes_ok (cs1 @ cls # cs2)" "slab_ok cls slab"
    using assms(1) d by (auto simp: classes_ok_def)
  from slab_live_in [OF ok(2) d(3)] have p: "s_head slab \<le> p" "p < s_tail slab" by auto
  obtain mid where mid: "mem_pool_slab_free cls (length as) p = cls\<lparr>slabs := as @ mid @ bs\<rparr>"
    "mid = [] \<or> (\<exists>s. mid = [s] \<and> slab_ok cls s \<and> s_head s = s_head slab \<and> s_tail s = s_tail slab)"
    "(\<Union>s \<in> set mid. slab_live cls s) = slab_live cls slab - {(p, c)}"
    using slab_free_at [OF ok(2) d(2,3)] .
  let ?m = "set_class m (length cs1) (cls\<lparr>slabs := as @ mid @ bs\<rparr>)"
  have cl: "classes ?m = cs1 @ cls\<lparr>slabs := as @ mid @ bs\<rparr> # cs2" using d(1) by (rule set_class_at)
  have "mem_free (Some m) p = (Some ?m, [])"
    using find_ptr_at [OF ok(1) d(2) p] mid(1) d(1) by (simp add: mem_free_def)
  moreover have "classes_ok (classes ?m)" unfolding cl by (rule classes_ok_upd [OF ok(1) d(2) mid(2)])
  moreover have "live (classes ?m) = live (classes m) - {(p, c)}"
    using live_unique [OF ok(1) d(2) p, of c] unfolding cl d(1) live_slabs_upd live_split [OF d(2)] mid(3) by blast
  ultimately show thesis by (rule that)
qed

subsection \<open>Allocating\<close>

text \<open>
  What the allocator may assume of the C library: new slab memory does not overlap the slabs it has.
\<close>

definition env_ok :: "mem_env \<Rightarrow> mem_class list \<Rightarrow> bool" where
  "env_ok e cs \<longleftrightarrow> (\<forall>b cls t. e_buf e = Some b \<longrightarrow> cls \<in> set cs \<longrightarrow> t \<in> set (all_slabs cs) \<longrightarrow>
    b + sz_slab cls \<le> s_head t \<or> s_tail t \<le> b)"

definition served :: "mem_class list \<Rightarrow> mem_class list \<Rightarrow> nat \<Rightarrow> nat \<Rightarrow> bool" where
  "served cs cs' p c \<longleftrightarrow> live cs' = insert (p, c) (live cs) \<and> (p, c) \<notin> live cs
    \<and> (\<forall>(q, d) \<in> live cs. q \<noteq> p \<longrightarrow> p + c \<le> q \<or> q + d \<le> p)"

lemma slab_live_disjoint:
  assumes "slab_ok cls slab" and "(p, c) \<in> slab_live cls slab" and "(q, d) \<in> slab_live cls slab" and "p \<noteq> q"
  shows "p + c \<le> q \<or> q + d \<le> p"
proof -
  obtain i j where i: "p = s_buf slab + i * sz_chunk cls" "c = sz_chunk cls" and j: "q = s_buf slab + j * sz_chunk cls" "d = sz_chunk cls"
    using assms(2,3) by (auto simp: slab_live_def)
  from assms(4) i j have "i < j \<or> j < i" by (metis linorder_neqE_nat)
  then have "Suc i * sz_chunk cls \<le> j * sz_chunk cls \<or> Suc j * sz_chunk cls \<le> i * sz_chunk cls"
    by (metis Suc_leI mult_le_mono1)
  with i j show ?thesis by auto
qed

lemma slab_alloc_at:
  assumes "classes_ok (cs1 @ cls # cs2)" and "slabs cls = as @ slab # bs" and "0 < s_left slab"
  obtains p slab' where "mem_slab_malloc cls slab = (Some p, slab')"
    and "classes_ok (cs1 @ cls\<lparr>slabs := as @ slab' # bs\<rparr> # cs2)"
    and "served (cs1 @ cls # cs2) (cs1 @ cls\<lparr>slabs := as @ slab' # bs\<rparr> # cs2) p (sz_chunk cls)"
proof -
  have ok: "slab_ok cls slab" using assms(1,2) by (auto simp: classes_ok_def)
  obtain p slab' where a: "mem_slab_malloc cls slab = (Some p, slab')" "slab_ok cls slab'"
    "slab_live cls slab' = insert (p, sz_chunk cls) (slab_live cls slab)"
    "(p, sz_chunk cls) \<notin> slab_live cls slab" "s_head slab' = s_head slab" "s_tail slab' = s_tail slab"
    using slab_malloc_ok [OF ok assms(3)] .
  let ?cs = "cs1 @ cls # cs2" and ?cs' = "cs1 @ cls\<lparr>slabs := as @ [slab'] @ bs\<rparr> # cs2"
  have ok': "classes_ok ?cs'" using a by (intro classes_ok_upd [OF assms(1,2)]) auto
  have pin: "(p, sz_chunk cls) \<in> slab_live cls slab'" using a(3) by simp
  from slab_live_in [OF a(2) pin] a(5,6)
  have p: "s_head slab \<le> p" "p < s_tail slab" "p + sz_chunk cls \<le> s_tail slab" by auto
  have l: "live ?cs = slab_live cls slab \<union> rest_live cs1 cls cs2 (as @ bs)"
    "live ?cs' = slab_live cls slab' \<union> rest_live cs1 cls cs2 (as @ bs)"
    using live_split [OF assms(2)] live_slabs_upd [where mid = "[slab']"] by simp_all
  have sep: "p + sz_chunk cls \<le> q \<or> q + d \<le> p" if "(q, d) \<in> live ?cs" "q \<noteq> p" for q d
  proof (cases "(q, d) \<in> slab_live cls slab")
    case True
    then show ?thesis using slab_live_disjoint [OF a(2) pin, of q d] a(3) that(2) by auto
  next
    case False
    then show ?thesis using that(1) l(1) rest_apart [OF assms(1,2), of q d] p by auto
  qed
  have "live ?cs' = insert (p, sz_chunk cls) (live ?cs)" "(p, sz_chunk cls) \<notin> live ?cs"
    using live_unique [OF assms(1,2) p(1,2)] a(4) unfolding l a(3) by blast+
  then have "served ?cs ?cs' p (sz_chunk cls)"
    unfolding served_def using sep by blast
  with a(1) ok' that show thesis by simp
qed

text \<open>A new slab at the head of a class is a slab like the others.\<close>

lemma new_slab_ok:
  assumes "classes_ok (cs1 @ cls # cs2)" and "env_ok e (cs1 @ cls # cs2)"
    and "mem_pool_slab_init e cls = (r, Some slab)"
  shows "classes_ok (cs1 @ cls\<lparr>slabs := slab # slabs cls\<rparr> # cs2)"
    and "live (cs1 @ cls\<lparr>slabs := slab # slabs cls\<rparr> # cs2) = live (cs1 @ cls # cs2)"
    and "0 < s_left slab"
proof -
  let ?c = "cls\<lparr>slabs := slab # slabs cls\<rparr>"
  obtain b where b: "e_buf e = Some b" and slab: "slab = \<lparr>s_head = b, s_tail = b + sz_slab cls, s_buf = b,
      s_super = replicate (perslab cls + 1) False, s_cur = 0, s_left = int (perslab cls)\<rparr>"
    using assms(3) by (auto simp: mem_pool_slab_init_def split: option.splits if_splits)
  have "free_chunks cls slab = perslab cls"
    by (simp add: free_chunks_def slab del: replicate_Suc)
  then have ok: "slab_ok cls slab"
    using assms(1) by (simp add: slab classes_ok_def slab_ok_def)
  have "apart t slab \<and> apart slab t" if "t \<in> set (all_slabs (cs1 @ cls # cs2))" for t
    using that assms(2) b by (auto simp: env_ok_def apart_def slab)
  then have "sorted_wrt apart (all_slabs (cs1 @ ?c # cs2))"
    using assms(1) by (auto simp: classes_ok_def sorted_wrt_append)
  moreover have "sorted_wrt (\<lambda>c d. sz_chunk c < sz_chunk d) (cs1 @ ?c # cs2)"
    using assms(1) by (simp add: classes_ok_def sorted_wrt_append)
  ultimately show "classes_ok (cs1 @ ?c # cs2)"
    using assms(1) ok by (auto simp: classes_ok_def)
  have "slab_live cls slab = {}" by (auto simp: slab_live_def slab simp del: replicate_Suc)
  then show "live (cs1 @ ?c # cs2) = live (cs1 @ cls # cs2)" by (simp add: class_live_def)
  show "0 < s_left slab" using ok slab by (simp add: slab_ok_def)
qed

lemma class_malloc_at:
  assumes "classes_ok (cs1 @ cls # cs2)" and "env_ok e (cs1 @ cls # cs2)"
    and "mem_pool_slab_malloc e (Some cls) = (r, c')"
  obtains cls' where "c' = Some cls'" and "classes_ok (cs1 @ cls' # cs2)"
    and "(r = None \<and> cls' = cls) \<or> (\<exists>p. r = Some p \<and> served (cs1 @ cls # cs2) (cs1 @ cls' # cs2) p (sz_chunk cls))"
proof (cases "mem_pool_slab_find cls")
  case (Some i)
  then obtain as slab bs where d: "slabs cls = as @ slab # bs" "length as = i" "0 < s_left slab"
    using first_index_Some by (force simp: mem_pool_slab_find_def)
  obtain p slab' where a: "mem_slab_malloc cls slab = (Some p, slab')"
    "classes_ok (cs1 @ cls\<lparr>slabs := as @ slab' # bs\<rparr> # cs2)"
    "served (cs1 @ cls # cs2) (cs1 @ cls\<lparr>slabs := as @ slab' # bs\<rparr> # cs2) p (sz_chunk cls)"
    using slab_alloc_at [OF assms(1) d(1,3)] .
  have "r = Some p" "c' = Some (cls\<lparr>slabs := as @ slab' # bs\<rparr>)"
    using assms(3) Some d a(1) by (auto simp: mem_pool_slab_malloc_def)
  then show thesis using a(2,3) that by blast
next
  case None
  show thesis
  proof (cases "e_slab e \<and> (\<exists>slab. snd (mem_pool_slab_init e cls) = Some slab)")
    case False
    then have "r = None" "c' = Some cls"
      using assms(3) None by (auto simp: mem_pool_slab_malloc_def split: if_splits prod.splits option.splits)
    then show thesis using that [of cls] assms(1) by simp
  next
    case True
    then obtain st slab where i: "mem_pool_slab_init e cls = (st, Some slab)" "e_slab e" by (metis prod.collapse)
    note n = new_slab_ok [OF assms(1,2) i(1)]
    let ?c = "cls\<lparr>slabs := slab # slabs cls\<rparr>"
    have "slabs ?c = [] @ slab # slabs cls" by simp
    from slab_alloc_at [OF n(1) this n(3)] obtain p slab' where a: "mem_slab_malloc ?c slab = (Some p, slab')"
      "classes_ok (cs1 @ ?c\<lparr>slabs := [] @ slab' # slabs cls\<rparr> # cs2)"
      "served (cs1 @ ?c # cs2) (cs1 @ ?c\<lparr>slabs := [] @ slab' # slabs cls\<rparr> # cs2) p (sz_chunk ?c)" .
    let ?d = "cls\<lparr>slabs := slab' # slabs cls\<rparr>"
    have "r = Some p" "c' = Some ?d"
      using assms(3) None i a(1) by (auto simp: mem_pool_slab_malloc_def)
    moreover have "served (cs1 @ cls # cs2) (cs1 @ ?d # cs2) p (sz_chunk cls)"
      using a(3) unfolding served_def n(2) by simp
    moreover have "classes_ok (cs1 @ ?d # cs2)" using a(2) by simp
    ultimately show thesis using that [of ?d] by simp
  qed
qed

lemma mem_malloc_ok:
  assumes "classes_ok (classes m)" and "env_ok e (classes m)" and "mem_malloc e (Some m) sz = (r, m2)"
  obtains m' where "m2 = Some m'" and "classes_ok (classes m')" and "max_chunk m' = max_chunk m"
    and "(r = e_sys e \<and> live (classes m') = live (classes m))
      \<or> (\<exists>p cs1 cls cls' cs2. r = Some p \<and> classes m = cs1 @ cls # cs2 \<and> classes m' = cs1 @ cls' # cs2
           \<and> sz \<le> int (sz_chunk cls) \<and> served (classes m) (classes m') p (sz_chunk cls))"
proof (cases "sz > max_chunk m \<or> mem_pool_get_class m sz = None")
  case True
  then have "r = e_sys e" "m2 = Some m" using assms(3) by (auto simp: mem_malloc_def split: if_splits)
  then show thesis using that assms(1) by blast
next
  case False
  then obtain c where c: "mem_pool_get_class m sz = Some c" "\<not> sz > max_chunk m" by auto
  then obtain cs1 cls cs2 where d: "classes m = cs1 @ cls # cs2" "length cs1 = c" "sz \<le> int (sz_chunk cls)"
    using first_index_Some unfolding mem_pool_get_class_def by (metis (no_types, lifting))
  have at: "classes m ! c = cls" using d by (metis nth_append_length)
  obtain r1 c1 where r1: "mem_pool_slab_malloc e (Some cls) = (r1, c1)" by fastforce
  obtain cls' where s: "c1 = Some cls'" "classes_ok (cs1 @ cls' # cs2)"
    "(r1 = None \<and> cls' = cls) \<or> (\<exists>p. r1 = Some p \<and> served (cs1 @ cls # cs2) (cs1 @ cls' # cs2) p (sz_chunk cls))"
    using class_malloc_at [OF assms(1)[unfolded d(1)] assms(2)[unfolded d(1)] r1] by metis
  let ?m = "set_class m c cls'"
  have cl: "classes ?m = cs1 @ cls' # cs2" using set_class_at [OF d(1)] d(2) by simp
  have mm: "m2 = Some ?m" "r = (case r1 of None \<Rightarrow> e_sys e | Some p \<Rightarrow> Some p)"
    using assms(3) c r1 s(1) at by (auto simp: mem_malloc_def split: option.splits)
  have mx: "max_chunk ?m = max_chunk m" by (simp add: set_class_def)
  show thesis
    using s(3)
  proof (elim disjE exE conjE)
    assume "r1 = None" "cls' = cls"
    then show thesis using that [OF mm(1) _ mx] mm(2) cl d(1) s(2) by simp
  next
    fix p assume "r1 = Some p" "served (cs1 @ cls # cs2) (cs1 @ cls' # cs2) p (sz_chunk cls)"
    then show thesis using that [OF mm(1) _ mx] mm(2) cl d s(2) by auto
  qed
qed

subsection \<open>Properties\<close>

text \<open>A manager with the classes 16 and 32, one slab at 1000 with its second chunk in use.\<close>

definition pool_ex :: mem_mgmt where
  "pool_ex = \<lparr>classes =
      [\<lparr>sz_slab = 64, sz_chunk = 16, perslab = 4, slabs =
          [\<lparr>s_head = 1000, s_tail = 1064, s_buf = 1000, s_super = [False, True, False, False, False],
            s_cur = 2, s_left = 3\<rparr>]\<rparr>,
       \<lparr>sz_slab = 64, sz_chunk = 32, perslab = 2, slabs = []\<rparr>],
    max_chunk = 64, min_chunk = 16, maxcls = 10\<rparr>"

definition env_ex :: mem_env where
  "env_ex = \<lparr>e_slab = True, e_buf = Some 2000, e_map = True, e_sys = None\<rparr>"

lemma pool_ex_ok: "classes_ok (classes pool_ex)" "env_ok env_ex (classes pool_ex)" "live (classes pool_ex) = {(1016, 16)}"
proof -
  have k: "{k. k < 4 \<and> [False, True, False, False, False] ! k} = {1 :: nat}"
    by (auto simp: numeral_eq_Suc less_Suc_eq)
  show "classes_ok (classes pool_ex)"
    by (simp add: pool_ex_def classes_ok_def slab_ok_def free_chunks_def)
  show "env_ok env_ex (classes pool_ex)"
    by (auto simp: pool_ex_def env_ex_def env_ok_def)
  show "live (classes pool_ex) = {(1016, 16)}"
    using k by (simp add: pool_ex_def live_def class_live_def slab_live_def)
qed

text \<open>
  C33: A request is either handed to \<open>malloc\<close>, and then the chunks in use stay the same, or
  answered with a chunk at least as large as requested that was free and overlaps no chunk in use,
  and then exactly this chunk becomes used; either way the pool stays well-formed.
\<close>

theorem mem_malloc_fresh:
  assumes "classes_ok (classes m)" and "env_ok e (classes m)"
  shows "\<exists>r m'. mem_malloc e (Some m) sz = (r, Some m') \<and> classes_ok (classes m')
    \<and> ((r = e_sys e \<and> live (classes m') = live (classes m))
      \<or> (\<exists>p c. r = Some p \<and> sz \<le> int c \<and> served (classes m) (classes m') p c))"
proof -
  obtain r m2 where r: "mem_malloc e (Some m) sz = (r, m2)" by fastforce
  from mem_malloc_ok [OF assms r] show ?thesis using r by metis
qed

theorem mem_malloc_fresh_witness:
  "\<exists>r m'. mem_malloc env_ex (Some pool_ex) 20 = (r, Some m') \<and> classes_ok (classes m')"
  using mem_malloc_fresh [of pool_ex env_ex 20] pool_ex_ok by blast

text \<open>
  Freeing a chunk in use is done inside the pool (nothing goes to the C library), takes
  exactly this chunk out of use, also when the slab it was in is given back, and keeps the pool
  well-formed.
\<close>

theorem mem_free_releases:
  assumes "classes_ok (classes m)" and "(p, c) \<in> live (classes m)"
  shows "\<exists>m'. mem_free (Some m) p = (Some m', []) \<and> classes_ok (classes m')
    \<and> live (classes m') = live (classes m) - {(p, c)}"
  using mem_free_ok [OF assms] by metis

theorem mem_free_releases_witness:
  "\<exists>m'. mem_free (Some pool_ex) 1016 = (Some m', []) \<and> live (classes m') = {}"
  using mem_free_releases [of pool_ex 1016 16] pool_ex_ok by auto

text \<open>
  Growing a chunk in use that the pool can serve moves it to a larger chunk that was free,
  copies the whole old chunk, which fits, and takes the old chunk out of use; when the pool and
  \<open>malloc\<close> cannot serve it, the old chunk stays in use and the null pointer is returned.
\<close>

theorem mem_realloc_moves:
  assumes "classes_ok (classes m)" and "env_ok e (classes m)" and "(p, c) \<in> live (classes m)"
    and "int c < sz" and "e_sys e = None"
  shows "\<exists>r m' acts. mem_realloc e (Some m) p sz = (r, Some m', acts) \<and> classes_ok (classes m')
    \<and> ((r = None \<and> acts = [] \<and> live (classes m') = live (classes m))
      \<or> (\<exists>q d. r = Some q \<and> sz \<le> int d \<and> acts = [Memcpy q p c] \<and> (q, d) \<notin> live (classes m)
           \<and> live (classes m') = insert (q, d) (live (classes m) - {(p, c)})))"
proof -
  obtain cs1 cls cs2 as slab bs where d: "classes m = cs1 @ cls # cs2" "slabs cls = as @ slab # bs"
    "(p, c) \<in> slab_live cls slab" using live_slab [OF assms(3)] by metis
  have ok: "classes_ok (cs1 @ cls # cs2)" "slab_ok cls slab"
    using assms(1) d by (auto simp: classes_ok_def)
  from slab_live_in [OF ok(2) d(3)] have p: "s_head slab \<le> p" "p < s_tail slab" "c = sz_chunk cls" by auto
  have fp: "mem_pool_find_ptr (classes m) p = Some (length cs1, length as)"
    unfolding d(1) by (rule find_ptr_at [OF ok(1) d(2) p(1,2)])
  have cl: "classes m ! length cs1 = cls" using d(1) by simp
  obtain r m2 where r: "mem_malloc e (Some m) sz = (r, m2)" by fastforce
  obtain m' where m': "m2 = Some m'" "classes_ok (classes m')"
    "(r = e_sys e \<and> live (classes m') = live (classes m))
      \<or> (\<exists>q ds1 dls dls' ds2. r = Some q \<and> classes m = ds1 @ dls # ds2 \<and> classes m' = ds1 @ dls' # ds2
           \<and> sz \<le> int (sz_chunk dls) \<and> served (classes m) (classes m') q (sz_chunk dls))"
    using mem_malloc_ok [OF assms(1,2) r] by metis
  show ?thesis
    using m'(3)
  proof (elim disjE exE conjE)
    assume "r = e_sys e" "live (classes m') = live (classes m)"
    then show ?thesis using assms(4,5) fp cl p(3) r m' by (simp add: mem_realloc_def)
  next
    fix q ds1 dls dls' ds2
    assume q: "r = Some q" "classes m = ds1 @ dls # ds2" "classes m' = ds1 @ dls' # ds2"
      "sz \<le> int (sz_chunk dls)" and sv: "served (classes m) (classes m') q (sz_chunk dls)"
    have "length cs1 \<noteq> length ds1" using q(2,4) d(1) assms(4) p(3) by (auto simp: append_eq_append_conv)
    then have keep: "classes m' ! length cs1 = cls" "length cs1 < length (classes m')"
      using q(2,3) cl d(1) by (auto simp: nth_append nth_Cons' dest: arg_cong [of _ _ length])
    have pl: "(p, c) \<in> live (classes m')" using sv assms(3) by (simp add: served_def)
    obtain es1 es2 where es: "classes m' = es1 @ cls # es2" "length es1 = length cs1"
      using keep id_take_nth_drop [OF keep(2)] by (metis length_take less_imp_le min_absorb2)
    obtain m3 where m3: "mem_free (Some m') p = (Some m3, [])" "classes_ok (classes m3)"
      "live (classes m3) = live (classes m') - {(p, c)}" using mem_free_ok [OF m'(2) pl] .
    have "mem_pool_find_ptr (classes m') p = Some (length es1, length as)"
      unfolding es(1) using m'(2) es(1) by (intro find_ptr_at [OF _ d(2) p(1,2)]) simp
    then have "m3 = set_class m' (length cs1) (mem_pool_slab_free cls (length as) p)"
      using m3(1) es keep by (simp add: mem_free_def)
    then have "mem_realloc e (Some m) p sz = (Some q, Some m3, [Memcpy q p c])"
      using assms(4) fp cl p(3) r m'(1) q(1) keep by (simp add: mem_realloc_def)
    moreover have "(q, sz_chunk dls) \<noteq> (p, c)" using sv assms(3) by (auto simp: served_def)
    ultimately show ?thesis
      using m3(2,3) sv q(4) by (auto simp: served_def)
  qed
qed

theorem mem_realloc_moves_witness:
  "\<exists>r m' acts. mem_realloc env_ex (Some pool_ex) 1016 20 = (r, Some m', acts) \<and> classes_ok (classes m')"
  using mem_realloc_moves [of pool_ex env_ex 1016 16 20] pool_ex_ok by (auto simp: env_ex_def)

end
