(* ===== verification/Ems_Event.thy ===== *)
theory Ems_Event
  imports Ems_Timer
begin

text \<open>
  The event loop of \<^verbatim>\<open>c/ems/src/event/ems_event.c\<close> and its epoll driver
  \<^verbatim>\<open>c/ems/src/event/evt_epoll.c\<close>. Event descriptors are addresses; their fields live in a map.
  The driver keeps the array the last \<open>epoll_wait\<close> filled, each entry a descriptor (\<open>None\<close> once it
  was struck out) and an event mask, and the position of the entry being dispatched. The status of
  \<open>epoll_ctl\<close> is a parameter and its calls are logged. A callback may change the whole store; the
  conditions a theorem needs of it are a named predicate.
\<close>

record event_fd =
  e_fd :: int
  e_eof :: bool
  e_reg :: bool
  e_flg :: flags
  e_error :: bool
  e_cb :: "nat option"

datatype ctl_op = CTL_ADD | CTL_MOD | CTL_DEL

record estate =
  fds :: "addr \<Rightarrow> event_fd"
  cur_fd :: int
  cur_nfds :: int
  evts :: "(addr option \<times> flags) list"
  ctl_log :: "(ctl_op \<times> int \<times> flags) list"

type_synonym epoll_ctl = "ctl_op \<Rightarrow> int \<Rightarrow> flags \<Rightarrow> int"

definition EMS_EVT_READ :: flags where "EMS_EVT_READ = 2 ^ 0"
definition EMS_EVT_WRITE :: flags where "EMS_EVT_WRITE = 2 ^ 1"
definition EMS_EVT_EDGE_TRIGGER :: flags where "EMS_EVT_EDGE_TRIGGER = 2 ^ 2"
definition EMS_EVT_BLOCKING :: flags where "EMS_EVT_BLOCKING = 2 ^ 3"

text \<open>The masks of \<open>sys/epoll.h\<close>.\<close>

definition EPOLLIN :: flags where "EPOLLIN = 2 ^ 0"
definition EPOLLOUT :: flags where "EPOLLOUT = 2 ^ 2"
definition EPOLLERR :: flags where "EPOLLERR = 2 ^ 3"
definition EPOLLHUP :: flags where "EPOLLHUP = 2 ^ 4"
definition EPOLLRDHUP :: flags where "EPOLLRDHUP = 2 ^ 13"
definition EPOLLET :: flags where "EPOLLET = 2 ^ 31"

subsection \<open>The epoll driver\<close>

definition epoll_call :: "epoll_ctl \<Rightarrow> ctl_op \<Rightarrow> int \<Rightarrow> flags \<Rightarrow> estate \<Rightarrow> int \<times> estate" where
  "epoll_call ctl op fd ev s = (ctl op fd ev, s\<lparr>ctl_log := ctl_log s @ [(op, fd, ev)]\<rparr>)"

text \<open>The entries of the current batch after the one being dispatched that are for \<open>fd\<close> are struck out.\<close>

definition strike :: "addr \<Rightarrow> int \<Rightarrow> int \<Rightarrow> (addr option \<times> flags) list \<Rightarrow> (addr option \<times> flags) list" where
  "strike fd lo hi es =
    map (\<lambda>(i, p, ev). if lo \<le> int i \<and> int i < hi \<and> p = Some fd then (None, ev) else (p, ev))
      (zip [0..<length es] es)"

definition evt_del :: "epoll_ctl \<Rightarrow> addr \<Rightarrow> estate \<Rightarrow> int \<times> estate" where
  "evt_del ctl fd s =
    (if \<not> e_reg (fds s fd) then (EMS_OK, s)
     else (let s1 = s\<lparr>evts := strike fd (cur_fd s + 1) (cur_nfds s) (evts s)\<rparr>;
               s2 = s1\<lparr>fds := (fds s1)(fd := (fds s1 fd)\<lparr>e_reg := False, e_flg := 0\<rparr>)\<rparr>
           in epoll_call ctl CTL_DEL (e_fd (fds s2 fd)) 0 s2))"

text \<open>\<open>evt_init\<close>: whether the two allocations succeed and what \<open>epoll_create1\<close> returns are arguments.\<close>

definition evt_init :: "bool \<Rightarrow> int \<Rightarrow> bool \<Rightarrow> estate \<Rightarrow> int \<times> estate" where
  "evt_init alloc efd alloc_evt s =
    (if \<not> alloc then (EMS_ERR, s)
     else if efd \<le> 0 then (EMS_ERR, s)
     else if \<not> alloc_evt then (EMS_ERR, s)
     else (EMS_OK, s\<lparr>cur_fd := 0, cur_nfds := 0\<rparr>))"

definition evt_uninit :: "estate \<Rightarrow> int \<times> estate" where
  "evt_uninit s = (EMS_OK, s\<lparr>cur_fd := 0, cur_nfds := 0, evts := []\<rparr>)"

text \<open>
  One turn of the loop of \<open>evt_handle\<close>: what the callback is called with, if it is called, and
  the store before the call.
\<close>

definition evt_entry :: "epoll_ctl \<Rightarrow> estate \<Rightarrow> (nat \<times> addr \<times> flags) option \<times> estate" where
  "evt_entry ctl s =
    (case evts s ! nat (cur_fd s) of (ptr, events) \<Rightarrow>
       (case ptr of
          None \<Rightarrow> (None, s)
        | Some fd \<Rightarrow>
            (let s1 = (if ems_flag_like events (EPOLLERR OR EPOLLHUP)
                       then snd (evt_del ctl fd (s\<lparr>fds := (fds s)(fd := (fds s fd)\<lparr>e_error := True\<rparr>)\<rparr>))
                       else s)
             in if \<not> ems_flag_like events (EPOLLRDHUP OR EPOLLIN OR EPOLLOUT OR EPOLLERR OR EPOLLHUP) then (None, s1)
                else (let s2 = (if ems_flag_like events EPOLLRDHUP
                                then s1\<lparr>fds := (fds s1)(fd := (fds s1 fd)\<lparr>e_eof := True\<rparr>)\<rparr> else s1);
                          flg = (if ems_flag_like events EPOLLIN then EMS_EVT_READ else 0);
                          flg' = (if ems_flag_like events EPOLLOUT then flg OR EMS_EVT_WRITE else flg)
                      in (map_option (\<lambda>cb. (cb, fd, flg')) (e_cb (fds s2 fd)), s2)))))"

text \<open>
  The loop, with fuel for the turns; the result lists the descriptors dispatched, in order.
\<close>

fun evt_loop ::
  "epoll_ctl \<Rightarrow> (nat \<Rightarrow> addr \<Rightarrow> flags \<Rightarrow> estate \<Rightarrow> estate) \<Rightarrow> nat \<Rightarrow> estate \<Rightarrow> (addr list \<times> estate) option" where
  "evt_loop ctl run 0 s = None"
| "evt_loop ctl run (Suc n) s =
    (if \<not> cur_fd s < cur_nfds s then Some ([], s)
     else (case evt_entry ctl s of
             (None, s1) \<Rightarrow> evt_loop ctl run n (s1\<lparr>cur_fd := cur_fd s1 + 1\<rparr>)
           | (Some (cb, fd, flg), s1) \<Rightarrow>
               (let s2 = run cb fd flg s1
                in map_option (\<lambda>(ds, s'). (fd # ds, s'))
                     (evt_loop ctl run n (s2\<lparr>cur_fd := cur_fd s2 + 1\<rparr>)))))"

text \<open>\<open>ready\<close> is what \<open>epoll_wait\<close> stores; \<open>None\<close> is its failure (it returns -1).\<close>

definition evt_handle ::
  "epoll_ctl \<Rightarrow> (nat \<Rightarrow> addr \<Rightarrow> flags \<Rightarrow> estate \<Rightarrow> estate) \<Rightarrow> nat \<Rightarrow> (addr \<times> flags) list option \<Rightarrow> estate \<Rightarrow>
    (int \<times> addr list \<times> estate) option" where
  "evt_handle ctl run fuel ready s =
    (let s1 = (case ready of
                 None \<Rightarrow> s\<lparr>cur_nfds := -1, cur_fd := 0\<rparr>
               | Some es \<Rightarrow> s\<lparr>cur_nfds := int (length es), cur_fd := 0, evts := map (\<lambda>(p, ev). (Some p, ev)) es\<rparr>)
     in map_option (\<lambda>(ds, s'). (EMS_OK, ds, s')) (evt_loop ctl run fuel s1))"

definition evt_subscribe :: "epoll_ctl \<Rightarrow> addr \<Rightarrow> flags \<Rightarrow> estate \<Rightarrow> int \<times> estate" where
  "evt_subscribe ctl fd flg s =
    (let op = (if e_reg (fds s fd) then CTL_MOD else CTL_ADD);
         ev1 = (if ems_flag_like flg EMS_EVT_READ then EPOLLIN OR EPOLLRDHUP else 0);
         ev2 = (if ems_flag_like flg EMS_EVT_WRITE then ev1 OR EPOLLOUT else ev1);
         ev3 = (if ems_flag_like flg EMS_EVT_EDGE_TRIGGER then ev2 OR EPOLLET else ev2)
     in epoll_call ctl op (e_fd (fds s fd)) ev3 s)"

definition evt_unsubscribe :: "epoll_ctl \<Rightarrow> addr \<Rightarrow> estate \<Rightarrow> int \<times> estate" where
  "evt_unsubscribe ctl fd s = evt_del ctl fd s"

subsection \<open>The event loop\<close>

text \<open>
  The only driver has the identifier \<open>EVT_DRIVER_EPOLL\<close> = 1. The search advances a pointer to
  the driver where it means to advance the index of the table: for any other identifier it reads
  past the driver, \<open>None\<close>.
\<close>

definition ems_event_load_driver :: "flags \<Rightarrow> nat option" where
  "ems_event_load_driver evtid = (if evtid = 1 then Some 0 else None)"

record ems_event =
  ev_timeout :: addr
  ev_drv :: "nat option"
  ev_run :: bool

definition ems_event_init :: "(int \<times> estate) \<Rightarrow> flags \<Rightarrow> addr \<Rightarrow> (int \<times> ems_event option) option" where
  "ems_event_init init evtid l =
    (case ems_event_load_driver evtid of
       None \<Rightarrow> None
     | Some drv \<Rightarrow>
         (if fst init \<noteq> 0 then Some (EMS_ERR, None)
          else Some (EMS_OK, Some \<lparr>ev_timeout = l, ev_drv = Some drv, ev_run = True\<rparr>)))"

definition ems_event_done :: "ems_event \<Rightarrow> estate \<Rightarrow> int \<times> ems_event \<times> estate" where
  "ems_event_done evt s =
    (case ev_drv evt of
       None \<Rightarrow> (EMS_OK, evt\<lparr>ev_run := False\<rparr>, s)
     | Some _ \<Rightarrow> (EMS_OK, evt\<lparr>ev_run := False, ev_drv := None\<rparr>, snd (evt_uninit s)))"

text \<open>
  The main loop over the state \<open>'s\<close> of the whole program, given what reads and writes the run
  flag, the extra step, the handling of the timers and that of the driver; with fuel.
\<close>

fun ems_event_run_loop ::
  "nat \<Rightarrow> ('s \<Rightarrow> bool) \<Rightarrow> ('s \<Rightarrow> 's) option \<Rightarrow> ('s \<Rightarrow> 's) \<Rightarrow> ('s \<Rightarrow> 's) \<Rightarrow> 's \<Rightarrow> 's option" where
  "ems_event_run_loop 0 running extra timers handle s = None"
| "ems_event_run_loop (Suc n) running extra timers handle s =
    (if \<not> running s then Some s
     else (let s1 = (case extra of None \<Rightarrow> s | Some f \<Rightarrow> f s);
               s2 = (if running s1 then handle (timers s1) else s1)
           in ems_event_run_loop n running extra timers handle s2))"

definition ems_event_run ::
  "nat \<Rightarrow> ('s \<Rightarrow> bool) \<Rightarrow> ('s \<Rightarrow> 's) \<Rightarrow> ('s \<Rightarrow> 's) option \<Rightarrow> ('s \<Rightarrow> 's) \<Rightarrow> ('s \<Rightarrow> 's) \<Rightarrow> 's \<Rightarrow> (int \<times> 's) option" where
  "ems_event_run fuel running start extra timers handle s =
    map_option (\<lambda>s'. (EMS_OK, s')) (ems_event_run_loop fuel running extra timers handle (start s))"

definition ems_event_add :: "epoll_ctl \<Rightarrow> addr \<Rightarrow> flags \<Rightarrow> nat option \<Rightarrow> estate \<Rightarrow> int \<times> estate" where
  "ems_event_add ctl fd flgs cb s =
    (if e_reg (fds s fd) \<and> e_flg (fds s fd) = flgs then (EMS_OK, s)
     else (let s1 = s\<lparr>fds := (fds s)(fd := (fds s fd)\<lparr>e_cb := cb\<rparr>)\<rparr>
           in case evt_subscribe ctl fd flgs s1 of (ret, s2) \<Rightarrow>
                (if ret \<noteq> 0 then (EMS_ERR, s2)
                 else (EMS_OK, s2\<lparr>fds := (fds s2)(fd := (fds s2 fd)
                         \<lparr>e_reg := True, e_eof := False, e_flg := flgs, e_error := False\<rparr>)\<rparr>))))"

definition ems_event_del :: "epoll_ctl \<Rightarrow> addr \<Rightarrow> estate \<Rightarrow> int \<times> estate" where
  "ems_event_del ctl fd s = evt_unsubscribe ctl fd s"

definition ems_event_end :: "ems_event \<Rightarrow> int \<times> ems_event" where
  "ems_event_end evt = (0, evt\<lparr>ev_run := False\<rparr>)"

definition ems_event_fd_init :: "addr \<Rightarrow> estate \<Rightarrow> int \<times> estate" where
  "ems_event_fd_init fd s =
    (EMS_OK, s\<lparr>fds := (fds s)(fd := \<lparr>e_fd = 0, e_eof = False, e_reg = False, e_flg = 0, e_error = False, e_cb = None\<rparr>)\<rparr>)"

subsection \<open>What happens to the batch\<close>

text \<open>
  A change of the store during the dispatch of a batch that keeps its bounds and does nothing to
  the entries still to come but strike some out.
\<close>

definition shrinks :: "estate \<Rightarrow> estate \<Rightarrow> bool" where
  "shrinks s s' \<longleftrightarrow> cur_fd s' = cur_fd s \<and> cur_nfds s' = cur_nfds s \<and> length (evts s') = length (evts s)
    \<and> (\<forall>i. cur_fd s < int i \<longrightarrow> i < length (evts s) \<longrightarrow>
         fst (evts s' ! i) = fst (evts s ! i) \<or> fst (evts s' ! i) = None)"

lemma shrinks_refl [simp]: "shrinks s s"
  by (simp add: shrinks_def)

lemma shrinks_trans: "shrinks s t \<Longrightarrow> shrinks t u \<Longrightarrow> shrinks s u"
  unfolding shrinks_def by metis

lemma shrinks_fds [simp]: "shrinks s (t\<lparr>fds := f\<rparr>) = shrinks s t" "shrinks (s\<lparr>fds := f\<rparr>) t = shrinks s t"
  by (simp_all add: shrinks_def)

lemma length_strike [simp]: "length (strike fd lo hi es) = length es"
  by (simp add: strike_def)

lemma strike_nth:
  "i < length es \<Longrightarrow> strike fd lo hi es ! i =
    (if lo \<le> int i \<and> int i < hi \<and> fst (es ! i) = Some fd then (None, snd (es ! i)) else es ! i)"
  by (simp add: strike_def split: prod.split)

lemma evt_del_shrinks: "shrinks s (snd (evt_del ctl fd s))"
  by (auto simp: evt_del_def epoll_call_def Let_def shrinks_def strike_nth)

lemma evt_del_strikes:
  assumes "e_reg (fds s fd)" and "cur_nfds s \<le> int (length (evts s))"
    and "cur_fd s < int i" and "int i < cur_nfds s"
  shows "fst (evts (snd (evt_del ctl fd s)) ! i) \<noteq> Some fd"
  using assms by (auto simp: evt_del_def epoll_call_def Let_def strike_nth)

lemma evt_subscribe_shrinks: "evts (snd (evt_subscribe ctl fd flg s)) = evts s"
    "cur_fd (snd (evt_subscribe ctl fd flg s)) = cur_fd s" "cur_nfds (snd (evt_subscribe ctl fd flg s)) = cur_nfds s"
  by (simp_all add: evt_subscribe_def epoll_call_def Let_def)

lemma event_add_shrinks: "shrinks s (snd (ems_event_add ctl fd flgs cb s))"
  by (auto simp: ems_event_add_def Let_def shrinks_def evt_subscribe_def epoll_call_def)

lemma event_del_shrinks: "shrinks s (snd (ems_event_del ctl fd s))"
  by (simp add: ems_event_del_def evt_unsubscribe_def evt_del_shrinks)

lemma evt_entry_shrinks: "shrinks s (snd (evt_entry ctl s))"
proof -
  have "shrinks s (snd (evt_del ctl fd (s\<lparr>fds := f\<rparr>)))" for fd f
    using evt_del_shrinks [of "s\<lparr>fds := f\<rparr>"] by simp
  then show ?thesis by (simp add: evt_entry_def Let_def split: prod.split option.split)
qed

lemma evt_entry_ptr: "fst (evt_entry ctl s) = Some (cb, fd, flg) \<Longrightarrow> fst (evts s ! nat (cur_fd s)) = Some fd"
  by (auto simp: evt_entry_def Let_def split: prod.splits option.splits if_splits)

text \<open>
  The dispatch of a batch ends, and a descriptor none of the entries to come is for is not
  dispatched.
\<close>

lemma evt_loop_spec:
  assumes run: "\<And>cb p fl s. shrinks s (run cb p fl s)"
  shows "0 \<le> cur_fd s \<Longrightarrow> cur_nfds s \<le> int (length (evts s)) \<Longrightarrow> nat (cur_nfds s - cur_fd s) < fuel \<Longrightarrow>
    \<exists>ds s'. evt_loop ctl run fuel s = Some (ds, s')
      \<and> (\<forall>fd. (\<forall>i. cur_fd s \<le> int i \<longrightarrow> int i < cur_nfds s \<longrightarrow> fst (evts s ! i) \<noteq> Some fd) \<longrightarrow> fd \<notin> set ds)"
proof (induction fuel arbitrary: s)
  case (Suc n)
  show ?case
  proof (cases "cur_fd s < cur_nfds s")
    case True
    obtain d s1 where e: "evt_entry ctl s = (d, s1)" by fastforce
    define s2 where "s2 = (case d of None \<Rightarrow> s1 | Some (cb, p, fl) \<Rightarrow> run cb p fl s1)"
    let ?s = "s2\<lparr>cur_fd := cur_fd s2 + 1\<rparr>"
    have "shrinks s s1" using evt_entry_shrinks [of s ctl] e by simp
    then have sh: "shrinks s s2" using run shrinks_trans by (auto simp: s2_def split: option.split)
    then have "0 \<le> cur_fd ?s" "cur_nfds ?s \<le> int (length (evts ?s))" "nat (cur_nfds ?s - cur_fd ?s) < n"
      using Suc.prems True by (auto simp: shrinks_def)
    from Suc.IH [OF this] obtain ds s' where r: "evt_loop ctl run n ?s = Some (ds, s')"
      "\<forall>fd. (\<forall>i. cur_fd ?s \<le> int i \<longrightarrow> int i < cur_nfds ?s \<longrightarrow> fst (evts ?s ! i) \<noteq> Some fd) \<longrightarrow> fd \<notin> set ds"
      by blast
    have later: "fd \<notin> set ds"
      if no: "\<forall>i. cur_fd s \<le> int i \<longrightarrow> int i < cur_nfds s \<longrightarrow> fst (evts s ! i) \<noteq> Some fd" for fd
    proof -
      have "fst (evts s2 ! i) \<noteq> Some fd" if i: "cur_fd s + 1 \<le> int i" "int i < cur_nfds s" for i
      proof -
        have "fst (evts s ! i) \<noteq> Some fd" using no i by auto
        moreover have "fst (evts s2 ! i) = fst (evts s ! i) \<or> fst (evts s2 ! i) = None"
          using sh i Suc.prems(2) by (auto simp: shrinks_def)
        ultimately show ?thesis by auto
      qed
      then show ?thesis using r(2) sh by (simp add: shrinks_def)
    qed
    have here: "d = Some (cb, p, fl) \<Longrightarrow> fst (evts s ! nat (cur_fd s)) = Some p" for cb p fl
      using evt_entry_ptr [of ctl s] e by simp
    show ?thesis
    proof (cases d)
      case None
      then show ?thesis using True e r later by (auto simp: s2_def)
    next
      case (Some x)
      obtain cb p fl where x: "x = (cb, p, fl)" by (metis prod_cases3)
      have "evt_loop ctl run (Suc n) s = Some (p # ds, s')"
        using True e r(1) Some x by (simp add: s2_def Let_def)
      moreover have "fd \<notin> set (p # ds)"
        if "\<forall>i. cur_fd s \<le> int i \<longrightarrow> int i < cur_nfds s \<longrightarrow> fst (evts s ! i) \<noteq> Some fd" for fd
      proof -
        have "fst (evts s ! nat (cur_fd s)) \<noteq> Some fd" using that Suc.prems(1) True by auto
        then show ?thesis using later [OF that] here Some x by auto
      qed
      ultimately show ?thesis by blast
    qed
  qed simp
qed simp

text \<open>
  Without interference every entry is dispatched: what an entry for a registered descriptor with a
  callback leads to, for callbacks that leave the batch and the callbacks of the descriptors alone.
\<close>

definition relevant :: "flags \<Rightarrow> bool" where
  "relevant ev \<longleftrightarrow> ems_flag_like ev (EPOLLRDHUP OR EPOLLIN OR EPOLLOUT OR EPOLLERR OR EPOLLHUP)"

definition calm :: "estate \<Rightarrow> estate \<Rightarrow> bool" where
  "calm s s' \<longleftrightarrow> cur_fd s' = cur_fd s \<and> cur_nfds s' = cur_nfds s \<and> evts s' = evts s
    \<and> (\<forall>fd. e_cb (fds s' fd) = e_cb (fds s fd))"

lemma evt_del_calm:
  assumes "\<forall>i. cur_fd s < int i \<longrightarrow> i < length (evts s) \<longrightarrow> fst (evts s ! i) \<noteq> Some fd"
  shows "calm s (snd (evt_del ctl fd s))"
proof -
  have "strike fd (cur_fd s + 1) (cur_nfds s) (evts s) = evts s"
    using assms by (intro nth_equalityI) (auto simp: strike_nth)
  then show ?thesis by (simp add: evt_del_def epoll_call_def Let_def calm_def)
qed

lemma evt_entry_calm:
  assumes "0 \<le> cur_fd s" and "evts s ! nat (cur_fd s) = (Some fd, ev)"
    and "\<forall>i. cur_fd s < int i \<longrightarrow> i < length (evts s) \<longrightarrow> fst (evts s ! i) \<noteq> Some fd"
  shows "calm s (snd (evt_entry ctl s))"
    and "map_option (\<lambda>(cb, p, fl). p) (fst (evt_entry ctl s))
      = (if relevant ev \<and> e_cb (fds s fd) \<noteq> None then Some fd else None)"
proof -
  let ?s = "s\<lparr>fds := (fds s)(fd := (fds s fd)\<lparr>e_error := True\<rparr>)\<rparr>"
  have "calm ?s (snd (evt_del ctl fd ?s))" using assms(3) by (intro evt_del_calm) simp
  then have c: "calm s (snd (evt_del ctl fd ?s))" by (auto simp: calm_def)
  then show "calm s (snd (evt_entry ctl s))"
    using assms(2) by (auto simp: evt_entry_def Let_def calm_def)
  have "e_cb (fds (snd (evt_del ctl fd ?s)) fd) = e_cb (fds s fd)" using c by (simp add: calm_def)
  then show "map_option (\<lambda>(cb, p, fl). p) (fst (evt_entry ctl s))
      = (if relevant ev \<and> e_cb (fds s fd) \<noteq> None then Some fd else None)"
    using assms(2) by (auto simp: evt_entry_def Let_def relevant_def)
qed

lemma evt_loop_all:
  assumes run: "\<And>cb p fl s. calm s (run cb p fl s)"
  shows "evts s = pre @ map (\<lambda>(p, ev). (Some p, ev)) es \<Longrightarrow> cur_fd s = int (length pre) \<Longrightarrow>
    cur_nfds s = int (length (evts s)) \<Longrightarrow> distinct (map fst es) \<Longrightarrow> length es < fuel \<Longrightarrow>
    \<exists>s'. evt_loop ctl run fuel s
      = Some (map fst (filter (\<lambda>(p, ev). relevant ev \<and> e_cb (fds s p) \<noteq> None) es), s')"
proof (induction es arbitrary: s pre fuel)
  case Nil
  then show ?case by (cases fuel) auto
next
  case (Cons x es)
  obtain fd ev where x: "x = (fd, ev)" by fastforce
  obtain n where n: "fuel = Suc n" "length es < n" using Cons.prems by (cases fuel) auto
  have cur: "0 \<le> cur_fd s" "evts s ! nat (cur_fd s) = (Some fd, ev)" "cur_fd s < cur_nfds s"
    using Cons.prems x by simp_all
  have "\<forall>i. cur_fd s < int i \<longrightarrow> i < length (evts s) \<longrightarrow> fst (evts s ! i) \<noteq> Some fd"
  proof (intro allI impI)
    fix i assume i: "cur_fd s < int i" "i < length (evts s)"
    define k where "k = i - Suc (length pre)"
    have k: "i = length pre + Suc k" "k < length es"
      using i Cons.prems(1,2) by (auto simp: k_def)
    then have "evts s ! i = (Some (fst (es ! k)), snd (es ! k))"
      using Cons.prems(1) by (simp add: nth_append split: prod.split)
    moreover have "fst (es ! k) \<in> set (map fst es)" using k(2) by simp
    ultimately show "fst (evts s ! i) \<noteq> Some fd" using Cons.prems(4) x by auto
  qed
  note c = evt_entry_calm [OF cur(1,2) this, of ctl]
  obtain d s1 where e: "evt_entry ctl s = (d, s1)" by fastforce
  define s2 where "s2 = (case d of None \<Rightarrow> s1 | Some (cb, p, fl) \<Rightarrow> run cb p fl s1)"
  have sh: "calm s s2"
    using c(1) run e unfolding s2_def calm_def by (auto split: option.split)
  let ?s = "s2\<lparr>cur_fd := cur_fd s2 + 1\<rparr>"
  have "\<exists>s'. evt_loop ctl run n ?s
      = Some (map fst (filter (\<lambda>(p, ev). relevant ev \<and> e_cb (fds ?s p) \<noteq> None) es), s')"
    using Cons.prems x sh n by (intro Cons.IH [of _ "pre @ [(Some fd, ev)]"]) (auto simp: calm_def)
  then obtain s' where r: "evt_loop ctl run n ?s
      = Some (map fst (filter (\<lambda>(p, ev). relevant ev \<and> e_cb (fds s p) \<noteq> None) es), s')"
    using sh by (auto simp: calm_def)
  show ?case
  proof (cases d)
    case None
    then show ?thesis using c(2) e r n cur x by (auto simp: s2_def split: if_splits)
  next
    case (Some y)
    obtain cb p fl where y: "y = (cb, p, fl)" by (metis prod_cases3)
    then show ?thesis using Some c(2) e r n cur x by (auto simp: s2_def Let_def split: if_splits)
  qed
qed

subsection \<open>Properties\<close>

text \<open>Two descriptors ready for reading, 10 and 20, registered with the callbacks 1 and 2.\<close>

definition estate_ex :: estate where
  "estate_ex = \<lparr>fds = (\<lambda>_. \<lparr>e_fd = 0, e_eof = False, e_reg = False, e_flg = 0, e_error = False, e_cb = None\<rparr>)
      (10 := \<lparr>e_fd = 4, e_eof = False, e_reg = True, e_flg = 1, e_error = False, e_cb = Some 1\<rparr>,
       20 := \<lparr>e_fd = 5, e_eof = False, e_reg = True, e_flg = 1, e_error = False, e_cb = Some 2\<rparr>),
    cur_fd = 0, cur_nfds = 2, evts = [(Some 10, 1), (Some 20, 1)], ctl_log = []\<rparr>"

text \<open>
  C34: Once a registered descriptor is deleted while a batch of events is dispatched, the rest of
  the batch is dispatched to the end without ever calling back for that descriptor, as long as the
  callbacks only strike entries out of the batch (which \<open>ems_event_del\<close> and \<open>ems_event_add\<close> do).
\<close>

theorem event_del_no_stale_dispatch:
  assumes "\<And>cb p fl s. shrinks s (run cb p fl s)"
    and "e_reg (fds s fd)" and "0 \<le> cur_fd s" and "cur_nfds s \<le> int (length (evts s))"
    and "nat (cur_nfds s - cur_fd s) < fuel"
    and "ems_event_del ctl fd s = (ret, s1)"
  shows "\<exists>ds s'. evt_loop ctl run fuel (s1\<lparr>cur_fd := cur_fd s1 + 1\<rparr>) = Some (ds, s') \<and> fd \<notin> set ds"
proof -
  let ?s = "s1\<lparr>cur_fd := cur_fd s1 + 1\<rparr>"
  have s1: "s1 = snd (evt_del ctl fd s)" using assms(6) by (simp add: ems_event_del_def evt_unsubscribe_def)
  then have sh: "shrinks s s1" using evt_del_shrinks by simp
  have "\<exists>ds s'. evt_loop ctl run fuel ?s = Some (ds, s')
      \<and> (\<forall>fd. (\<forall>i. cur_fd ?s \<le> int i \<longrightarrow> int i < cur_nfds ?s \<longrightarrow> fst (evts ?s ! i) \<noteq> Some fd) \<longrightarrow> fd \<notin> set ds)"
    using sh assms(3-5) by (intro evt_loop_spec assms(1)) (auto simp: shrinks_def)
  moreover have "fst (evts ?s ! i) \<noteq> Some fd" if "cur_fd ?s \<le> int i" "int i < cur_nfds ?s" for i
    using that sh evt_del_strikes [OF assms(2,4), of i ctl] s1 by (auto simp: shrinks_def)
  ultimately show ?thesis by blast
qed

theorem event_del_no_stale_dispatch_witness:
  "\<exists>ds s' s1. s1 = snd (ems_event_del (\<lambda>_ _ _. 0) 20 estate_ex)
    \<and> evt_loop (\<lambda>_ _ _. 0) (\<lambda>_ _ _ s. s) 5 (s1\<lparr>cur_fd := cur_fd s1 + 1\<rparr>) = Some (ds, s') \<and> 20 \<notin> set ds"
proof -
  have "e_reg (fds estate_ex 20)" "0 \<le> cur_fd estate_ex" "cur_nfds estate_ex \<le> int (length (evts estate_ex))"
    "nat (cur_nfds estate_ex - cur_fd estate_ex) < 5" by (simp_all add: estate_ex_def)
  from event_del_no_stale_dispatch [of "\<lambda>_ _ _ s. s", OF shrinks_refl this surjective_pairing, of "\<lambda>_ _ _. 0"]
  show ?thesis by blast
qed

text \<open>
  For callbacks that leave the batch alone, every ready descriptor that has a callback and an
  event the driver looks at is called back exactly once, in the order \<open>epoll_wait\<close> reported them,
  hang-ups and errors included.
\<close>

theorem evt_handle_dispatches:
  assumes "\<And>cb p fl s. calm s (run cb p fl s)" and "distinct (map fst es)" and "length es < fuel"
  shows "\<exists>s'. evt_handle ctl run fuel (Some es) s
    = Some (EMS_OK, map fst (filter (\<lambda>(p, ev). relevant ev \<and> e_cb (fds s p) \<noteq> None) es), s')"
proof -
  let ?s = "s\<lparr>cur_nfds := int (length es), cur_fd := 0, evts := map (\<lambda>(p, ev). (Some p, ev)) es\<rparr>"
  have "\<exists>s'. evt_loop ctl run fuel ?s
      = Some (map fst (filter (\<lambda>(p, ev). relevant ev \<and> e_cb (fds ?s p) \<noteq> None) es), s')"
    using assms(2,3) by (intro evt_loop_all [OF assms(1), of _ "[]"]) auto
  then show ?thesis by (auto simp: evt_handle_def)
qed

theorem evt_handle_dispatches_witness:
  "\<exists>s'. evt_handle (\<lambda>_ _ _. 0) (\<lambda>_ _ _ s. s) 3 (Some [(20, 1), (10, 4)]) estate_ex = Some (EMS_OK, [20, 10], s')"
proof -
  have "calm s s" for s :: estate by (simp add: calm_def)
  then have "\<exists>s'. evt_handle (\<lambda>_ _ _. 0) (\<lambda>_ _ _ s. s) 3 (Some [(20, 1), (10, 4)]) estate_ex
    = Some (EMS_OK, map fst (filter (\<lambda>(p, ev). relevant ev \<and> e_cb (fds estate_ex p) \<noteq> None) [(20, 1), (10, 4)]), s')"
    using evt_handle_dispatches [of "\<lambda>_ _ _ s. s" "[(20, 1), (10, 4)]" 3] by simp
  then show ?thesis
    by (simp add: estate_ex_def relevant_def ems_flag_like_def EPOLLRDHUP_def EPOLLIN_def EPOLLOUT_def EPOLLERR_def EPOLLHUP_def)
qed

text \<open>
  Registering a descriptor with the flags it already has changes nothing, not even the
  callback; with other flags, when \<open>epoll_ctl\<close> succeeds, the descriptor ends up registered with the
  new flags and callback and its error and end-of-file marks cleared by one call that adds it when
  it was not registered and modifies it when it was; deleting it then leaves it unregistered.
\<close>

theorem event_add_del:
  assumes "\<And>op fd ev. ctl op fd ev = 0"
  shows "(e_reg (fds s fd) \<and> e_flg (fds s fd) = flgs \<longrightarrow> ems_event_add ctl fd flgs cb s = (EMS_OK, s))
    \<and> (\<not> (e_reg (fds s fd) \<and> e_flg (fds s fd) = flgs) \<longrightarrow>
        (\<exists>s' ev. ems_event_add ctl fd flgs cb s = (EMS_OK, s')
          \<and> fds s' fd = \<lparr>e_fd = e_fd (fds s fd), e_eof = False, e_reg = True, e_flg = flgs, e_error = False, e_cb = cb\<rparr>
          \<and> ctl_log s' = ctl_log s @ [(if e_reg (fds s fd) then CTL_MOD else CTL_ADD, e_fd (fds s fd), ev)]
          \<and> fst (ems_event_del ctl fd s') = 0 \<and> \<not> e_reg (fds (snd (ems_event_del ctl fd s')) fd)))"
  using assms
  by (auto simp: ems_event_add_def ems_event_del_def evt_unsubscribe_def evt_del_def evt_subscribe_def
      epoll_call_def Let_def)

theorem event_add_del_witness:
  "ems_event_add (\<lambda>_ _ _. 0) 10 1 (Some 9) estate_ex = (EMS_OK, estate_ex)"
  using event_add_del [of "\<lambda>_ _ _. 0" estate_ex 10 1 "Some 9"] by (simp add: estate_ex_def)

end
