(* ===== verification/Ems_Msg.thy ===== *)
theory Ems_Msg
  imports Ems_Str Ems_Buffer
begin

text \<open>
  Sockets and messages: \<^verbatim>\<open>c/ems/src/utils/ems_sock.c\<close>, the transfer loops and the packing of
  requests and responses of \<^verbatim>\<open>ems_msg.c\<close>, with the macros of \<^verbatim>\<open>ems_common.h\<close>.
  What the kernel answers to successive calls of \<open>send\<close> and \<open>recv\<close> is a list that the loops
  consume; \<open>None\<close> means that the list was too short. Packing writes into the memory of the buffer
  with explicit bounds: \<open>None\<close> stands for a write outside of it. The platform is the 64-bit one:
  \<open>unsigned long\<close> has 8 bytes, little endian.
\<close>

subsection \<open>Sockets\<close>

record ems_sock =
  s_addr :: ems_str
  s_port :: int
  s_fd :: int

definition ems_sock_init :: ems_sock where
  "ems_sock_init = \<lparr>s_addr = str_init, s_port = 0, s_fd = 0\<rparr>"

definition ems_sock_clear :: "ems_sock \<Rightarrow> ems_sock" where
  "ems_sock_clear s = ems_sock_init"

definition ems_sock_setaddr :: "bool \<Rightarrow> ems_sock \<Rightarrow> string option \<Rightarrow> int \<times> ems_sock" where
  "ems_sock_setaddr alloc s a =
    (EMS_OK, (case fst (str_set alloc (Some (s_addr s)) a) of None \<Rightarrow> s | Some t \<Rightarrow> s\<lparr>s_addr := t\<rparr>))"

definition ems_sock_setport :: "ems_sock \<Rightarrow> int \<Rightarrow> int \<times> ems_sock" where
  "ems_sock_setport s port = (port, s\<lparr>s_port := port\<rparr>)"

definition ems_sock_setfd :: "ems_sock \<Rightarrow> int \<Rightarrow> int \<times> ems_sock" where
  "ems_sock_setfd s fd = (fd, s\<lparr>s_fd := fd\<rparr>)"

definition ems_sock_close :: "ems_sock \<Rightarrow> int \<times> ems_sock" where
  "ems_sock_close s = (EMS_OK, if s_fd s > 0 then s\<lparr>s_fd := 0\<rparr> else s)"

subsection \<open>Sending\<close>

datatype send_res = Sent int | Again int | Failed

text \<open>Each answer of \<open>send\<close> is its result and the value of \<open>errno\<close>; \<open>EINTR\<close> is 4.\<close>

fun send_loop :: "(int \<times> int) list \<Rightarrow> int \<Rightarrow> int \<Rightarrow> send_res option" where
  "send_loop rs k left =
    (if left > 0 then
       (case rs of
          [] \<Rightarrow> None
        | (ret, err) # rs' \<Rightarrow>
            (if ret \<le> 0 then (if err = EAGAIN \<or> err = 4 then Some (Again k) else Some Failed)
             else send_loop rs' (k + ret) (left - ret)))
     else Some (Sent k))"

declare send_loop.simps [simp del]

text \<open>The result also has the bytes the kernel took.\<close>

definition ems_sock_send ::
  "(int \<times> int) list \<Rightarrow> ems_sock \<Rightarrow> char ems_buffer \<Rightarrow> (int \<times> ems_sock \<times> char ems_buffer \<times> string) option" where
  "ems_sock_send rs sock buf =
    (if s_fd sock \<le> 0 then Some (EMS_ERR, sock, buf, [])
     else (case send_loop rs 0 (buf_len buf) of
             None \<Rightarrow> None
           | Some (Again k) \<Rightarrow>
               Some (- EAGAIN, sock, snd (ems_buffer_seek_rd buf k 2), take (nat k) (contents buf))
           | Some Failed \<Rightarrow> Some (EMS_ERR, snd (ems_sock_close sock), buf, [])
           | Some (Sent k) \<Rightarrow> Some (k, sock, snd (ems_buffer_seek_rd buf k 2), take (nat k) (contents buf))))"

subsection \<open>Receiving\<close>

text \<open>An answer of \<open>recv\<close>: the bytes received, the end of the stream, or a failure with \<open>errno\<close>.\<close>

datatype recv_res = Got string | Closed | RFail int

datatype recv_end = Full | Eof | RAgain | RErr

fun recv_loop :: "recv_res list \<Rightarrow> nat \<Rightarrow> string \<Rightarrow> (recv_end \<times> string) option" where
  "recv_loop rs left acc =
    (if left > 0 then
       (case rs of
          [] \<Rightarrow> None
        | Got s # rs' \<Rightarrow> recv_loop rs' (left - length s) (acc @ s)
        | Closed # rs' \<Rightarrow> Some (Eof, acc)
        | RFail err # rs' \<Rightarrow> if err = EAGAIN \<or> err = 4 then Some (RAgain, acc) else Some (RErr, acc))
     else Some (Full, acc))"

declare recv_loop.simps [simp del]

definition ems_sock_read ::
  "recv_res list \<Rightarrow> ems_sock \<Rightarrow> char ems_buffer \<Rightarrow> (int \<times> ems_sock \<times> char ems_buffer) option" where
  "ems_sock_read rs sock buf =
    (if s_fd sock \<le> 0 then Some (EMS_ERR, sock, buf)
     else (case recv_loop rs (nat (buf_left buf)) [] of
             None \<Rightarrow> None
           | Some (e, got) \<Rightarrow>
               (let n = int (length got);
                    b1 = buf\<lparr>bmem := mem_write (bmem buf) (bwr buf) got\<rparr>;
                    b2 = snd (ems_buffer_seek_wr b1 n 2)
                in case e of
                     Eof \<Rightarrow> Some (0, sock, b2)
                   | RAgain \<Rightarrow> Some (- EAGAIN, sock, b2)
                   | RErr \<Rightarrow> Some (-1, snd (ems_sock_close sock), b1)
                   | Full \<Rightarrow> Some (n, sock, b2))))"

subsection \<open>Packing messages\<close>

definition be32 :: "nat \<Rightarrow> string" where
  "be32 n = map char_of [n div 2 ^ 24, n div 2 ^ 16, n div 2 ^ 8, n]"

definition get32 :: "string \<Rightarrow> nat" where
  "get32 s = uchr (s ! 0) * 2 ^ 24 + uchr (s ! 1) * 2 ^ 16 + uchr (s ! 2) * 2 ^ 8 + uchr (s ! 3)"

definition ALIGNLEN :: "nat \<Rightarrow> nat" where
  "ALIGNLEN l = (if l mod 4 = 0 then l else (l div 4 + 1) * 4)"

definition mem_put :: "string \<Rightarrow> nat \<Rightarrow> string \<Rightarrow> string option" where
  "mem_put mem off s = (if off + length s \<le> length mem then Some (mem_write mem off s) else None)"

text \<open>\<open>putword\<close> stores the 32 bits as an \<open>unsigned long\<close>: four more bytes, zeros, are written.\<close>

definition putword :: "string \<Rightarrow> nat \<Rightarrow> nat \<Rightarrow> (string \<times> nat) option" where
  "putword mem p w =
    (case mem_put mem p (be32 w @ replicate 4 (char_of (0 :: nat))) of None \<Rightarrow> None | Some m \<Rightarrow> Some (m, p + 4))"

definition putmem :: "string \<Rightarrow> nat \<Rightarrow> string \<Rightarrow> nat \<Rightarrow> (string \<times> nat) option" where
  "putmem mem p m l =
    (case putword mem p l of
       None \<Rightarrow> None
     | Some (mem1, p1) \<Rightarrow>
         (case mem_put mem1 p1 (take l m) of None \<Rightarrow> None | Some mem2 \<Rightarrow> Some (mem2, p1 + ALIGNLEN l)))"

text \<open>
  The common part of \<open>ems_pack_req\<close> and \<open>ems_pack_rsp\<close>: a header of \<open>hdr\<close> bytes is reserved, the
  content is put after it, the write pointer is moved behind (its status ignored), and the header
  is stored as a list of words at the old write pointer, in the order of the code.
\<close>

definition pack_msg ::
  "bool \<Rightarrow> (nat \<Rightarrow> char) \<Rightarrow> nat \<Rightarrow> (nat \<Rightarrow> nat list) \<Rightarrow> string option \<Rightarrow> nat \<Rightarrow> char ems_buffer \<Rightarrow>
    (int \<times> char ems_buffer) option" where
  "pack_msg alloc garbage hdr words ctx len buf =
    (case (if int (len + hdr) > buf_left buf then ems_buffer_increase alloc garbage buf (len + hdr)
           else (EMS_OK, buf)) of
       (ret, b) \<Rightarrow>
         (if ret = EMS_ERR then Some (EMS_ERR, b)
          else (let wr = bwr b; p = wr + hdr
                in case (case ctx of None \<Rightarrow> Some (bmem b, p) | Some c \<Rightarrow> putmem (bmem b) p c len) of
                     None \<Rightarrow> None
                   | Some (mem, p') \<Rightarrow>
                       (let total = p' - wr;
                            b1 = snd (ems_buffer_seek_wr (b\<lparr>bmem := mem\<rparr>) (int total) 2)
                        in case mem_put (bmem b1) wr (concat (map be32 (words total))) of
                             None \<Rightarrow> None
                           | Some mem' \<Rightarrow> Some (EMS_OK, b1\<lparr>bmem := mem'\<rparr>)))))"

definition ems_pack_req ::
  "bool \<Rightarrow> (nat \<Rightarrow> char) \<Rightarrow> nat \<Rightarrow> string option \<Rightarrow> nat \<Rightarrow> char ems_buffer \<Rightarrow> (int \<times> char ems_buffer) option" where
  "ems_pack_req alloc garbage tag ctx len buf =
    pack_msg alloc garbage 8 (\<lambda>total. [tag, total]) ctx len buf"

text \<open>The tag of a response has its top bit set.\<close>

definition ems_pack_rsp ::
  "bool \<Rightarrow> (nat \<Rightarrow> char) \<Rightarrow> nat \<Rightarrow> nat \<Rightarrow> string option \<Rightarrow> nat \<Rightarrow> char ems_buffer \<Rightarrow> (int \<times> char ems_buffer) option" where
  "ems_pack_rsp alloc garbage tag st ctx len buf =
    pack_msg alloc garbage 12 (\<lambda>total. [tag OR 2 ^ 31, total, st]) ctx len buf"

definition getword :: "string \<Rightarrow> nat \<times> string" where
  "getword s = (get32 s, drop 4 s)"

definition getmem :: "string \<Rightarrow> string \<times> string" where
  "getmem s = (case getword s of (l, s1) \<Rightarrow> (take l s1, drop (ALIGNLEN l) s1))"

subsection \<open>Facts about the transfer loops\<close>

text \<open>What \<open>send\<close> promises: it never takes more than it is offered.\<close>

fun sends_ok :: "(int \<times> int) list \<Rightarrow> int \<Rightarrow> bool" where
  "sends_ok [] left = True"
| "sends_ok ((ret, err) # rs) left = (ret \<le> left \<and> (0 < ret \<longrightarrow> sends_ok rs (left - ret)))"

fun recvs_ok :: "recv_res list \<Rightarrow> nat \<Rightarrow> bool" where
  "recvs_ok [] left = True"
| "recvs_ok (Got s # rs) left = (s \<noteq> [] \<and> length s \<le> left \<and> recvs_ok rs (left - length s))"
| "recvs_ok (r # rs) left = True"

lemma send_loop_range:
  "sends_ok rs left \<Longrightarrow> 0 \<le> left \<Longrightarrow> send_loop rs k left = Some r \<Longrightarrow>
    (case r of Sent n \<Rightarrow> n = k + left | Again n \<Rightarrow> k \<le> n \<and> n < k + left | Failed \<Rightarrow> True)"
proof (induction rs arbitrary: k left)
  case Nil
  then show ?case by (auto simp: send_loop.simps split: if_splits)
next
  case (Cons x rs)
  obtain ret err where x: "x = (ret, err)" by fastforce
  show ?case
  proof (cases "0 < left \<and> 0 < ret")
    case True
    then have "send_loop rs (k + ret) (left - ret) = Some r" "sends_ok rs (left - ret)" "ret \<le> left"
      using Cons.prems x by (simp_all add: send_loop.simps [of "(ret, err) # rs"])
    from Cons.IH [OF this(2) _ this(1)] this(3) True show ?thesis by (auto split: send_res.splits)
  next
    case False
    then show ?thesis
      using Cons.prems x by (auto simp: send_loop.simps [of "(ret, err) # rs"] split: if_splits)
  qed
qed

lemma recv_loop_range:
  "recvs_ok rs left \<Longrightarrow> recv_loop rs left acc = Some (e, got) \<Longrightarrow>
    length got \<le> length acc + left \<and> prefix acc got \<and> (e = Full \<longrightarrow> length got = length acc + left)"
proof (induction rs arbitrary: left acc)
  case Nil
  then show ?case by (auto simp: recv_loop.simps split: if_splits)
next
  case (Cons x rs)
  show ?case
  proof (cases "\<exists>s. x = Got s \<and> 0 < left")
    case True
    then obtain s where s: "x = Got s" "0 < left" by blast
    then have "recv_loop rs (left - length s) (acc @ s) = Some (e, got)" "recvs_ok rs (left - length s)" "length s \<le> left"
      using Cons.prems by (simp_all add: recv_loop.simps [of "Got s # rs"])
    from Cons.IH [OF this(2,1)] this(3) show ?thesis by (auto dest: append_prefixD)
  next
    case False
    then show ?thesis
      using Cons.prems by (cases x) (auto simp: recv_loop.simps [of "_ # rs"] split: if_splits)
  qed
qed

lemma sock_send_ok:
  assumes "buf_ok buf" and "0 < s_fd sock" and "sends_ok rs (buf_len buf)"
    and "ems_sock_send rs sock buf = Some (ret, sock', buf', taken)"
  shows "buf_ok buf' \<and> taken @ contents buf' = contents buf
    \<and> (ret \<ge> 0 \<longrightarrow> ret = int (length (contents buf)) \<and> contents buf' = [] \<and> sock' = sock)
    \<and> (ret = - EAGAIN \<longrightarrow> contents buf' \<noteq> [] \<and> sock' = sock)
    \<and> (ret < 0 \<longrightarrow> ret = - EAGAIN \<or> (ret = EMS_ERR \<and> buf' = buf \<and> s_fd sock' = 0))"
proof -
  let ?n = "length (contents buf)"
  have len: "buf_len buf = int ?n" using assms(1) by (simp add: buffer_simps)
  obtain r where r: "send_loop rs 0 (int ?n) = Some r"
    using assms(2,4) len by (auto simp: ems_sock_send_def split: option.splits if_splits)
  have range: "case r of Sent n \<Rightarrow> n = int ?n | Again n \<Rightarrow> 0 \<le> n \<and> n < int ?n | Failed \<Rightarrow> True"
    using send_loop_range [OF _ _ r] assms(3) len by (simp split: send_res.splits)
  have drain: "buf_ok (snd (ems_buffer_seek_rd buf k 2)) \<and> contents (snd (ems_buffer_seek_rd buf k 2)) = drop (nat k) (contents buf)"
    if "0 \<le> k" "k \<le> int ?n" for k
    using seek_rd_cur [OF assms(1), of "nat k"] drain_ok [OF assms(1), of "nat k"] that by simp
  show ?thesis
  proof (cases r)
    case (Sent k)
    then have k: "k = int ?n" using range by simp
    then have "ret = k" "sock' = sock" "buf' = snd (ems_buffer_seek_rd buf k 2)" "taken = take (nat k) (contents buf)"
      using assms(2,4) r Sent len by (auto simp: ems_sock_send_def)
    then show ?thesis using drain [of k] k by simp
  next
    case (Again k)
    then have k: "0 \<le> k" "k < int ?n" using range by simp_all
    then have "ret = - EAGAIN" "sock' = sock" "buf' = snd (ems_buffer_seek_rd buf k 2)" "taken = take (nat k) (contents buf)"
      using assms(2,4) r Again len by (auto simp: ems_sock_send_def)
    then show ?thesis using drain [of k] k by auto
  next
    case Failed
    then show ?thesis using assms(1,2,4) r len by (auto simp: ems_sock_send_def ems_sock_close_def)
  qed
qed

lemma commit_write:
  assumes "buf_ok b" and "length xs \<le> room b"
  defines "b1 \<equiv> b\<lparr>bmem := mem_write (bmem b) (bwr b) xs\<rparr>"
  shows "snd (ems_buffer_seek_wr b1 (int (length xs)) 2) = b1\<lparr>bwr := bwr b + length xs\<rparr>"
    and "buf_ok b1" and "contents b1 = contents b"
proof -
  have le: "brd b \<le> bwr b" "bwr b + length xs \<le> length (bmem b)" using assms(1,2) by (auto simp: buf_ok_def room_def)
  then show ok: "buf_ok b1" by (simp add: buf_ok_def b1_def)
  have "length xs \<le> room b1" using le by (simp add: room_def b1_def)
  from seek_wr_cur [OF ok this] show "snd (ems_buffer_seek_wr b1 (int (length xs)) 2) = b1\<lparr>bwr := bwr b + length xs\<rparr>"
    by (simp add: b1_def)
  have "drop (brd b) (take (bwr b) (mem_write (bmem b) (bwr b) xs)) = drop (brd b) (take (bwr b) (bmem b))"
    using le by simp
  then show "contents b1 = contents b" using le by (simp add: b1_def contents_def take_drop)
qed

lemma sock_read_ok:
  assumes "buf_ok buf" and "0 < s_fd sock" and "recvs_ok rs (room buf)"
    and "ems_sock_read rs sock buf = Some (ret, sock', buf')"
  shows "buf_ok buf' \<and> (\<exists>got. contents buf' = contents buf @ got \<and> length got \<le> room buf
    \<and> (0 < ret \<longrightarrow> ret = int (length got) \<and> room buf' = 0)
    \<and> (ret = -1 \<longrightarrow> s_fd sock' = 0 \<and> got = []) \<and> (ret \<noteq> -1 \<longrightarrow> sock' = sock))"
proof -
  have left: "nat (buf_left buf) = room buf" using assms(1) by (simp add: buffer_simps)
  obtain e got where r: "recv_loop rs (room buf) [] = Some (e, got)"
    using assms(2,4) left by (auto simp: ems_sock_read_def split: option.splits)
  from recv_loop_range [OF assms(3) r] have g: "length got \<le> room buf" "e = Full \<Longrightarrow> length got = room buf" by auto
  let ?b1 = "buf\<lparr>bmem := mem_write (bmem buf) (bwr buf) got\<rparr>"
  let ?b2 = "?b1\<lparr>bwr := bwr buf + length got\<rparr>"
  note c = commit_write [OF assms(1) g(1)]
  have a: "buf_ok ?b2" "contents ?b2 = contents buf @ got" "room ?b2 = room buf - length got"
    using append_ok [OF assms(1) g(1)] by simp_all
  have res: "(ret, sock', buf') = (case e of Eof \<Rightarrow> (0, sock, ?b2) | RAgain \<Rightarrow> (- EAGAIN, sock, ?b2)
      | RErr \<Rightarrow> (-1, snd (ems_sock_close sock), ?b1) | Full \<Rightarrow> (int (length got), sock, ?b2))"
    using assms(2,4) r left c(1) by (simp add: ems_sock_read_def Let_def split: recv_end.splits)
  show ?thesis
  proof (cases e)
    case RErr
    then show ?thesis using res c assms(2) by (intro conjI exI [of _ "[]"]) (auto simp: ems_sock_close_def)
  qed (use res a g in auto)
qed

subsection \<open>Facts about packing\<close>

lemma length_be32 [simp]: "length (be32 n) = 4"
  by (simp add: be32_def)

lemma get32_be32: "n < 2 ^ 32 \<Longrightarrow> get32 (be32 n @ s) = n"
proof -
  assume n: "n < 2 ^ 32"
  have u: "uchr (char_of k) = k mod 256" for k :: nat by (simp add: uchr_def)
  have "n div 16777216 < 256" using n by simp
  then have "get32 (be32 n @ s) = n div 16777216 * 16777216 + n div 65536 mod 256 * 65536 + n div 256 mod 256 * 256 + n mod 256"
    by (simp add: get32_def be32_def u)
  also have "\<dots> = n"
  proof -
    define a b c where abc: "a = n div 256" "b = a div 256" "c = b div 256"
    have "n div 65536 = b" "n div 16777216 = c" by (simp_all add: abc div_mult2_eq [symmetric])
    moreover have "n = a * 256 + n mod 256" "a = b * 256 + a mod 256" "b = c * 256 + b mod 256"
      unfolding abc by (simp_all only: div_mult_mod_eq)
    ultimately show ?thesis unfolding abc(1) [symmetric] by simp
  qed
  finally show ?thesis .
qed

lemma ALIGNLEN_bounds: "l \<le> ALIGNLEN l" "ALIGNLEN l < l + 4" "ALIGNLEN l mod 4 = 0"
  by (simp_all add: ALIGNLEN_def) presburger+

lemma mem_put_Some: "off + length s \<le> length mem \<Longrightarrow> mem_put mem off s = Some (mem_write mem off s)"
  by (simp add: mem_put_def)

text \<open>What \<open>putmem\<close> leaves behind the prefix it starts at.\<close>

lemma putmem_eq:
  assumes "p + 4 + max 4 (ALIGNLEN (length c)) \<le> length mem"
  obtains mem' pad where "putmem mem p c (length c) = Some (mem', p + 4 + ALIGNLEN (length c))"
    and "length mem' = length mem" and "length pad = ALIGNLEN (length c) - length c"
    and "take (p + 4 + ALIGNLEN (length c)) mem' = take p mem @ be32 (length c) @ c @ pad"
proof -
  let ?l = "length c" and ?z = "replicate 4 (char_of (0 :: nat))"
  let ?m1 = "mem_write mem p (be32 ?l @ ?z)"
  let ?m2 = "mem_write ?m1 (p + 4) c"
  have b: "p + 8 \<le> length mem" "p + 4 + ALIGNLEN ?l \<le> length mem" using assms by auto
  then have l1: "length ?m1 = length mem" by simp
  have c: "p + 4 + length c \<le> length ?m1" using b ALIGNLEN_bounds(1) [of ?l] l1 by simp
  then have l2: "length ?m2 = length mem" using l1 by simp
  have put: "putmem mem p c ?l = Some (?m2, p + 4 + ALIGNLEN ?l)"
    using b c by (simp add: putmem_def putword_def mem_put_Some)
  have "take (p + 4) ?m1 = take p mem @ be32 ?l" using b by (simp add: mem_write_def min_def)
  then have "take (p + 4 + ?l) ?m2 = take p mem @ be32 ?l @ c"
    using c by (simp add: take_mem_write_extend)
  moreover have "take (p + 4 + ALIGNLEN ?l) ?m2 = take (p + 4 + ?l) ?m2 @ take (ALIGNLEN ?l - ?l) (drop (p + 4 + ?l) ?m2)"
  proof -
    have "p + 4 + ?l + (ALIGNLEN ?l - ?l) = p + 4 + ALIGNLEN ?l" using ALIGNLEN_bounds(1) [of ?l] by simp
    then show ?thesis using take_add [of "p + 4 + ?l" "ALIGNLEN ?l - ?l" ?m2] by (simp only:)
  qed
  ultimately have "take (p + 4 + ALIGNLEN ?l) ?m2
      = take p mem @ be32 ?l @ c @ take (ALIGNLEN ?l - ?l) (drop (p + 4 + ?l) ?m2)" by simp
  moreover have "length (take (ALIGNLEN ?l - ?l) (drop (p + 4 + ?l) ?m2)) = ALIGNLEN ?l - ?l"
    using b l2 ALIGNLEN_bounds(1) [of ?l] by simp
  ultimately show thesis using that put l2 by blast
qed

lemma length_concat_be32: "length (concat (map be32 ws)) = 4 * length ws"
  by (induction ws) auto

lemma pack_msg_spec:
  assumes "buf_ok b" and "hdr + 4 + max 4 (ALIGNLEN (length c)) \<le> room b"
    and "\<And>t. 4 * length (words t) = hdr"
  obtains b' pad where "pack_msg alloc g hdr words (Some c) (length c) b = Some (EMS_OK, b')"
    and "buf_ok b'" and "length pad = ALIGNLEN (length c) - length c"
    and "contents b' = contents b @ concat (map be32 (words (hdr + 4 + ALIGNLEN (length c)))) @ be32 (length c) @ c @ pad"
proof -
  let ?l = "length c" and ?wr = "bwr b" and ?A = "ALIGNLEN (length c)"
  let ?total = "hdr + 4 + ?A"
  let ?W = "concat (map be32 (words ?total))"
  have W: "length ?W = hdr" using assms(3) by (simp add: length_concat_be32)
  have le: "brd b \<le> ?wr" "?wr + ?total \<le> length (bmem b)" "?wr + hdr + 4 + max 4 ?A \<le> length (bmem b)"
    using assms(1,2) by (auto simp: buf_ok_def room_def)
  have noinc: "\<not> int (?l + hdr) > buf_left b"
    using assms(1,2) ALIGNLEN_bounds(1) [of ?l] by (simp add: buffer_simps)
  obtain mem pad where m: "putmem (bmem b) (?wr + hdr) c ?l = Some (mem, ?wr + hdr + 4 + ?A)"
    "length mem = length (bmem b)" "length pad = ?A - ?l"
    "take (?wr + hdr + 4 + ?A) mem = take (?wr + hdr) (bmem b) @ be32 ?l @ c @ pad"
    using putmem_eq [OF le(3)] by metis
  let ?b0 = "b\<lparr>bmem := mem\<rparr>"
  have ok0: "buf_ok ?b0" using le m(2) by (simp add: buf_ok_def)
  have "?total \<le> room ?b0" using le m(2) by (simp add: room_def)
  from seek_wr_cur [OF ok0 this] have seek: "snd (ems_buffer_seek_wr ?b0 (int ?total) 2) = ?b0\<lparr>bwr := ?wr + ?total\<rparr>" by simp
  let ?mem2 = "mem_write mem ?wr ?W"
  let ?b' = "\<lparr>bmem = ?mem2, brd = brd b, bwr = ?wr + ?total\<rparr>"
  have "mem_put mem ?wr ?W = Some ?mem2" using le(2) m(2) W by (simp add: mem_put_Some)
  then have "pack_msg alloc g hdr words (Some c) ?l b = Some (EMS_OK, ?b')"
    using noinc m(1) seek unfolding pack_msg_def Let_def by (simp add: add.assoc)
  moreover have "buf_ok ?b'" using le m(2) W by (simp add: buf_ok_def)
  moreover have "contents ?b' = contents b @ ?W @ be32 ?l @ c @ pad"
  proof -
    have wr: "take ?wr mem = take ?wr (bmem b)"
      using arg_cong [OF m(4), of "take ?wr"] le(2) by (simp add: min_def)
    have "take (4 + ?A) (drop (?wr + hdr) mem) = drop (?wr + hdr) (take (?wr + hdr + 4 + ?A) mem)"
      by (simp add: drop_take add.commute add.left_commute)
    also have "\<dots> = be32 ?l @ c @ pad" using m(4) le(2) by simp
    finally have tail: "take (4 + ?A) (drop (?wr + hdr) mem) = be32 ?l @ c @ pad" .
    have "take (?wr + ?total) ?mem2 = take ?wr (bmem b) @ ?W @ be32 ?l @ c @ pad"
      using le(2) m(2) W wr tail by (simp add: mem_write_def min_def)
    then show ?thesis using le by (simp add: contents_def take_drop)
  qed
  ultimately show thesis using that m(3) by blast
qed

subsection \<open>Properties\<close>

definition sock_ex :: ems_sock where
  "sock_ex = \<lparr>s_addr = str_init, s_port = 80, s_fd = 3\<rparr>"



text \<open>
  Receiving appends what arrives after the unread bytes, never beyond the memory of the
  buffer; a positive result says that the buffer was filled and by how much. On a failure the
  socket is closed and the bytes received in the same call are not kept.
\<close>

theorem sock_read_appends:
  assumes "buf_ok buf" and "0 < s_fd sock" and "recvs_ok rs (room buf)"
    and "ems_sock_read rs sock buf = Some (ret, sock', buf')"
  shows "buf_ok buf' \<and> (\<exists>got. contents buf' = contents buf @ got \<and> length got \<le> room buf
    \<and> (0 < ret \<longrightarrow> ret = int (length got) \<and> room buf' = 0)
    \<and> (ret = -1 \<longrightarrow> s_fd sock' = 0 \<and> got = []) \<and> (ret \<noteq> -1 \<longrightarrow> sock' = sock))"
  by (rule sock_read_ok [OF assms])

theorem sock_read_appends_witness:
  "\<exists>buf'. ems_sock_read [Got ''x'', Got ''yz''] sock_ex buf_abc = Some (3, sock_ex, buf') \<and> room buf' = 0"
proof -
  have e: "\<exists>buf'. ems_sock_read [Got ''x'', Got ''yz''] sock_ex buf_abc = Some (3, sock_ex, buf')"
    by (simp add: ems_sock_read_def sock_ex_def buf_abc_def recv_loop.simps buf_left_def)
  then obtain buf' where b: "ems_sock_read [Got ''x'', Got ''yz''] sock_ex buf_abc = Some (3, sock_ex, buf')" by blast
  have "recvs_ok [Got ''x'', Got ''yz''] (room buf_abc)" by (simp add: buf_abc(3))
  from sock_read_appends [OF buf_abc(1) _ this b] show ?thesis using b by (auto simp: sock_ex_def)
qed

text \<open>
  When the buffer has room for the header, the length word and the padded content (and the
  eight bytes \<open>putword\<close> stores), packing a request appends exactly one message, whose header has the
  tag and the length of the whole message, and from which \<open>getmem\<close> reads the content back.
\<close>

theorem pack_req_roundtrip:
  assumes "buf_ok b" and "12 + max 4 (ALIGNLEN (length c)) \<le> room b" and "length c < 2 ^ 30" and "tag < 2 ^ 32"
  shows "\<exists>b' msg. ems_pack_req alloc g tag (Some c) (length c) b = Some (EMS_OK, b') \<and> buf_ok b'
    \<and> contents b' = contents b @ msg \<and> length msg = 12 + ALIGNLEN (length c)
    \<and> get32 msg = tag \<and> get32 (drop 4 msg) = length msg \<and> getmem (drop 8 msg) = (c, [])"
proof -
  obtain b' pad where p: "pack_msg alloc g 8 (\<lambda>t. [tag, t]) (Some c) (length c) b = Some (EMS_OK, b')" "buf_ok b'"
    "length pad = ALIGNLEN (length c) - length c"
    "contents b' = contents b @ concat (map be32 [tag, 8 + 4 + ALIGNLEN (length c)]) @ be32 (length c) @ c @ pad"
    using assms(2) by (elim pack_msg_spec [OF assms(1), of 8 c "\<lambda>t. [tag, t]" alloc g, rotated 2]) auto
  let ?A = "ALIGNLEN (length c)"
  let ?msg = "be32 tag @ be32 (12 + ?A) @ be32 (length c) @ c @ pad"
  have A: "length c \<le> ?A" "?A < length c + 4" by (rule ALIGNLEN_bounds)+
  have lp: "length c + length pad = ?A" using p(3) A by simp
  have "get32 ?msg = tag" using assms(4) by (rule get32_be32)
  moreover have "get32 (drop 4 ?msg) = length ?msg"
    using A assms(3) lp get32_be32 [of "12 + ?A" "be32 (length c) @ c @ pad"] by simp
  moreover have "getmem (drop 8 ?msg) = (c, [])"
    using assms(3) lp get32_be32 [of "length c" "c @ pad"] by (simp add: getmem_def getword_def)
  moreover have "length ?msg = 12 + ?A" using lp by simp
  moreover have "contents b' = contents b @ ?msg" using p(4) by simp
  ultimately show ?thesis using p(1,2) unfolding ems_pack_req_def by blast
qed

definition buf_32 :: "char ems_buffer" where
  "buf_32 = \<lparr>bmem = replicate 32 (CHR ''?''), brd = 0, bwr = 0\<rparr>"

lemma buf_32: "buf_ok buf_32" "room buf_32 = 32"
  by (simp_all add: buf_32_def buf_ok_def room_def)

theorem pack_req_roundtrip_witness:
  "\<exists>b' msg. ems_pack_req True (\<lambda>_. CHR ''?'') 7 (Some ''hello'') 5 buf_32 = Some (EMS_OK, b')
    \<and> contents b' = contents buf_32 @ msg \<and> getmem (drop 8 msg) = (''hello'', [])"
proof -
  have "length ''hello'' = 5" "ALIGNLEN 5 = 8" by (simp_all add: ALIGNLEN_def)
  then show ?thesis
    using pack_req_roundtrip [of buf_32 "''hello''" 7 True "\<lambda>_. CHR ''?''"] buf_32
    by (simp only:) (simp, blast)
qed

text \<open>
  The room that is reserved forgets the length word: when the buffer has room for the
  header and the content but not for four bytes more, it is not grown and the content is written
  past the end of its memory.
\<close>

theorem pack_req_overruns:
  assumes "buf_ok b" and "length c + 8 \<le> room b" and "room b < length c + 12"
  shows "ems_pack_req alloc g tag (Some c) (length c) b = None"
proof -
  have noinc: "\<not> int (length c + 8) > buf_left b" using assms(1,2) by (simp add: buffer_simps)
  have len: "length (bmem b) = bwr b + room b" using assms(1) by (simp add: buf_ok_def room_def)
  have "putmem (bmem b) (bwr b + 8) c (length c) = None"
  proof (cases "putword (bmem b) (bwr b + 8) (length c)")
    case (Some x)
    obtain m p where x: "x = (m, p)" by fastforce
    then have "p = bwr b + 12" "length m = length (bmem b)"
      using Some by (auto simp: putword_def mem_put_def split: if_splits)
    then show ?thesis using Some x assms(3) len by (simp add: putmem_def mem_put_def)
  qed (simp add: putmem_def)
  then show ?thesis using noinc unfolding ems_pack_req_def pack_msg_def by simp
qed

theorem pack_req_overruns_witness:
  "ems_pack_req True (\<lambda>_. CHR ''?'') 7 (Some (replicate 24 (CHR ''x''))) 24 buf_32 = None"
  using pack_req_overruns [of buf_32 "replicate 24 (CHR ''x'')" True "\<lambda>_. CHR ''?''" 7] buf_32 by simp

end
