(* ===== verification/Ems_Md5.thy ===== *)
theory Ems_Md5
  imports Ems_Prelude
begin

text \<open>
  MD5 as in \<^verbatim>\<open>c/ems/src/utils/ems_md5.c\<close>: the block function, the context with its buffer of
  128 bytes that lets a message arrive in pieces, and the finalisation. Bytes are \<open>8 word\<close>s, the
  machine is little endian (\<open>SWAP\<close> is the identity). Theorems: whatever the pieces, their alignment
  and the garbage in the fresh buffer, the digest is the MD5 of RFC 1321 of the whole message.
\<close>

type_synonym byte = "8 word"
type_synonym md5_state = "32 word \<times> 32 word \<times> 32 word \<times> 32 word"
type_synonym md5_step = "(32 word \<Rightarrow> 32 word \<Rightarrow> 32 word \<Rightarrow> 32 word) \<times> nat \<times> nat \<times> 32 word"

subsection \<open>The block function\<close>

definition FF :: "32 word \<Rightarrow> 32 word \<Rightarrow> 32 word \<Rightarrow> 32 word" where
  "FF b c d = d XOR (b AND (c XOR d))"

definition FG :: "32 word \<Rightarrow> 32 word \<Rightarrow> 32 word \<Rightarrow> 32 word" where
  "FG b c d = FF d b c"

definition FH :: "32 word \<Rightarrow> 32 word \<Rightarrow> 32 word \<Rightarrow> 32 word" where
  "FH b c d = b XOR c XOR d"

definition FI :: "32 word \<Rightarrow> 32 word \<Rightarrow> 32 word \<Rightarrow> 32 word" where
  "FI b c d = c XOR (b OR NOT d)"

definition CYCLIC :: "32 word \<Rightarrow> nat \<Rightarrow> 32 word" where
  "CYCLIC w s = push_bit s w OR drop_bit (32 - s) w"

text \<open>
  A step of a round: its function, the index of its word, its rotation and its constant. The
  steps of the code permute the names of the four variables; here the variables move.
\<close>

definition OP :: "32 word list \<Rightarrow> md5_step \<Rightarrow> md5_state \<Rightarrow> md5_state" where
  "OP w st abcd =
    (case st of (f, k, s, t) \<Rightarrow> (case abcd of (a, b, c, d) \<Rightarrow>
       (d, CYCLIC (a + f b c d + w ! k + t) s + b, b, c)))"

definition round1 :: "md5_step list" where
  "round1 = [
    (FF, 0, 7, 0xd76aa478), (FF, 1, 12, 0xe8c7b756), (FF, 2, 17, 0x242070db), (FF, 3, 22, 0xc1bdceee),
    (FF, 4, 7, 0xf57c0faf), (FF, 5, 12, 0x4787c62a), (FF, 6, 17, 0xa8304613), (FF, 7, 22, 0xfd469501),
    (FF, 8, 7, 0x698098d8), (FF, 9, 12, 0x8b44f7af), (FF, 10, 17, 0xffff5bb1), (FF, 11, 22, 0x895cd7be),
    (FF, 12, 7, 0x6b901122), (FF, 13, 12, 0xfd987193), (FF, 14, 17, 0xa679438e), (FF, 15, 22, 0x49b40821)]"

definition round2 :: "md5_step list" where
  "round2 = [
    (FG, 1, 5, 0xf61e2562), (FG, 6, 9, 0xc040b340), (FG, 11, 14, 0x265e5a51), (FG, 0, 20, 0xe9b6c7aa),
    (FG, 5, 5, 0xd62f105d), (FG, 10, 9, 0x02441453), (FG, 15, 14, 0xd8a1e681), (FG, 4, 20, 0xe7d3fbc8),
    (FG, 9, 5, 0x21e1cde6), (FG, 14, 9, 0xc33707d6), (FG, 3, 14, 0xf4d50d87), (FG, 8, 20, 0x455a14ed),
    (FG, 13, 5, 0xa9e3e905), (FG, 2, 9, 0xfcefa3f8), (FG, 7, 14, 0x676f02d9), (FG, 12, 20, 0x8d2a4c8a)]"

definition round3 :: "md5_step list" where
  "round3 = [
    (FH, 5, 4, 0xfffa3942), (FH, 8, 11, 0x8771f681), (FH, 11, 16, 0x6d9d6122), (FH, 14, 23, 0xfde5380c),
    (FH, 1, 4, 0xa4beea44), (FH, 4, 11, 0x4bdecfa9), (FH, 7, 16, 0xf6bb4b60), (FH, 10, 23, 0xbebfbc70),
    (FH, 13, 4, 0x289b7ec6), (FH, 0, 11, 0xeaa127fa), (FH, 3, 16, 0xd4ef3085), (FH, 6, 23, 0x04881d05),
    (FH, 9, 4, 0xd9d4d039), (FH, 12, 11, 0xe6db99e5), (FH, 15, 16, 0x1fa27cf8), (FH, 2, 23, 0xc4ac5665)]"

definition round4 :: "md5_step list" where
  "round4 = [
    (FI, 0, 6, 0xf4292244), (FI, 7, 10, 0x432aff97), (FI, 14, 15, 0xab9423a7), (FI, 5, 21, 0xfc93a039),
    (FI, 12, 6, 0x655b59c3), (FI, 3, 10, 0x8f0ccc92), (FI, 10, 15, 0xffeff47d), (FI, 1, 21, 0x85845dd1),
    (FI, 8, 6, 0x6fa87e4f), (FI, 15, 10, 0xfe2ce6e0), (FI, 6, 15, 0xa3014314), (FI, 13, 21, 0x4e0811a1),
    (FI, 4, 6, 0xf7537e82), (FI, 11, 10, 0xbd3af235), (FI, 2, 15, 0x2ad7d2bb), (FI, 9, 21, 0xeb86d391)]"

definition le_word :: "byte list \<Rightarrow> 32 word" where
  "le_word bs = ucast (bs ! 0) OR push_bit 8 (ucast (bs ! 1)) OR push_bit 16 (ucast (bs ! 2)) OR push_bit 24 (ucast (bs ! 3))"

definition le_bytes :: "32 word \<Rightarrow> byte list" where
  "le_bytes w = [ucast w, ucast (drop_bit 8 w), ucast (drop_bit 16 w), ucast (drop_bit 24 w)]"

definition block_words :: "byte list \<Rightarrow> 32 word list" where
  "block_words bs = map (\<lambda>i. le_word (drop (4 * i) bs)) [0..<16]"

definition md5_block :: "md5_state \<Rightarrow> byte list \<Rightarrow> md5_state" where
  "md5_block st bs =
    (let w = block_words bs in
     case fold (OP w) (round1 @ round2 @ round3 @ round4) st of (a, b, c, d) \<Rightarrow>
       (case st of (a0, b0, c0, d0) \<Rightarrow> (a + a0, b + b0, c + c0, d + d0)))"

text \<open>The loop over the complete blocks of a sequence of bytes.\<close>

function md5_blocks :: "md5_state \<Rightarrow> byte list \<Rightarrow> md5_state" where
  "md5_blocks st bs = (if length bs < 64 then st else md5_blocks (md5_block st (take 64 bs)) (drop 64 bs))"
  by auto
termination by (relation "measure (\<lambda>(st, bs). length bs)") auto

declare md5_blocks.simps [simp del]

subsection \<open>The context\<close>

record md5_ctx =
  abcd :: md5_state
  total0 :: "32 word"
  total1 :: "32 word"
  buflen :: nat
  buffer :: "byte list"

text \<open>\<open>md5_init_ctx\<close> does not touch the buffer.\<close>

definition md5_init :: md5_state where
  "md5_init = (0x67452301, 0xefcdab89, 0x98badcfe, 0x10325476)"

definition md5_init_ctx :: "byte list \<Rightarrow> md5_ctx" where
  "md5_init_ctx garbage = \<lparr>abcd = md5_init, total0 = 0, total1 = 0, buflen = 0, buffer = garbage\<rparr>"

definition md5_process_block :: "byte list \<Rightarrow> nat \<Rightarrow> md5_ctx \<Rightarrow> md5_ctx" where
  "md5_process_block bs len ctx =
    (let lolen = word_of_nat len;
         t0 = total0 ctx + lolen;
         t1 = total1 ctx + (word_of_nat (len div 2 ^ 32) + (if t0 < lolen then 1 else 0))
     in ctx\<lparr>total0 := t0, total1 := t1, abcd := md5_blocks (abcd ctx) (take len bs)\<rparr>)"

definition md5_read_ctx :: "md5_ctx \<Rightarrow> byte list" where
  "md5_read_ctx ctx = (case abcd ctx of (a, b, c, d) \<Rightarrow> le_bytes a @ le_bytes b @ le_bytes c @ le_bytes d)"

definition fillbuf :: "byte list" where
  "fillbuf = 0x80 # replicate 63 0"

definition md5_finish_ctx :: "md5_ctx \<Rightarrow> byte list" where
  "md5_finish_ctx ctx =
    (let bytes = buflen ctx;
         size = (if bytes < 56 then 16 else 32);
         t0 = total0 ctx + word_of_nat bytes;
         t1 = (if t0 < word_of_nat bytes then total1 ctx + 1 else total1 ctx);
         b1 = mem_write (buffer ctx) ((size - 2) * 4) (le_bytes (push_bit 3 t0));
         b2 = mem_write b1 ((size - 1) * 4) (le_bytes (push_bit 3 t1 OR drop_bit 29 t0));
         b3 = mem_write b2 bytes (take ((size - 2) * 4 - bytes) fillbuf);
         ctx1 = ctx\<lparr>total0 := t0, total1 := t1, buffer := b3\<rparr>
     in md5_read_ctx (md5_process_block b3 (size * 4) ctx1))"

text \<open>The first part of \<open>md5_process_bytes\<close>: the bytes are added to those left in the buffer.\<close>

definition md5_fill :: "byte list \<Rightarrow> md5_ctx \<Rightarrow> md5_ctx \<times> byte list" where
  "md5_fill bs ctx =
    (if buflen ctx \<noteq> 0 then
       (let left_over = buflen ctx;
            add = (if 128 - left_over > length bs then length bs else 128 - left_over);
            b1 = mem_write (buffer ctx) left_over (take add bs);
            n = left_over + add;
            c1 = ctx\<lparr>buffer := b1, buflen := n\<rparr>;
            c2 = (if n > 64 then
                    (let c = md5_process_block b1 (n - n mod 64) c1
                     in c\<lparr>buflen := n mod 64,
                          buffer := mem_write b1 0 (take (n mod 64) (drop (n - n mod 64) b1))\<rparr>)
                  else c1)
        in (c2, drop add bs))
     else (ctx, bs))"

text \<open>The loop for a source that is not aligned: blocks are copied to the buffer one at a time.\<close>

function md5_unaligned :: "byte list \<Rightarrow> md5_ctx \<Rightarrow> md5_ctx \<times> byte list" where
  "md5_unaligned bs ctx =
    (if length bs > 64 then
       (let b = mem_write (buffer ctx) 0 (take 64 bs)
        in md5_unaligned (drop 64 bs) (md5_process_block b 64 (ctx\<lparr>buffer := b\<rparr>)))
     else (ctx, bs))"
  by auto
termination by (relation "measure (\<lambda>(bs, ctx). length bs)") auto

declare md5_unaligned.simps [simp del]

definition md5_direct :: "bool \<Rightarrow> byte list \<Rightarrow> md5_ctx \<Rightarrow> md5_ctx \<times> byte list" where
  "md5_direct unaligned bs ctx =
    (if length bs \<ge> 64 then
       (if unaligned then md5_unaligned bs ctx
        else (let n = length bs - length bs mod 64 in (md5_process_block bs n ctx, drop n bs)))
     else (ctx, bs))"

definition md5_keep :: "byte list \<Rightarrow> md5_ctx \<Rightarrow> md5_ctx" where
  "md5_keep bs ctx =
    (if length bs > 0 then
       (let b1 = mem_write (buffer ctx) (buflen ctx) bs;
            left_over = buflen ctx + length bs;
            c1 = ctx\<lparr>buffer := b1\<rparr>
        in if left_over \<ge> 64 then
             (let c2 = md5_process_block b1 64 c1;
                  lo = left_over - 64
              in c2\<lparr>buffer := mem_write b1 0 (take lo (drop 64 b1)), buflen := lo\<rparr>)
           else c1\<lparr>buflen := left_over\<rparr>)
     else ctx)"

definition md5_process_bytes :: "bool \<Rightarrow> byte list \<Rightarrow> md5_ctx \<Rightarrow> md5_ctx" where
  "md5_process_bytes unaligned bs ctx =
    (case md5_fill bs ctx of (c1, bs1) \<Rightarrow>
       (case md5_direct unaligned bs1 c1 of (c2, bs2) \<Rightarrow> md5_keep bs2 c2))"

definition md5_buffer :: "bool \<Rightarrow> byte list \<Rightarrow> byte list \<Rightarrow> byte list" where
  "md5_buffer unaligned garbage bs =
    md5_finish_ctx (md5_process_bytes unaligned bs (md5_init_ctx garbage))"

text \<open>
  \<open>md5_stream\<close>: the stream yields full buffers of \<open>BLOCKSIZE\<close> = 32768 bytes, each given to the
  block function, and then what is left before the end of the file. The whole contents of the
  file are the argument; a read error is the status 1.
\<close>

function md5_stream_loop :: "byte list \<Rightarrow> md5_ctx \<Rightarrow> md5_ctx" where
  "md5_stream_loop bs ctx =
    (if length bs \<ge> 32768 then md5_stream_loop (drop 32768 bs) (md5_process_block (take 32768 bs) 32768 ctx)
     else if length bs > 0 then md5_process_bytes False bs ctx else ctx)"
  by auto
termination by (relation "measure (\<lambda>(bs, ctx). length bs)") auto

declare md5_stream_loop.simps [simp del]

definition md5_stream :: "bool \<Rightarrow> byte list option \<Rightarrow> byte list \<Rightarrow> int \<times> byte list option" where
  "md5_stream alloc stream garbage =
    (if \<not> alloc then (1, None)
     else (case stream of
             None \<Rightarrow> (1, None)
           | Some bs \<Rightarrow> (0, Some (md5_finish_ctx (md5_stream_loop bs (md5_init_ctx garbage))))))"

subsection \<open>The reference: MD5 of a whole message (RFC 1321)\<close>

definition md5_pad :: "byte list \<Rightarrow> byte list" where
  "md5_pad m = m @ 0x80 # replicate ((119 - length m mod 64) mod 64) 0
    @ le_bytes (word_of_nat (8 * length m)) @ le_bytes (word_of_nat (8 * length m div 2 ^ 32))"

definition md5_ref :: "byte list \<Rightarrow> byte list" where
  "md5_ref m = (case md5_blocks md5_init (md5_pad m) of (a, b, c, d) \<Rightarrow>
     le_bytes a @ le_bytes b @ le_bytes c @ le_bytes d)"

lemma length_le_bytes [simp]: "length (le_bytes w) = 4"
  by (simp add: le_bytes_def)

lemma md5_blocks_append:
  "length p mod 64 = 0 \<Longrightarrow> md5_blocks st (p @ r) = md5_blocks (md5_blocks st p) r"
proof (induction st p rule: md5_blocks.induct)
  case (1 st p)
  show ?case
  proof (cases "length p < 64")
    case True
    with 1 have "p = []" by simp
    then show ?thesis by (simp add: md5_blocks.simps [of st "[]"])
  next
    case False
    have "(length p - 64) mod 64 = 0" using False 1(2) by (metis le_mod_geq not_less)
    then have "md5_blocks (md5_block st (take 64 p)) (drop 64 p @ r)
        = md5_blocks (md5_blocks (md5_block st (take 64 p)) (drop 64 p)) r"
      using 1(1) [OF False] by simp
    then show ?thesis
      using False md5_blocks.simps [of st p] md5_blocks.simps [of st "p @ r"] by simp
  qed
qed

text \<open>The two counters as one number of 64 bits.\<close>

definition W64 :: nat where "W64 = 2 ^ 32 * 2 ^ 32"

definition counted :: "md5_ctx \<Rightarrow> nat" where
  "counted ctx = unat (total0 ctx) + 2 ^ 32 * unat (total1 ctx)"

lemma carry32:
  fixes a b :: "32 word"
  shows "unat (a + b) + (if a + b < b then 2 ^ 32 else 0) = unat a + unat b"
proof -
  have a: "unat a < 2 ^ 32" "unat b < 2 ^ 32" using unsigned_less [of a] unsigned_less [of b] by simp_all
  have s: "unat (a + b) = (unat a + unat b) mod 2 ^ 32" by (simp add: unat_word_ariths)
  show ?thesis
  proof (cases "unat a + unat b < 2 ^ 32")
    case True
    then show ?thesis using s by (simp add: word_less_nat_alt)
  next
    case False
    then have "unat (a + b) = unat a + unat b - 2 ^ 32" using s a by (simp add: mod_if)
    then show ?thesis using False a by (simp add: word_less_nat_alt)
  qed
qed

lemma mod_square: "(a + M * (x mod M)) mod (M * M) = (a + M * x) mod (M * M)" for M :: nat
  by (metis mod_add_right_eq mult_mod_right)

lemma unat_add3: "unat (t + (word_of_nat n + c)) = (unat t + n + unat c) mod 2 ^ 32" for t c :: "32 word"
proof -
  have "unat (t + (word_of_nat n + c)) = unat (word_of_nat (unat t + n + unat c) :: 32 word)"
    by (simp add: add.assoc)
  then show ?thesis by (simp only: unat_of_nat) simp
qed

lemma counted_process_block:
  "counted (md5_process_block bs len ctx) mod W64 = (counted ctx + len) mod W64"
proof -
  define M :: nat where "M = 2 ^ 32"
  define l :: "32 word" where "l = word_of_nat len"
  define c :: "32 word" where "c = (if total0 ctx + l < l then 1 else 0)"
  have l: "unat l = len mod M" by (simp only: l_def M_def unat_of_nat) simp
  have "unat (total0 ctx + l) + M * unat c = unat (total0 ctx) + unat l"
    using carry32 [of "total0 ctx" l] unfolding M_def c_def by (simp split: if_splits)
  then have c0: "unat (total0 ctx + l) + M * unat c = unat (total0 ctx) + len mod M" unfolding l .
  have "counted (md5_process_block bs len ctx)
      = unat (total0 ctx + l) + M * ((unat (total1 ctx) + len div M + unat c) mod M)"
    unfolding counted_def md5_process_block_def Let_def M_def unat_add3 [symmetric] c_def l_def by simp
  then have "counted (md5_process_block bs len ctx) mod (M * M)
      = (unat (total0 ctx + l) + M * (unat (total1 ctx) + len div M + unat c)) mod (M * M)"
    by (simp only: mod_square)
  also have "unat (total0 ctx + l) + M * (unat (total1 ctx) + len div M + unat c)
      = (unat (total0 ctx + l) + M * unat c) + M * unat (total1 ctx) + M * (len div M)"
    by (simp only: distrib_left add_ac)
  also have "\<dots> = counted ctx + len"
  proof -
    have "len mod M + M * (len div M) = len" by simp
    then show ?thesis unfolding c0 counted_def M_def [symmetric] by linarith
  qed
  finally show ?thesis unfolding W64_def M_def .
qed

subsection \<open>The contexts of a message\<close>

text \<open>
  The context after the bytes \<open>m\<close>: complete blocks have gone through the block function and are
  counted, the at most 64 other bytes are in the buffer.
\<close>

definition ctx_at :: "md5_ctx \<Rightarrow> byte list \<Rightarrow> byte list \<Rightarrow> bool" where
  "ctx_at ctx p r \<longleftrightarrow> length p mod 64 = 0 \<and> abcd ctx = md5_blocks md5_init p
    \<and> counted ctx mod W64 = length p mod W64
    \<and> length (buffer ctx) = 128 \<and> buflen ctx = length r \<and> length r \<le> 64 \<and> take (length r) (buffer ctx) = r"

definition ctx_of :: "md5_ctx \<Rightarrow> byte list \<Rightarrow> bool" where
  "ctx_of ctx m \<longleftrightarrow> (\<exists>p r. m = p @ r \<and> ctx_at ctx p r)"

lemma ctx_of_init: "length g = 128 \<Longrightarrow> ctx_of (md5_init_ctx g) []"
  by (simp add: ctx_of_def ctx_at_def md5_init_ctx_def counted_def md5_blocks.simps [of _ "[]"])

lemma process_block_fields [simp]:
  "buflen (md5_process_block bs n ctx) = buflen ctx" "buffer (md5_process_block bs n ctx) = buffer ctx"
  "abcd (md5_process_block bs n ctx) = md5_blocks (abcd ctx) (take n bs)"
  by (simp_all add: md5_process_block_def Let_def)

lemma counted_upd [simp]: "counted (ctx\<lparr>buflen := n\<rparr>) = counted ctx" "counted (ctx\<lparr>buffer := b\<rparr>) = counted ctx"
  by (simp_all add: counted_def)

text \<open>Running complete blocks through the block function, whatever happens to the buffer.\<close>

lemma ctx_at_blocks:
  assumes "ctx_at ctx p r" and "length q mod 64 = 0" and "take n bs = q" and "length q = n"
    and "length b = 128" and "take (length r') b = r'" and "length r' \<le> 64"
  shows "ctx_at ((md5_process_block bs n (ctx\<lparr>buffer := x, buflen := y\<rparr>))\<lparr>buflen := length r', buffer := b\<rparr>) (p @ q) r'"
proof -
  have "(length p + length q) mod 64 = 0" using assms(1,2) unfolding ctx_at_def by (metis dvd_add mod_eq_0_iff_dvd)
  moreover have "counted (md5_process_block bs n (ctx\<lparr>buffer := x, buflen := y\<rparr>)) mod W64
      = (length p + length q) mod W64"
    using assms(1,4) counted_process_block [of bs n "ctx\<lparr>buffer := x, buflen := y\<rparr>"] unfolding ctx_at_def
    by (simp only: counted_upd) (metis mod_add_left_eq)
  ultimately show ?thesis
    using assms by (simp add: ctx_at_def md5_blocks_append)
qed

lemma mem_write_front:
  "length s \<le> length mem \<Longrightarrow> length (mem_write mem 0 s) = length mem \<and> take (length s) (mem_write mem 0 s) = s"
  by (simp add: mem_write_def)

lemma md5_fill_ok:
  assumes "ctx_at ctx p r" and "md5_fill bs ctx = (ctx', bs')"
  obtains p' r' used where "bs = used @ bs'" and "p' @ r' = p @ r @ used" and "ctx_at ctx' p' r'"
    and "bs' = [] \<or> r' = []"
proof (cases "r = []")
  case True
  then have "buflen ctx = 0" using assms(1) by (simp add: ctx_at_def)
  then have "ctx' = ctx" "bs' = bs" using assms(2) by (auto simp: md5_fill_def)
  then show thesis using that [of "[]" p r] assms(1) True by simp
next
  case False
  let ?lo = "length r"
  define add where "add = (if 128 - ?lo > length bs then length bs else 128 - ?lo)"
  define n where "n = ?lo + add"
  define b1 where "b1 = mem_write (buffer ctx) ?lo (take add bs)"
  have r: "buflen ctx = ?lo" "length (buffer ctx) = 128" "?lo \<le> 64" "take ?lo (buffer ctx) = r"
    using assms(1) by (auto simp: ctx_at_def)
  have add: "add \<le> length bs" "?lo + add \<le> 128" using r(3) by (auto simp: add_def)
  have la: "length (take add bs) = add" using add by simp
  have b1: "length b1 = 128" "take n b1 = r @ take add bs"
    using r add la take_mem_write_extend [of ?lo "buffer ctx" "take add bs"] by (simp_all add: b1_def n_def)
  have bs: "bs = take add bs @ drop add bs" by simp
  show thesis
  proof (cases "n > 64")
    case False
    then have "ctx' = ctx\<lparr>buffer := b1, buflen := n\<rparr>" "bs' = drop add bs"
      using assms(2) r(1) \<open>r \<noteq> []\<close> by (auto simp: md5_fill_def Let_def add_def n_def b1_def)
    moreover have "ctx_at (ctx\<lparr>buffer := b1, buflen := n\<rparr>) p (r @ take add bs)"
      using assms(1) b1 la False by (simp add: ctx_at_def n_def)
    moreover have "drop add bs = []" using False r(3) by (auto simp: n_def add_def split: if_splits)
    ultimately show thesis using that [of "take add bs" p "r @ take add bs"] bs by simp
  next
    case True
    define k where "k = n - n mod 64"
    let ?q = "take k b1" and ?r = "drop k (r @ take add bs)"
    have k: "k \<le> n" "k mod 64 = 0" "n - k = n mod 64" "n \<le> 128"
    proof -
      show "k \<le> n" by (simp add: k_def)
      show "k mod 64 = 0" unfolding k_def minus_mod_eq_mult_div by simp
      show "n - k = n mod 64" unfolding k_def by (rule diff_diff_cancel) simp
      show "n \<le> 128" using add(2) by (simp add: n_def)
    qed
    have q: "?q = take k (r @ take add bs)" using b1(2) k(1) by (metis min.absorb1 take_take)
    have lr: "length ?r = n mod 64" using la k(3) by (simp add: n_def)
    have r': "take (n mod 64) (drop k b1) = ?r"
      using b1(2) k(1,3) by (metis drop_take)
    define b2 where "b2 = mem_write b1 0 ?r"
    have "length ?r \<le> length b1" unfolding lr b1(1) using mod_less_divisor [of 64 n] by linarith
    from mem_write_front [OF this] have b2: "length b2 = 128" "take (length ?r) b2 = ?r"
      unfolding b2_def b1(1) by blast+
    have "md5_fill bs ctx = ((md5_process_block b1 k (ctx\<lparr>buffer := b1, buflen := n\<rparr>))
        \<lparr>buflen := n mod 64, buffer := mem_write b1 0 (take (n mod 64) (drop k b1))\<rparr>, drop add bs)"
      using r(1) \<open>r \<noteq> []\<close> True
      by (simp add: md5_fill_def Let_def add_def [symmetric] n_def [symmetric] b1_def [symmetric] k_def [symmetric])
    then have "ctx' = (md5_process_block b1 k (ctx\<lparr>buffer := b1, buflen := n\<rparr>))
        \<lparr>buflen := n mod 64, buffer := mem_write b1 0 (take (n mod 64) (drop k b1))\<rparr>" "bs' = drop add bs"
      unfolding assms(2) by (simp_all only: prod.inject)
    then have c: "ctx' = (md5_process_block b1 k (ctx\<lparr>buffer := b1, buflen := n\<rparr>))\<lparr>buflen := length ?r, buffer := b2\<rparr>"
      "bs' = drop add bs"
      by (simp_all only: r' lr b2_def)
    have "ctx_at ctx' (p @ ?q) ?r"
      unfolding c(1) using assms(1) k b1(1) b2 lr by (intro ctx_at_blocks) auto
    moreover have "(p @ ?q) @ ?r = p @ r @ take add bs"
      unfolding q by (simp only: append_assoc append_take_drop_id)
    moreover have "drop add bs = [] \<or> ?r = []"
    proof -
      have "drop add bs = [] \<or> n = 128" using r(3) by (auto simp: add_def n_def)
      moreover have "length ?r = 0" if "n = 128" unfolding lr that by simp
      ultimately show ?thesis by (simp only: length_0_conv) blast
    qed
    ultimately show thesis using that [of "take add bs" "p @ ?q" ?r] c(2) bs by simp
  qed
qed

text \<open>A whole number of blocks given to the block function while the buffer is empty.\<close>

lemma ctx_at_direct:
  assumes "ctx_at ctx p []" and "length q mod 64 = 0" and "take n bs = q" and "length q = n"
    and "length x = 128"
  shows "ctx_at (md5_process_block bs n (ctx\<lparr>buffer := x\<rparr>)) (p @ q) []"
proof -
  have e: "(md5_process_block bs n (ctx\<lparr>buffer := x, buflen := 0\<rparr>))\<lparr>buflen := length ([] :: byte list), buffer := x\<rparr>
      = md5_process_block bs n (ctx\<lparr>buffer := x\<rparr>)"
    using assms(1) by (simp add: md5_process_block_def Let_def ctx_at_def)
  show ?thesis
    using ctx_at_blocks [OF assms(1-4), where b = x and r' = "[]" and x = x and y = 0] assms(5)
    unfolding e by simp
qed

lemma md5_unaligned_ok:
  "ctx_at ctx p [] \<Longrightarrow> md5_unaligned bs ctx = (ctx', bs') \<Longrightarrow>
    \<exists>used. bs = used @ bs' \<and> ctx_at ctx' (p @ used) [] \<and> length bs' \<le> 64"
proof (induction bs ctx arbitrary: p rule: md5_unaligned.induct)
  case (1 bs ctx)
  show ?case
  proof (cases "length bs > 64")
    case False
    then have "ctx' = ctx" "bs' = bs" using 1(3) by (simp_all add: md5_unaligned.simps)
    then show ?thesis using 1(2) False by (intro exI [of _ "[]"]) simp
  next
    case True
    let ?b = "mem_write (buffer ctx) 0 (take 64 bs)"
    let ?c = "md5_process_block ?b 64 (ctx\<lparr>buffer := ?b\<rparr>)"
    have l: "length (take 64 bs) = 64" "length (buffer ctx) = 128" using True 1(2) by (simp_all add: ctx_at_def)
    have b: "length ?b = 128 \<and> take 64 ?b = take 64 bs"
      using mem_write_front [of "take 64 bs" "buffer ctx"] unfolding l by simp
    have "ctx_at ?c (p @ take 64 bs) []"
      by (rule ctx_at_direct [OF 1(2)]) (use b l in simp_all)
    moreover have "md5_unaligned (drop 64 bs) ?c = (ctx', bs')"
      using 1(3) True by (subst (asm) md5_unaligned.simps) (simp add: Let_def)
    ultimately obtain used where "drop 64 bs = used @ bs'" "ctx_at ctx' ((p @ take 64 bs) @ used) []" "length bs' \<le> 64"
      using 1(1) [OF True refl] by blast
    then show ?thesis
      by (intro exI [of _ "take 64 bs @ used"]) (metis append_assoc append_take_drop_id)
  qed
qed

lemma md5_direct_ok:
  assumes "ctx_at ctx p r" and "bs = [] \<or> r = []" and "md5_direct un bs ctx = (ctx', bs')"
  obtains p' r' used where "bs = used @ bs'" and "p' @ r' = p @ r @ used" and "ctx_at ctx' p' r'"
    and "bs' = [] \<or> (r' = [] \<and> length bs' \<le> 64)"
proof (cases "length bs \<ge> 64")
  case False
  then have "ctx' = ctx" "bs' = bs" using assms(3) by (auto simp: md5_direct_def)
  then show thesis using that [of "[]" p r] assms(1,2) False by auto
next
  case True
  then have r: "r = []" using assms(2) by auto
  show thesis
  proof (cases un)
    case True
    then have "md5_unaligned bs ctx = (ctx', bs')" using assms(3) \<open>length bs \<ge> 64\<close> by (simp add: md5_direct_def)
    from md5_unaligned_ok [OF assms(1)[unfolded r] this] obtain used where
      "bs = used @ bs'" "ctx_at ctx' (p @ used) []" "length bs' \<le> 64" by blast
    then show thesis using that [of used "p @ used" "[]"] r by simp
  next
    case False
    let ?n = "length bs - length bs mod 64"
    have "length (buffer ctx) = 128" using assms(1) by (simp add: ctx_at_def)
    moreover have "?n mod 64 = 0" unfolding minus_mod_eq_mult_div by simp
    ultimately have "ctx_at (md5_process_block bs ?n (ctx\<lparr>buffer := buffer ctx\<rparr>)) (p @ take ?n bs) []"
      by (intro ctx_at_direct [OF assms(1)[unfolded r]]) simp_all
    moreover have "ctx' = md5_process_block bs ?n ctx" "bs' = drop ?n bs"
      using assms(3) \<open>length bs \<ge> 64\<close> False by (simp_all add: md5_direct_def Let_def)
    moreover have "length (drop ?n bs) \<le> 64"
      using mod_less_divisor [of 64 "length bs"] by (simp only: length_drop diff_diff_cancel [OF mod_less_eq_dividend])
    ultimately show thesis using that [of "take ?n bs" "p @ take ?n bs" "[]"] r by simp
  qed
qed

lemma md5_keep_ok:
  assumes "ctx_at ctx p r" and "bs = [] \<or> (r = [] \<and> length bs \<le> 64)"
  shows "ctx_of (md5_keep bs ctx) (p @ r @ bs)"
proof (cases "bs = []")
  case True
  then show ?thesis using assms(1) by (auto simp: md5_keep_def ctx_of_def)
next
  case False
  then have r: "r = []" "length bs \<le> 64" "buflen ctx = 0" "length (buffer ctx) = 128"
    using assms by (auto simp: ctx_at_def)
  let ?b = "mem_write (buffer ctx) 0 bs"
  have b: "length ?b = 128 \<and> take (length bs) ?b = bs"
    using mem_write_front [of bs "buffer ctx"] r by simp
  show ?thesis
  proof (cases "length bs < 64")
    case True
    then have "md5_keep bs ctx = ctx\<lparr>buffer := ?b, buflen := length bs\<rparr>"
      using False r by (simp add: md5_keep_def Let_def)
    moreover have "ctx_at (ctx\<lparr>buffer := ?b, buflen := length bs\<rparr>) p bs"
      using assms(1) b True r by (simp add: ctx_at_def)
    ultimately show ?thesis using r by (auto simp: ctx_of_def)
  next
    case False
    then have l: "length bs = 64" using r by simp
    have "md5_keep bs ctx = (md5_process_block ?b 64 (ctx\<lparr>buffer := ?b\<rparr>))\<lparr>buffer := ?b, buflen := 0\<rparr>"
      using l r \<open>bs \<noteq> []\<close> by (simp add: md5_keep_def Let_def)
    also have "\<dots> = md5_process_block ?b 64 (ctx\<lparr>buffer := ?b\<rparr>)"
      using r(3) by (simp add: md5_process_block_def Let_def)
    finally have k: "md5_keep bs ctx = md5_process_block ?b 64 (ctx\<lparr>buffer := ?b\<rparr>)" .
    have "ctx_at (md5_keep bs ctx) (p @ bs) []"
      unfolding k by (rule ctx_at_direct [OF assms(1)[unfolded r(1)]]) (use b l in simp_all)
    then show ?thesis using r(1) by (auto simp: ctx_of_def)
  qed
qed

lemma md5_process_bytes_ok:
  assumes "ctx_of ctx m"
  shows "ctx_of (md5_process_bytes un bs ctx) (m @ bs)"
proof -
  obtain p r where m: "m = p @ r" "ctx_at ctx p r" using assms by (auto simp: ctx_of_def)
  obtain c1 bs1 where f: "md5_fill bs ctx = (c1, bs1)" by fastforce
  obtain c2 bs2 where d: "md5_direct un bs1 c1 = (c2, bs2)" by fastforce
  obtain p1 r1 u1 where 1: "bs = u1 @ bs1" "p1 @ r1 = p @ r @ u1" "ctx_at c1 p1 r1" "bs1 = [] \<or> r1 = []"
    using md5_fill_ok [OF m(2) f] .
  obtain p2 r2 u2 where 2: "bs1 = u2 @ bs2" "p2 @ r2 = p1 @ r1 @ u2" "ctx_at c2 p2 r2"
    "bs2 = [] \<or> (r2 = [] \<and> length bs2 \<le> 64)"
    using md5_direct_ok [OF 1(3,4) d] .
  have "p2 @ r2 @ bs2 = m @ bs" using 1(1,2) 2(1,2) m(1) by (metis append_assoc)
  then show ?thesis using md5_keep_ok [OF 2(3,4)] f d by (simp add: md5_process_bytes_def)
qed

subsection \<open>The finalisation\<close>

lemma length_words:
  fixes t0 t1 :: "32 word"
  assumes "(unat t0 + 2 ^ 32 * unat t1) mod W64 = n mod W64"
  shows "push_bit 3 t0 = word_of_nat (8 * n)"
    and "push_bit 3 t1 OR drop_bit 29 t0 = word_of_nat (8 * n div 2 ^ 32)"
proof -
  define M :: nat where "M = 2 ^ 32"
  define k where "k = unat t0 + M * unat t1"
  have M0: "(word_of_nat M :: 32 word) = 0" by (simp add: M_def)
  have same: "word_of_nat (8 * a) = (word_of_nat (8 * b) :: 32 word) \<and> word_of_nat (8 * a div M) = (word_of_nat (8 * b div M) :: 32 word)"
    if "a = b + M * M * q" for a b q :: nat
  proof -
    have "8 * a = 8 * b + M * (M * (8 * q))" using that by simp
    moreover have "(8 * b + M * (M * (8 * q))) div M = 8 * b div M + M * (8 * q)"
      by (simp add: div_mult_self2 M_def)
    ultimately show ?thesis by (simp only: of_nat_add of_nat_mult M0) simp
  qed
  have "k mod (M * M) = n mod (M * M)" using assms by (simp only: W64_def k_def M_def)
  then have "\<exists>q. k = n + M * M * q \<or> n = k + M * M * q"
    by (metis mod_eq_nat1E mod_eq_nat2E nat_le_linear)
  then have kn: "word_of_nat (8 * k) = (word_of_nat (8 * n) :: 32 word)"
    "word_of_nat (8 * k div M) = (word_of_nat (8 * n div M) :: 32 word)"
    using same by metis+
  have "word_of_nat (8 * k) = (8 * t0 :: 32 word)"
    unfolding k_def distrib_left of_nat_add of_nat_mult M0 by simp
  then show "push_bit 3 t0 = word_of_nat (8 * n)" using kn(1) by (simp add: push_bit_eq_mult mult.commute)
  have "8 * k = 8 * unat t0 + M * (8 * unat t1)" by (simp add: k_def)
  moreover have "(8 * unat t0 + M * (8 * unat t1)) div M = 8 * unat t0 div M + 8 * unat t1"
    by (simp add: div_mult_self2 M_def)
  moreover have "8 * unat t0 div M = unat t0 div 2 ^ 29"
  proof -
    have "M = 8 * 2 ^ 29" by (simp add: M_def)
    then show ?thesis by (simp only: div_mult_mult1)
  qed
  ultimately have "word_of_nat (8 * k div M) = word_of_nat (unat t0 div 2 ^ 29) + (8 * t1 :: 32 word)"
    by (simp only: of_nat_add of_nat_mult) simp
  moreover have "drop_bit 29 t0 = word_of_nat (unat t0 div 2 ^ 29)"
  proof -
    have "drop_bit 29 t0 = word_of_nat (unat (drop_bit 29 t0))" by simp
    also have "unat (drop_bit 29 t0) = unat t0 div 2 ^ 29"
      unfolding unat_drop_bit_eq by (rule drop_bit_eq_div)
    finally show ?thesis .
  qed
  moreover have "push_bit 3 t1 + drop_bit 29 t0 = push_bit 3 t1 OR drop_bit 29 t0"
    by (rule disjunctive_add_eq_or, rule bit_word_eqI) (auto simp: bit_simps dest: bit_imp_le_length)
  ultimately show "push_bit 3 t1 OR drop_bit 29 t0 = word_of_nat (8 * n div 2 ^ 32)"
    using kn(2) unfolding M_def by (simp add: push_bit_eq_mult mult.commute add.commute)
qed

lemma take_fillbuf: "1 \<le> k \<Longrightarrow> k \<le> 64 \<Longrightarrow> take k fillbuf = 0x80 # replicate (k - 1) 0"
  by (cases k) (simp_all add: fillbuf_def)

text \<open>The three stores into the buffer, seen together.\<close>

lemma finish_stores:
  assumes "s \<le> length b" and "n + length f + 8 = s" and "length l0 = 4" and "length l1 = 4"
  shows "take s (mem_write (mem_write (mem_write b (s - 8) l0) (s - 4) l1) n f) = take n b @ f @ l0 @ l1"
proof -
  let ?b1 = "mem_write b (s - 8) l0"
  let ?b2 = "mem_write ?b1 (s - 4) l1"
  have s: "s - 8 + 4 = s - 4" "s - 4 + 4 = s" "s - 8 = n + length f" "8 \<le> s" using assms(2) by auto
  have lb: "length ?b1 = length b" "length ?b2 = length b" using assms s by simp_all
  have "take (s - 4) ?b1 = take (s - 8) b @ l0"
    using take_mem_write_extend [of "s - 8" b l0] assms s by simp
  then have t2: "take s ?b2 = take (s - 8) b @ l0 @ l1"
    using take_mem_write_extend [of "s - 4" ?b1 l1] assms s lb by simp
  have "take n ?b2 = take n (take s ?b2)" using s by (simp add: min_def)
  then have n: "take n ?b2 = take n b" unfolding t2 using s assms(1) by (simp add: min_def)
  have front: "take s (x @ f @ y) = x @ f @ take 8 y" if "length x = n" for x y
    using that assms(2) by (simp add: assms(2) [symmetric])
  have "take s (mem_write ?b2 n f) = take n ?b2 @ f @ take 8 (drop (n + length f) ?b2)"
  proof -
    have "length (take n ?b2) = n" using lb(2) assms(1,2) by simp
    then show ?thesis unfolding mem_write_def [of ?b2 n f] by (rule front)
  qed
  moreover have "take 8 (drop (n + length f) ?b2) = drop (n + length f) (take s ?b2)"
  proof -
    have "s - (n + length f) = 8" using assms(2) by simp
    then show ?thesis by (simp only: drop_take)
  qed
  moreover have "drop (n + length f) (take s ?b2) = l0 @ l1"
    unfolding t2 using s assms(1) by simp
  ultimately show ?thesis using n by simp
qed

lemma md5_finish_ok:
  assumes "ctx_of ctx m"
  shows "md5_finish_ctx ctx = md5_ref m"
proof -
  obtain p r where m: "m = p @ r" "ctx_at ctx p r" using assms by (auto simp: ctx_of_def)
  let ?n = "length r"
  have r: "buflen ctx = ?n" "?n \<le> 64" "length (buffer ctx) = 128" "take ?n (buffer ctx) = r"
    "length p mod 64 = 0" "abcd ctx = md5_blocks md5_init p" "counted ctx mod W64 = length p mod W64"
    using m(2) by (auto simp: ctx_at_def)
  define size :: nat where "size = (if ?n < 56 then 16 else 32)"
  define t0 where "t0 = total0 ctx + word_of_nat ?n"
  define t1 where "t1 = (if t0 < word_of_nat ?n then total1 ctx + 1 else total1 ctx)"
  define f where "f = take ((size - 2) * 4 - ?n) fillbuf"
  define l0 l1 where "l0 = le_bytes (push_bit 3 t0)" and "l1 = le_bytes (push_bit 3 t1 OR drop_bit 29 t0)"
  define b3 where "b3 = mem_write (mem_write (mem_write (buffer ctx) (size * 4 - 8) l0) (size * 4 - 4) l1) ?n f"
  have f: "f = 0x80 # replicate ((size - 2) * 4 - ?n - 1) 0" "?n + length f + 8 = size * 4"
  proof -
    have k: "1 \<le> (size - 2) * 4 - ?n" "(size - 2) * 4 - ?n \<le> 64" using r(2) by (auto simp: size_def)
    show "f = 0x80 # replicate ((size - 2) * 4 - ?n - 1) 0" unfolding f_def by (rule take_fillbuf [OF k])
    then have "length f = (size - 2) * 4 - ?n" using k(1) by simp
    then show "?n + length f + 8 = size * 4" using k(1) by (auto simp: size_def split: if_splits)
  qed
  have b3: "take (size * 4) b3 = r @ f @ l0 @ l1"
    unfolding b3_def using f(2) r(3,4) finish_stores [of "size * 4" "buffer ctx" ?n f l0 l1]
    by (simp add: l0_def l1_def size_def split: if_splits)
  have "counted (md5_process_block [] ?n ctx) mod W64 = (counted ctx + ?n) mod W64"
    by (rule counted_process_block)
  moreover have "total0 (md5_process_block [] ?n ctx) = t0" "total1 (md5_process_block [] ?n ctx) = t1"
    using r(2) by (simp_all add: md5_process_block_def Let_def t0_def t1_def)
  ultimately have "(unat t0 + 2 ^ 32 * unat t1) mod W64 = (counted ctx + ?n) mod W64"
    by (simp only: counted_def)
  also have "\<dots> = length m mod W64"
    using r(7) m(1) by (simp only: length_append) (metis mod_add_left_eq)
  finally have "l0 = le_bytes (word_of_nat (8 * length m))" "l1 = le_bytes (word_of_nat (8 * length m div 2 ^ 32))"
    using length_words unfolding l0_def l1_def by metis+
  moreover have "(119 - length m mod 64) mod 64 = (size - 2) * 4 - ?n - 1"
  proof -
    have "length m mod 64 = ?n mod 64" using m(1) r(5) by (metis add_0 length_append mod_add_left_eq)
    moreover consider "?n < 56" | "56 \<le> ?n" "?n < 64" | "?n = 64" using r(2) by linarith
    then have "(119 - ?n mod 64) mod 64 = (size - 2) * 4 - ?n - 1"
      by cases (simp_all add: size_def mod_if)
    ultimately show ?thesis by simp
  qed
  ultimately have pad: "md5_pad m = p @ take (size * 4) b3"
    using m(1) f(1) unfolding b3 md5_pad_def by simp
  have eqs: "(size - 2) * 4 = size * 4 - 8" "(size - 1) * 4 = size * 4 - 4" by (simp_all add: size_def)
  have f': "take (size * 4 - 8 - ?n) fillbuf = f" by (simp only: f_def eqs)
  have "md5_finish_ctx ctx = md5_read_ctx (md5_process_block b3 (size * 4) (ctx\<lparr>total0 := t0, total1 := t1, buffer := b3\<rparr>))"
    by (simp only: md5_finish_ctx_def Let_def r(1) size_def [symmetric] t0_def [symmetric] t1_def [symmetric]
        l0_def [symmetric] l1_def [symmetric] eqs f' b3_def [symmetric])
  also have "\<dots> = md5_ref m"
    unfolding md5_ref_def pad md5_blocks_append [OF r(5)] by (simp add: md5_read_ctx_def r(6))
  finally show ?thesis .
qed

subsection \<open>Properties\<close>

lemma ctx_of_stream:
  "ctx_at ctx p [] \<Longrightarrow> ctx_of (md5_stream_loop bs ctx) (p @ bs)"
proof (induction bs ctx arbitrary: p rule: md5_stream_loop.induct)
  case (1 bs ctx)
  show ?case
  proof (cases "length bs \<ge> 32768")
    case True
    have "length (buffer ctx) = 128" using 1(2) by (simp add: ctx_at_def)
    then have "ctx_at (md5_process_block (take 32768 bs) 32768 (ctx\<lparr>buffer := buffer ctx\<rparr>)) (p @ take 32768 bs) []"
      using True by (intro ctx_at_direct [OF 1(2)]) simp_all
    then have "ctx_of (md5_stream_loop (drop 32768 bs) (md5_process_block (take 32768 bs) 32768 ctx)) ((p @ take 32768 bs) @ drop 32768 bs)"
      by (intro 1(1) [OF True]) simp
    then show ?thesis using True by (subst md5_stream_loop.simps) simp
  next
    case False
    have "ctx_of ctx p" using 1(2) by (auto simp: ctx_of_def)
    then show ?thesis using False md5_process_bytes_ok [of ctx p False bs] by (subst md5_stream_loop.simps) auto
  qed
qed



text \<open>
  However a message is cut into pieces and however each piece is aligned, feeding the pieces
  one after the other gives the MD5 of the whole message, and so does hashing a stream that can be
  read; a stream that cannot be read yields the status 1 and no digest.
\<close>

theorem md5_incremental:
  assumes "length garbage = 128"
  shows "md5_finish_ctx (fold (\<lambda>(un, bs). md5_process_bytes un bs) pieces (md5_init_ctx garbage))
      = md5_ref (concat (map snd pieces))
    \<and> md5_stream True (Some m) garbage = (0, Some (md5_ref m))
    \<and> md5_stream True None garbage = (1, None)"
proof -
  have "ctx_of (fold (\<lambda>(un, bs). md5_process_bytes un bs) pieces c) (x @ concat (map snd pieces))"
    if "ctx_of c x" for c x
    using that
  proof (induction pieces arbitrary: c x)
    case Nil
    then show ?case by simp
  next
    case (Cons a pieces)
    obtain un bs where a: "a = (un, bs)" by fastforce
    have "ctx_of (md5_process_bytes un bs c) (x @ bs)" using Cons.prems by (rule md5_process_bytes_ok)
    from Cons.IH [OF this] show ?case by (simp add: a)
  qed
  from this [OF ctx_of_init [OF assms]]
  have "md5_finish_ctx (fold (\<lambda>(un, bs). md5_process_bytes un bs) pieces (md5_init_ctx garbage)) = md5_ref (concat (map snd pieces))"
    by (intro md5_finish_ok) simp
  moreover have "ctx_at (md5_init_ctx garbage) [] []"
    using ctx_of_init [OF assms] by (auto simp: ctx_of_def)
  then have "ctx_of (md5_stream_loop m (md5_init_ctx garbage)) m"
    using ctx_of_stream [of "md5_init_ctx garbage" "[]" m] by simp
  ultimately show ?thesis by (simp add: md5_stream_def md5_finish_ok)
qed

theorem md5_incremental_witness: "md5_stream True (Some [1, 2, 3]) (replicate 128 0) = (0, Some (md5_ref [1, 2, 3]))"
  using md5_incremental [of "replicate 128 0" "[]" "[1, 2, 3]"] by (simp only: length_replicate simp_thms)

end
