(* ===== verification/Ems_Session.thy ===== *)
theory Ems_Session
  imports Ems_Msg Ems_Timer Ems_Event
begin

text \<open>
  The sessions of \<^verbatim>\<open>c/ems/src/utils/ems_session.c\<close> and \<^verbatim>\<open>ems_session.h\<close>: a socket with its two
  buffers, its timer, its event and its callbacks. A timer is represented by its deadline while it is
  pending, an event by the flags it is registered with; \<open>Ems_Timer\<close> and \<open>Ems_Event\<close> show what the
  lists behind them do with these. Callbacks are numbers, pointers to other objects addresses.
\<close>

record ems_session =
  sock :: ems_sock
  obj :: addr
  rsrv :: addr
  sflg :: flags
  buf_in :: "char ems_buffer"
  buf_out :: "char ems_buffer"
  s_to :: "timeval option"
  s_evt :: "flags option"
  s_fdno :: int
  evt_cb :: "nat option"
  timeout_cb :: "nat option"
  cbarg :: addr

definition EMS_BUFFER_1K :: nat where "EMS_BUFFER_1K = 1024"

definition ems_session_init :: "bool \<Rightarrow> (nat \<Rightarrow> char) \<Rightarrow> ems_session" where
  "ems_session_init alloc garbage =
    \<lparr>sock = ems_sock_init, obj = 0, rsrv = 0, sflg = 0,
     buf_in = snd (ems_buffer_init alloc garbage EMS_BUFFER_1K),
     buf_out = snd (ems_buffer_init alloc garbage EMS_BUFFER_1K),
     s_to = None, s_evt = None, s_fdno = 0, evt_cb = None, timeout_cb = None, cbarg = 0\<rparr>"

definition ems_session_uninit :: "ems_session \<Rightarrow> ems_session" where
  "ems_session_uninit sess =
    sess\<lparr>sock := ems_sock_clear (sock sess), rsrv := 0, buf_in := ems_buffer_uninit (buf_in sess),
      buf_out := ems_buffer_uninit (buf_out sess), evt_cb := None, timeout_cb := None, cbarg := 0\<rparr>"

definition ems_session_new :: "bool \<Rightarrow> bool \<Rightarrow> (nat \<Rightarrow> char) \<Rightarrow> ems_session option" where
  "ems_session_new alloc alloc_buf garbage = (if alloc then Some (ems_session_init alloc_buf garbage) else None)"

definition sess_event_cancel :: "ems_session \<Rightarrow> ems_session" where
  "sess_event_cancel sess = sess\<lparr>s_evt := None\<rparr>"

definition sess_timeout_cancel :: "ems_session \<Rightarrow> ems_session" where
  "sess_timeout_cancel sess = sess\<lparr>s_to := None\<rparr>"

text \<open>What is left of the session in the moment its memory is released.\<close>

definition ems_session_shutdown_and_destroy :: "ems_session \<Rightarrow> int \<times> ems_session" where
  "ems_session_shutdown_and_destroy sess =
    (let s1 = sess_timeout_cancel (sess_event_cancel sess)
     in (EMS_OK, ems_session_uninit (s1\<lparr>sock := snd (ems_sock_close (sock s1))\<rparr>)))"

text \<open>
  Registration takes the kernel to accept it; a second registration with the same flags changes
  nothing in the event.
\<close>

definition sess_event_set :: "ems_session \<Rightarrow> flags \<Rightarrow> nat \<Rightarrow> ems_session" where
  "sess_event_set sess flg cb =
    sess\<lparr>evt_cb := Some cb, s_fdno := s_fd (sock sess), s_evt := Some (flg OR EMS_EVT_EDGE_TRIGGER)\<rparr>"

definition sess_timeout_set :: "timeval \<Rightarrow> ems_session \<Rightarrow> int \<Rightarrow> nat \<Rightarrow> ems_session" where
  "sess_timeout_set now sess msecs cb =
    sess\<lparr>timeout_cb := Some cb, s_to := Some (timeout_deadline now msecs)\<rparr>"

text \<open>The callbacks of the event loop: which function is called, with the error and the flags.\<close>

definition sess_event :: "ems_session \<Rightarrow> int \<Rightarrow> flags \<Rightarrow> (nat \<times> int \<times> flags) option" where
  "sess_event sess err flg = map_option (\<lambda>cb. (cb, err, flg)) (evt_cb sess)"

definition sess_timeout :: "ems_session \<Rightarrow> nat option" where
  "sess_timeout sess = timeout_cb sess"

definition sess_wants :: "ems_session \<Rightarrow> flags \<Rightarrow> bool" where
  "sess_wants sess flg \<longleftrightarrow> (case s_evt sess of None \<Rightarrow> False | Some f \<Rightarrow> ems_flag_like f flg)"

lemma new_session_ok:
  "ems_session_new True True g = Some s \<Longrightarrow>
    buf_ok (buf_in s) \<and> contents (buf_in s) = [] \<and> room (buf_in s) = EMS_BUFFER_1K \<and> s_evt s = None \<and> s_to s = None"
  by (auto simp: ems_session_new_def ems_session_init_def ems_buffer_init_def buf_ok_def contents_def room_def)

lemma shutdown_quiet:
  "ems_session_shutdown_and_destroy s = (r, s') \<Longrightarrow> s_evt s' = None \<and> s_to s' = None \<and> evt_cb s' = None"
  by (auto simp: ems_session_shutdown_and_destroy_def ems_session_uninit_def sess_timeout_cancel_def
      sess_event_cancel_def Let_def)

lemma event_set_wants:
  "sess_wants (sess_event_set s flg cb) f \<longleftrightarrow> ems_flag_like (flg OR EMS_EVT_EDGE_TRIGGER) f"
  by (simp add: sess_wants_def sess_event_set_def)

end
