(* ===== verification/Ems_Dns_Wire.thy ===== *)
theory Ems_Dns_Wire
  imports Ems_Msg Ems_Text
begin

text \<open>
  The messages of the DNS forwarder: the header of \<^verbatim>\<open>c/ems/src/core/ems_dns.h\<close>, the parsing of
  names, questions and answers of \<^verbatim>\<open>ems_dns_fwd.c\<close> and the query that \<^verbatim>\<open>ems_dns.c\<close> builds.

  A message is read in place from the memory of a session buffer, a pointer into it is an offset.
  Reads outside of that memory are undefined: the parser yields \<open>Inl ()\<close> for them, and the functions
  above it \<open>None\<close>. The code follows a compression pointer wherever it leads, so the parser is a
  partial function whose value is \<open>None\<close> where the code does not return.
  Addresses (\<open>struct in_addr\<close>) are 32-bit words in host order.
\<close>

subsection \<open>The header\<close>

record dns_header =
  dns_id :: "16 word"
  dns_flg :: "16 word"
  qdcount :: "16 word"
  ancount :: "16 word"
  nscount :: "16 word"
  arcount :: "16 word"

definition DNS_QR :: "dns_header \<Rightarrow> 16 word" where
  "DNS_QR hdr = drop_bit 15 (dns_flg hdr AND 0x8000)"

definition DNS_OPCODE :: "dns_header \<Rightarrow> 16 word" where
  "DNS_OPCODE hdr = drop_bit 11 (dns_flg hdr AND 0x7800)"

definition DNS_RD :: "dns_header \<Rightarrow> 16 word" where
  "DNS_RD hdr = drop_bit 8 (dns_flg hdr AND 0x0100)"

definition DNS_RCODE :: "dns_header \<Rightarrow> 16 word" where
  "DNS_RCODE hdr = dns_flg hdr AND 0x000f"

definition be16 :: "16 word \<Rightarrow> string" where
  "be16 w = [char_of (unat w div 256), char_of (unat w mod 256)]"

text \<open>\<open>ntohs (*(ems_short * )payload)\<close>, with the pointer behind it.\<close>

definition dns_get_short :: "string \<Rightarrow> nat \<Rightarrow> (nat \<times> 16 word) option" where
  "dns_get_short mem p =
    (if p + 2 \<le> length mem then Some (p + 2, word_of_nat (uchr (mem ! p) * 256 + uchr (mem ! (p + 1))))
     else None)"

definition dns_get_header :: "string \<Rightarrow> dns_header option" where
  "dns_get_header mem =
    (case (dns_get_short mem 0, dns_get_short mem 2, dns_get_short mem 4,
           dns_get_short mem 6, dns_get_short mem 8, dns_get_short mem 10) of
       (Some (_, i), Some (_, f), Some (_, qd), Some (_, an), Some (_, ns), Some (_, ar)) \<Rightarrow>
         Some \<lparr>dns_id = i, dns_flg = f, qdcount = qd, ancount = an, nscount = ns, arcount = ar\<rparr>
     | _ \<Rightarrow> None)"

definition dns_put_header :: "dns_header \<Rightarrow> string" where
  "dns_put_header hdr =
    be16 (dns_id hdr) @ be16 (dns_flg hdr) @ be16 (qdcount hdr) @
    be16 (ancount hdr) @ be16 (nscount hdr) @ be16 (arcount hdr)"

subsection \<open>Names\<close>

text \<open>The offset of a compression pointer keeps two bits of its first byte.\<close>

definition dns_offset :: "nat \<Rightarrow> nat \<Rightarrow> nat" where
  "dns_offset len low = (len mod 4) * 256 + low"

text \<open>
  The loop of \<open>dns_get_name\<close> after the first length byte \<open>len\<close> was read. The result is the pointer
  behind the name and the characters the code stores in \<open>name\<close>. The recursive call at a
  compression pointer is inlined: it reads its own first length byte.
\<close>

partial_function (option) dns_labels :: "string \<Rightarrow> nat \<Rightarrow> nat \<Rightarrow> (unit + nat \<times> string) option" where
  "dns_labels mem p len =
    (if len = 0 then Some (Inr (p, []))
     else if 64 \<le> len then
       (if p < length mem \<and> dns_offset len (uchr (mem ! p)) < length mem then
          (let off = dns_offset len (uchr (mem ! p))
           in Option.bind (dns_labels mem (off + 1) (uchr (mem ! off)))
                (\<lambda>r. case r of Inl u \<Rightarrow> Some (Inl u) | Inr (_, nm) \<Rightarrow> Some (Inr (p + 1, nm))))
        else Some (Inl ()))
     else if p + len < length mem then
       (let part = take len (drop p mem); len' = uchr (mem ! (p + len))
        in Option.bind (dns_labels mem (p + len + 1) len')
             (\<lambda>r. case r of Inl u \<Rightarrow> Some (Inl u)
                   | Inr (q, nm) \<Rightarrow> Some (Inr (q, part @ (if 0 < len' then CHR ''.'' # nm else nm)))))
     else Some (Inl ()))"

definition dns_get_name :: "string \<Rightarrow> nat \<Rightarrow> (unit + nat \<times> string) option" where
  "dns_get_name mem p =
    (if p < length mem then dns_labels mem (p + 1) (uchr (mem ! p)) else Some (Inl ()))"

subsection \<open>Questions and answers\<close>

record dns_question =
  qtype :: "16 word"
  qclass :: "16 word"
  qname :: ems_str

text \<open>The text of a zeroed array of 512 characters in which \<open>nm\<close> was stored.\<close>

definition dns_url_text :: "string \<Rightarrow> string option" where
  "dns_url_text nm = (if length nm < 512 then Some (takeWhile (\<lambda>c. uchr c \<noteq> 0) nm) else None)"

definition fw_dns_get_question :: "bool \<Rightarrow> string \<Rightarrow> nat \<Rightarrow> (nat \<times> dns_question) option" where
  "fw_dns_get_question alloc mem p =
    (case dns_get_name mem p of
       Some (Inr (p1, nm)) \<Rightarrow>
         (case dns_url_text nm of
            None \<Rightarrow> None
          | Some url \<Rightarrow>
              (case dns_get_short mem p1 of
                 None \<Rightarrow> None
               | Some (p2, ty) \<Rightarrow>
                   (case dns_get_short mem p2 of
                      None \<Rightarrow> None
                    | Some (p3, cls) \<Rightarrow>
                        Some (p3, \<lparr>qtype = ty, qclass = cls, qname = the (fst (str_set alloc (Some str_init) (Some url)))\<rparr>))))
     | _ \<Rightarrow> None)"

text \<open>
  The packed item behind the name of a resource record: type, class, time to live, length of the
  data. The assertion that the data of an address record has four bytes is compiled out.
\<close>

record dns_item =
  it_ty :: "16 word"
  it_cls :: "16 word"
  it_len :: "16 word"

definition get_dns_item :: "string \<Rightarrow> nat \<Rightarrow> dns_item option" where
  "get_dns_item mem p =
    (case (dns_get_short mem p, dns_get_short mem (p + 2), dns_get_short mem (p + 8)) of
       (Some (_, ty), Some (_, cls), Some (_, len)) \<Rightarrow> Some \<lparr>it_ty = ty, it_cls = cls, it_len = len\<rparr>
     | _ \<Rightarrow> None)"

fun dns_get_all_address :: "string \<Rightarrow> nat \<Rightarrow> nat \<Rightarrow> 32 word list option" where
  "dns_get_all_address mem p 0 = Some []"
| "dns_get_all_address mem p (Suc n) =
    (case dns_get_name mem p of
       Some (Inr (q, nm)) \<Rightarrow>
         (case (dns_url_text nm, get_dns_item mem q) of
            (Some _, Some itm) \<Rightarrow>
              (let next = q + 10 + unat (it_len itm)
               in if it_ty itm = 1 \<and> it_cls itm = 1 then
                    (if q + 14 \<le> length mem then
                       map_option (\<lambda>as. word_of_nat (get32 (drop (q + 10) mem)) # as)
                         (dns_get_all_address mem next n)
                     else None)
                  else dns_get_all_address mem next n)
          | _ \<Rightarrow> None)
     | _ \<Rightarrow> None)"

subsection \<open>Queries\<close>

definition buf_put :: "char ems_buffer \<Rightarrow> string \<Rightarrow> char ems_buffer" where
  "buf_put buf s = snd (ems_buffer_write buf s (int (length s)))"

text \<open>The loop of \<open>dns_set_question\<close>; the length of a part is stored in one byte.\<close>

function dns_set_labels :: "char ems_buffer \<Rightarrow> string \<Rightarrow> char ems_buffer" where
  "dns_set_labels buf url =
    (if url = [] then buf
     else (case strchr url CHR ''.'' of
             None \<Rightarrow> buf_put (buf_put buf [char_of (length url)]) url
           | Some p \<Rightarrow>
               (let len = length url - length p
                in dns_set_labels (buf_put (buf_put buf [char_of len]) (take len url)) (tl p))))"
  by auto
termination by (relation "measure (\<lambda>(buf, url). length url)") (auto dest!: strchr_Some)

declare dns_set_labels.simps [simp del]

definition dns_set_question :: "char ems_buffer \<Rightarrow> string \<Rightarrow> char ems_buffer" where
  "dns_set_question buf url = buf_put (dns_set_labels buf url) [char_of (0 :: nat)]"

text \<open>
  The part of \<open>fw_dns_create_user\<close> that fills the buffer of a new user: the header is stored
  through a pointer to the start of the buffer, the write pointer moved behind it, and the question
  with type 1 (A) and class 1 (IN) appended. \<open>None\<close> when the buffer has no room for the header.
\<close>

definition dns_query_header :: "16 word \<Rightarrow> dns_header" where
  "dns_query_header i =
    \<lparr>dns_id = i, dns_flg = 0x0100, qdcount = 1, ancount = 0, nscount = 0, arcount = 0\<rparr>"

definition dns_fill_query :: "char ems_buffer \<Rightarrow> 16 word \<Rightarrow> string \<Rightarrow> char ems_buffer option" where
  "dns_fill_query buf i url =
    (case mem_put (bmem buf) (brd buf) (dns_put_header (dns_query_header i)) of
       None \<Rightarrow> None
     | Some mem \<Rightarrow>
         (let b1 = snd (ems_buffer_seek_wr (buf\<lparr>bmem := mem\<rparr>) 12 2);
              b2 = dns_set_question b1 url;
              b3 = buf_put b2 (be16 1)
          in Some (buf_put b3 (be16 1))))"

subsection \<open>Facts about the fixed fields\<close>

lemma get_short_be16:
  "length pre = p \<Longrightarrow> dns_get_short (pre @ be16 w @ post) p = Some (p + 2, w)"
proof -
  assume p: "length pre = p"
  have "unat w < 65536" using unsigned_less [of w] by simp
  then have "uchr (char_of (unat w div 256)) = unat w div 256"
    by (intro uchr_char_of) simp
  moreover have "uchr (char_of (unat w mod 256)) = unat w mod 256" by (intro uchr_char_of) simp
  ultimately show ?thesis using p
    by (simp add: dns_get_short_def be16_def nth_append)
qed

lemma length_be16 [simp]: "length (be16 w) = 2"
  by (simp add: be16_def)

lemma length_put_header [simp]: "length (dns_put_header hdr) = 12"
  by (simp add: dns_put_header_def)

lemma get_put_header: "dns_get_header (dns_put_header hdr @ post) = Some hdr"
proof -
  let ?a = "be16 (dns_id hdr)" and ?b = "be16 (dns_flg hdr)" and ?c = "be16 (qdcount hdr)"
    and ?d = "be16 (ancount hdr)" and ?e = "be16 (nscount hdr)" and ?f = "be16 (arcount hdr)"
  have "dns_get_short (?a @ ?b @ ?c @ ?d @ ?e @ ?f @ post) 0 = Some (2, dns_id hdr)"
    using get_short_be16 [of "[]" 0] by simp
  moreover have "dns_get_short (?a @ ?b @ ?c @ ?d @ ?e @ ?f @ post) 2 = Some (4, dns_flg hdr)"
    using get_short_be16 [of ?a 2] by simp
  moreover have "dns_get_short (?a @ ?b @ ?c @ ?d @ ?e @ ?f @ post) 4 = Some (6, qdcount hdr)"
    using get_short_be16 [of "?a @ ?b" 4] by simp
  moreover have "dns_get_short (?a @ ?b @ ?c @ ?d @ ?e @ ?f @ post) 6 = Some (8, ancount hdr)"
    using get_short_be16 [of "?a @ ?b @ ?c" 6] by simp
  moreover have "dns_get_short (?a @ ?b @ ?c @ ?d @ ?e @ ?f @ post) 8 = Some (10, nscount hdr)"
    using get_short_be16 [of "?a @ ?b @ ?c @ ?d" 8] by simp
  moreover have "dns_get_short (?a @ ?b @ ?c @ ?d @ ?e @ ?f @ post) 10 = Some (12, arcount hdr)"
    using get_short_be16 [of "?a @ ?b @ ?c @ ?d @ ?e" 10] by simp
  ultimately show ?thesis by (simp add: dns_get_header_def dns_put_header_def)
qed

subsection \<open>Names on the wire\<close>

text \<open>A name as the list of its labels: its bytes and its text.\<close>

fun enc_labels :: "string list \<Rightarrow> string" where
  "enc_labels [] = [char_of (0 :: nat)]"
| "enc_labels (l # ls) = char_of (length l) # l @ enc_labels ls"

fun dotted :: "string list \<Rightarrow> string" where
  "dotted [] = []"
| "dotted [l] = l"
| "dotted (l # ls) = l @ CHR ''.'' # dotted ls"

definition label_ok :: "string \<Rightarrow> bool" where
  "label_ok l \<longleftrightarrow> l \<noteq> [] \<and> length l < 64 \<and> CHR ''.'' \<notin> set l \<and> CHR 0x00 \<notin> set l"

lemma enc_labels_ne [simp]: "enc_labels ls \<noteq> []"
  by (cases ls) simp_all

lemma dotted_Cons: "dotted (l # ls) = (if ls = [] then l else l @ CHR ''.'' # dotted ls)"
  by (cases ls) simp_all

lemma hd_enc_labels:
  "list_all label_ok ls \<Longrightarrow> 0 < uchr (hd (enc_labels ls)) \<longleftrightarrow> ls \<noteq> []"
  by (cases ls) (auto simp: label_ok_def)

lemma uchr_char_of_mod: "uchr (char_of n) = n mod 256"
  by (simp add: uchr_def)

lemma labels_step:
  assumes "0 < len" and "len < 64" and "p + len < length mem"
    and "dns_get_name mem (p + len) = Some (Inr (q, nm))"
  shows "dns_labels mem p len = Some (Inr (q, take len (drop p mem) @
    (if 0 < uchr (mem ! (p + len)) then CHR ''.'' # nm else nm)))"
  using assms by (subst dns_labels.simps) (simp add: dns_get_name_def Let_def)

lemma get_name_enc:
  assumes "list_all label_ok ls" and "mem = pre @ enc_labels ls @ post"
  shows "dns_get_name mem (length pre) =
    Some (Inr (length pre + length (enc_labels ls), dotted ls))"
  using assms
proof (induction ls arbitrary: pre)
  case Nil
  then show ?case by (simp add: dns_get_name_def dns_labels.simps)
next
  case (Cons l ls)
  let ?p = "length pre + 1"
  have l: "label_ok l" "list_all label_ok ls" using Cons.prems by auto
  then have len: "0 < length l" "length l < 64" by (auto simp: label_ok_def)
  have mem: "mem = (pre @ char_of (length l) # l) @ enc_labels ls @ post" using Cons.prems by simp
  obtain c cs where enc: "enc_labels ls = c # cs" using enc_labels_ne [of ls] by (cases "enc_labels ls") auto
  have at: "mem ! length pre = char_of (length l)" "mem ! (?p + length l) = c"
    "take (length l) (drop ?p mem) = l" "?p + length l < length mem"
    unfolding mem enc by (simp_all add: nth_append)
  have "dns_get_name mem (?p + length l) = Some (Inr (?p + length l + length (enc_labels ls), dotted ls))"
    using Cons.IH [OF l(2) mem] by simp
  note step = labels_step [OF len at(4) this]
  have "0 < uchr c \<longleftrightarrow> ls \<noteq> []" using hd_enc_labels [OF l(2)] enc by simp
  then show ?case
    using step at len by (simp add: dns_get_name_def dotted_Cons)
qed

text \<open>A compression pointer to the place of a name.\<close>

definition name_ptr :: "nat \<Rightarrow> string" where
  "name_ptr off = [char_of (192 + off div 256), char_of (off mod 256)]"

lemma get_name_ptr:
  assumes "off < 1024" and "mem = pre @ name_ptr off @ post" and "off < length mem"
    and "dns_get_name mem off = Some (Inr (q, nm))"
  shows "dns_get_name mem (length pre) = Some (Inr (length pre + 2, nm))"
proof -
  have b: "off div 256 < 4" using assms(1) by simp
  have u: "uchr (char_of (192 + off div 256)) = 192 + off div 256"
    "uchr (char_of off) = off mod 256"
    using b by (intro uchr_char_of) (linarith, simp only: uchr_char_of_mod)
  have "(192 + off div 256) mod 4 = (off div 256) mod 4" using mod_mult_self2 [of "off div 256" 4 48] by (simp add: add.commute)
  then have m: "(192 + off div 256) mod 4 = off div 256" using b by (simp only: mod_less)
  have off: "dns_offset (192 + off div 256) (off mod 256) = off"
    unfolding dns_offset_def m by simp
  have bytes: "mem ! length pre = char_of (192 + off div 256)" "mem ! (length pre + 1) = char_of (off mod 256)"
    "length pre + 1 < length mem"
    by (simp_all add: assms(2) name_ptr_def nth_append)
  have "dns_labels mem (off + 1) (uchr (mem ! off)) = Some (Inr (q, nm))"
    using assms(3,4) by (simp add: dns_get_name_def)
  then have "dns_labels mem (length pre + 1) (192 + off div 256) = Some (Inr (length pre + 2, nm))"
    using assms(3) bytes off u by (subst dns_labels.simps) (simp add: Let_def)
  then show ?thesis using bytes u by (simp add: dns_get_name_def)
qed

subsection \<open>A pointer to itself\<close>

definition loops_at :: "string \<Rightarrow> nat \<Rightarrow> bool" where
  "loops_at mem p \<longleftrightarrow> p + 1 < length mem \<and> 64 \<le> uchr (mem ! p) \<and>
    dns_offset (uchr (mem ! p)) (uchr (mem ! (p + 1))) = p"

lemma labels_loop:
  assumes "loops_at mem at"
  shows "dns_labels mem (at + 1) (uchr (mem ! at)) = None"
proof (rule ccontr)
  assume "dns_labels mem (at + 1) (uchr (mem ! at)) \<noteq> None"
  then obtain r where r: "dns_labels mem (at + 1) (uchr (mem ! at)) = Some r" by blast
  have "\<not> (at + 1 = at + 1 \<and> uchr (mem ! at) = uchr (mem ! at) \<and> loops_at mem at)"
  proof (rule dns_labels.raw_induct [where P = "\<lambda>m p len r.
      \<not> (p = at + 1 \<and> len = uchr (m ! at) \<and> loops_at m at)", OF _ r], goal_cases)
    case (1 f m p len y)
    show ?case
    proof
      assume h: "p = at + 1 \<and> len = uchr (m ! at) \<and> loops_at m at"
      then have "64 \<le> len" "p < length m" "at < length m" "dns_offset len (uchr (m ! p)) = at"
        by (auto simp: loops_at_def)
      then have "\<exists>z. f m (at + 1) (uchr (m ! at)) = Some z"
        using 1(2) by (auto simp: Let_def bind_eq_Some_conv)
      then show False using 1(1) h by blast
    qed
  qed
  then show False using assms by simp
qed

subsection \<open>Building a query\<close>

lemma buf_put_ok:
  assumes "buf_ok b" and "length s \<le> room b"
  shows "buf_ok (buf_put b s)" and "contents (buf_put b s) = contents b @ s"
    and "room (buf_put b s) = room b - length s"
  using bf.put_fits [OF assms] by (cases "ems_buffer_write b s (int (length s))"; simp add: buf_put_def)+

lemma strchr_label:
  "c \<notin> set l \<Longrightarrow> strchr (l @ c # s) c = Some (c # s)"
  by (induction l) auto

lemma dotted_ne: "list_all label_ok ls \<Longrightarrow> dotted ls = [] \<longleftrightarrow> ls = []"
  by (cases ls) (auto simp: dotted_Cons label_ok_def)

lemma dotted_chars: "list_all label_ok ls \<Longrightarrow> c \<in> set (dotted ls) \<Longrightarrow> uchr c \<noteq> 0"
proof (induction ls)
  case (Cons l ls)
  have "uchr c = 0 \<Longrightarrow> c = char_of (0 :: nat)" by (metis char_of_uchr)
  then have "uchr c = 0 \<Longrightarrow> c = CHR 0x00" by (simp add: char_of_def)
  moreover have "uchr CHR ''.'' \<noteq> 0" by (simp add: uchr_def)
  ultimately show ?case using Cons by (auto simp: dotted_Cons label_ok_def split: if_splits)
qed simp

lemma url_text_dotted:
  assumes "list_all label_ok ls" and "length (dotted ls) < 512"
  shows "dns_url_text (dotted ls) = Some (dotted ls)"
  using assms dotted_chars [OF assms(1)] by (simp add: dns_url_text_def takeWhile_eq_all_conv)

definition label_bytes :: "string list \<Rightarrow> string" where
  "label_bytes ls = concat (map (\<lambda>l. char_of (length l) # l) ls)"

lemma enc_labels_eq: "enc_labels ls = label_bytes ls @ [char_of (0 :: nat)]"
  by (induction ls) (simp_all add: label_bytes_def)

lemma set_labels_ok:
  assumes "list_all label_ok ls" and "buf_ok b" and "length (label_bytes ls) \<le> room b"
  shows "buf_ok (dns_set_labels b (dotted ls)) \<and>
    contents (dns_set_labels b (dotted ls)) = contents b @ label_bytes ls \<and>
    room (dns_set_labels b (dotted ls)) = room b - length (label_bytes ls)"
  using assms
proof (induction ls arbitrary: b)
  case Nil
  then show ?case by (simp add: dns_set_labels.simps label_bytes_def)
next
  case (Cons l ls)
  let ?b = "buf_put (buf_put b [char_of (length l)]) l"
  have l: "l \<noteq> []" "CHR ''.'' \<notin> set l" and ls: "list_all label_ok ls"
    using Cons.prems(1) by (simp_all add: label_ok_def [of l])
  have fits: "length [char_of (length l) :: char] \<le> room b" "length l \<le> room b - 1"
    "length (label_bytes ls) \<le> room b - 1 - length l"
    using Cons.prems(3) by (auto simp: label_bytes_def)
  note p1 = buf_put_ok [OF Cons.prems(2) fits(1)]
  have "length l \<le> room (buf_put b [char_of (length l)])" using p1(3) fits(2) by simp
  note p2 = buf_put_ok [OF p1(1) this]
  show ?case
  proof (cases "ls = []")
    case True
    then have "dns_set_labels b (dotted (l # ls)) = ?b"
      using l strchr_None [of l "CHR ''.''"] by (simp add: dns_set_labels.simps)
    then show ?thesis using p1 p2 True by (simp add: label_bytes_def)
  next
    case False
    have "dotted (l # ls) = l @ CHR ''.'' # dotted ls" using False by (simp add: dotted_Cons)
    then have "dns_set_labels b (dotted (l # ls)) = dns_set_labels ?b (dotted ls)"
      using l by (simp add: dns_set_labels.simps [of b] strchr_label Let_def)
    moreover have "length (label_bytes ls) \<le> room ?b" using p1(3) p2(3) fits(3) by simp
    note Cons.IH [OF ls p2(1) this]
    ultimately show ?thesis using p1 p2 by (simp add: label_bytes_def)
  qed
qed

lemma set_question_ok:
  assumes "list_all label_ok ls" and "buf_ok b" and "length (enc_labels ls) \<le> room b"
  shows "buf_ok (dns_set_question b (dotted ls))"
    and "contents (dns_set_question b (dotted ls)) = contents b @ enc_labels ls"
    and "room (dns_set_question b (dotted ls)) = room b - length (enc_labels ls)"
proof -
  let ?b = "dns_set_labels b (dotted ls)"
  have s: "buf_ok ?b" "contents ?b = contents b @ label_bytes ls" "room ?b = room b - length (label_bytes ls)"
    using set_labels_ok [OF assms(1,2)] assms(3) by (simp_all add: enc_labels_eq)
  have "length [char_of (0 :: nat) :: char] \<le> room ?b" using s(3) assms(3) by (simp add: enc_labels_eq)
  note p = buf_put_ok [OF s(1) this]
  show "buf_ok (dns_set_question b (dotted ls))" "contents (dns_set_question b (dotted ls)) = contents b @ enc_labels ls"
    "room (dns_set_question b (dotted ls)) = room b - length (enc_labels ls)"
    using p s by (simp_all add: dns_set_question_def enc_labels_eq)
qed

lemma fill_query_ok:
  assumes "list_all label_ok ls" and "buf_ok b" and "brd b = 0" and "bwr b = 0"
    and "length (enc_labels ls) + 16 \<le> length (bmem b)"
  obtains b' where "dns_fill_query b i (dotted ls) = Some b'" and "buf_ok b'"
    and "contents b' = dns_put_header (dns_query_header i) @ enc_labels ls @ be16 1 @ be16 1"
proof -
  let ?h = "dns_put_header (dns_query_header i)"
  let ?b = "b\<lparr>bmem := mem_write (bmem b) 0 ?h\<rparr>"
  have c: "contents b = []" using assms(4) by (simp add: contents_def)
  have r: "length ?h \<le> room b" using assms(4,5) by (simp add: room_def)
  have "snd (ems_buffer_seek_wr ?b 12 2) = ?b\<lparr>bwr := 12\<rparr>"
    using commit_write(1) [OF assms(2) r] assms(4) by simp
  moreover have a: "buf_ok (?b\<lparr>bwr := 12\<rparr>)" "contents (?b\<lparr>bwr := 12\<rparr>) = ?h"
    "room (?b\<lparr>bwr := 12\<rparr>) = length (bmem b) - 12"
    using append_ok [OF assms(2) r] assms(4) c by (simp_all add: room_def)
  moreover have "mem_put (bmem b) (brd b) ?h = Some (mem_write (bmem b) 0 ?h)"
    using assms(3,5) by (simp add: mem_put_def)
  ultimately have f: "dns_fill_query b i (dotted ls) =
      Some (buf_put (buf_put (dns_set_question (?b\<lparr>bwr := 12\<rparr>) (dotted ls)) (be16 1)) (be16 1))"
    by (simp add: dns_fill_query_def Let_def)
  have "length (enc_labels ls) \<le> room (?b\<lparr>bwr := 12\<rparr>)" using a(3) assms(5) by simp
  note q = set_question_ok [OF assms(1) a(1) this]
  have "length (be16 1) \<le> room (dns_set_question (?b\<lparr>bwr := 12\<rparr>) (dotted ls))" using q(3) a(3) assms(5) by simp
  note p1 = buf_put_ok [OF q(1) this]
  have "length (be16 1) \<le> room (buf_put (dns_set_question (?b\<lparr>bwr := 12\<rparr>) (dotted ls)) (be16 1))"
    using p1(3) q(3) a(3) assms(5) by simp
  note p2 = buf_put_ok [OF p1(1) this]
  show ?thesis
    by (rule that [OF f p2(1)]) (use p1 p2 q a in simp)
qed

subsection \<open>Answers\<close>

text \<open>
  A resource record as it stands in a message: a name in full or as a pointer to the question,
  type, class, time to live and data.
\<close>

type_synonym rr = "string list option \<times> 16 word \<times> 16 word \<times> nat \<times> string"

fun rr_bytes :: "rr \<Rightarrow> string" where
  "rr_bytes (nm, ty, cls, ttl, data) =
    (case nm of None \<Rightarrow> name_ptr 12 | Some ls \<Rightarrow> enc_labels ls) @
    be16 ty @ be16 cls @ be32 ttl @ be16 (word_of_nat (length data)) @ data"

fun rr_ok :: "rr \<Rightarrow> bool" where
  "rr_ok (nm, ty, cls, ttl, data) \<longleftrightarrow>
    (case nm of None \<Rightarrow> True | Some ls \<Rightarrow> list_all label_ok ls \<and> length (dotted ls) < 512) \<and>
    length data < 65536 \<and> (ty = 1 \<and> cls = 1 \<longrightarrow> length data = 4)"

fun rr_addrs :: "rr \<Rightarrow> 32 word list" where
  "rr_addrs (nm, ty, cls, ttl, data) = (if ty = 1 \<and> cls = 1 then [word_of_nat (get32 data)] else [])"

lemma get_item:
  assumes "mem = pre @ be16 ty @ be16 cls @ be32 ttl @ be16 len @ post" and "p = length pre"
  shows "get_dns_item mem p = Some \<lparr>it_ty = ty, it_cls = cls, it_len = len\<rparr>"
proof -
  have "dns_get_short mem p = Some (p + 2, ty)"
    unfolding assms by (rule get_short_be16) simp
  moreover have e: "mem = (pre @ be16 ty) @ be16 cls @ be32 ttl @ be16 len @ post" using assms(1) by simp
  have "dns_get_short mem (p + 2) = Some (p + 2 + 2, cls)"
    unfolding e by (rule get_short_be16) (simp add: assms(2))
  moreover have e: "mem = (pre @ be16 ty @ be16 cls @ be32 ttl) @ be16 len @ post" using assms(1) by simp
  have "dns_get_short mem (p + 8) = Some (p + 8 + 2, len)"
    unfolding e by (rule get_short_be16) (simp add: assms(2))
  ultimately show ?thesis by (simp add: get_dns_item_def)
qed

lemma get32_append: "length s = 4 \<Longrightarrow> get32 (s @ t) = get32 s"
  by (simp add: get32_def nth_append)

lemma rr_name:
  assumes "rr_ok (nm, r)" and "mem = pre @ rr_bytes (nm, r) @ post"
    and "dns_get_name mem 12 = Some (Inr (q, dotted qs))" and "list_all label_ok qs"
    and "length (dotted qs) < 512" and "12 < length mem"
  obtains n where "dns_get_name mem (length pre) = Some (Inr (length pre + n, dotted (case nm of None \<Rightarrow> qs | Some ls \<Rightarrow> ls)))"
    and "n = length (case nm of None \<Rightarrow> name_ptr 12 | Some ls \<Rightarrow> enc_labels ls)"
    and "dns_url_text (dotted (case nm of None \<Rightarrow> qs | Some ls \<Rightarrow> ls)) \<noteq> None"
proof (cases nm)
  case None
  obtain ty cls ttl data where r: "r = (ty, cls, ttl, data)" by (cases r) auto
  have "mem = pre @ name_ptr 12 @ (be16 ty @ be16 cls @ be32 ttl @ be16 (word_of_nat (length data)) @ data @ post)"
    using assms(2) None r by simp
  from get_name_ptr [OF _ this assms(6,3)]
  have "dns_get_name mem (length pre) = Some (Inr (length pre + 2, dotted qs))" by simp
  then show ?thesis
    by (intro that [of 2]) (simp_all add: None url_text_dotted [OF assms(4,5)] name_ptr_def)
next
  case (Some ls)
  obtain ty cls ttl data where r: "r = (ty, cls, ttl, data)" by (cases r) auto
  have ls: "list_all label_ok ls" "length (dotted ls) < 512" using assms(1) Some r by auto
  have "mem = pre @ enc_labels ls @ (be16 ty @ be16 cls @ be32 ttl @ be16 (word_of_nat (length data)) @ data @ post)"
    using assms(2) Some r by simp
  from get_name_enc [OF ls(1) this] show ?thesis
    by (intro that [of "length (enc_labels ls)"]) (simp_all add: Some url_text_dotted [OF ls])
qed

lemma all_address_ok:
  assumes "list_all rr_ok rrs" and "mem = pre @ concat (map rr_bytes rrs) @ post"
    and "dns_get_name mem 12 = Some (Inr (q, dotted qs))" and "list_all label_ok qs"
    and "length (dotted qs) < 512" and "12 < length mem"
  shows "dns_get_all_address mem (length pre) (length rrs) = Some (concat (map rr_addrs rrs))"
  using assms(1,2)
proof (induction rrs arbitrary: pre)
  case Nil
  show ?case by simp
next
  case (Cons rr rrs)
  obtain nm ty cls ttl data where rr: "rr = (nm, ty, cls, ttl, data)" by (cases rr) auto
  let ?nm = "case nm of None \<Rightarrow> name_ptr 12 | Some ls \<Rightarrow> enc_labels ls" and ?post = "concat (map rr_bytes rrs) @ post"
  have mem: "mem = pre @ rr_bytes (nm, ty, cls, ttl, data) @ ?post" using Cons.prems(2) rr by simp
  have ok: "rr_ok (nm, ty, cls, ttl, data)" using Cons.prems(1) rr by simp
  obtain n where n: "dns_get_name mem (length pre) = Some (Inr (length pre + n, dotted (case nm of None \<Rightarrow> qs | Some ls \<Rightarrow> ls)))"
    "n = length ?nm" "dns_url_text (dotted (case nm of None \<Rightarrow> qs | Some ls \<Rightarrow> ls)) \<noteq> None"
    using rr_name [OF ok mem assms(3-6)] by blast
  let ?pre = "pre @ ?nm"
  have item: "get_dns_item mem (length pre + n) = Some \<lparr>it_ty = ty, it_cls = cls, it_len = word_of_nat (length data)\<rparr>"
    by (rule get_item [where pre = ?pre and post = "data @ ?post" and ttl = ttl]) (use mem n(2) in simp_all)
  have len: "unat (word_of_nat (length data) :: 16 word) = length data"
    using ok by (simp add: unsigned_of_nat take_bit_eq_mod)
  have drop: "drop (length pre + n + 10) mem = data @ ?post" using mem n(2) by simp
  then have room: "length pre + n + 10 + length data \<le> length mem"
    using mem n(2) by simp
  have "mem = (pre @ rr_bytes (nm, ty, cls, ttl, data)) @ concat (map rr_bytes rrs) @ post" using mem by simp
  from Cons.IH [OF _ this] have rest: "dns_get_all_address mem (length pre + n + 10 + length data) (length rrs) =
      Some (concat (map rr_addrs rrs))"
    using Cons.prems(1) n(2) by (simp add: ac_simps)
  show ?case
  proof (cases "ty = 1 \<and> cls = 1")
    case True
    then have "length data = 4" using ok by simp
    then show ?thesis
      using n(1,3) item len rest room drop True rr by (auto simp: get32_append Let_def)
  next
    case False
    then show ?thesis using n(1,3) item len rest rr by (auto simp: Let_def)
  qed
qed

lemma question_ok:
  assumes "list_all label_ok qs" and "length (dotted qs) < 512"
    and "mem = pre @ enc_labels qs @ be16 ty @ be16 cls @ post"
  shows "fw_dns_get_question True mem (length pre) =
    Some (length pre + length (enc_labels qs) + 4,
      \<lparr>qtype = ty, qclass = cls, qname = \<lparr>str_len = length (dotted qs), str_data = Some (dotted qs)\<rparr>\<rparr>)"
  using get_name_enc [OF assms(1,3)] url_text_dotted [OF assms(1,2)] assms(3)
    get_short_be16 [of "pre @ enc_labels qs" "length pre + length (enc_labels qs)" ty "be16 cls @ post"]
    get_short_be16 [of "pre @ enc_labels qs @ be16 ty" "length pre + length (enc_labels qs) + 2" cls post]
  by (simp add: fw_dns_get_question_def str_set_def)

subsection \<open>Properties\<close>

text \<open>
  C30: A query the forwarder builds for a name is read back as it was meant: in a fresh buffer with
  room for it, the header has the identifier asked for with recursion desired and one question, and
  parsing the question yields the name, type A and class IN and ends where the message ends.
\<close>

theorem dns_query_roundtrip:
  assumes "list_all label_ok ls" and "length (dotted ls) < 512"
    and "buf_ok b" and "brd b = 0" and "bwr b = 0" and "length (enc_labels ls) + 16 \<le> length (bmem b)"
  shows "\<exists>b'. dns_fill_query b i (dotted ls) = Some b' \<and> buf_ok b' \<and>
    dns_get_header (contents b') = Some (dns_query_header i) \<and> DNS_QR (dns_query_header i) = 0 \<and>
    fw_dns_get_question True (contents b') 12 =
      Some (length (contents b'), \<lparr>qtype = 1, qclass = 1,
        qname = \<lparr>str_len = length (dotted ls), str_data = Some (dotted ls)\<rparr>\<rparr>)"
proof -
  obtain b' where b': "dns_fill_query b i (dotted ls) = Some b'" "buf_ok b'"
    "contents b' = dns_put_header (dns_query_header i) @ enc_labels ls @ be16 1 @ be16 1"
    using fill_query_ok [OF assms(1,3-6)] by blast
  have "DNS_QR (dns_query_header i) = 0" by (simp add: DNS_QR_def dns_query_header_def)
  then show ?thesis
    using b' get_put_header question_ok [OF assms(1,2), of "contents b'" "dns_put_header (dns_query_header i)" 1 1 "[]"]
    by simp
qed

theorem dns_query_roundtrip_witness:
  "\<exists>b'. dns_fill_query (snd (ems_buffer_init True (\<lambda>_. CHR ''x'') 64)) 7 ''www.a.cn'' = Some b' \<and>
    dns_get_header (contents b') = Some (dns_query_header 7) \<and>
    fw_dns_get_question True (contents b') 12 =
      Some (length (contents b'), \<lparr>qtype = 1, qclass = 1, qname = \<lparr>str_len = 8, str_data = Some ''www.a.cn''\<rparr>\<rparr>)"
proof -
  let ?ls = "[''www'', ''a'', ''cn'']" and ?b = "snd (ems_buffer_init True (\<lambda>_. CHR ''x'') 64)"
  have "list_all label_ok ?ls" "length (dotted ?ls) < 512" "buf_ok ?b" "brd ?b = 0" "bwr ?b = 0"
    "length (enc_labels ?ls) + 16 \<le> length (bmem ?b)"
    by (simp_all add: label_ok_def ems_buffer_init_def buf_ok_def)
  moreover have "length (dotted ?ls) = 8" "dotted ?ls = ''www.a.cn''" by simp_all
  ultimately show ?thesis using dns_query_roundtrip [of ?ls ?b 7] by metis
qed



text \<open>
  A reply can stop the forwarder for ever: a name that is a compression pointer to itself (for
  instance the bytes C0 0C at offset 12 of the reply) makes the parser of names recurse without end,
  so it never returns, and neither does the parser of the question.
\<close>

theorem dns_pointer_loop:
  assumes "loops_at mem p"
  shows "dns_get_name mem p = None \<and> fw_dns_get_question alloc mem p = None"
proof -
  have "p < length mem" using assms by (simp add: loops_at_def)
  then have "dns_get_name mem p = None"
    using labels_loop [OF assms] by (simp add: dns_get_name_def)
  then show ?thesis by (simp add: fw_dns_get_question_def)
qed

theorem dns_pointer_loop_witness:
  "dns_get_name (dns_put_header (dns_query_header 7) @ name_ptr 12) 12 = None"
  by (rule dns_pointer_loop [THEN conjunct1]) (simp add: loops_at_def name_ptr_def nth_append dns_offset_def)

end
