(* ===== verification/Ems_Fw_Rules.thy ===== *)
theory Ems_Fw_Rules
  imports Ems_Text Ems_Msg
begin

text \<open>
  The rules of the firewall: the functions of \<^verbatim>\<open>c/ems/src/core/ems_fw.c\<close> that run \<open>iptables\<close>, and the
  module \<^verbatim>\<open>app_g_fw.c\<close> of the global firewall.

  The effect of these functions is the sequence of commands they run, kept as a log in the order they
  are run; \<open>cmd_text\<close> is the command line of each, with the format of the source. How a command ends
  is a parameter of the environment: the status \<open>system\<close> returns and the value of \<open>errno\<close> behind it,
  as a function of the commands run before. The command lines are taken to fit in the buffer
  \<open>ems_systemcmd\<close> prints them into.
\<close>

subsection \<open>Commands\<close>

text \<open>
  \<open>Rule inif tb op chain matches target\<close> appends, inserts or deletes the rule of a chain that has
  the matches and the target; \<open>inif\<close> is the interface of the option \<open>-i\<close>.
\<close>

datatype rule_op = OpA | OpI | OpD

datatype sys_cmd =
    NewChain string string
  | Flush bool string string
  | DelChain string string
  | Rule "string option" string rule_op string string string
  | Shell string

fun op_text :: "rule_op \<Rightarrow> string" where
  "op_text OpA = ''-A''" | "op_text OpI = ''-I''" | "op_text OpD = ''-D''"

fun cmd_text :: "sys_cmd \<Rightarrow> string" where
  "cmd_text (NewChain tb chain) = ''iptables -w -t '' @ tb @ '' -N '' @ chain"
| "cmd_text (Flush w tb chain) = ''iptables '' @ (if w then ''-w '' else '''') @ ''-t '' @ tb @ '' -F '' @ chain"
| "cmd_text (DelChain tb chain) = ''iptables -w -t '' @ tb @ '' -X '' @ chain"
| "cmd_text (Rule inif tb op chain matches target) =
    ''iptables -w '' @ (case inif of None \<Rightarrow> '''' | Some i \<Rightarrow> ''-i '' @ i @ '' '') @ ''-t '' @ tb @ '' '' @
    op_text op @ '' '' @ chain @ '' '' @ matches @ ''-j '' @ target"
| "cmd_text (Shell s) = s"

text \<open>
  The environment: the outcome of commands, the line \<open>popen\<close> reads from the listing of a table, the
  interface and address of the gateway, the wireless interface the firewall is attached to, and the
  address lists of the configuration.
\<close>

datatype json = JStr string | JInt int | JArr "json list" | JObj "(string \<times> json) list" | JOther

record fw_env =
  sys_st :: "sys_cmd list \<Rightarrow> sys_cmd \<Rightarrow> int \<times> int"
  popen_line :: "sys_cmd list \<Rightarrow> string \<Rightarrow> string"
  core_gw_ifname :: string
  core_gw_addr :: string
  ssid_ifname :: string
  ssid_id :: int
  ssid_whitemac :: "string list"
  ssid_blackmac :: "string list"
  ssid_whitelist :: "string list"
  cfg_mac_white :: "json list option"
  cfg_mac_black :: "json list option"

text \<open>\<open>ems_systemcmd\<close> returns \<open>errno\<close> when the command fails.\<close>

definition ems_systemcmd :: "fw_env \<Rightarrow> sys_cmd \<Rightarrow> sys_cmd list \<Rightarrow> int \<times> sys_cmd list" where
  "ems_systemcmd e c log =
    (case sys_st e log c of (st, errno) \<Rightarrow> (if st \<noteq> EMS_OK then errno else EMS_OK, log @ [c]))"

definition ipt_run :: "fw_env \<Rightarrow> sys_cmd \<Rightarrow> sys_cmd list \<Rightarrow> sys_cmd list" where
  "ipt_run e c log = snd (ems_systemcmd e c log)"

subsection \<open>Names\<close>

definition FW_PREFIX :: string where "FW_PREFIX = ''yk_''"
definition FW_T_MANGLE_PREROUTING :: string where "FW_T_MANGLE_PREROUTING = FW_PREFIX @ ''prerouting''"
definition FW_T_NAT_PREROUTING :: string where "FW_T_NAT_PREROUTING = FW_PREFIX @ ''prerouting''"
definition FW_T_NAT_PORTAL_PRE :: string where "FW_T_NAT_PORTAL_PRE = FW_PREFIX @ ''pre''"
definition FW_T_NAT_PORTAL_GLOBAL :: string where "FW_T_NAT_PORTAL_GLOBAL = FW_PREFIX @ ''global''"
definition FW_T_NAT_PORTAL_POST :: string where "FW_T_NAT_PORTAL_POST = FW_PREFIX @ ''post''"
definition FW_T_NAT_PORTAL_GLOBAL_BLACKMAC :: string where
  "FW_T_NAT_PORTAL_GLOBAL_BLACKMAC = FW_T_NAT_PORTAL_GLOBAL @ ''blackmac''"
definition FW_T_NAT_PORTAL_GLOBAL_WHITEMAC :: string where
  "FW_T_NAT_PORTAL_GLOBAL_WHITEMAC = FW_T_NAT_PORTAL_GLOBAL @ ''whitemac''"
definition FW_T_MANGLE_PHYDEV :: string where "FW_T_MANGLE_PHYDEV = FW_PREFIX @ ''phydev''"
definition FW_T_NAT_PHYDEV_PRE :: string where "FW_T_NAT_PHYDEV_PRE = FW_PREFIX @ ''phydev_pre''"
definition FW_T_NAT_PHYDEV_POST :: string where "FW_T_NAT_PHYDEV_POST = FW_PREFIX @ ''phydev_post''"
definition FW_T_NAT_PRE_PRE :: string where "FW_T_NAT_PRE_PRE = FW_PREFIX @ ''pre_pre''"
definition FW_T_NAT_PRE_MAC_BLACK :: string where "FW_T_NAT_PRE_MAC_BLACK = FW_PREFIX @ ''pre_blackmac''"
definition FW_T_NAT_PRE_MAC_WHITE :: string where "FW_T_NAT_PRE_MAC_WHITE = FW_PREFIX @ ''pre_whitemac''"
definition FW_T_NAT_PRE_DEFAULT :: string where "FW_T_NAT_PRE_DEFAULT = FW_PREFIX @ ''pre_default''"
definition FW_T_NAT_POST_BLACKLIST :: string where "FW_T_NAT_POST_BLACKLIST = FW_PREFIX @ ''post_blacklist''"
definition FW_T_NAT_POST_AUTHED :: string where "FW_T_NAT_POST_AUTHED = FW_PREFIX @ ''post_authed''"
definition FW_T_NAT_POST_WHITELIST :: string where "FW_T_NAT_POST_WHITELIST = FW_PREFIX @ ''post_whitelist''"
definition FW_T_NAT_POST_DEFAULT :: string where "FW_T_NAT_POST_DEFAULT = FW_PREFIX @ ''post_default''"
definition FW_T_NAT_POST_POST :: string where "FW_T_NAT_POST_POST = FW_PREFIX @ ''post_post''"
definition C_FILTER_ACCOUNT :: string where "C_FILTER_ACCOUNT = FW_PREFIX @ ''account''"

abbreviation (input) "C_TABLE_FILTER \<equiv> ''filter''"
abbreviation (input) "C_TABLE_NAT \<equiv> ''nat''"
abbreviation (input) "C_TABLE_MANGLE \<equiv> ''mangle''"

definition fw_chain :: "int \<Rightarrow> string \<Rightarrow> string" where
  "fw_chain mark pfx = pfx @ ''_'' @ ems_itoa mark"

text \<open>\<open>DNAT\<close> to the address where dropped packets go.\<close>

abbreviation (input) "DNAT_DROP \<equiv> ''DNAT --to-destination 127.0.0.100''"

subsection \<open>Creating chains\<close>

definition fw_create_chain :: "fw_env \<Rightarrow> string \<Rightarrow> string \<Rightarrow> sys_cmd list \<Rightarrow> int \<times> sys_cmd list" where
  "fw_create_chain e tb chain log =
    (case ems_systemcmd e (NewChain tb chain) log of
       (ret, log1) \<Rightarrow>
         if ret \<noteq> EMS_OK then
           (if popen_line e log1 (''iptables -S -t '' @ tb @ '' | awk '' @ [CHR 0x27] @ ''/'' @ chain @ ''/ {print $0; exit}'' @ [CHR 0x27]) = []
            then (EMS_ERR, log1) else (EMS_OK, log1))
         else (EMS_OK, log1))"

text \<open>The macro \<open>RET_ERR_FAILED\<close>, for a sequence of calls: the first that fails ends the function.\<close>

fun ret_err_failed :: "('s \<Rightarrow> int \<times> 's) list \<Rightarrow> ('s \<Rightarrow> int \<times> 's) \<Rightarrow> 's \<Rightarrow> int \<times> 's" where
  "ret_err_failed [] fin s = fin s"
| "ret_err_failed (f # fs) fin s =
    (case f s of (ret, s') \<Rightarrow> if ret \<noteq> 0 then (EMS_ERR, s') else ret_err_failed fs fin s')"

definition fw_create_and_insert ::
  "fw_env \<Rightarrow> string \<Rightarrow> string \<Rightarrow> string \<Rightarrow> bool \<Rightarrow> sys_cmd list \<Rightarrow> int \<times> sys_cmd list" where
  "fw_create_and_insert e chain uplink tb head =
    ret_err_failed [fw_create_chain e tb chain]
      (\<lambda>log. (EMS_OK, ipt_run e (Rule None tb (if head then OpI else OpA) uplink '''' chain) log))"

definition fw_apply_defaults :: "fw_env \<Rightarrow> int \<Rightarrow> sys_cmd list \<Rightarrow> int \<times> sys_cmd list" where
  "fw_apply_defaults e mark log =
    (EMS_OK, ipt_run e (Rule (Some (core_gw_ifname e)) C_TABLE_NAT OpA (fw_chain mark FW_T_NAT_POST_POST) '' '' DNAT_DROP) log)"

definition fw_mangle_create_and_insert :: "fw_env \<Rightarrow> int \<Rightarrow> sys_cmd list \<Rightarrow> int \<times> sys_cmd list" where
  "fw_mangle_create_and_insert e mark =
    (let chain = fw_chain mark FW_T_MANGLE_PHYDEV
     in ret_err_failed [fw_create_chain e C_TABLE_MANGLE chain]
          (\<lambda>log. (EMS_OK,
             ipt_run e (Rule None C_TABLE_MANGLE OpA chain '''' (''MARK --set-mark '' @ ems_itoa mark))
               (ipt_run e (Rule None C_TABLE_MANGLE OpA FW_T_MANGLE_PREROUTING (''-m physdev --physdev-in '' @ ssid_ifname e @ '' '') chain) log))))"

definition fw_nat_physdev_create_and_insert ::
  "fw_env \<Rightarrow> int \<Rightarrow> string \<Rightarrow> string \<Rightarrow> bool \<Rightarrow> sys_cmd list \<Rightarrow> int \<times> sys_cmd list" where
  "fw_nat_physdev_create_and_insert e mark chain uplink ins =
    (let c_chain = fw_chain mark chain
     in ret_err_failed [fw_create_chain e C_TABLE_NAT c_chain]
          (\<lambda>log. (EMS_OK, ipt_run e (Rule (Some (core_gw_ifname e)) C_TABLE_NAT (if ins then OpI else OpA) uplink
             (''-m mark --mark '' @ ems_itoa mark @ '' '') c_chain) log)))"

definition fw_nat_create_and_insert ::
  "fw_env \<Rightarrow> int \<Rightarrow> string \<Rightarrow> string \<Rightarrow> bool \<Rightarrow> sys_cmd list \<Rightarrow> int \<times> sys_cmd list" where
  "fw_nat_create_and_insert e mark chain uplink ins =
    (let c_chain = fw_chain mark chain; c_uplink = fw_chain mark uplink
     in ret_err_failed [fw_create_chain e C_TABLE_NAT c_chain]
          (\<lambda>log. (EMS_OK, ipt_run e (Rule (Some (core_gw_ifname e)) C_TABLE_NAT (if ins then OpI else OpA) c_uplink '''' c_chain) log)))"

definition fw_init_chains :: "fw_env \<Rightarrow> int \<Rightarrow> sys_cmd list \<Rightarrow> int \<times> sys_cmd list" where
  "fw_init_chains e mark =
    ret_err_failed
      [fw_mangle_create_and_insert e mark,
       fw_nat_physdev_create_and_insert e mark FW_T_NAT_PHYDEV_PRE FW_T_NAT_PORTAL_PRE False,
       fw_nat_create_and_insert e mark FW_T_NAT_PRE_PRE FW_T_NAT_PHYDEV_PRE False,
       fw_nat_create_and_insert e mark FW_T_NAT_PRE_MAC_BLACK FW_T_NAT_PHYDEV_PRE False,
       fw_nat_create_and_insert e mark FW_T_NAT_PRE_MAC_WHITE FW_T_NAT_PHYDEV_PRE False,
       fw_nat_create_and_insert e mark FW_T_NAT_PRE_DEFAULT FW_T_NAT_PHYDEV_PRE False,
       fw_nat_physdev_create_and_insert e mark FW_T_NAT_PHYDEV_POST FW_T_NAT_PORTAL_POST False,
       fw_nat_create_and_insert e mark FW_T_NAT_POST_BLACKLIST FW_T_NAT_PHYDEV_POST False,
       fw_nat_create_and_insert e mark FW_T_NAT_POST_AUTHED FW_T_NAT_PHYDEV_POST False,
       fw_nat_create_and_insert e mark FW_T_NAT_POST_WHITELIST FW_T_NAT_PHYDEV_POST False,
       fw_nat_create_and_insert e mark FW_T_NAT_POST_DEFAULT FW_T_NAT_PHYDEV_POST False,
       fw_nat_create_and_insert e mark FW_T_NAT_POST_POST FW_T_NAT_PHYDEV_POST False]
      (fw_apply_defaults e mark)"

subsection \<open>Removing chains\<close>

definition fw_clean_and_del :: "fw_env \<Rightarrow> int \<Rightarrow> string \<Rightarrow> string \<Rightarrow> string \<Rightarrow> sys_cmd list \<Rightarrow> sys_cmd list" where
  "fw_clean_and_del e mark chain uplink tb log =
    (let c_chain = fw_chain mark chain; c_uplink = fw_chain mark uplink
     in ipt_run e (DelChain tb c_chain)
          (ipt_run e (Rule None tb OpD c_uplink '''' c_chain)
            (ipt_run e (Flush True tb c_chain) log)))"

definition fw_mangle_clean :: "fw_env \<Rightarrow> int \<Rightarrow> sys_cmd list \<Rightarrow> sys_cmd list" where
  "fw_mangle_clean e mark log =
    (let c_chain = fw_chain mark FW_T_MANGLE_PHYDEV
     in ipt_run e (DelChain C_TABLE_MANGLE c_chain)
          (ipt_run e (Rule None C_TABLE_MANGLE OpD FW_T_MANGLE_PREROUTING (''-m physdev --physdev-in '' @ ssid_ifname e @ '' '') c_chain)
            (ipt_run e (Flush True C_TABLE_MANGLE c_chain) log)))"

definition fw_nat_clean_physdev :: "fw_env \<Rightarrow> int \<Rightarrow> string \<Rightarrow> string \<Rightarrow> sys_cmd list \<Rightarrow> sys_cmd list" where
  "fw_nat_clean_physdev e mark chain uplink log =
    (let c_chain = fw_chain mark chain
     in ipt_run e (DelChain C_TABLE_NAT c_chain)
          (ipt_run e (Rule (Some (core_gw_ifname e)) C_TABLE_NAT OpD uplink (''-m mark --mark '' @ ems_itoa mark @ '' '') c_chain)
            (ipt_run e (Flush True C_TABLE_NAT c_chain) log)))"

definition fw_uninit_chains :: "fw_env \<Rightarrow> int \<Rightarrow> sys_cmd list \<Rightarrow> int \<times> sys_cmd list" where
  "fw_uninit_chains e mark log =
    (EMS_OK, fold (\<lambda>f. f)
      [fw_mangle_clean e mark,
       fw_nat_clean_physdev e mark FW_T_NAT_PHYDEV_PRE FW_T_NAT_PORTAL_PRE,
       fw_nat_clean_physdev e mark FW_T_NAT_PHYDEV_POST FW_T_NAT_PORTAL_POST,
       fw_clean_and_del e mark FW_T_NAT_PRE_PRE FW_T_NAT_PHYDEV_PRE C_TABLE_NAT,
       fw_clean_and_del e mark FW_T_NAT_PRE_MAC_BLACK FW_T_NAT_PHYDEV_PRE C_TABLE_NAT,
       fw_clean_and_del e mark FW_T_NAT_PRE_MAC_WHITE FW_T_NAT_PHYDEV_PRE C_TABLE_NAT,
       fw_clean_and_del e mark FW_T_NAT_PRE_DEFAULT FW_T_NAT_PHYDEV_PRE C_TABLE_NAT,
       fw_clean_and_del e mark FW_T_NAT_POST_BLACKLIST FW_T_NAT_PHYDEV_POST C_TABLE_NAT,
       fw_clean_and_del e mark FW_T_NAT_POST_AUTHED FW_T_NAT_PHYDEV_POST C_TABLE_NAT,
       fw_clean_and_del e mark FW_T_NAT_POST_WHITELIST FW_T_NAT_PHYDEV_POST C_TABLE_NAT,
       fw_clean_and_del e mark FW_T_NAT_POST_DEFAULT FW_T_NAT_PHYDEV_POST C_TABLE_NAT,
       fw_clean_and_del e mark FW_T_NAT_POST_POST FW_T_NAT_PHYDEV_POST C_TABLE_NAT,
       fw_nat_clean_physdev e mark FW_T_NAT_PHYDEV_PRE FW_T_NAT_PORTAL_PRE,
       fw_nat_clean_physdev e mark FW_T_NAT_PHYDEV_POST FW_T_NAT_PORTAL_POST] log)"

subsection \<open>Rules for devices and addresses\<close>

text \<open>\<open>ems_split_foreach\<close> over a list of addresses stops at the first callback that fails; these never do.\<close>

definition fw_user_whitemac_cb :: "fw_env \<Rightarrow> string \<Rightarrow> string \<Rightarrow> sys_cmd list \<Rightarrow> sys_cmd list" where
  "fw_user_whitemac_cb e chain mac =
    ipt_run e (Rule (Some (core_gw_ifname e)) C_TABLE_NAT OpA chain (''-m mac --mac-source '' @ mac @ '' '') ''ACCEPT'')"

definition fw_flush_user_mac_white :: "fw_env \<Rightarrow> int \<Rightarrow> sys_cmd list \<Rightarrow> int \<times> sys_cmd list" where
  "fw_flush_user_mac_white e mark log =
    (let chain = fw_chain mark FW_T_NAT_PRE_MAC_WHITE
     in (EMS_OK, fold (fw_user_whitemac_cb e chain) (ssid_whitemac e) (ipt_run e (Flush True C_TABLE_NAT chain) log)))"

definition fw_user_blackmac_cb :: "fw_env \<Rightarrow> string \<Rightarrow> string \<Rightarrow> sys_cmd list \<Rightarrow> sys_cmd list" where
  "fw_user_blackmac_cb e chain mac =
    ipt_run e (Rule (Some (core_gw_ifname e)) C_TABLE_NAT OpA chain (''-m mac --mac-source '' @ mac @ '' '') DNAT_DROP)"

definition fw_flush_user_mac_black :: "fw_env \<Rightarrow> int \<Rightarrow> sys_cmd list \<Rightarrow> int \<times> sys_cmd list" where
  "fw_flush_user_mac_black e mark log =
    (let chain = fw_chain mark FW_T_NAT_PRE_MAC_BLACK
     in (EMS_OK, fold (fw_user_blackmac_cb e chain) (ssid_blackmac e) (ipt_run e (Flush True C_TABLE_NAT chain) log)))"

text \<open>
  \<open>fw_mac_update\<close> copies the text without its NUL. \<open>fw_device_free\<close> copies into a zeroed array of
  32 characters: a text of 32 or more characters is written past it or left without its NUL.
\<close>

definition fw_mac_update :: "string \<Rightarrow> string" where
  "fw_mac_update src = map (\<lambda>c. if c = CHR ''-'' then CHR '':'' else c) src"

definition fw_device_free ::
  "fw_env \<Rightarrow> int \<Rightarrow> string \<Rightarrow> string \<Rightarrow> bool \<Rightarrow> sys_cmd list \<Rightarrow> (int \<times> sys_cmd list) option" where
  "fw_device_free e mark userip usermac yes log =
    (if 32 \<le> length usermac then None
     else (let mac = fw_mac_update usermac;
               chain = fw_chain mark FW_T_NAT_POST_AUTHED;
               opt = (if yes then OpA else OpD)
           in Some (EMS_OK,
                ipt_run e (Rule None C_TABLE_FILTER opt C_FILTER_ACCOUNT []
                    (''ACCOUNT --addr '' @ userip @ ''/32 --tname '' @ FW_PREFIX @ usermac))
                  (ipt_run e (Rule (Some (core_gw_ifname e)) C_TABLE_NAT opt chain
                    (''-m mac --mac-source '' @ mac @ '' -s '' @ userip @ '' '') ''ACCEPT'') log))))"

text \<open>Names and addresses that are let through or blocked.\<close>

record dns_url =
  w_flg :: flags
  w_url :: ems_str
  n_addr :: int
  w_addr :: "32 word list option"
  mask :: int

definition FLG_URL_IS_IPADDRESS :: flags where "FLG_URL_IS_IPADDRESS = 2 ^ 0"
definition FLG_DNS_QUERY_SELF :: flags where "FLG_DNS_QUERY_SELF = 2 ^ 1"
definition FLG_DNS_QUERY_EXPIRED :: flags where "FLG_DNS_QUERY_EXPIRED = 2 ^ 2"
definition FLG_DNS_IS_SUBDOMAIN :: flags where "FLG_DNS_IS_SUBDOMAIN = 2 ^ 3"
definition FLG_DNS_IS_BLACKLIST :: flags where "FLG_DNS_IS_BLACKLIST = 2 ^ 4"

text \<open>The copies of names are taken to be allocated, so that \<open>str_text\<close> is never the null pointer.\<close>

definition str_text :: "ems_str \<Rightarrow> string" where
  "str_text s = (case str_data s of None \<Rightarrow> [] | Some t \<Rightarrow> t)"

definition inet_ntoa :: "32 word \<Rightarrow> string" where
  "inet_ntoa a =
    (let n = unat a
     in dec_string (n div 2 ^ 24) @ ''.'' @ dec_string (n div 2 ^ 16 mod 256) @ ''.'' @
        dec_string (n div 2 ^ 8 mod 256) @ ''.'' @ dec_string (n mod 256))"

definition url_rule :: "fw_env \<Rightarrow> int \<Rightarrow> dns_url \<Rightarrow> rule_op \<Rightarrow> 32 word \<Rightarrow> sys_cmd" where
  "url_rule e mark url opt a =
    (let black = ems_flag_like (w_flg url) FLG_DNS_IS_BLACKLIST
     in Rule (Some (core_gw_ifname e)) C_TABLE_NAT opt
          (fw_chain mark (if black then FW_T_NAT_POST_BLACKLIST else FW_T_NAT_POST_WHITELIST))
          (''-d '' @ inet_ntoa a @ ''/'' @ ems_itoa (mask url) @ '' '')
          ((if black then DNAT_DROP else ''ACCEPT'') @ '' -m comment --comment '' @ [CHR 0x27] @ str_text (w_url url) @ [CHR 0x27]))"

fun url_rules ::
  "fw_env \<Rightarrow> int \<Rightarrow> dns_url \<Rightarrow> rule_op \<Rightarrow> 32 word list \<Rightarrow> sys_cmd list \<Rightarrow> 32 word list \<times> sys_cmd list" where
  "url_rules e mark url opt [] log = ([], log)"
| "url_rules e mark url opt (a # as) log =
    (if a = 0 then apfst (Cons a) (url_rules e mark url opt as log)
     else (case ems_systemcmd e (url_rule e mark url opt a) log of
             (ret, log1) \<Rightarrow> apfst (Cons (if ret \<noteq> EMS_OK then 0 else a)) (url_rules e mark url opt as log1)))"

definition fw_url_set_free ::
  "fw_env \<Rightarrow> int \<Rightarrow> dns_url \<Rightarrow> bool \<Rightarrow> sys_cmd list \<Rightarrow> dns_url \<times> sys_cmd list" where
  "fw_url_set_free e mark url app log =
    (let opt = (if app then OpI else OpD)
     in case w_addr url of
          None \<Rightarrow> (url, log)
        | Some as \<Rightarrow>
            (case url_rules e mark url opt (take (nat (n_addr url)) as) log of
               (as', log') \<Rightarrow> (url\<lparr>w_addr := Some (as' @ drop (nat (n_addr url)) as)\<rparr>, log')))"

definition fw_nas_set_free ::
  "fw_env \<Rightarrow> int \<Rightarrow> string \<Rightarrow> int \<Rightarrow> int \<Rightarrow> bool \<Rightarrow> sys_cmd list \<Rightarrow> int \<times> sys_cmd list" where
  "fw_nas_set_free e mark dst srcport dstport app log =
    (EMS_OK, ipt_run e (Rule (Some (core_gw_ifname e)) C_TABLE_NAT (if app then OpI else OpD)
       (fw_chain mark FW_T_NAT_PRE_DEFAULT) (''-p tcp -d '' @ dst @ '' --dport '' @ ems_itoa srcport @ '' '')
       (''DNAT --to-destination '' @ core_gw_addr e @ '':'' @ ems_itoa dstport)) log)"

definition fw_dns_set_free :: "fw_env \<Rightarrow> int \<Rightarrow> int \<Rightarrow> bool \<Rightarrow> sys_cmd list \<Rightarrow> int \<times> sys_cmd list" where
  "fw_dns_set_free e mark dstport app log =
    (EMS_OK, ipt_run e (Rule (Some (core_gw_ifname e)) C_TABLE_NAT (if app then OpI else OpD)
       (fw_chain mark FW_T_NAT_PRE_PRE) ''-p udp --dport 53 ''
       (''DNAT --to-destination '' @ core_gw_addr e @ '':'' @ ems_itoa dstport)) log)"

definition fw_http_set_free :: "fw_env \<Rightarrow> int \<Rightarrow> int \<Rightarrow> int \<Rightarrow> bool \<Rightarrow> sys_cmd list \<Rightarrow> int \<times> sys_cmd list" where
  "fw_http_set_free e mark srcport dstport app log =
    (EMS_OK, ipt_run e (Rule (Some (core_gw_ifname e)) C_TABLE_NAT (if app then OpI else OpD)
       (fw_chain mark FW_T_NAT_POST_DEFAULT) (''-p tcp --dport '' @ ems_itoa srcport @ '' '')
       (''DNAT --to-destination '' @ core_gw_addr e @ '':'' @ ems_itoa dstport)) log)"

definition fw_wired_nic_attach :: "fw_env \<Rightarrow> int \<Rightarrow> bool \<Rightarrow> sys_cmd list \<Rightarrow> int \<times> sys_cmd list" where
  "fw_wired_nic_attach e i attach =
    (let chain = FW_T_MANGLE_PHYDEV @ ''_lan''; c_chain = FW_T_MANGLE_PHYDEV @ ''_'' @ ems_itoa i
     in if attach then
          ret_err_failed [fw_create_chain e C_TABLE_MANGLE chain]
            (\<lambda>log. (EMS_OK, ipt_run e (Rule None C_TABLE_MANGLE OpA chain [] c_chain)
               (ipt_run e (Rule None C_TABLE_MANGLE OpA FW_T_MANGLE_PREROUTING ''-m physdev --physdev-in eth0.1 '' chain) log)))
        else (\<lambda>log. (EMS_OK, ipt_run e (DelChain C_TABLE_MANGLE chain)
               (ipt_run e (Rule None C_TABLE_MANGLE OpD FW_T_MANGLE_PREROUTING ''-m physdev --physdev-in eth0.1 '' chain)
                 (ipt_run e (Flush True C_TABLE_MANGLE chain) log)))))"

subsection \<open>The global firewall\<close>

text \<open>The strings of a JSON array; items that are not strings are skipped.\<close>

fun json_string :: "json \<Rightarrow> string option" where
  "json_string (JStr s) = Some s" | "json_string _ = None"

definition json_strings :: "json list \<Rightarrow> string list" where
  "json_strings ary = List.map_filter json_string ary"

definition g_fw_flush_user_mac_white :: "fw_env \<Rightarrow> sys_cmd list \<Rightarrow> int \<times> sys_cmd list" where
  "g_fw_flush_user_mac_white e log =
    (case cfg_mac_white e of
       None \<Rightarrow> (EMS_OK, log)
     | Some ary \<Rightarrow>
         (EMS_OK, fold (fw_user_whitemac_cb e FW_T_NAT_PORTAL_GLOBAL_WHITEMAC) (json_strings ary)
           (ipt_run e (Flush True C_TABLE_NAT FW_T_NAT_PORTAL_GLOBAL_WHITEMAC) log)))"

definition g_fw_flush_user_mac_black :: "fw_env \<Rightarrow> sys_cmd list \<Rightarrow> int \<times> sys_cmd list" where
  "g_fw_flush_user_mac_black e log =
    (case cfg_mac_black e of
       None \<Rightarrow> (EMS_OK, log)
     | Some ary \<Rightarrow>
         (EMS_OK, fold (fw_user_blackmac_cb e FW_T_NAT_PORTAL_GLOBAL_BLACKMAC) (json_strings ary)
           (ipt_run e (Flush True C_TABLE_NAT FW_T_NAT_PORTAL_GLOBAL_BLACKMAC) log)))"

definition g_fw_do_init_rules :: "fw_env \<Rightarrow> sys_cmd list \<Rightarrow> int \<times> sys_cmd list" where
  "g_fw_do_init_rules e log =
    (let log1 = ipt_run e (Rule (Some (core_gw_ifname e)) C_TABLE_NAT OpA FW_T_NAT_PORTAL_GLOBAL ''-p udp --dport 67 '' ''ACCEPT'') log;
         log2 = ipt_run e (Rule (Some (core_gw_ifname e)) C_TABLE_NAT OpA FW_T_NAT_PORTAL_GLOBAL (''-d '' @ core_gw_addr e @ '' '') ''ACCEPT'') log1
     in (EMS_OK, snd (g_fw_flush_user_mac_black e (snd (g_fw_flush_user_mac_white e log2)))))"

definition g_fw_start :: "fw_env \<Rightarrow> sys_cmd list \<Rightarrow> int \<times> sys_cmd list" where
  "g_fw_start e =
    ret_err_failed
      [fw_create_and_insert e C_FILTER_ACCOUNT ''FORWARD'' C_TABLE_FILTER True,
       fw_create_and_insert e FW_T_MANGLE_PREROUTING ''PREROUTING'' C_TABLE_MANGLE False,
       fw_create_and_insert e FW_T_NAT_PREROUTING ''PREROUTING'' C_TABLE_NAT False,
       fw_create_and_insert e FW_T_NAT_PORTAL_PRE FW_T_NAT_PREROUTING C_TABLE_NAT False,
       fw_create_and_insert e FW_T_NAT_PORTAL_GLOBAL FW_T_NAT_PREROUTING C_TABLE_NAT False,
       fw_create_and_insert e FW_T_NAT_PORTAL_POST FW_T_NAT_PREROUTING C_TABLE_NAT False,
       fw_create_and_insert e FW_T_NAT_PORTAL_GLOBAL_BLACKMAC FW_T_NAT_PORTAL_GLOBAL C_TABLE_NAT True,
       fw_create_and_insert e FW_T_NAT_PORTAL_GLOBAL_WHITEMAC FW_T_NAT_PORTAL_GLOBAL C_TABLE_NAT False]
      (g_fw_do_init_rules e)"

definition g_fw_clean_and_del :: "fw_env \<Rightarrow> string \<Rightarrow> string \<Rightarrow> string \<Rightarrow> sys_cmd list \<Rightarrow> sys_cmd list" where
  "g_fw_clean_and_del e chain uplink tb log =
    ipt_run e (DelChain tb chain) (ipt_run e (Rule None tb OpD uplink [] chain) (ipt_run e (Flush True tb chain) log))"

definition g_fw_stop :: "fw_env \<Rightarrow> sys_cmd list \<Rightarrow> int \<times> sys_cmd list" where
  "g_fw_stop e log =
    (EMS_OK, fold (\<lambda>f. f)
      [g_fw_clean_and_del e C_FILTER_ACCOUNT ''FORWARD'' C_TABLE_FILTER,
       g_fw_clean_and_del e FW_T_MANGLE_PREROUTING ''PREROUTING'' C_TABLE_MANGLE,
       g_fw_clean_and_del e FW_T_NAT_PORTAL_GLOBAL_BLACKMAC FW_T_NAT_PORTAL_GLOBAL C_TABLE_NAT,
       g_fw_clean_and_del e FW_T_NAT_PORTAL_GLOBAL_WHITEMAC FW_T_NAT_PORTAL_GLOBAL C_TABLE_NAT,
       g_fw_clean_and_del e FW_T_NAT_PORTAL_PRE FW_T_NAT_PREROUTING C_TABLE_NAT,
       g_fw_clean_and_del e FW_T_NAT_PORTAL_GLOBAL FW_T_NAT_PREROUTING C_TABLE_NAT,
       g_fw_clean_and_del e FW_T_NAT_PORTAL_POST FW_T_NAT_PREROUTING C_TABLE_NAT,
       g_fw_clean_and_del e FW_T_NAT_PREROUTING ''PREROUTING'' C_TABLE_NAT] log)"

definition g_fw_flush_bwlist :: "fw_env \<Rightarrow> sys_cmd list \<Rightarrow> int \<times> sys_cmd list" where
  "g_fw_flush_bwlist e log =
    (EMS_OK, snd (g_fw_flush_user_mac_black e (snd (g_fw_flush_user_mac_white e log))))"

text \<open>
  The retry loop of \<open>g_fw_do_start\<close> and of \<open>fw_rules_reload\<close>: up to \<open>n\<close> attempts to start, each
  failure undone; the flag says whether an attempt succeeded.
\<close>

fun retry_loop :: "nat \<Rightarrow> ('s \<Rightarrow> int \<times> 's) \<Rightarrow> ('s \<Rightarrow> int \<times> 's) \<Rightarrow> 's \<Rightarrow> bool \<times> 's" where
  "retry_loop 0 start undo s = (False, s)"
| "retry_loop (Suc n) start undo s =
    (case start s of (ret, s1) \<Rightarrow>
       if ret = EMS_OK then (True, s1) else retry_loop n start undo (snd (undo s1)))"

definition set_bridge_nf_call_iptables_enable :: "fw_env \<Rightarrow> sys_cmd list \<Rightarrow> int \<times> sys_cmd list" where
  "set_bridge_nf_call_iptables_enable e log =
    (if ems_atoi (Some (popen_line e log ''cat /proc/sys/net/bridge/bridge-nf-call-iptables'')) = 0
     then (EMS_OK, ipt_run e (Shell ''sysctl -w net.bridge.bridge-nf-call-iptables=1'') log)
     else (EMS_OK, log))"

text \<open>\<open>None\<close>: the process exits after restarting the network.\<close>

definition g_fw_do_start :: "fw_env \<Rightarrow> sys_cmd list \<Rightarrow> int option \<times> sys_cmd list" where
  "g_fw_do_start e log =
    (case retry_loop 3 (g_fw_start e) (g_fw_stop e) (snd (set_bridge_nf_call_iptables_enable e log)) of
       (ok, log1) \<Rightarrow>
         if \<not> ok then (None, ipt_run e (Shell ''/etc/init.d/network restart'') log1)
         else (Some EMS_OK, log1))"

text \<open>The module: whether it runs (\<open>FLG_RUN\<close>) and the commands run so far.\<close>

datatype g_fw_evt = GReload | GStart | GStop | GRules | GOther

record g_fw_mod =
  g_run :: bool
  g_log :: "sys_cmd list"

definition g_fw_run :: "fw_env \<Rightarrow> bool \<Rightarrow> g_fw_mod \<Rightarrow> int option \<times> g_fw_mod" where
  "g_fw_run e run m =
    (if run then
       (if g_run m then (Some EMS_OK, m)
        else (case g_fw_do_start e (g_log m) of
                (None, log) \<Rightarrow> (None, m\<lparr>g_log := log\<rparr>)
              | (Some ret, log) \<Rightarrow> (Some EMS_OK, m\<lparr>g_log := log, g_run := ret = EMS_OK \<or> g_run m\<rparr>)))
     else
       (if \<not> g_run m then (Some EMS_OK, m)
        else (Some EMS_OK, m\<lparr>g_log := snd (g_fw_stop e (g_log m)), g_run := False\<rparr>)))"

definition g_fw_fw_reload :: "fw_env \<Rightarrow> g_fw_mod \<Rightarrow> int option \<times> g_fw_mod" where
  "g_fw_fw_reload e m =
    (case g_fw_do_start e (snd (g_fw_stop e (g_log m))) of
       (None, log) \<Rightarrow> (None, m\<lparr>g_log := log\<rparr>)
     | (Some ret, log) \<Rightarrow> (Some EMS_OK, m\<lparr>g_log := log\<rparr>))"

fun g_fw_process :: "fw_env \<Rightarrow> g_fw_evt \<Rightarrow> g_fw_mod \<Rightarrow> int option \<times> g_fw_mod" where
  "g_fw_process e GReload m = g_fw_fw_reload e m"
| "g_fw_process e GStart m = g_fw_run e True m"
| "g_fw_process e GStop m = g_fw_run e False m"
| "g_fw_process e GRules m = (case g_fw_flush_bwlist e (g_log m) of (ret, log) \<Rightarrow> (Some ret, m\<lparr>g_log := log\<rparr>))"
| "g_fw_process e GOther m = (Some EMS_OK, m)"

end
