(* ===== verification/Ems_Fw_Tables.thy ===== *)
theory Ems_Fw_Tables
  imports Ems_Fw_Rules "HOL-Library.Multiset"
begin

text \<open>
  What the commands of the firewall do to the tables of the kernel. The documented behaviour of
  \<^verbatim>\<open>iptables\<close> is a step function on tables; a firewall environment whose commands end as it says is
  the hypothesis \<open>iptables_doc\<close> of the properties: building and removing the chains of an interface,
  and the rules of a name, restore the tables.
\<close>

subsection \<open>Chain names\<close>

lemmas fw_name_defs = FW_PREFIX_def FW_T_MANGLE_PREROUTING_def FW_T_NAT_PREROUTING_def FW_T_NAT_PORTAL_PRE_def
  FW_T_NAT_PORTAL_GLOBAL_def FW_T_NAT_PORTAL_POST_def FW_T_MANGLE_PHYDEV_def FW_T_NAT_PHYDEV_PRE_def
  FW_T_NAT_PHYDEV_POST_def FW_T_NAT_PRE_PRE_def FW_T_NAT_PRE_MAC_BLACK_def FW_T_NAT_PRE_MAC_WHITE_def
  FW_T_NAT_PRE_DEFAULT_def FW_T_NAT_POST_BLACKLIST_def FW_T_NAT_POST_AUTHED_def FW_T_NAT_POST_WHITELIST_def
  FW_T_NAT_POST_DEFAULT_def FW_T_NAT_POST_POST_def

lemma fw_chain_inj: "fw_chain m p = fw_chain m q \<longleftrightarrow> p = q"
  by (simp add: fw_chain_def)

definition digit :: "char \<Rightarrow> bool" where
  "digit c \<longleftrightarrow> 48 \<le> uchr c \<and> uchr c < 58"

lemma dec_string_digits: "dec_string n \<noteq> [] \<and> (\<forall>c \<in> set (dec_string n). digit c)"
proof (induction n rule: dec_string.induct)
  case (1 n)
  have "digit (char_of (48 + n mod 10))" "n < 10 \<Longrightarrow> digit (char_of (48 + n))"
    by (simp_all add: digit_def)
  then show ?case using 1 by (simp add: dec_string.simps [of n])
qed

lemma itoa_last: "ems_itoa m \<noteq> [] \<and> digit (last (ems_itoa m))"
proof -
  have t: "xs \<noteq> [] \<and> (\<forall>c \<in> set xs. digit c) \<Longrightarrow> digit (last (take (Suc n) xs))" for xs :: string and n
    by (metis in_set_takeD last_in_set take_eq_Nil nat.distinct(1))
  have "digit (last (take (Suc 61) (dec_string (nat (- m)))))" "digit (last (take (Suc 62) (dec_string (nat m))))"
    using t dec_string_digits by blast+
  then show ?thesis using dec_string_digits [of "nat (- m)"] dec_string_digits [of "nat m"]
    by (simp add: ems_itoa_def numeral_eq_Suc)
qed

lemma fw_chain_other: "s \<noteq> [] \<Longrightarrow> \<not> digit (last s) \<Longrightarrow> fw_chain m p \<noteq> s \<and> s \<noteq> fw_chain m p"
  using itoa_last [of m] by (auto simp: fw_chain_def)

lemma fw_chain_uplink:
  "fw_chain m p \<noteq> FW_T_MANGLE_PREROUTING" "FW_T_MANGLE_PREROUTING \<noteq> fw_chain m p"
  "fw_chain m p \<noteq> FW_T_NAT_PORTAL_PRE" "FW_T_NAT_PORTAL_PRE \<noteq> fw_chain m p"
  "fw_chain m p \<noteq> FW_T_NAT_PORTAL_POST" "FW_T_NAT_PORTAL_POST \<noteq> fw_chain m p"
  using fw_chain_other [of FW_T_MANGLE_PREROUTING m p] fw_chain_other [of FW_T_NAT_PORTAL_PRE m p]
    fw_chain_other [of FW_T_NAT_PORTAL_POST m p]
  by (simp_all add: fw_name_defs digit_def uchr_def)

subsection \<open>What \<open>iptables\<close> does\<close>

text \<open>
  The documented behaviour of the commands, as the tables they leave and whether they succeed: a
  table maps its chains to their rules. A chain is created when there is none of its name and deleted
  when it is empty and no rule of the table jumps to it; a rule is added to a chain that exists when
  its target is built in or a chain, and deleted when the chain has one like it.
\<close>

type_synonym fw_rule = "string option \<times> string \<times> string"
type_synonym tables = "string \<times> string \<Rightarrow> fw_rule list option"

definition unref :: "string \<Rightarrow> string \<Rightarrow> tables \<Rightarrow> bool" where
  "unref tb c t \<longleftrightarrow> (\<forall>d rs. t (tb, d) = Some rs \<longrightarrow> c \<notin> (\<lambda>(_, _, tg). tg) ` set rs)"

definition builtin_target :: "string \<Rightarrow> bool" where
  "builtin_target tg \<longleftrightarrow> list_ex (\<lambda>w. take (length w) tg = w) [''ACCEPT'', ''DNAT'', ''MARK'', ''ACCOUNT'']"

fun ipt_step :: "sys_cmd \<Rightarrow> tables \<Rightarrow> bool \<times> tables" where
  "ipt_step (NewChain tb c) t = (if t (tb, c) = None then (True, t((tb, c) \<mapsto> [])) else (False, t))"
| "ipt_step (Flush w tb c) t = (if t (tb, c) = None then (False, t) else (True, t((tb, c) \<mapsto> [])))"
| "ipt_step (DelChain tb c) t =
    (if t (tb, c) = Some [] \<and> unref tb c t then (True, t((tb, c) := None)) else (False, t))"
| "ipt_step (Rule inif tb opt c matches tg) t =
    (case t (tb, c) of
       None \<Rightarrow> (False, t)
     | Some rs \<Rightarrow>
         (case opt of
            OpD \<Rightarrow> if (inif, matches, tg) \<in> set rs then (True, t((tb, c) \<mapsto> remove1 (inif, matches, tg) rs)) else (False, t)
          | _ \<Rightarrow> if builtin_target tg \<or> t (tb, tg) \<noteq> None
                then (True, t((tb, c) \<mapsto> (if opt = OpA then rs @ [(inif, matches, tg)] else (inif, matches, tg) # rs)))
                else (False, t)))"
| "ipt_step (Shell s) t = (True, t)"

definition ipt_tables :: "tables \<Rightarrow> sys_cmd list \<Rightarrow> tables" where
  "ipt_tables t0 log = fold (\<lambda>c t. snd (ipt_step c t)) log t0"

definition iptables_doc :: "fw_env \<Rightarrow> tables \<Rightarrow> bool" where
  "iptables_doc e t0 \<longleftrightarrow>
    (\<forall>log c. fst (sys_st e log c) = 0 \<longleftrightarrow> fst (ipt_step c (ipt_tables t0 log)))"

lemma tables_run: "ipt_tables t0 (ipt_run e c log) = snd (ipt_step c (ipt_tables t0 log))"
  by (simp add: ipt_run_def ems_systemcmd_def ipt_tables_def split: prod.splits)

lemma create_ok:
  assumes "iptables_doc e t0" and "ipt_tables t0 log (tb, c) = None"
  shows "\<exists>log'. fw_create_chain e tb c log = (0, log') \<and> ipt_tables t0 log' = (ipt_tables t0 log)((tb, c) \<mapsto> [])"
proof -
  have "fst (sys_st e log (NewChain tb c)) = 0" using assms by (simp add: iptables_doc_def)
  then have "ems_systemcmd e (NewChain tb c) log = (0, log @ [NewChain tb c])"
    by (cases "sys_st e log (NewChain tb c)") (simp add: ems_systemcmd_def)
  then show ?thesis using assms(2) by (simp add: fw_create_chain_def ipt_tables_def)
qed

lemma nat_create_ok:
  assumes "iptables_doc e t0" and "ipt_tables t0 log = t"
    and "t (''nat'', fw_chain m c) = None" and "t (''nat'', fw_chain m u) = Some rs" and "c \<noteq> u"
  shows "\<exists>log'. fw_nat_create_and_insert e m c u False log = (0, log') \<and>
    ipt_tables t0 log' = t((''nat'', fw_chain m c) \<mapsto> [],
      (''nat'', fw_chain m u) \<mapsto> rs @ [(Some (core_gw_ifname e), [], fw_chain m c)])"
proof -
  obtain l where "fw_create_chain e ''nat'' (fw_chain m c) log = (0, l)"
    "ipt_tables t0 l = t((''nat'', fw_chain m c) \<mapsto> [])"
    using create_ok [OF assms(1), of log "''nat''" "fw_chain m c"] assms(2,3) by auto
  then show ?thesis
    using assms(4,5) by (simp add: fw_nat_create_and_insert_def Let_def tables_run fw_chain_inj)
qed

lemma physdev_create_ok:
  assumes "iptables_doc e t0" and "ipt_tables t0 log = t"
    and "t (''nat'', fw_chain m c) = None" and "t (''nat'', u) = Some rs" and "fw_chain m c \<noteq> u"
  shows "\<exists>log'. fw_nat_physdev_create_and_insert e m c u False log = (0, log') \<and>
    ipt_tables t0 log' = t((''nat'', fw_chain m c) \<mapsto> [],
      (''nat'', u) \<mapsto> rs @ [(Some (core_gw_ifname e), ''-m mark --mark '' @ ems_itoa m @ '' '', fw_chain m c)])"
proof -
  obtain l where "fw_create_chain e ''nat'' (fw_chain m c) log = (0, l)"
    "ipt_tables t0 l = t((''nat'', fw_chain m c) \<mapsto> [])"
    using create_ok [OF assms(1), of log "''nat''" "fw_chain m c"] assms(2,3) by auto
  then show ?thesis
    using assms(4,5) by (simp add: fw_nat_physdev_create_and_insert_def Let_def tables_run)
qed

lemma mangle_create_ok:
  assumes "iptables_doc e t0" and "ipt_tables t0 log = t"
    and "t (''mangle'', fw_chain m FW_T_MANGLE_PHYDEV) = None" and "t (''mangle'', FW_T_MANGLE_PREROUTING) = Some rs"
  shows "\<exists>log'. fw_mangle_create_and_insert e m log = (0, log') \<and>
    ipt_tables t0 log' = t((''mangle'', fw_chain m FW_T_MANGLE_PHYDEV) \<mapsto> [(None, [], ''MARK --set-mark '' @ ems_itoa m)],
      (''mangle'', FW_T_MANGLE_PREROUTING) \<mapsto> rs @ [(None, ''-m physdev --physdev-in '' @ ssid_ifname e @ '' '', fw_chain m FW_T_MANGLE_PHYDEV)])"
proof -
  let ?c = "fw_chain m FW_T_MANGLE_PHYDEV"
  obtain l where "fw_create_chain e ''mangle'' ?c log = (0, l)"
    "ipt_tables t0 l = t((''mangle'', ?c) \<mapsto> [])"
    using create_ok [OF assms(1), of log "''mangle''" ?c] assms(2,3) by auto
  then show ?thesis
    using assms(4)
    by (simp add: fw_mangle_create_and_insert_def Let_def tables_run fw_chain_uplink builtin_target_def fun_upd_twist)
qed

subsection \<open>Building and removing the chains of a firewall\<close>

definition fw_names :: "string list" where
  "fw_names = [FW_T_NAT_PHYDEV_PRE, FW_T_NAT_PHYDEV_POST, FW_T_NAT_PRE_PRE, FW_T_NAT_PRE_MAC_BLACK,
    FW_T_NAT_PRE_MAC_WHITE, FW_T_NAT_PRE_DEFAULT, FW_T_NAT_POST_BLACKLIST, FW_T_NAT_POST_AUTHED,
    FW_T_NAT_POST_WHITELIST, FW_T_NAT_POST_DEFAULT, FW_T_NAT_POST_POST]"

lemma fw_names_distinct: "distinct fw_names \<and> distinct (rev fw_names)"
  by (simp add: fw_names_def fw_name_defs)

lemmas fw_ne = fw_names_distinct [unfolded fw_names_def, simplified]

text \<open>The tables before: the chains the firewall hooks into exist, its own do not and nothing jumps to them.\<close>

definition fw_fresh :: "int \<Rightarrow> tables \<Rightarrow> bool" where
  "fw_fresh m t \<longleftrightarrow>
    t (''mangle'', FW_T_MANGLE_PREROUTING) \<noteq> None \<and> t (''nat'', FW_T_NAT_PORTAL_PRE) \<noteq> None \<and>
    t (''nat'', FW_T_NAT_PORTAL_POST) \<noteq> None \<and>
    t (''mangle'', fw_chain m FW_T_MANGLE_PHYDEV) = None \<and> unref ''mangle'' (fw_chain m FW_T_MANGLE_PHYDEV) t \<and>
    list_all (\<lambda>p. t (''nat'', fw_chain m p) = None \<and> unref ''nat'' (fw_chain m p) t) fw_names"

definition fw_jump :: "fw_env \<Rightarrow> int \<Rightarrow> string \<Rightarrow> fw_rule" where
  "fw_jump e m c = (Some (core_gw_ifname e), [], fw_chain m c)"

definition fw_mark_jump :: "fw_env \<Rightarrow> int \<Rightarrow> string \<Rightarrow> fw_rule" where
  "fw_mark_jump e m c = (Some (core_gw_ifname e), ''-m mark --mark '' @ ems_itoa m @ '' '', fw_chain m c)"

text \<open>The chains of the table \<open>nat\<close> a firewall has when it runs, with their rules.\<close>

definition fw_nat_chains :: "fw_env \<Rightarrow> int \<Rightarrow> (string \<times> fw_rule list) list" where
  "fw_nat_chains e m =
    [(FW_T_NAT_PHYDEV_PRE, map (fw_jump e m) [FW_T_NAT_PRE_PRE, FW_T_NAT_PRE_MAC_BLACK, FW_T_NAT_PRE_MAC_WHITE, FW_T_NAT_PRE_DEFAULT]),
     (FW_T_NAT_PRE_PRE, []), (FW_T_NAT_PRE_MAC_BLACK, []), (FW_T_NAT_PRE_MAC_WHITE, []), (FW_T_NAT_PRE_DEFAULT, []),
     (FW_T_NAT_PHYDEV_POST, map (fw_jump e m) [FW_T_NAT_POST_BLACKLIST, FW_T_NAT_POST_AUTHED, FW_T_NAT_POST_WHITELIST,
        FW_T_NAT_POST_DEFAULT, FW_T_NAT_POST_POST]),
     (FW_T_NAT_POST_BLACKLIST, []), (FW_T_NAT_POST_AUTHED, []), (FW_T_NAT_POST_WHITELIST, []), (FW_T_NAT_POST_DEFAULT, []),
     (FW_T_NAT_POST_POST, [(Some (core_gw_ifname e), '' '', ''DNAT --to-destination 127.0.0.100'')])]"

definition fw_tables :: "fw_env \<Rightarrow> int \<Rightarrow> tables \<Rightarrow> tables" where
  "fw_tables e m t0 =
    (fold (\<lambda>(p, rs) t. t((''nat'', fw_chain m p) \<mapsto> rs)) (fw_nat_chains e m) t0)
      ((''mangle'', fw_chain m FW_T_MANGLE_PHYDEV) \<mapsto> [(None, [], ''MARK --set-mark '' @ ems_itoa m)],
       (''mangle'', FW_T_MANGLE_PREROUTING) \<mapsto> the (t0 (''mangle'', FW_T_MANGLE_PREROUTING)) @
          [(None, ''-m physdev --physdev-in '' @ ssid_ifname e @ '' '', fw_chain m FW_T_MANGLE_PHYDEV)],
       (''nat'', FW_T_NAT_PORTAL_PRE) \<mapsto> the (t0 (''nat'', FW_T_NAT_PORTAL_PRE)) @ [fw_mark_jump e m FW_T_NAT_PHYDEV_PRE],
       (''nat'', FW_T_NAT_PORTAL_POST) \<mapsto> the (t0 (''nat'', FW_T_NAT_PORTAL_POST)) @ [fw_mark_jump e m FW_T_NAT_PHYDEV_POST])"

text \<open>A function that leads from tables to tables and succeeds, whatever was run before.\<close>

definition leads :: "tables \<Rightarrow> (sys_cmd list \<Rightarrow> int \<times> sys_cmd list) \<Rightarrow> tables \<Rightarrow> tables \<Rightarrow> bool" where
  "leads t0 f t t' \<longleftrightarrow> (\<forall>log. ipt_tables t0 log = t \<longrightarrow> (\<exists>log'. f log = (0, log') \<and> ipt_tables t0 log' = t'))"

lemma leads_Cons:
  "leads t0 f t t1 \<Longrightarrow> leads t0 (ret_err_failed fs fin) t1 t' \<Longrightarrow> leads t0 (ret_err_failed (f # fs) fin) t t'"
  unfolding leads_def by fastforce

lemma leads_Nil: "leads t0 fin t t' \<Longrightarrow> leads t0 (ret_err_failed [] fin) t t'"
  by (simp add: leads_def)

lemma leads_eq: "leads t0 f t t1 \<Longrightarrow> t1 = t' \<Longrightarrow> leads t0 f t t'"
  by simp

lemma leads_mangle:
  "iptables_doc e t0 \<Longrightarrow> t (''mangle'', fw_chain m FW_T_MANGLE_PHYDEV) = None \<Longrightarrow> t (''mangle'', FW_T_MANGLE_PREROUTING) = Some rs \<Longrightarrow>
    leads t0 (fw_mangle_create_and_insert e m) t (t((''mangle'', fw_chain m FW_T_MANGLE_PHYDEV) \<mapsto> [(None, [], ''MARK --set-mark '' @ ems_itoa m)],
      (''mangle'', FW_T_MANGLE_PREROUTING) \<mapsto> rs @ [(None, ''-m physdev --physdev-in '' @ ssid_ifname e @ '' '', fw_chain m FW_T_MANGLE_PHYDEV)]))"
  unfolding leads_def using mangle_create_ok by blast

lemma leads_physdev:
  "iptables_doc e t0 \<Longrightarrow> t (''nat'', fw_chain m c) = None \<Longrightarrow> t (''nat'', u) = Some rs \<Longrightarrow> fw_chain m c \<noteq> u \<Longrightarrow>
    leads t0 (fw_nat_physdev_create_and_insert e m c u False) t
      (t((''nat'', fw_chain m c) \<mapsto> [], (''nat'', u) \<mapsto> rs @ [fw_mark_jump e m c]))"
  unfolding leads_def fw_mark_jump_def using physdev_create_ok by blast

lemma leads_nat:
  "iptables_doc e t0 \<Longrightarrow> t (''nat'', fw_chain m c) = None \<Longrightarrow> t (''nat'', fw_chain m u) = Some rs \<Longrightarrow> c \<noteq> u \<Longrightarrow>
    leads t0 (fw_nat_create_and_insert e m c u False) t
      (t((''nat'', fw_chain m c) \<mapsto> [], (''nat'', fw_chain m u) \<mapsto> rs @ [fw_jump e m c]))"
  unfolding leads_def fw_jump_def using nat_create_ok by blast

lemma leads_defaults:
  "t (''nat'', fw_chain m FW_T_NAT_POST_POST) = Some rs \<Longrightarrow>
    leads t0 (fw_apply_defaults e m) t (t((''nat'', fw_chain m FW_T_NAT_POST_POST) \<mapsto>
      rs @ [(Some (core_gw_ifname e), '' '', ''DNAT --to-destination 127.0.0.100'')]))"
  by (simp add: leads_def fw_apply_defaults_def tables_run builtin_target_def)

lemma portal_ne: "FW_T_NAT_PORTAL_PRE \<noteq> FW_T_NAT_PORTAL_POST" "FW_T_NAT_PORTAL_POST \<noteq> FW_T_NAT_PORTAL_PRE"
  by (simp_all add: fw_name_defs)

lemma init_chains_ok:
  assumes doc: "iptables_doc e t0" and fresh: "fw_fresh m t0"
  shows "leads t0 (fw_init_chains e m) t0 (fw_tables e m t0)"
proof -
  obtain r1 r2 r3 where r: "t0 (''mangle'', FW_T_MANGLE_PREROUTING) = Some r1"
    "t0 (''nat'', FW_T_NAT_PORTAL_PRE) = Some r2" "t0 (''nat'', FW_T_NAT_PORTAL_POST) = Some r3"
    using fresh by (auto simp: fw_fresh_def)
  have none: "t0 (''mangle'', fw_chain m FW_T_MANGLE_PHYDEV) = None" "\<And>p. p \<in> set fw_names \<Longrightarrow> t0 (''nat'', fw_chain m p) = None"
    using fresh by (auto simp: fw_fresh_def list_all_iff)
  note sm = fw_chain_inj fw_ne fw_chain_uplink none(1) none(2) [unfolded fw_names_def, simplified] r portal_ne
  show ?thesis
    unfolding fw_init_chains_def
    apply (rule leads_eq)
     apply (rule leads_Cons, rule leads_mangle [OF doc], simp add: sm, simp add: sm)
     apply (rule leads_Cons, rule leads_physdev [OF doc], simp add: sm, simp add: sm, simp add: sm)
     apply (rule leads_Cons, rule leads_nat [OF doc], simp add: sm, simp add: sm, simp add: sm)+
     apply (rule leads_Cons, rule leads_physdev [OF doc], simp add: sm, simp add: sm, simp add: sm)
     apply (rule leads_Cons, rule leads_nat [OF doc], simp add: sm, simp add: sm, simp add: sm)+
     apply (rule leads_Nil, rule leads_defaults, simp add: sm)
    apply (rule ext)
    apply (simp add: fw_tables_def fw_nat_chains_def sm)
    done
qed

text \<open>The chains of a set apart, no rule jumps to a chain.\<close>

definition unref_off :: "string set \<Rightarrow> string \<Rightarrow> string \<Rightarrow> tables \<Rightarrow> bool" where
  "unref_off K tb c t \<longleftrightarrow> (\<forall>d rs. d \<notin> K \<longrightarrow> t (tb, d) = Some rs \<longrightarrow> c \<notin> (\<lambda>(_, _, tg). tg) ` set rs)"

lemma unref_off_empty: "unref tb c t \<longleftrightarrow> unref_off {} tb c t"
  by (simp add: unref_def unref_off_def)

lemma unref_base: "unref tb c t \<Longrightarrow> unref_off K tb c t"
  by (auto simp: unref_def unref_off_def)

lemma unref_upd:
  "d \<in> K \<or> c \<notin> (\<lambda>(_, _, tg). tg) ` set rs \<Longrightarrow> unref_off (insert d K) tb c t \<Longrightarrow> unref_off K tb c (t((tb, d) \<mapsto> rs))"
  unfolding unref_off_def by simp blast

lemma unref_del: "unref_off (insert d K) tb c t \<Longrightarrow> unref_off K tb c (t((tb, d) := None))"
  by (auto simp: unref_off_def)

lemma unref_other: "tb' \<noteq> tb \<Longrightarrow> unref_off K tb c t \<Longrightarrow> unref_off K tb c (t((tb', d) := v))"
  by (auto simp: unref_off_def)

lemma unref_drop: "unref tb c t \<Longrightarrow> unref tb c (t(k := None))"
  by (auto simp: unref_def)

definition goes :: "tables \<Rightarrow> (sys_cmd list \<Rightarrow> sys_cmd list) \<Rightarrow> tables \<Rightarrow> tables \<Rightarrow> bool" where
  "goes t0 f t t' \<longleftrightarrow> (\<forall>log. ipt_tables t0 log = t \<longrightarrow> ipt_tables t0 (f log) = t')"

lemma goes_Cons: "goes t0 f t t1 \<Longrightarrow> goes t0 (fold (\<lambda>f. f) fs) t1 t' \<Longrightarrow> goes t0 (fold (\<lambda>f. f) (f # fs)) t t'"
  by (simp add: goes_def)

lemma goes_Nil: "goes t0 (fold (\<lambda>f. f) []) t t"
  by (simp add: goes_def)

lemma goes_eq: "goes t0 f t t1 \<Longrightarrow> t1 = t' \<Longrightarrow> goes t0 f t t'"
  by simp

lemma goes_from: "t = t1 \<Longrightarrow> goes t0 f t1 t' \<Longrightarrow> goes t0 f t t'"
  by simp

lemma goes_mangle:
  assumes "t (''mangle'', fw_chain m FW_T_MANGLE_PHYDEV) = Some qs"
    and "t (''mangle'', FW_T_MANGLE_PREROUTING) = Some (rs @ [j])"
    and "j = (None, ''-m physdev --physdev-in '' @ ssid_ifname e @ '' '', fw_chain m FW_T_MANGLE_PHYDEV)" and "j \<notin> set rs"
    and "unref ''mangle'' (fw_chain m FW_T_MANGLE_PHYDEV) (t((''mangle'', fw_chain m FW_T_MANGLE_PHYDEV) \<mapsto> [], (''mangle'', FW_T_MANGLE_PREROUTING) \<mapsto> rs))"
  shows "goes t0 (fw_mangle_clean e m) t (t((''mangle'', fw_chain m FW_T_MANGLE_PHYDEV) := None, (''mangle'', FW_T_MANGLE_PREROUTING) \<mapsto> rs))"
  using assms by (simp add: goes_def fw_mangle_clean_def Let_def tables_run fw_chain_uplink remove1_append fun_upd_twist)

lemma goes_physdev:
  assumes "t (''nat'', fw_chain m c) = Some qs" and "t (''nat'', u) = Some (rs @ [fw_mark_jump e m c])"
    and "fw_mark_jump e m c \<notin> set rs" and "fw_chain m c \<noteq> u"
    and "unref ''nat'' (fw_chain m c) (t((''nat'', fw_chain m c) \<mapsto> [], (''nat'', u) \<mapsto> rs))"
  shows "goes t0 (fw_nat_clean_physdev e m c u) t (t((''nat'', fw_chain m c) := None, (''nat'', u) \<mapsto> rs))"
  using assms by (simp add: goes_def fw_nat_clean_physdev_def Let_def tables_run remove1_append fun_upd_twist fw_mark_jump_def)

lemma goes_physdev_gone:
  assumes "t (''nat'', fw_chain m c) = None" and "t (''nat'', u) = Some rs" and "fw_mark_jump e m c \<notin> set rs"
  shows "goes t0 (fw_nat_clean_physdev e m c u) t t"
  using assms by (simp add: goes_def fw_nat_clean_physdev_def Let_def tables_run fw_mark_jump_def)

lemma goes_del:
  assumes "t (''nat'', fw_chain m c) = Some qs" and "t (''nat'', fw_chain m u) = None" and "c \<noteq> u"
    and "unref ''nat'' (fw_chain m c) t"
  shows "goes t0 (fw_clean_and_del e m c u ''nat'') t (t((''nat'', fw_chain m c) := None))"
proof -
  have "unref ''nat'' (fw_chain m c) (t((''nat'', fw_chain m c) \<mapsto> []))" using assms(4) by (simp add: unref_def)
  then show ?thesis using assms by (simp add: goes_def fw_clean_and_del_def Let_def tables_run fw_chain_inj)
qed

lemma goes_del_all:
  assumes "distinct (map fst cus)"
    and "\<forall>(c, u) \<in> set cus. t (''nat'', fw_chain m c) \<noteq> None \<and> t (''nat'', fw_chain m u) = None \<and> unref ''nat'' (fw_chain m c) t"
    and "goes t0 (fold (\<lambda>f. f) gs) (fold (\<lambda>(c, u) t. t((''nat'', fw_chain m c) := None)) cus t) t'"
  shows "goes t0 (fold (\<lambda>f. f) (map (\<lambda>(c, u). fw_clean_and_del e m c u ''nat'') cus @ gs)) t t'"
  using assms
proof (induction cus arbitrary: t)
  case Nil
  then show ?case by simp
next
  case (Cons x cus)
  obtain c u where x: "x = (c, u)" by fastforce
  let ?t = "t((''nat'', fw_chain m c) := None)"
  have "c \<noteq> u" using Cons.prems(2) x by auto
  then have "goes t0 (fw_clean_and_del e m c u ''nat'') t ?t"
    using Cons.prems(2) x by (auto intro!: goes_del)
  moreover have "?t (''nat'', fw_chain m c') \<noteq> None \<and> ?t (''nat'', fw_chain m u') = None \<and> unref ''nat'' (fw_chain m c') ?t"
    if "(c', u') \<in> set cus" for c' u'
  proof -
    have "t (''nat'', fw_chain m c') \<noteq> None" "t (''nat'', fw_chain m u') = None" "unref ''nat'' (fw_chain m c') t"
      using Cons.prems(2) that by auto
    moreover have "c' \<noteq> c" using Cons.prems(1) x that by force
    ultimately show ?thesis by (simp add: fw_chain_inj unref_drop)
  qed
  then have "goes t0 (fold (\<lambda>f. f) (map (\<lambda>(c, u). fw_clean_and_del e m c u ''nat'') cus @ gs)) ?t t'"
    using Cons.prems(1,3) x by (intro Cons.IH) (simp, blast, simp only: fold_simps prod.case)
  ultimately show ?case unfolding x list.map prod.case append_Cons by (rule goes_Cons)
qed

lemma ball_mono_case: "\<forall>x \<in> A. P x \<Longrightarrow> (\<And>x. x \<in> A \<Longrightarrow> P x \<Longrightarrow> Q x) \<Longrightarrow> \<forall>x \<in> A. Q x"
  by blast

lemma fold_del:
  "fold (\<lambda>(c, u) t. t((''nat'', fw_chain m c) := None)) cus t k =
    (if k \<in> (\<lambda>(c, u). (''nat'', fw_chain m c)) ` set cus then None else (t k :: fw_rule list option))"
  by (induction cus arbitrary: t) auto

lemma no_jump: "unref tb c t \<Longrightarrow> t (tb, d) = Some rs \<Longrightarrow> (i, mt, c) \<notin> set rs"
  by (force simp: unref_def)

lemma unref_tgts: "unref tb c t \<Longrightarrow> t (tb, d) = Some rs \<Longrightarrow> c \<notin> (\<lambda>(_, _, tg). tg) ` set rs"
  by (simp add: unref_def)

lemma uninit_chains_ok:
  assumes fresh: "fw_fresh m t0"
  shows "goes t0 (\<lambda>log. snd (fw_uninit_chains e m log)) (fw_tables e m t0) t0"
proof -
  obtain r1 r2 r3 where r: "t0 (''mangle'', FW_T_MANGLE_PREROUTING) = Some r1"
    "t0 (''nat'', FW_T_NAT_PORTAL_PRE) = Some r2" "t0 (''nat'', FW_T_NAT_PORTAL_POST) = Some r3"
    using fresh by (auto simp: fw_fresh_def)
  have none: "t0 (''mangle'', fw_chain m FW_T_MANGLE_PHYDEV) = None" "\<And>p. p \<in> set fw_names \<Longrightarrow> t0 (''nat'', fw_chain m p) = None"
    and un: "unref ''mangle'' (fw_chain m FW_T_MANGLE_PHYDEV) t0" "\<And>p. p \<in> set fw_names \<Longrightarrow> unref ''nat'' (fw_chain m p) t0"
    using fresh by (auto simp: fw_fresh_def list_all_iff)
  have dn: "fw_chain m p \<noteq> ''DNAT --to-destination 127.0.0.100''" if "p \<in> set fw_names" for p
    using that by (auto simp: fw_names_def fw_name_defs fw_chain_def)
  note nt = unref_tgts [OF un(1) r(1)] unref_tgts [OF un(2) r(2)] unref_tgts [OF un(2) r(3)]
  note nj = no_jump [OF un(1) r(1)] no_jump [OF un(2) r(2)] no_jump [OF un(2) r(3)]
  note sm = fw_chain_inj fw_ne fw_chain_uplink none(1) none(2) [unfolded fw_names_def, simplified] r portal_ne
  obtain t3 where t3: "t3 = t0((''nat'', fw_chain m FW_T_NAT_PRE_PRE) \<mapsto> [], (''nat'', fw_chain m FW_T_NAT_PRE_MAC_BLACK) \<mapsto> [],
    (''nat'', fw_chain m FW_T_NAT_PRE_MAC_WHITE) \<mapsto> [], (''nat'', fw_chain m FW_T_NAT_PRE_DEFAULT) \<mapsto> [],
    (''nat'', fw_chain m FW_T_NAT_POST_BLACKLIST) \<mapsto> [], (''nat'', fw_chain m FW_T_NAT_POST_AUTHED) \<mapsto> [],
    (''nat'', fw_chain m FW_T_NAT_POST_WHITELIST) \<mapsto> [], (''nat'', fw_chain m FW_T_NAT_POST_DEFAULT) \<mapsto> [],
    (''nat'', fw_chain m FW_T_NAT_POST_POST) \<mapsto> [(Some (core_gw_ifname e), '' '', ''DNAT --to-destination 127.0.0.100'')])" by blast
  have u3: "unref ''nat'' (fw_chain m p) t3" if "p \<in> set fw_names" for p
    unfolding unref_off_empty t3 using un(2) [OF that] dn [OF that] by (intro unref_upd unref_base) simp_all
  have last2: "goes t0 (fold (\<lambda>f. f) [fw_nat_clean_physdev e m FW_T_NAT_PHYDEV_PRE FW_T_NAT_PORTAL_PRE,
      fw_nat_clean_physdev e m FW_T_NAT_PHYDEV_POST FW_T_NAT_PORTAL_POST]) t0 t0"
    by (intro goes_Cons [OF goes_physdev_gone goes_Cons [OF goes_physdev_gone goes_Nil]])
      ((simp add: sm; fail) | (simp add: nj fw_mark_jump_def fw_names_def))+
  have v: "t3 (''nat'', fw_chain m FW_T_NAT_PHYDEV_PRE) = None" "t3 (''nat'', fw_chain m FW_T_NAT_PHYDEV_POST) = None"
    "list_all (\<lambda>p. t3 (''nat'', fw_chain m p) \<noteq> None) (drop 2 fw_names)"
    unfolding t3 fw_names_def by (simp_all add: sm)
  let ?cus = "map (\<lambda>c. (c, FW_T_NAT_PHYDEV_PRE)) [FW_T_NAT_PRE_PRE, FW_T_NAT_PRE_MAC_BLACK, FW_T_NAT_PRE_MAC_WHITE, FW_T_NAT_PRE_DEFAULT] @
    map (\<lambda>c. (c, FW_T_NAT_PHYDEV_POST)) [FW_T_NAT_POST_BLACKLIST, FW_T_NAT_POST_AUTHED, FW_T_NAT_POST_WHITELIST, FW_T_NAT_POST_DEFAULT, FW_T_NAT_POST_POST]"
  have fd: "fold (\<lambda>(c, u) t. t((''nat'', fw_chain m c) := None)) ?cus t3 = t0"
  proof
    fix k
    show "fold (\<lambda>(c, u) t. t((''nat'', fw_chain m c) := None)) ?cus t3 k = t0 k"
    proof (cases "k \<in> (\<lambda>(c, u). (''nat'', fw_chain m c)) ` set ?cus")
      case True
      then have "t0 k = None" using none(2) [unfolded fw_names_def, simplified] by auto
      then show ?thesis using True by (simp only: fold_del if_True)
    next
      case False
      then have "t3 k = t0 k" by (simp add: t3)
      then show ?thesis using False by (simp only: fold_del if_False)
    qed
  qed
  have all: "\<forall>(c, u) \<in> set ?cus. t3 (''nat'', fw_chain m c) \<noteq> None \<and> t3 (''nat'', fw_chain m u) = None \<and> unref ''nat'' (fw_chain m c) t3"
  proof -
    have "\<forall>(c, u) \<in> set ?cus. (u = FW_T_NAT_PHYDEV_PRE \<or> u = FW_T_NAT_PHYDEV_POST) \<and> c \<in> set (drop 2 fw_names) \<and> c \<in> set fw_names"
      unfolding fw_names_def by simp
    moreover have "x \<in> set ?cus \<Longrightarrow> (case x of (c, u) \<Rightarrow> (u = FW_T_NAT_PHYDEV_PRE \<or> u = FW_T_NAT_PHYDEV_POST) \<and> c \<in> set (drop 2 fw_names) \<and> c \<in> set fw_names) \<Longrightarrow>
      (case x of (c, u) \<Rightarrow> t3 (''nat'', fw_chain m c) \<noteq> None \<and> t3 (''nat'', fw_chain m u) = None \<and> unref ''nat'' (fw_chain m c) t3)" for x
      using v(1,2) v(3) [unfolded list_all_iff] u3 by (cases x) (simp only: prod.case, metis)
    ultimately show ?thesis by (rule ball_mono_case)
  qed
  have d: "distinct (map fst ?cus)"
  proof -
    have "map fst ?cus = drop 2 fw_names" by (simp add: fw_names_def)
    then show ?thesis using fw_names_distinct by (simp only: distinct_drop)
  qed
  have del: "goes t0 (fold (\<lambda>f. f) (map (\<lambda>(c, u). fw_clean_and_del e m c u ''nat'') ?cus @
      [fw_nat_clean_physdev e m FW_T_NAT_PHYDEV_PRE FW_T_NAT_PORTAL_PRE, fw_nat_clean_physdev e m FW_T_NAT_PHYDEV_POST FW_T_NAT_PORTAL_POST])) t3 t0"
    by (rule goes_del_all [OF d all]) (unfold fd, rule last2)
  note dn = dn [unfolded fw_names_def, simplified]
  note ts = sm dn nt [unfolded fw_names_def, simplified] fw_jump_def fw_mark_jump_def
  show ?thesis
    unfolding fw_uninit_chains_def snd_conv
    apply (rule goes_from)
     apply (simp only: fw_tables_def fw_nat_chains_def fold_simps prod.case list.map)
    apply (rule goes_eq)
     apply (rule goes_Cons, rule goes_mangle [where rs = r1, OF _ _ refl])
        apply (simp add: sm)
       apply (simp add: sm)
      apply (simp add: nj)
     apply (unfold unref_off_empty)
     apply (((rule unref_upd, simp add: ts) | rule unref_del | (rule unref_other, simp))+)
     apply (rule unref_base [OF un(1)])
     apply (rule goes_Cons, rule goes_physdev [where rs = r2])
         apply (simp add: sm)
        apply (simp add: sm)
       apply (simp add: nj fw_mark_jump_def fw_names_def)
      apply (simp add: sm)
     apply (unfold unref_off_empty)
     apply (((rule unref_upd, simp add: ts) | rule unref_del | (rule unref_other, simp))+)
     apply (rule unref_base [OF un(2)], simp add: fw_names_def)
     apply (rule goes_Cons, rule goes_physdev [where rs = r3])
         apply (simp add: sm)
        apply (simp add: sm)
       apply (simp add: nj fw_mark_jump_def fw_names_def)
      apply (simp add: sm)
     apply (unfold unref_off_empty)
     apply (((rule unref_upd, simp add: ts) | rule unref_del | (rule unref_other, simp))+)
     apply (rule unref_base [OF un(2)], simp add: fw_names_def)
     apply (rule goes_from [where ?t1.0 = t3])
      apply (rule ext, simp add: t3 sm)
     apply (rule del [unfolded list.map prod.case append.simps])
    apply (rule refl)
    done
qed

subsection \<open>The rules of an address list\<close>

definition url_chain :: "int \<Rightarrow> dns_url \<Rightarrow> string" where
  "url_chain m url = fw_chain m (if ems_flag_like (w_flg url) FLG_DNS_IS_BLACKLIST then FW_T_NAT_POST_BLACKLIST else FW_T_NAT_POST_WHITELIST)"

definition url_body :: "fw_env \<Rightarrow> dns_url \<Rightarrow> 32 word \<Rightarrow> fw_rule" where
  "url_body e url a = (Some (core_gw_ifname e), ''-d '' @ inet_ntoa a @ ''/'' @ ems_itoa (mask url) @ '' '',
    (if ems_flag_like (w_flg url) FLG_DNS_IS_BLACKLIST then DNAT_DROP else ''ACCEPT'') @
      '' -m comment --comment '' @ [CHR 0x27] @ str_text (w_url url) @ [CHR 0x27])"

lemma url_step:
  "ipt_step (url_rule e m url opt a) t =
    (case t (''nat'', url_chain m url) of
       None \<Rightarrow> (False, t)
     | Some rs \<Rightarrow>
         (if opt = OpD then (if url_body e url a \<in> set rs then (True, t((''nat'', url_chain m url) \<mapsto> remove1 (url_body e url a) rs)) else (False, t))
          else (True, t((''nat'', url_chain m url) \<mapsto> (if opt = OpA then rs @ [url_body e url a] else url_body e url a # rs)))))"
  by (auto simp: url_rule_def Let_def url_chain_def url_body_def builtin_target_def split: option.splits rule_op.splits)

lemma systemcmd_done:
  assumes "iptables_doc e t0" and "fst (ipt_step c (ipt_tables t0 log))"
  shows "ems_systemcmd e c log = (0, log @ [c])" and "ipt_tables t0 (log @ [c]) = snd (ipt_step c (ipt_tables t0 log))"
proof -
  have "fst (sys_st e log c) = 0" using assms by (simp add: iptables_doc_def)
  then show "ems_systemcmd e c log = (0, log @ [c])" by (cases "sys_st e log c") (simp add: ems_systemcmd_def)
qed (simp add: ipt_tables_def)

lemma tables_snoc: "ipt_tables t0 (log @ [c]) = snd (ipt_step c (ipt_tables t0 log))"
  by (simp add: ipt_tables_def)

lemma url_rules_insert:
  assumes "iptables_doc e t0"
  shows "ipt_tables t0 log = t \<Longrightarrow> t (''nat'', url_chain m url) = Some rs \<Longrightarrow>
    \<exists>log'. url_rules e m url OpI as log = (as, log') \<and>
      ipt_tables t0 log' = t((''nat'', url_chain m url) \<mapsto> rev (map (url_body e url) (filter (\<lambda>a. a \<noteq> 0) as)) @ rs)"
proof (induction as arbitrary: log t rs)
  case Nil
  then show ?case by auto
next
  case (Cons a as)
  let ?k = "(''nat'', url_chain m url)"
  show ?case
  proof (cases "a = 0")
    case True
    then show ?thesis using Cons.IH [OF Cons.prems] by auto
  next
    case False
    let ?log = "log @ [url_rule e m url OpI a]" and ?t = "t(?k \<mapsto> url_body e url a # rs)"
    have st: "ipt_step (url_rule e m url OpI a) (ipt_tables t0 log) = (True, ?t)"
      using Cons.prems by (simp add: url_step)
    then have run: "ems_systemcmd e (url_rule e m url OpI a) log = (0, ?log)" and t: "ipt_tables t0 ?log = ?t"
      using systemcmd_done [OF assms] by simp_all
    have "\<exists>log'. url_rules e m url OpI as ?log = (as, log') \<and>
      ipt_tables t0 log' = ?t(?k \<mapsto> rev (map (url_body e url) (filter (\<lambda>a. a \<noteq> 0) as)) @ (url_body e url a # rs))"
      by (rule Cons.IH [OF t]) simp
    then show ?thesis using False run by (auto simp: fun_upd_upd)
  qed
qed

lemma url_rules_delete:
  assumes "iptables_doc e t0"
  shows "ipt_tables t0 log = t \<Longrightarrow> t (''nat'', url_chain m url) = Some (ys @ rs) \<Longrightarrow>
    mset ys = mset (map (url_body e url) (filter (\<lambda>a. a \<noteq> 0) as)) \<Longrightarrow>
    \<exists>log'. url_rules e m url OpD as log = (as, log') \<and> ipt_tables t0 log' = t((''nat'', url_chain m url) \<mapsto> rs)"
proof (induction as arbitrary: log t ys)
  case Nil
  then show ?case by auto
next
  case (Cons a as)
  let ?k = "(''nat'', url_chain m url)"
  show ?case
  proof (cases "a = 0")
    case True
    then show ?thesis using Cons.IH [OF Cons.prems(1,2)] Cons.prems(3) by auto
  next
    case False
    let ?b = "url_body e url a"
    let ?log = "log @ [url_rule e m url OpD a]" and ?t = "t(?k \<mapsto> remove1 ?b ys @ rs)"
    have "?b \<in># mset ys" using Cons.prems(3) False by simp
    then have b: "?b \<in> set ys" by simp
    then have st: "ipt_step (url_rule e m url OpD a) (ipt_tables t0 log) = (True, ?t)"
      using Cons.prems by (simp add: url_step remove1_append)
    then have run: "ems_systemcmd e (url_rule e m url OpD a) log = (0, ?log)" and t: "ipt_tables t0 ?log = ?t"
      using systemcmd_done [OF assms] by simp_all
    have "mset (remove1 ?b ys) = mset (map (url_body e url) (filter (\<lambda>a. a \<noteq> 0) as))"
      using Cons.prems(3) False by simp
    then have "\<exists>log'. url_rules e m url OpD as ?log = (as, log') \<and> ipt_tables t0 log' = ?t(?k \<mapsto> rs)"
      by (intro Cons.IH [OF t, where ys = "remove1 ?b ys"]) simp_all
    then show ?thesis using False run by (auto simp: fun_upd_upd)
  qed
qed

lemma url_rules_no_chain:
  assumes "ipt_tables t0 log (''nat'', url_chain m url) = None"
  shows "ipt_tables t0 (snd (url_rules e m url opt as log)) = ipt_tables t0 log"
  using assms
proof (induction as arbitrary: log)
  case (Cons a as)
  have "ipt_tables t0 (log @ [url_rule e m url opt a]) = ipt_tables t0 log"
    using Cons.prems by (simp add: tables_snoc url_step)
  then show ?case using Cons by (auto simp: ems_systemcmd_def split: prod.splits)
qed simp

lemma url_set_free_frame: "fw_url_set_free e m url app log = (url', log') \<Longrightarrow> w_flg url' = w_flg url \<and> w_url url' = w_url url \<and> n_addr url' = n_addr url \<and> mask url' = mask url"
  by (auto simp: fw_url_set_free_def Let_def split: option.splits prod.splits)

lemma url_rule_cong:
  "w_flg url' = w_flg url \<Longrightarrow> w_url url' = w_url url \<Longrightarrow> mask url' = mask url \<Longrightarrow> url_rules e m url' opt as log = url_rules e m url opt as log"
  by (induction as arbitrary: log) (auto simp: url_rule_def)

lemma url_rules_length: "length (fst (url_rules e m url opt as log)) = length as"
  by (induction as arbitrary: log) (auto split: prod.splits)

subsection \<open>Properties\<close>

text \<open>
  C29: The chains of a wireless interface. On tables where the chains of the global firewall exist
  and those of the interface do not, \<open>fw_init_chains\<close> succeeds and builds the complete tree of chains
  and jumps, and \<open>fw_uninit_chains\<close> after it restores the tables exactly, although most of its
  commands that delete a jump fail and it cleans two chains twice. How \<open>iptables\<close> behaves is the
  hypothesis.
\<close>

theorem fw_chains_roundtrip:
  assumes "iptables_doc e t0" and "fw_fresh m t0"
  shows "\<exists>log. fw_init_chains e m [] = (EMS_OK, log) \<and> ipt_tables t0 log = fw_tables e m t0 \<and>
    ipt_tables t0 (snd (fw_uninit_chains e m log)) = t0"
proof -
  have "ipt_tables t0 [] = t0" by (simp add: ipt_tables_def)
  then obtain log where "fw_init_chains e m [] = (0, log)" "ipt_tables t0 log = fw_tables e m t0"
    using init_chains_ok [OF assms] unfolding leads_def by blast
  moreover from this(2) have "ipt_tables t0 (snd (fw_uninit_chains e m log)) = t0"
    using uninit_chains_ok [OF assms(2), of e] unfolding goes_def by blast
  ultimately show ?thesis by blast
qed

definition tables_0 :: tables where
  "tables_0 = Map.empty((''mangle'', FW_T_MANGLE_PREROUTING) \<mapsto> [], (''nat'', FW_T_NAT_PORTAL_PRE) \<mapsto> [],
    (''nat'', FW_T_NAT_PORTAL_POST) \<mapsto> [])"

definition fw_env_0 :: "tables \<Rightarrow> fw_env" where
  "fw_env_0 t0 = \<lparr>sys_st = (\<lambda>log c. if fst (ipt_step c (ipt_tables t0 log)) then (0, 0) else (1, 2)),
    popen_line = (\<lambda>_ _. []), core_gw_ifname = ''br-lan'', core_gw_addr = ''10.0.0.1'', ssid_ifname = ''ra0'', ssid_id = 3,
    ssid_whitemac = [], ssid_blackmac = [], ssid_whitelist = [''a.cn''], cfg_mac_white = None, cfg_mac_black = None\<rparr>"

lemma env_0_doc: "iptables_doc (fw_env_0 t0) t0"
  by (simp add: iptables_doc_def fw_env_0_def)

lemma tables_0_fresh: "fw_fresh 3 tables_0"
proof -
  have "unref tb c tables_0" for tb c by (auto simp: unref_def tables_0_def split: if_splits)
  moreover have "tables_0 (''mangle'', FW_T_MANGLE_PREROUTING) = Some []" "tables_0 (''nat'', FW_T_NAT_PORTAL_PRE) = Some []"
    "tables_0 (''nat'', FW_T_NAT_PORTAL_POST) = Some []"
    by (simp_all add: tables_0_def fw_name_defs)
  moreover have "tables_0 (tb, fw_chain 3 p) = None" for tb p
    using fw_chain_uplink [of 3 p] by (simp add: tables_0_def)
  ultimately show ?thesis by (simp add: fw_fresh_def list_all_iff)
qed

theorem fw_chains_roundtrip_witness:
  "\<exists>log. fw_init_chains (fw_env_0 tables_0) 3 [] = (EMS_OK, log) \<and>
    ipt_tables tables_0 (snd (fw_uninit_chains (fw_env_0 tables_0) 3 log)) = tables_0"
  using fw_chains_roundtrip [OF env_0_doc tables_0_fresh] by blast

text \<open>
  The rules of a name. Inserting the rules of all addresses of a name and deleting them again
  leaves the tables as they were, whatever rules the chain had, also when addresses are repeated or
  zero and when the chain does not exist.
\<close>

theorem fw_url_rules_roundtrip:
  assumes "iptables_doc e t0" and "w_addr url = Some as" and "n_addr url = int (length as)"
    and "fw_url_set_free e m url True log = (url1, log1)" and "fw_url_set_free e m url1 False log1 = (url2, log2)"
  shows "ipt_tables t0 log2 = ipt_tables t0 log"
proof -
  let ?k = "(''nat'', url_chain m url)"
  obtain as1 where r1: "url_rules e m url OpI as log = (as1, log1)" and u1: "url1 = url\<lparr>w_addr := Some as1\<rparr>"
    using assms(2,3,4) by (auto simp: fw_url_set_free_def split: prod.splits)
  have len: "length as1 = length as" using url_rules_length [of e m url OpI as log] r1 by simp
  have "url_rules e m url1 OpD as1 log1 = url_rules e m url OpD as1 log1" by (rule url_rule_cong) (simp_all add: u1)
  then have r2: "log2 = snd (url_rules e m url OpD as1 log1)"
    using assms(3,5) u1 len by (auto simp: fw_url_set_free_def split: prod.splits)
  show ?thesis
  proof (cases "ipt_tables t0 log ?k")
    case None
    then have "ipt_tables t0 log1 = ipt_tables t0 log" using url_rules_no_chain [OF None, of e OpI as] r1 by simp
    then show ?thesis using url_rules_no_chain [of t0 log1 m url e OpD as1] None r2 by simp
  next
    case (Some rs)
    let ?ys = "rev (map (url_body e url) (filter (\<lambda>a. a \<noteq> 0) as))"
    have i: "as1 = as" "ipt_tables t0 log1 = (ipt_tables t0 log)(?k \<mapsto> ?ys @ rs)"
      using url_rules_insert [OF assms(1) refl Some, of as] r1 by auto
    have "\<exists>log'. url_rules e m url OpD as1 log1 = (as1, log') \<and> ipt_tables t0 log' = ((ipt_tables t0 log)(?k \<mapsto> ?ys @ rs))(?k \<mapsto> rs)"
      using i by (intro url_rules_delete [OF assms(1) i(2), where ys = ?ys]) simp_all
    then show ?thesis using r2 Some by (auto simp: fun_upd_idem)
  qed
qed

theorem fw_url_rules_roundtrip_witness:
  "(let url = \<lparr>w_flg = 0, w_url = \<lparr>str_len = 4, str_data = Some ''a.cn''\<rparr>, n_addr = 2, w_addr = Some [7, 7], mask = 32\<rparr>;
        (url1, log1) = fw_url_set_free (fw_env_0 tables_0) 3 url True [];
        (url2, log2) = fw_url_set_free (fw_env_0 tables_0) 3 url1 False log1
    in ipt_tables tables_0 log2 = ipt_tables tables_0 [])"
  using fw_url_rules_roundtrip [OF env_0_doc, where url = "\<lparr>w_flg = 0, w_url = \<lparr>str_len = 4, str_data = Some ''a.cn''\<rparr>, n_addr = 2, w_addr = Some [7, 7], mask = 32\<rparr>"
      and as = "[7, 7]"]
  by (simp add: Let_def split: prod.splits)

end
