(* ===== verification/Ems_Dns.thy ===== *)
theory Ems_Dns
  imports Ems_Dns_Wire Ems_Session Ems_Hash Ems_Fw_Rules "HOL-Library.Monad_Syntax"
begin

text \<open>
  The DNS forwarder: \<^verbatim>\<open>c/ems/src/core/ems_dns.c\<close> (the side of the clients) and \<^verbatim>\<open>ems_dns_fwd.c\<close>
  (the side of the local name server), with the objects of \<^verbatim>\<open>app_fw.c\<close> they work on.

  A request of a client is a \<open>dns_user\<close>: it waits in the queue \<open>fwd\<close> until it was sent to the name
  server, in \<open>wait\<close> for the reply and in \<open>outq\<close> until the reply was sent to the client; while it is in
  one of the first two a table finds it by the identifier of the message and a timer is pending.
  The forwarder also asks for names itself and keeps the addresses of the names it lets through.

  Objects are addresses: \<open>usr_of\<close> and \<open>url_of\<close> give the fields of the objects, \<open>u_live\<close> and \<open>w_live\<close>
  the addresses in use. A queue is the list of its objects (\<open>Ems_Queue\<close>), a pending timer its deadline.
  The result \<open>None\<close> of an operation stands for a null pointer or an address outside of an array being
  followed, or for a loop that does not end. What is sent is appended to \<open>net_out\<close>: datagrams, and the
  messages to other modules.
\<close>

subsection \<open>State and environment\<close>

record dns_user =
  u_flg :: flags
  u_port :: int
  u_addr :: "32 word"
  u_buf :: "char ems_buffer"
  u_to :: "timeval option"

datatype net_evt =
    ToServer string
  | ToClient "32 word" int string
  | SsidMsg nat nat nat
  | CoreMsg nat nat nat

record ems_fw =
  whitelist :: "addr list"
  n_subdomain :: int
  subdomain :: "addr list"
  fw_mark :: int
  sess_bind :: "ems_session option"
  sess_dns :: "ems_session option"
  hash_msg :: ems_hash
  hash_url :: ems_hash
  fwd :: "addr list"
  wait :: "addr list"
  outq :: "addr list"
  usr_of :: "addr \<Rightarrow> dns_user"
  u_live :: "addr list"
  url_of :: "addr \<Rightarrow> dns_url"
  w_live :: "addr list"
  fw_log :: "sys_cmd list"
  net_out :: "net_evt list"

text \<open>
  The environment of an event: that of the rules, the clock, what \<open>malloc\<close> returns for a new user or
  name given those in use, whether smaller allocations succeed, what fresh memory holds, the value of
  \<open>rand\<close>, whether names below a listed one are handled, the rules the server sent to the module
  \<open>bwlist\<close> of the same interface, and the printer and the parser of the JSON library.
\<close>

record dns_env =
  fe :: fw_env
  now :: timeval
  new_user :: "addr list \<Rightarrow> addr option"
  new_url :: "addr list \<Rightarrow> addr option"
  alloc_ok :: bool
  garbage :: "nat \<Rightarrow> char"
  rnd :: nat
  subdomain_enable :: bool
  bwlist_obj :: "json option"
  json_text :: "json option \<Rightarrow> string"
  json_parse :: "string \<Rightarrow> json option"

definition FW_DNS_EVT_CB :: nat where "FW_DNS_EVT_CB = 1"
definition FW_DNS_FWD_EVT_CB :: nat where "FW_DNS_FWD_EVT_CB = 2"
definition DNS_SCHEDULE_TIMEOUT_CB :: nat where "DNS_SCHEDULE_TIMEOUT_CB = 3"

definition set_usr :: "addr \<Rightarrow> (dns_user \<Rightarrow> dns_user) \<Rightarrow> ems_fw \<Rightarrow> ems_fw" where
  "set_usr u f fw = fw\<lparr>usr_of := (usr_of fw)(u := f (usr_of fw u))\<rparr>"

definition set_url :: "addr \<Rightarrow> (dns_url \<Rightarrow> dns_url) \<Rightarrow> ems_fw \<Rightarrow> ems_fw" where
  "set_url w f fw = fw\<lparr>url_of := (url_of fw)(w := f (url_of fw w))\<rparr>"

subsection \<open>Users and names\<close>

definition dns_url_new :: "dns_env \<Rightarrow> ems_fw \<Rightarrow> addr option \<times> ems_fw" where
  "dns_url_new e fw =
    (case new_url e (w_live fw) of
       None \<Rightarrow> (None, fw)
     | Some w \<Rightarrow>
         (Some w, fw\<lparr>hash_url := ems_hash_fd_init (hash_url fw) w, w_live := w # w_live fw,
            url_of := (url_of fw)(w := \<lparr>w_flg = 0, w_url = str_init, n_addr = 0, w_addr = None, mask = 32\<rparr>)\<rparr>))"

definition dns_url_free :: "addr \<Rightarrow> ems_fw \<Rightarrow> ems_fw" where
  "dns_url_free w fw = fw\<lparr>w_live := remove1 w (w_live fw), hash_url := ems_hash_fd_init (hash_url fw) w\<rparr>"

definition dns_user_new :: "dns_env \<Rightarrow> ems_fw \<Rightarrow> addr option \<times> ems_fw" where
  "dns_user_new e fw =
    (case new_user e (u_live fw) of
       None \<Rightarrow> (None, fw)
     | Some u \<Rightarrow>
         (Some u, fw\<lparr>hash_msg := ems_hash_fd_init (hash_msg fw) u, u_live := u # u_live fw,
            usr_of := (usr_of fw)(u := \<lparr>u_flg = 0, u_port = 0, u_addr = 0,
              u_buf = snd (ems_buffer_init (alloc_ok e) (garbage e) EMS_BUFFER_1K), u_to = None\<rparr>)\<rparr>))"

definition dns_user_free :: "addr \<Rightarrow> ems_fw \<Rightarrow> ems_fw" where
  "dns_user_free u fw =
    set_usr u (\<lambda>x. x\<lparr>u_to := None, u_buf := ems_buffer_uninit (u_buf x)\<rparr>)
      (fw\<lparr>u_live := remove1 u (u_live fw), hash_msg := ems_hash_fd_init (hash_msg fw) u\<rparr>)"

text \<open>The identifier is a signed \<open>ems_short\<close>, masked to its 16 bits.\<close>

definition dns_key :: "16 word \<Rightarrow> string" where
  "dns_key i = ems_hash_key (ucast i)"

definition dns_find_user :: "ems_fw \<Rightarrow> 16 word \<Rightarrow> addr option option" where
  "dns_find_user fw i = ems_hash_find (hash_msg fw) (dns_key i)"

definition dns_find_url :: "ems_fw \<Rightarrow> string \<Rightarrow> addr option option" where
  "dns_find_url fw key = ems_hash_find (hash_url fw) key"

text \<open>\<open>ems_queue_remove (&user->entry)\<close> unlinks the user from the queue it is in.\<close>

definition unlink_user :: "addr \<Rightarrow> ems_fw \<Rightarrow> ems_fw" where
  "unlink_user u fw = fw\<lparr>fwd := remove1 u (fwd fw), wait := remove1 u (wait fw), outq := remove1 u (outq fw)\<rparr>"

definition unlink_url :: "addr \<Rightarrow> ems_fw \<Rightarrow> ems_fw" where
  "unlink_url w fw = fw\<lparr>whitelist := remove1 w (whitelist fw), subdomain := remove1 w (subdomain fw)\<rparr>"

definition url_set_free :: "dns_env \<Rightarrow> addr \<Rightarrow> bool \<Rightarrow> ems_fw \<Rightarrow> ems_fw" where
  "url_set_free e w app fw =
    (case fw_url_set_free (fe e) (fw_mark fw) (url_of fw w) app (fw_log fw) of
       (url', log') \<Rightarrow> fw\<lparr>url_of := (url_of fw)(w := url'), fw_log := log'\<rparr>)"

subsection \<open>Events of the two sessions\<close>

definition fw_dns_client_set_read :: "ems_fw \<Rightarrow> bool \<Rightarrow> ems_fw option" where
  "fw_dns_client_set_read fw rd =
    map_option (\<lambda>sess.
      let evt = (if rd then EMS_EVT_READ else 0) OR (if fwd fw \<noteq> [] then EMS_EVT_WRITE else 0);
          s1 = sess_event_cancel sess
      in fw\<lparr>sess_dns := Some (if evt \<noteq> 0 then sess_event_set s1 evt FW_DNS_FWD_EVT_CB else s1)\<rparr>)
    (sess_dns fw)"

definition fw_dns_client_set_write :: "ems_fw \<Rightarrow> bool \<Rightarrow> ems_fw option" where
  "fw_dns_client_set_write fw wr =
    map_option (\<lambda>sess.
      let evt = (if wr then EMS_EVT_WRITE else 0) OR (if wait fw \<noteq> [] then EMS_EVT_READ else 0);
          s1 = sess_event_cancel sess
      in fw\<lparr>sess_dns := Some (if evt \<noteq> 0 then sess_event_set s1 evt FW_DNS_FWD_EVT_CB else s1)\<rparr>)
    (sess_dns fw)"

definition fw_dns_server_set_write :: "ems_fw \<Rightarrow> bool \<Rightarrow> ems_fw option" where
  "fw_dns_server_set_write fw wr =
    map_option (\<lambda>sess.
      fw\<lparr>sess_bind := Some (sess_event_set sess (EMS_EVT_READ OR (if wr then EMS_EVT_WRITE else 0)) FW_DNS_EVT_CB)\<rparr>)
    (sess_bind fw)"

subsection \<open>Requests of clients\<close>

definition fw_dns_push_fwd :: "dns_env \<Rightarrow> addr \<Rightarrow> ems_fw \<Rightarrow> ems_fw option" where
  "fw_dns_push_fwd e u fw =
    do {
      (ret, h) \<leftarrow> ems_hash_insert (hash_msg fw) u;
      Some (set_usr u (\<lambda>x. x\<lparr>u_to := Some (timeout_deadline (now e) 6000)\<rparr>) (fw\<lparr>fwd := fwd fw @ [u], hash_msg := h\<rparr>))
    }"

text \<open>
  \<open>fw_dns_fwd\<close>: the user of the identifier is found or made; only a new user gets the address the
  request came from.
\<close>

definition fw_dns_user_for :: "dns_env \<Rightarrow> 32 word \<Rightarrow> int \<Rightarrow> 16 word \<Rightarrow> ems_fw \<Rightarrow> (addr option \<times> ems_fw) option" where
  "fw_dns_user_for e from_addr from_port i fw =
    do {
      found \<leftarrow> dns_find_user fw i;
      Some (case found of
        Some u \<Rightarrow> (Some u, set_usr u (\<lambda>x. x\<lparr>u_buf := ems_buffer_clear (u_buf x), u_to := None\<rparr>) (unlink_user u fw))
      | None \<Rightarrow>
          (case dns_user_new e fw of
             (None, fw1) \<Rightarrow> (None, fw1)
           | (Some u, fw1) \<Rightarrow>
               (Some u, (set_usr u (\<lambda>x. x\<lparr>u_addr := from_addr, u_port := from_port\<rparr>) fw1)
                  \<lparr>hash_msg := ems_hash_fd_set_key (hash_msg fw1) u (dns_key i)\<rparr>)))
    }"

definition fw_dns_fwd :: "dns_env \<Rightarrow> 32 word \<Rightarrow> int \<Rightarrow> char ems_buffer \<Rightarrow> ems_fw \<Rightarrow> ems_fw option" where
  "fw_dns_fwd e from_addr from_port buf fw =
    do {
      (_, i) \<leftarrow> dns_get_short (drop (brd buf) (bmem buf)) 0;
      (found, fw1) \<leftarrow> fw_dns_user_for e from_addr from_port i fw;
      case found of
        None \<Rightarrow> Some fw1
      | Some u \<Rightarrow>
          do {
            fw2 \<leftarrow> fw_dns_push_fwd e u (set_usr u (\<lambda>x. x\<lparr>u_buf := snd (ems_buffer_write (u_buf x) (contents buf) (buf_len buf))\<rparr>) fw1);
            fw_dns_client_set_write fw2 True
          }
    }"

text \<open>
  \<open>recvfrom\<close> cuts a datagram to the room of the buffer; the loop ends when there is none, or an
  empty one.
\<close>

definition dgram_in :: "char ems_buffer \<Rightarrow> string \<Rightarrow> char ems_buffer" where
  "dgram_in buf d =
    (let data = take (nat (buf_left buf)) d
     in snd (ems_buffer_seek_wr (buf\<lparr>bmem := mem_write (bmem buf) (bwr buf) data\<rparr>) (int (length data)) 2))"

fun fw_dns_request :: "dns_env \<Rightarrow> (32 word \<times> int \<times> string) list \<Rightarrow> ems_fw \<Rightarrow> ems_fw option" where
  "fw_dns_request e [] fw = Some fw"
| "fw_dns_request e ((from_addr, from_port, d) # ds) fw =
    do {
      sess \<leftarrow> sess_bind fw;
      if take (nat (buf_left (buf_in sess))) d = [] then Some fw
      else do {
        let buf = dgram_in (buf_in sess) d;
        fw1 \<leftarrow> fw_dns_fwd e from_addr from_port buf (fw\<lparr>sess_bind := Some (sess\<lparr>buf_in := buf\<rparr>)\<rparr>);
        sess1 \<leftarrow> sess_bind fw1;
        fw_dns_request e ds (fw1\<lparr>sess_bind := Some (sess1\<lparr>buf_in := ems_buffer_clear (buf_in sess1)\<rparr>)\<rparr>)
      }
    }"

text \<open>The answers of \<open>sendto\<close>, one for each call; when there are no more the socket is not writable.\<close>

fun fw_dns_response_loop :: "int list \<Rightarrow> addr list \<Rightarrow> ems_fw \<Rightarrow> ems_fw" where
  "fw_dns_response_loop rets [] fw = fw"
| "fw_dns_response_loop [] (u # us) fw = fw"
| "fw_dns_response_loop (ret # rets) (u # us) fw =
    (if ret \<le> 0 then fw
     else (let x = usr_of fw u
           in fw_dns_response_loop rets us
                (dns_user_free u (unlink_user u
                  (fw\<lparr>net_out := net_out fw @ [ToClient (u_addr x) (u_port x) (contents (u_buf x))]\<rparr>)))))"

definition fw_dns_response :: "int list \<Rightarrow> ems_fw \<Rightarrow> ems_fw option" where
  "fw_dns_response rets fw =
    (let fw1 = fw_dns_response_loop rets (outq fw) fw
     in if outq fw1 = [] then fw_dns_server_set_write fw1 False else Some fw1)"

definition dns_fwd_timeout :: "addr \<Rightarrow> ems_fw \<Rightarrow> ems_fw" where
  "dns_fwd_timeout u fw =
    (let fw1 = unlink_user u fw
     in dns_user_free u (fw1\<lparr>hash_msg := ems_hash_remove (hash_msg fw1) u\<rparr>))"

subsection \<open>The server socket\<close>

text \<open>\<open>dns_bind\<close>: whether the port can be bound is an argument, and the descriptor if it can.\<close>

definition dns_bind :: "int option \<Rightarrow> ems_session \<Rightarrow> int \<times> ems_session" where
  "dns_bind bound sess =
    (case bound of
       None \<Rightarrow> (EMS_ERR, sess)
     | Some fd \<Rightarrow>
         (EMS_OK, sess\<lparr>sock := snd (ems_sock_setfd (snd (ems_sock_setaddr True (sock sess) (Some ''0.0.0.0''))) fd)\<rparr>))"

function bind_loop :: "(int \<Rightarrow> int option) \<Rightarrow> int \<Rightarrow> ems_session \<Rightarrow> int \<times> ems_session" where
  "bind_loop ports dst_port sess =
    (let s1 = sess\<lparr>sock := snd (ems_sock_setport (sock sess) dst_port)\<rparr>
     in case dns_bind (ports dst_port) s1 of
          (ret, s2) \<Rightarrow>
            if ret \<noteq> EMS_OK then (if dst_port + 1 \<le> 9320 then bind_loop ports (dst_port + 1) s2 else (EMS_ERR, s2))
            else (EMS_OK, s2))"
  by auto
termination by (relation "measure (\<lambda>(ports, p, s). nat (9321 - p))") auto

declare bind_loop.simps [simp del]

definition session_or_new :: "dns_env \<Rightarrow> bool \<Rightarrow> ems_session option \<Rightarrow> ems_session option" where
  "session_or_new e alloc s = (case s of None \<Rightarrow> ems_session_new alloc (alloc_ok e) (garbage e) | Some sess \<Rightarrow> Some sess)"

definition fw_dns_be_server :: "dns_env \<Rightarrow> bool \<Rightarrow> (int \<Rightarrow> int option) \<Rightarrow> ems_fw \<Rightarrow> (int \<times> ems_fw) option" where
  "fw_dns_be_server e alloc ports fw =
    do {
      sess \<leftarrow> session_or_new e alloc (sess_bind fw);
      Some (case bind_loop ports 9300 sess of
        (ret, s1) \<Rightarrow>
          if ret \<noteq> EMS_OK then (EMS_ERR, fw\<lparr>sess_bind := None\<rparr>)
          else (EMS_OK, fw\<lparr>sess_bind := Some (sess_timeout_set (now e) (sess_event_set (s1\<lparr>cbarg := 1\<rparr>) EMS_EVT_READ FW_DNS_EVT_CB)
                 10000 DNS_SCHEDULE_TIMEOUT_CB)\<rparr>))
    }"

definition fw_dns_server_stop :: "ems_fw \<Rightarrow> int \<times> ems_fw" where
  "fw_dns_server_stop fw = (EMS_OK, fw\<lparr>sess_bind := None\<rparr>)"

text \<open>\<open>fw_dns_evt_cb\<close>: an error restarts the server, else the requests are read, then replies sent.\<close>

definition fw_dns_evt_cb ::
  "dns_env \<Rightarrow> bool \<Rightarrow> (int \<Rightarrow> int option) \<Rightarrow> bool \<Rightarrow> flags \<Rightarrow> (32 word \<times> int \<times> string) list \<Rightarrow> int list \<Rightarrow> ems_fw \<Rightarrow> ems_fw option" where
  "fw_dns_evt_cb e alloc ports err flg dgrams rets fw =
    (if err then map_option snd (fw_dns_be_server e alloc ports (snd (fw_dns_server_stop fw)))
     else do {
       fw1 \<leftarrow> (if ems_flag_like flg EMS_EVT_READ then fw_dns_request e dgrams fw else Some fw);
       if ems_flag_like flg EMS_EVT_WRITE then fw_dns_response rets fw1 else Some fw1
     })"

subsection \<open>The client socket\<close>

definition dns_connect :: "int option \<Rightarrow> ems_session \<Rightarrow> int \<times> ems_session" where
  "dns_connect conn sess =
    (case conn of
       None \<Rightarrow> (EMS_ERR, sess)
     | Some fd \<Rightarrow>
         (EMS_OK, sess\<lparr>sock := snd (ems_sock_setfd (snd (ems_sock_setaddr True (sock sess) (Some ''127.0.0.1''))) fd)\<rparr>))"

definition fw_dns_be_client :: "dns_env \<Rightarrow> bool \<Rightarrow> int option \<Rightarrow> ems_fw \<Rightarrow> (int \<times> ems_fw) option" where
  "fw_dns_be_client e alloc conn fw =
    do {
      sess \<leftarrow> session_or_new e alloc (sess_dns fw);
      Some (case dns_connect conn sess of
        (ret, s1) \<Rightarrow>
          if ret \<noteq> EMS_OK then (EMS_ERR, fw\<lparr>sess_dns := None\<rparr>)
          else (EMS_OK, fw\<lparr>sess_dns := Some (sess_event_set (s1\<lparr>cbarg := 1\<rparr>) EMS_EVT_READ FW_DNS_FWD_EVT_CB)\<rparr>))
    }"

definition fw_dns_client_stop :: "ems_fw \<Rightarrow> int \<times> ems_fw" where
  "fw_dns_client_stop fw = (EMS_OK, fw\<lparr>sess_dns := None\<rparr>)"

text \<open>Sending the waiting requests to the name server, with the answers of \<open>send\<close>.\<close>

fun fw_dns_fwd_req_loop :: "int list \<Rightarrow> addr list \<Rightarrow> ems_fw \<Rightarrow> ems_fw" where
  "fw_dns_fwd_req_loop rets [] fw = fw"
| "fw_dns_fwd_req_loop [] (u # us) fw = fw"
| "fw_dns_fwd_req_loop (ret # rets) (u # us) fw =
    (if ret \<le> 0 then fw
     else (let fw1 = unlink_user u (set_usr u (\<lambda>x. x\<lparr>u_buf := ems_buffer_clear (u_buf x)\<rparr>)
                 (fw\<lparr>net_out := net_out fw @ [ToServer (contents (u_buf (usr_of fw u)))]\<rparr>))
           in fw_dns_fwd_req_loop rets us (fw1\<lparr>wait := wait fw1 @ [u]\<rparr>)))"

definition fw_dns_fwd_req :: "int list \<Rightarrow> ems_fw \<Rightarrow> ems_fw option" where
  "fw_dns_fwd_req rets fw =
    (let fw1 = fw_dns_fwd_req_loop rets (fwd fw) fw
     in do {
       fw2 \<leftarrow> (if wait fw1 \<noteq> [] then fw_dns_client_set_read fw1 True else Some fw1);
       if fwd fw2 = [] then fw_dns_client_set_write fw2 False else Some fw2
     })"

subsection \<open>Replies of the name server\<close>

definition dns_addr_exist :: "dns_url \<Rightarrow> 32 word \<Rightarrow> bool" where
  "dns_addr_exist url ip = (case w_addr url of None \<Rightarrow> False | Some as \<Rightarrow> ip \<in> set (take (nat (n_addr url)) as))"

definition dns_apply_new_addresss :: "dns_env \<Rightarrow> addr \<Rightarrow> 32 word list \<Rightarrow> ems_fw \<Rightarrow> ems_fw" where
  "dns_apply_new_addresss e w as fw =
    (if int (length as) = n_addr (url_of fw w) \<and> list_all (dns_addr_exist (url_of fw w)) as then fw
     else (let fw1 = url_set_free e w False fw;
               fw2 = (case w_addr (url_of fw1 w) of
                        None \<Rightarrow> fw1
                      | Some _ \<Rightarrow> set_url w (\<lambda>x. x\<lparr>w_addr := None, n_addr := 0\<rparr>) fw1)
           in if as \<noteq> [] \<and> alloc_ok e then
                url_set_free e w True (set_url w (\<lambda>x. x\<lparr>w_addr := Some as, n_addr := int (length as)\<rparr>) fw2)
              else fw2))"

definition dns_update_url_addr :: "dns_env \<Rightarrow> addr \<Rightarrow> string \<Rightarrow> nat \<Rightarrow> dns_header \<Rightarrow> ems_fw \<Rightarrow> (int \<times> ems_fw) option" where
  "dns_update_url_addr e w mem p hdr fw =
    (if \<not> alloc_ok e then Some (EMS_ERR, fw)
     else do {
       as \<leftarrow> dns_get_all_address mem p (unat (ancount hdr) + unat (nscount hdr) + unat (arcount hdr));
       let fw1 = (if as \<noteq> [] then dns_apply_new_addresss e w as fw else fw);
       Some (EMS_OK, set_url w (\<lambda>x. x\<lparr>w_flg := ems_flag_unset (w_flg x) FLG_DNS_QUERY_EXPIRED\<rparr>) fw1)
     })"

text \<open>A name below a listed one joins the queue \<open>subdomain\<close>, which drops its oldest name when it is full.\<close>

abbreviation (input) "MAX_SUB_DOMAIN \<equiv> (300 :: int)"

definition fw_dns_subdomain_append :: "dns_env \<Rightarrow> addr \<Rightarrow> ems_fw \<Rightarrow> ems_fw option" where
  "fw_dns_subdomain_append e w fw =
    do {
      let fw1 = set_url w (\<lambda>x. x\<lparr>w_flg := ems_flag_set (w_flg x) FLG_DNS_IS_SUBDOMAIN\<rparr>) fw;
      (ret, h) \<leftarrow> ems_hash_insert (ems_hash_fd_set_key (hash_url fw1) w (str_text (w_url (url_of fw1 w)))) w;
      let fw2 = fw1\<lparr>hash_url := h, n_subdomain := n_subdomain fw1 + 1, subdomain := subdomain fw1 @ [w]\<rparr>;
      Some (if n_subdomain fw2 > MAX_SUB_DOMAIN then
        (let old = hd (subdomain fw2);
             fw3 = unlink_url old (fw2\<lparr>n_subdomain := n_subdomain fw2 - 1\<rparr>);
             fw4 = url_set_free e old False (fw3\<lparr>hash_url := ems_hash_remove (hash_url fw3) old\<rparr>)
         in dns_url_free old fw4)
      else fw2)
    }"

text \<open>The first listed name with addresses that occurs in the key.\<close>

definition fw_dns_url_select :: "ems_fw \<Rightarrow> string \<Rightarrow> addr option" where
  "fw_dns_url_select fw key =
    find (\<lambda>w. \<not> ems_flag_like (w_flg (url_of fw w)) FLG_URL_IS_IPADDRESS \<and> 0 < n_addr (url_of fw w) \<and>
      strstr key (str_text (w_url (url_of fw w))) \<noteq> None) (whitelist fw)"

definition url_touch :: "addr \<Rightarrow> ems_fw \<Rightarrow> ems_fw" where
  "url_touch w fw = (let fw1 = unlink_url w fw in fw1\<lparr>subdomain := subdomain fw1 @ [w]\<rparr>)"

text \<open>A new name below the listed name \<open>tmp\<close>; it takes over whether it is blocked.\<close>

definition new_subdomain :: "dns_env \<Rightarrow> addr \<Rightarrow> string \<Rightarrow> ems_fw \<Rightarrow> (addr option \<times> ems_fw) option" where
  "new_subdomain e tmp name fw =
    (case dns_url_new e fw of
       (None, fw1) \<Rightarrow> Some (None, fw1)
     | (Some w, fw1) \<Rightarrow>
         (let black = ems_flag_like (w_flg (url_of fw tmp)) FLG_DNS_IS_BLACKLIST;
              fw2 = set_url w (\<lambda>x. x\<lparr>w_flg := (if black then ems_flag_set (w_flg x) FLG_DNS_IS_BLACKLIST else w_flg x),
                 w_url := the (fst (str_set True (Some (w_url x)) (Some name)))\<rparr>) fw1
          in map_option (\<lambda>fw3. (Some w, fw3)) (fw_dns_subdomain_append e w fw2)))"

definition fw_dns_parse_and_filter :: "dns_env \<Rightarrow> string \<Rightarrow> addr \<Rightarrow> dns_header \<Rightarrow> ems_fw \<Rightarrow> ems_fw option" where
  "fw_dns_parse_and_filter e mem u hdr fw =
    do {
      (p, qust) \<leftarrow> fw_dns_get_question True mem 12;
      let name = str_text (qname qust);
      found \<leftarrow> dns_find_url fw name;
      case found of
        Some w \<Rightarrow>
          do {
            fw1 \<leftarrow> (if n_addr (url_of fw w) \<le> 0 \<or> ems_flag_like (w_flg (url_of fw w)) FLG_DNS_QUERY_EXPIRED \<or>
                       ems_flag_like (u_flg (usr_of fw u)) FLG_DNS_QUERY_SELF
                    then map_option snd (dns_update_url_addr e w mem p hdr fw) else Some fw);
            Some (if ems_flag_like (w_flg (url_of fw1 w)) FLG_DNS_IS_SUBDOMAIN then url_touch w fw1 else fw1)
          }
      | None \<Rightarrow>
          (if subdomain_enable e then
             (case fw_dns_url_select fw name of
                None \<Rightarrow> Some fw
              | Some tmp \<Rightarrow>
                  do {
                    (new, fw1) \<leftarrow> new_subdomain e tmp name fw;
                    case new of
                      None \<Rightarrow> Some fw1
                    | Some w \<Rightarrow> map_option snd (dns_update_url_addr e w mem p hdr fw1)
                  })
           else Some fw)
    }"

text \<open>One reply, in the buffer of the session.\<close>

definition fw_dns_fwd_filter :: "dns_env \<Rightarrow> char ems_buffer \<Rightarrow> ems_fw \<Rightarrow> ems_fw option" where
  "fw_dns_fwd_filter e buf fw =
    do {
      let mem = drop (brd buf) (bmem buf);
      hdr \<leftarrow> dns_get_header mem;
      found \<leftarrow> dns_find_user fw (dns_id hdr);
      case found of
        None \<Rightarrow> Some fw
      | Some u \<Rightarrow>
          do {
            let fw1 = set_usr u (\<lambda>x. x\<lparr>u_to := None,
              u_buf := snd (ems_buffer_write (ems_buffer_clear (u_buf x)) (contents buf) (buf_len buf))\<rparr>) (unlink_user u fw);
            let fw2 = fw1\<lparr>hash_msg := ems_hash_remove (hash_msg fw1) u\<rparr>;
            fw3 \<leftarrow> (if DNS_RCODE hdr = 0 \<and> 0 < qdcount hdr \<and> 0 < ancount hdr
                    then fw_dns_parse_and_filter e mem u hdr fw2 else Some fw2);
            if ems_flag_like (u_flg (usr_of fw3 u)) FLG_DNS_QUERY_SELF then Some (dns_user_free u fw3)
            else fw_dns_server_set_write (fw3\<lparr>outq := outq fw3 @ [u]\<rparr>) True
          }
    }"

text \<open>
  The answers of \<open>recv\<close>: a datagram, and the value of \<open>errno\<close>, which is only looked at when the
  datagram is empty or there is none.
\<close>

fun fw_dns_fwd_rsp :: "dns_env \<Rightarrow> (string \<times> int) list \<Rightarrow> ems_fw \<Rightarrow> (int \<times> ems_fw) option" where
  "fw_dns_fwd_rsp e [] fw = Some (EMS_OK, fw)"
| "fw_dns_fwd_rsp e ((d, errno) # ds) fw =
    do {
      sess \<leftarrow> sess_dns fw;
      if take (nat (buf_left (buf_in sess))) d = [] then Some (if errno = EAGAIN \<or> errno = 4 then EMS_OK else EMS_ERR, fw)
      else do {
        let buf = dgram_in (buf_in sess) d;
        fw1 \<leftarrow> fw_dns_fwd_filter e buf (fw\<lparr>sess_dns := Some (sess\<lparr>buf_in := buf\<rparr>)\<rparr>);
        sess1 \<leftarrow> sess_dns fw1;
        fw_dns_fwd_rsp e ds (fw1\<lparr>sess_dns := Some (sess1\<lparr>buf_in := ems_buffer_clear (buf_in sess1)\<rparr>)\<rparr>)
      }
    }"

definition fw_dns_fwd_evt_cb ::
  "dns_env \<Rightarrow> bool \<Rightarrow> int option \<Rightarrow> bool \<Rightarrow> flags \<Rightarrow> (string \<times> int) list \<Rightarrow> int list \<Rightarrow> ems_fw \<Rightarrow> ems_fw option" where
  "fw_dns_fwd_evt_cb e alloc conn err flg dgrams rets fw =
    (if err then map_option snd (fw_dns_be_client e alloc conn (snd (fw_dns_client_stop fw)))
     else do {
       fw1 \<leftarrow> (if ems_flag_like flg EMS_EVT_READ then map_option snd (fw_dns_fwd_rsp e dgrams fw) else Some fw);
       if ems_flag_like flg EMS_EVT_WRITE then fw_dns_fwd_req rets fw1 else Some fw1
     })"

subsection \<open>Addresses in text\<close>

text \<open>
  \<open>inet_addr\<close> of the C library: up to four parts separated by dots, each decimal, octal or hexadecimal
  as \<open>strtoul\<close> with base 0 reads it; the last part fills the remaining bytes. Anything but a blank after
  it is an error, whose value is \<open>INADDR_NONE\<close>.
\<close>

abbreviation (input) "INADDR_NONE \<equiv> (0xffffffff :: 32 word)"

definition inet_part :: "string \<Rightarrow> nat \<times> string" where
  "inet_part s =
    (let hex = (length s > 2 \<and> s ! 0 = CHR ''0'' \<and> (s ! 1 = CHR ''x'' \<or> s ! 1 = CHR ''X'') \<and> digit_val (s ! 2) < 16);
         b = (if hex then 16 else if s \<noteq> [] \<and> hd s = CHR ''0'' then 8 else 10);
         t = (if hex then drop 2 s else s)
     in (digits_val b 0 (takeWhile (\<lambda>c. digit_val c < b) t), dropWhile (\<lambda>c. digit_val c < b) t))"

fun inet_loop :: "nat \<Rightarrow> nat \<Rightarrow> string \<Rightarrow> nat option" where
  "inet_loop k acc s =
    (if s = [] \<or> 10 \<le> digit_val (hd s) then None
     else (case inet_part s of
             (v, rest) \<Rightarrow>
               if 2 ^ 32 \<le> v then None
               else if rest \<noteq> [] \<and> hd rest = CHR ''.'' then
                 (case k of
                    0 \<Rightarrow> None
                  | Suc k' \<Rightarrow> if 255 < v then None else inet_loop k' (acc * 256 + v) (tl rest))
               else if (rest = [] \<or> is_space (hd rest)) \<and> v < 256 ^ Suc k then Some (acc * 256 ^ Suc k + v)
               else None))"

declare inet_loop.simps [simp del]

definition inet_addr :: "string \<Rightarrow> 32 word" where
  "inet_addr s = (case inet_loop 3 0 s of None \<Rightarrow> INADDR_NONE | Some n \<Rightarrow> word_of_nat n)"

subsection \<open>Queries of the forwarder\<close>

definition fw_dns_create_user :: "dns_env \<Rightarrow> addr \<Rightarrow> 16 word \<Rightarrow> ems_fw \<Rightarrow> (int \<times> ems_fw) option" where
  "fw_dns_create_user e w i fw =
    (case dns_user_new e fw of
       (None, fw1) \<Rightarrow> Some (EMS_ERR, fw1)
     | (Some u, fw1) \<Rightarrow>
         do {
           buf \<leftarrow> dns_fill_query (u_buf (usr_of fw1 u)) i (str_text (w_url (url_of fw1 w)));
           let fw2 = set_usr u (\<lambda>x. x\<lparr>u_flg := ems_flag_set (u_flg x) FLG_DNS_QUERY_SELF, u_addr := 0x7f000001, u_port := 0, u_buf := buf\<rparr>) fw1;
           fw3 \<leftarrow> fw_dns_push_fwd e u (fw2\<lparr>hash_msg := ems_hash_fd_set_key (hash_msg fw2) u (dns_key i)\<rparr>);
           Some (EMS_OK, fw3)
         })"

text \<open>An address with the length of its network, as in \<open>10.0.0.0/8\<close>; the text keeps the address only.\<close>

definition fw_dns_url_info_upt :: "dns_url \<Rightarrow> int \<times> dns_url" where
  "fw_dns_url_info_upt w =
    (let addr = str_text (w_url w)
     in case strchr addr CHR ''/'' of
          None \<Rightarrow> (EMS_OK, w)
        | Some m \<Rightarrow>
            (let m' = tl m
             in if m' = [] then (EMS_OK, w)
                else (let len = length addr - length m' - 1;
                          len' = (if 512 \<le> len then 511 else len);
                          w1 = w\<lparr>mask := ems_atoi (Some m')\<rparr>
                      in if mask w1 < 0 \<or> mask w1 > 32 then (EMS_ERR, w1)
                         else (EMS_OK, w1\<lparr>w_flg := ems_flag_set (w_flg w1) FLG_URL_IS_IPADDRESS,
                                 w_url := the (fst (str_set True (Some (w_url w1)) (Some (take len' addr))))\<rparr>))))"

text \<open>An address given in text is entered as it is, without asking for it.\<close>

definition url_take_address :: "dns_env \<Rightarrow> addr \<Rightarrow> 32 word \<Rightarrow> ems_fw \<Rightarrow> ems_fw" where
  "url_take_address e w a fw =
    (if alloc_ok e then
       url_set_free e w True (set_url w (\<lambda>x. x\<lparr>w_addr := Some [a], n_addr := 1, w_flg := ems_flag_set (w_flg x) FLG_URL_IS_IPADDRESS\<rparr>) fw)
     else fw)"

text \<open>The body of the loop over the listed names, with the identifier of the next query.\<close>

definition query_url :: "dns_env \<Rightarrow> addr \<Rightarrow> 16 word \<times> ems_fw \<Rightarrow> (16 word \<times> ems_fw) option" where
  "query_url e w st =
    (case st of (i, fw) \<Rightarrow>
      if ems_flag_like (w_flg (url_of fw w)) FLG_URL_IS_IPADDRESS then Some (i, fw)
      else if w_addr (url_of fw w) \<noteq> None then
        Some (i, set_url w (\<lambda>x. x\<lparr>w_flg := ems_flag_set (w_flg x) FLG_DNS_QUERY_EXPIRED\<rparr>) fw)
      else (case fw_dns_url_info_upt (url_of fw w) of
              (ret, x) \<Rightarrow>
                (let fw1 = set_url w (\<lambda>_. x) fw
                 in if ret \<noteq> EMS_OK then Some (i, fw1)
                    else (let a = inet_addr (str_text (w_url x))
                          in if a = INADDR_NONE then
                               (if ems_flag_like (w_flg x) FLG_URL_IS_IPADDRESS then Some (i, fw1)
                                else map_option (\<lambda>(_, fw2). (i + 1, fw2)) (fw_dns_create_user e w i fw1))
                             else Some (i, url_take_address e w a fw1)))))"

fun query_loop :: "dns_env \<Rightarrow> addr list \<Rightarrow> 16 word \<times> ems_fw \<Rightarrow> (16 word \<times> ems_fw) option" where
  "query_loop e [] st = Some st"
| "query_loop e (w # ws) st = do { st1 \<leftarrow> query_url e w st; query_loop e ws st1 }"

definition fw_dns_query_triger :: "dns_env \<Rightarrow> ems_fw \<Rightarrow> ems_fw option" where
  "fw_dns_query_triger e fw =
    do {
      (i, fw1) \<leftarrow> query_loop e (whitelist fw) (word_of_nat (rnd e mod 35000), fw);
      let fw2 = fold (\<lambda>w. set_url w (\<lambda>x. x\<lparr>w_flg := ems_flag_set (w_flg x) FLG_DNS_QUERY_EXPIRED\<rparr>)) (subdomain fw1) fw1;
      if fwd fw2 \<noteq> [] then fw_dns_client_set_write fw2 True else Some fw2
    }"

definition dns_schedule_timeout_cb :: "dns_env \<Rightarrow> ems_fw \<Rightarrow> ems_fw option" where
  "dns_schedule_timeout_cb e fw =
    do {
      fw1 \<leftarrow> fw_dns_query_triger e fw;
      sess \<leftarrow> sess_bind fw1;
      Some (fw1\<lparr>sess_bind := Some (sess_timeout_set (now e) sess 10000 DNS_SCHEDULE_TIMEOUT_CB)\<rparr>)
    }"

definition fw_url_in_whitelist :: "dns_env \<Rightarrow> string \<Rightarrow> ems_fw \<Rightarrow> (bool \<times> ems_fw) option" where
  "fw_url_in_whitelist e key fw =
    do {
      found \<leftarrow> dns_find_url fw key;
      case found of
        Some w \<Rightarrow>
          Some (if ems_flag_like (w_flg (url_of fw w)) FLG_DNS_IS_SUBDOMAIN then (True, url_touch w fw) else (False, fw))
      | None \<Rightarrow>
          (if subdomain_enable e then
             (case fw_dns_url_select fw key of
                None \<Rightarrow> Some (False, fw)
              | Some tmp \<Rightarrow>
                  do {
                    (new, fw1) \<leftarrow> new_subdomain e tmp key fw;
                    case new of
                      None \<Rightarrow> Some (False, fw1)
                    | Some w \<Rightarrow>
                        do {
                          (_, fw2) \<leftarrow> fw_dns_create_user e w (word_of_nat (rnd e mod 65535)) fw1;
                          fw3 \<leftarrow> fw_dns_client_set_write fw2 True;
                          Some (True, fw3)
                        }
                  })
           else Some (False, fw))
    }"

definition fw_url_whitelist_insert :: "dns_env \<Rightarrow> string \<Rightarrow> ems_fw \<Rightarrow> (int \<times> ems_fw) option" where
  "fw_url_whitelist_insert e white fw =
    (case dns_url_new e fw of
       (None, fw1) \<Rightarrow> Some (0, fw1)
     | (Some w, fw1) \<Rightarrow>
         do {
           fw2 \<leftarrow> fw_dns_subdomain_append e w
             (set_url w (\<lambda>x. x\<lparr>w_url := the (fst (str_set True (Some (w_url x)) (Some white)))\<rparr>) fw1);
           let a = inet_addr (str_text (w_url (url_of fw2 w)));
           if a = INADDR_NONE then
             do {
               (_, fw3) \<leftarrow> fw_dns_create_user e w (word_of_nat (rnd e mod 65535)) fw2;
               fw4 \<leftarrow> fw_dns_client_set_write fw3 True;
               Some (EMS_OK, fw4)
             }
           else Some (EMS_OK, url_take_address e w a fw2)
         })"

end
