(* ===== verification/Ems_Fw.thy ===== *)
theory Ems_Fw
  imports Ems_Dns "HOL-Library.AList"
begin

text \<open>
  The firewall of a wireless interface: the lists of names of \<^verbatim>\<open>c/ems/src/core/ems_fw.c\<close>, the module
  of \<^verbatim>\<open>app_fw.c\<close> with the messages it handles, and the module of \<^verbatim>\<open>app_bwlist.c\<close> that keeps the lists
  the server sends.

  The loops over a queue that free its objects (\<open>ems_queue_clear\<close>) are folds over the list of the
  queue; the list \<open>head\<close> of \<open>fw_append_urls\<close> and \<open>fw_remove_urls\<close> is \<open>whitelist\<close> in every call. The
  result \<open>None\<close> is as in \<open>Ems_Dns\<close>; a status \<open>None\<close> means that the program exits.
\<close>

subsection \<open>Messages and JSON objects\<close>

definition ty_fw :: nat where "ty_fw = 0"
definition ty_portal :: nat where "ty_portal = 1"
definition ty_radius :: nat where "ty_radius = 2"
definition ty_bwlist :: nat where "ty_bwlist = 3"
definition ty_http :: nat where "ty_http = 9"
definition ty_nic :: nat where "ty_nic = 12"

definition EMS_APP_EVT_FW_RELOAD :: nat where "EMS_APP_EVT_FW_RELOAD = 0x0004"
definition EMS_APP_SERVER_RULES_UPDATE :: nat where "EMS_APP_SERVER_RULES_UPDATE = 0x0006"
definition EMS_APP_STOP :: nat where "EMS_APP_STOP = 0x000a"
definition EMS_APP_START :: nat where "EMS_APP_START = 0x000b"
definition EMS_APP_SERVER_BWLIST :: nat where "EMS_APP_SERVER_BWLIST = 0x000d"
definition EMS_APP_FW_ADDRESS_ADD :: nat where "EMS_APP_FW_ADDRESS_ADD = 0x000e"
definition EMS_APP_FW_ADDRESS_DEL :: nat where "EMS_APP_FW_ADDRESS_DEL = 0x000f"
definition EMS_APP_FW_RADIUS_DEVICE_FREE :: nat where "EMS_APP_FW_RADIUS_DEVICE_FREE = 0x0010"
definition EMS_APP_CHECK_SUBDOMAIN :: nat where "EMS_APP_CHECK_SUBDOMAIN = 0x0011"
definition EMS_APP_CHECK_URL_WHITELIST :: nat where "EMS_APP_CHECK_URL_WHITELIST = 0x0012"
definition EMS_APP_FW_CLEAR :: nat where "EMS_APP_FW_CLEAR = 0x0016"
definition EMS_APP_FW_SET_NAS_FREE :: nat where "EMS_APP_FW_SET_NAS_FREE = 0x0017"
definition EMS_APP_FW_SET_HTTP_FREE :: nat where "EMS_APP_FW_SET_HTTP_FREE = 0x0018"
definition EMS_APP_FW_SET_GREY_FREE :: nat where "EMS_APP_FW_SET_GREY_FREE = 0x0019"
definition EMS_APP_EVT_WIRED_RELOAD :: nat where "EMS_APP_EVT_WIRED_RELOAD = 0x0021"

text \<open>
  A message is queued when there is memory for it; \<open>nic_sendmsg\<close> uses the queue of the interface,
  \<open>ems_send_message\<close> that of the program.
\<close>

definition send_message :: "dns_env \<Rightarrow> net_evt \<Rightarrow> ems_fw \<Rightarrow> int \<times> ems_fw" where
  "send_message e m fw = (if alloc_ok e then (EMS_OK, fw\<lparr>net_out := net_out fw @ [m]\<rparr>) else (EMS_ERR, fw))"

definition nic_sendmsg :: "dns_env \<Rightarrow> nat \<Rightarrow> nat \<Rightarrow> nat \<Rightarrow> ems_fw \<Rightarrow> int \<times> ems_fw" where
  "nic_sendmsg e s d evt fw = send_message e (SsidMsg s d evt) fw"

definition ems_send_message :: "dns_env \<Rightarrow> nat \<Rightarrow> nat \<Rightarrow> nat \<Rightarrow> ems_fw \<Rightarrow> int \<times> ems_fw" where
  "ems_send_message e s d evt fw = send_message e (CoreMsg s d evt) fw"

fun json_object_object_get :: "json option \<Rightarrow> string \<Rightarrow> json option" where
  "json_object_object_get (Some (JObj kvs)) key = map_of kvs key"
| "json_object_object_get _ key = None"

definition ems_json_get_string_def :: "json option \<Rightarrow> string \<Rightarrow> string" where
  "ems_json_get_string_def root key = (case json_object_object_get root key of Some (JStr s) \<Rightarrow> s | _ \<Rightarrow> [])"

text \<open>The library cuts an integer to the range of \<open>int\<close>.\<close>

definition ems_json_get_int_def :: "json option \<Rightarrow> string \<Rightarrow> int \<Rightarrow> int" where
  "ems_json_get_int_def root key def =
    (case json_object_object_get root key of Some (JInt n) \<Rightarrow> max (- (2 ^ 31)) (min (2 ^ 31 - 1) n) | _ \<Rightarrow> def)"

text \<open>\<open>json_object_array_length\<close> follows the pointer to the elements, which only an array has.\<close>

fun json_elems :: "json \<Rightarrow> json list option" where
  "json_elems (JArr js) = Some js" | "json_elems _ = None"

subsection \<open>The lists of the server\<close>

record bw_mod =
  bw_run :: bool
  bw_obj :: "json option"

definition bwlist_run :: "bool \<Rightarrow> bw_mod \<Rightarrow> int \<times> bw_mod" where
  "bwlist_run run m =
    (if run then (if bw_run m then (EMS_OK, m) else (EMS_OK, m\<lparr>bw_run := True\<rparr>))
     else (if \<not> bw_run m then (EMS_OK, m) else (EMS_OK, m\<lparr>bw_obj := None, bw_run := False\<rparr>)))"

text \<open>The copies of the lists are added to the object of the caller.\<close>

definition add_copy :: "dns_env \<Rightarrow> json option \<Rightarrow> string \<Rightarrow> (string \<times> json) list \<Rightarrow> int \<times> (string \<times> json) list" where
  "add_copy e own key root =
    (case json_object_object_get own key of
       None \<Rightarrow> (EMS_OK, root)
     | Some ary \<Rightarrow>
         (case json_parse e (json_text e (Some ary)) of
            None \<Rightarrow> (EMS_ERR, root)
          | Some j \<Rightarrow> (EMS_OK, AList.update key j root)))"

definition bwlist_server_rules :: "dns_env \<Rightarrow> json option \<Rightarrow> (string \<times> json) list \<Rightarrow> int \<times> (string \<times> json) list" where
  "bwlist_server_rules e own root =
    (case add_copy e own ''white'' root of
       (ret, root1) \<Rightarrow> if ret \<noteq> EMS_OK then (ret, root1) else add_copy e own ''black'' root1)"

subsection \<open>The names of the interface\<close>

definition fw_find_url :: "ems_fw \<Rightarrow> addr list \<Rightarrow> string \<Rightarrow> addr option" where
  "fw_find_url fw head key = find (\<lambda>w. str_text (w_url (url_of fw w)) = key) head"

definition fw_remove_url :: "dns_env \<Rightarrow> string \<Rightarrow> ems_fw \<Rightarrow> ems_fw" where
  "fw_remove_url e buf fw =
    (case fw_find_url fw (whitelist fw) buf of
       None \<Rightarrow> fw
     | Some w \<Rightarrow>
         (let fw1 = unlink_url w fw;
              fw2 = fw1\<lparr>hash_url := ems_hash_remove (hash_url fw1) w\<rparr>
          in dns_url_free w (url_set_free e w False fw2)))"

definition fw_remove_urls :: "dns_env \<Rightarrow> json list \<Rightarrow> ems_fw \<Rightarrow> int \<times> ems_fw" where
  "fw_remove_urls e ary fw = (EMS_OK, fold (fw_remove_url e) (json_strings ary) fw)"

definition fw_append_url :: "dns_env \<Rightarrow> bool \<Rightarrow> string \<Rightarrow> ems_fw \<Rightarrow> ems_fw option" where
  "fw_append_url e isblack buf fw =
    (if fw_find_url fw (whitelist fw) buf \<noteq> None then Some fw
     else (case dns_url_new e fw of
             (None, fw1) \<Rightarrow> Some fw1
           | (Some w, fw1) \<Rightarrow>
               do {
                 let fw2 = set_url w (\<lambda>x. x\<lparr>w_flg := (if isblack then ems_flag_set (w_flg x) FLG_DNS_IS_BLACKLIST else w_flg x),
                   w_url := the (fst (str_set True (Some (w_url x)) (Some buf)))\<rparr>) fw1;
                 (ret, h) \<leftarrow> ems_hash_insert (ems_hash_fd_set_key (hash_url fw2) w buf) w;
                 Some (fw2\<lparr>hash_url := h, whitelist := whitelist fw2 @ [w]\<rparr>)
               }))"

fun fw_append_strings :: "dns_env \<Rightarrow> bool \<Rightarrow> string list \<Rightarrow> ems_fw \<Rightarrow> ems_fw option" where
  "fw_append_strings e isblack [] fw = Some fw"
| "fw_append_strings e isblack (s # ss) fw = do { fw1 \<leftarrow> fw_append_url e isblack s fw; fw_append_strings e isblack ss fw1 }"

definition fw_append_urls :: "dns_env \<Rightarrow> json list \<Rightarrow> bool \<Rightarrow> ems_fw \<Rightarrow> (int \<times> ems_fw) option" where
  "fw_append_urls e ary isblack fw = map_option (Pair EMS_OK) (fw_append_strings e isblack (json_strings ary) fw)"

definition fw_user_whitelist :: "dns_env \<Rightarrow> json list" where
  "fw_user_whitelist e = map JStr (ssid_whitelist (fe e))"

definition clear_urls :: "addr list \<Rightarrow> ems_fw \<Rightarrow> ems_fw" where
  "clear_urls ws fw = fold (\<lambda>w fw. dns_url_free w (unlink_url w fw)) ws fw"

definition fw_whitelist_clear :: "ems_fw \<Rightarrow> int \<times> ems_fw" where
  "fw_whitelist_clear fw =
    (let fw1 = fw\<lparr>hash_url := ems_hash_clean (hash_url fw)\<rparr>;
         fw2 = clear_urls (whitelist fw1) fw1;
         fw3 = clear_urls (subdomain fw2) fw2
     in (EMS_OK, fw3\<lparr>n_subdomain := 0\<rparr>))"

definition ipt :: "dns_env \<Rightarrow> sys_cmd \<Rightarrow> ems_fw \<Rightarrow> ems_fw" where
  "ipt e c fw = fw\<lparr>fw_log := ipt_run (fe e) c (fw_log fw)\<rparr>"

definition append_list :: "dns_env \<Rightarrow> json option \<Rightarrow> bool \<Rightarrow> ems_fw \<Rightarrow> ems_fw option" where
  "append_list e ary isblack fw =
    (case ary of None \<Rightarrow> Some fw | Some j \<Rightarrow> do { js \<leftarrow> json_elems j; map_option snd (fw_append_urls e js isblack fw) })"

definition fw_flush_whiltelist :: "dns_env \<Rightarrow> ems_fw \<Rightarrow> (int \<times> ems_fw) option" where
  "fw_flush_whiltelist e fw =
    do {
      let fw1 = snd (fw_whitelist_clear fw);
      let fw2 = ipt e (Flush True C_TABLE_NAT (fw_chain (fw_mark fw1) FW_T_NAT_POST_WHITELIST)) fw1;
      let fw3 = ipt e (Flush True C_TABLE_NAT (fw_chain (fw_mark fw1) FW_T_NAT_POST_BLACKLIST)) fw2;
      fw4 \<leftarrow> append_list e (Some (JArr (fw_user_whitelist e))) False fw3;
      let obj = JObj (snd (bwlist_server_rules e (bwlist_obj e) []));
      fw5 \<leftarrow> append_list e (json_object_object_get (Some obj) ''white'') False fw4;
      fw6 \<leftarrow> append_list e (json_object_object_get (Some obj) ''black'') True fw5;
      fw7 \<leftarrow> fw_dns_query_triger e fw6;
      Some (EMS_OK, fw7)
    }"

definition fw_run_rules :: "(fw_env \<Rightarrow> int \<Rightarrow> sys_cmd list \<Rightarrow> int \<times> sys_cmd list) \<Rightarrow> dns_env \<Rightarrow> ems_fw \<Rightarrow> int \<times> ems_fw" where
  "fw_run_rules f e fw = (case f (fe e) (fw_mark fw) (fw_log fw) of (ret, log) \<Rightarrow> (ret, fw\<lparr>fw_log := log\<rparr>))"

definition fw_update_all_rules :: "dns_env \<Rightarrow> ems_fw \<Rightarrow> (int \<times> ems_fw) option" where
  "fw_update_all_rules e fw =
    do {
      let fw1 = snd (fw_run_rules fw_flush_user_mac_white e fw);
      let fw2 = snd (fw_run_rules fw_flush_user_mac_black e fw1);
      (_, fw3) \<leftarrow> fw_flush_whiltelist e fw2;
      let fw4 = snd (nic_sendmsg e ty_fw ty_portal EMS_APP_EVT_FW_RELOAD fw3);
      let m = fw_mark fw4;
      let fw5 = fold (\<lambda>c. ipt e (Flush False C_TABLE_NAT (fw_chain m c)))
        [FW_T_NAT_POST_AUTHED, FW_T_NAT_PRE_DEFAULT, FW_T_NAT_POST_DEFAULT, FW_T_NAT_PRE_PRE] fw4;
      let fw6 = snd (nic_sendmsg e ty_fw ty_radius EMS_APP_EVT_FW_RELOAD fw5);
      let fw7 = snd (nic_sendmsg e ty_fw ty_http EMS_APP_EVT_FW_RELOAD fw6);
      Some (EMS_OK, case sess_bind fw7 of
        None \<Rightarrow> fw7
      | Some sess \<Rightarrow> snd (fw_run_rules (\<lambda>fe m. fw_dns_set_free fe m (s_port (sock sess)) True) e fw7))
    }"

subsection \<open>The module\<close>

record fw_mod =
  fm_run :: bool
  fm_ctx :: "ems_fw option"

text \<open>
  \<open>fw_init\<close>: \<open>mem\<close> gives what the new memory, and the addresses of later objects, hold; the two flags
  say whether the firewall and the arrays of its tables can be allocated.
\<close>

definition fw_init :: "bool \<Rightarrow> bool \<Rightarrow> ems_fw \<Rightarrow> fw_mod \<Rightarrow> int \<times> fw_mod" where
  "fw_init alloc alloc_base mem m =
    (EMS_OK,
     if alloc then
       m\<lparr>fm_ctx := Some (mem\<lparr>whitelist := [], n_subdomain := 0, subdomain := [], fw_mark := 0, sess_bind := None, sess_dns := None,
         hash_msg := snd (ems_hash_init alloc_base (hash_msg mem) 128), hash_url := snd (ems_hash_init alloc_base (hash_url mem) 128),
         fwd := [], wait := [], outq := [], u_live := [], w_live := []\<rparr>)\<rparr>
     else m)"

definition clear_users :: "addr list \<Rightarrow> ems_fw \<Rightarrow> ems_fw" where
  "clear_users us fw = fold (\<lambda>u fw. dns_user_free u (unlink_user u fw)) us fw"

definition fw_clear_users :: "ems_fw \<Rightarrow> ems_fw" where
  "fw_clear_users fw =
    (let fw1 = clear_users (fwd fw) fw; fw2 = clear_users (wait fw1) fw1 in clear_users (outq fw2) fw2)"

text \<open>What \<open>fw_uninit\<close> leaves of the firewall when it releases it is the second part of the result.\<close>

definition fw_uninit :: "fw_mod \<Rightarrow> int \<times> ems_fw option \<times> fw_mod" where
  "fw_uninit m =
    (EMS_OK,
     map_option (\<lambda>fw.
       let fw1 = fw_clear_users (snd (fw_whitelist_clear fw))
       in fw1\<lparr>sess_bind := None, sess_dns := None, hash_msg := ems_hash_uninit (hash_msg fw1), hash_url := ems_hash_uninit (hash_url fw1)\<rparr>)
       (fm_ctx m),
     m\<lparr>fm_ctx := None\<rparr>)"

definition fw_dns_start :: "dns_env \<Rightarrow> bool \<Rightarrow> (int \<Rightarrow> int option) \<Rightarrow> int option \<Rightarrow> ems_fw \<Rightarrow> (int \<times> ems_fw) option" where
  "fw_dns_start e alloc ports conn fw =
    do {
      (_, fw1) \<leftarrow> fw_dns_be_server e alloc ports fw;
      (_, fw2) \<leftarrow> fw_dns_be_client e alloc conn fw1;
      Some (EMS_OK, fw2)
    }"

definition fw_dns_stop :: "ems_fw \<Rightarrow> int \<times> ems_fw" where
  "fw_dns_stop fw = (EMS_OK, snd (fw_dns_client_stop (snd (fw_dns_server_stop fw))))"

definition fw_start :: "dns_env \<Rightarrow> bool \<Rightarrow> (int \<Rightarrow> int option) \<Rightarrow> int option \<Rightarrow> ems_fw \<Rightarrow> (int \<times> ems_fw) option" where
  "fw_start e alloc ports conn fw =
    do {
      (_, fw1) \<leftarrow> fw_dns_start e alloc ports conn fw;
      Some (EMS_OK, snd (nic_sendmsg e ty_fw ty_fw EMS_APP_EVT_FW_RELOAD fw1))
    }"

definition fw_stop :: "dns_env \<Rightarrow> ems_fw \<Rightarrow> int \<times> ems_fw" where
  "fw_stop e fw =
    (let fw1 = snd (fw_whitelist_clear (snd (fw_dns_stop fw)));
         fw2 = fw_clear_users (fw1\<lparr>hash_msg := ems_hash_clean (hash_msg fw1)\<rparr>)
     in (EMS_OK, snd (fw_run_rules fw_uninit_chains e fw2)))"

definition fw_run :: "dns_env \<Rightarrow> bool \<Rightarrow> (int \<Rightarrow> int option) \<Rightarrow> int option \<Rightarrow> bool \<Rightarrow> fw_mod \<Rightarrow> (int \<times> fw_mod) option" where
  "fw_run e alloc ports conn run m =
    (if run then
       (if fm_run m then Some (EMS_OK, m)
        else do {
          fw \<leftarrow> fm_ctx m;
          (_, fw1) \<leftarrow> fw_start e alloc ports conn fw;
          Some (EMS_OK, m\<lparr>fm_run := True, fm_ctx := Some fw1\<rparr>)
        })
     else
       (if \<not> fm_run m then Some (EMS_OK, m)
        else do {
          fw \<leftarrow> fm_ctx m;
          Some (EMS_OK, m\<lparr>fm_run := False, fm_ctx := Some (snd (fw_stop e fw))\<rparr>)
        }))"

definition fw_rules_reload :: "dns_env \<Rightarrow> ems_fw \<Rightarrow> (int option \<times> ems_fw) option" where
  "fw_rules_reload e fw =
    (let fw1 = fw\<lparr>fw_mark := ssid_id (fe e)\<rparr>
     in case retry_loop 3 (fw_run_rules fw_init_chains e) (fw_run_rules fw_uninit_chains e) fw1 of
          (ok, fw2) \<Rightarrow>
            if \<not> ok then Some (None, ipt e (Shell ''/etc/init.d/network restart'') fw2)
            else do {
              (_, fw3) \<leftarrow> fw_update_all_rules e fw2;
              Some (Some EMS_OK, snd (ems_send_message e ty_nic ty_nic EMS_APP_EVT_WIRED_RELOAD fw3))
            })"

definition fw_rules_address_add :: "dns_env \<Rightarrow> json option \<Rightarrow> ems_fw \<Rightarrow> (int \<times> ems_fw) option" where
  "fw_rules_address_add e root fw =
    (case root of Some (JArr js) \<Rightarrow> fw_append_urls e js False fw | _ \<Rightarrow> Some (EMS_ERR, fw))"

definition fw_rules_address_del :: "dns_env \<Rightarrow> json option \<Rightarrow> ems_fw \<Rightarrow> (int \<times> ems_fw) option" where
  "fw_rules_address_del e root fw =
    (case root of Some (JArr js) \<Rightarrow> Some (fw_remove_urls e js fw) | _ \<Rightarrow> Some (EMS_ERR, fw))"

definition fw_rules_radius_device_free :: "dns_env \<Rightarrow> json option \<Rightarrow> ems_fw \<Rightarrow> (int \<times> ems_fw) option" where
  "fw_rules_radius_device_free e root fw =
    (let ip = ems_json_get_string_def root ''userip'';
         mac = ems_json_get_string_def root ''usermac'';
         add = ems_json_get_int_def root ''add'' 0
     in if 0 < length ip \<and> 0 < length mac then
          map_option (\<lambda>(ret, log). (EMS_OK, fw\<lparr>fw_log := log\<rparr>)) (fw_device_free (fe e) (fw_mark fw) ip mac (add \<noteq> 0) (fw_log fw))
        else Some (EMS_OK, fw))"

definition fw_server_rules_update :: "dns_env \<Rightarrow> ems_fw \<Rightarrow> (int \<times> ems_fw) option" where
  "fw_server_rules_update e fw = fw_flush_whiltelist e fw"

text \<open>\<open>EMS_NO\<close> is 0 and \<open>EMS_YES\<close> is 1.\<close>

definition fw_url_is_subdomain :: "dns_env \<Rightarrow> json option \<Rightarrow> ems_fw \<Rightarrow> (int \<times> ems_fw) option" where
  "fw_url_is_subdomain e root fw =
    (let url = ems_json_get_string_def root ''url''
     in if 0 < length url then map_option (apfst of_bool) (fw_url_in_whitelist e url fw) else Some (0, fw))"

definition fw_url_whitelist :: "dns_env \<Rightarrow> json option \<Rightarrow> ems_fw \<Rightarrow> (int \<times> ems_fw) option" where
  "fw_url_whitelist e root fw =
    (let white = ems_json_get_string_def root ''addr''
     in if length white \<le> 0 then Some (0, fw) else fw_url_whitelist_insert e white fw)"

definition fw_set_nas_free :: "dns_env \<Rightarrow> json option \<Rightarrow> ems_fw \<Rightarrow> int \<times> ems_fw" where
  "fw_set_nas_free e root fw =
    (let addr = ems_json_get_string_def root ''addr'';
         src = ems_json_get_int_def root ''srcport'' 0;
         dst = ems_json_get_int_def root ''dstport'' 0;
         enable = ems_json_get_int_def root ''enable'' 0
     in (EMS_OK, if 0 < length addr \<and> 0 < src \<and> 0 < dst then
          snd (fw_run_rules (\<lambda>fe m. fw_nas_set_free fe m addr src dst (enable \<noteq> 0)) e fw) else fw))"

definition fw_set_http_free :: "dns_env \<Rightarrow> json option \<Rightarrow> ems_fw \<Rightarrow> int \<times> ems_fw" where
  "fw_set_http_free e root fw =
    (let src = ems_json_get_int_def root ''srcport'' 0;
         dst = ems_json_get_int_def root ''dstport'' 0;
         enable = ems_json_get_int_def root ''enable'' 0
     in (EMS_OK, if 0 < src \<and> 0 < dst then
          snd (fw_run_rules (\<lambda>fe m. fw_http_set_free fe m src dst (enable \<noteq> 0)) e fw) else fw))"

text \<open>A message of the running module, on its firewall.\<close>

definition fw_process_run :: "dns_env \<Rightarrow> nat \<Rightarrow> json option \<Rightarrow> ems_fw \<Rightarrow> (int option \<times> ems_fw) option" where
  "fw_process_run e evt root fw =
    (let ok = map_option (apfst Some)
     in if evt = EMS_APP_CHECK_URL_WHITELIST then ok (fw_url_whitelist e root fw)
        else if evt = EMS_APP_CHECK_SUBDOMAIN then ok (fw_url_is_subdomain e root fw)
        else if evt = EMS_APP_SERVER_RULES_UPDATE then ok (fw_server_rules_update e fw)
        else if evt = EMS_APP_EVT_FW_RELOAD then fw_rules_reload e fw
        else if evt = EMS_APP_FW_ADDRESS_ADD then ok (fw_rules_address_add e root fw)
        else if evt = EMS_APP_FW_ADDRESS_DEL then ok (fw_rules_address_del e root fw)
        else if evt = EMS_APP_FW_RADIUS_DEVICE_FREE then ok (fw_rules_radius_device_free e root fw)
        else if evt = EMS_APP_FW_SET_NAS_FREE then ok (Some (fw_set_nas_free e root fw))
        else if evt = EMS_APP_FW_SET_HTTP_FREE then ok (Some (fw_set_http_free e root fw))
        else if evt = EMS_APP_FW_SET_GREY_FREE then ok (Some (fw_set_nas_free e root fw))
        else Some (Some EMS_OK, fw))"

definition fw_process ::
  "dns_env \<Rightarrow> bool \<Rightarrow> (int \<Rightarrow> int option) \<Rightarrow> int option \<Rightarrow> nat \<Rightarrow> json option \<Rightarrow> fw_mod \<Rightarrow> (int option \<times> fw_mod) option" where
  "fw_process e alloc ports conn evt root m =
    (if evt = EMS_APP_START then map_option (apfst Some) (fw_run e alloc ports conn True m)
     else if evt = EMS_APP_STOP then map_option (apfst Some) (fw_run e alloc ports conn False m)
     else if evt = EMS_APP_FW_CLEAR then
       do { fw \<leftarrow> fm_ctx m; Some (case fw_run_rules fw_uninit_chains e fw of (ret, fw1) \<Rightarrow> (Some ret, m\<lparr>fm_ctx := Some fw1\<rparr>)) }
     else if \<not> fm_run m then Some (Some EMS_OK, m)
     else do {
       fw \<leftarrow> fm_ctx m;
       (ret, fw1) \<leftarrow> fw_process_run e evt root fw;
       Some (ret, m\<lparr>fm_ctx := Some fw1\<rparr>)
     })"

subsection \<open>Rules of the server\<close>

text \<open>
  New rules are compared with the old ones as text, and the firewall of the same interface loads
  them. The lists a message \<open>EMS_APP_SERVER_BWLIST\<close> asks for are the second part of
  \<open>bwlist_server_rules\<close>.
\<close>

definition bwlist_server_rules_update ::
  "dns_env \<Rightarrow> bool \<Rightarrow> (int \<Rightarrow> int option) \<Rightarrow> int option \<Rightarrow> json option \<Rightarrow> bw_mod \<times> fw_mod \<Rightarrow> (int option \<times> bw_mod \<times> fw_mod) option" where
  "bwlist_server_rules_update e alloc ports conn root st =
    (case st of (b, m) \<Rightarrow>
      if root = None then Some (Some EMS_OK, b, m)
      else if json_text e root = json_text e (bw_obj b) then Some (Some EMS_OK, b, m)
      else (let own = json_parse e (json_text e root)
            in map_option (\<lambda>(ret, m'). (ret, b\<lparr>bw_obj := own\<rparr>, m'))
                 (fw_process (e\<lparr>bwlist_obj := own\<rparr>) alloc ports conn EMS_APP_SERVER_RULES_UPDATE None m)))"

definition bwlist_process ::
  "dns_env \<Rightarrow> bool \<Rightarrow> (int \<Rightarrow> int option) \<Rightarrow> int option \<Rightarrow> nat \<Rightarrow> json option \<Rightarrow> bw_mod \<times> fw_mod \<Rightarrow> (int option \<times> bw_mod \<times> fw_mod) option" where
  "bwlist_process e alloc ports conn evt root st =
    (case st of (b, m) \<Rightarrow>
      if evt = EMS_APP_SERVER_RULES_UPDATE then bwlist_server_rules_update e alloc ports conn root st
      else if evt = EMS_APP_SERVER_BWLIST then Some (Some (fst (bwlist_server_rules e (bw_obj b) [])), b, m)
      else if evt = EMS_APP_START then (case bwlist_run True b of (ret, b') \<Rightarrow> Some (Some ret, b', m))
      else if evt = EMS_APP_STOP then (case bwlist_run False b of (ret, b') \<Rightarrow> Some (Some ret, b', m))
      else Some (Some EMS_OK, b, m))"

end
