(* ===== verification/Ems_Dns_Inv.thy ===== *)
theory Ems_Dns_Inv
  imports Ems_Fw
begin

text \<open>
  Invariants of the DNS forwarder: the users (requests in flight) and the names it keeps, and that every
  operation of the forwarder and of the lists of names keeps them.
\<close>

subsection \<open>Tables whose nodes keep their hash value\<close>

definition crc_good :: "ems_hash \<Rightarrow> addr \<Rightarrow> bool" where
  "crc_good h a \<longleftrightarrow> fd_crc h a smod n_base h = hash_crc (fd_key h a) smod n_base h"

definition tab_ok :: "ems_hash \<Rightarrow> bool" where
  "tab_ok h \<longleftrightarrow> hash_ok h \<and> (\<forall>a \<in> hash_nodes h. crc_good h a)"

lemma tab_find: "tab_ok h \<Longrightarrow> ems_hash_find h k = Some (hash_map h k)"
  by (simp add: tab_ok_def ems_hash_find_eq)

lemma tab_map: "tab_ok h \<Longrightarrow> hash_map h k = Some a \<longleftrightarrow> a \<in> hash_nodes h \<and> fd_key h a = k"
  by (simp add: tab_ok_def hash_map_Some_iff)

lemma smod_smod: "0 < (n :: int) \<Longrightarrow> x smod n smod n = x smod n"
  using smod_mod_positive [of x n] smod_mod_positive [of "x mod n" n] smod_mod_positive [of "- x" n]
    smod_mod_positive [of "- x mod n" n] minus_smod_eq [of x n] minus_smod_eq [of "x smod n" n]
  by (cases "0 \<le> x") auto

lemma tab_insert:
  assumes "tab_ok h" and "crc_good h a"
  obtains r h' where "ems_hash_insert h a = Some (r, h')" and "tab_ok h'" and "fd_key h' = fd_key h"
    and "hash_nodes h' \<subseteq> insert a (hash_nodes h)" and "hash_nodes h \<subseteq> hash_nodes h'"
    and "hash_map h' = (case hash_map h (fd_key h a) of None \<Rightarrow> (hash_map h)(fd_key h a \<mapsto> a) | Some b \<Rightarrow> hash_map h)"
proof -
  have ok: "hash_ok h" and n: "0 < n_base h" using assms(1) by (auto simp: tab_ok_def hash_ok_def)
  let ?k = "fd_key h a" and ?h1 = "h\<lparr>fd_crc := (fd_crc h)(a := fd_crc h a smod n_base h)\<rparr>"
  have good: "crc_good ?h1 b" if "crc_good h b" for b
    using that n assms(2) by (simp add: crc_good_def smod_smod)
  show ?thesis
  proof (cases "hash_map h ?k")
    case None
    then have "a \<notin> hash_nodes h" using hash_map_None_iff by force
    then have r: "fd_ready h a" using assms(2) by (simp add: fd_ready_def crc_good_def)
    obtain h' where h': "ems_hash_insert h a = Some (EMS_OK, h')" "hash_ok h'" "hash_map h' = (hash_map h)(?k \<mapsto> a)"
      "fd_key h' = fd_key h" "hash_nodes h' = insert a (hash_nodes h)"
      using ems_hash_insert_new [OF ok r None] by blast
    have "n_base h' = n_base h \<and> fd_crc h' = fd_crc ?h1"
      using h'(1) by (auto simp: ems_hash_insert_def Let_def split: if_splits option.splits)
    then have "crc_good h' b \<longleftrightarrow> crc_good ?h1 b" for b using h'(4) by (simp add: crc_good_def)
    then have "tab_ok h'" using h' assms good by (auto simp: tab_ok_def)
    with that h' None show ?thesis by auto
  next
    case (Some b)
    have i: "nat (fd_crc h a smod n_base h) = hash_slot h ?k"
      "\<not> (fd_crc h a smod n_base h < 0 \<or> int (length (base h)) \<le> fd_crc h a smod n_base h)"
      using assms(2) crc_index [OF ok, of ?k] by (auto simp: crc_good_def hash_slot_def)
    have "ems_hash_insert h a = Some (EMS_ERR_TICKET_EXIST, ?h1)"
      using i hash_find_slot [OF ok, of ?k] Some by (simp add: ems_hash_insert_def Let_def)
    moreover have "tab_ok ?h1" using assms(1) good by (auto simp: tab_ok_def)
    ultimately show ?thesis using that Some by auto
  qed
qed

lemma tab_insert_ok:
  assumes "tab_ok h" and "crc_good h a"
  shows "\<exists>r h'. ems_hash_insert h a = Some (r, h') \<and> tab_ok h' \<and> fd_key h' = fd_key h \<and>
    hash_nodes h' \<subseteq> insert a (hash_nodes h) \<and>
    hash_map h' = (case hash_map h (fd_key h a) of None \<Rightarrow> (hash_map h)(fd_key h a \<mapsto> a) | Some b \<Rightarrow> hash_map h)"
  by (rule tab_insert [OF assms]) blast

lemma tab_remove:
  assumes "tab_ok h"
  shows "tab_ok (ems_hash_remove h a)" and "hash_nodes (ems_hash_remove h a) = hash_nodes h - {a}"
    and "fd_key (ems_hash_remove h a) = fd_key h"
proof -
  show "fd_key (ems_hash_remove h a) = fd_key h" by (simp add: ems_hash_remove_def)
  show n: "hash_nodes (ems_hash_remove h a) = hash_nodes h - {a}"
    using assms ems_hash_remove_ok(2) by (simp add: tab_ok_def)
  have "crc_good (ems_hash_remove h a) b = crc_good h b" for b
    by (simp add: crc_good_def ems_hash_remove_def)
  then show "tab_ok (ems_hash_remove h a)"
    using assms n ems_hash_remove_ok(1) by (auto simp: tab_ok_def)
qed

lemma tab_set_key:
  assumes "tab_ok h" and "a \<notin> hash_nodes h"
  shows "tab_ok (ems_hash_fd_set_key h a k)" and "hash_nodes (ems_hash_fd_set_key h a k) = hash_nodes h"
    and "hash_map (ems_hash_fd_set_key h a k) = hash_map h" and "crc_good (ems_hash_fd_set_key h a k) a"
    and "fd_key (ems_hash_fd_set_key h a k) a = k"
proof -
  have "hash_ok h" using assms(1) by (simp add: tab_ok_def)
  note s = set_key_ok [OF this assms(2), of k]
  have "crc_good (ems_hash_fd_set_key h a k) b = crc_good h b" if "b \<in> hash_nodes h" for b
    using that assms(2) by (auto simp: crc_good_def ems_hash_fd_set_key_def)
  then show "tab_ok (ems_hash_fd_set_key h a k)" using assms s(1) by (auto simp: tab_ok_def)
  show "crc_good (ems_hash_fd_set_key h a k) a" using s(3) by (simp add: fd_ready_def crc_good_def)
qed (use assms set_key_ok in \<open>auto simp: tab_ok_def\<close>)

lemma fd_init_eq: "ems_hash_fd_init h a = ems_hash_fd_set_key h a []"
  by (simp add: ems_hash_fd_init_def ems_hash_fd_set_key_def hash_crc_def)

lemmas tab_fd_init = tab_set_key [where k = "[]", folded fd_init_eq]

subsection \<open>The users\<close>

text \<open>
  Every user that is allocated is in exactly one of the three queues, except those in \<open>D\<close>, which an
  operation has in its hands; only users in \<open>fwd\<close> and \<open>wait\<close> (and \<open>D\<close>) can be found in the table, and
  exactly those in \<open>fwd\<close> and \<open>wait\<close> have a pending timer.
\<close>

definition users_ok :: "addr set \<Rightarrow> ems_fw \<Rightarrow> bool" where
  "users_ok D fw \<longleftrightarrow>
    distinct (fwd fw @ wait fw @ outq fw) \<and> distinct (u_live fw) \<and> D \<subseteq> set (u_live fw) \<and>
    set (fwd fw @ wait fw @ outq fw) = set (u_live fw) - D \<and>
    tab_ok (hash_msg fw) \<and> hash_nodes (hash_msg fw) \<subseteq> set (fwd fw) \<union> set (wait fw) \<union> D \<and>
    (\<forall>u \<in> set (u_live fw) - D. u_to (usr_of fw u) \<noteq> None \<longleftrightarrow> u \<in> set (fwd fw) \<union> set (wait fw)) \<and>
    (\<forall>u \<in> set (u_live fw). buf_ok (u_buf (usr_of fw u)))"

definition uview :: "ems_fw \<Rightarrow> addr list \<times> addr list \<times> addr list \<times> (addr \<Rightarrow> dns_user) \<times> addr list \<times> ems_hash" where
  "uview fw = (fwd fw, wait fw, outq fw, usr_of fw, u_live fw, hash_msg fw)"

lemma users_ok_view: "uview fw' = uview fw \<Longrightarrow> users_ok D fw' \<longleftrightarrow> users_ok D fw"
  by (simp add: users_ok_def uview_def)

lemma unlink_ok:
  assumes "users_ok {} fw" and "u \<in> set (u_live fw)"
  shows "users_ok {u} (unlink_user u fw)"
proof -
  have d: "distinct (fwd fw @ wait fw @ outq fw)" using assms(1) by (simp add: users_ok_def)
  then have s: "set (remove1 u (fwd fw)) = set (fwd fw) - {u}" "set (remove1 u (wait fw)) = set (wait fw) - {u}"
    "set (remove1 u (outq fw)) = set (outq fw) - {u}"
    by (simp_all add: set_remove1_eq)
  have "distinct (remove1 u (fwd fw) @ remove1 u (wait fw) @ remove1 u (outq fw))"
    using d by (auto simp: distinct_remove1 s)
  then show ?thesis using assms by (auto simp: users_ok_def unlink_user_def s)
qed

lemma set_usr_detached:
  assumes "users_ok {u} fw" and "buf_ok (u_buf (usr_of fw u)) \<Longrightarrow> buf_ok (u_buf (f (usr_of fw u)))"
  shows "users_ok {u} (set_usr u f fw)"
  using assms by (auto simp: users_ok_def set_usr_def)

lemma free_ok:
  assumes "users_ok {u} fw" and "u \<notin> hash_nodes (hash_msg fw)"
  shows "users_ok {} (dns_user_free u fw)"
proof -
  have t: "tab_ok (hash_msg fw)" using assms(1) by (simp add: users_ok_def)
  note i = tab_fd_init [OF t assms(2)]
  have "set (remove1 u (u_live fw)) = set (u_live fw) - {u}"
    using assms(1) by (simp add: users_ok_def set_remove1_eq)
  then show ?thesis
    using assms i(1,2) by (auto simp: users_ok_def dns_user_free_def set_usr_def distinct_remove1)
qed

definition fresh_env :: "dns_env \<Rightarrow> bool" where
  "fresh_env e \<longleftrightarrow> (\<forall>l a. new_user e l = Some a \<longrightarrow> a \<notin> set l) \<and> (\<forall>l a. new_url e l = Some a \<longrightarrow> a \<notin> set l)"

lemma new_ok:
  assumes "users_ok {} fw" and "fresh_env e" and "dns_user_new e fw = (Some u, fw')"
  shows "users_ok {u} fw'" and "u \<notin> hash_nodes (hash_msg fw')" and "u_buf (usr_of fw' u) = snd (ems_buffer_init (alloc_ok e) (garbage e) EMS_BUFFER_1K)"
proof -
  from assms(3) have n: "new_user e (u_live fw) = Some u" and fw': "fw' = fw\<lparr>hash_msg := ems_hash_fd_init (hash_msg fw) u, u_live := u # u_live fw,
      usr_of := (usr_of fw)(u := \<lparr>u_flg = 0, u_port = 0, u_addr = 0,
        u_buf = snd (ems_buffer_init (alloc_ok e) (garbage e) EMS_BUFFER_1K), u_to = None\<rparr>)\<rparr>"
    by (auto simp: dns_user_new_def split: option.splits)
  have u: "u \<notin> set (u_live fw)" using n assms(2) by (simp add: fresh_env_def)
  then have nodes: "u \<notin> hash_nodes (hash_msg fw)" using assms(1) by (auto simp: users_ok_def)
  have t: "tab_ok (hash_msg fw)" using assms(1) by (simp add: users_ok_def)
  note i = tab_fd_init [OF t nodes]
  have b: "buf_ok (snd (ems_buffer_init (alloc_ok e) (garbage e) EMS_BUFFER_1K))"
    by (simp add: ems_buffer_init_def buf_ok_def)
  show "users_ok {u} fw'" using assms(1) u i(1,2) b by (auto simp: users_ok_def fw')
  show "u \<notin> hash_nodes (hash_msg fw')" using i(2) nodes by (simp add: fw')
  show "u_buf (usr_of fw' u) = snd (ems_buffer_init (alloc_ok e) (garbage e) EMS_BUFFER_1K)" by (simp add: fw')
qed

lemma push_fwd_ok:
  assumes "users_ok {u} fw" and "crc_good (hash_msg fw) u"
  obtains fw' where "fw_dns_push_fwd e u fw = Some fw'" and "users_ok {} fw'" and "fwd fw' = fwd fw @ [u]"
    and "wait fw' = wait fw" and "outq fw' = outq fw" and "u_live fw' = u_live fw"
    and "usr_of fw' = (usr_of fw)(u := (usr_of fw u)\<lparr>u_to := Some (timeout_deadline (now e) 6000)\<rparr>)"
    and "sess_dns fw' = sess_dns fw" and "sess_bind fw' = sess_bind fw" and "net_out fw' = net_out fw"
    and "hash_map (hash_msg fw') = (case hash_map (hash_msg fw) (fd_key (hash_msg fw) u) of
      None \<Rightarrow> (hash_map (hash_msg fw))(fd_key (hash_msg fw) u \<mapsto> u) | Some b \<Rightarrow> hash_map (hash_msg fw))"
proof -
  have t: "tab_ok (hash_msg fw)" using assms(1) by (simp add: users_ok_def)
  obtain r h where h: "ems_hash_insert (hash_msg fw) u = Some (r, h)" "tab_ok h"
    "hash_nodes h \<subseteq> insert u (hash_nodes (hash_msg fw))"
    "hash_map h = (case hash_map (hash_msg fw) (fd_key (hash_msg fw) u) of
      None \<Rightarrow> (hash_map (hash_msg fw))(fd_key (hash_msg fw) u \<mapsto> u) | Some b \<Rightarrow> hash_map (hash_msg fw))"
    using tab_insert_ok [OF t assms(2)] by blast
  let ?fw = "set_usr u (\<lambda>x. x\<lparr>u_to := Some (timeout_deadline (now e) 6000)\<rparr>) (fw\<lparr>fwd := fwd fw @ [u], hash_msg := h\<rparr>)"
  have "fw_dns_push_fwd e u fw = Some ?fw" using h(1) by (simp add: fw_dns_push_fwd_def)
  moreover have "users_ok {} ?fw" using assms(1) h by (auto simp: users_ok_def set_usr_def)
  ultimately show ?thesis using that [of ?fw] h(4) by (simp add: set_usr_def)
qed

subsection \<open>The sessions\<close>

definition socks_ok :: "ems_fw \<Rightarrow> bool" where
  "socks_ok fw \<longleftrightarrow> (\<forall>s. sess_bind fw = Some s \<longrightarrow> buf_ok (buf_in s)) \<and> (\<forall>s. sess_dns fw = Some s \<longrightarrow> buf_ok (buf_in s))"

lemma sess_upd_buf [simp]:
  "buf_in (sess_event_set s f cb) = buf_in s" "buf_in (sess_event_cancel s) = buf_in s"
  "buf_in (sess_timeout_set t s ms cb) = buf_in s"
  by (simp_all add: sess_event_set_def sess_event_cancel_def sess_timeout_set_def)

lemma set_read_frame:
  "fw_dns_client_set_read fw rd = Some fw' \<Longrightarrow> \<exists>s. fw' = fw\<lparr>sess_dns := s\<rparr> \<and> (socks_ok fw \<longrightarrow> socks_ok fw')"
  unfolding fw_dns_client_set_read_def Let_def by (auto simp: socks_ok_def)

lemma client_set_write_frame:
  "fw_dns_client_set_write fw wr = Some fw' \<Longrightarrow> \<exists>s. fw' = fw\<lparr>sess_dns := s\<rparr> \<and> (socks_ok fw \<longrightarrow> socks_ok fw')"
  unfolding fw_dns_client_set_write_def Let_def by (auto simp: socks_ok_def)

lemma server_set_write_frame:
  "fw_dns_server_set_write fw wr = Some fw' \<Longrightarrow> \<exists>s. fw' = fw\<lparr>sess_bind := s\<rparr> \<and> (socks_ok fw \<longrightarrow> socks_ok fw')"
  unfolding fw_dns_server_set_write_def Let_def by (auto simp: socks_ok_def)

lemma dgram_in_ok: "buf_ok b \<Longrightarrow> buf_ok (dgram_in b d)"
proof -
  assume b: "buf_ok b"
  have "bwr b + length (take (nat (buf_left b)) d) \<le> length (bmem b)"
    using b by (auto simp: buf_ok_def buf_left_def)
  then have "buf_ok (b\<lparr>bmem := mem_write (bmem b) (bwr b) (take (nat (buf_left b)) d)\<rparr>)"
    using b by (simp add: buf_ok_def)
  then show ?thesis
    unfolding dgram_in_def Let_def by (metis seek_wr_ok prod.collapse)
qed

lemma write_contents_ok: "buf_ok b \<Longrightarrow> buf_ok c \<Longrightarrow> buf_ok (snd (ems_buffer_write b (contents c) (buf_len c)))"
  by (rule write_any_ok [OF _ _ prod.collapse [symmetric]]) (auto simp: length_contents buf_len_def buf_ok_def)

lemma clear_buf_ok: "buf_ok (ems_buffer_clear b)"
  by (simp add: buf_ok_def ems_buffer_clear_def)

lemma put_any_ok: "buf_ok b \<Longrightarrow> buf_ok (buf_put b s)"
  unfolding buf_put_def by (rule write_any_ok [OF _ _ prod.collapse [symmetric]]) auto

lemma set_labels_any_ok: "buf_ok b \<Longrightarrow> buf_ok (dns_set_labels b name)"
proof (induction b name rule: dns_set_labels.induct)
  case (1 b name)
  then show ?case
    by (subst dns_set_labels.simps) (auto simp: put_any_ok Let_def split: option.splits)
qed

lemma fill_query_any_ok:
  assumes "buf_ok b" and "dns_fill_query b i name = Some b'"
  shows "buf_ok b'"
proof -
  obtain mem where m: "mem_put (bmem b) (brd b) (dns_put_header (dns_query_header i)) = Some mem"
    and b': "b' = buf_put (buf_put (dns_set_question (snd (ems_buffer_seek_wr (b\<lparr>bmem := mem\<rparr>) 12 2)) name) (be16 1)) (be16 1)"
    using assms(2) by (auto simp: dns_fill_query_def Let_def split: option.splits)
  have "length mem = length (bmem b)" using m by (auto simp: mem_put_def split: if_splits)
  then have "buf_ok (b\<lparr>bmem := mem\<rparr>)" using assms(1) by (simp add: buf_ok_def)
  then have "buf_ok (snd (ems_buffer_seek_wr (b\<lparr>bmem := mem\<rparr>) 12 2))" by (metis seek_wr_ok prod.collapse)
  then show ?thesis unfolding b' dns_set_question_def by (intro put_any_ok set_labels_any_ok)
qed

subsection \<open>The operations on users\<close>

text \<open>What the operations on users leave alone: the names, and the sessions.\<close>

definition nview :: "ems_fw \<Rightarrow> addr list \<times> int \<times> addr list \<times> ems_hash \<times> (addr \<Rightarrow> dns_url) \<times> addr list" where
  "nview fw = (whitelist fw, n_subdomain fw, subdomain fw, hash_url fw, url_of fw, w_live fw)"

definition socks :: "ems_fw \<Rightarrow> ems_session option \<times> ems_session option" where
  "socks fw = (sess_bind fw, sess_dns fw)"

lemma user_frames [simp]:
  "nview (set_usr u f fw) = nview fw" "nview (unlink_user u fw) = nview fw" "nview (dns_user_free u fw) = nview fw"
  "socks (set_usr u f fw) = socks fw" "socks (unlink_user u fw) = socks fw" "socks (dns_user_free u fw) = socks fw"
  by (simp_all add: nview_def socks_def set_usr_def unlink_user_def dns_user_free_def)

lemma user_hash_msg [simp]:
  "hash_msg (set_usr u f fw) = hash_msg fw" "hash_msg (unlink_user u fw) = hash_msg fw"
  by (simp_all add: set_usr_def unlink_user_def)

lemma view_upd [simp]:
  "nview (fw\<lparr>hash_msg := h\<rparr>) = nview fw" "nview (fw\<lparr>fwd := l\<rparr>) = nview fw" "nview (fw\<lparr>wait := l\<rparr>) = nview fw"
  "nview (fw\<lparr>outq := l\<rparr>) = nview fw" "nview (fw\<lparr>sess_bind := s\<rparr>) = nview fw" "nview (fw\<lparr>sess_dns := s\<rparr>) = nview fw"
  "nview (fw\<lparr>net_out := n\<rparr>) = nview fw" "nview (fw\<lparr>fw_log := lg\<rparr>) = nview fw" "nview (fw\<lparr>fw_mark := m\<rparr>) = nview fw"
  "uview (fw\<lparr>sess_bind := s\<rparr>) = uview fw" "uview (fw\<lparr>sess_dns := s\<rparr>) = uview fw" "uview (fw\<lparr>net_out := n\<rparr>) = uview fw"
  "uview (fw\<lparr>fw_log := lg\<rparr>) = uview fw" "uview (fw\<lparr>fw_mark := m\<rparr>) = uview fw"
  "uview (fw\<lparr>whitelist := l\<rparr>) = uview fw" "uview (fw\<lparr>subdomain := l\<rparr>) = uview fw" "uview (fw\<lparr>hash_url := h\<rparr>) = uview fw"
  "uview (fw\<lparr>n_subdomain := k\<rparr>) = uview fw"
  "socks (fw\<lparr>hash_msg := h\<rparr>) = socks fw" "socks (fw\<lparr>fwd := l\<rparr>) = socks fw" "socks (fw\<lparr>wait := l\<rparr>) = socks fw"
  "socks (fw\<lparr>outq := l\<rparr>) = socks fw" "socks (fw\<lparr>net_out := n\<rparr>) = socks fw" "socks (fw\<lparr>fw_log := lg\<rparr>) = socks fw"
  "socks (fw\<lparr>whitelist := l\<rparr>) = socks fw" "socks (fw\<lparr>subdomain := l\<rparr>) = socks fw" "socks (fw\<lparr>hash_url := h\<rparr>) = socks fw"
  "socks (fw\<lparr>n_subdomain := k\<rparr>) = socks fw" "socks (fw\<lparr>fw_mark := m\<rparr>) = socks fw"
  by (simp_all add: nview_def uview_def socks_def)

lemma socks_ok_view: "socks fw' = socks fw \<Longrightarrow> socks_ok fw' \<longleftrightarrow> socks_ok fw"
  by (simp add: socks_ok_def socks_def)

lemma user_new_frame: "dns_user_new e fw = (r, fw') \<Longrightarrow> nview fw' = nview fw \<and> socks fw' = socks fw"
  by (auto simp: dns_user_new_def nview_def socks_def split: option.splits)

lemma push_frame: "fw_dns_push_fwd e u fw = Some fw' \<Longrightarrow> nview fw' = nview fw \<and> socks fw' = socks fw"
  by (auto simp: fw_dns_push_fwd_def bind_eq_Some_conv)

lemma users_find:
  assumes "users_ok {} fw"
  shows "dns_find_user fw i = Some (hash_map (hash_msg fw) (dns_key i))"
  using assms by (simp add: dns_find_user_def users_ok_def tab_find)

lemma users_found:
  assumes "users_ok {} fw" and "dns_find_user fw i = Some (Some u)"
  shows "u \<in> hash_nodes (hash_msg fw)" and "fd_key (hash_msg fw) u = dns_key i" and "u \<in> set (u_live fw)"
    and "crc_good (hash_msg fw) u" and "u \<in> set (fwd fw) \<union> set (wait fw)"
proof -
  have t: "tab_ok (hash_msg fw)" using assms(1) by (simp add: users_ok_def)
  have "hash_map (hash_msg fw) (dns_key i) = Some u" using assms users_find [OF assms(1), of i] by simp
  then show u: "u \<in> hash_nodes (hash_msg fw)" "fd_key (hash_msg fw) u = dns_key i" using tab_map [OF t] by auto
  then show "u \<in> set (u_live fw)" "crc_good (hash_msg fw) u" "u \<in> set (fwd fw) \<union> set (wait fw)"
    using assms(1) t by (auto simp: users_ok_def tab_ok_def)
qed

lemma set_key_detached:
  assumes "users_ok {u} fw" and "u \<notin> hash_nodes (hash_msg fw)"
  shows "users_ok {u} (fw\<lparr>hash_msg := ems_hash_fd_set_key (hash_msg fw) u k\<rparr>)"
    and "crc_good (ems_hash_fd_set_key (hash_msg fw) u k) u"
proof -
  have t: "tab_ok (hash_msg fw)" using assms(1) by (simp add: users_ok_def)
  note i = tab_set_key [OF t assms(2), of k]
  show "users_ok {u} (fw\<lparr>hash_msg := ems_hash_fd_set_key (hash_msg fw) u k\<rparr>)"
    using assms(1) i(1,2) by (auto simp: users_ok_def)
  show "crc_good (ems_hash_fd_set_key (hash_msg fw) u k) u" by (rule i(4))
qed

lemma user_for_ok:
  assumes "users_ok {} fw" and "fresh_env e" and "fw_dns_user_for e a p i fw = Some (r, fw')"
  shows "nview fw' = nview fw" and "socks fw' = socks fw" and "r = None \<Longrightarrow> users_ok {} fw'"
    and "r = Some u \<Longrightarrow> users_ok {u} fw' \<and> crc_good (hash_msg fw') u"
proof -
  obtain found where f: "dns_find_user fw i = Some found" using users_find [OF assms(1)] by blast
  have "nview fw' = nview fw \<and> socks fw' = socks fw \<and> (r = None \<longrightarrow> users_ok {} fw') \<and>
    (r = Some u \<longrightarrow> users_ok {u} fw' \<and> crc_good (hash_msg fw') u)"
  proof (cases found)
    case (Some v)
    then have fw': "fw' = set_usr v (\<lambda>x. x\<lparr>u_buf := ems_buffer_clear (u_buf x), u_to := None\<rparr>) (unlink_user v fw)" and r: "r = Some v"
      using assms(3) f by (auto simp: fw_dns_user_for_def)
    note v = users_found [OF assms(1) f [unfolded Some]]
    have "users_ok {v} (set_usr v (\<lambda>x. x\<lparr>u_buf := ems_buffer_clear (u_buf x), u_to := None\<rparr>) (unlink_user v fw))"
      by (rule set_usr_detached [OF unlink_ok [OF assms(1) v(3)]]) (simp add: clear_buf_ok)
    then show ?thesis using r v(4) unfolding fw' by auto
  next
    case None
    obtain r1 fw1 where n: "dns_user_new e fw = (r1, fw1)" by fastforce
    note fr = user_new_frame [OF n]
    show ?thesis
    proof (cases r1)
      case None
      then have "r = None" "fw' = fw1" "uview fw1 = uview fw"
        using assms(3) f n \<open>found = None\<close> by (auto simp: fw_dns_user_for_def dns_user_new_def split: option.splits)
      then show ?thesis using fr assms(1) users_ok_view [of fw1 fw] by simp
    next
      case (Some v)
      let ?g = "set_usr v (\<lambda>x. x\<lparr>u_addr := a, u_port := p\<rparr>) fw1"
      have r: "r = Some v" and fw': "fw' = ?g\<lparr>hash_msg := ems_hash_fd_set_key (hash_msg ?g) v (dns_key i)\<rparr>"
        using assms(3) f n \<open>found = None\<close> Some by (auto simp: fw_dns_user_for_def set_usr_def)
      note w = new_ok [OF assms(1,2) n [unfolded Some]]
      have g: "users_ok {v} ?g" by (rule set_usr_detached [OF w(1)]) auto
      have "v \<notin> hash_nodes (hash_msg ?g)" using w(2) by (simp add: set_usr_def)
      from set_key_detached [OF g this, of "dns_key i"] show ?thesis using fr r fw' by auto
    qed
  qed
  then show "nview fw' = nview fw" "socks fw' = socks fw" "r = None \<Longrightarrow> users_ok {} fw'"
    "r = Some u \<Longrightarrow> users_ok {u} fw' \<and> crc_good (hash_msg fw') u" by auto
qed

subsection \<open>The names\<close>

text \<open>
  Every name that is allocated is in exactly one of the two lists, except those in \<open>D\<close>; the counter
  is the length of \<open>subdomain\<close>, which has at most \<open>n\<close> names, and the flag says which list a name is
  in. The number of the addresses of a name is the length of its array.
\<close>

abbreviation (input) is_sub :: "dns_url \<Rightarrow> bool" where
  "is_sub x \<equiv> ems_flag_like (w_flg x) FLG_DNS_IS_SUBDOMAIN"

definition addr_ok :: "dns_url \<Rightarrow> bool" where
  "addr_ok x \<longleftrightarrow> n_addr x = (case w_addr x of None \<Rightarrow> 0 | Some as \<Rightarrow> int (length as))"

definition names_ok :: "nat \<Rightarrow> addr set \<Rightarrow> ems_fw \<Rightarrow> bool" where
  "names_ok n D fw \<longleftrightarrow>
    distinct (whitelist fw @ subdomain fw) \<and> distinct (w_live fw) \<and> D \<subseteq> set (w_live fw) \<and>
    set (whitelist fw @ subdomain fw) = set (w_live fw) - D \<and>
    tab_ok (hash_url fw) \<and> hash_nodes (hash_url fw) \<subseteq> set (w_live fw) \<and>
    n_subdomain fw = int (length (subdomain fw)) \<and> length (subdomain fw) \<le> n \<and>
    (\<forall>w \<in> set (w_live fw) - D. is_sub (url_of fw w) \<longleftrightarrow> w \<in> set (subdomain fw)) \<and>
    (\<forall>w \<in> set (w_live fw). addr_ok (url_of fw w))"

lemma names_ok_view: "nview fw' = nview fw \<Longrightarrow> names_ok n D fw' \<longleftrightarrow> names_ok n D fw"
  by (simp add: names_ok_def nview_def)

lemma flag_bits [simp]:
  "ems_flag_like (ems_flag_set f FLG_DNS_QUERY_EXPIRED) FLG_DNS_IS_SUBDOMAIN = ems_flag_like f FLG_DNS_IS_SUBDOMAIN"
  "ems_flag_like (ems_flag_unset f FLG_DNS_QUERY_EXPIRED) FLG_DNS_IS_SUBDOMAIN = ems_flag_like f FLG_DNS_IS_SUBDOMAIN"
  "ems_flag_like (ems_flag_set f FLG_URL_IS_IPADDRESS) FLG_DNS_IS_SUBDOMAIN = ems_flag_like f FLG_DNS_IS_SUBDOMAIN"
  "ems_flag_like (ems_flag_set f FLG_DNS_IS_BLACKLIST) FLG_DNS_IS_SUBDOMAIN = ems_flag_like f FLG_DNS_IS_SUBDOMAIN"
  "ems_flag_like (ems_flag_set f FLG_DNS_IS_SUBDOMAIN) FLG_DNS_IS_SUBDOMAIN"
  "\<not> ems_flag_like 0 FLG_DNS_IS_SUBDOMAIN"
  unfolding FLG_DNS_IS_SUBDOMAIN_def ems_flag_like_bit
  by (simp_all add: ems_flag_set_def ems_flag_unset_def FLG_DNS_QUERY_EXPIRED_def FLG_URL_IS_IPADDRESS_def
      FLG_DNS_IS_BLACKLIST_def bit_or_iff bit_xor_iff bit_exp_iff)

lemma url_frames [simp]:
  "uview (set_url w g fw) = uview fw" "uview (unlink_url w fw) = uview fw" "uview (dns_url_free w fw) = uview fw"
  "uview (url_set_free e w app fw) = uview fw" "socks (set_url w g fw) = socks fw" "socks (unlink_url w fw) = socks fw"
  "socks (dns_url_free w fw) = socks fw" "socks (url_set_free e w app fw) = socks fw"
  by (simp_all add: uview_def socks_def set_url_def unlink_url_def dns_url_free_def url_set_free_def split: prod.splits)

lemma set_url_ok:
  assumes "names_ok n D fw" and "w \<notin> D \<Longrightarrow> is_sub (g (url_of fw w)) = is_sub (url_of fw w)"
    and "addr_ok (url_of fw w) \<Longrightarrow> addr_ok (g (url_of fw w))"
  shows "names_ok n D (set_url w g fw)"
  using assms by (auto simp: names_ok_def set_url_def)

lemma url_rules_len: "length (fst (url_rules e m u opt as log)) = length as"
  by (induction as arbitrary: log) (auto split: prod.splits)

lemma addr_ok_map: "addr_ok x \<longleftrightarrow> n_addr x = (case map_option length (w_addr x) of None \<Rightarrow> 0 | Some k \<Rightarrow> int k)"
  by (cases "w_addr x") (simp_all add: addr_ok_def)

lemma url_set_free_set: "\<exists>g lg. url_set_free e w app fw = (set_url w g fw)\<lparr>fw_log := lg\<rparr> \<and>
    w_flg (g (url_of fw w)) = w_flg (url_of fw w) \<and> (addr_ok (url_of fw w) \<longrightarrow> addr_ok (g (url_of fw w)))"
proof -
  obtain x lg where x: "fw_url_set_free (fe e) (fw_mark fw) (url_of fw w) app (fw_log fw) = (x, lg)" by fastforce
  have "w_flg x = w_flg (url_of fw w) \<and> n_addr x = n_addr (url_of fw w) \<and>
    map_option length (w_addr x) = map_option length (w_addr (url_of fw w))"
  proof (cases "w_addr (url_of fw w)")
    case None
    then show ?thesis using x by (simp add: fw_url_set_free_def)
  next
    case (Some as)
    let ?n = "nat (n_addr (url_of fw w))"
    obtain as' lg' where r: "url_rules (fe e) (fw_mark fw) (url_of fw w) (if app then OpI else OpD) (take ?n as) (fw_log fw) = (as', lg')"
      by fastforce
    have "length as' = length (take ?n as)" using url_rules_len r by (metis fst_conv)
    then have "length (as' @ drop ?n as) = length as" by simp
    moreover have "x = (url_of fw w)\<lparr>w_addr := Some (as' @ drop ?n as)\<rparr>"
      using x Some r by (simp add: fw_url_set_free_def)
    ultimately show ?thesis using Some by simp
  qed
  then have "w_flg x = w_flg (url_of fw w) \<and> (addr_ok (url_of fw w) \<longrightarrow> addr_ok x)"
    by (metis addr_ok_map)
  moreover have "url_set_free e w app fw = (set_url w (\<lambda>_. x) fw)\<lparr>fw_log := lg\<rparr>"
    using x by (simp add: url_set_free_def set_url_def)
  ultimately show ?thesis by blast
qed

lemma url_set_free_ok:
  assumes "names_ok n D fw"
  shows "names_ok n D (url_set_free e w app fw)"
proof -
  obtain g lg where g: "url_set_free e w app fw = (set_url w g fw)\<lparr>fw_log := lg\<rparr>"
    "w_flg (g (url_of fw w)) = w_flg (url_of fw w)" "addr_ok (url_of fw w) \<Longrightarrow> addr_ok (g (url_of fw w))"
    using url_set_free_set by blast
  have "names_ok n D (set_url w g fw)" by (rule set_url_ok [OF assms]) (simp_all add: g)
  then show ?thesis unfolding g(1) using names_ok_view [OF view_upd(8)] by blast
qed

lemma apply_addr_ok:
  assumes "names_ok n D fw"
  shows "names_ok n D (dns_apply_new_addresss e w as fw)" and "uview (dns_apply_new_addresss e w as fw) = uview fw"
    and "socks (dns_apply_new_addresss e w as fw) = socks fw"
proof -
  let ?fw1 = "url_set_free e w False fw"
  let ?fw2 = "case w_addr (url_of ?fw1 w) of None \<Rightarrow> ?fw1 | Some _ \<Rightarrow> set_url w (\<lambda>x. x\<lparr>w_addr := None, n_addr := 0\<rparr>) ?fw1"
  have 2: "names_ok n D ?fw2 \<and> uview ?fw2 = uview fw \<and> socks ?fw2 = socks fw"
    using url_set_free_ok [OF assms, of e w False] by (auto split: option.splits intro!: set_url_ok simp: addr_ok_def)
  have 3: "names_ok n D (set_url w (\<lambda>x. x\<lparr>w_addr := Some as, n_addr := int (length as)\<rparr>) ?fw2)"
    by (rule set_url_ok) (use 2 in \<open>simp_all add: addr_ok_def\<close>)
  from url_set_free_ok [OF 3, of e w True] 2 assms
  show "names_ok n D (dns_apply_new_addresss e w as fw)" "uview (dns_apply_new_addresss e w as fw) = uview fw"
    "socks (dns_apply_new_addresss e w as fw) = socks fw"
    by (auto simp: dns_apply_new_addresss_def Let_def)
qed

lemma update_addr_ok:
  assumes "dns_update_url_addr e w mem p hdr fw = Some (r, fw')" and "names_ok n D fw"
  shows "names_ok n D fw' \<and> uview fw' = uview fw \<and> socks fw' = socks fw"
proof (cases "alloc_ok e")
  case True
  then obtain as where fw': "fw' = set_url w (\<lambda>x. x\<lparr>w_flg := ems_flag_unset (w_flg x) FLG_DNS_QUERY_EXPIRED\<rparr>)
      (if as \<noteq> [] then dns_apply_new_addresss e w as fw else fw)"
    using assms(1) by (auto simp: dns_update_url_addr_def bind_eq_Some_conv Let_def)
  have "names_ok n D (if as \<noteq> [] then dns_apply_new_addresss e w as fw else fw)" using assms(2) apply_addr_ok(1) by simp
  then have "names_ok n D fw'" unfolding fw' by (rule set_url_ok) (simp_all add: addr_ok_def)
  then show ?thesis using apply_addr_ok(2,3) [OF assms(2), of e w as] by (auto simp: fw')
qed (use assms in \<open>simp add: dns_update_url_addr_def\<close>)

lemma url_live [simp]:
  "w_live (set_url w g fw) = w_live fw" "w_live (url_set_free e w app fw) = w_live fw"
  "w_live (dns_apply_new_addresss e w as fw) = w_live fw"
  by (simp_all add: set_url_def url_set_free_def dns_apply_new_addresss_def Let_def split: prod.splits option.splits)

lemma update_addr_live: "dns_update_url_addr e w mem p hdr fw = Some (r, fw') \<Longrightarrow> w_live fw' = w_live fw"
  by (auto simp: dns_update_url_addr_def bind_eq_Some_conv Let_def split: if_splits)

lemma take_address_ok:
  assumes "names_ok n D fw"
  shows "names_ok n D (url_take_address e w a fw) \<and> uview (url_take_address e w a fw) = uview fw \<and>
    socks (url_take_address e w a fw) = socks fw"
proof -
  have "names_ok n D (set_url w (\<lambda>x. x\<lparr>w_addr := Some [a], n_addr := 1, w_flg := ems_flag_set (w_flg x) FLG_URL_IS_IPADDRESS\<rparr>) fw)"
    by (rule set_url_ok [OF assms]) (simp_all add: addr_ok_def)
  from url_set_free_ok [OF this] assms show ?thesis by (simp add: url_take_address_def)
qed

lemma url_new_ok:
  assumes "names_ok n {} fw" and "fresh_env e" and "dns_url_new e fw = (r, fw')"
  shows "uview fw' = uview fw" and "socks fw' = socks fw" and "r = None \<Longrightarrow> fw' = fw"
    and "r = Some w \<Longrightarrow> names_ok n {w} fw' \<and> w \<notin> hash_nodes (hash_url fw') \<and> subdomain fw' = subdomain fw"
proof -
  show "uview fw' = uview fw" "socks fw' = socks fw" "r = None \<Longrightarrow> fw' = fw"
    using assms(3) by (auto simp: dns_url_new_def uview_def socks_def split: option.splits)
  assume "r = Some w"
  then have n: "new_url e (w_live fw) = Some w" and fw': "fw' = fw\<lparr>hash_url := ems_hash_fd_init (hash_url fw) w, w_live := w # w_live fw,
            url_of := (url_of fw)(w := \<lparr>w_flg = 0, w_url = str_init, n_addr = 0, w_addr = None, mask = 32\<rparr>)\<rparr>"
    using assms(3) by (auto simp: dns_url_new_def split: option.splits)
  have w: "w \<notin> set (w_live fw)" using n assms(2) by (simp add: fresh_env_def)
  then have nodes: "w \<notin> hash_nodes (hash_url fw)" using assms(1) by (auto simp: names_ok_def)
  have t: "tab_ok (hash_url fw)" using assms(1) by (simp add: names_ok_def)
  note i = tab_fd_init [OF t nodes]
  show "names_ok n {w} fw' \<and> w \<notin> hash_nodes (hash_url fw') \<and> subdomain fw' = subdomain fw"
    using assms(1) w i(1,2) nodes by (auto simp: names_ok_def fw' addr_ok_def)
qed

lemma unlink_url_ok:
  assumes "names_ok n {} fw" and "w \<in> set (whitelist fw)"
  shows "names_ok n {w} (unlink_url w fw)"
proof -
  have d: "distinct (whitelist fw @ subdomain fw)" using assms(1) by (simp add: names_ok_def)
  have w: "w \<in> set (w_live fw)" "w \<notin> set (subdomain fw)" using assms d by (auto simp: names_ok_def)
  then have s: "set (remove1 w (whitelist fw)) = set (whitelist fw) - {w}" "remove1 w (subdomain fw) = subdomain fw"
    using d by (simp_all add: set_remove1_eq remove1_idem)
  show ?thesis using w assms(1) d by (auto simp: names_ok_def unlink_url_def s distinct_remove1)
qed

lemma unlink_sub_ok:
  assumes "names_ok (Suc n) {} fw" and "w \<in> set (subdomain fw)"
  shows "names_ok n {w} ((unlink_url w fw)\<lparr>n_subdomain := n_subdomain fw - 1\<rparr>)"
proof -
  have d: "distinct (whitelist fw @ subdomain fw)" using assms(1) by (simp add: names_ok_def)
  have w: "w \<in> set (w_live fw)" "w \<notin> set (whitelist fw)" using assms d by (auto simp: names_ok_def)
  then have s: "set (remove1 w (subdomain fw)) = set (subdomain fw) - {w}" "remove1 w (whitelist fw) = whitelist fw"
    using d by (simp_all add: set_remove1_eq remove1_idem)
  have l: "length (subdomain fw) = Suc (length (remove1 w (subdomain fw)))"
    using assms(2) length_pos_if_in_set [OF assms(2)] by (simp add: length_remove1)
  show ?thesis using w assms(1) d l by (auto simp: names_ok_def unlink_url_def s distinct_remove1)
qed

lemma url_hash_remove_ok:
  assumes "names_ok n {w} fw"
  shows "names_ok n {w} (fw\<lparr>hash_url := ems_hash_remove (hash_url fw) w\<rparr>)"
    and "w \<notin> hash_nodes (ems_hash_remove (hash_url fw) w)"
proof -
  have t: "tab_ok (hash_url fw)" using assms by (simp add: names_ok_def)
  show "names_ok n {w} (fw\<lparr>hash_url := ems_hash_remove (hash_url fw) w\<rparr>)"
    using assms tab_remove [OF t, of w] by (auto simp: names_ok_def)
  show "w \<notin> hash_nodes (ems_hash_remove (hash_url fw) w)" using tab_remove(2) [OF t] by simp
qed

lemma url_free_ok:
  assumes "names_ok n {w} fw" and "w \<notin> hash_nodes (hash_url fw)"
  shows "names_ok n {} (dns_url_free w fw)"
proof -
  have t: "tab_ok (hash_url fw)" using assms(1) by (simp add: names_ok_def)
  note i = tab_fd_init [OF t assms(2)]
  have "set (remove1 w (w_live fw)) = set (w_live fw) - {w}"
    using assms(1) by (simp add: names_ok_def set_remove1_eq)
  then show ?thesis
    using assms i(1,2) by (auto simp: names_ok_def dns_url_free_def distinct_remove1)
qed

lemma url_set_free_hash [simp]: "hash_url (url_set_free e w app fw) = hash_url fw"
  by (simp add: url_set_free_def split: prod.splits)

text \<open>How a name that is in no list goes away.\<close>

lemma url_drop_ok:
  assumes "names_ok n {w} fw"
  shows "names_ok n {} (dns_url_free w (url_set_free e w False (fw\<lparr>hash_url := ems_hash_remove (hash_url fw) w\<rparr>)))"
  using url_hash_remove_ok [OF assms] by (intro url_free_ok url_set_free_ok) simp_all

lemma sub_overflow:
  assumes "names_ok (Suc n) {} fw2" and "old \<in> set (subdomain fw2)"
  shows "let fw3 = unlink_url old (fw2\<lparr>n_subdomain := n_subdomain fw2 - 1\<rparr>);
      fw4 = dns_url_free old (url_set_free e old False (fw3\<lparr>hash_url := ems_hash_remove (hash_url fw3) old\<rparr>))
    in names_ok n {} fw4 \<and> uview fw4 = uview fw2 \<and> socks fw4 = socks fw2"
proof -
  have "unlink_url old (fw2\<lparr>n_subdomain := n_subdomain fw2 - 1\<rparr>) = (unlink_url old fw2)\<lparr>n_subdomain := n_subdomain fw2 - 1\<rparr>"
    by (simp add: unlink_url_def)
  then show ?thesis using url_drop_ok [OF unlink_sub_ok [OF assms], of e] by (simp add: Let_def)
qed

lemma subdomain_append_ok:
  assumes "names_ok 300 {w} fw" and "w \<notin> hash_nodes (hash_url fw)" and "fw_dns_subdomain_append e w fw = Some fw'"
  shows "names_ok 300 {} fw' \<and> uview fw' = uview fw \<and> socks fw' = socks fw"
proof -
  let ?fw1 = "set_url w (\<lambda>x. x\<lparr>w_flg := ems_flag_set (w_flg x) FLG_DNS_IS_SUBDOMAIN\<rparr>) fw"
  let ?k = "str_text (w_url (url_of ?fw1 w))"
  have 1: "names_ok 300 {w} ?fw1" by (rule set_url_ok [OF assms(1)]) (simp_all add: addr_ok_def)
  have t: "tab_ok (hash_url ?fw1)" and nodes: "w \<notin> hash_nodes (hash_url ?fw1)"
    using 1 assms(2) by (simp_all add: names_ok_def set_url_def)
  note i = tab_set_key [OF t nodes, of ?k]
  obtain r h where h: "ems_hash_insert (ems_hash_fd_set_key (hash_url ?fw1) w ?k) w = Some (r, h)" "tab_ok h"
    "hash_nodes h \<subseteq> insert w (hash_nodes (ems_hash_fd_set_key (hash_url ?fw1) w ?k))"
    using tab_insert_ok [OF i(1,4)] by blast
  define fw2 where "fw2 = ?fw1\<lparr>hash_url := h, n_subdomain := n_subdomain ?fw1 + 1, subdomain := subdomain ?fw1 @ [w]\<rparr>"
  have sub: "is_sub (url_of fw2 w)" by (simp add: fw2_def set_url_def)
  have 2: "names_ok (Suc 300) {} fw2" using 1 h(2,3) i(2) sub by (auto simp: names_ok_def fw2_def)
  have v: "uview fw2 = uview fw" "socks fw2 = socks fw" and old: "hd (subdomain fw2) \<in> set (subdomain fw2)"
    by (simp_all add: fw2_def hd_append)
  have hg: "hash_url fw = hash_url ?fw1" by (simp add: set_url_def)
  have fw': "fw' = (if n_subdomain fw2 > 300 then
     (let fw3 = unlink_url (hd (subdomain fw2)) (fw2\<lparr>n_subdomain := n_subdomain fw2 - 1\<rparr>) in
      dns_url_free (hd (subdomain fw2)) (url_set_free e (hd (subdomain fw2)) False
        (fw3\<lparr>hash_url := ems_hash_remove (hash_url fw3) (hd (subdomain fw2))\<rparr>))) else fw2)"
    using assms(3) h(1) unfolding fw_dns_subdomain_append_def Let_def hg fw2_def by simp
  show ?thesis
  proof (cases "n_subdomain fw2 > 300")
    case False
    then have "length (subdomain fw2) \<le> 300" using 2 by (auto simp: names_ok_def)
    then have "names_ok 300 {} fw2" using 2 by (simp add: names_ok_def)
    then show ?thesis using False fw' v by simp
  next
    case True
    then show ?thesis using sub_overflow [OF 2 old, of e] v unfolding fw' by (simp add: Let_def)
  qed
qed

text \<open>\<open>names_step\<close>: an operation on names keeps their invariant, the users and the sessions.\<close>

definition names_step :: "ems_fw \<Rightarrow> ems_fw \<Rightarrow> bool" where
  "names_step fw fw' \<longleftrightarrow> names_ok 300 {} fw' \<and> uview fw' = uview fw \<and> socks fw' = socks fw"

lemma names_step_trans: "names_step fw1 fw2 \<Longrightarrow> names_step fw2 fw3 \<Longrightarrow> names_step fw1 fw3"
  by (simp add: names_step_def)

lemma names_step_refl: "names_ok 300 {} fw \<Longrightarrow> names_step fw fw"
  by (simp add: names_step_def)

lemma names_find:
  assumes "names_ok n {} fw"
  obtains r where "dns_find_url fw k = Some r" and "\<And>w. r = Some w \<Longrightarrow> w \<in> set (w_live fw)"
proof -
  have t: "tab_ok (hash_url fw)" using assms by (simp add: names_ok_def)
  have "dns_find_url fw k = Some (hash_map (hash_url fw) k)" using tab_find [OF t] by (simp add: dns_find_url_def)
  moreover have "hash_map (hash_url fw) k = Some w \<Longrightarrow> w \<in> set (w_live fw)" for w
    using assms tab_map [OF t] by (auto simp: names_ok_def)
  ultimately show ?thesis using that by blast
qed

lemma touch_ok:
  assumes "names_ok 300 {} fw" and "w \<in> set (w_live fw)" and "is_sub (url_of fw w)"
  shows "names_step fw (url_touch w fw)"
proof -
  have w: "w \<in> set (subdomain fw)" using assms by (auto simp: names_ok_def)
  have d: "distinct (whitelist fw @ subdomain fw)" using assms(1) by (simp add: names_ok_def)
  then have nw: "w \<notin> set (whitelist fw)" using w by auto
  with d w have s: "set (remove1 w (subdomain fw)) = set (subdomain fw) - {w}" "remove1 w (whitelist fw) = whitelist fw"
    "distinct (whitelist fw @ remove1 w (subdomain fw) @ [w])"
    by (auto simp: set_remove1_eq remove1_idem distinct_remove1)
  have "length (remove1 w (subdomain fw) @ [w]) = length (subdomain fw)"
    using w length_pos_if_in_set [OF w] by (simp add: length_remove1)
  then have "names_ok 300 {} (url_touch w fw)"
    using assms(1) w s by (auto simp: names_ok_def url_touch_def unlink_url_def)
  then show ?thesis by (simp add: names_step_def url_touch_def Let_def)
qed

lemma new_subdomain_ok:
  assumes "names_ok 300 {} fw" and "fresh_env e" and "new_subdomain e tmp name fw = Some (r, fw')"
  shows "names_step fw fw'"
proof -
  obtain r1 fw1 where n: "dns_url_new e fw = (r1, fw1)" by fastforce
  note u = url_new_ok [OF assms(1,2) n]
  show ?thesis
  proof (cases r1)
    case None
    then show ?thesis using assms(1,3) u(3) n by (simp add: new_subdomain_def names_step_refl)
  next
    case (Some w)
    note w = u(4) [OF Some]
    define fw2 where "fw2 = set_url w (\<lambda>x. x\<lparr>w_flg := (if ems_flag_like (w_flg (url_of fw tmp)) FLG_DNS_IS_BLACKLIST
        then ems_flag_set (w_flg x) FLG_DNS_IS_BLACKLIST else w_flg x),
      w_url := the (fst (str_set True (Some (w_url x)) (Some name)))\<rparr>) fw1"
    have "names_ok 300 {w} fw2" unfolding fw2_def by (rule set_url_ok) (use w in \<open>simp_all add: addr_ok_def\<close>)
    moreover have "w \<notin> hash_nodes (hash_url fw2)" using w by (simp add: fw2_def set_url_def)
    moreover have "fw_dns_subdomain_append e w fw2 = Some fw'"
      using assms(3) n Some by (auto simp: new_subdomain_def fw2_def Let_def)
    ultimately show ?thesis using subdomain_append_ok u(1,2) by (auto simp: names_step_def fw2_def)
  qed
qed

lemma parse_filter_cases:
  assumes "fw_dns_parse_and_filter e mem u hdr fw = Some fw'"
  obtains (same) "fw' = fw"
    | (found) w p k fw1 where "dns_find_url fw k = Some (Some w)"
        and "fw1 = fw \<or> (\<exists>r. dns_update_url_addr e w mem p hdr fw = Some (r, fw1))"
        and "fw' = (if is_sub (url_of fw1 w) then url_touch w fw1 else fw1)"
    | (new) tmp name r fw1 p where "new_subdomain e tmp name fw = Some (r, fw1)"
        and "fw' = fw1 \<or> (\<exists>w r. dns_update_url_addr e w mem p hdr fw1 = Some (r, fw'))"
proof -
  obtain p qust f where q: "fw_dns_get_question True mem 12 = Some (p, qust)"
    and f: "dns_find_url fw (str_text (qname qust)) = Some f"
    using assms by (auto simp: fw_dns_parse_and_filter_def bind_eq_Some_conv Let_def)
  show ?thesis
  proof (cases f)
    case (Some w)
    let ?c = "n_addr (url_of fw w) \<le> 0 \<or> ems_flag_like (w_flg (url_of fw w)) FLG_DNS_QUERY_EXPIRED \<or>
      ems_flag_like (u_flg (usr_of fw u)) FLG_DNS_QUERY_SELF"
    obtain fw1 where 1: "(if ?c then map_option snd (dns_update_url_addr e w mem p hdr fw) else Some fw) = Some fw1"
      and fw': "fw' = (if is_sub (url_of fw1 w) then url_touch w fw1 else fw1)"
      using assms q f Some by (auto simp: fw_dns_parse_and_filter_def Let_def bind_eq_Some_conv)
    show ?thesis by (rule found [OF f [unfolded Some] _ fw']) (use 1 in \<open>auto split: if_splits\<close>)
  next
    case None
    then have d: "(if subdomain_enable e then
             (case fw_dns_url_select fw (str_text (qname qust)) of
                None \<Rightarrow> Some fw
              | Some tmp \<Rightarrow>
                  do {
                    (r, fw1) \<leftarrow> new_subdomain e tmp (str_text (qname qust)) fw;
                    case r of
                      None \<Rightarrow> Some fw1
                    | Some w \<Rightarrow> map_option snd (dns_update_url_addr e w mem p hdr fw1)
                  })
           else Some fw) = Some fw'"
      using assms q f by (simp add: fw_dns_parse_and_filter_def Let_def)
    show ?thesis
    proof (cases "fw' = fw")
      case False
      then obtain tmp r fw1 where n: "new_subdomain e tmp (str_text (qname qust)) fw = Some (r, fw1)"
        and r: "(case r of None \<Rightarrow> Some fw1 | Some w \<Rightarrow> map_option snd (dns_update_url_addr e w mem p hdr fw1)) = Some fw'"
        using d by (auto simp: bind_eq_Some_conv split: if_splits option.splits)
      show ?thesis by (rule new [OF n]) (use r in \<open>auto split: option.splits\<close>)
    qed (rule same)
  qed
qed

lemma parse_filter_ok:
  assumes "names_ok 300 {} fw" and "fresh_env e" and "fw_dns_parse_and_filter e mem u hdr fw = Some fw'"
  shows "names_step fw fw'"
  using assms(3)
proof (cases rule: parse_filter_cases)
  case same
  then show ?thesis using names_step_refl [OF assms(1)] by simp
next
  case (found w p k fw1)
  have s1: "names_step fw fw1 \<and> w_live fw1 = w_live fw"
    using found(2) names_step_refl [OF assms(1)] update_addr_ok [OF _ assms(1)] update_addr_live
    by (auto simp: names_step_def)
  have "w \<in> set (w_live fw)" by (rule names_find [OF assms(1), of k]) (use found(1) in simp)
  then show ?thesis using touch_ok [of fw1 w] s1 unfolding found(3) by (auto simp: names_step_def)
next
  case (new tmp name r fw1 p)
  note s = new_subdomain_ok [OF assms(1,2) new(1)]
  then show ?thesis using new(2) update_addr_ok [of e _ mem p hdr fw1 _ fw' 300 "{}"] by (auto simp: names_step_def)
qed

lemma remove_url_ok:
  assumes "names_ok 300 {} fw"
  shows "names_step fw (fw_remove_url e buf fw)"
proof (cases "fw_find_url fw (whitelist fw) buf")
  case None
  then show ?thesis using assms by (simp add: fw_remove_url_def names_step_refl)
next
  case (Some w)
  then have w: "w \<in> set (whitelist fw)" by (auto simp: fw_find_url_def find_Some_iff)
  show ?thesis
    using url_drop_ok [OF unlink_url_ok [OF assms w], of e] Some
    by (simp add: fw_remove_url_def names_step_def Let_def)
qed

lemma remove_urls_ok:
  assumes "names_ok 300 {} fw"
  shows "names_step fw (snd (fw_remove_urls e ary fw))"
proof -
  have "names_step fw (fold (fw_remove_url e) ss fw)" for ss
    using assms
  proof (induction ss arbitrary: fw)
    case (Cons s ss)
    note s = remove_url_ok [OF Cons.prems, of e s]
    then show ?case using Cons.IH [of "fw_remove_url e s fw"] names_step_trans by (auto simp: names_step_def)
  qed (simp add: names_step_refl)
  then show ?thesis by (simp add: fw_remove_urls_def)
qed

lemma append_url_ok:
  assumes "names_ok 300 {} fw" and "fresh_env e" and "fw_append_url e isblack buf fw = Some fw'"
  shows "names_step fw fw'"
proof (cases "fw_find_url fw (whitelist fw) buf")
  case None
  obtain r1 fw1 where n: "dns_url_new e fw = (r1, fw1)" by fastforce
  note u = url_new_ok [OF assms(1,2) n]
  show ?thesis
  proof (cases r1)
    case None
    then show ?thesis using assms(1,3) u(3) n \<open>fw_find_url fw (whitelist fw) buf = None\<close>
      by (simp add: fw_append_url_def names_step_refl)
  next
    case (Some w)
    note w = u(4) [OF Some]
    define fw2 where "fw2 = set_url w (\<lambda>x. x\<lparr>w_flg := (if isblack then ems_flag_set (w_flg x) FLG_DNS_IS_BLACKLIST else w_flg x),
       w_url := the (fst (str_set True (Some (w_url x)) (Some buf)))\<rparr>) fw1"
    have "\<not> is_sub (url_of fw1 w)" using n Some by (auto simp: dns_url_new_def split: option.splits)
    then have sub: "\<not> is_sub (url_of fw2 w)" by (simp add: fw2_def set_url_def)
    have 2: "names_ok 300 {w} fw2" unfolding fw2_def by (rule set_url_ok) (use w in \<open>simp_all add: addr_ok_def\<close>)
    then have t: "tab_ok (hash_url fw2)" by (simp add: names_ok_def)
    have nodes: "w \<notin> hash_nodes (hash_url fw2)" using w by (simp add: fw2_def set_url_def)
    note i = tab_set_key [OF t nodes, of buf]
    obtain r h where h: "ems_hash_insert (ems_hash_fd_set_key (hash_url fw2) w buf) w = Some (r, h)" "tab_ok h"
      "hash_nodes h \<subseteq> insert w (hash_nodes (ems_hash_fd_set_key (hash_url fw2) w buf))"
      using tab_insert_ok [OF i(1,4)] by blast
    have fw': "fw' = fw2\<lparr>hash_url := h, whitelist := whitelist fw2 @ [w]\<rparr>"
      using assms(3) n Some \<open>fw_find_url fw (whitelist fw) buf = None\<close> h(1)
      by (simp add: fw_append_url_def fw2_def Let_def)
    have "names_ok 300 {} fw'" using 2 h(2,3) i(2) sub by (auto simp: names_ok_def fw')
    then show ?thesis using u(1,2) by (simp add: names_step_def fw' fw2_def)
  qed
qed (use assms in \<open>simp add: fw_append_url_def names_step_refl\<close>)

lemma append_list_ok:
  assumes "names_ok 300 {} fw" and "fresh_env e" and "append_list e ary isblack fw = Some fw'"
  shows "names_step fw fw'"
proof -
  have *: "names_step fw fw'" if "fw_append_strings e isblack ss fw = Some fw'" "names_ok 300 {} fw" for ss fw
    using that
  proof (induction ss arbitrary: fw)
    case (Cons s ss)
    then obtain fw1 where 1: "fw_append_url e isblack s fw = Some fw1" "fw_append_strings e isblack ss fw1 = Some fw'"
      by (auto simp: bind_eq_Some_conv)
    note s = append_url_ok [OF Cons.prems(2) assms(2) 1(1)]
    then show ?case using Cons.IH [OF 1(2)] names_step_trans by (auto simp: names_step_def)
  qed (simp add: names_step_refl)
  show ?thesis using assms(1,3) * names_step_refl
    by (auto simp: append_list_def fw_append_urls_def bind_eq_Some_conv split: option.splits)
qed

lemma concat_Nils [simp]: "concat (map (\<lambda>_. []) l) = []"
  by (induction l) auto

lemma tab_clean: "tab_ok h \<Longrightarrow> tab_ok (ems_hash_clean h) \<and> hash_nodes (ems_hash_clean h) = {}"
  by (auto simp: tab_ok_def hash_ok_def ems_hash_clean_def hash_nodes_def)

lemma clear_urls_ok:
  assumes "names_ok 300 {} fw" and "ws = whitelist fw" and "hash_nodes (hash_url fw) = {}"
  shows "names_ok 300 {} (clear_urls ws fw) \<and> uview (clear_urls ws fw) = uview fw \<and> socks (clear_urls ws fw) = socks fw \<and>
    whitelist (clear_urls ws fw) = [] \<and> subdomain (clear_urls ws fw) = subdomain fw \<and> hash_nodes (hash_url (clear_urls ws fw)) = {}"
  using assms
proof (induction ws arbitrary: fw)
  case (Cons w ws)
  let ?fw1 = "dns_url_free w (unlink_url w fw)"
  have w: "w \<in> set (whitelist fw)" using Cons.prems(2) [symmetric] by simp
  have "w \<notin> set (subdomain fw)" using Cons.prems(1) w by (auto simp: names_ok_def)
  then have s: "subdomain ?fw1 = subdomain fw" by (simp add: dns_url_free_def unlink_url_def remove1_idem)
  have h: "hash_url (unlink_url w fw) = hash_url fw" by (simp add: unlink_url_def)
  have 1: "names_ok 300 {} ?fw1" by (rule url_free_ok [OF unlink_url_ok [OF Cons.prems(1) w]]) (use h Cons.prems(3) in simp)
  have 2: "ws = whitelist ?fw1" using Cons.prems(2) [symmetric] by (simp add: dns_url_free_def unlink_url_def)
  have t: "tab_ok (hash_url fw)" using Cons.prems(1) by (simp add: names_ok_def)
  have 3: "hash_nodes (hash_url ?fw1) = {}"
    using tab_fd_init(2) [OF t] Cons.prems(3) by (simp add: dns_url_free_def unlink_url_def)
  show ?case using Cons.IH [OF 1 2 3] s by (simp add: clear_urls_def)
qed (simp add: clear_urls_def)

text \<open>The counter is only reset when both lists are empty.\<close>

lemma clear_subs_ok:
  assumes "names_ok 300 {} (fw\<lparr>n_subdomain := int (length ws)\<rparr>)" and "ws = subdomain fw" and "hash_nodes (hash_url fw) = {}"
  shows "names_ok 300 {} ((clear_urls ws fw)\<lparr>n_subdomain := 0\<rparr>) \<and> uview (clear_urls ws fw) = uview fw \<and>
    socks (clear_urls ws fw) = socks fw"
  using assms
proof (induction ws arbitrary: fw)
  case (Cons w ws)
  let ?fw1 = "dns_url_free w (unlink_url w fw)" and ?n = "fw\<lparr>n_subdomain := int (length (w # ws))\<rparr>"
  have w: "w \<in> set (subdomain ?n)" using Cons.prems(2) [symmetric] by simp
  have "names_ok (Suc 300) {} ?n" using Cons.prems(1) by (simp add: names_ok_def)
  from unlink_sub_ok [OF this w]
  have 0: "names_ok 300 {w} ((unlink_url w fw)\<lparr>n_subdomain := int (length ws)\<rparr>)" by (simp add: unlink_url_def)
  have "names_ok 300 {} (dns_url_free w ((unlink_url w fw)\<lparr>n_subdomain := int (length ws)\<rparr>))"
    by (rule url_free_ok [OF 0]) (use Cons.prems(3) in \<open>simp add: unlink_url_def\<close>)
  then have 1: "names_ok 300 {} (?fw1\<lparr>n_subdomain := int (length ws)\<rparr>)" by (simp add: dns_url_free_def names_ok_def)
  have 2: "ws = subdomain ?fw1" using Cons.prems(2) [symmetric] by (simp add: dns_url_free_def unlink_url_def)
  have t: "tab_ok (hash_url fw)" using Cons.prems(1) by (simp add: names_ok_def)
  have 3: "hash_nodes (hash_url ?fw1) = {}"
    using tab_fd_init(2) [OF t] Cons.prems(3) by (simp add: dns_url_free_def unlink_url_def)
  show ?case using Cons.IH [OF 1 2 3] by (simp add: clear_urls_def)
qed (simp add: clear_urls_def)

lemma names_ok_count: "names_ok n D fw \<Longrightarrow> names_ok n D (fw\<lparr>n_subdomain := int (length (subdomain fw))\<rparr>)"
  by (simp add: names_ok_def)

lemma clear_lists: "subdomain (clear_urls (subdomain fw) fw) = [] \<and> (whitelist fw = [] \<longrightarrow> whitelist (clear_urls (subdomain fw) fw) = [])"
proof -
  have "subdomain (clear_urls ws fw) = [] \<and> (whitelist fw = [] \<longrightarrow> whitelist (clear_urls ws fw) = [])" if "subdomain fw = ws" for ws fw
    using that
  proof (induction ws arbitrary: fw)
    case (Cons w ws)
    then show ?case using Cons.IH [of "dns_url_free w (unlink_url w fw)"]
      by (simp add: clear_urls_def dns_url_free_def unlink_url_def)
  qed (simp add: clear_urls_def)
  then show ?thesis by blast
qed

lemma whitelist_clear_ok:
  assumes "names_ok 300 {} fw"
  shows "names_step fw (snd (fw_whitelist_clear fw)) \<and> w_live (snd (fw_whitelist_clear fw)) = []"
proof -
  let ?fw1 = "fw\<lparr>hash_url := ems_hash_clean (hash_url fw)\<rparr>"
  let ?fw2 = "clear_urls (whitelist ?fw1) ?fw1"
  let ?fw3 = "(clear_urls (subdomain ?fw2) ?fw2)\<lparr>n_subdomain := 0\<rparr>"
  have c: "tab_ok (ems_hash_clean (hash_url fw))" "hash_nodes (ems_hash_clean (hash_url fw)) = {}"
    using tab_clean [of "hash_url fw"] assms by (simp_all add: names_ok_def)
  have 1: "names_ok 300 {} ?fw1" using assms c by (simp add: names_ok_def)
  note 2 = clear_urls_ok [OF 1 refl]
  have 2: "names_ok 300 {} ?fw2 \<and> uview ?fw2 = uview fw \<and> socks ?fw2 = socks fw \<and> hash_nodes (hash_url ?fw2) = {} \<and> whitelist ?fw2 = []"
    using 2 c(2) by simp
  then have "names_ok 300 {} (?fw2\<lparr>n_subdomain := int (length (subdomain ?fw2))\<rparr>)" using names_ok_count by blast
  from clear_subs_ok [OF this refl] 2
  have 3: "names_ok 300 {} ?fw3" "uview ?fw3 = uview fw" "socks ?fw3 = socks fw" by simp_all
  have "whitelist ?fw3 = [] \<and> subdomain ?fw3 = []"
    using clear_lists [of ?fw2] 2 by simp
  then have "w_live ?fw3 = []" using 3(1) by (simp add: names_ok_def)
  with 3 show ?thesis by (simp add: fw_whitelist_clear_def names_step_def Let_def)
qed

subsection \<open>The invariant of the firewall\<close>

definition fw_inv :: "ems_fw \<Rightarrow> bool" where
  "fw_inv fw \<longleftrightarrow> users_ok {} fw \<and> names_ok 300 {} fw \<and> socks_ok fw"

lemma inv_names: "fw_inv fw \<Longrightarrow> names_step fw fw' \<Longrightarrow> fw_inv fw'"
  using users_ok_view [of fw' fw "{}"] socks_ok_view [of fw' fw] by (simp add: fw_inv_def names_step_def)

lemma inv_users: "fw_inv fw \<Longrightarrow> users_ok {} fw' \<Longrightarrow> nview fw' = nview fw \<Longrightarrow> socks_ok fw' \<Longrightarrow> fw_inv fw'"
  using names_ok_view [of fw' fw 300 "{}"] by (simp add: fw_inv_def)

lemma inv_view: "fw_inv fw \<Longrightarrow> uview fw' = uview fw \<Longrightarrow> nview fw' = nview fw \<Longrightarrow> socks_ok fw' \<Longrightarrow> fw_inv fw'"
  using inv_users [of fw fw'] users_ok_view [of fw' fw "{}"] by (simp add: fw_inv_def)

lemma inv_client_set_write: "fw_inv fw \<Longrightarrow> fw_dns_client_set_write fw wr = Some fw' \<Longrightarrow> fw_inv fw'"
  using client_set_write_frame [of fw wr fw'] inv_view [of fw fw'] by (auto simp: fw_inv_def)

lemma inv_client_set_read: "fw_inv fw \<Longrightarrow> fw_dns_client_set_read fw rd = Some fw' \<Longrightarrow> fw_inv fw'"
  using set_read_frame [of fw rd fw'] inv_view [of fw fw'] by (auto simp: fw_inv_def)

lemma inv_server_set_write: "fw_inv fw \<Longrightarrow> fw_dns_server_set_write fw wr = Some fw' \<Longrightarrow> fw_inv fw'"
  using server_set_write_frame [of fw wr fw'] inv_view [of fw fw'] by (auto simp: fw_inv_def)

lemma push_inv:
  assumes "users_ok {u} fw" and "crc_good (hash_msg fw) u" and "fw_dns_push_fwd e u fw = Some fw'"
  shows "users_ok {} fw' \<and> nview fw' = nview fw \<and> socks fw' = socks fw"
  using push_fwd_ok [OF assms(1,2), of e] push_frame [OF assms(3)] assms(3) by (metis option.inject)

lemma fwd_inv:
  assumes "fw_inv fw" and "fresh_env e" and "buf_ok buf" and "fw_dns_fwd e a p buf fw = Some fw'"
  shows "fw_inv fw'"
proof -
  obtain k i r fw1 where 1: "fw_dns_user_for e a p i fw = Some (r, fw1)"
    and r: "(case r of None \<Rightarrow> Some fw1 | Some u \<Rightarrow>
          do {
            fw2 \<leftarrow> fw_dns_push_fwd e u (set_usr u (\<lambda>x. x\<lparr>u_buf := snd (ems_buffer_write (u_buf x) (contents buf) (buf_len buf))\<rparr>) fw1);
            fw_dns_client_set_write fw2 True
          }) = Some fw'"
    using assms(4) by (auto simp: fw_dns_fwd_def bind_eq_Some_conv)
  have i: "users_ok {} fw" "socks_ok fw" using assms(1) by (simp_all add: fw_inv_def)
  note u = user_for_ok [OF i(1) assms(2) 1]
  show ?thesis
  proof (cases r)
    case None
    then show ?thesis using r u i socks_ok_view [of fw1 fw] inv_users [OF assms(1), of fw1] by simp
  next
    case (Some v)
    let ?g = "set_usr v (\<lambda>x. x\<lparr>u_buf := snd (ems_buffer_write (u_buf x) (contents buf) (buf_len buf))\<rparr>) fw1"
    have g: "users_ok {v} ?g" by (rule set_usr_detached) (use u(4) [OF Some] write_contents_ok [OF _ assms(3)] in auto)
    have c: "crc_good (hash_msg ?g) v" using u(4) [OF Some] by simp
    obtain fw2 where 2: "fw_dns_push_fwd e v ?g = Some fw2" and w: "fw_dns_client_set_write fw2 True = Some fw'"
      using r Some by (auto simp: bind_eq_Some_conv)
    have "fw_inv fw2" using push_inv [OF g c 2] u(1,2) i(2) socks_ok_view [of fw2 fw] by (intro inv_users [OF assms(1)]) simp_all
    then show ?thesis using inv_client_set_write w by blast
  qed
qed

lemma bind_buf_inv: "fw_inv fw \<Longrightarrow> buf_ok (buf_in s) \<Longrightarrow> fw_inv (fw\<lparr>sess_bind := Some s\<rparr>)"
  by (rule inv_view) (auto simp: fw_inv_def socks_ok_def)

lemma dns_buf_inv: "fw_inv fw \<Longrightarrow> buf_ok (buf_in s) \<Longrightarrow> fw_inv (fw\<lparr>sess_dns := Some s\<rparr>)"
  by (rule inv_view) (auto simp: fw_inv_def socks_ok_def)

lemma request_inv: "fw_inv fw \<Longrightarrow> fresh_env e \<Longrightarrow> fw_dns_request e ds fw = Some fw' \<Longrightarrow> fw_inv fw'"
proof (induction e ds fw rule: fw_dns_request.induct)
  case (2 e a p d ds fw)
  obtain s where s: "sess_bind fw = Some s" using "2.prems"(3) by (auto simp: bind_eq_Some_conv)
  have b: "buf_ok (buf_in s)" using "2.prems"(1) s by (simp add: fw_inv_def socks_ok_def)
  show ?case
  proof (cases "take (nat (buf_left (buf_in s))) d = []")
    case True
    then show ?thesis using "2.prems" s by simp
  next
    case False
    let ?b = "dgram_in (buf_in s) d"
    obtain fw1 s1 where 1: "fw_dns_fwd e a p ?b (fw\<lparr>sess_bind := Some (s\<lparr>buf_in := ?b\<rparr>)\<rparr>) = Some fw1" "sess_bind fw1 = Some s1"
      and r: "fw_dns_request e ds (fw1\<lparr>sess_bind := Some (s1\<lparr>buf_in := ems_buffer_clear (buf_in s1)\<rparr>)\<rparr>) = Some fw'"
      using "2.prems"(3) s False by (auto simp: bind_eq_Some_conv Let_def split: if_splits)
    have "fw_inv (fw\<lparr>sess_bind := Some (s\<lparr>buf_in := ?b\<rparr>)\<rparr>)" using "2.prems"(1) dgram_in_ok [OF b] by (intro bind_buf_inv) simp_all
    from fwd_inv [OF this "2.prems"(2) dgram_in_ok [OF b] 1(1)]
    have "fw_inv (fw1\<lparr>sess_bind := Some (s1\<lparr>buf_in := ems_buffer_clear (buf_in s1)\<rparr>)\<rparr>)"
      by (intro bind_buf_inv) (simp_all add: clear_buf_ok)
    then show ?thesis using "2.IH" [OF s False refl 1 _ "2.prems"(2) r] by simp
  qed
qed simp

lemma detached_drop_ok:
  assumes "users_ok {} fw" and "u \<in> set (u_live fw)" and "u \<notin> hash_nodes (hash_msg fw)"
  shows "users_ok {} (dns_user_free u (unlink_user u fw))"
  by (rule free_ok [OF unlink_ok [OF assms(1,2)]]) (simp add: assms(3))

lemma out_not_in_table:
  assumes "users_ok {} fw" and "u \<in> set (outq fw)"
  shows "u \<in> set (u_live fw)" and "u \<notin> hash_nodes (hash_msg fw)"
  using assms by (auto simp: users_ok_def)

lemma response_loop_ok:
  assumes "users_ok {} fw" and "outq fw = us"
  shows "users_ok {} (fw_dns_response_loop rets us fw) \<and> nview (fw_dns_response_loop rets us fw) = nview fw \<and>
    socks (fw_dns_response_loop rets us fw) = socks fw"
  using assms
proof (induction rets us fw rule: fw_dns_response_loop.induct)
  case (3 ret rets u us fw)
  show ?case
  proof (cases "ret \<le> 0")
    case False
    let ?x = "usr_of fw u"
    let ?fw1 = "fw\<lparr>net_out := net_out fw @ [ToClient (u_addr ?x) (u_port ?x) (contents (u_buf ?x))]\<rparr>"
    let ?fw2 = "dns_user_free u (unlink_user u ?fw1)"
    have 1: "users_ok {} ?fw1" using "3.prems"(1) users_ok_view [of ?fw1 fw "{}"] by simp
    have "u \<in> set (outq ?fw1)" using "3.prems"(2) by simp
    then have 2: "users_ok {} ?fw2" using detached_drop_ok [OF 1] out_not_in_table [OF 1] by blast
    have "outq ?fw2 = us" using "3.prems"(2) by (simp add: dns_user_free_def unlink_user_def set_usr_def)
    from "3.IH" [OF False refl 2 this] False show ?thesis by (simp add: Let_def)
  qed (use "3.prems"(1) in simp)
qed simp_all

lemma response_inv: "fw_inv fw \<Longrightarrow> fw_dns_response rets fw = Some fw' \<Longrightarrow> fw_inv fw'"
proof -
  assume a: "fw_inv fw" "fw_dns_response rets fw = Some fw'"
  let ?fw1 = "fw_dns_response_loop rets (outq fw) fw"
  have "fw_inv ?fw1" using a(1) response_loop_ok [of fw "outq fw" rets] socks_ok_view [of ?fw1 fw]
    by (intro inv_users [OF a(1)]) (simp_all add: fw_inv_def)
  then show "fw_inv fw'" using a(2) inv_server_set_write by (auto simp: fw_dns_response_def Let_def split: if_splits)
qed

lemma hash_remove_detached:
  assumes "users_ok {u} fw"
  shows "users_ok {u} (fw\<lparr>hash_msg := ems_hash_remove (hash_msg fw) u\<rparr>)" and "u \<notin> hash_nodes (ems_hash_remove (hash_msg fw) u)"
proof -
  have t: "tab_ok (hash_msg fw)" using assms by (simp add: users_ok_def)
  show "users_ok {u} (fw\<lparr>hash_msg := ems_hash_remove (hash_msg fw) u\<rparr>)"
    using assms tab_remove [OF t, of u] by (auto simp: users_ok_def)
  show "u \<notin> hash_nodes (ems_hash_remove (hash_msg fw) u)" using tab_remove(2) [OF t] by simp
qed

lemma timeout_inv:
  assumes "fw_inv fw" and "u \<in> set (u_live fw)"
  shows "fw_inv (dns_fwd_timeout u fw)"
proof -
  have "users_ok {u} (unlink_user u fw)" using assms by (simp add: fw_inv_def unlink_ok)
  from hash_remove_detached [OF this]
  have "users_ok {} (dns_fwd_timeout u fw)" unfolding dns_fwd_timeout_def Let_def by (intro free_ok) simp_all
  then show ?thesis using assms(1) socks_ok_view [of "dns_fwd_timeout u fw" fw]
    by (intro inv_users [OF assms(1)]) (simp_all add: dns_fwd_timeout_def Let_def fw_inv_def)
qed

lemma to_wait_ok:
  assumes "users_ok {} fw" and "u \<in> set (fwd fw)"
  shows "users_ok {} ((unlink_user u fw)\<lparr>wait := wait (unlink_user u fw) @ [u]\<rparr>)"
proof -
  have d: "distinct (fwd fw @ wait fw @ outq fw)" using assms(1) by (simp add: users_ok_def)
  then have n: "u \<notin> set (wait fw)" "u \<notin> set (outq fw)" using assms(2) by auto
  have s: "set (remove1 u (fwd fw)) = set (fwd fw) - {u}" "remove1 u (wait fw) = wait fw" "remove1 u (outq fw) = outq fw"
    using d n by (simp_all add: set_remove1_eq remove1_idem)
  show ?thesis using assms d n by (auto simp: users_ok_def unlink_user_def s distinct_remove1)
qed

lemma set_buf_ok:
  assumes "users_ok {} fw" and "buf_ok (u_buf (usr_of fw u)) \<Longrightarrow> buf_ok (u_buf (f (usr_of fw u)))"
    and "u_to (f (usr_of fw u)) = u_to (usr_of fw u)"
  shows "users_ok {} (set_usr u f fw)"
  using assms by (auto simp: users_ok_def set_usr_def)

lemma fwd_req_loop_ok:
  assumes "users_ok {} fw" and "fwd fw = us"
  shows "users_ok {} (fw_dns_fwd_req_loop rets us fw) \<and> nview (fw_dns_fwd_req_loop rets us fw) = nview fw \<and>
    socks (fw_dns_fwd_req_loop rets us fw) = socks fw"
  using assms
proof (induction rets us fw rule: fw_dns_fwd_req_loop.induct)
  case (3 ret rets u us fw)
  show ?case
  proof (cases "ret \<le> 0")
    case False
    let ?fw1 = "fw\<lparr>net_out := net_out fw @ [ToServer (contents (u_buf (usr_of fw u)))]\<rparr>"
    let ?fw2 = "set_usr u (\<lambda>x. x\<lparr>u_buf := ems_buffer_clear (u_buf x)\<rparr>) ?fw1"
    let ?fw3 = "unlink_user u ?fw2"
    let ?fw4 = "?fw3\<lparr>wait := wait ?fw3 @ [u]\<rparr>"
    have 1: "users_ok {} ?fw1" using "3.prems"(1) users_ok_view [of ?fw1 fw "{}"] by simp
    have 2: "users_ok {} ?fw2" by (rule set_buf_ok [OF 1]) (simp_all add: clear_buf_ok)
    have "u \<in> set (fwd ?fw2)" using "3.prems"(2) by (simp add: set_usr_def)
    from to_wait_ok [OF 2 this] have 4: "users_ok {} ?fw4" .
    have "fwd ?fw4 = us" using "3.prems"(2) by (simp add: unlink_user_def set_usr_def)
    from "3.IH" [OF False refl 4 this] False show ?thesis by (simp add: Let_def)
  qed (use "3.prems"(1) in simp)
qed simp_all

lemma fwd_req_inv: "fw_inv fw \<Longrightarrow> fw_dns_fwd_req rets fw = Some fw' \<Longrightarrow> fw_inv fw'"
proof -
  assume a: "fw_inv fw" "fw_dns_fwd_req rets fw = Some fw'"
  let ?fw1 = "fw_dns_fwd_req_loop rets (fwd fw) fw"
  have 1: "fw_inv ?fw1" using a(1) fwd_req_loop_ok [of fw "fwd fw" rets] socks_ok_view [of ?fw1 fw]
    by (intro inv_users [OF a(1)]) (simp_all add: fw_inv_def)
  obtain fw2 where 2: "(if wait ?fw1 \<noteq> [] then fw_dns_client_set_read ?fw1 True else Some ?fw1) = Some fw2"
    and 3: "(if fwd fw2 = [] then fw_dns_client_set_write fw2 False else Some fw2) = Some fw'"
    using a(2) by (auto simp: fw_dns_fwd_req_def Let_def bind_eq_Some_conv)
  have "fw_inv fw2" using 1 2 inv_client_set_read by (auto split: if_splits)
  then show "fw_inv fw'" using 3 inv_client_set_write by (auto split: if_splits)
qed

lemma create_user_inv:
  assumes "fw_inv fw" and "fresh_env e" and "fw_dns_create_user e w i fw = Some (r, fw')"
  shows "fw_inv fw'"
proof -
  have i: "users_ok {} fw" "socks_ok fw" using assms(1) by (simp_all add: fw_inv_def)
  obtain r1 fw1 where n: "dns_user_new e fw = (r1, fw1)" by fastforce
  note fr = user_new_frame [OF n]
  show ?thesis
  proof (cases r1)
    case None
    then have "fw' = fw" using assms(3) n by (auto simp: fw_dns_create_user_def dns_user_new_def split: option.splits)
    then show ?thesis using assms(1) by simp
  next
    case (Some u)
    note v = new_ok [OF i(1) assms(2) n [unfolded Some]]
    obtain buf where b: "dns_fill_query (u_buf (usr_of fw1 u)) i (str_text (w_url (url_of fw1 w))) = Some buf"
      and p: "fw_dns_push_fwd e u ((set_usr u (\<lambda>x. x\<lparr>u_flg := ems_flag_set (u_flg x) FLG_DNS_QUERY_SELF, u_addr := 0x7f000001,
          u_port := 0, u_buf := buf\<rparr>) fw1)\<lparr>hash_msg := ems_hash_fd_set_key (hash_msg fw1) u (dns_key i)\<rparr>) = Some fw'"
      using assms(3) n Some by (auto simp: fw_dns_create_user_def bind_eq_Some_conv Let_def)
    let ?g = "set_usr u (\<lambda>x. x\<lparr>u_flg := ems_flag_set (u_flg x) FLG_DNS_QUERY_SELF, u_addr := 0x7f000001, u_port := 0, u_buf := buf\<rparr>) fw1"
    have g: "users_ok {u} ?g" by (rule set_usr_detached [OF v(1)]) (use fill_query_any_ok [OF _ b] in simp)
    have "u \<notin> hash_nodes (hash_msg ?g)" using v(2) by simp
    note k = set_key_detached [OF g this, of "dns_key i", unfolded user_hash_msg]
    have "users_ok {} fw' \<and> nview fw' = nview fw \<and> socks fw' = socks fw"
      using push_inv [OF k(1) _ p] k(2) fr by simp
    then show ?thesis using i(2) socks_ok_view [of fw' fw] by (intro inv_users [OF assms(1)]) simp_all
  qed
qed

lemma filter_inv:
  assumes "fw_inv fw" and "fresh_env e" and "buf_ok buf" and "fw_dns_fwd_filter e buf fw = Some fw'"
  shows "fw_inv fw'"
proof -
  have i: "users_ok {} fw" "names_ok 300 {} fw" "socks_ok fw" using assms(1) by (simp_all add: fw_inv_def)
  obtain hdr found where f: "dns_get_header (drop (brd buf) (bmem buf)) = Some hdr" "dns_find_user fw (dns_id hdr) = Some found"
    using assms(4) by (auto simp: fw_dns_fwd_filter_def bind_eq_Some_conv Let_def)
  show ?thesis
  proof (cases found)
    case None
    then show ?thesis using assms(1,4) f by (simp add: fw_dns_fwd_filter_def)
  next
    case (Some u)
    note v = users_found [OF i(1) f(2) [unfolded Some]]
    define fw1 where "fw1 = set_usr u (\<lambda>x. x\<lparr>u_to := None,
              u_buf := snd (ems_buffer_write (ems_buffer_clear (u_buf x)) (contents buf) (buf_len buf))\<rparr>) (unlink_user u fw)"
    define fw2 where "fw2 = fw1\<lparr>hash_msg := ems_hash_remove (hash_msg fw1) u\<rparr>"
    have 1: "users_ok {u} fw1" unfolding fw1_def
      by (rule set_usr_detached [OF unlink_ok [OF i(1) v(3)]]) (simp add: write_contents_ok clear_buf_ok assms(3))
    note r = hash_remove_detached [OF 1, folded fw2_def]
    have to: "u_to (usr_of fw2 u) = None" by (simp add: fw2_def fw1_def set_usr_def)
    have nv: "nview fw2 = nview fw" "socks fw2 = socks fw" by (simp_all add: fw2_def fw1_def)
    have n2: "names_ok 300 {} fw2" using i(2) names_ok_view [of fw2 fw] nv by simp
    obtain fw3 where 3: "(if DNS_RCODE hdr = 0 \<and> 0 < qdcount hdr \<and> 0 < ancount hdr
                    then fw_dns_parse_and_filter e (drop (brd buf) (bmem buf)) u hdr fw2 else Some fw2) = Some fw3"
      and e: "(if ems_flag_like (u_flg (usr_of fw3 u)) FLG_DNS_QUERY_SELF then Some (dns_user_free u fw3)
            else fw_dns_server_set_write (fw3\<lparr>outq := outq fw3 @ [u]\<rparr>) True) = Some fw'"
      using assms(4) f Some unfolding fw_dns_fwd_filter_def Let_def fw2_def fw1_def by (auto simp: bind_eq_Some_conv)
    have "names_step fw2 fw3" using 3 parse_filter_ok [OF n2 assms(2)] names_step_refl [OF n2] by (auto split: if_splits)
    then have s: "names_ok 300 {} fw3" "uview fw3 = uview fw2" "socks fw3 = socks fw" by (simp_all add: names_step_def nv)
    have u3: "users_ok {u} fw3" using users_ok_view [OF s(2)] r(1) by blast
    have h3: "hash_msg fw3 = hash_msg fw2" "usr_of fw3 = usr_of fw2" using s(2) by (simp_all add: uview_def)
    have n3: "u \<notin> hash_nodes (hash_msg fw3)" using r(2) h3 by (simp add: fw2_def)
    show ?thesis
    proof (cases "ems_flag_like (u_flg (usr_of fw3 u)) FLG_DNS_QUERY_SELF")
      case True
      then have fw': "fw' = dns_user_free u fw3" using e by simp
      show ?thesis using free_ok [OF u3 n3] s i(3) names_ok_view [of fw' fw3] socks_ok_view [of fw' fw] by (simp add: fw_inv_def fw')
    next
      case False
      let ?o = "fw3\<lparr>outq := outq fw3 @ [u]\<rparr>"
      have "users_ok {} ?o" using u3 n3 to h3 by (auto simp: users_ok_def)
      then have "fw_inv ?o" using s i(3) names_ok_view [of ?o fw3] socks_ok_view [of ?o fw] by (simp add: fw_inv_def)
      then show ?thesis using e False inv_server_set_write by simp
    qed
  qed
qed

lemma rsp_inv: "fw_inv fw \<Longrightarrow> fresh_env e \<Longrightarrow> fw_dns_fwd_rsp e ds fw = Some (r, fw') \<Longrightarrow> fw_inv fw'"
proof (induction e ds fw rule: fw_dns_fwd_rsp.induct)
  case (2 e d errno ds fw)
  obtain s where s: "sess_dns fw = Some s" using "2.prems"(3) by (auto simp: bind_eq_Some_conv)
  have b: "buf_ok (buf_in s)" using "2.prems"(1) s by (simp add: fw_inv_def socks_ok_def)
  show ?case
  proof (cases "take (nat (buf_left (buf_in s))) d = []")
    case True
    then show ?thesis using "2.prems" s by simp
  next
    case False
    let ?b = "dgram_in (buf_in s) d"
    obtain fw1 s1 where 1: "fw_dns_fwd_filter e ?b (fw\<lparr>sess_dns := Some (s\<lparr>buf_in := ?b\<rparr>)\<rparr>) = Some fw1" "sess_dns fw1 = Some s1"
      and r: "fw_dns_fwd_rsp e ds (fw1\<lparr>sess_dns := Some (s1\<lparr>buf_in := ems_buffer_clear (buf_in s1)\<rparr>)\<rparr>) = Some (r, fw')"
      using "2.prems"(3) s False by (auto simp: bind_eq_Some_conv Let_def split: if_splits)
    have "fw_inv (fw\<lparr>sess_dns := Some (s\<lparr>buf_in := ?b\<rparr>)\<rparr>)" using "2.prems"(1) dgram_in_ok [OF b] by (intro dns_buf_inv) simp_all
    from filter_inv [OF this "2.prems"(2) dgram_in_ok [OF b] 1(1)]
    have "fw_inv (fw1\<lparr>sess_dns := Some (s1\<lparr>buf_in := ems_buffer_clear (buf_in s1)\<rparr>)\<rparr>)"
      by (intro dns_buf_inv) (simp_all add: clear_buf_ok)
    then show ?thesis using "2.IH" [OF s False refl 1 _ "2.prems"(2) r] by simp
  qed
qed simp

lemma set_url_inv:
  assumes "fw_inv fw" and "is_sub (g (url_of fw w)) = is_sub (url_of fw w)" and "addr_ok (url_of fw w) \<Longrightarrow> addr_ok (g (url_of fw w))"
  shows "fw_inv (set_url w g fw)"
  by (rule inv_names [OF assms(1)]) (use assms set_url_ok [of 300 "{}" fw w g] in \<open>simp add: fw_inv_def names_step_def\<close>)

lemma info_upt_ok:
  "fw_dns_url_info_upt x = (r, x') \<Longrightarrow> is_sub x' = is_sub x \<and> n_addr x' = n_addr x \<and> w_addr x' = w_addr x"
  by (auto simp: fw_dns_url_info_upt_def Let_def split: option.splits if_splits)

lemma take_address_inv: "fw_inv fw \<Longrightarrow> fw_inv (url_take_address e w a fw)"
  using inv_names [of fw "url_take_address e w a fw"] take_address_ok [of 300 "{}" fw e w a]
  by (simp add: fw_inv_def names_step_def)

lemma query_url_inv:
  assumes "fw_inv fw" and "fresh_env e" and "query_url e w (i, fw) = Some (i', fw')"
  shows "fw_inv fw'"
proof -
  obtain r x where x: "fw_dns_url_info_upt (url_of fw w) = (r, x)" by fastforce
  let ?fw1 = "set_url w (\<lambda>_. x) fw"
  have 1: "fw_inv ?fw1" by (rule set_url_inv [OF assms(1)]) (use info_upt_ok [OF x] in \<open>simp_all add: addr_ok_def\<close>)
  have 2: "fw_inv (set_url w (\<lambda>x. x\<lparr>w_flg := ems_flag_set (w_flg x) FLG_DNS_QUERY_EXPIRED\<rparr>) fw)"
    by (rule set_url_inv [OF assms(1)]) (simp_all add: addr_ok_def)
  show ?thesis
    using assms(1,3) x 1 2 create_user_inv [OF 1 assms(2)] take_address_inv [OF 1]
    by (auto simp: query_url_def Let_def split: if_splits)
qed

lemma query_loop_inv: "fw_inv fw \<Longrightarrow> fresh_env e \<Longrightarrow> query_loop e ws (i, fw) = Some (i', fw') \<Longrightarrow> fw_inv fw'"
proof (induction ws arbitrary: i fw)
  case (Cons w ws)
  then obtain i1 fw1 where "query_url e w (i, fw) = Some (i1, fw1)" "query_loop e ws (i1, fw1) = Some (i', fw')"
    by (auto simp: bind_eq_Some_conv)
  then show ?case using Cons query_url_inv by blast
qed simp

lemma expire_inv: "fw_inv fw \<Longrightarrow> fw_inv (fold (\<lambda>w. set_url w (\<lambda>x. x\<lparr>w_flg := ems_flag_set (w_flg x) FLG_DNS_QUERY_EXPIRED\<rparr>)) ws fw)"
proof (induction ws arbitrary: fw)
  case (Cons w ws)
  have "fw_inv (set_url w (\<lambda>x. x\<lparr>w_flg := ems_flag_set (w_flg x) FLG_DNS_QUERY_EXPIRED\<rparr>) fw)"
    by (rule set_url_inv [OF Cons.prems]) (simp_all add: addr_ok_def)
  then show ?case using Cons.IH by simp
qed simp

lemma triger_inv:
  assumes "fw_inv fw" and "fresh_env e" and "fw_dns_query_triger e fw = Some fw'"
  shows "fw_inv fw'"
proof -
  obtain i fw1 where l: "query_loop e (whitelist fw) (word_of_nat (rnd e mod 35000), fw) = Some (i, fw1)"
    and e: "(let fw2 = fold (\<lambda>w. set_url w (\<lambda>x. x\<lparr>w_flg := ems_flag_set (w_flg x) FLG_DNS_QUERY_EXPIRED\<rparr>)) (subdomain fw1) fw1
      in if fwd fw2 \<noteq> [] then fw_dns_client_set_write fw2 True else Some fw2) = Some fw'"
    using assms(3) by (auto simp: fw_dns_query_triger_def bind_eq_Some_conv)
  show ?thesis using expire_inv [OF query_loop_inv [OF assms(1,2) l]] e inv_client_set_write
    by (auto simp: Let_def split: if_splits)
qed

lemma schedule_inv:
  assumes "fw_inv fw" and "fresh_env e" and "dns_schedule_timeout_cb e fw = Some fw'"
  shows "fw_inv fw'"
proof -
  obtain fw1 s where 1: "fw_dns_query_triger e fw = Some fw1" "sess_bind fw1 = Some s"
    and fw': "fw' = fw1\<lparr>sess_bind := Some (sess_timeout_set (now e) s 10000 DNS_SCHEDULE_TIMEOUT_CB)\<rparr>"
    using assms(3) by (auto simp: dns_schedule_timeout_cb_def bind_eq_Some_conv)
  have i: "fw_inv fw1" by (rule triger_inv [OF assms(1,2) 1(1)])
  then show ?thesis unfolding fw' by (rule bind_buf_inv) (use i 1(2) in \<open>simp add: fw_inv_def socks_ok_def\<close>)
qed

lemma ask_inv:
  assumes "fw_inv fw" and "fresh_env e" and "fw_dns_create_user e w i fw = Some (r, fw1)"
    and "fw_dns_client_set_write fw1 True = Some fw'"
  shows "fw_inv fw'"
  by (rule inv_client_set_write [OF create_user_inv [OF assms(1-3)] assms(4)])

lemma in_whitelist_inv:
  assumes "fw_inv fw" and "fresh_env e" and "fw_url_in_whitelist e key fw = Some (r, fw')"
  shows "fw_inv fw'"
proof -
  have n: "names_ok 300 {} fw" using assms(1) by (simp add: fw_inv_def)
  obtain f where f: "dns_find_url fw key = Some f" "\<And>w. f = Some w \<Longrightarrow> w \<in> set (w_live fw)"
    using names_find [OF n] by metis
  show ?thesis
  proof (cases f)
    case (Some w)
    then show ?thesis using assms f inv_names [OF assms(1) touch_ok [OF n]]
      by (auto simp: fw_url_in_whitelist_def split: if_splits)
  next
    case None
    show ?thesis
    proof (cases "fw' = fw")
      case False
      then obtain tmp new fw1 where 1: "new_subdomain e tmp key fw = Some (new, fw1)"
        and e: "(case new of None \<Rightarrow> Some (False, fw1) | Some w \<Rightarrow> do {
              (_, fw2) \<leftarrow> fw_dns_create_user e w (word_of_nat (rnd e mod 65535)) fw1;
              fw3 \<leftarrow> fw_dns_client_set_write fw2 True;
              Some (True, fw3) }) = Some (r, fw')"
        using assms(3) f None by (auto simp: fw_url_in_whitelist_def bind_eq_Some_conv split: if_splits option.splits)
      have i: "fw_inv fw1" by (rule inv_names [OF assms(1) new_subdomain_ok [OF n assms(2) 1]])
      show ?thesis using e i ask_inv [OF i assms(2)] by (auto simp: bind_eq_Some_conv split: option.splits)
    qed (use assms(1) in simp)
  qed
qed

lemma whitelist_insert_inv:
  assumes "fw_inv fw" and "fresh_env e" and "fw_url_whitelist_insert e white fw = Some (r, fw')"
  shows "fw_inv fw'"
proof -
  have n: "names_ok 300 {} fw" using assms(1) by (simp add: fw_inv_def)
  obtain r1 fw1 where d: "dns_url_new e fw = (r1, fw1)" by fastforce
  note u = url_new_ok [OF n assms(2) d]
  show ?thesis
  proof (cases r1)
    case None
    then show ?thesis using assms(1,3) u(3) d by (simp add: fw_url_whitelist_insert_def)
  next
    case (Some w)
    let ?g = "set_url w (\<lambda>x. x\<lparr>w_url := the (fst (str_set True (Some (w_url x)) (Some white)))\<rparr>) fw1"
    obtain fw2 where a: "fw_dns_subdomain_append e w ?g = Some fw2"
      and e: "(let a = inet_addr (str_text (w_url (url_of fw2 w))) in if a = INADDR_NONE then do {
               (_, fw3) \<leftarrow> fw_dns_create_user e w (word_of_nat (rnd e mod 65535)) fw2;
               fw4 \<leftarrow> fw_dns_client_set_write fw3 True;
               Some (EMS_OK, fw4) } else Some (EMS_OK, url_take_address e w a fw2)) = Some (r, fw')"
      using assms(3) d Some by (auto simp: fw_url_whitelist_insert_def bind_eq_Some_conv)
    note w = u(4) [OF Some]
    have g: "names_ok 300 {w} ?g" by (rule set_url_ok) (use w in \<open>simp_all add: addr_ok_def\<close>)
    have "w \<notin> hash_nodes (hash_url ?g)" using w by (simp add: set_url_def)
    from subdomain_append_ok [OF g this a] u(1,2)
    have i: "fw_inv fw2" by (intro inv_names [OF assms(1)]) (simp add: names_step_def)
    show ?thesis using e ask_inv [OF i assms(2)] take_address_inv [OF i]
      by (auto simp: bind_eq_Some_conv Let_def split: if_splits)
  qed
qed

end
