(* ===== verification/Ems_Fw_Inv.thy ===== *)
theory Ems_Fw_Inv
  imports Ems_Dns_Inv
begin

text \<open>
  The firewall module as a system of steps: the messages it handles, the events of its two sockets
  and its timers. Every state it reaches from the one \<open>fw_init\<close> makes keeps the invariant of
  \<open>Ems_Dns_Inv\<close>, and what follows for the requests and the names is stated here.
\<close>

subsection \<open>The sessions\<close>

lemma bind_loop_buf: "buf_in (snd (bind_loop ports p s)) = buf_in s"
proof (induction ports p s rule: bind_loop.induct)
  case (1 ports p s)
  then show ?case
    by (subst bind_loop.simps) (auto simp: Let_def dns_bind_def split: prod.splits option.splits)
qed

lemma session_or_new_buf: "session_or_new e alloc so = Some s \<Longrightarrow> (\<forall>x. so = Some x \<longrightarrow> buf_ok (buf_in x)) \<Longrightarrow> buf_ok (buf_in s)"
  by (auto simp: session_or_new_def ems_session_new_def ems_session_init_def buf_ok_init split: option.splits if_splits)

lemma sess_inv:
  assumes "fw_inv fw" and "\<forall>x. so = Some x \<longrightarrow> buf_ok (buf_in x)"
  shows "fw_inv (fw\<lparr>sess_bind := so\<rparr>)" and "fw_inv (fw\<lparr>sess_dns := so\<rparr>)"
  by (rule inv_view [OF assms(1)]; use assms in \<open>simp add: fw_inv_def socks_ok_def\<close>)+

lemma be_server_inv:
  assumes "fw_inv fw" and "fw_dns_be_server e alloc ports fw = Some (r, fw')"
  shows "fw_inv fw'"
proof -
  obtain s where s: "session_or_new e alloc (sess_bind fw) = Some s"
    using assms(2) by (auto simp: fw_dns_be_server_def bind_eq_Some_conv)
  have b: "buf_ok (buf_in s)" by (rule session_or_new_buf [OF s]) (use assms(1) in \<open>simp add: fw_inv_def socks_ok_def\<close>)
  obtain ret s1 where l: "bind_loop ports 9300 s = (ret, s1)" by fastforce
  have "buf_in s1 = buf_in s" using bind_loop_buf [of ports 9300 s] l by simp
  then have "\<exists>so. fw' = fw\<lparr>sess_bind := so\<rparr> \<and> (\<forall>x. so = Some x \<longrightarrow> buf_ok (buf_in x))"
    using assms(2) s l b by (auto simp: fw_dns_be_server_def split: if_splits)
  then show ?thesis using sess_inv [OF assms(1)] by blast
qed

lemma be_client_inv:
  assumes "fw_inv fw" and "fw_dns_be_client e alloc conn fw = Some (r, fw')"
  shows "fw_inv fw'"
proof -
  obtain s where s: "session_or_new e alloc (sess_dns fw) = Some s"
    using assms(2) by (auto simp: fw_dns_be_client_def bind_eq_Some_conv)
  have b: "buf_ok (buf_in s)" by (rule session_or_new_buf [OF s]) (use assms(1) in \<open>simp add: fw_inv_def socks_ok_def\<close>)
  obtain ret s1 where l: "dns_connect conn s = (ret, s1)" by fastforce
  have "buf_in s1 = buf_in s" using l by (auto simp: dns_connect_def split: option.splits)
  then have "\<exists>so. fw' = fw\<lparr>sess_dns := so\<rparr> \<and> (\<forall>x. so = Some x \<longrightarrow> buf_ok (buf_in x))"
    using assms(2) s l b by (auto simp: fw_dns_be_client_def split: if_splits)
  then show ?thesis using sess_inv [OF assms(1)] by blast
qed

lemma stop_frames [simp]:
  "snd (fw_dns_server_stop fw) = fw\<lparr>sess_bind := None\<rparr>" "snd (fw_dns_client_stop fw) = fw\<lparr>sess_dns := None\<rparr>"
  by (simp_all add: fw_dns_server_stop_def fw_dns_client_stop_def)

lemma no_sess_inv: "fw_inv fw \<Longrightarrow> fw_inv (fw\<lparr>sess_bind := None\<rparr>)" "fw_inv fw \<Longrightarrow> fw_inv (fw\<lparr>sess_dns := None\<rparr>)"
  by (rule sess_inv; simp)+

lemma evt_cb_inv:
  assumes "fw_inv fw" and "fresh_env e" and "fw_dns_evt_cb e alloc ports err flg dgrams rets fw = Some fw'"
  shows "fw_inv fw'"
proof (cases err)
  case True
  then obtain r where "fw_dns_be_server e alloc ports (fw\<lparr>sess_bind := None\<rparr>) = Some (r, fw')"
    using assms(3) by (auto simp: fw_dns_evt_cb_def)
  from be_server_inv [OF no_sess_inv(1) [OF assms(1)] this] show ?thesis .
next
  case False
  then obtain fw1 where 1: "(if ems_flag_like flg EMS_EVT_READ then fw_dns_request e dgrams fw else Some fw) = Some fw1"
    and 2: "(if ems_flag_like flg EMS_EVT_WRITE then fw_dns_response rets fw1 else Some fw1) = Some fw'"
    using assms(3) by (auto simp: fw_dns_evt_cb_def bind_eq_Some_conv)
  have "fw_inv fw1" using 1 assms(1) request_inv [OF assms(1,2)] by (auto split: if_splits)
  then show ?thesis using 2 response_inv by (auto split: if_splits)
qed

lemma fwd_evt_cb_inv:
  assumes "fw_inv fw" and "fresh_env e" and "fw_dns_fwd_evt_cb e alloc conn err flg dgrams rets fw = Some fw'"
  shows "fw_inv fw'"
proof (cases err)
  case True
  then obtain r where "fw_dns_be_client e alloc conn (fw\<lparr>sess_dns := None\<rparr>) = Some (r, fw')"
    using assms(3) by (auto simp: fw_dns_fwd_evt_cb_def)
  from be_client_inv [OF no_sess_inv(2) [OF assms(1)] this] show ?thesis .
next
  case False
  then obtain fw1 where 1: "(if ems_flag_like flg EMS_EVT_READ then map_option snd (fw_dns_fwd_rsp e dgrams fw) else Some fw) = Some fw1"
    and 2: "(if ems_flag_like flg EMS_EVT_WRITE then fw_dns_fwd_req rets fw1 else Some fw1) = Some fw'"
    using assms(3) by (auto simp: fw_dns_fwd_evt_cb_def bind_eq_Some_conv)
  have "fw_inv fw1" using 1 assms(1) rsp_inv [OF assms(1,2)] by (auto split: if_splits)
  then show ?thesis using 2 fwd_req_inv by (auto split: if_splits)
qed

subsection \<open>Rules and messages\<close>

lemma log_inv: "fw_inv fw \<Longrightarrow> fw_inv (fw\<lparr>fw_log := lg\<rparr>)"
  by (rule inv_view [of fw]) (auto simp: fw_inv_def socks_ok_def)

lemma mark_inv: "fw_inv fw \<Longrightarrow> fw_inv (fw\<lparr>fw_mark := m\<rparr>)"
  by (rule inv_view [of fw]) (auto simp: fw_inv_def socks_ok_def)

lemma out_inv: "fw_inv fw \<Longrightarrow> fw_inv (fw\<lparr>net_out := l\<rparr>)"
  by (rule inv_view [of fw]) (auto simp: fw_inv_def socks_ok_def)

lemma ipt_inv: "fw_inv fw \<Longrightarrow> fw_inv (ipt e c fw)"
  by (simp add: ipt_def log_inv)

lemma run_rules_inv: "fw_inv fw \<Longrightarrow> fw_inv (snd (fw_run_rules f e fw))"
  by (simp add: fw_run_rules_def log_inv split: prod.splits)

lemma sendmsg_inv: "fw_inv fw \<Longrightarrow> fw_inv (snd (nic_sendmsg e s d evt fw))" "fw_inv fw \<Longrightarrow> fw_inv (snd (ems_send_message e s d evt fw))"
  by (simp_all add: nic_sendmsg_def ems_send_message_def send_message_def out_inv)

lemma flush_inv: "fw_inv fw \<Longrightarrow> fw_inv (fold (\<lambda>c. ipt e (Flush False tb (fw_chain m c))) cs fw)"
  by (induction cs arbitrary: fw) (simp_all add: ipt_inv)

lemma append_list_inv: "fw_inv fw \<Longrightarrow> fresh_env e \<Longrightarrow> append_list e ary b fw = Some fw' \<Longrightarrow> fw_inv fw'"
  using append_list_ok inv_names unfolding fw_inv_def by blast

lemma whitelist_clear_inv: "fw_inv fw \<Longrightarrow> fw_inv (snd (fw_whitelist_clear fw))"
  using whitelist_clear_ok [of fw] inv_names [of fw] by (simp add: fw_inv_def)

lemma flush_whitelist_inv:
  assumes "fw_inv fw" and "fresh_env e" and "fw_flush_whiltelist e fw = Some (r, fw')"
  shows "fw_inv fw'"
proof -
  let ?obj = "JObj (snd (bwlist_server_rules e (bwlist_obj e) []))" and ?fw1 = "snd (fw_whitelist_clear fw)"
  let ?fw3 = "ipt e (Flush True C_TABLE_NAT (fw_chain (fw_mark ?fw1) FW_T_NAT_POST_BLACKLIST))
    (ipt e (Flush True C_TABLE_NAT (fw_chain (fw_mark ?fw1) FW_T_NAT_POST_WHITELIST)) ?fw1)"
  obtain fw4 fw5 fw6 where s: "append_list e (Some (JArr (fw_user_whitelist e))) False ?fw3 = Some fw4"
    "append_list e (json_object_object_get (Some ?obj) ''white'') False fw4 = Some fw5"
    "append_list e (json_object_object_get (Some ?obj) ''black'') True fw5 = Some fw6"
    "fw_dns_query_triger e fw6 = Some fw'"
    using assms(3) unfolding fw_flush_whiltelist_def Let_def by (auto simp: bind_eq_Some_conv)
  have "fw_inv ?fw3" by (intro ipt_inv whitelist_clear_inv assms(1))
  from append_list_inv [OF append_list_inv [OF append_list_inv [OF this assms(2) s(1)] assms(2) s(2)] assms(2) s(3)]
  show ?thesis using triger_inv assms(2) s(4) by blast
qed

lemma update_all_inv:
  assumes "fw_inv fw" and "fresh_env e" and "fw_update_all_rules e fw = Some (r, fw')"
  shows "fw_inv fw'"
proof -
  let ?fw2 = "snd (fw_run_rules fw_flush_user_mac_black e (snd (fw_run_rules fw_flush_user_mac_white e fw)))"
  obtain x fw3 where f: "fw_flush_whiltelist e ?fw2 = Some (x, fw3)"
    using assms(3) unfolding fw_update_all_rules_def Let_def by (auto simp: bind_eq_Some_conv)
  define fw4 where "fw4 = snd (nic_sendmsg e ty_fw ty_portal EMS_APP_EVT_FW_RELOAD fw3)"
  define fw7 where "fw7 = snd (nic_sendmsg e ty_fw ty_http EMS_APP_EVT_FW_RELOAD (snd (nic_sendmsg e ty_fw ty_radius EMS_APP_EVT_FW_RELOAD
    (fold (\<lambda>c. ipt e (Flush False C_TABLE_NAT (fw_chain (fw_mark fw4) c)))
        [FW_T_NAT_POST_AUTHED, FW_T_NAT_PRE_DEFAULT, FW_T_NAT_POST_DEFAULT, FW_T_NAT_PRE_PRE] fw4))))"
  have fw': "fw' = (case sess_bind fw7 of None \<Rightarrow> fw7
      | Some sess \<Rightarrow> snd (fw_run_rules (\<lambda>fe m. fw_dns_set_free fe m (s_port (sock sess)) True) e fw7))"
    using assms(3) f unfolding fw_update_all_rules_def Let_def fw7_def fw4_def by simp
  have "fw_inv ?fw2" by (intro run_rules_inv assms(1))
  then have "fw_inv fw3" using flush_whitelist_inv assms(2) f by blast
  then have "fw_inv fw4" unfolding fw4_def by (rule sendmsg_inv(1))
  then have "fw_inv fw7" unfolding fw7_def by (intro sendmsg_inv(1) flush_inv)
  then show ?thesis unfolding fw' by (auto split: option.splits intro: run_rules_inv)
qed

lemma retry_inv:
  assumes "P s" and "\<And>s. P s \<Longrightarrow> P (snd (f s))" and "\<And>s. P s \<Longrightarrow> P (snd (g s))"
  shows "P (snd (retry_loop n f g s))"
  using assms(1)
proof (induction n arbitrary: s)
  case (Suc n)
  then show ?case using assms(2) [OF Suc.prems] assms(3) by (auto split: prod.splits)
qed simp

lemma reload_inv:
  assumes "fw_inv fw" and "fresh_env e" and "fw_rules_reload e fw = Some (r, fw')"
  shows "fw_inv fw'"
proof -
  let ?l = "retry_loop 3 (fw_run_rules fw_init_chains e) (fw_run_rules fw_uninit_chains e) (fw\<lparr>fw_mark := ssid_id (fe e)\<rparr>)"
  obtain ok fw2 where l: "?l = (ok, fw2)" by fastforce
  have "fw_inv (snd ?l)" by (rule retry_inv) (simp_all add: mark_inv run_rules_inv assms(1))
  then have 2: "fw_inv fw2" by (simp add: l)
  show ?thesis
  proof (cases ok)
    case False
    then show ?thesis using assms(3) l 2 ipt_inv by (auto simp: fw_rules_reload_def)
  next
    case True
    then obtain x fw3 where "fw_update_all_rules e fw2 = Some (x, fw3)"
      "fw' = snd (ems_send_message e ty_nic ty_nic EMS_APP_EVT_WIRED_RELOAD fw3)"
      using assms(3) l by (auto simp: fw_rules_reload_def bind_eq_Some_conv)
    then show ?thesis using update_all_inv [OF 2 assms(2)] sendmsg_inv(2) by blast
  qed
qed

subsection \<open>Starting and stopping\<close>

text \<open>The queues after users went away one by one.\<close>

lemma fold_remove1_Nil: "fold remove1 us [] = []"
  by (induction us) simp_all

lemma fold_remove1_all: "fold remove1 us us = []"
proof (induction us)
  case (Cons u us)
  then show ?case by simp
qed simp

lemma clear_users_lists:
  "fwd (clear_users us fw) = fold remove1 us (fwd fw)" "wait (clear_users us fw) = fold remove1 us (wait fw)"
  "outq (clear_users us fw) = fold remove1 us (outq fw)" "u_live (clear_users us fw) = fold remove1 us (u_live fw)"
  unfolding clear_users_def
  by (induction us arbitrary: fw) (simp_all add: dns_user_free_def unlink_user_def set_usr_def)

lemma clear_users_ok:
  assumes "users_ok {} fw" and "hash_nodes (hash_msg fw) = {}" and "distinct us" and "set us \<subseteq> set (u_live fw)"
  shows "users_ok {} (clear_users us fw) \<and> hash_nodes (hash_msg (clear_users us fw)) = {} \<and>
    nview (clear_users us fw) = nview fw \<and> socks (clear_users us fw) = socks fw"
  using assms
proof (induction us arbitrary: fw)
  case (Cons u us)
  let ?fw1 = "dns_user_free u (unlink_user u fw)"
  have u: "u \<in> set (u_live fw)" using Cons.prems(4) by simp
  have t: "tab_ok (hash_msg fw)" and d: "distinct (u_live fw)" using Cons.prems(1) by (simp_all add: users_ok_def)
  have 1: "users_ok {} ?fw1" by (rule detached_drop_ok [OF Cons.prems(1) u]) (simp add: Cons.prems(2))
  have 2: "hash_nodes (hash_msg ?fw1) = {}"
    using tab_fd_init(2) [OF t, of u] Cons.prems(2) by (simp add: dns_user_free_def unlink_user_def)
  have "set (u_live ?fw1) = set (u_live fw) - {u}"
    using d by (simp add: dns_user_free_def unlink_user_def set_usr_def set_remove1_eq)
  then have "set us \<subseteq> set (u_live ?fw1)" using Cons.prems(3,4) by auto
  from Cons.IH [OF 1 2 _ this] Cons.prems(3) show ?case by (simp add: clear_users_def)
qed (simp add: clear_users_def)

lemma users_gone: "users_ok {} fw \<Longrightarrow> fwd fw = [] \<Longrightarrow> wait fw = [] \<Longrightarrow> outq fw = [] \<Longrightarrow> u_live fw = []"
  by (simp add: users_ok_def)

lemma fw_clear_users_ok:
  assumes "users_ok {} fw" and "hash_nodes (hash_msg fw) = {}"
  shows "users_ok {} (fw_clear_users fw) \<and> u_live (fw_clear_users fw) = [] \<and>
    nview (fw_clear_users fw) = nview fw \<and> socks (fw_clear_users fw) = socks fw"
proof -
  have q: "distinct (fwd f) \<and> distinct (wait f) \<and> distinct (outq f) \<and>
      set (fwd f) \<subseteq> set (u_live f) \<and> set (wait f) \<subseteq> set (u_live f) \<and> set (outq f) \<subseteq> set (u_live f)"
    if "users_ok {} f" for f using that by (auto simp: users_ok_def)
  let ?fw1 = "clear_users (fwd fw) fw"
  let ?fw2 = "clear_users (wait ?fw1) ?fw1"
  let ?fw3 = "clear_users (outq ?fw2) ?fw2"
  have 1: "users_ok {} ?fw1 \<and> hash_nodes (hash_msg ?fw1) = {} \<and> nview ?fw1 = nview fw \<and> socks ?fw1 = socks fw"
    using clear_users_ok [OF assms] q [OF assms(1)] by blast
  have 2: "users_ok {} ?fw2 \<and> hash_nodes (hash_msg ?fw2) = {} \<and> nview ?fw2 = nview fw \<and> socks ?fw2 = socks fw"
    using clear_users_ok [of ?fw1 "wait ?fw1"] 1 q [of ?fw1] by simp
  have 3: "users_ok {} ?fw3 \<and> nview ?fw3 = nview fw \<and> socks ?fw3 = socks fw"
    using clear_users_ok [of ?fw2 "outq ?fw2"] 2 q [of ?fw2] by simp
  moreover have "fwd ?fw3 = []" "wait ?fw3 = []" "outq ?fw3 = []"
    by (simp_all add: clear_users_lists fold_remove1_Nil fold_remove1_all)
  ultimately show ?thesis using users_gone [of ?fw3] by (simp add: fw_clear_users_def Let_def)
qed

text \<open>A firewall that does not run holds no request, no name and no socket.\<close>

definition quiet :: "ems_fw \<Rightarrow> bool" where
  "quiet fw \<longleftrightarrow> u_live fw = [] \<and> w_live fw = [] \<and> sess_bind fw = None \<and> sess_dns fw = None"

definition mod_inv :: "fw_mod \<Rightarrow> bool" where
  "mod_inv m \<longleftrightarrow> (\<forall>fw. fm_ctx m = Some fw \<longrightarrow> fw_inv fw \<and> (\<not> fm_run m \<longrightarrow> quiet fw))"

lemma run_rules_quiet: "quiet fw \<Longrightarrow> quiet (snd (fw_run_rules f e fw))"
  by (simp add: quiet_def fw_run_rules_def split: prod.splits)

lemma stop_inv:
  assumes "fw_inv fw"
  shows "fw_inv (snd (fw_stop e fw)) \<and> quiet (snd (fw_stop e fw))"
proof -
  let ?fw0 = "snd (fw_dns_stop fw)"
  let ?fw1 = "snd (fw_whitelist_clear ?fw0)"
  let ?c = "?fw1\<lparr>hash_msg := ems_hash_clean (hash_msg ?fw1)\<rparr>"
  let ?fw2 = "fw_clear_users ?c"
  have 0: "fw_inv ?fw0" "socks ?fw0 = (None, None)"
    unfolding fw_dns_stop_def using no_sess_inv assms by (simp_all add: socks_def)
  have 1: "fw_inv ?fw1" "w_live ?fw1 = []" "socks ?fw1 = (None, None)"
    using whitelist_clear_inv [OF 0(1)] whitelist_clear_ok [of ?fw0] 0 by (simp_all add: fw_inv_def names_step_def)
  then have u1: "users_ok {} ?fw1" and t: "tab_ok (hash_msg ?fw1)" by (simp_all add: fw_inv_def users_ok_def)
  have "users_ok {} ?c" using u1 tab_clean [OF t] by (auto simp: users_ok_def)
  from fw_clear_users_ok [OF this] tab_clean [OF t]
  have 2: "users_ok {} ?fw2" "u_live ?fw2 = []" "nview ?fw2 = nview ?fw1" "socks ?fw2 = (None, None)"
    using 1(3) by simp_all
  have i: "fw_inv ?fw2" by (rule inv_users [OF 1(1) 2(1,3)]) (use 2(4) in \<open>simp add: socks_ok_def socks_def\<close>)
  have q: "quiet ?fw2" using 2 1(2) by (simp add: quiet_def nview_def socks_def)
  show ?thesis using run_rules_inv [OF i] run_rules_quiet [OF q] by (simp add: fw_stop_def Let_def)
qed

lemma start_inv:
  assumes "fw_inv fw" and "fw_start e alloc ports conn fw = Some (r, fw')"
  shows "fw_inv fw'"
proof -
  obtain x fw1 y fw2 where "fw_dns_be_server e alloc ports fw = Some (x, fw1)" "fw_dns_be_client e alloc conn fw1 = Some (y, fw2)"
    "fw' = snd (nic_sendmsg e ty_fw ty_fw EMS_APP_EVT_FW_RELOAD fw2)"
    using assms(2) by (auto simp: fw_start_def fw_dns_start_def bind_eq_Some_conv)
  then show ?thesis using be_server_inv [OF assms(1)] be_client_inv sendmsg_inv(1) by blast
qed

lemma process_run_inv:
  assumes "fw_inv fw" and "fresh_env e" and "fw_process_run e evt root fw = Some (r, fw')"
  shows "fw_inv fw'"
proof -
  have dev: "fw_inv fw'" if "fw_rules_radius_device_free e root fw = Some (x, fw')" for x
    using that assms(1) by (auto simp: fw_rules_radius_device_free_def Let_def log_inv split: if_splits)
  have add: "fw_inv fw'" if "fw_rules_address_add e root fw = Some (x, fw')" for x
  proof (cases "\<exists>js. root = Some (JArr js)")
    case True
    then obtain js where "root = Some (JArr js)" by blast
    with that have "append_list e (Some (JArr js)) False fw = Some fw'"
      by (simp add: fw_rules_address_add_def append_list_def)
    then show ?thesis using append_list_inv assms by blast
  qed (use that assms(1) in \<open>auto simp: fw_rules_address_add_def split: option.splits json.splits\<close>)
  have del: "fw_inv fw'" if "fw_rules_address_del e root fw = Some (x, fw')" for x
  proof (cases "\<exists>js. root = Some (JArr js)")
    case True
    then obtain js where "root = Some (JArr js)" by blast
    with that have "fw' = snd (fw_remove_urls e js fw)" by (simp add: fw_rules_address_del_def)
    then show ?thesis using inv_names [OF assms(1) remove_urls_ok] assms(1) by (simp add: fw_inv_def)
  qed (use that assms(1) in \<open>auto simp: fw_rules_address_del_def split: option.splits json.splits\<close>)
  have "fw_inv (snd (fw_set_nas_free e root fw))" "fw_inv (snd (fw_set_http_free e root fw))"
    using assms(1) by (simp_all add: fw_set_nas_free_def fw_set_http_free_def Let_def run_rules_inv)
  then have nas: "apfst Some (fw_set_nas_free e root fw) = (x, fw') \<Longrightarrow> fw_inv fw'"
    "apfst Some (fw_set_http_free e root fw) = (x, fw') \<Longrightarrow> fw_inv fw'" for x
    by (metis snd_apfst snd_conv)+
  have sub: "fw_inv fw'" if "fw_url_is_subdomain e root fw = Some (x, fw')" for x
    using that assms(1) in_whitelist_inv [OF assms(1,2)] by (auto simp: fw_url_is_subdomain_def Let_def split: if_splits)
  have wl: "fw_inv fw'" if "fw_url_whitelist e root fw = Some (x, fw')" for x
    using that assms(1) whitelist_insert_inv [OF assms(1,2)] by (auto simp: fw_url_whitelist_def Let_def split: if_splits)
  have srv: "fw_inv fw'" if "fw_server_rules_update e fw = Some (x, fw')" for x
    using that flush_whitelist_inv [OF assms(1,2)] by (simp add: fw_server_rules_update_def)
  show ?thesis
    using assms(3) dev add del nas sub wl srv reload_inv [OF assms(1,2)] assms(1)
    by (auto simp: fw_process_run_def Let_def split: if_splits)
qed

lemma process_inv:
  assumes "mod_inv m" and "fresh_env e" and "fw_process e alloc ports conn evt root m = Some (r, m')"
  shows "mod_inv m'"
proof -
  have i: "fw_inv fw \<and> (\<not> fm_run m \<longrightarrow> quiet fw)" if "fm_ctx m = Some fw" for fw using assms(1) that by (simp add: mod_inv_def)
  consider "evt = EMS_APP_START" | "evt = EMS_APP_STOP" | "evt = EMS_APP_FW_CLEAR" | "evt \<notin> {EMS_APP_START, EMS_APP_STOP, EMS_APP_FW_CLEAR}"
    by blast
  then show ?thesis
  proof cases
    case 1
    then show ?thesis using assms(1,3) i start_inv
      by (auto simp: fw_process_def fw_run_def mod_inv_def bind_eq_Some_conv split: if_splits)
  next
    case 2
    have "EMS_APP_STOP \<noteq> EMS_APP_START" by (simp add: EMS_APP_STOP_def EMS_APP_START_def)
    then show ?thesis using 2 assms(1,3) i stop_inv
      by (auto simp: fw_process_def fw_run_def mod_inv_def bind_eq_Some_conv split: if_splits)
  next
    case 3
    have "EMS_APP_FW_CLEAR \<noteq> EMS_APP_START" "EMS_APP_FW_CLEAR \<noteq> EMS_APP_STOP"
      by (simp_all add: EMS_APP_STOP_def EMS_APP_START_def EMS_APP_FW_CLEAR_def)
    then obtain fw where "fm_ctx m = Some fw" "m' = m\<lparr>fm_ctx := Some (snd (fw_run_rules fw_uninit_chains e fw))\<rparr>"
      using 3 assms(3) by (auto simp: fw_process_def bind_eq_Some_conv case_prod_beta)
    then show ?thesis using i run_rules_inv run_rules_quiet by (simp add: mod_inv_def)
  next
    case 4
    then show ?thesis using assms(1,3) i process_run_inv [OF _ assms(2)]
      by (auto simp: fw_process_def mod_inv_def bind_eq_Some_conv split: if_splits)
  qed
qed

subsection \<open>The steps of the module\<close>

definition mod_start :: "fw_mod \<Rightarrow> bool" where
  "mod_start m \<longleftrightarrow> (\<exists>alloc mem. m = snd (fw_init alloc True mem \<lparr>fm_run = False, fm_ctx = None\<rparr>))"

text \<open>
  A message; an event of one of the two sockets, while they are registered; the timer of the server's
  session; the timer of a request.
\<close>

inductive fw_step :: "fw_mod \<Rightarrow> fw_mod \<Rightarrow> bool" where
  message: "fresh_env e \<Longrightarrow> fw_process e alloc ports conn evt root m = Some (Some r, m') \<Longrightarrow> fw_step m m'"
| server: "fresh_env e \<Longrightarrow> fm_ctx m = Some fw \<Longrightarrow> sess_bind fw = Some s \<Longrightarrow> evt_cb s = Some FW_DNS_EVT_CB \<Longrightarrow>
    fw_dns_evt_cb e alloc ports err flg dgrams rets fw = Some fw' \<Longrightarrow> fw_step m (m\<lparr>fm_ctx := Some fw'\<rparr>)"
| client: "fresh_env e \<Longrightarrow> fm_ctx m = Some fw \<Longrightarrow> sess_dns fw = Some s \<Longrightarrow> evt_cb s = Some FW_DNS_FWD_EVT_CB \<Longrightarrow>
    fw_dns_fwd_evt_cb e alloc conn err flg rsps rets fw = Some fw' \<Longrightarrow> fw_step m (m\<lparr>fm_ctx := Some fw'\<rparr>)"
| schedule: "fresh_env e \<Longrightarrow> fm_ctx m = Some fw \<Longrightarrow> sess_bind fw = Some s \<Longrightarrow> s_to s \<noteq> None \<Longrightarrow>
    dns_schedule_timeout_cb e fw = Some fw' \<Longrightarrow> fw_step m (m\<lparr>fm_ctx := Some fw'\<rparr>)"
| expire: "fm_ctx m = Some fw \<Longrightarrow> u \<in> set (u_live fw) \<Longrightarrow> u_to (usr_of fw u) \<noteq> None \<Longrightarrow>
    fw_step m (m\<lparr>fm_ctx := Some (dns_fwd_timeout u fw)\<rparr>)"

lemma init_tab_ok: "tab_ok (snd (ems_hash_init True h 128)) \<and> hash_nodes (snd (ems_hash_init True h 128)) = {}"
  by (auto simp: tab_ok_def hash_ok_def ems_hash_init_def hash_nodes_def)

lemma start_inv_mod:
  assumes "mod_start m"
  shows "mod_inv m"
proof -
  obtain alloc mem where m: "m = snd (fw_init alloc True mem \<lparr>fm_run = False, fm_ctx = None\<rparr>)"
    using assms by (auto simp: mod_start_def)
  show ?thesis
  proof (cases alloc)
    case True
    then show ?thesis using init_tab_ok
      by (simp add: m fw_init_def mod_inv_def fw_inv_def users_ok_def names_ok_def socks_ok_def quiet_def)
  qed (simp add: m fw_init_def mod_inv_def)
qed

lemma mod_inv_upd: "mod_inv m \<Longrightarrow> fm_ctx m = Some fw \<Longrightarrow> (fw_inv fw \<Longrightarrow> fw_inv fw') \<Longrightarrow> \<not> quiet fw \<Longrightarrow> mod_inv (m\<lparr>fm_ctx := Some fw'\<rparr>)"
  by (auto simp: mod_inv_def)

lemma step_inv_mod:
  assumes "mod_inv m" and "fw_step m m'"
  shows "mod_inv m'"
  using assms(2)
proof cases
  case (message e alloc ports conn evt root r)
  then show ?thesis using process_inv assms(1) by blast
next
  case (server e fw s alloc ports err flg dgrams rets fw')
  show ?thesis unfolding server(1)
    by (rule mod_inv_upd [OF assms(1) server(3)]) (use evt_cb_inv server in \<open>auto simp: quiet_def\<close>)
next
  case (client e fw s alloc conn err flg rsps rets fw')
  show ?thesis unfolding client(1)
    by (rule mod_inv_upd [OF assms(1) client(3)]) (use fwd_evt_cb_inv client in \<open>auto simp: quiet_def\<close>)
next
  case (schedule e fw s fw')
  show ?thesis unfolding schedule(1)
    by (rule mod_inv_upd [OF assms(1) schedule(3)]) (use schedule_inv schedule in \<open>auto simp: quiet_def\<close>)
next
  case (expire fw u)
  show ?thesis unfolding expire(1)
    by (rule mod_inv_upd [OF assms(1) expire(2)]) (use timeout_inv expire in \<open>auto simp: quiet_def\<close>)
qed

interpretation fws: step_system mod_start fw_step mod_inv
  by unfold_locales (use start_inv_mod step_inv_mod in blast)+

subsection \<open>A module at work\<close>

definition fw_env_1 :: fw_env where
  "fw_env_1 = \<lparr>sys_st = (\<lambda>_ _. (0, 0)), popen_line = (\<lambda>_ _. []), core_gw_ifname = ''br-lan'', core_gw_addr = ''10.0.0.1'',
     ssid_ifname = ''ra0'', ssid_id = 3, ssid_whitemac = [], ssid_blackmac = [], ssid_whitelist = [''a.cn''],
     cfg_mac_white = None, cfg_mac_black = None\<rparr>"

definition env_1 :: dns_env where
  "env_1 = \<lparr>fe = fw_env_1, now = \<lparr>tv_sec = 100, tv_usec = 0\<rparr>, new_user = (\<lambda>l. Some (Suc (sum_list l))),
     new_url = (\<lambda>l. Some (Suc (sum_list l))), alloc_ok = True, garbage = (\<lambda>_. CHR ''x''), rnd = 7, subdomain_enable = True,
     bwlist_obj = None, json_text = (\<lambda>_. []), json_parse = (\<lambda>_. None)\<rparr>"

lemma fresh_env_1: "fresh_env env_1"
  by (auto simp: fresh_env_def env_1_def dest: member_le_sum_list)

definition mem_1 :: ems_fw where
  "mem_1 = \<lparr>whitelist = [], n_subdomain = 0, subdomain = [], fw_mark = 0, sess_bind = None, sess_dns = None,
     hash_msg = hash_mem0, hash_url = hash_mem0, fwd = [], wait = [], outq = [],
     usr_of = (\<lambda>_. \<lparr>u_flg = 0, u_port = 0, u_addr = 0, u_buf = \<lparr>bmem = [], brd = 0, bwr = 0\<rparr>, u_to = None\<rparr>), u_live = [],
     url_of = (\<lambda>_. \<lparr>w_flg = 0, w_url = str_init, n_addr = 0, w_addr = None, mask = 32\<rparr>), w_live = [], fw_log = [], net_out = []\<rparr>"

definition mod_1 :: fw_mod where "mod_1 = snd (fw_init True True mem_1 \<lparr>fm_run = False, fm_ctx = None\<rparr>)"

definition fw_1 :: ems_fw where "fw_1 = the (fm_ctx mod_1)"

lemma mod_1: "mod_start mod_1" "fm_ctx mod_1 = Some fw_1" "fm_run mod_1 = False"
  by (auto simp: mod_start_def mod_1_def fw_1_def fw_init_def)

lemma fw_1: "u_live fw_1 = []" "w_live fw_1 = []" "sess_bind fw_1 = None" "sess_dns fw_1 = None" "net_out fw_1 = []"
  "fwd fw_1 = []" "wait fw_1 = []" "outq fw_1 = []" "subdomain fw_1 = []" "whitelist fw_1 = []"
  by (simp_all add: fw_1_def mod_1_def fw_init_def mem_1_def)

text \<open>After the start both sockets are open, at the first port that is free.\<close>

definition ports_1 :: "int \<Rightarrow> int option" where "ports_1 p = (if p < 9302 then None else Some 5)"

lemma start_1:
  obtains fw where "fw_process env_1 True ports_1 (Some 6) EMS_APP_START None mod_1 = Some (Some 0, mod_1\<lparr>fm_run := True, fm_ctx := Some fw\<rparr>)"
    and "uview fw = uview fw_1" and "nview fw = nview fw_1" and "sess_bind fw \<noteq> None" and "sess_dns fw \<noteq> None"
    and "map_option (\<lambda>s. (s_port (sock s), evt_cb s, buf_in s)) (sess_bind fw) =
      Some (9302, Some FW_DNS_EVT_CB, snd (ems_buffer_init True (garbage env_1) EMS_BUFFER_1K))"
    and "net_out fw = [SsidMsg ty_fw ty_fw EMS_APP_EVT_FW_RELOAD]"
proof -
  let ?s = "ems_session_init True (garbage env_1)"
  have "fst (bind_loop ports_1 9300 ?s) = EMS_OK \<and> s_port (sock (snd (bind_loop ports_1 9300 ?s))) = 9302"
    by (simp add: bind_loop.simps ports_1_def dns_bind_def ems_sock_setport_def ems_sock_setfd_def ems_sock_setaddr_def Let_def
        split: option.splits)
  then obtain s1 where b: "bind_loop ports_1 9300 ?s = (EMS_OK, s1)" and p: "s_port (sock s1) = 9302"
    by (metis prod.collapse)
  obtain s2 where c: "dns_connect (Some 6) ?s = (EMS_OK, s2)" by (simp add: dns_connect_def)
  define sb where "sb = sess_timeout_set (now env_1) (sess_event_set (s1\<lparr>cbarg := 1\<rparr>) EMS_EVT_READ FW_DNS_EVT_CB) 10000 DNS_SCHEDULE_TIMEOUT_CB"
  define sd where "sd = sess_event_set (s2\<lparr>cbarg := 1\<rparr>) EMS_EVT_READ FW_DNS_FWD_EVT_CB"
  let ?fw = "fw_1\<lparr>sess_bind := Some sb, sess_dns := Some sd, net_out := [SsidMsg ty_fw ty_fw EMS_APP_EVT_FW_RELOAD]\<rparr>"
  have al: "alloc_ok env_1" by (simp add: env_1_def)
  have "fw_start env_1 True ports_1 (Some 6) fw_1 = Some (EMS_OK, ?fw)"
    using b c al fw_1 by (simp add: fw_start_def fw_dns_start_def fw_dns_be_server_def fw_dns_be_client_def session_or_new_def
        ems_session_new_def sb_def sd_def nic_sendmsg_def send_message_def)
  then have "fw_process env_1 True ports_1 (Some 6) EMS_APP_START None mod_1 = Some (Some 0, mod_1\<lparr>fm_run := True, fm_ctx := Some ?fw\<rparr>)"
    using mod_1 by (simp add: fw_process_def fw_run_def)
  moreover have "buf_in s1 = snd (ems_buffer_init True (garbage env_1) EMS_BUFFER_1K)"
    using bind_loop_buf [of ports_1 9300 ?s] b by (simp add: ems_session_init_def)
  then have "map_option (\<lambda>s. (s_port (sock s), evt_cb s, buf_in s)) (sess_bind ?fw) =
      Some (9302, Some FW_DNS_EVT_CB, snd (ems_buffer_init True (garbage env_1) EMS_BUFFER_1K))"
    using p by (simp add: sb_def sess_timeout_set_def sess_event_set_def)
  ultimately show ?thesis using that [of ?fw] by (simp add: uview_def nview_def)
qed

end
