(* ===== verification/Ems_Dns_Flow.thy ===== *)
theory Ems_Dns_Flow
  imports Ems_Fw_Inv
begin

text \<open>
  The way of a request through the forwarder: received from a client, sent to the name server,
  answered and returned to the client; and what happens when there is no answer, or when two clients
  use the same identifier.
\<close>

subsection \<open>Buffers\<close>

lemma buf_len_eq: "buf_ok c \<Longrightarrow> buf_len c = int (length (contents c))"
  by (auto simp: buf_len_def length_contents buf_ok_def)

lemma room_clear: "room (ems_buffer_clear b) = length (bmem b)"
  by (simp add: room_def ems_buffer_clear_def)

lemma bmem_clear [simp]: "bmem (ems_buffer_clear b) = bmem b"
  by (simp add: ems_buffer_clear_def)

lemma contents_clear [simp]: "contents (ems_buffer_clear b) = []"
  by (simp add: contents_def ems_buffer_clear_def)

lemma write_bmem: "buf_ok b \<Longrightarrow> n \<le> length src \<Longrightarrow> length (bmem (snd (ems_buffer_write b src (int n)))) = length (bmem b)"
  by (auto simp: write_eq Let_def buf_ok_def room_def mem_write_def)

lemma init_1k:
  "contents (snd (ems_buffer_init True g EMS_BUFFER_1K)) = []" "room (snd (ems_buffer_init True g EMS_BUFFER_1K)) = 1024"
  "length (bmem (snd (ems_buffer_init True g EMS_BUFFER_1K))) = 1024"
  by (simp_all add: ems_buffer_init_def EMS_BUFFER_1K_def contents_def room_def)

lemma new_buf_len:
  "length (bmem (snd (ems_buffer_write (snd (ems_buffer_init True g EMS_BUFFER_1K)) src (int (length src))))) = 1024"
  by (subst write_bmem [OF buf_ok_init(1) order_refl]) (simp add: ems_buffer_init_def EMS_BUFFER_1K_def)

lemma copy_contents:
  assumes "buf_ok b" and "buf_ok c" and "length (contents c) \<le> room b"
  shows "contents (snd (ems_buffer_write b (contents c) (buf_len c))) = contents b @ contents c"
    and "length (bmem (snd (ems_buffer_write b (contents c) (buf_len c)))) = length (bmem b)"
  using bf.put_fits [OF assms(1,3) prod.collapse [symmetric]] write_bmem [OF assms(1) order_refl]
  by (simp_all add: buf_len_eq [OF assms(2)])

subsection \<open>One request\<close>

lemma find_empty: "users_ok {} fw \<Longrightarrow> u_live fw = [] \<Longrightarrow> dns_find_user fw i = Some None"
proof -
  assume u: "users_ok {} fw" "u_live fw = []"
  then have "hash_nodes (hash_msg fw) = {}" by (auto simp: users_ok_def)
  then have "hash_map (hash_msg fw) (dns_key i) = None" by (simp add: hash_map_None_iff)
  then show ?thesis using users_find [OF u(1)] by simp
qed

lemma client_set_write_some:
  "sess_dns fw \<noteq> None \<Longrightarrow> \<exists>fw' s. fw_dns_client_set_write fw wr = Some fw' \<and> fw' = fw\<lparr>sess_dns := Some s\<rparr>"
  unfolding fw_dns_client_set_write_def Let_def by auto

lemma client_set_read_some:
  "sess_dns fw \<noteq> None \<Longrightarrow> \<exists>fw' s. fw_dns_client_set_read fw rd = Some fw' \<and> fw' = fw\<lparr>sess_dns := Some s\<rparr>"
  unfolding fw_dns_client_set_read_def Let_def by auto

lemma server_set_write_some:
  "sess_bind fw \<noteq> None \<Longrightarrow> \<exists>fw' s. fw_dns_server_set_write fw wr = Some fw' \<and> fw' = fw\<lparr>sess_bind := Some s\<rparr>"
  unfolding fw_dns_server_set_write_def Let_def by auto

text \<open>A request with a new identifier gets a user of its own.\<close>

lemma fwd_new:
  assumes "users_ok {} fw" and "fresh_env e" and "dns_get_short (drop (brd buf) (bmem buf)) 0 = Some (p, i)"
    and "dns_find_user fw i = Some None" and "new_user e (u_live fw) = Some u" and "sess_dns fw \<noteq> None"
  obtains fw' where "fw_dns_fwd e a port buf fw = Some fw'" and "fwd fw' = fwd fw @ [u]" and "wait fw' = wait fw"
    and "outq fw' = outq fw" and "u_live fw' = u # u_live fw"
    and "usr_of fw' u = \<lparr>u_flg = 0, u_port = port, u_addr = a,
      u_buf = snd (ems_buffer_write (snd (ems_buffer_init (alloc_ok e) (garbage e) EMS_BUFFER_1K)) (contents buf) (buf_len buf)),
      u_to = Some (timeout_deadline (now e) 6000)\<rparr>"
    and "\<And>v. v \<noteq> u \<Longrightarrow> usr_of fw' v = usr_of fw v" and "net_out fw' = net_out fw" and "sess_bind fw' = sess_bind fw"
    and "sess_dns fw' \<noteq> None" and "dns_find_user fw' i = Some (Some u)" and "nview fw' = nview fw"
proof -
  obtain fw1 where n: "dns_user_new e fw = (Some u, fw1)" and fw1: "fw1 = fw\<lparr>hash_msg := ems_hash_fd_init (hash_msg fw) u, u_live := u # u_live fw,
      usr_of := (usr_of fw)(u := \<lparr>u_flg = 0, u_port = 0, u_addr = 0,
        u_buf = snd (ems_buffer_init (alloc_ok e) (garbage e) EMS_BUFFER_1K), u_to = None\<rparr>)\<rparr>"
    using assms(5) by (simp add: dns_user_new_def)
  note w = new_ok [OF assms(1,2) n]
  let ?g = "(set_usr u (\<lambda>x. x\<lparr>u_addr := a, u_port := port\<rparr>) fw1)\<lparr>hash_msg := ems_hash_fd_set_key (hash_msg fw1) u (dns_key i)\<rparr>"
  have f: "fw_dns_user_for e a port i fw = Some (Some u, ?g)"
    using assms(4) n by (simp add: fw_dns_user_for_def)
  let ?h = "set_usr u (\<lambda>x. x\<lparr>u_buf := snd (ems_buffer_write (u_buf x) (contents buf) (buf_len buf))\<rparr>) ?g"
  have t: "tab_ok (hash_msg fw1)" using w(1) by (simp add: users_ok_def)
  note k = tab_set_key [OF t w(2), of "dns_key i"]
  have g: "users_ok {u} ?g" using w(1) k(1,2) by (auto simp: users_ok_def set_usr_def)
  have c: "crc_good (hash_msg ?h) u" using k(4) by simp
  obtain r h where hi: "ems_hash_insert (hash_msg ?h) u = Some (r, h)" "tab_ok h"
    "hash_map h = (case hash_map (hash_msg ?h) (fd_key (hash_msg ?h) u) of
      None \<Rightarrow> (hash_map (hash_msg ?h))(fd_key (hash_msg ?h) u \<mapsto> u) | Some b \<Rightarrow> hash_map (hash_msg ?h))"
    using tab_insert_ok [of "hash_msg ?h" u] k(1,4) c by auto
  have "u \<notin> set (u_live fw)" using assms(2,5) by (simp add: fresh_env_def)
  then have t0: "tab_ok (hash_msg fw)" and nodes: "u \<notin> hash_nodes (hash_msg fw)"
    using assms(1) by (auto simp: users_ok_def)
  have "hash_map (hash_msg fw) (dns_key i) = None" using users_find [OF assms(1), of i] assms(4) by simp
  then have "hash_map (hash_msg ?h) (dns_key i) = None"
    using tab_fd_init(3) [OF t0 nodes] k(3) by (simp add: fw1)
  then have m: "hash_map h (dns_key i) = Some u" using hi(3) k(5) by simp
  let ?p = "set_usr u (\<lambda>x. x\<lparr>u_to := Some (timeout_deadline (now e) 6000)\<rparr>) (?h\<lparr>fwd := fwd ?h @ [u], hash_msg := h\<rparr>)"
  have p: "fw_dns_push_fwd e u ?h = Some ?p" using hi(1) by (simp add: fw_dns_push_fwd_def)
  have "sess_dns ?p \<noteq> None" using assms(6) by (simp add: fw1 set_usr_def)
  then obtain fw' s where c': "fw_dns_client_set_write ?p True = Some fw'" "fw' = ?p\<lparr>sess_dns := Some s\<rparr>"
    using client_set_write_some by blast
  have res: "fw_dns_fwd e a port buf fw = Some fw'"
    using assms(3) f p c'(1) by (simp add: fw_dns_fwd_def)
  show ?thesis
  proof (rule that [OF res])
    show "dns_find_user fw' i = Some (Some u)" using m tab_find [OF hi(2)] by (simp add: c'(2) dns_find_user_def)
  qed (simp_all add: c'(2) fw1 set_usr_def nview_def)
qed

text \<open>When every \<open>send\<close> succeeds all waiting requests go out, in order.\<close>

lemma req_loop_all:
  assumes "fwd fw = us" and "distinct us" and "set us \<inter> set (wait fw) = {}" and "set us \<inter> set (outq fw) = {}"
    and "length us \<le> length rets" and "\<forall>r \<in> set rets. 0 < r"
  shows "fwd (fw_dns_fwd_req_loop rets us fw) = [] \<and> wait (fw_dns_fwd_req_loop rets us fw) = wait fw @ us \<and>
    outq (fw_dns_fwd_req_loop rets us fw) = outq fw \<and> u_live (fw_dns_fwd_req_loop rets us fw) = u_live fw \<and>
    hash_msg (fw_dns_fwd_req_loop rets us fw) = hash_msg fw \<and> nview (fw_dns_fwd_req_loop rets us fw) = nview fw \<and>
    socks (fw_dns_fwd_req_loop rets us fw) = socks fw \<and>
    net_out (fw_dns_fwd_req_loop rets us fw) = net_out fw @ map (\<lambda>u. ToServer (contents (u_buf (usr_of fw u)))) us \<and>
    (\<forall>v. usr_of (fw_dns_fwd_req_loop rets us fw) v =
      (if v \<in> set us then (usr_of fw v)\<lparr>u_buf := ems_buffer_clear (u_buf (usr_of fw v))\<rparr> else usr_of fw v))"
  using assms
proof (induction rets us fw rule: fw_dns_fwd_req_loop.induct)
  case (3 ret rets u us fw)
  let ?fw1 = "unlink_user u (set_usr u (\<lambda>x. x\<lparr>u_buf := ems_buffer_clear (u_buf x)\<rparr>)
                 (fw\<lparr>net_out := net_out fw @ [ToServer (contents (u_buf (usr_of fw u)))]\<rparr>))"
  let ?fw2 = "?fw1\<lparr>wait := wait ?fw1 @ [u]\<rparr>"
  have r: "\<not> ret \<le> 0" using "3.prems"(6) by simp
  have u: "u \<notin> set us" "u \<notin> set (wait fw)" "u \<notin> set (outq fw)" using "3.prems"(2,3,4) by auto
  have f: "fwd ?fw2 = us" "wait ?fw2 = wait fw @ [u]" "outq ?fw2 = outq fw"
    using "3.prems"(1) u by (simp_all add: unlink_user_def set_usr_def remove1_idem)
  have "map (\<lambda>v. ToServer (contents (u_buf (usr_of ?fw2 v)))) us = map (\<lambda>v. ToServer (contents (u_buf (usr_of fw v)))) us"
    using u(1) by (intro map_cong refl) (auto simp: unlink_user_def set_usr_def)
  moreover have "usr_of ?fw2 v = (if v = u then (usr_of fw u)\<lparr>u_buf := ems_buffer_clear (u_buf (usr_of fw u))\<rparr> else usr_of fw v)" for v
    by (simp add: unlink_user_def set_usr_def)
  moreover have "u_live ?fw2 = u_live fw" "hash_msg ?fw2 = hash_msg fw" "nview ?fw2 = nview fw" "socks ?fw2 = socks fw"
    "net_out ?fw2 = net_out fw @ [ToServer (contents (u_buf (usr_of fw u)))]"
    by (simp_all add: unlink_user_def set_usr_def nview_def socks_def)
  moreover note "3.IH" [OF r refl f(1)]
  moreover have "set us \<inter> set (wait ?fw2) = {}" "set us \<inter> set (outq ?fw2) = {}" "distinct us" "length us \<le> length rets"
    "\<forall>r \<in> set rets. 0 < r"
    using "3.prems" u f by auto
  ultimately show ?case using r f u by (simp add: Let_def)
qed simp_all

text \<open>When every \<open>sendto\<close> succeeds all replies go out, in order, and their users are released.\<close>

lemma response_loop_all:
  assumes "outq fw = us" and "distinct us" and "length us \<le> length rets" and "\<forall>r \<in> set rets. 0 < r"
  shows "outq (fw_dns_response_loop rets us fw) = [] \<and>
    fwd (fw_dns_response_loop rets us fw) = fold remove1 us (fwd fw) \<and>
    wait (fw_dns_response_loop rets us fw) = fold remove1 us (wait fw) \<and>
    u_live (fw_dns_response_loop rets us fw) = fold remove1 us (u_live fw) \<and>
    socks (fw_dns_response_loop rets us fw) = socks fw \<and>
    net_out (fw_dns_response_loop rets us fw) =
      net_out fw @ map (\<lambda>u. ToClient (u_addr (usr_of fw u)) (u_port (usr_of fw u)) (contents (u_buf (usr_of fw u)))) us"
  using assms
proof (induction rets us fw rule: fw_dns_response_loop.induct)
  case (3 ret rets u us fw)
  let ?x = "usr_of fw u"
  let ?fw1 = "dns_user_free u (unlink_user u (fw\<lparr>net_out := net_out fw @ [ToClient (u_addr ?x) (u_port ?x) (contents (u_buf ?x))]\<rparr>))"
  have r: "\<not> ret \<le> 0" using "3.prems"(4) by simp
  have f: "outq ?fw1 = us" using "3.prems"(1) by (simp add: dns_user_free_def unlink_user_def set_usr_def)
  have "map (\<lambda>u. ToClient (u_addr (usr_of ?fw1 u)) (u_port (usr_of ?fw1 u)) (contents (u_buf (usr_of ?fw1 u)))) us =
      map (\<lambda>u. ToClient (u_addr (usr_of fw u)) (u_port (usr_of fw u)) (contents (u_buf (usr_of fw u)))) us"
    using "3.prems"(2) by (intro map_cong refl) (auto simp: dns_user_free_def unlink_user_def set_usr_def)
  moreover have "fwd ?fw1 = remove1 u (fwd fw)" "wait ?fw1 = remove1 u (wait fw)" "u_live ?fw1 = remove1 u (u_live fw)"
    "socks ?fw1 = socks fw" "net_out ?fw1 = net_out fw @ [ToClient (u_addr ?x) (u_port ?x) (contents (u_buf ?x))]"
    by (simp_all add: dns_user_free_def unlink_user_def set_usr_def socks_def)
  moreover note "3.IH" [OF r refl f]
  ultimately show ?case using r "3.prems" by (simp add: Let_def)
qed simp_all

text \<open>What is sent does not depend on the names.\<close>

lemma net_url [simp]:
  "net_out (set_url w g fw) = net_out fw" "net_out (unlink_url w fw) = net_out fw" "net_out (dns_url_free w fw) = net_out fw"
  "net_out (url_set_free e w app fw) = net_out fw" "net_out (dns_apply_new_addresss e w as fw) = net_out fw"
  "net_out (url_touch w fw) = net_out fw"
  by (simp_all add: set_url_def unlink_url_def dns_url_free_def url_set_free_def dns_apply_new_addresss_def url_touch_def Let_def
      split: prod.splits option.splits)

lemma update_addr_net: "dns_update_url_addr e w mem p hdr fw = Some (r, fw') \<Longrightarrow> net_out fw' = net_out fw"
  by (auto simp: dns_update_url_addr_def bind_eq_Some_conv Let_def split: if_splits)

lemma new_subdomain_net: "new_subdomain e tmp name fw = Some (r, fw') \<Longrightarrow> net_out fw' = net_out fw"
  by (auto simp: new_subdomain_def dns_url_new_def fw_dns_subdomain_append_def bind_eq_Some_conv Let_def
      split: option.splits if_splits)

lemma parse_filter_net:
  assumes "fw_dns_parse_and_filter e mem u hdr fw = Some fw'"
  shows "net_out fw' = net_out fw"
  using assms
proof (cases rule: parse_filter_cases)
  case (found w p k fw1)
  then show ?thesis using update_addr_net by auto
next
  case (new tmp name r fw1 p)
  then show ?thesis using new_subdomain_net update_addr_net by metis
qed simp

text \<open>A reply goes to the user its identifier finds, whatever it means for the names.\<close>

lemma filter_found:
  assumes "fw_inv fw" and "fresh_env e" and "buf_ok buf" and "dns_get_header (drop (brd buf) (bmem buf)) = Some hdr"
    and "dns_find_user fw (dns_id hdr) = Some (Some u)" and "\<not> ems_flag_like (u_flg (usr_of fw u)) FLG_DNS_QUERY_SELF"
    and "length (contents buf) \<le> length (bmem (u_buf (usr_of fw u)))" and "fw_dns_fwd_filter e buf fw = Some fw'"
  shows "fwd fw' = remove1 u (fwd fw)" and "wait fw' = remove1 u (wait fw)" and "outq fw' = outq fw @ [u]"
    and "u_live fw' = u_live fw" and "u_addr (usr_of fw' u) = u_addr (usr_of fw u)" and "u_port (usr_of fw' u) = u_port (usr_of fw u)"
    and "contents (u_buf (usr_of fw' u)) = contents buf" and "\<And>v. v \<noteq> u \<Longrightarrow> usr_of fw' v = usr_of fw v"
    and "net_out fw' = net_out fw" and "sess_bind fw' \<noteq> None"
proof -
  have i: "users_ok {} fw" "names_ok 300 {} fw" using assms(1) by (simp_all add: fw_inv_def)
  note v = users_found [OF i(1) assms(5)]
  let ?b = "snd (ems_buffer_write (ems_buffer_clear (u_buf (usr_of fw u))) (contents buf) (buf_len buf))"
  have b: "contents ?b = contents buf"
    using copy_contents(1) [OF clear_buf_ok assms(3), of "u_buf (usr_of fw u)"] assms(7) by (simp add: room_clear)
  define fw1 where "fw1 = set_usr u (\<lambda>x. x\<lparr>u_to := None,
            u_buf := snd (ems_buffer_write (ems_buffer_clear (u_buf x)) (contents buf) (buf_len buf))\<rparr>) (unlink_user u fw)"
  define fw2 where "fw2 = fw1\<lparr>hash_msg := ems_hash_remove (hash_msg fw1) u\<rparr>"
  have n2: "names_ok 300 {} fw2" using i(2) names_ok_view [of fw2 fw] by (simp add: fw2_def fw1_def)
  obtain fw3 where 3: "(if DNS_RCODE hdr = 0 \<and> 0 < qdcount hdr \<and> 0 < ancount hdr
                  then fw_dns_parse_and_filter e (drop (brd buf) (bmem buf)) u hdr fw2 else Some fw2) = Some fw3"
    and e: "(if ems_flag_like (u_flg (usr_of fw3 u)) FLG_DNS_QUERY_SELF then Some (dns_user_free u fw3)
          else fw_dns_server_set_write (fw3\<lparr>outq := outq fw3 @ [u]\<rparr>) True) = Some fw'"
    using assms(8,4,5) unfolding fw_dns_fwd_filter_def Let_def fw2_def fw1_def by (auto simp: bind_eq_Some_conv)
  have "names_step fw2 fw3 \<and> net_out fw3 = net_out fw2"
    using 3 parse_filter_ok [OF n2 assms(2)] parse_filter_net names_step_refl [OF n2] by (auto split: if_splits)
  then have uv: "uview fw3 = uview fw2" and no: "net_out fw3 = net_out fw2" by (simp_all add: names_step_def)
  have no2: "net_out fw2 = net_out fw" by (simp add: fw2_def fw1_def set_usr_def unlink_user_def)
  have d: "distinct (fwd fw @ wait fw @ outq fw)" using i(1) by (simp add: users_ok_def)
  then have nout: "u \<notin> set (outq fw)" using v(5) by auto
  have u2: "fwd fw2 = remove1 u (fwd fw)" "wait fw2 = remove1 u (wait fw)" "outq fw2 = outq fw" "u_live fw2 = u_live fw"
    "usr_of fw2 = (usr_of fw)(u := (usr_of fw u)\<lparr>u_to := None, u_buf := ?b\<rparr>)"
    using nout by (simp_all add: fw2_def fw1_def set_usr_def unlink_user_def remove1_idem)
  then have "\<not> ems_flag_like (u_flg (usr_of fw3 u)) FLG_DNS_QUERY_SELF" using assms(6) uv by (simp add: uview_def)
  then have s: "fw_dns_server_set_write (fw3\<lparr>outq := outq fw3 @ [u]\<rparr>) True = Some fw'" using e by simp
  then obtain so where f: "fw' = (fw3\<lparr>outq := outq fw3 @ [u]\<rparr>)\<lparr>sess_bind := so\<rparr>" "so \<noteq> None"
    unfolding fw_dns_server_set_write_def by auto
  show "fwd fw' = remove1 u (fwd fw)" "wait fw' = remove1 u (wait fw)" "outq fw' = outq fw @ [u]" "u_live fw' = u_live fw"
    "u_addr (usr_of fw' u) = u_addr (usr_of fw u)" "u_port (usr_of fw' u) = u_port (usr_of fw u)"
    "contents (u_buf (usr_of fw' u)) = contents buf" "\<And>v. v \<noteq> u \<Longrightarrow> usr_of fw' v = usr_of fw v"
    "net_out fw' = net_out fw" "sess_bind fw' \<noteq> None"
    using uv u2 no no2 b f by (simp_all add: uview_def)
qed

subsection \<open>When there is no answer\<close>

lemma timeouts_lists:
  "fwd (fold dns_fwd_timeout us fw) = fold remove1 us (fwd fw)" "wait (fold dns_fwd_timeout us fw) = fold remove1 us (wait fw)"
  "outq (fold dns_fwd_timeout us fw) = fold remove1 us (outq fw)" "u_live (fold dns_fwd_timeout us fw) = fold remove1 us (u_live fw)"
  "net_out (fold dns_fwd_timeout us fw) = net_out fw" "socks (fold dns_fwd_timeout us fw) = socks fw"
  by (induction us arbitrary: fw)
    (simp_all add: dns_fwd_timeout_def dns_user_free_def unlink_user_def set_usr_def socks_def Let_def)

lemma timeouts_usr: "v \<notin> set us \<Longrightarrow> usr_of (fold dns_fwd_timeout us fw) v = usr_of fw v"
  by (induction us arbitrary: fw) (simp_all add: dns_fwd_timeout_def dns_user_free_def unlink_user_def set_usr_def Let_def)

lemma timeouts_inv:
  "fw_inv fw \<Longrightarrow> distinct us \<Longrightarrow> set us \<subseteq> set (u_live fw) \<Longrightarrow> fw_inv (fold dns_fwd_timeout us fw)"
proof (induction us arbitrary: fw)
  case (Cons u us)
  have 1: "fw_inv (dns_fwd_timeout u fw)" using Cons.prems timeout_inv by simp
  have "distinct (u_live fw)" using Cons.prems(1) by (simp add: fw_inv_def users_ok_def)
  then have "set (u_live (dns_fwd_timeout u fw)) = set (u_live fw) - {u}"
    using timeouts_lists(4) [of "[u]" fw] by (simp add: set_remove1_eq)
  then show ?case using Cons.IH [OF 1] Cons.prems(2,3) by auto
qed simp

lemma fold_remove1_disjoint: "set us \<inter> set l = {} \<Longrightarrow> fold remove1 us l = l"
  by (induction us) (simp_all add: remove1_idem)

text \<open>The users whose timer is pending.\<close>

definition live_timers :: "ems_fw \<Rightarrow> addr list" where
  "live_timers fw = filter (\<lambda>u. u_to (usr_of fw u) \<noteq> None) (u_live fw)"

lemma live_timers_set:
  assumes "users_ok {} fw"
  shows "set (live_timers fw) = set (fwd fw) \<union> set (wait fw)" and "distinct (live_timers fw)" and "set (live_timers fw) \<inter> set (outq fw) = {}"
  using assms by (auto simp: live_timers_def users_ok_def)

subsection \<open>A datagram arrives\<close>

definition q_1 :: string where "q_1 = [CHR 0x12, CHR 0x34, CHR 0x01, CHR 0x00]"

definition qbuf_1 :: "char ems_buffer" where "qbuf_1 = \<lparr>bmem = q_1, brd = 0, bwr = 4\<rparr>"

lemma qbuf_1: "buf_ok qbuf_1" "contents qbuf_1 = q_1" "dns_get_short (drop (brd qbuf_1) (bmem qbuf_1)) 0 = Some (2, 0x1234)"
  by (simp add: qbuf_1_def q_1_def buf_ok_def, simp add: qbuf_1_def q_1_def contents_def, code_simp)

lemma started_1:
  obtains fw s where "fw_step\<^sup>*\<^sup>* mod_1 (mod_1\<lparr>fm_run := True, fm_ctx := Some fw\<rparr>)"
    and "uview fw = uview fw_1" and "nview fw = nview fw_1" and "sess_bind fw = Some s" and "evt_cb s = Some FW_DNS_EVT_CB"
    and "buf_in s = snd (ems_buffer_init True (garbage env_1) EMS_BUFFER_1K)" and "sess_dns fw \<noteq> None" and "fw_inv fw"
    and "net_out fw = [SsidMsg ty_fw ty_fw EMS_APP_EVT_FW_RELOAD]"
proof -
  obtain fw where fw: "fw_process env_1 True ports_1 (Some 6) EMS_APP_START None mod_1 = Some (Some 0, mod_1\<lparr>fm_run := True, fm_ctx := Some fw\<rparr>)"
    "uview fw = uview fw_1" "nview fw = nview fw_1" "sess_dns fw \<noteq> None"
    "map_option (\<lambda>s. (s_port (sock s), evt_cb s, buf_in s)) (sess_bind fw) =
      Some (9302, Some FW_DNS_EVT_CB, snd (ems_buffer_init True (garbage env_1) EMS_BUFFER_1K))"
    "net_out fw = [SsidMsg ty_fw ty_fw EMS_APP_EVT_FW_RELOAD]"
    by (rule start_1)
  obtain s where s: "sess_bind fw = Some s" "evt_cb s = Some FW_DNS_EVT_CB"
    "buf_in s = snd (ems_buffer_init True (garbage env_1) EMS_BUFFER_1K)" using fw(5) by auto
  have r: "fw_step\<^sup>*\<^sup>* mod_1 (mod_1\<lparr>fm_run := True, fm_ctx := Some fw\<rparr>)"
    using fw_step.message [OF fresh_env_1 fw(1)] by blast
  have "mod_inv (mod_1\<lparr>fm_run := True, fm_ctx := Some fw\<rparr>)" by (rule fws.reachable_inv [OF mod_1(1) r])
  then have "fw_inv fw" by (simp add: mod_inv_def)
  with that [OF r] fw s show ?thesis by blast
qed

lemma seek_wr_mem [simp]: "brd (snd (ems_buffer_seek_wr b n pos)) = brd b" "bmem (snd (ems_buffer_seek_wr b n pos)) = bmem b"
  by (simp_all add: ems_buffer_seek_wr_def)

lemma dgram_1:
  assumes "b = snd (ems_buffer_init True g EMS_BUFFER_1K)"
  shows "take (nat (buf_left b)) q_1 = q_1" and "dns_get_short (drop (brd (dgram_in b q_1)) (bmem (dgram_in b q_1))) 0 = Some (2, 0x1234)"
proof -
  have b: "b = \<lparr>bmem = map g [0..<1024], brd = 0, bwr = 0\<rparr>" using assms by (simp add: ems_buffer_init_def EMS_BUFFER_1K_def)
  have l: "buf_left b = 1024" by (simp add: b buf_left_def)
  show t: "take (nat (buf_left b)) q_1 = q_1" by (simp add: l q_1_def)
  have "brd (dgram_in b q_1) = 0" "bmem (dgram_in b q_1) = q_1 @ drop (length q_1) (bmem b)"
    unfolding dgram_in_def Let_def t by (simp_all add: b mem_write_def)
  moreover have q: "q_1 = be16 0x1234 @ [CHR 0x01, CHR 0x00]" by code_simp
  ultimately have m: "drop (brd (dgram_in b q_1)) (bmem (dgram_in b q_1)) =
      be16 0x1234 @ [CHR 0x01, CHR 0x00] @ drop (length q_1) (bmem b)" by simp
  show "dns_get_short (drop (brd (dgram_in b q_1)) (bmem (dgram_in b q_1))) 0 = Some (2, 0x1234)"
    unfolding m using get_short_be16 [of "[]" 0 "0x1234"] by (simp add: numeral_2_eq_2)
qed

text \<open>An empty reply to it.\<close>

definition hdr_1 :: dns_header where
  "hdr_1 = \<lparr>dns_id = 0x1234, dns_flg = 0x8180, qdcount = 0, ancount = 0, nscount = 0, arcount = 0\<rparr>"

definition rbuf_1 :: "char ems_buffer" where "rbuf_1 = \<lparr>bmem = dns_put_header hdr_1, brd = 0, bwr = 12\<rparr>"

lemma rbuf_1: "buf_ok rbuf_1" "contents rbuf_1 = dns_put_header hdr_1" "length (contents rbuf_1) = 12"
    "dns_get_header (drop (brd rbuf_1) (bmem rbuf_1)) = Some hdr_1"
proof -
  have l: "length (dns_put_header hdr_1) = 12" by (simp add: dns_put_header_def)
  show "buf_ok rbuf_1" using l by (simp add: rbuf_1_def buf_ok_def)
  show c: "contents rbuf_1 = dns_put_header hdr_1" using l by (simp add: rbuf_1_def contents_def)
  show "length (contents rbuf_1) = 12" using l c by simp
  show "dns_get_header (drop (brd rbuf_1) (bmem rbuf_1)) = Some hdr_1"
    using get_put_header [of hdr_1 "[]"] by (simp add: rbuf_1_def)
qed

text \<open>A client at 10.0.0.5 sends the datagram to the module.\<close>

lemma asked_1:
  obtains m fw where "fw_step\<^sup>*\<^sup>* mod_1 m" and "fm_ctx m = Some fw" and "fm_run m" and "fw_inv fw" and "fwd fw = [1]"
    and "u_live fw = [1]" and "outq fw = []" and "u_addr (usr_of fw 1) = 0x0a000005" and "u_port (usr_of fw 1) = 4000"
    and "dns_find_user fw 0x1234 = Some (Some 1)" and "sess_bind fw \<noteq> None" and "sess_dns fw \<noteq> None"
    and "length (bmem (u_buf (usr_of fw 1))) = 1024"
proof -
  obtain fw s where 1: "fw_step\<^sup>*\<^sup>* mod_1 (mod_1\<lparr>fm_run := True, fm_ctx := Some fw\<rparr>)"
    "uview fw = uview fw_1" "sess_bind fw = Some s" "evt_cb s = Some FW_DNS_EVT_CB"
    "buf_in s = snd (ems_buffer_init True (garbage env_1) EMS_BUFFER_1K)" "sess_dns fw \<noteq> None" "fw_inv fw"
    by (rule started_1)
  let ?b = "dgram_in (buf_in s) q_1"
  let ?fw = "fw\<lparr>sess_bind := Some (s\<lparr>buf_in := ?b\<rparr>)\<rparr>"
  note d = dgram_1 [OF 1(5)]
  have e: "u_live fw = []" "fwd fw = []" "outq fw = []" "hash_msg fw = hash_msg fw_1" using 1(2) fw_1 by (simp_all add: uview_def)
  have u: "users_ok {} ?fw" using 1(7) users_ok_view [of ?fw fw "{}"] by (simp add: fw_inv_def)
  have b: "buf_ok ?b" by (rule dgram_in_ok) (use 1(5) buf_ok_init in simp)
  have f: "dns_find_user ?fw 0x1234 = Some None" using find_empty [OF u] e by simp
  have n: "new_user env_1 (u_live ?fw) = Some 1" by (simp add: env_1_def e)
  have sd: "sess_dns ?fw \<noteq> None" using 1(6) by simp
  obtain fw' where fw': "fw_dns_fwd env_1 0x0a000005 4000 ?b ?fw = Some fw'" "fwd fw' = fwd ?fw @ [1]" "outq fw' = outq ?fw"
    "u_live fw' = 1 # u_live ?fw" "usr_of fw' 1 = \<lparr>u_flg = 0, u_port = 4000, u_addr = 0x0a000005,
      u_buf = snd (ems_buffer_write (snd (ems_buffer_init (alloc_ok env_1) (garbage env_1) EMS_BUFFER_1K)) (contents ?b) (buf_len ?b)),
      u_to = Some (timeout_deadline (now env_1) 6000)\<rparr>" "sess_bind fw' = sess_bind ?fw" "sess_dns fw' \<noteq> None"
    "dns_find_user fw' 0x1234 = Some (Some 1)"
    by (rule fwd_new [OF u fresh_env_1 d(2) f n sd, where a = "0x0a000005" and port = 4000])
  define fw2 where "fw2 = fw'\<lparr>sess_bind := Some (s\<lparr>buf_in := ems_buffer_clear ?b\<rparr>)\<rparr>"
  have q: "take (nat (buf_left (buf_in s))) q_1 \<noteq> []" using d(1) by (simp add: q_1_def)
  have r: "fw_dns_request env_1 [(0x0a000005, 4000, q_1)] fw = Some fw2"
    using 1(3) q fw'(1,6) by (simp add: fw2_def Let_def)
  have "ems_flag_like EMS_EVT_READ EMS_EVT_READ" "\<not> ems_flag_like EMS_EVT_READ EMS_EVT_WRITE" by code_simp+
  then have ev: "fw_dns_evt_cb env_1 True ports_1 False EMS_EVT_READ [(0x0a000005, 4000, q_1)] [] fw = Some fw2"
    using r by (simp add: fw_dns_evt_cb_def)
  let ?m = "mod_1\<lparr>fm_run := True, fm_ctx := Some fw\<rparr>"
  have st: "fw_step ?m (?m\<lparr>fm_ctx := Some fw2\<rparr>)" by (rule fw_step.server [OF fresh_env_1 _ 1(3,4) ev]) simp
  have l: "length (bmem (u_buf (usr_of fw2 1))) = 1024"
    using fw'(5) new_buf_len by (simp add: fw2_def buf_len_eq [OF b] env_1_def)
  show ?thesis
  proof (rule that [of "?m\<lparr>fm_ctx := Some fw2\<rparr>" fw2])
    show "fw_step\<^sup>*\<^sup>* mod_1 (?m\<lparr>fm_ctx := Some fw2\<rparr>)" using 1(1) st by (rule rtranclp.rtrancl_into_rtrancl)
    show "fw_inv fw2" using evt_cb_inv [OF 1(7) fresh_env_1 ev] .
    show "dns_find_user fw2 0x1234 = Some (Some 1)" using fw'(8) by (simp add: fw2_def dns_find_user_def)
  qed (use fw' e l in \<open>simp_all add: fw2_def\<close>)
qed

subsection \<open>Properties\<close>

text \<open>
  C13: In every state the module reaches, each request in memory is in exactly one of the queues
  \<open>fwd\<close>, \<open>wait\<close> and \<open>outq\<close>; its timer is pending exactly while it is in one of the first two; the
  table of the identifiers can be searched and finds only requests of the first two queues, under
  their identifier; and when the module does not run it holds no request, no name and no socket.
\<close>

theorem dns_users_invariant:
  assumes "mod_start s" and "fw_step\<^sup>*\<^sup>* s m" and "fm_ctx m = Some fw"
  shows "distinct (fwd fw @ wait fw @ outq fw) \<and> set (fwd fw @ wait fw @ outq fw) = set (u_live fw) \<and>
    (\<forall>u \<in> set (u_live fw). u_to (usr_of fw u) \<noteq> None \<longleftrightarrow> u \<in> set (fwd fw) \<union> set (wait fw)) \<and>
    (\<exists>r. dns_find_user fw i = Some r \<and>
      (\<forall>u. r = Some u \<longrightarrow> u \<in> set (fwd fw) \<union> set (wait fw) \<and> fd_key (hash_msg fw) u = dns_key i)) \<and>
    (\<not> fm_run m \<longrightarrow> u_live fw = [] \<and> w_live fw = [] \<and> sess_bind fw = None \<and> sess_dns fw = None)"
proof -
  have i: "fw_inv fw" and q: "\<not> fm_run m \<longrightarrow> quiet fw"
    using fws.reachable_inv [OF assms(1,2)] assms(3) by (simp_all add: mod_inv_def)
  then have u: "users_ok {} fw" by (simp add: fw_inv_def)
  show ?thesis using users_find [OF u, of i] users_found [OF u, of i] u q
    by (simp add: quiet_def) (simp add: users_ok_def)
qed

theorem dns_users_invariant_witness:
  "\<exists>(m :: fw_mod) fw. fm_ctx m = Some fw \<and> u_live fw = [1] \<and> distinct (fwd fw @ wait fw @ outq fw) \<and> u_to (usr_of fw 1) \<noteq> None"
proof -
  obtain m fw where a: "fw_step\<^sup>*\<^sup>* mod_1 m" "fm_ctx m = Some fw" "fwd fw = [1]" "u_live fw = [1]" by (rule asked_1)
  from dns_users_invariant [OF mod_1(1) a(1,2), of 0] a(3,4)
  have "distinct (fwd fw @ wait fw @ outq fw) \<and> u_to (usr_of fw 1) \<noteq> None" by simp
  then show ?thesis using a(2,4) by (intro exI [of _ m] exI [of _ fw]) simp
qed

text \<open>
  C26: The names of the module are well-formed in every state it reaches: each is in exactly one of the
  two lists; the counter is the length of the list \<open>subdomain\<close>, which never has more than 300 names;
  the flag \<open>FLG_DNS_IS_SUBDOMAIN\<close> says which of the lists a name is in; and the number of addresses
  of a name is the length of its array, so that the loops over the array stay inside it.
\<close>

theorem dns_names_invariant:
  assumes "mod_start s" and "fw_step\<^sup>*\<^sup>* s m" and "fm_ctx m = Some fw"
  shows "distinct (whitelist fw @ subdomain fw) \<and> set (whitelist fw @ subdomain fw) = set (w_live fw) \<and>
    n_subdomain fw = int (length (subdomain fw)) \<and> length (subdomain fw) \<le> 300 \<and>
    (\<forall>w \<in> set (w_live fw). (ems_flag_like (w_flg (url_of fw w)) FLG_DNS_IS_SUBDOMAIN \<longleftrightarrow> w \<in> set (subdomain fw)) \<and>
      n_addr (url_of fw w) = (case w_addr (url_of fw w) of None \<Rightarrow> 0 | Some as \<Rightarrow> int (length as)))"
proof -
  have "names_ok 300 {} fw"
    using fws.reachable_inv [OF assms(1,2)] assms(3) by (simp add: mod_inv_def fw_inv_def)
  then show ?thesis by (simp add: names_ok_def addr_ok_def)
qed

theorem dns_names_invariant_witness:
  "\<exists>(m :: fw_mod) fw. fm_ctx m = Some fw \<and> fm_run m \<and> n_subdomain fw = int (length (subdomain fw)) \<and> length (subdomain fw) \<le> 300"
proof -
  obtain m fw where a: "fw_step\<^sup>*\<^sup>* mod_1 m" "fm_ctx m = Some fw" "fm_run m" by (rule asked_1)
  then show ?thesis using dns_names_invariant [OF mod_1(1) a(1,2)] by (intro exI [of _ m] exI [of _ fw]) simp
qed

text \<open>
  C14: No request stays for ever. When the timers that are pending expire and the client socket takes
  the replies that are ready, these are sent, each to the client of its request, and no request is
  left in memory.
\<close>

theorem dns_requests_drain:
  assumes "mod_start s" and "fw_step\<^sup>*\<^sup>* s m" and "fm_ctx m = Some fw" and "sess_bind fw \<noteq> None"
    and "length (outq fw) \<le> length rets" and "\<forall>r \<in> set rets. 0 < r"
  shows "\<exists>fw'. fw_dns_response rets (fold dns_fwd_timeout (live_timers fw) fw) = Some fw' \<and>
    u_live fw' = [] \<and> fwd fw' = [] \<and> wait fw' = [] \<and> outq fw' = [] \<and>
    net_out fw' = net_out fw @ map (\<lambda>u. ToClient (u_addr (usr_of fw u)) (u_port (usr_of fw u)) (contents (u_buf (usr_of fw u)))) (outq fw)"
proof -
  have i: "fw_inv fw" using fws.reachable_inv [OF assms(1,2)] assms(3) by (simp add: mod_inv_def)
  then have u: "users_ok {} fw" by (simp add: fw_inv_def)
  note p = live_timers_set [OF u]
  let ?fw1 = "fold dns_fwd_timeout (live_timers fw) fw"
  let ?fw2 = "fw_dns_response_loop rets (outq fw) ?fw1"
  have d: "distinct (fwd fw)" "distinct (wait fw)" "distinct (outq fw)" using u by (auto simp: users_ok_def)
  have live: "set (live_timers fw) \<subseteq> set (u_live fw)" by (auto simp: live_timers_def)
  have o1: "outq ?fw1 = outq fw" using p(3) by (simp add: timeouts_lists fold_remove1_disjoint)
  have "set (fold remove1 (live_timers fw) (fwd fw)) = {}" using set_fold_remove1 [OF d(1), of "live_timers fw"] unfolding p(1) by auto
  moreover have "set (fold remove1 (live_timers fw) (wait fw)) = {}" using set_fold_remove1 [OF d(2), of "live_timers fw"] unfolding p(1) by auto
  ultimately have "fwd ?fw1 = []" "wait ?fw1 = []" by (simp_all add: timeouts_lists)
  moreover note r = response_loop_all [OF o1 d(3) assms(5,6)]
  ultimately have q: "fwd ?fw2 = []" "wait ?fw2 = []" "outq ?fw2 = []" by (simp_all add: fold_remove1_Nil)
  have "fw_inv ?fw1" by (rule timeouts_inv [OF i p(2) live])
  then have "users_ok {} ?fw2" using response_loop_ok [of ?fw1 "outq fw" rets] o1 by (simp add: fw_inv_def)
  then have l: "u_live ?fw2 = []" using users_gone q by blast
  have nt: "v \<notin> set (live_timers fw)" if "v \<in> set (outq fw)" for v using p(3) that by auto
  have m: "map (\<lambda>u. ToClient (u_addr (usr_of ?fw1 u)) (u_port (usr_of ?fw1 u)) (contents (u_buf (usr_of ?fw1 u)))) (outq fw) =
      map (\<lambda>u. ToClient (u_addr (usr_of fw u)) (u_port (usr_of fw u)) (contents (u_buf (usr_of fw u)))) (outq fw)"
    by (intro map_cong refl) (simp add: timeouts_usr nt)
  have "socks ?fw2 = socks fw" using r timeouts_lists(6) by simp
  then have "sess_bind ?fw2 \<noteq> None" using assms(4) by (simp add: socks_def)
  from server_set_write_some [OF this, of False] obtain fw' t
    where s: "fw_dns_server_set_write ?fw2 False = Some fw'" "fw' = ?fw2\<lparr>sess_bind := Some t\<rparr>" by blast
  have "fw_dns_response rets ?fw1 = Some fw'" using s(1) q(3) o1 by (simp add: fw_dns_response_def Let_def)
  then show ?thesis using q l r m by (intro exI [of _ fw']) (simp add: s(2) timeouts_lists)
qed

theorem dns_requests_drain_witness:
  "\<exists>fw fw'. fwd fw = [1] \<and> fw_dns_response [] (fold dns_fwd_timeout (live_timers fw) fw) = Some fw' \<and> u_live fw' = []"
proof -
  obtain m fw where a: "fw_step\<^sup>*\<^sup>* mod_1 m" "fm_ctx m = Some fw" "fwd fw = [1]" "outq fw = []" "sess_bind fw \<noteq> None" by (rule asked_1)
  from dns_requests_drain [OF mod_1(1) a(1,2,5), of "[]"] a(3,4) show ?thesis by auto
qed



text \<open>
  C28: A datagram whose identifier is in use takes over the request that uses it, whatever the address
  it comes from: the datagram replaces the stored one, and the address and the port the reply goes to
  remain those of the first client. The second client gets no user and no answer.
\<close>

theorem dns_id_collision:
  assumes "fw_inv fw" and "dns_get_short (drop (brd buf) (bmem buf)) 0 = Some (p, i)" and "dns_find_user fw i = Some (Some u)"
    and "sess_dns fw \<noteq> None" and "buf_ok buf" and "length (contents buf) \<le> length (bmem (u_buf (usr_of fw u)))"
  shows "\<exists>fw'. fw_dns_fwd e a port buf fw = Some fw' \<and> fwd fw' = remove1 u (fwd fw) @ [u] \<and> wait fw' = remove1 u (wait fw) \<and>
    u_live fw' = u_live fw \<and> u_addr (usr_of fw' u) = u_addr (usr_of fw u) \<and> u_port (usr_of fw' u) = u_port (usr_of fw u) \<and>
    contents (u_buf (usr_of fw' u)) = contents buf \<and> (\<forall>v. v \<noteq> u \<longrightarrow> usr_of fw' v = usr_of fw v)"
proof -
  have ok: "users_ok {} fw" using assms(1) by (simp add: fw_inv_def)
  note v = users_found [OF ok assms(3)]
  define fw1 where "fw1 = set_usr u (\<lambda>x. x\<lparr>u_buf := ems_buffer_clear (u_buf x), u_to := None\<rparr>) (unlink_user u fw)"
  define fw2 where "fw2 = set_usr u (\<lambda>x. x\<lparr>u_buf := snd (ems_buffer_write (u_buf x) (contents buf) (buf_len buf))\<rparr>) fw1"
  have f: "fw_dns_user_for e a port i fw = Some (Some u, fw1)" using assms(3) by (simp add: fw_dns_user_for_def fw1_def)
  have 1: "users_ok {u} fw1" unfolding fw1_def
    by (rule set_usr_detached [OF unlink_ok [OF ok v(3)]]) (simp add: clear_buf_ok)
  have 2: "users_ok {u} fw2" unfolding fw2_def
    by (rule set_usr_detached [OF 1]) (use write_contents_ok [OF _ assms(5)] in auto)
  have c: "crc_good (hash_msg fw2) u" using v(4) by (simp add: fw2_def fw1_def)
  obtain fw3 where 3: "fw_dns_push_fwd e u fw2 = Some fw3" "fwd fw3 = fwd fw2 @ [u]" "wait fw3 = wait fw2" "u_live fw3 = u_live fw2"
    "usr_of fw3 = (usr_of fw2)(u := (usr_of fw2 u)\<lparr>u_to := Some (timeout_deadline (now e) 6000)\<rparr>)" "sess_dns fw3 = sess_dns fw2"
    by (rule push_fwd_ok [OF 2 c])
  have "sess_dns fw3 \<noteq> None" using assms(4) 3(6) by (simp add: fw2_def fw1_def set_usr_def unlink_user_def)
  from client_set_write_some [OF this] obtain fw' s
    where 4: "fw_dns_client_set_write fw3 True = Some fw'" "fw' = fw3\<lparr>sess_dns := Some s\<rparr>" by blast
  have "contents (snd (ems_buffer_write (ems_buffer_clear (u_buf (usr_of fw u))) (contents buf) (buf_len buf))) = contents buf"
    using copy_contents(1) [OF clear_buf_ok assms(5)] assms(6) by (simp add: room_clear)
  moreover have "fw_dns_fwd e a port buf fw = Some fw'" using assms(2) f 3(1) 4(1) by (simp add: fw_dns_fwd_def fw2_def)
  ultimately show ?thesis using 3 by (intro exI [of _ fw']) (simp add: 4(2) fw2_def fw1_def set_usr_def unlink_user_def)
qed

theorem dns_id_collision_witness:
  "\<exists>fw fw'. u_addr (usr_of fw 1) = 0x0a000005 \<and> fw_dns_fwd env_1 0x0a000006 4001 qbuf_1 fw = Some fw' \<and>
    u_live fw' = [1] \<and> u_addr (usr_of fw' 1) = 0x0a000005"
proof -
  obtain m fw where a: "fw_inv fw" "u_live fw = [1]" "u_addr (usr_of fw 1) = 0x0a000005" "dns_find_user fw 0x1234 = Some (Some 1)"
    "sess_dns fw \<noteq> None" "length (bmem (u_buf (usr_of fw 1))) = 1024"
    by (rule asked_1)
  have "length (contents qbuf_1) \<le> length (bmem (u_buf (usr_of fw 1)))" using a(6) qbuf_1(2) by (simp add: q_1_def)
  from dns_id_collision [OF a(1) qbuf_1(3) a(4,5) qbuf_1(1) this, of env_1 "0x0a000006" 4001] a(2,3) show ?thesis by auto
qed

end
