(* ===== verification/Ems_Radius.thy ===== *)
theory Ems_Radius
  imports Ems_Fw
begin

text \<open>
  The RADIUS client of a wireless interface: the state machine of \<^verbatim>\<open>c/ems/src/core/ems_radius.c\<close>. A device
  is a user of the portal: it is authenticated, then accounted while it answers pings, and finally logged
  out; the firewall lets it through from the moment the server accepts it.

  Devices are addresses, \<open>dev_of\<close> gives the fields of a device and \<open>dev_live\<close> the addresses in use. The
  result \<open>None\<close> of an operation stands for the use of a null pointer, of a device or session that was
  released, or of memory outside a buffer. The two sessions of a device, to the server and for the ping,
  are inside it; a pointer into a buffer is its offset. What is sent to other modules and on the sockets
  is appended to \<open>ra_out\<close>.

  The freeradius library that packs and checks messages is a parameter, as are the name service, the
  sockets, the clock, the random numbers and the text the accounting command prints.
\<close>

subsection \<open>State and environment\<close>

datatype ems_status = st_init | st_stopped | st_normal | st_hb | st_reg | st_applist | st_download | st_install
  | st_err | st_connect | st_getconfig | st_getupdatefile | st_auth | st_acct | st_acct_stop

abbreviation (input) "st_start \<equiv> st_init"

definition status_no :: "ems_status \<Rightarrow> int" where
  "status_no st = (case st of st_init \<Rightarrow> 0 | st_stopped \<Rightarrow> 1 | st_normal \<Rightarrow> 2 | st_hb \<Rightarrow> 3 | st_reg \<Rightarrow> 4 | st_applist \<Rightarrow> 5
    | st_download \<Rightarrow> 6 | st_install \<Rightarrow> 7 | st_err \<Rightarrow> 8 | st_connect \<Rightarrow> 9 | st_getconfig \<Rightarrow> 10 | st_getupdatefile \<Rightarrow> 11
    | st_auth \<Rightarrow> 12 | st_acct \<Rightarrow> 13 | st_acct_stop \<Rightarrow> 14)"

definition RADIUS_ERR_SUCCESS :: int where "RADIUS_ERR_SUCCESS = 0"
definition RADIUS_ERR_CANNOT_CONNECT :: int where "RADIUS_ERR_CANNOT_CONNECT = 0x4000"
definition RADIUS_ERR_REJECT :: int where "RADIUS_ERR_REJECT = 0x4001"
definition RADIUS_ERR_NETWORK :: int where "RADIUS_ERR_NETWORK = 0x4002"
definition PING_TIMEOUT :: int where "PING_TIMEOUT = 2000"
definition PING_RETRYTIMES :: int where "PING_RETRYTIMES = 3"
definition EMS_CONTINUE :: int where "EMS_CONTINUE = 0xff11aabb - 2 ^ 32"
definition EMS_BUFFER_INSUFFICIENT :: int where "EMS_BUFFER_INSUFFICIENT = 0xff11aabd - 2 ^ 32"
definition EMS_APP_CMD_RADIUS_AUTH_RSP :: nat where "EMS_APP_CMD_RADIUS_AUTH_RSP = 0x8001"
definition EMS_APP_CMD_PORTAL_LOGOUT :: nat where "EMS_APP_CMD_PORTAL_LOGOUT = 0x0003"

text \<open>A value of the library: a text with its length, or a number.\<close>

datatype vval = VStr string | VInt "32 word"

type_synonym vpairs = "(nat \<times> vval) list"

record ems_device =
  sess_dev :: "ems_session option"
  d_sess :: "ems_session option"
  du_name :: string
  du_pass :: string
  du_mac :: string
  du_ip :: string
  du_sessid :: string
  du_start :: timeval
  in_bytes :: int
  out_bytes :: int
  in_pkgs :: int
  out_pkgs :: int
  retry_times :: int
  retry_timeout :: int
  report_period :: int
  disconnect :: int
  disconnect_server :: int
  vector :: string
  total_len :: int
  reason :: int
  d_err :: int
  ntrans :: "32 word"
  ident :: int
  vp_out :: vpairs
  vp_in :: vpairs
  auth_out :: "nat option"
  auth_in :: "nat option"
  d_st :: ems_status

text \<open>The two sessions of a device.\<close>

datatype sess_id = SRad | SPing

datatype rad_evt =
    NicSend nat nat nat json
  | NicProcess nat nat nat json
  | Sent sess_id string

record ems_radius =
  dev_entry :: "addr list"
  rh :: bool
  seq_nbr :: "32 word"
  lasterr :: int
  secret :: string
  auth_addr :: string
  auth_port :: int
  acct_addr :: string
  acct_port :: int
  ra_retry_times :: int
  ra_retry_timeout :: int
  ra_report_period :: int
  ra_disconnect :: int
  dev_of :: "addr \<Rightarrow> ems_device"
  dev_live :: "addr list"
  ra_out :: "rad_evt list"

record rad_iface =
  i_bssid :: string
  i_ssid :: string
  i_addr :: string
  i_secret :: string
  i_auth_port :: int
  i_acct_port :: int
  i_acct_period :: int
  i_offline :: int
  i_enable :: bool

record rad_env =
  iface :: rad_iface
  r_now :: timeval
  new_device :: "addr list \<Rightarrow> addr option"
  r_alloc :: bool
  r_garbage :: "nat \<Rightarrow> char"
  gethost :: "string \<Rightarrow> 32 word option"
  new_socket :: int
  connect_ok :: "32 word \<Rightarrow> int \<Rightarrow> bool"
  icmp_proto :: bool
  raw_socket :: int
  local_addr :: "32 word"
  random_vector :: string
  random_num :: int
  r_core_sn :: string
  r_getpid :: nat
  iptaccount :: "string \<Rightarrow> string \<Rightarrow> string"
  rc_avpair_add :: "vpairs \<Rightarrow> nat \<Rightarrow> vval \<Rightarrow> int \<Rightarrow> vpairs"
  rc_pack_list :: "vpairs \<Rightarrow> string \<Rightarrow> string \<Rightarrow> string"
  rc_hmac_md5 :: "string \<Rightarrow> string \<Rightarrow> string"
  rc_md5_calc :: "string \<Rightarrow> string"
  rc_check_reply :: "string \<Rightarrow> int \<Rightarrow> string \<Rightarrow> string \<Rightarrow> char \<Rightarrow> int"
  rc_avpair_gen :: "string \<Rightarrow> vpairs"
  rc_dict_ok :: bool

definition DEV_EVT_CB :: nat where "DEV_EVT_CB = 1"
definition DEV_TIMEOUT_CB :: nat where "DEV_TIMEOUT_CB = 2"

subsection \<open>Devices and their sessions\<close>

definition dev_get :: "addr \<Rightarrow> ems_radius \<Rightarrow> ems_device option" where
  "dev_get d ra = (if d \<in> set (dev_live ra) then Some (dev_of ra d) else None)"

definition dev_put :: "addr \<Rightarrow> ems_device \<Rightarrow> ems_radius \<Rightarrow> ems_radius" where
  "dev_put d x ra = ra\<lparr>dev_of := (dev_of ra)(d := x)\<rparr>"

definition dev_upd :: "addr \<Rightarrow> (ems_device \<Rightarrow> ems_device) \<Rightarrow> ems_radius \<Rightarrow> ems_radius option" where
  "dev_upd d f ra = map_option (\<lambda>x. dev_put d (f x) ra) (dev_get d ra)"

definition dev_sess :: "sess_id \<Rightarrow> ems_device \<Rightarrow> ems_session option" where
  "dev_sess s x = (case s of SRad \<Rightarrow> d_sess x | SPing \<Rightarrow> sess_dev x)"

definition put_sess :: "sess_id \<Rightarrow> ems_session \<Rightarrow> ems_device \<Rightarrow> ems_device" where
  "put_sess s t x = (case s of SRad \<Rightarrow> x\<lparr>d_sess := Some t\<rparr> | SPing \<Rightarrow> x\<lparr>sess_dev := Some t\<rparr>)"

definition sess_get :: "addr \<Rightarrow> sess_id \<Rightarrow> ems_radius \<Rightarrow> ems_session option" where
  "sess_get d s ra = do { x \<leftarrow> dev_get d ra; dev_sess s x }"

definition sess_upd :: "addr \<Rightarrow> sess_id \<Rightarrow> (ems_session \<Rightarrow> ems_session) \<Rightarrow> ems_radius \<Rightarrow> ems_radius option" where
  "sess_upd d s f ra = do { t \<leftarrow> sess_get d s ra; dev_upd d (put_sess s (f t)) ra }"

text \<open>An event and a timer of a session at once, as the code sets them.\<close>

definition sess_watch :: "rad_env \<Rightarrow> flags \<Rightarrow> int \<Rightarrow> ems_session \<Rightarrow> ems_session" where
  "sess_watch e flg ms t = sess_timeout_set (r_now e) (sess_event_set t flg DEV_EVT_CB) ms DEV_TIMEOUT_CB"

definition ems_device_new :: ems_device where
  "ems_device_new =
    \<lparr>sess_dev = None, d_sess = None, du_name = [], du_pass = [], du_mac = [], du_ip = [], du_sessid = [],
     du_start = \<lparr>tv_sec = 0, tv_usec = 0\<rparr>, in_bytes = 0, out_bytes = 0, in_pkgs = 0, out_pkgs = 0,
     retry_times = 0, retry_timeout = 0, report_period = 0, disconnect = 0, disconnect_server = 0,
     vector = replicate 16 (char_of (0 :: nat)), total_len = 0, reason = 0, d_err = 0, ntrans = 0, ident = 0,
     vp_out = [], vp_in = [], auth_out = None, auth_in = None, d_st = st_stopped\<rparr>"

text \<open>\<open>ems_device_destroy\<close> after \<open>ems_queue_remove\<close>; the sessions go with the device.\<close>

definition ems_device_destroy :: "addr \<Rightarrow> ems_radius \<Rightarrow> ems_radius" where
  "ems_device_destroy d ra = ra\<lparr>dev_live := remove1 d (dev_live ra)\<rparr>"

subsection \<open>The messages to the server\<close>

definition ra_emit :: "rad_evt \<Rightarrow> ems_radius \<Rightarrow> ems_radius" where
  "ra_emit m ra = ra\<lparr>ra_out := ra_out ra @ [m]\<rparr>"

definition ems_mac_update :: "string \<Rightarrow> string" where
  "ems_mac_update src = map (\<lambda>c. if c = CHR '':'' then CHR ''-'' else c) src"

text \<open>The copy goes into an array of 32 characters.\<close>

definition mac_copy :: "string \<Rightarrow> string option" where
  "mac_copy src = (if length src < 32 then Some (ems_mac_update src) else None)"

definition vp_str :: "rad_env \<Rightarrow> nat \<Rightarrow> string \<Rightarrow> vpairs \<Rightarrow> vpairs" where
  "vp_str e a s vp = rc_avpair_add e vp a (VStr s) (int (length s))"

definition vp_int :: "rad_env \<Rightarrow> nat \<Rightarrow> 32 word \<Rightarrow> int \<Rightarrow> vpairs \<Rightarrow> vpairs" where
  "vp_int e a n l vp = rc_avpair_add e vp a (VInt n) l"

text \<open>The attributes that every request carries: where the user is and by which access point.\<close>

definition ra_nas_avpairs :: "rad_env \<Rightarrow> ems_device \<Rightarrow> vpairs \<Rightarrow> vpairs option" where
  "ra_nas_avpairs e x vp =
    do {
      apmac \<leftarrow> mac_copy (i_bssid (iface e));
      mac \<leftarrow> mac_copy (du_mac x);
      Some (fold (\<lambda>f. f)
        [vp_int e 4 (local_addr e) 0, vp_int e 5 0 (-1), vp_int e 61 19 (-1), vp_int e 8 (inet_addr (du_ip x)) 0,
         vp_str e 30 (take 252 (apmac @ '':'' @ i_ssid (iface e))), vp_str e 31 mac, vp_str e 32 (take 252 (r_core_sn e))] vp)
    }"

definition ra_fill_auth_avpairs :: "rad_env \<Rightarrow> ems_device \<Rightarrow> vpairs option" where
  "ra_fill_auth_avpairs e x =
    do {
      vp \<leftarrow> ra_nas_avpairs e x (vp_str e 2 (du_pass x) (vp_str e 1 (du_name x) (vp_out x)));
      Some (rc_avpair_add e vp 80 (VStr (replicate 16 (char_of (0 :: nat)))) 16)
    }"

definition ra_fill_auth_request_info :: "rad_env \<Rightarrow> addr \<Rightarrow> ems_radius \<Rightarrow> ems_radius option" where
  "ra_fill_auth_request_info e d ra =
    do {
      x \<leftarrow> dev_get d ra;
      t \<leftarrow> d_sess x;
      let b = ems_buffer_clear (buf_out t);
      let vec = random_vector e;
      vp \<leftarrow> ra_fill_auth_avpairs e x;
      let data = rc_pack_list e vp (secret ra) vec;
      let total = length data + 20;
      let pkt = char_of (1 :: nat) # char_of (unat (seq_nbr ra)) # be16 (word_of_nat total) @ vec @ data;
      let sign = take 16 (rc_hmac_md5 e pkt (secret ra));
      mem \<leftarrow> mem_put (bmem b) 0 (take (total - 16) pkt @ sign);
      let b1 = snd (ems_buffer_seek_wr (b\<lparr>bmem := mem\<rparr>) (int total) 2);
      Some (dev_put d (x\<lparr>d_sess := Some (t\<lparr>buf_out := b1\<rparr>), vector := vec, auth_out := Some 0, vp_out := vp,
        total_len := int total\<rparr>) (ra\<lparr>seq_nbr := seq_nbr ra + 1\<rparr>))
    }"

text \<open>
  The account of the traffic of a user as the command prints it: four numbers separated by semicolons.
  A number that is missing leaves a variable without a value.
\<close>

definition scan_int :: "string \<Rightarrow> (int \<times> string) option" where
  "scan_int s =
    (let t = dropWhile is_space s;
         neg = (t \<noteq> [] \<and> hd t = CHR ''-'');
         u = (if t \<noteq> [] \<and> (hd t = CHR ''-'' \<or> hd t = CHR ''+'') then tl t else t);
         ds = takeWhile (\<lambda>c. digit_val c < 10) u
     in if ds = [] then None
        else Some ((if neg then - 1 else 1) * int (digits_val 10 0 ds), drop (length ds) u))"

fun scan_list :: "nat \<Rightarrow> string \<Rightarrow> int list option" where
  "scan_list 0 s = Some []"
| "scan_list (Suc n) s =
    do {
      (v, rest) \<leftarrow> scan_int s;
      vs \<leftarrow> (if n = 0 then Some [] else if rest \<noteq> [] \<and> hd rest = CHR '';'' then scan_list n (tl rest) else None);
      Some (v # vs)
    }"

definition ra_update_user_traffic :: "rad_env \<Rightarrow> ems_device \<Rightarrow> ems_device option" where
  "ra_update_user_traffic e x =
    (let buf = take 255 (iptaccount e (du_mac x) (du_ip x))
     in if buf = [] then Some x
        else (case scan_list 4 buf of
                Some [src_pkgs, src_bytes, dst_pkgs, dst_bytes] \<Rightarrow>
                  Some (x\<lparr>in_bytes := in_bytes x + dst_bytes, in_pkgs := in_pkgs x + dst_pkgs,
                    out_bytes := out_bytes x + src_bytes, out_pkgs := out_pkgs x + src_pkgs\<rparr>)
              | _ \<Rightarrow> None))"

definition int_string :: "int \<Rightarrow> string" where
  "int_string i = (if i < 0 then CHR ''-'' # dec_string (nat (- i)) else dec_string (nat i))"

definition session_id :: "rad_env \<Rightarrow> string" where
  "session_id e = take 252 (FW_PREFIX @ dec_string (r_getpid e) @ int_string (tv_sec (r_now e)) @ int_string (tv_usec (r_now e)))"

text \<open>The two halves of a counter of bytes and the low half of a counter of packets.\<close>

definition vp_counters :: "rad_env \<Rightarrow> nat \<Rightarrow> nat \<Rightarrow> nat \<Rightarrow> int \<Rightarrow> int \<Rightarrow> vpairs \<Rightarrow> vpairs" where
  "vp_counters e octets gigawords packets b n vp =
    vp_int e packets (word_of_int n) 0 (vp_int e gigawords (word_of_int (b div 2 ^ 32)) 0 (vp_int e octets (word_of_int b) 0 vp))"

definition ra_fill_acct_avpairs :: "rad_env \<Rightarrow> ems_device \<Rightarrow> ems_device option" where
  "ra_fill_acct_avpairs e x0 =
    do {
      vp \<leftarrow> ra_nas_avpairs e x0 (vp_str e 1 (du_name x0) (vp_out x0));
      let x = (if du_sessid x0 = [] then x0\<lparr>du_start := r_now e, du_sessid := session_id e\<rparr> else x0);
      let vp1 = vp_int e 40 (word_of_int (reason x)) 0 (vp_str e 44 (take 252 (du_sessid x)) vp);
      let vp2 = (if reason x = 2 then
          vp_int e 49 (word_of_int (reason x)) 0 (vp_int e 46 (word_of_int \<bar>tv_sec (r_now e) - tv_sec (du_start x)\<bar>) 0 vp1)
        else vp1);
      if reason x = 2 \<or> reason x = 3 then
        do {
          y \<leftarrow> ra_update_user_traffic e x;
          Some (y\<lparr>vp_out := vp_counters e 43 53 48 (out_bytes y) (out_pkgs y)
            (vp_counters e 42 52 47 (in_bytes y) (in_pkgs y) vp2)\<rparr>)
        }
      else Some (x\<lparr>vp_out := vp2\<rparr>)
    }"

text \<open>
  The secret is put behind the message while the authenticator is computed, which then replaces the zeros.
\<close>

definition ra_fill_acct_info :: "rad_env \<Rightarrow> addr \<Rightarrow> ems_radius \<Rightarrow> ems_radius option" where
  "ra_fill_acct_info e d ra =
    do {
      x \<leftarrow> dev_get d ra;
      t \<leftarrow> d_sess x;
      let b = ems_buffer_clear (buf_out t);
      y \<leftarrow> ra_fill_acct_avpairs e (x\<lparr>vp_out := [], vp_in := [], auth_out := Some 0\<rparr>);
      let data = rc_pack_list e (vp_out y) (secret ra) (take 16 (drop 4 (bmem b)));
      let total = length data + 20;
      let pkt = char_of (4 :: nat) # char_of (unat (seq_nbr ra)) # be16 (word_of_nat total)
        @ replicate 16 (char_of (0 :: nat)) @ data;
      mem1 \<leftarrow> mem_put (bmem b) 0 pkt;
      mem2 \<leftarrow> mem_put mem1 total (secret ra);
      let vec = take 16 (rc_md5_calc e (take (total + length (secret ra)) mem2));
      mem3 \<leftarrow> mem_put mem2 4 vec;
      let b1 = snd (ems_buffer_seek_wr (b\<lparr>bmem := mem3\<rparr>) (int total) 2);
      Some (dev_put d (y\<lparr>d_sess := Some (t\<lparr>buf_out := b1\<rparr>), vector := vec, total_len := int total\<rparr>)
        (ra\<lparr>seq_nbr := seq_nbr ra + 1\<rparr>))
    }"

subsection \<open>Changes of the status\<close>

definition user_obj :: "ems_device \<Rightarrow> int \<Rightarrow> json" where
  "user_obj x code = JObj [(''username'', JStr (du_name x)), (''userip'', JStr (du_ip x)), (''usermac'', JStr (du_mac x)),
    (''error_code'', JInt code)]"

definition device_obj :: "ems_device \<Rightarrow> bool \<Rightarrow> json" where
  "device_obj x add = JObj [(''userip'', JStr (du_ip x)), (''usermac'', JStr (du_mac x)), (''add'', JInt (of_bool add))]"

definition ra_device_firewall_set_rules :: "addr \<Rightarrow> bool \<Rightarrow> ems_radius \<Rightarrow> ems_radius option" where
  "ra_device_firewall_set_rules d add ra =
    do {
      x \<leftarrow> dev_get d ra;
      Some (ra_emit (NicProcess ty_radius ty_fw EMS_APP_FW_RADIUS_DEVICE_FREE (device_obj x add)) ra)
    }"

definition ra_err :: "addr \<Rightarrow> ems_radius \<Rightarrow> (int \<times> ems_radius) option" where
  "ra_err d ra =
    do {
      x \<leftarrow> dev_get d ra;
      let ra1 = ra\<lparr>lasterr := reason x\<rparr>;
      ra2 \<leftarrow> dev_upd d (\<lambda>x. x\<lparr>reason := (if reason x = 0 then 4 else reason x)\<rparr>) ra1;
      y \<leftarrow> dev_get d ra2;
      let ra3 = ra_emit (NicSend ty_radius ty_portal EMS_APP_CMD_RADIUS_AUTH_RSP (user_obj y (reason y))) ra2;
      ra4 \<leftarrow> ra_device_firewall_set_rules d False ra3;
      Some (EMS_OK, ems_device_destroy d (ra4\<lparr>dev_entry := remove1 d (dev_entry ra4)\<rparr>))
    }"

text \<open>The frame of \<open>dev_change_status\<close>: nothing happens when the device has the status already.\<close>

definition change_with ::
  "(addr \<Rightarrow> ems_radius \<Rightarrow> (int \<times> ems_radius) option) \<Rightarrow> ems_status \<Rightarrow> addr \<Rightarrow> ems_radius \<Rightarrow> (int \<times> ems_radius) option" where
  "change_with h st d ra =
    do {
      x \<leftarrow> dev_get d ra;
      if d_st x = st then Some (EMS_OK, ra) else h d (dev_put d (x\<lparr>d_st := st\<rparr>) ra)
    }"

definition to_err :: "addr \<Rightarrow> ems_radius \<Rightarrow> (int \<times> ems_radius) option" where
  "to_err = change_with ra_err st_err"

definition st_into_acct :: "rad_env \<Rightarrow> addr \<Rightarrow> ems_radius \<Rightarrow> (int \<times> ems_radius) option" where
  "st_into_acct e d ra =
    do {
      ra1 \<leftarrow> ra_fill_acct_info e d ra;
      ra2 \<leftarrow> dev_upd d (\<lambda>x. x\<lparr>retry_timeout := ra_retry_timeout ra1, retry_times := ra_retry_times ra1\<rparr>) ra1;
      ra3 \<leftarrow> sess_upd d SRad (sess_watch e EMS_EVT_WRITE (ra_retry_timeout ra1 * 1000)) ra2;
      Some (EMS_OK, ra3)
    }"

definition net_failed :: "ems_device \<Rightarrow> bool" where
  "net_failed x \<longleftrightarrow> reason x = RADIUS_ERR_NETWORK \<or> reason x = RADIUS_ERR_CANNOT_CONNECT"

definition st_into_acct_stop :: "rad_env \<Rightarrow> addr \<Rightarrow> ems_radius \<Rightarrow> (int \<times> ems_radius) option" where
  "st_into_acct_stop e d ra =
    do {
      x \<leftarrow> dev_get d ra;
      ra1 \<leftarrow> (if net_failed x then Some ra
        else do {
          r1 \<leftarrow> dev_upd d (\<lambda>x. x\<lparr>reason := 2\<rparr>) ra;
          r2 \<leftarrow> ra_fill_acct_info e d r1;
          r3 \<leftarrow> dev_upd d (\<lambda>x. x\<lparr>retry_timeout := ra_retry_timeout r2, retry_times := ra_retry_times r2\<rparr>) r2;
          sess_upd d SRad (sess_watch e EMS_EVT_WRITE (ra_retry_timeout r2 * 1000)) r3
        });
      y \<leftarrow> dev_get d ra1;
      let ra2 = ra_emit (NicSend ty_radius ty_portal EMS_APP_CMD_PORTAL_LOGOUT (user_obj y (reason y))) ra1;
      ra3 \<leftarrow> ra_device_firewall_set_rules d False ra2;
      if reason y \<noteq> 2 then to_err d ra3 else Some (EMS_OK, ra3)
    }"

definition to_acct_stop :: "rad_env \<Rightarrow> addr \<Rightarrow> ems_radius \<Rightarrow> (int \<times> ems_radius) option" where
  "to_acct_stop e = change_with (st_into_acct_stop e) st_acct_stop"

text \<open>A device is given up with a reason that is for the portal or with an error.\<close>

definition fail_to_err :: "int \<Rightarrow> addr \<Rightarrow> ems_radius \<Rightarrow> (int \<times> ems_radius) option" where
  "fail_to_err why d ra = do { ra1 \<leftarrow> dev_upd d (\<lambda>x. x\<lparr>reason := why\<rparr>) ra; to_err d ra1 }"

definition err_to_stop :: "rad_env \<Rightarrow> int \<Rightarrow> addr \<Rightarrow> ems_radius \<Rightarrow> (int \<times> ems_radius) option" where
  "err_to_stop e err d ra = do { ra1 \<leftarrow> dev_upd d (\<lambda>x. x\<lparr>d_err := err\<rparr>) ra; to_acct_stop e d ra1 }"

definition fail_to_stop :: "rad_env \<Rightarrow> int \<Rightarrow> addr \<Rightarrow> ems_radius \<Rightarrow> (int \<times> ems_radius) option" where
  "fail_to_stop e why d ra = do { ra1 \<leftarrow> dev_upd d (\<lambda>x. x\<lparr>reason := why\<rparr>) ra; to_acct_stop e d ra1 }"

subsection \<open>The ping\<close>

text \<open>Little-endian numbers: what the platform stores.\<close>

definition le16 :: "nat \<Rightarrow> string" where "le16 n = [char_of n, char_of (n div 2 ^ 8)]"

definition le64 :: "int \<Rightarrow> string" where
  "le64 i = map (\<lambda>k. char_of (nat (i div 2 ^ (8 * k) mod 2 ^ 8))) [0, 1, 2, 3, 4, 5, 6, 7]"

text \<open>
  The Internet checksum: the sum of the 16-bit words, the carries folded back twice, complemented. The
  sum is an \<open>int\<close>, which the sizes used cannot overflow.
\<close>

fun sum_words :: "string \<Rightarrow> nat" where
  "sum_words (a # b # s) = uchr a + 2 ^ 8 * uchr b + sum_words s"
| "sum_words [a] = uchr a"
| "sum_words [] = 0"

definition ra_ping_chksum :: "string \<Rightarrow> 16 word" where
  "ra_ping_chksum s =
    (let sum = sum_words s;
         sum1 = sum div 2 ^ 16 + sum mod 2 ^ 16;
         sum2 = sum1 + sum1 div 2 ^ 16
     in NOT (word_of_nat sum2))"

definition icmp_echo :: "16 word \<Rightarrow> int \<Rightarrow> 32 word \<Rightarrow> string" where
  "icmp_echo cksum i seq =
    char_of (8 :: nat) # char_of (0 :: nat) # le16 (unat cksum) @ le16 (nat (i mod 2 ^ 16)) @ be16 (ucast seq)"

text \<open>The header, the time and the bytes 8 to 55; only the first 64 bytes are counted and sent.\<close>

definition ping_packet :: "timeval \<Rightarrow> int \<Rightarrow> 32 word \<Rightarrow> string" where
  "ping_packet t i seq =
    (let body = le64 (tv_sec t) @ le64 (tv_usec t) @ map char_of [8 ..< 56]
     in icmp_echo (ra_ping_chksum (take 64 (icmp_echo 0 i seq @ body))) i seq @ body)"

definition ra_ping_connect :: "rad_env \<Rightarrow> ems_session \<Rightarrow> int \<times> ems_session" where
  "ra_ping_connect e t =
    (case gethost e (str_text (s_addr (sock t))) of
       None \<Rightarrow> (EMS_ERR, t)
     | Some a \<Rightarrow>
         if \<not> icmp_proto e then (EMS_ERR, t)
         else if raw_socket e < 0 then (EMS_ERR, t)
         else if \<not> connect_ok e a 0 then (EMS_ERR, t)
         else (EMS_OK, t\<lparr>sock := snd (ems_sock_setfd (sock t) (raw_socket e))\<rparr>))"

definition ping_prepare :: "rad_env \<Rightarrow> addr \<Rightarrow> ems_session \<Rightarrow> ems_radius \<Rightarrow> (int \<times> ems_radius) option" where
  "ping_prepare e d t ra =
    do {
      x \<leftarrow> dev_get d ra;
      let t1 = t\<lparr>buf_out := ems_buffer_clear (buf_out t), buf_in := ems_buffer_clear (buf_in t),
        sock := snd (ems_sock_setaddr True (sock t) (Some (du_ip x)))\<rparr>;
      let (ret, t2) = ra_ping_connect e t1;
      Some (ret, dev_put d (x\<lparr>sess_dev := Some t2, ident := random_num e mod 2 ^ 16, ntrans := 0\<rparr>) ra)
    }"

definition st_ping_prepare_sess :: "rad_env \<Rightarrow> addr \<Rightarrow> ems_radius \<Rightarrow> (int \<times> ems_radius) option" where
  "st_ping_prepare_sess e d ra =
    do {
      x \<leftarrow> dev_get d ra;
      case sess_dev x of
        Some t \<Rightarrow> ping_prepare e d t ra
      | None \<Rightarrow>
          (case ems_session_new (r_alloc e) (r_alloc e) (r_garbage e) of
             None \<Rightarrow> err_to_stop e 2 d ra
           | Some t \<Rightarrow> ping_prepare e d (t\<lparr>cbarg := d\<rparr>) ra)
    }"

definition ping_send :: "rad_env \<Rightarrow> addr \<Rightarrow> ems_radius \<Rightarrow> (int \<times> ems_radius) option" where
  "ping_send e d ra =
    do {
      x \<leftarrow> dev_get d ra;
      t \<leftarrow> sess_dev x;
      let b = ems_buffer_clear (buf_out t);
      mem \<leftarrow> mem_put (bmem b) 0 (ping_packet (r_now e) (ident x) (ntrans x));
      let b1 = snd (ems_buffer_seek_wr (b\<lparr>bmem := mem\<rparr>) 64 2);
      let t1 = sess_watch e EMS_EVT_WRITE PING_TIMEOUT (t\<lparr>buf_out := b1\<rparr>);
      Some (EMS_OK, dev_put d (x\<lparr>sess_dev := Some t1, ntrans := ntrans x + 1, retry_times := PING_RETRYTIMES\<rparr>) ra)
    }"

definition st_into_ping :: "rad_env \<Rightarrow> addr \<Rightarrow> ems_radius \<Rightarrow> (int \<times> ems_radius) option" where
  "st_into_ping e d ra =
    do {
      x \<leftarrow> dev_get d ra;
      if sess_dev x \<noteq> None then ping_send e d ra
      else do {
        (ret, ra1) \<leftarrow> st_ping_prepare_sess e d ra;
        if ret \<noteq> EMS_OK then
          do {
            ra2 \<leftarrow> dev_upd d (\<lambda>x. x\<lparr>d_err := 2, reason := 2\<rparr>) ra1;
            to_acct_stop e d ra2
          }
        else ping_send e d ra1
      }
    }"

subsection \<open>Authentication\<close>

definition ra_connect :: "rad_env \<Rightarrow> ems_session \<Rightarrow> int \<times> ems_session" where
  "ra_connect e t =
    (case gethost e (str_text (s_addr (sock t))) of
       None \<Rightarrow> (EMS_ERR, t)
     | Some a \<Rightarrow>
         if new_socket e \<le> 0 then (EMS_ERR, t)
         else if \<not> connect_ok e a (s_port (sock t)) then (EMS_ERR, t)
         else (EMS_OK, t\<lparr>sock := snd (ems_sock_setfd (sock t) (new_socket e))\<rparr>))"

definition sess_target :: "string \<Rightarrow> int \<Rightarrow> ems_session \<Rightarrow> ems_session" where
  "sess_target a port t =
    t\<lparr>sock := snd (ems_sock_setport (snd (ems_sock_setaddr True (sock t) (Some a))) port)\<rparr>"

definition ra_session :: "rad_env \<Rightarrow> ems_device \<Rightarrow> ems_session option" where
  "ra_session e x =
    (case d_sess x of
       Some t \<Rightarrow> Some t
     | None \<Rightarrow>
         map_option (\<lambda>t. t\<lparr>buf_in := snd (ems_buffer_increase (r_alloc e) (r_garbage e) (buf_in t) 2048),
             buf_out := snd (ems_buffer_increase (r_alloc e) (r_garbage e) (buf_out t) 2048)\<rparr>)
           (ems_session_new (r_alloc e) (r_alloc e) (r_garbage e)))"

definition ra_start :: "rad_env \<Rightarrow> addr \<Rightarrow> ems_radius \<Rightarrow> (int \<times> ems_radius) option" where
  "ra_start e d ra =
    do {
      x \<leftarrow> dev_get d ra;
      case ra_session e x of
        None \<Rightarrow> do { (_, ra1) \<leftarrow> fail_to_err RADIUS_ERR_NETWORK d ra; Some (EMS_ERR, ra1) }
      | Some t \<Rightarrow>
          do {
            let (ret, t1) = ra_connect e (sess_target (auth_addr ra) (auth_port ra) (t\<lparr>cbarg := d\<rparr>));
            let ra1 = dev_put d (x\<lparr>d_sess := Some t1\<rparr>) ra;
            if ret \<noteq> EMS_OK then fail_to_err RADIUS_ERR_NETWORK d ra1
            else do {
              ra2 \<leftarrow> ra_fill_auth_request_info e d ra1;
              ra3 \<leftarrow> dev_upd d (\<lambda>x. x\<lparr>retry_times := ra_retry_times ra2, retry_timeout := ra_retry_timeout ra2, reason := 0\<rparr>) ra2;
              ra4 \<leftarrow> sess_upd d SRad (sess_watch e EMS_EVT_WRITE (ra_retry_timeout ra2 * 1000)) ra3;
              change_with (\<lambda>d ra. Some (EMS_OK, ra)) st_auth d ra4
            }
          }
    }"

text \<open>\<open>dev_change_status\<close> as a whole.\<close>

definition dev_change_status :: "rad_env \<Rightarrow> addr \<Rightarrow> ems_status \<Rightarrow> ems_radius \<Rightarrow> (int \<times> ems_radius) option" where
  "dev_change_status e d st ra =
    (case st of
       st_start \<Rightarrow> change_with (ra_start e) st d ra
     | st_err \<Rightarrow> to_err d ra
     | st_acct \<Rightarrow> change_with (st_into_acct e) st d ra
     | st_acct_stop \<Rightarrow> to_acct_stop e d ra
     | st_hb \<Rightarrow> do { (_, ra1) \<leftarrow> change_with (st_into_ping e) st d ra; Some (EMS_OK, ra1) }
     | _ \<Rightarrow> change_with (\<lambda>d ra. Some (EMS_OK, ra)) st d ra)"

subsection \<open>Sending and receiving\<close>

definition ra_send_msg :: "addr \<Rightarrow> sess_id \<Rightarrow> (int \<times> int) list \<Rightarrow> ems_radius \<Rightarrow> (int \<times> ems_radius) option" where
  "ra_send_msg d s rets ra =
    do {
      t \<leftarrow> sess_get d s ra;
      (ret, sk, b, bytes) \<leftarrow> ems_sock_send rets (sock t) (buf_out t);
      ra1 \<leftarrow> sess_upd d s (\<lambda>t. t\<lparr>sock := sk, buf_out := b\<rparr>) ra;
      let ra2 = (if bytes = [] then ra1 else ra_emit (Sent s bytes) ra1);
      if ret \<le> 0 \<and> ret \<noteq> - EAGAIN then Some (EMS_ERR, ra2)
      else if buf_len b \<le> 0 then map_option (Pair EMS_OK) (sess_upd d s (\<lambda>t. sess_event_set t EMS_EVT_READ DEV_EVT_CB) ra2)
      else Some (EMS_OK, ra2)
    }"

type_synonym rsp_handler = "addr \<Rightarrow> sess_id \<Rightarrow> ems_radius \<Rightarrow> (int \<times> ems_radius) option"

definition dev_process_rsp :: "rad_env \<Rightarrow> addr \<Rightarrow> sess_id \<Rightarrow> rsp_handler \<Rightarrow> ems_radius \<Rightarrow> (int \<times> ems_radius) option" where
  "dev_process_rsp e d s h ra =
    do {
      x \<leftarrow> dev_get d ra;
      t \<leftarrow> dev_sess s x;
      let pkt = drop (brd (buf_in t)) (bmem (buf_in t));
      o1 \<leftarrow> auth_out x;
      r \<leftarrow> d_sess x;
      i \<leftarrow> (if o1 + 1 < length (bmem (buf_out r)) then Some (bmem (buf_out r) ! (o1 + 1)) else None);
      let rtn = rc_check_reply e pkt (buf_size (buf_in t)) (secret ra) (vector x) i;
      (_, len) \<leftarrow> dns_get_short pkt 2;
      ra1 \<leftarrow> dev_upd d (\<lambda>x. x\<lparr>auth_in := Some (brd (buf_in t)),
        vp_in := (if 20 < unat len then rc_avpair_gen e (take (unat len - 20) (drop 20 pkt)) else [])\<rparr>) ra;
      if rtn \<noteq> 0 then Some (EMS_ERR, ra1)
      else do { (_, ra2) \<leftarrow> h d s ra1; Some (EMS_OK, ra2) }
    }"

definition dev_preprocess :: "rad_env \<Rightarrow> addr \<Rightarrow> sess_id \<Rightarrow> rsp_handler \<Rightarrow> ems_radius \<Rightarrow> (int \<times> ems_radius) option" where
  "dev_preprocess e d s h ra =
    do {
      t \<leftarrow> sess_get d s ra;
      if buf_len (buf_in t) < 20 then Some (EMS_CONTINUE, ra)
      else do {
        let (_, hdr, _) = ems_buffer_prefetch (buf_in t) 20;
        (_, len) \<leftarrow> dns_get_short hdr 2;
        if int (unat len) \<ge> buf_size (buf_in t) then Some (EMS_BUFFER_INSUFFICIENT, ra)
        else if buf_len (buf_in t) < int (unat len) then Some (EMS_CONTINUE, ra)
        else do {
          (rtn, ra1) \<leftarrow> dev_process_rsp e d s h ra;
          ra2 \<leftarrow> sess_upd d s (\<lambda>t. t\<lparr>buf_in := ems_buffer_refresh (snd (ems_buffer_seek_rd (buf_in t) (int (unat len)) 2))\<rparr>) ra1;
          Some (rtn, ra2)
        }
      }
    }"

text \<open>The loop over the messages of the buffer; \<open>None\<close> also when it does not end.\<close>

partial_function (option) preprocess_loop ::
  "rad_env \<Rightarrow> addr \<Rightarrow> sess_id \<Rightarrow> rsp_handler \<Rightarrow> ems_radius \<Rightarrow> (int \<times> ems_radius) option" where
  "preprocess_loop e d s h ra =
    Option.bind (dev_preprocess e d s h ra) (\<lambda>(ret, ra1).
      if ret = EMS_BUFFER_INSUFFICIENT \<or> ret = EMS_ERR then Some (EMS_ERR, ra1)
      else if ret = EMS_CONTINUE then Some (EMS_OK, ra1)
      else preprocess_loop e d s h ra1)"

text \<open>The answers of \<open>recv\<close> to each call of \<open>sess_recv\<close>; \<open>None\<close> when there are too few.\<close>

fun ra_recv_msg ::
  "rad_env \<Rightarrow> addr \<Rightarrow> sess_id \<Rightarrow> rsp_handler \<Rightarrow> recv_res list list \<Rightarrow> ems_radius \<Rightarrow> (int \<times> ems_radius) option" where
  "ra_recv_msg e d s h [] ra = None"
| "ra_recv_msg e d s h (rs # rss) ra =
    do {
      t \<leftarrow> sess_get d s ra;
      (ret, sk, b) \<leftarrow> ems_sock_read rs (sock t) (buf_in t);
      ra1 \<leftarrow> sess_upd d s (\<lambda>t. t\<lparr>sock := sk, buf_in := b\<rparr>) ra;
      if ret \<le> 0 \<and> ret \<noteq> - EAGAIN \<and> 0 < buf_len b then dev_preprocess e d s h ra1
      else do {
        (r, ra2) \<leftarrow> preprocess_loop e d s h ra1;
        if r = EMS_ERR then Some (EMS_ERR, ra2)
        else if ret = - EAGAIN then Some (EMS_OK, ra2)
        else ra_recv_msg e d s h rss ra2
      }
    }"

definition rsp_code :: "addr \<Rightarrow> sess_id \<Rightarrow> ems_radius \<Rightarrow> nat option" where
  "rsp_code d s ra =
    do {
      x \<leftarrow> dev_get d ra;
      t \<leftarrow> dev_sess s x;
      p \<leftarrow> auth_in x;
      if p < length (bmem (buf_in t)) then Some (uchr (bmem (buf_in t) ! p)) else None
    }"

definition ra_connect_to_acct_server :: "rad_env \<Rightarrow> rsp_handler" where
  "ra_connect_to_acct_server e d s ra =
    do {
      t \<leftarrow> sess_get d s ra;
      let (ret, t1) = ra_connect e (sess_target (acct_addr ra) (acct_port ra) t);
      ra1 \<leftarrow> sess_upd d s (\<lambda>_. t1) ra;
      if ret \<noteq> EMS_OK then fail_to_err RADIUS_ERR_NETWORK d ra1
      else do {
        x \<leftarrow> dev_get d ra1;
        let ra2 = ra_emit (NicSend ty_radius ty_portal EMS_APP_CMD_RADIUS_AUTH_RSP (user_obj x 0)) (ra1\<lparr>lasterr := RADIUS_ERR_SUCCESS\<rparr>);
        ra3 \<leftarrow> ra_device_firewall_set_rules d True ra2;
        ra4 \<leftarrow> dev_upd d (\<lambda>x. x\<lparr>reason := 1\<rparr>) ra3;
        dev_change_status e d st_acct ra4
      }
    }"

definition ra_start_to_acct_user :: "rad_env \<Rightarrow> rsp_handler" where
  "ra_start_to_acct_user e d s ra =
    do {
      ra1 \<leftarrow> sess_upd d s (\<lambda>t. let t1 = sess_timeout_cancel (sess_event_cancel t) in
        t1\<lparr>sock := snd (ems_sock_close (sock t1)), buf_out := ems_buffer_clear (buf_out t1), buf_in := ems_buffer_clear (buf_in t1)\<rparr>) ra;
      ra2 \<leftarrow> dev_upd d (\<lambda>x. x\<lparr>vp_out := [], vp_in := [], auth_out := None, auth_in := None\<rparr>) ra1;
      ra_connect_to_acct_server e d s ra2
    }"

definition ra_auth_rsp :: "rad_env \<Rightarrow> rsp_handler" where
  "ra_auth_rsp e d s ra =
    do {
      code \<leftarrow> rsp_code d s ra;
      if code = 2 then ra_start_to_acct_user e d s ra
      else do {
        (_, ra1) \<leftarrow> fail_to_err (if code = 11 then int code else RADIUS_ERR_REJECT) d ra;
        Some (EMS_OK, ra1)
      }
    }"

subsection \<open>Events\<close>

definition ra_auth ::
  "rad_env \<Rightarrow> addr \<Rightarrow> sess_id \<Rightarrow> flags \<Rightarrow> recv_res list list \<Rightarrow> (int \<times> int) list \<Rightarrow> ems_radius \<Rightarrow> (int \<times> ems_radius) option" where
  "ra_auth e d s flg rss rets ra =
    (if ems_flag_like flg EMS_EVT_READ then
       do {
         (ret, ra1) \<leftarrow> ra_recv_msg e d s (ra_auth_rsp e) rss ra;
         if ret \<noteq> EMS_OK then fail_to_err RADIUS_ERR_NETWORK d ra1 else Some (EMS_OK, ra1)
       }
     else if ems_flag_like flg EMS_EVT_WRITE then
       do {
         (ret, ra1) \<leftarrow> ra_send_msg d s rets ra;
         if ret \<noteq> EMS_OK then fail_to_err RADIUS_ERR_NETWORK d ra1 else Some (EMS_OK, ra1)
       }
     else Some (EMS_OK, ra))"

text \<open>How often a user may be missed before he is given up.\<close>

definition max_missed :: "ems_radius \<Rightarrow> int" where
  "max_missed ra = ra_disconnect ra sdiv (ra_report_period ra + 6) + 1"

definition ra_acct_rsp :: "rad_env \<Rightarrow> rsp_handler" where
  "ra_acct_rsp e d s ra =
    do {
      code \<leftarrow> rsp_code d s ra;
      if code = 5 then
        do {
          ra1 \<leftarrow> dev_upd d (\<lambda>x. x\<lparr>report_period := ra_report_period ra\<rparr>) ra;
          ra2 \<leftarrow> sess_upd d s (sess_watch e EMS_EVT_READ (ra_report_period ra * 1000)) ra1;
          (_, ra3) \<leftarrow> dev_change_status e d st_normal ra2;
          ra4 \<leftarrow> dev_upd d (\<lambda>x. x\<lparr>disconnect_server := max_missed ra3\<rparr>) ra3;
          Some (EMS_OK, ra4)
        }
      else do { (_, ra1) \<leftarrow> err_to_stop e 6 d ra; Some (EMS_OK, ra1) }
    }"

definition ra_retry_connect_server :: "rad_env \<Rightarrow> rsp_handler" where
  "ra_retry_connect_server e d s ra =
    do {
      x \<leftarrow> dev_get d ra;
      let ra1 = dev_put d (x\<lparr>disconnect_server := disconnect_server x - 1\<rparr>) ra;
      if disconnect_server x > 0 then
        do {
          ra2 \<leftarrow> dev_upd d (\<lambda>x. x\<lparr>report_period := ra_report_period ra1\<rparr>) ra1;
          ra3 \<leftarrow> sess_upd d s (sess_watch e EMS_EVT_READ (ra_report_period ra1 * 1000)) ra2;
          dev_change_status e d st_normal ra3
        }
      else Some (EMS_ERR, ra1)
    }"

definition acct_failed :: "rad_env \<Rightarrow> rsp_handler" where
  "acct_failed e d s ra =
    do {
      (ret, ra1) \<leftarrow> ra_retry_connect_server e d s ra;
      if ret \<noteq> EMS_OK then do { (_, ra2) \<leftarrow> fail_to_stop e RADIUS_ERR_NETWORK d ra1; Some (EMS_OK, ra2) }
      else Some (EMS_OK, ra1)
    }"

definition ra_acct ::
  "rad_env \<Rightarrow> addr \<Rightarrow> sess_id \<Rightarrow> flags \<Rightarrow> recv_res list list \<Rightarrow> (int \<times> int) list \<Rightarrow> ems_radius \<Rightarrow> (int \<times> ems_radius) option" where
  "ra_acct e d s flg rss rets ra =
    do {
      (r1, ra1) \<leftarrow> (if ems_flag_like flg EMS_EVT_READ then ra_recv_msg e d s (ra_acct_rsp e) rss ra else Some (EMS_OK, ra));
      if r1 \<noteq> EMS_OK then acct_failed e d s ra1
      else do {
        (r2, ra2) \<leftarrow> (if ems_flag_like flg EMS_EVT_WRITE then ra_send_msg d s rets ra1 else Some (EMS_OK, ra1));
        if r2 \<noteq> EMS_OK then acct_failed e d s ra2 else Some (EMS_OK, ra2)
      }
    }"

definition ra_normal_rsp :: rsp_handler where
  "ra_normal_rsp d s ra = Some (EMS_OK, ra)"

definition ra_normal :: "rad_env \<Rightarrow> addr \<Rightarrow> sess_id \<Rightarrow> flags \<Rightarrow> recv_res list list \<Rightarrow> ems_radius \<Rightarrow> (int \<times> ems_radius) option" where
  "ra_normal e d s flg rss ra =
    (if ems_flag_like flg EMS_EVT_READ then
       do {
         (ret, ra1) \<leftarrow> ra_recv_msg e d s ra_normal_rsp rss ra;
         if ret \<noteq> EMS_OK then fail_to_stop e RADIUS_ERR_NETWORK d ra1 else Some (EMS_OK, ra1)
       }
     else Some (EMS_OK, ra))"

text \<open>A packet with its IP header; one that is too short stays in the buffer.\<close>

definition ra_ping_recv_handle :: "rad_env \<Rightarrow> rsp_handler" where
  "ra_ping_recv_handle e d s ra =
    do {
      x \<leftarrow> dev_get d ra;
      t \<leftarrow> dev_sess s x;
      let p = drop (brd (buf_in t)) (bmem (buf_in t));
      b0 \<leftarrow> (if p = [] then None else Some (hd p));
      let hlen = 4 * (uchr b0 mod 16);
      if buf_len (buf_in t) < int hlen + 8 then Some (EMS_OK, ra)
      else if length p < hlen + 8 then None
      else if uchr (p ! hlen) \<noteq> 0 \<or> int (uchr (p ! (hlen + 4)) + 2 ^ 8 * uchr (p ! (hlen + 5))) \<noteq> ident x then
        map_option (Pair EMS_CONTINUE) (sess_upd d s (\<lambda>t. t\<lparr>buf_in := ems_buffer_clear (buf_in t)\<rparr>) ra)
      else do {
        ra1 \<leftarrow> dev_upd d (\<lambda>x. x\<lparr>disconnect := max_missed ra\<rparr>) ra;
        ra2 \<leftarrow> sess_upd d s (\<lambda>t. sess_timeout_cancel (sess_event_cancel (t\<lparr>buf_in := ems_buffer_clear (buf_in t)\<rparr>))) ra1;
        ra3 \<leftarrow> dev_upd d (\<lambda>x. x\<lparr>reason := 3\<rparr>) ra2;
        dev_change_status e d st_acct ra3
      }
    }"

text \<open>
  Each call of \<open>recv\<close> stores at the place that was the end of the buffer at first; no bytes come with the
  value of \<open>errno\<close>.
\<close>

fun ra_ping_loop ::
  "rad_env \<Rightarrow> addr \<Rightarrow> sess_id \<Rightarrow> nat \<Rightarrow> nat \<Rightarrow> (string \<times> int) list \<Rightarrow> ems_radius \<Rightarrow> (int \<times> ems_radius) option" where
  "ra_ping_loop e d s wr len [] ra = None"
| "ra_ping_loop e d s wr len ((bs, errno) # rs) ra =
    do {
      t \<leftarrow> sess_get d s ra;
      let got = take len bs;
      if got = [] then Some (if errno = EAGAIN \<or> errno = 4 then EMS_OK else EMS_ERR, ra)
      else do {
        mem \<leftarrow> mem_put (bmem (buf_in t)) wr got;
        let b = snd (ems_buffer_seek_wr (buf_in t\<lparr>bmem := mem\<rparr>) (int (length got)) 2);
        ra1 \<leftarrow> sess_upd d s (\<lambda>t. t\<lparr>buf_in := b\<rparr>) ra;
        (_, ra2) \<leftarrow> ra_ping_recv_handle e d s ra1;
        ra_ping_loop e d s wr len rs ra2
      }
    }"

definition ra_ping_recv :: "rad_env \<Rightarrow> addr \<Rightarrow> sess_id \<Rightarrow> (string \<times> int) list \<Rightarrow> ems_radius \<Rightarrow> (int \<times> ems_radius) option" where
  "ra_ping_recv e d s rs ra =
    do { t \<leftarrow> sess_get d s ra; ra_ping_loop e d s (bwr (buf_in t)) (nat (buf_left (buf_in t))) rs ra }"

definition ra_ping ::
  "rad_env \<Rightarrow> addr \<Rightarrow> sess_id \<Rightarrow> flags \<Rightarrow> (string \<times> int) list \<Rightarrow> (int \<times> int) list \<Rightarrow> ems_radius \<Rightarrow> (int \<times> ems_radius) option" where
  "ra_ping e d s flg rs rets ra =
    (if ems_flag_like flg EMS_EVT_READ then
       do {
         (ret, ra1) \<leftarrow> ra_ping_recv e d s rs ra;
         if ret \<noteq> EMS_OK then err_to_stop e 2 d ra1 else Some (EMS_OK, ra1)
       }
     else if ems_flag_like flg EMS_EVT_WRITE then
       do {
         (ret, ra1) \<leftarrow> ra_send_msg d s rets ra;
         if ret \<noteq> EMS_OK then err_to_stop e 2 d ra1 else Some (EMS_OK, ra1)
       }
     else Some (EMS_OK, ra))"

definition ra_acct_stopped_rsp :: rsp_handler where
  "ra_acct_stopped_rsp d s ra = do { _ \<leftarrow> rsp_code d s ra; fail_to_err 0 d ra }"

definition ra_acct_stopped ::
  "rad_env \<Rightarrow> addr \<Rightarrow> sess_id \<Rightarrow> flags \<Rightarrow> recv_res list list \<Rightarrow> (int \<times> int) list \<Rightarrow> ems_radius \<Rightarrow> (int \<times> ems_radius) option" where
  "ra_acct_stopped e d s flg rss rets ra =
    (if ems_flag_like flg EMS_EVT_READ then
       do {
         (ret, ra1) \<leftarrow> ra_recv_msg e d s ra_acct_stopped_rsp rss ra;
         if ret \<noteq> EMS_OK then fail_to_err RADIUS_ERR_NETWORK d ra1 else Some (EMS_OK, ra1)
       }
     else if ems_flag_like flg EMS_EVT_WRITE then
       do {
         (ret, ra1) \<leftarrow> ra_send_msg d s rets ra;
         if ret \<noteq> EMS_OK then fail_to_err RADIUS_ERR_NETWORK d ra1 else Some (EMS_OK, ra1)
       }
     else Some (EMS_OK, ra))"

text \<open>The handlers by status; a status without one is a call through a null pointer.\<close>

definition dev_evt_run ::
  "rad_env \<Rightarrow> addr \<Rightarrow> sess_id \<Rightarrow> flags \<Rightarrow> recv_res list list \<Rightarrow> (string \<times> int) list \<Rightarrow> (int \<times> int) list \<Rightarrow> ems_radius \<Rightarrow>
    (int \<times> ems_radius) option" where
  "dev_evt_run e d s flg rss rs rets ra =
    do {
      x \<leftarrow> dev_get d ra;
      case d_st x of
        st_start \<Rightarrow> ra_start e d ra
      | st_auth \<Rightarrow> ra_auth e d s flg rss rets ra
      | st_acct \<Rightarrow> ra_acct e d s flg rss rets ra
      | st_normal \<Rightarrow> ra_normal e d s flg rss ra
      | st_hb \<Rightarrow> ra_ping e d s flg rs rets ra
      | st_acct_stop \<Rightarrow> ra_acct_stopped e d s flg rss rets ra
      | st_err \<Rightarrow> ra_err d ra
      | _ \<Rightarrow> None
    }"

definition dev_evt_cb ::
  "rad_env \<Rightarrow> addr \<Rightarrow> sess_id \<Rightarrow> bool \<Rightarrow> flags \<Rightarrow> recv_res list list \<Rightarrow> (string \<times> int) list \<Rightarrow> (int \<times> int) list \<Rightarrow> ems_radius \<Rightarrow>
    ems_radius option" where
  "dev_evt_cb e d s err flg rss rs rets ra =
    map_option snd (if err then fail_to_err RADIUS_ERR_NETWORK d ra else dev_evt_run e d s flg rss rs rets ra)"

subsection \<open>Timers\<close>

text \<open>The message is sent again from its start.\<close>

definition resend :: "rad_env \<Rightarrow> int \<Rightarrow> ems_session \<Rightarrow> ems_session" where
  "resend e ms t = sess_watch e EMS_EVT_WRITE ms (t\<lparr>buf_out := snd (ems_buffer_seek_rd (buf_out t) 0 1)\<rparr>)"

definition ra_to_auth :: "rad_env \<Rightarrow> rsp_handler" where
  "ra_to_auth e d s ra =
    do {
      ra1 \<leftarrow> dev_upd d (\<lambda>x. x\<lparr>retry_times := retry_times x - 1\<rparr>) ra;
      x \<leftarrow> dev_get d ra1;
      if retry_times x > 0 then map_option (Pair EMS_OK) (sess_upd d s (resend e (retry_timeout x * 1000)) ra1)
      else fail_to_err RADIUS_ERR_CANNOT_CONNECT d ra1
    }"

definition ra_to_acct :: "rad_env \<Rightarrow> rsp_handler" where
  "ra_to_acct e d s ra =
    do {
      ra1 \<leftarrow> dev_upd d (\<lambda>x. x\<lparr>retry_times := retry_times x - 1\<rparr>) ra;
      x \<leftarrow> dev_get d ra1;
      if retry_times x > 0 then map_option (Pair EMS_OK) (sess_upd d s (resend e (retry_timeout x * 1000)) ra1)
      else do {
        (ret, ra2) \<leftarrow> ra_retry_connect_server e d s ra1;
        if ret \<noteq> EMS_OK then fail_to_stop e RADIUS_ERR_CANNOT_CONNECT d ra2 else Some (EMS_OK, ra2)
      }
    }"

definition ra_to_normal :: "rad_env \<Rightarrow> rsp_handler" where
  "ra_to_normal e d s ra = dev_change_status e d st_hb ra"

definition ra_to_ping :: "rad_env \<Rightarrow> rsp_handler" where
  "ra_to_ping e d s ra =
    do {
      ra1 \<leftarrow> sess_upd d s sess_event_cancel ra;
      x \<leftarrow> dev_get d ra1;
      if retry_times x > 0 then
        do {
          ra2 \<leftarrow> dev_upd d (\<lambda>x. x\<lparr>retry_times := retry_times x - 1\<rparr>) ra1;
          map_option (Pair EMS_OK) (sess_upd d s (resend e PING_TIMEOUT) ra2)
        }
      else do {
        ra2 \<leftarrow> dev_upd d (\<lambda>x. x\<lparr>disconnect := disconnect x - 1\<rparr>) ra1;
        y \<leftarrow> dev_get d ra2;
        if disconnect y \<le> 0 then err_to_stop e 2 d ra2
        else do {
          ra3 \<leftarrow> sess_upd d s (\<lambda>t. sess_timeout_cancel (sess_event_cancel (t\<lparr>buf_in := ems_buffer_clear (buf_in t)\<rparr>))) ra2;
          ra4 \<leftarrow> dev_upd d (\<lambda>x. x\<lparr>reason := 3\<rparr>) ra3;
          dev_change_status e d st_acct ra4
        }
      }
    }"

definition ra_to_acct_stopped :: "rad_env \<Rightarrow> rsp_handler" where
  "ra_to_acct_stopped e d s ra =
    do {
      ra1 \<leftarrow> dev_upd d (\<lambda>x. x\<lparr>retry_times := retry_times x - 1\<rparr>) ra;
      x \<leftarrow> dev_get d ra1;
      if retry_times x \<noteq> 0 then map_option (Pair EMS_OK) (sess_upd d s (resend e (retry_timeout x * 1000)) ra1)
      else fail_to_err RADIUS_ERR_CANNOT_CONNECT d ra1
    }"

definition dev_timeout_run :: "rad_env \<Rightarrow> rsp_handler" where
  "dev_timeout_run e d s ra =
    do {
      x \<leftarrow> dev_get d ra;
      case d_st x of
        st_auth \<Rightarrow> ra_to_auth e d s ra
      | st_acct \<Rightarrow> ra_to_acct e d s ra
      | st_normal \<Rightarrow> ra_to_normal e d s ra
      | st_hb \<Rightarrow> ra_to_ping e d s ra
      | st_acct_stop \<Rightarrow> ra_to_acct_stopped e d s ra
      | _ \<Rightarrow> Some (EMS_OK, ra)
    }"

definition dev_timeout_cb :: "rad_env \<Rightarrow> addr \<Rightarrow> sess_id \<Rightarrow> ems_radius \<Rightarrow> ems_radius option" where
  "dev_timeout_cb e d s ra = map_option snd (dev_timeout_run e d s ra)"

end
