(* ===== verification/Ems_Radius_App.thy ===== *)
theory Ems_Radius_App
  imports Ems_Radius
begin

text \<open>
  The module of \<^verbatim>\<open>c/ems/src/core/app_radius.c\<close> around the RADIUS client: the configuration, the commands of
  the portal that log users in and out, the reload of the firewall, the queries, and the dispatch of
  messages. A message brings a JSON object; the answer to a query is put into it.
\<close>

definition EMS_APP_CMD_RADIUS_AUTH :: nat where "EMS_APP_CMD_RADIUS_AUTH = 0x0001"
definition EMS_APP_CMD_RADIUS_LOGOUT :: nat where "EMS_APP_CMD_RADIUS_LOGOUT = 0x0002"
definition EMS_APP_RULES_UPDATE :: nat where "EMS_APP_RULES_UPDATE = 0x0005"
definition EMS_APP_EVT_STATUS :: nat where "EMS_APP_EVT_STATUS = 0x0007"
definition EMS_APP_EVT_USERINFO :: nat where "EMS_APP_EVT_USERINFO = 0x001c"
definition EMS_APP_EVT_USERNUMBER :: nat where "EMS_APP_EVT_USERNUMBER = 0x001e"
definition EMS_APP_EVT_USERLIST :: nat where "EMS_APP_EVT_USERLIST = 0x001f"
definition EMS_APP_EVT_USERNAME :: nat where "EMS_APP_EVT_USERNAME = 0x0020"

text \<open>The module: \<open>FLG_RUN\<close> and the client, a null pointer when it is \<open>None\<close>.\<close>

record rad_mod =
  rm_run :: bool
  rm_ctx :: "ems_radius option"

subsection \<open>Start and stop\<close>

definition radius_find_dev :: "ems_radius \<Rightarrow> string \<Rightarrow> addr option" where
  "radius_find_dev ra ip = find (\<lambda>d. du_ip (dev_of ra d) = ip) (dev_entry ra)"

definition radius_get_int :: "int \<Rightarrow> int \<Rightarrow> int" where
  "radius_get_int v def = (if v > 0 then v else def)"

definition radius_start :: "rad_env \<Rightarrow> ems_radius \<Rightarrow> int \<times> ems_radius" where
  "radius_start e ra =
    (let i = iface e;
         ra1 = ra\<lparr>auth_addr := i_addr i, acct_addr := i_addr i, auth_port := radius_get_int (i_auth_port i) 1812,
           acct_port := radius_get_int (i_acct_port i) 1813, secret := i_secret i, ra_retry_times := 3,
           ra_retry_timeout := 5, ra_disconnect := radius_get_int (i_offline i) 1800,
           ra_report_period := radius_get_int (i_acct_period i) 300\<rparr>
     in if \<not> i_enable i then (EMS_ERR, ra1) else (EMS_OK, ra1\<lparr>lasterr := 0\<rparr>))"

text \<open>The loop keeps the next device while the current one may be released.\<close>

fun radius_stop_loop :: "rad_env \<Rightarrow> addr list \<Rightarrow> ems_radius \<Rightarrow> ems_radius option" where
  "radius_stop_loop e [] ra = Some ra"
| "radius_stop_loop e (d # ds) ra =
    do {
      ra1 \<leftarrow> dev_upd d (\<lambda>x. x\<lparr>d_err := 7, reason := 7\<rparr>) ra;
      x \<leftarrow> dev_get d ra1;
      ra2 \<leftarrow> (if d_st x \<noteq> st_acct_stop then map_option snd (dev_change_status e d st_acct_stop ra1) else Some ra1);
      radius_stop_loop e ds ra2
    }"

definition radius_stop :: "rad_env \<Rightarrow> ems_radius \<Rightarrow> (int \<times> ems_radius) option" where
  "radius_stop e ra = map_option (Pair EMS_OK) (radius_stop_loop e (dev_entry ra) (ra\<lparr>lasterr := 0\<rparr>))"

definition radius_init :: "rad_env \<Rightarrow> ems_radius \<Rightarrow> int \<times> ems_radius" where
  "radius_init e mem =
    (let ra = mem\<lparr>dev_entry := [], seq_nbr := word_of_int (tv_sec (r_now e)), lasterr := 0, secret := [], auth_addr := [],
       auth_port := 0, acct_addr := [], acct_port := 0, ra_retry_times := 3, ra_retry_timeout := 10,
       ra_report_period := 300, ra_disconnect := 300, rh := rc_dict_ok e\<rparr>
     in (if rh ra then EMS_OK else EMS_ERR, ra))"

text \<open>\<open>mem\<close> is what the fresh memory holds, with no device in use.\<close>

definition ra_init :: "rad_env \<Rightarrow> ems_radius \<Rightarrow> rad_mod \<Rightarrow> int \<times> rad_mod" where
  "ra_init e mem m =
    (if r_alloc e then (EMS_OK, m\<lparr>rm_ctx := Some (snd (radius_init e mem))\<rparr>) else (EMS_ERR, m\<lparr>rm_ctx := None\<rparr>))"

fun radius_uninit_loop :: "rad_env \<Rightarrow> addr list \<Rightarrow> ems_radius \<Rightarrow> ems_radius option" where
  "radius_uninit_loop e [] ra = Some ra"
| "radius_uninit_loop e (d # ds) ra = do { (_, ra1) \<leftarrow> dev_change_status e d st_err ra; radius_uninit_loop e ds ra1 }"

definition radius_uninit :: "rad_env \<Rightarrow> ems_radius \<Rightarrow> ems_radius option" where
  "radius_uninit e ra =
    map_option (\<lambda>ra. ra\<lparr>secret := [], auth_addr := [], acct_addr := []\<rparr>)
      (radius_uninit_loop e (dev_entry ra) (ra\<lparr>rh := False\<rparr>))"

text \<open>The result also has what is left of the client when its memory is released.\<close>

definition ra_uninit :: "rad_env \<Rightarrow> rad_mod \<Rightarrow> (int \<times> ems_radius option \<times> rad_mod) option" where
  "ra_uninit e m =
    (case rm_ctx m of
       None \<Rightarrow> Some (EMS_OK, None, m)
     | Some ra \<Rightarrow> map_option (\<lambda>ra'. (EMS_OK, Some ra', m\<lparr>rm_ctx := None\<rparr>)) (radius_uninit e ra))"

definition ra_run :: "rad_env \<Rightarrow> bool \<Rightarrow> rad_mod \<Rightarrow> (int \<times> rad_mod) option" where
  "ra_run e run m =
    do {
      ra \<leftarrow> rm_ctx m;
      if run then
        (if rm_run m then Some (EMS_OK, m)
         else (case radius_start e ra of
                 (ret, ra1) \<Rightarrow> Some (EMS_OK, m\<lparr>rm_ctx := Some ra1, rm_run := (ret = EMS_OK)\<rparr>)))
      else if \<not> rm_run m then Some (EMS_OK, m)
      else do { (_, ra1) \<leftarrow> radius_stop e ra; Some (EMS_OK, m\<lparr>rm_ctx := Some ra1, rm_run := False\<rparr>) }
    }"

subsection \<open>The commands of the portal\<close>

definition radius_user_in :: "rad_env \<Rightarrow> string \<Rightarrow> string \<Rightarrow> string \<Rightarrow> string \<Rightarrow> ems_radius \<Rightarrow> (int \<times> ems_radius) option" where
  "radius_user_in e name pass ip mac ra =
    (case new_device e (dev_live ra) of
       None \<Rightarrow> Some (EMS_ERR, ra)
     | Some d \<Rightarrow>
         (let x = ems_device_new\<lparr>du_name := name, du_pass := pass, du_ip := ip, du_mac := mac,
            disconnect := max_missed ra, disconnect_server := max_missed ra\<rparr>
          in dev_change_status e d st_start
               (ra\<lparr>dev_of := (dev_of ra)(d := x), dev_live := d # dev_live ra, dev_entry := dev_entry ra @ [d]\<rparr>)))"

definition radius_cmd_auth :: "rad_env \<Rightarrow> json option \<Rightarrow> ems_radius \<Rightarrow> (int \<times> ems_radius) option" where
  "radius_cmd_auth e root ra =
    (let name = ems_json_get_string_def root ''username''; pass = ems_json_get_string_def root ''userpass'';
         ip = ems_json_get_string_def root ''userip''; mac = ems_json_get_string_def root ''usermac''
     in if name = [] \<or> pass = [] \<or> ip = [] \<or> mac = [] then Some (EMS_ERR, ra)
        else (case radius_find_dev ra ip of
                None \<Rightarrow> radius_user_in e name pass ip mac ra
              | Some d \<Rightarrow>
                  do {
                    x \<leftarrow> dev_get d ra;
                    if du_mac x = mac then
                      dev_change_status e d st_start (dev_put d (x\<lparr>du_name := name, du_pass := pass\<rparr>) ra)
                    else do {
                      (_, ra1) \<leftarrow> err_to_stop e 2 d ra;
                      radius_user_in e name pass ip mac ra1
                    }
                  }))"

definition radius_cmd_logout :: "rad_env \<Rightarrow> json option \<Rightarrow> ems_radius \<Rightarrow> (int \<times> ems_radius) option" where
  "radius_cmd_logout e root ra =
    (let name = ems_json_get_string_def root ''username''; ip = ems_json_get_string_def root ''userip'';
         mac = ems_json_get_string_def root ''usermac''
     in if name = [] \<or> ip = [] then Some (EMS_ERR, ra)
        else (case radius_find_dev ra ip of
                None \<Rightarrow> Some (EMS_OK, ra)
              | Some d \<Rightarrow>
                  do {
                    x \<leftarrow> dev_get d ra;
                    if mac = [] \<or> du_mac x = mac then do { (_, ra1) \<leftarrow> err_to_stop e 1 d ra; Some (EMS_OK, ra1) }
                    else Some (EMS_OK, ra)
                  }))"

subsection \<open>The firewall and the configuration\<close>

fun fw_reload_loop :: "addr list \<Rightarrow> ems_radius \<Rightarrow> ems_radius option" where
  "fw_reload_loop [] ra = Some ra"
| "fw_reload_loop (d # ds) ra = do { ra1 \<leftarrow> ra_device_firewall_set_rules d True ra; fw_reload_loop ds ra1 }"

definition radius_evt_fw_reload :: "ems_radius \<Rightarrow> (int \<times> ems_radius) option" where
  "radius_evt_fw_reload ra = map_option (Pair EMS_OK) (fw_reload_loop (dev_entry ra) ra)"

definition radius_rules_update :: "rad_env \<Rightarrow> bool \<Rightarrow> ems_radius \<Rightarrow> (int \<times> ems_radius) option" where
  "radius_rules_update e run ra =
    (let i = iface e;
         restart = (i_addr i \<noteq> auth_addr ra \<or> i_secret i \<noteq> secret ra \<or> i_auth_port i \<noteq> auth_port ra \<or>
           i_acct_port i \<noteq> acct_port ra \<or> i_acct_period i \<noteq> ra_report_period ra \<or> i_offline i \<noteq> ra_disconnect ra)
     in if run \<and> restart then
          do { (_, ra1) \<leftarrow> radius_stop e ra; Some (EMS_OK, snd (radius_start e ra1)) }
        else Some (EMS_OK, ra))"

subsection \<open>Queries\<close>

definition radius_evt_status :: "ems_radius \<Rightarrow> int" where
  "radius_evt_status ra =
    (if lasterr ra \<in> {RADIUS_ERR_CANNOT_CONNECT, RADIUS_ERR_REJECT, RADIUS_ERR_NETWORK} then lasterr ra else 0)"

fun json_add :: "(string \<times> json) list \<Rightarrow> json option \<Rightarrow> json option" where
  "json_add kvs (Some (JObj o1)) = Some (JObj (fold (\<lambda>(k, v). AList.update k v) kvs o1))"
| "json_add kvs root = root"

definition radius_userinfo :: "ems_radius \<Rightarrow> json option \<Rightarrow> int \<times> json option" where
  "radius_userinfo ra root =
    (let ip = ems_json_get_string_def root ''ip''
     in if ip = [] then (EMS_OK, root)
        else (case radius_find_dev ra ip of
                None \<Rightarrow> (EMS_OK, root)
              | Some d \<Rightarrow>
                  (let x = dev_of ra d
                   in (EMS_OK, json_add [(''nick'', JStr (du_name x)), (''pwd'', JStr (du_pass x)), (''mac'', JStr (du_mac x)),
                        (''status'', JInt (status_no (d_st x)))] root))))"

definition radius_online_user_number :: "ems_radius \<Rightarrow> int" where
  "radius_online_user_number ra = int (length (dev_entry ra))"

definition user_entry :: "ems_device \<Rightarrow> json" where
  "user_entry x = JObj [(''nick'', JStr (du_name x)), (''pwd'', JStr (du_pass x)), (''ip'', JStr (du_ip x)),
    (''mac'', JStr (du_mac x)), (''status'', JInt (status_no (d_st x)))]"

fun radius_userlist :: "ems_radius \<Rightarrow> json option \<Rightarrow> int \<times> json option" where
  "radius_userlist ra (Some (JArr js)) = (EMS_OK, Some (JArr (js @ map (\<lambda>d. user_entry (dev_of ra d)) (dev_entry ra))))"
| "radius_userlist ra root = (EMS_OK, root)"

definition radius_username :: "ems_radius \<Rightarrow> json option \<Rightarrow> int \<times> json option" where
  "radius_username ra root =
    (let ip = ems_json_get_string_def root ''userip''
     in if ip = [] then (EMS_ERR, root)
        else (case radius_find_dev ra ip of
                None \<Rightarrow> (EMS_ERR, root)
              | Some d \<Rightarrow> (EMS_OK, json_add [(''username'', JStr (du_name (dev_of ra d)))] root)))"

subsection \<open>The dispatch of messages\<close>

text \<open>Commands for a client that runs, with its dictionary loaded.\<close>

definition ra_command :: "rad_env \<Rightarrow> nat \<Rightarrow> json option \<Rightarrow> ems_radius \<Rightarrow> (int \<times> ems_radius) option" where
  "ra_command e evt root ra =
    (if evt = EMS_APP_CMD_RADIUS_AUTH then radius_cmd_auth e root ra
     else if evt = EMS_APP_CMD_RADIUS_LOGOUT then radius_cmd_logout e root ra
     else if evt = EMS_APP_EVT_FW_RELOAD then radius_evt_fw_reload ra
     else if evt = EMS_APP_SERVER_RULES_UPDATE then radius_rules_update e True ra
     else Some (EMS_OK, ra))"

definition ra_process :: "rad_env \<Rightarrow> nat \<Rightarrow> json option \<Rightarrow> rad_mod \<Rightarrow> (int \<times> json option \<times> rad_mod) option" where
  "ra_process e evt root m =
    (if evt = EMS_APP_STOP then map_option (\<lambda>(ret, m'). (ret, root, m')) (ra_run e False m)
     else if evt = EMS_APP_START then map_option (\<lambda>(ret, m'). (ret, root, m')) (ra_run e True m)
     else do {
       ra \<leftarrow> rm_ctx m;
       if evt = EMS_APP_RULES_UPDATE then
         map_option (\<lambda>(ret, ra'). (ret, root, m\<lparr>rm_ctx := Some ra'\<rparr>)) (radius_rules_update e (rm_run m) ra)
       else if evt = EMS_APP_EVT_STATUS then Some (if rm_run m then radius_evt_status ra else EMS_OK, root, m)
       else if evt = EMS_APP_EVT_USERLIST then (case radius_userlist ra root of (ret, root') \<Rightarrow> Some (ret, root', m))
       else if evt = EMS_APP_EVT_USERNUMBER then Some (radius_online_user_number ra, root, m)
       else if evt = EMS_APP_EVT_USERNAME then (case radius_username ra root of (ret, root') \<Rightarrow> Some (ret, root', m))
       else if \<not> rm_run m then Some (EMS_ERR, root, m)
       else if \<not> rh ra then Some (EMS_ERR, root, m)
       else if evt = EMS_APP_EVT_USERINFO then (case radius_userinfo ra root of (ret, root') \<Rightarrow> Some (ret, root', m))
       else map_option (\<lambda>(ret, ra'). (ret, root, m\<lparr>rm_ctx := Some ra'\<rparr>)) (ra_command e evt root ra)
     })"

end
