(* ===== verification/Ems_Radius_Inv.thy ===== *)
theory Ems_Radius_Inv
  imports Ems_Radius_App
begin

text \<open>
  Invariants of the RADIUS client: the list of devices is the set of devices in memory, a device between
  two events has a session and one of five states, and whoever the firewall lets through is in the list.
\<close>

subsection \<open>What the firewall was told\<close>

definition fw_evt :: "rad_evt \<Rightarrow> bool" where
  "fw_evt m = (case m of NicProcess s d evt j \<Rightarrow> d = ty_fw \<and> evt = EMS_APP_FW_RADIUS_DEVICE_FREE | _ \<Rightarrow> False)"

definition evt_key :: "rad_evt \<Rightarrow> string \<times> string" where
  "evt_key m = (case m of NicProcess s d evt j \<Rightarrow>
      (ems_json_get_string_def (Some j) ''userip'', ems_json_get_string_def (Some j) ''usermac'') | _ \<Rightarrow> ([], []))"

definition evt_add :: "rad_evt \<Rightarrow> bool" where
  "evt_add m = (case m of NicProcess s d evt j \<Rightarrow> ems_json_get_int_def (Some j) ''add'' 0 \<noteq> 0 | _ \<Rightarrow> False)"

text \<open>The last message about an address decides.\<close>

definition fw_free :: "rad_evt list \<Rightarrow> string \<times> string \<Rightarrow> bool" where
  "fw_free evs k = fold (\<lambda>m b. if fw_evt m \<and> evt_key m = k then evt_add m else b) evs False"

definition dev_key :: "ems_device \<Rightarrow> string \<times> string" where "dev_key x = (du_ip x, du_mac x)"

lemma fw_free_snoc:
  "fw_free (evs @ [m]) k = (if fw_evt m \<and> evt_key m = k then evt_add m else fw_free evs k)"
  by (simp add: fw_free_def)

lemma fw_free_append_other:
  "\<forall>m \<in> set evs'. fw_evt m \<longrightarrow> evt_key m \<noteq> k \<Longrightarrow> fw_free (evs @ evs') k = fw_free evs k"
proof (induction evs' rule: rev_induct)
  case (snoc m evs')
  then show ?case using fw_free_snoc [of "evs @ evs'" m k] by auto
qed simp

lemma device_evt [simp]:
  "fw_evt (NicProcess s ty_fw EMS_APP_FW_RADIUS_DEVICE_FREE (device_obj x b))"
  "evt_key (NicProcess s ty_fw EMS_APP_FW_RADIUS_DEVICE_FREE (device_obj x b)) = dev_key x"
  "evt_add (NicProcess s ty_fw EMS_APP_FW_RADIUS_DEVICE_FREE (device_obj x b)) = b"
  "\<not> fw_evt (NicSend s d evt j)" "\<not> fw_evt (Sent q bs)"
  by (simp_all add: fw_evt_def evt_key_def evt_add_def dev_key_def device_obj_def ems_json_get_string_def_def
      ems_json_get_int_def_def)

subsection \<open>The table of devices\<close>

definition dev_tab :: "ems_radius \<Rightarrow> bool" where
  "dev_tab ra \<longleftrightarrow> distinct (dev_entry ra) \<and> distinct (dev_live ra) \<and> set (dev_entry ra) = set (dev_live ra) \<and>
    (\<forall>k. fw_free (ra_out ra) k \<longrightarrow> (\<exists>d \<in> set (dev_live ra). dev_key (dev_of ra d) = k))"

definition dev_good :: "ems_status set \<Rightarrow> ems_device \<Rightarrow> bool" where
  "dev_good S x \<longleftrightarrow> d_sess x \<noteq> None \<and> d_st x \<in> S"

definition others_ok :: "ems_status set \<Rightarrow> addr \<Rightarrow> ems_radius \<Rightarrow> bool" where
  "others_ok S d ra \<longleftrightarrow> dev_tab ra \<and> (\<forall>v \<in> set (dev_live ra). v \<noteq> d \<longrightarrow> dev_good S (dev_of ra v))"

definition all_ok :: "ems_status set \<Rightarrow> ems_radius \<Rightarrow> bool" where
  "all_ok S ra \<longleftrightarrow> dev_tab ra \<and> (\<forall>v \<in> set (dev_live ra). dev_good S (dev_of ra v))"

lemma all_others: "all_ok S ra \<Longrightarrow> others_ok S d ra"
  by (simp add: all_ok_def others_ok_def)

lemma others_all: "others_ok S d ra \<Longrightarrow> d \<in> set (dev_live ra) \<Longrightarrow> dev_good S (dev_of ra d) \<Longrightarrow> all_ok S ra"
  by (auto simp: all_ok_def others_ok_def)

lemma dev_get_Some: "dev_get d ra = Some x \<longleftrightarrow> d \<in> set (dev_live ra) \<and> x = dev_of ra d"
  by (auto simp: dev_get_def)

text \<open>
  An operation on one device: the others, the table and the identity and status of the device stay, and
  the firewall hears of nobody else.
\<close>

definition dev_keep :: "addr \<Rightarrow> ems_radius \<Rightarrow> ems_radius \<Rightarrow> bool" where
  "dev_keep d ra ra' \<longleftrightarrow> d \<in> set (dev_live ra) \<and> dev_live ra' = dev_live ra \<and> dev_entry ra' = dev_entry ra \<and>
    (\<forall>v. v \<noteq> d \<longrightarrow> dev_of ra' v = dev_of ra v) \<and> dev_key (dev_of ra' d) = dev_key (dev_of ra d) \<and>
    d_st (dev_of ra' d) = d_st (dev_of ra d) \<and> (d_sess (dev_of ra d) \<noteq> None \<longrightarrow> d_sess (dev_of ra' d) \<noteq> None) \<and>
    (\<exists>evs. ra_out ra' = ra_out ra @ evs \<and> (\<forall>m \<in> set evs. fw_evt m \<longrightarrow> evt_key m = dev_key (dev_of ra d)))"

lemma keep_refl: "d \<in> set (dev_live ra) \<Longrightarrow> dev_keep d ra ra"
  by (simp add: dev_keep_def)

lemma keep_trans [trans]: "dev_keep d ra ra' \<Longrightarrow> dev_keep d ra' ra'' \<Longrightarrow> dev_keep d ra ra''"
  by (auto simp: dev_keep_def)

lemma keep_live: "dev_keep d ra ra' \<Longrightarrow> d \<in> set (dev_live ra')"
  by (simp add: dev_keep_def)

lemma keep_tab:
  assumes "dev_tab ra" and "dev_keep d ra ra'"
  shows "dev_tab ra'"
proof -
  obtain evs where e: "ra_out ra' = ra_out ra @ evs" "\<forall>m \<in> set evs. fw_evt m \<longrightarrow> evt_key m = dev_key (dev_of ra d)"
    and k: "d \<in> set (dev_live ra')" "dev_live ra' = dev_live ra" "dev_key (dev_of ra' d) = dev_key (dev_of ra d)"
      "\<forall>v. v \<noteq> d \<longrightarrow> dev_of ra' v = dev_of ra v"
    using assms(2) by (auto simp: dev_keep_def)
  have "\<exists>v \<in> set (dev_live ra'). dev_key (dev_of ra' v) = k" if "fw_free (ra_out ra') k" for k
  proof (cases "k = dev_key (dev_of ra d)")
    case True
    then show ?thesis using k by auto
  next
    case False
    then have "fw_free (ra_out ra) k" using fw_free_append_other [of evs k] e that by auto
    then obtain v where "v \<in> set (dev_live ra)" "dev_key (dev_of ra v) = k" using assms(1) unfolding dev_tab_def by blast
    then show ?thesis using k False by (intro bexI [of _ v]) auto
  qed
  then show ?thesis using assms by (auto simp: dev_tab_def dev_keep_def)
qed

lemma keep_others: "others_ok S d ra \<Longrightarrow> dev_keep d ra ra' \<Longrightarrow> others_ok S d ra'"
  using keep_tab [of ra d ra'] by (auto simp: others_ok_def dev_keep_def)

lemma keep_all: "all_ok S ra \<Longrightarrow> dev_keep d ra ra' \<Longrightarrow> all_ok S ra'"
  using keep_others [OF all_others] others_all [of S d ra'] by (auto simp: all_ok_def dev_keep_def dev_good_def)

subsection \<open>The elementary operations\<close>

lemma keep_put:
  "dev_get d ra = Some x \<Longrightarrow> dev_key y = dev_key x \<Longrightarrow> d_st y = d_st x \<Longrightarrow> (d_sess x \<noteq> None \<longrightarrow> d_sess y \<noteq> None) \<Longrightarrow>
    dev_keep d ra (dev_put d y ra)"
  by (auto simp: dev_keep_def dev_get_Some dev_put_def)

lemma keep_upd:
  "dev_upd d f ra = Some ra' \<Longrightarrow> (\<And>x. dev_key (f x) = dev_key x \<and> d_st (f x) = d_st x \<and> (d_sess x \<noteq> None \<longrightarrow> d_sess (f x) \<noteq> None)) \<Longrightarrow>
    dev_keep d ra ra'"
  by (auto simp: dev_upd_def intro!: keep_put)

lemma put_sess_fields [simp]:
  "dev_key (put_sess s t x) = dev_key x" "d_st (put_sess s t x) = d_st x" "d_sess x \<noteq> None \<Longrightarrow> d_sess (put_sess s t x) \<noteq> None"
  by (simp_all add: put_sess_def dev_key_def split: sess_id.splits)

lemma keep_sess_upd: "sess_upd d s f ra = Some ra' \<Longrightarrow> dev_keep d ra ra'"
  unfolding sess_upd_def bind_eq_Some_conv by (elim exE conjE, erule keep_upd) simp

lemma keep_emit: "d \<in> set (dev_live ra) \<Longrightarrow> \<not> fw_evt m \<Longrightarrow> dev_keep d ra (ra_emit m ra)"
  by (simp add: dev_keep_def ra_emit_def)

lemma keep_fw: "ra_device_firewall_set_rules d b ra = Some ra' \<Longrightarrow> dev_keep d ra ra'"
  by (auto simp: ra_device_firewall_set_rules_def bind_eq_Some_conv dev_get_Some dev_keep_def ra_emit_def)

lemma keep_lasterr: "d \<in> set (dev_live ra) \<Longrightarrow> dev_keep d ra (ra\<lparr>lasterr := v\<rparr>)"
  by (simp add: dev_keep_def)

lemma keep_auth_info: "ra_fill_auth_request_info e d ra = Some ra' \<Longrightarrow> dev_keep d ra ra'"
  by (auto simp: ra_fill_auth_request_info_def bind_eq_Some_conv Let_def dev_get_Some dev_put_def dev_keep_def dev_key_def)

lemma traffic_keep:
  "ra_update_user_traffic e x = Some y \<Longrightarrow> dev_key y = dev_key x \<and> d_st y = d_st x \<and> d_sess y = d_sess x"
  by (auto simp: ra_update_user_traffic_def Let_def dev_key_def split: if_splits option.splits list.splits)

lemma acct_pairs_keep:
  assumes "ra_fill_acct_avpairs e x = Some y"
  shows "dev_key y = dev_key x \<and> d_st y = d_st x \<and> d_sess y = d_sess x"
proof -
  let ?x = "if du_sessid x = [] then x\<lparr>du_start := r_now e, du_sessid := session_id e\<rparr> else x"
  have x: "dev_key ?x = dev_key x" "d_st ?x = d_st x" "d_sess ?x = d_sess x" by (simp_all add: dev_key_def)
  have f: "dev_key (z\<lparr>vp_out := v\<rparr>) = dev_key z" "d_st (z\<lparr>vp_out := v\<rparr>) = d_st z" "d_sess (z\<lparr>vp_out := v\<rparr>) = d_sess z" for z :: ems_device and v
    by (simp_all add: dev_key_def)
  show ?thesis using assms x traffic_keep [of e ?x] unfolding ra_fill_acct_avpairs_def Let_def bind_eq_Some_conv
    by (auto simp: f bind_eq_Some_conv split: if_splits)
qed

lemma keep_acct_info: "ra_fill_acct_info e d ra = Some ra' \<Longrightarrow> dev_keep d ra ra'"
  unfolding ra_fill_acct_info_def Let_def bind_eq_Some_conv
  by (elim exE conjE, drule acct_pairs_keep) (auto simp: dev_get_Some dev_put_def dev_keep_def dev_key_def)

subsection \<open>Operations that end with a device in order or released\<close>

definition unsettled :: "ems_status set \<Rightarrow> addr \<Rightarrow> ems_radius \<Rightarrow> bool" where
  "unsettled S d ra \<longleftrightarrow> others_ok S d ra \<and> d_sess (dev_of ra d) \<noteq> None \<and> d_st (dev_of ra d) \<noteq> st_err"

lemma keep_unsettled: "unsettled S d ra \<Longrightarrow> dev_keep d ra ra' \<Longrightarrow> unsettled S d ra'"
  using keep_others [of S d ra ra'] by (auto simp: unsettled_def dev_keep_def)

lemma unsettled_all: "unsettled S d ra \<Longrightarrow> d \<in> set (dev_live ra) \<Longrightarrow> d_st (dev_of ra d) \<in> S \<Longrightarrow> all_ok S ra"
  by (rule others_all) (auto simp: unsettled_def dev_good_def)

lemma all_unsettled: "all_ok S ra \<Longrightarrow> d \<in> set (dev_live ra) \<Longrightarrow> st_err \<notin> S \<Longrightarrow> unsettled S d ra"
  using all_others [of S ra d] by (auto simp: unsettled_def all_ok_def dev_good_def)

lemma tab_view:
  "dev_entry ra' = dev_entry ra \<Longrightarrow> dev_live ra' = dev_live ra \<Longrightarrow> ra_out ra' = ra_out ra \<Longrightarrow>
    (\<And>v. dev_key (dev_of ra' v) = dev_key (dev_of ra v)) \<Longrightarrow> dev_tab ra' = dev_tab ra"
  by (simp add: dev_tab_def)

lemma status_others:
  assumes "others_ok S d ra" and "dev_get d ra = Some x"
  shows "others_ok S d (dev_put d (x\<lparr>d_st := st\<rparr>) ra)"
proof -
  have "dev_tab (dev_put d (x\<lparr>d_st := st\<rparr>) ra) = dev_tab ra"
    using assms(2) by (intro tab_view) (simp_all add: dev_put_def dev_key_def dev_get_Some)
  then show ?thesis using assms by (simp add: others_ok_def dev_put_def)
qed

lemma err_effect:
  assumes "ra_err d ra = Some (r, ra')"
  obtains ra1 where "dev_keep d ra ra1" and "dev_live ra' = remove1 d (dev_live ra1)" and "dev_entry ra' = remove1 d (dev_entry ra1)"
    and "dev_of ra' = dev_of ra1"
    and "ra_out ra' = ra_out ra1 @ [NicProcess ty_radius ty_fw EMS_APP_FW_RADIUS_DEVICE_FREE (device_obj (dev_of ra1 d) False)]"
proof -
  obtain ra2 where 2: "dev_upd d (\<lambda>x. x\<lparr>reason := (if reason x = 0 then 4 else reason x)\<rparr>) (ra\<lparr>lasterr := reason (dev_of ra d)\<rparr>) = Some ra2"
    and live: "d \<in> set (dev_live ra)" "d \<in> set (dev_live ra2)" and f: "ra_device_firewall_set_rules d False
      (ra_emit (NicSend ty_radius ty_portal EMS_APP_CMD_RADIUS_AUTH_RSP (user_obj (dev_of ra2 d) (reason (dev_of ra2 d)))) ra2) =
      Some ra4 \<Longrightarrow> ra' = ems_device_destroy d (ra4\<lparr>dev_entry := remove1 d (dev_entry ra4)\<rparr>)" for ra4
    using assms by (auto simp: ra_err_def bind_eq_Some_conv Let_def dev_get_Some)
  let ?ra3 = "ra_emit (NicSend ty_radius ty_portal EMS_APP_CMD_RADIUS_AUTH_RSP (user_obj (dev_of ra2 d) (reason (dev_of ra2 d)))) ra2"
  have "dev_keep d ra (ra\<lparr>lasterr := reason (dev_of ra d)\<rparr>)" by (rule keep_lasterr [OF live(1)])
  also have "dev_keep d (ra\<lparr>lasterr := reason (dev_of ra d)\<rparr>) ra2" by (rule keep_upd [OF 2]) (simp add: dev_key_def)
  also have "dev_keep d ra2 ?ra3" by (rule keep_emit [OF live(2)]) simp
  finally have k: "dev_keep d ra ?ra3" .
  have l3: "d \<in> set (dev_live ?ra3)" by (rule keep_live [OF k])
  have ra': "ra' = ems_device_destroy d ((ra_emit (NicProcess ty_radius ty_fw EMS_APP_FW_RADIUS_DEVICE_FREE (device_obj (dev_of ?ra3 d) False)) ?ra3)
      \<lparr>dev_entry := remove1 d (dev_entry ?ra3)\<rparr>)"
    using f l3 by (simp add: ra_device_firewall_set_rules_def dev_get_def ra_emit_def)
  show ?thesis by (rule that [OF k]) (simp_all add: ra' ra_emit_def ems_device_destroy_def)
qed

lemma err_settles:
  assumes "ra_err d ra = Some (r, ra')" and "others_ok S d ra"
  shows "all_ok S ra'"
proof -
  obtain ra1 where k: "dev_keep d ra ra1" and l: "dev_live ra' = remove1 d (dev_live ra1)" "dev_entry ra' = remove1 d (dev_entry ra1)" "dev_of ra' = dev_of ra1"
    and o1: "ra_out ra' = ra_out ra1 @ [NicProcess ty_radius ty_fw EMS_APP_FW_RADIUS_DEVICE_FREE (device_obj (dev_of ra1 d) False)]"
    by (rule err_effect [OF assms(1)])
  have 1: "others_ok S d ra1" by (rule keep_others [OF assms(2) k])
  then have t: "distinct (dev_live ra1)" "distinct (dev_entry ra1)" "set (dev_entry ra1) = set (dev_live ra1)"
    by (simp_all add: others_ok_def dev_tab_def)
  have "\<exists>v \<in> set (dev_live ra'). dev_key (dev_of ra' v) = q" if "fw_free (ra_out ra') q" for q
  proof -
    have q: "q \<noteq> dev_key (dev_of ra1 d)" "fw_free (ra_out ra1) q" using that by (auto simp: o1 fw_free_snoc split: if_splits)
    then obtain v where "v \<in> set (dev_live ra1)" "dev_key (dev_of ra1 v) = q" using 1 unfolding others_ok_def dev_tab_def by blast
    then show ?thesis using q(1) t(1) by (intro bexI [of _ v]) (auto simp: l)
  qed
  then show ?thesis using 1 t by (auto simp: all_ok_def others_ok_def dev_tab_def l)
qed

lemma change_cases:
  assumes "change_with h st d ra = Some (r, ra')"
  obtains "d \<in> set (dev_live ra)" and "d_st (dev_of ra d) = st" and "ra' = ra"
  | x where "dev_get d ra = Some x" and "d_st x \<noteq> st" and "h d (dev_put d (x\<lparr>d_st := st\<rparr>) ra) = Some (r, ra')"
  using assms by (auto simp: change_with_def bind_eq_Some_conv dev_get_Some split: if_splits)

lemma put_fields [simp]:
  "dev_live (dev_put d x ra) = dev_live ra" "dev_of (dev_put d x ra) d = x" "dev_entry (dev_put d x ra) = dev_entry ra"
  "ra_out (dev_put d x ra) = ra_out ra"
  by (simp_all add: dev_put_def)

lemma to_err_ok:
  assumes "to_err d ra = Some (r, ra')" and "others_ok S d ra" and "d_st (dev_of ra d) \<noteq> st_err"
  shows "all_ok S ra'"
  using assms(1) unfolding to_err_def
proof (cases rule: change_cases)
  case 1
  then show ?thesis using assms(3) by simp
next
  case (2 x)
  show ?thesis by (rule err_settles [OF 2(3) status_others [OF assms(2) 2(1)]])
qed

lemma fail_to_err_ok:
  assumes "fail_to_err why d ra = Some (r, ra')" and "others_ok S d ra" and "d_st (dev_of ra d) \<noteq> st_err"
  shows "all_ok S ra'"
proof -
  obtain ra1 where 1: "dev_upd d (\<lambda>x. x\<lparr>reason := why\<rparr>) ra = Some ra1" "to_err d ra1 = Some (r, ra')"
    using assms(1) by (auto simp: fail_to_err_def bind_eq_Some_conv)
  have k: "dev_keep d ra ra1" by (rule keep_upd [OF 1(1)]) (simp add: dev_key_def)
  show ?thesis by (rule to_err_ok [OF 1(2) keep_others [OF assms(2) k]]) (use k assms(3) in \<open>simp add: dev_keep_def\<close>)
qed

lemma into_acct_keep: "st_into_acct e d ra = Some (r, ra') \<Longrightarrow> dev_keep d ra ra'"
  unfolding st_into_acct_def Let_def bind_eq_Some_conv
  apply (elim exE conjE)
  apply (drule keep_acct_info, drule keep_upd, simp add: dev_key_def, drule keep_sess_upd)
  apply (auto intro: keep_trans)
  done

lemma acct_stop_keep:
  assumes "(if net_failed x then Some ra
        else do {
          r1 \<leftarrow> dev_upd d (\<lambda>x. x\<lparr>reason := 2\<rparr>) ra;
          r2 \<leftarrow> ra_fill_acct_info e d r1;
          r3 \<leftarrow> dev_upd d (\<lambda>x. x\<lparr>retry_timeout := ra_retry_timeout r2, retry_times := ra_retry_times r2\<rparr>) r2;
          sess_upd d SRad (sess_watch e EMS_EVT_WRITE (ra_retry_timeout r2 * 1000)) r3
        }) = Some ra'" and "d \<in> set (dev_live ra)"
  shows "dev_keep d ra ra'"
proof (cases "net_failed x")
  case True
  then show ?thesis using assms keep_refl by simp
next
  case False
  then obtain r1 r2 r3 where 1: "dev_upd d (\<lambda>x. x\<lparr>reason := 2\<rparr>) ra = Some r1" and 2: "ra_fill_acct_info e d r1 = Some r2"
    and 3: "dev_upd d (\<lambda>x. x\<lparr>retry_timeout := ra_retry_timeout r2, retry_times := ra_retry_times r2\<rparr>) r2 = Some r3"
    and 4: "sess_upd d SRad (sess_watch e EMS_EVT_WRITE (ra_retry_timeout r2 * 1000)) r3 = Some ra'"
    using assms(1) by (auto simp: bind_eq_Some_conv)
  have "dev_keep d ra r1" by (rule keep_upd [OF 1]) (simp add: dev_key_def)
  also have "dev_keep d r1 r2" by (rule keep_acct_info [OF 2])
  also have "dev_keep d r2 r3" by (rule keep_upd [OF 3]) (simp add: dev_key_def)
  also have "dev_keep d r3 ra'" by (rule keep_sess_upd [OF 4])
  finally show ?thesis .
qed

lemma into_acct_stop_cases:
  assumes "st_into_acct_stop e d ra = Some (r, ra')"
  obtains "dev_keep d ra ra'" | ra3 where "dev_keep d ra ra3" and "to_err d ra3 = Some (r, ra')"
proof -
  obtain x ra1 y ra3 where x: "dev_get d ra = Some x" and 1: "(if net_failed x then Some ra
        else do {
          r1 \<leftarrow> dev_upd d (\<lambda>x. x\<lparr>reason := 2\<rparr>) ra;
          r2 \<leftarrow> ra_fill_acct_info e d r1;
          r3 \<leftarrow> dev_upd d (\<lambda>x. x\<lparr>retry_timeout := ra_retry_timeout r2, retry_times := ra_retry_times r2\<rparr>) r2;
          sess_upd d SRad (sess_watch e EMS_EVT_WRITE (ra_retry_timeout r2 * 1000)) r3
        }) = Some ra1" and y: "dev_get d ra1 = Some y"
    and 3: "ra_device_firewall_set_rules d False (ra_emit (NicSend ty_radius ty_portal EMS_APP_CMD_PORTAL_LOGOUT (user_obj y (reason y))) ra1) = Some ra3"
    and 4: "(if reason y \<noteq> 2 then to_err d ra3 else Some (EMS_OK, ra3)) = Some (r, ra')"
    using assms(1) by (auto simp: st_into_acct_stop_def bind_eq_Some_conv Let_def)
  have "dev_keep d ra ra1" using acct_stop_keep [OF 1] x by (simp add: dev_get_Some)
  also have "dev_keep d ra1 (ra_emit (NicSend ty_radius ty_portal EMS_APP_CMD_PORTAL_LOGOUT (user_obj y (reason y))) ra1)"
    using y by (intro keep_emit) (simp_all add: dev_get_Some)
  also have "dev_keep d (ra_emit (NicSend ty_radius ty_portal EMS_APP_CMD_PORTAL_LOGOUT (user_obj y (reason y))) ra1) ra3" by (rule keep_fw [OF 3])
  finally have k: "dev_keep d ra ra3" .
  show ?thesis
  proof (cases "reason y = 2")
    case True
    then show ?thesis using 4 k that(1) by simp
  next
    case False
    then show ?thesis using 4 k that(2) by simp
  qed
qed

lemma into_acct_stop_ok:
  assumes "st_into_acct_stop e d ra = Some (r, ra')" and "unsettled S d ra" and "d_st (dev_of ra d) = st_acct_stop"
    and "st_acct_stop \<in> S"
  shows "all_ok S ra'"
  using assms(1)
proof (cases rule: into_acct_stop_cases)
  case 1
  then show ?thesis using unsettled_all [OF keep_unsettled [OF assms(2) 1] keep_live [OF 1]] assms(3,4) by (simp add: dev_keep_def)
next
  case (2 ra3)
  then show ?thesis using to_err_ok [OF 2(2)] keep_unsettled [OF assms(2) 2(1)] by (simp add: unsettled_def)
qed

lemma status_unsettled:
  "unsettled S d ra \<Longrightarrow> dev_get d ra = Some x \<Longrightarrow> st \<noteq> st_err \<Longrightarrow> unsettled S d (dev_put d (x\<lparr>d_st := st\<rparr>) ra)"
  using status_others [of S d ra x st] by (auto simp: unsettled_def dev_get_Some)

lemma to_acct_stop_ok:
  assumes "to_acct_stop e d ra = Some (r, ra')" and "unsettled S d ra" and "st_acct_stop \<in> S"
  shows "all_ok S ra'"
  using assms(1) unfolding to_acct_stop_def
proof (cases rule: change_cases)
  case 1
  then show ?thesis using unsettled_all [OF assms(2)] assms(3) by simp
next
  case (2 x)
  show ?thesis by (rule into_acct_stop_ok [OF 2(3) status_unsettled [OF assms(2) 2(1)]]) (use assms(3) in simp_all)
qed

lemma err_to_stop_ok:
  assumes "err_to_stop e err d ra = Some (r, ra')" and "unsettled S d ra" and "st_acct_stop \<in> S"
  shows "all_ok S ra'"
proof -
  obtain ra1 where 1: "dev_upd d (\<lambda>x. x\<lparr>d_err := err\<rparr>) ra = Some ra1" "to_acct_stop e d ra1 = Some (r, ra')"
    using assms(1) by (auto simp: err_to_stop_def bind_eq_Some_conv)
  have "dev_keep d ra ra1" by (rule keep_upd [OF 1(1)]) (simp add: dev_key_def)
  then show ?thesis using to_acct_stop_ok [OF 1(2) keep_unsettled [OF assms(2)] assms(3)] by simp
qed

lemma fail_to_stop_ok:
  assumes "fail_to_stop e why d ra = Some (r, ra')" and "unsettled S d ra" and "st_acct_stop \<in> S"
  shows "all_ok S ra'"
proof -
  obtain ra1 where 1: "dev_upd d (\<lambda>x. x\<lparr>reason := why\<rparr>) ra = Some ra1" "to_acct_stop e d ra1 = Some (r, ra')"
    using assms(1) by (auto simp: fail_to_stop_def bind_eq_Some_conv)
  have "dev_keep d ra ra1" by (rule keep_upd [OF 1(1)]) (simp add: dev_key_def)
  then show ?thesis using to_acct_stop_ok [OF 1(2) keep_unsettled [OF assms(2)] assms(3)] by simp
qed

subsection \<open>Changes of the status\<close>

text \<open>The states of a device between two events.\<close>

definition live_st :: "ems_status set" where
  "live_st = {st_auth, st_acct, st_normal, st_hb, st_acct_stop}"

lemma live_st [simp]: "st_auth \<in> live_st" "st_acct \<in> live_st" "st_normal \<in> live_st" "st_hb \<in> live_st" "st_acct_stop \<in> live_st"
    "st_err \<notin> live_st" "st_init \<notin> live_st"
  by (simp_all add: live_st_def)

lemma plain_change_ok:
  assumes "change_with (\<lambda>d ra. Some (EMS_OK, ra)) st d ra = Some (r, ra')" and "unsettled S d ra" and "st \<in> S" and "st \<noteq> st_err"
  shows "all_ok S ra'"
  using assms(1)
proof (cases rule: change_cases)
  case 1
  then show ?thesis using unsettled_all [OF assms(2)] assms(3) by simp
next
  case (2 x)
  then have "ra' = dev_put d (x\<lparr>d_st := st\<rparr>) ra" by simp
  then show ?thesis using unsettled_all [OF status_unsettled [OF assms(2) 2(1) assms(4)]] 2(1) assms(3) by (simp add: dev_get_Some)
qed

lemma start_ok:
  assumes "ra_start e d ra = Some (r, ra')" and "others_ok S d ra" and "d_st (dev_of ra d) \<noteq> st_err" and "st_auth \<in> S"
  shows "all_ok S ra'"
proof -
  obtain x where x: "dev_get d ra = Some x" using assms(1) by (auto simp: ra_start_def bind_eq_Some_conv)
  show ?thesis
  proof (cases "ra_session e x")
    case None
    then obtain r1 where "fail_to_err RADIUS_ERR_NETWORK d ra = Some (r1, ra')"
      using assms(1) x by (auto simp: ra_start_def bind_eq_Some_conv)
    then show ?thesis using fail_to_err_ok assms(2,3) by blast
  next
    case (Some t)
    obtain ret t1 where t1: "ra_connect e (sess_target (auth_addr ra) (auth_port ra) (t\<lparr>cbarg := d\<rparr>)) = (ret, t1)" by fastforce
    let ?ra1 = "dev_put d (x\<lparr>d_sess := Some t1\<rparr>) ra"
    have k1: "dev_keep d ra ?ra1" by (rule keep_put [OF x]) (simp_all add: dev_key_def)
    have o1: "others_ok S d ?ra1" "d_st (dev_of ?ra1 d) \<noteq> st_err"
      using keep_others [OF assms(2) k1] k1 assms(3) by (simp_all add: dev_keep_def)
    show ?thesis
    proof (cases "ret = EMS_OK")
      case False
      then have "fail_to_err RADIUS_ERR_NETWORK d ?ra1 = Some (r, ra')"
        using assms(1) x Some t1 by (simp add: ra_start_def)
      then show ?thesis by (rule fail_to_err_ok [OF _ o1])
    next
      case True
      obtain ra2 ra3 ra4 where 2: "ra_fill_auth_request_info e d ?ra1 = Some ra2"
        and 3: "dev_upd d (\<lambda>x. x\<lparr>retry_times := ra_retry_times ra2, retry_timeout := ra_retry_timeout ra2, reason := 0\<rparr>) ra2 = Some ra3"
        and 4: "sess_upd d SRad (sess_watch e EMS_EVT_WRITE (ra_retry_timeout ra2 * 1000)) ra3 = Some ra4"
        and 5: "change_with (\<lambda>d ra. Some (EMS_OK, ra)) st_auth d ra4 = Some (r, ra')"
        using assms(1) x Some t1 True by (auto simp: ra_start_def bind_eq_Some_conv)
      have "unsettled S d ?ra1" using o1 by (simp add: unsettled_def)
      moreover have "dev_keep d ?ra1 ra2" by (rule keep_auth_info [OF 2])
      moreover have "dev_keep d ra2 ra3" by (rule keep_upd [OF 3]) (simp add: dev_key_def)
      moreover have "dev_keep d ra3 ra4" by (rule keep_sess_upd [OF 4])
      ultimately have "unsettled S d ra4" using keep_unsettled by blast
      then show ?thesis by (rule plain_change_ok [OF 5]) (use assms(4) in simp_all)
    qed
  qed
qed

lemma ping_prepare_keep: "ping_prepare e d t ra = Some (r, ra') \<Longrightarrow> dev_keep d ra ra'"
  by (cases "ra_ping_connect e (t\<lparr>buf_out := ems_buffer_clear (buf_out t), buf_in := ems_buffer_clear (buf_in t),
        sock := snd (ems_sock_setaddr True (sock t) (Some (du_ip (dev_of ra d))))\<rparr>)")
    (auto simp: ping_prepare_def bind_eq_Some_conv Let_def dev_key_def dev_get_Some intro!: keep_put)

lemma ping_send_keep: "ping_send e d ra = Some (r, ra') \<Longrightarrow> dev_keep d ra ra'"
  by (auto simp: ping_send_def bind_eq_Some_conv Let_def dev_key_def intro!: keep_put)

lemma keep_step: "unsettled S d ra \<and> d_st (dev_of ra d) \<in> S \<or> all_ok S ra \<Longrightarrow> dev_keep d ra ra' \<Longrightarrow> all_ok S ra'"
  using unsettled_all [of S d ra'] keep_unsettled [of S d ra ra'] keep_all [of S ra d ra'] by (auto simp: dev_keep_def)

lemma into_ping_ok:
  assumes "st_into_ping e d ra = Some (r, ra')" and "unsettled live_st d ra" and "d_st (dev_of ra d) = st_hb"
  shows "all_ok live_st ra'"
proof -
  obtain x where x: "dev_get d ra = Some x" using assms(1) by (auto simp: st_into_ping_def bind_eq_Some_conv)
  show ?thesis
  proof (cases "sess_dev x")
    case (Some t)
    then have "ping_send e d ra = Some (r, ra')" using assms(1) x by (simp add: st_into_ping_def)
    then show ?thesis using keep_step ping_send_keep assms(2,3) by fastforce
  next
    case None
    then obtain ret ra1 where 1: "st_ping_prepare_sess e d ra = Some (ret, ra1)"
      and 2: "(if ret \<noteq> EMS_OK then do { ra2 \<leftarrow> dev_upd d (\<lambda>x. x\<lparr>d_err := 2, reason := 2\<rparr>) ra1; to_acct_stop e d ra2 }
          else ping_send e d ra1) = Some (r, ra')"
      using assms(1) x by (auto simp: st_into_ping_def bind_eq_Some_conv)
    have "dev_keep d ra ra1 \<or> err_to_stop e 2 d ra = Some (ret, ra1)"
      using 1 x None ping_prepare_keep by (auto simp: st_ping_prepare_sess_def split: option.splits)
    then have a: "all_ok live_st ra1"
      using keep_step [of live_st d ra ra1] err_to_stop_ok [of e 2 d ra ret ra1 live_st] assms(2,3) by auto
    show ?thesis
    proof (cases "ret = EMS_OK")
      case True
      then have "ping_send e d ra1 = Some (r, ra')" using 2 by simp
      then show ?thesis by (rule keep_all [OF a ping_send_keep])
    next
      case False
      then obtain ra2 where 3: "dev_upd d (\<lambda>x. x\<lparr>d_err := 2, reason := 2\<rparr>) ra1 = Some ra2" "to_acct_stop e d ra2 = Some (r, ra')"
        using 2 by (auto simp: bind_eq_Some_conv)
      have k: "dev_keep d ra1 ra2" by (rule keep_upd [OF 3(1)]) (simp add: dev_key_def)
      have "unsettled live_st d ra2" using all_unsettled [OF keep_all [OF a k] keep_live [OF k]] by simp
      then show ?thesis by (rule to_acct_stop_ok [OF 3(2)]) simp
    qed
  qed
qed

lemma change_status_ok:
  assumes "dev_change_status e d st ra = Some (r, ra')" and "unsettled live_st d ra" and "st \<in> insert st_start (insert st_err live_st)"
    and "d_st (dev_of ra d) \<noteq> st_start"
  shows "all_ok live_st ra'"
proof -
  note u = assms(2)
  have o1: "others_ok live_st d ra" "d_st (dev_of ra d) \<noteq> st_err" using u by (simp_all add: unsettled_def)
  have plain: "all_ok live_st ra'" if "change_with (\<lambda>d ra. Some (EMS_OK, ra)) st d ra = Some (r, ra')" "st \<in> live_st"
    using plain_change_ok [OF that(1) u] that(2) by (cases st) auto
  consider "st = st_start" | "st = st_err" | "st = st_acct" | "st = st_hb" | "st = st_acct_stop" | "st = st_auth" | "st = st_normal"
    using assms(3) by (auto simp: live_st_def)
  then show ?thesis
  proof cases
    case 1
    then have "change_with (ra_start e) st_start d ra = Some (r, ra')" using assms(1) by (simp add: dev_change_status_def)
    then show ?thesis
    proof (cases rule: change_cases)
      case 1
      then show ?thesis using assms(4) by simp
    next
      case (2 x)
      show ?thesis by (rule start_ok [OF 2(3) status_others [OF o1(1) 2(1)]]) simp_all
    qed
  next
    case 2
    then have "to_err d ra = Some (r, ra')" using assms(1) by (simp add: dev_change_status_def)
    then show ?thesis by (rule to_err_ok [OF _ o1])
  next
    case 3
    then have "change_with (st_into_acct e) st_acct d ra = Some (r, ra')" using assms(1) by (simp add: dev_change_status_def)
    then show ?thesis
    proof (cases rule: change_cases)
      case 1
      then show ?thesis using unsettled_all [OF u] by simp
    next
      case (2 x)
      show ?thesis using keep_step [OF _ into_acct_keep [OF 2(3)]] status_unsettled [OF u 2(1)] by simp
    qed
  next
    case 4
    then obtain r1 where "change_with (st_into_ping e) st_hb d ra = Some (r1, ra')"
      using assms(1) by (auto simp: dev_change_status_def bind_eq_Some_conv)
    then show ?thesis
    proof (cases rule: change_cases)
      case 1
      then show ?thesis using unsettled_all [OF u] by simp
    next
      case (2 x)
      show ?thesis by (rule into_ping_ok [OF 2(3) status_unsettled [OF u 2(1)]]) simp_all
    qed
  next
    case 5
    then have "to_acct_stop e d ra = Some (r, ra')" using assms(1) by (simp add: dev_change_status_def)
    then show ?thesis by (rule to_acct_stop_ok [OF _ u]) simp
  qed (use assms(1) plain in \<open>simp_all add: dev_change_status_def\<close>)
qed

subsection \<open>Rules for the bodies of the handlers\<close>

text \<open>An outcome is in order when it is undefined or its state is.\<close>

definition okres :: "ems_status set \<Rightarrow> (int \<times> ems_radius) option \<Rightarrow> bool" where
  "okres S m \<longleftrightarrow> (\<forall>r ra'. m = Some (r, ra') \<longrightarrow> all_ok S ra')"

named_theorems okres_rules \<open>rules that take the body of a handler apart\<close>

lemma okresD: "okres S m \<Longrightarrow> m = Some (r, ra') \<Longrightarrow> all_ok S ra'"
  by (simp add: okres_def)

lemma okres_basic [okres_rules]:
  "all_ok S ra \<Longrightarrow> okres S (Some (r, ra))" "okres S None"
  "(b \<Longrightarrow> okres S m) \<Longrightarrow> (\<not> b \<Longrightarrow> okres S m') \<Longrightarrow> okres S (if b then m else m')"
  by (simp_all add: okres_def)

lemma okres_prod: "(\<And>a b. y = (a, b) \<Longrightarrow> okres S (g a b)) \<Longrightarrow> okres S (case y of (a, b) \<Rightarrow> g a b)"
  by (cases y) simp

lemma okres_bind: "(\<And>y. m = Some y \<Longrightarrow> okres S (g y)) \<Longrightarrow> okres S (Option.bind m g)"
  by (auto simp: okres_def bind_eq_Some_conv)

lemma okres_get [okres_rules]:
  "(\<And>x. dev_get d ra = Some x \<Longrightarrow> okres S (g x)) \<Longrightarrow> okres S (Option.bind (dev_get d ra) g)"
  "(\<And>t. sess_get d s ra = Some t \<Longrightarrow> okres S (h t)) \<Longrightarrow> okres S (Option.bind (sess_get d s ra) h)"
  "(\<And>c. rsp_code d s ra = Some c \<Longrightarrow> okres S (k c)) \<Longrightarrow> okres S (Option.bind (rsp_code d s ra) k)"
  by (rule okres_bind, blast)+

lemma okres_upd [okres_rules]:
  "all_ok S ra \<Longrightarrow> (\<And>x. dev_key (f x) = dev_key x \<and> d_st (f x) = d_st x \<and> (d_sess x \<noteq> None \<longrightarrow> d_sess (f x) \<noteq> None)) \<Longrightarrow>
    (\<And>ra1. all_ok S ra1 \<Longrightarrow> okres S (g ra1)) \<Longrightarrow> okres S (Option.bind (dev_upd d f ra) g)"
  by (rule okres_bind) (use keep_all keep_upd in blast)

lemma okres_sess_upd [okres_rules]:
  "all_ok S ra \<Longrightarrow> (\<And>ra1. all_ok S ra1 \<Longrightarrow> okres S (g ra1)) \<Longrightarrow> okres S (Option.bind (sess_upd d s f ra) g)"
  by (rule okres_bind) (use keep_all keep_sess_upd in blast)

lemma okres_fw [okres_rules]:
  "all_ok S ra \<Longrightarrow> (\<And>ra1. all_ok S ra1 \<Longrightarrow> okres S (g ra1)) \<Longrightarrow> okres S (Option.bind (ra_device_firewall_set_rules d b ra) g)"
  by (rule okres_bind) (use keep_all keep_fw in blast)

lemma okres_map_sess [okres_rules]: "all_ok S ra \<Longrightarrow> okres S (map_option (Pair r) (sess_upd d s f ra))"
  unfolding okres_def by (auto intro: keep_all dest: keep_sess_upd)

lemma okres_res:
  "okres S m \<Longrightarrow> (\<And>r ra1. all_ok S ra1 \<Longrightarrow> okres S (g r ra1)) \<Longrightarrow> okres S (Option.bind m (\<lambda>(r, ra1). g r ra1))"
  by (auto simp: okres_def bind_eq_Some_conv)

lemma all_put:
  "all_ok S ra \<Longrightarrow> dev_get d ra = Some x \<Longrightarrow> dev_key y = dev_key x \<Longrightarrow> d_st y = d_st x \<Longrightarrow> (d_sess x \<noteq> None \<longrightarrow> d_sess y \<noteq> None) \<Longrightarrow>
    all_ok S (dev_put d y ra)"
  using keep_all keep_put by blast

lemma all_emit: "all_ok S ra \<Longrightarrow> \<not> fw_evt m \<Longrightarrow> all_ok S (ra_emit m ra)"
proof -
  assume a: "all_ok S ra" "\<not> fw_evt m"
  then have "fw_free (ra_out ra @ [m]) = fw_free (ra_out ra)" by (intro ext) (simp add: fw_free_snoc)
  with a show ?thesis by (simp add: all_ok_def dev_tab_def ra_emit_def)
qed

lemma all_fields [simp]:
  "all_ok S (ra\<lparr>lasterr := v\<rparr>) = all_ok S ra" "all_ok S (ra\<lparr>rh := b\<rparr>) = all_ok S ra"
  by (simp_all add: all_ok_def dev_tab_def)

lemma okres_fail_to_err [okres_rules]: "all_ok S ra \<Longrightarrow> st_err \<notin> S \<Longrightarrow> okres S (fail_to_err why d ra)"
  unfolding okres_def
proof (intro allI impI)
  fix r ra' assume a: "all_ok S ra" "st_err \<notin> S" "fail_to_err why d ra = Some (r, ra')"
  then have "d \<in> set (dev_live ra)" by (auto simp: fail_to_err_def bind_eq_Some_conv dev_upd_def dev_get_Some)
  then have "unsettled S d ra" using all_unsettled a by simp
  then show "all_ok S ra'" using fail_to_err_ok [OF a(3)] by (simp add: unsettled_def)
qed

lemma okres_stop [okres_rules]:
  assumes "all_ok S ra" and "st_err \<notin> S" and "st_acct_stop \<in> S"
  shows "okres S (err_to_stop e err d ra)" and "okres S (fail_to_stop e err d ra)" and "okres S (to_acct_stop e d ra)"
proof -
  have u: "unsettled S d ra" if "d \<in> set (dev_live ra)" using all_unsettled [OF assms(1) that assms(2)] .
  show "okres S (err_to_stop e err d ra)" unfolding okres_def
    using err_to_stop_ok [OF _ u assms(3)] by (auto simp: err_to_stop_def bind_eq_Some_conv dev_upd_def dev_get_Some)
  show "okres S (fail_to_stop e err d ra)" unfolding okres_def
    using fail_to_stop_ok [OF _ u assms(3)] by (auto simp: fail_to_stop_def bind_eq_Some_conv dev_upd_def dev_get_Some)
  show "okres S (to_acct_stop e d ra)" unfolding okres_def
    using to_acct_stop_ok [OF _ u assms(3)] by (auto simp: to_acct_stop_def change_with_def bind_eq_Some_conv dev_get_Some)
qed

lemma change_live: "dev_change_status e d st ra = Some (r, ra') \<Longrightarrow> d \<in> set (dev_live ra)"
  by (cases st) (auto simp: dev_change_status_def to_err_def to_acct_stop_def change_with_def bind_eq_Some_conv dev_get_Some)

lemma okres_change [okres_rules]:
  assumes "all_ok live_st ra" and "st \<in> insert st_start (insert st_err live_st)"
  shows "okres live_st (dev_change_status e d st ra)"
  unfolding okres_def
proof (intro allI impI)
  fix r ra' assume c: "dev_change_status e d st ra = Some (r, ra')"
  have d: "d \<in> set (dev_live ra)" by (rule change_live [OF c])
  then have "d_st (dev_of ra d) \<noteq> st_start" using assms(1) by (auto simp: all_ok_def dev_good_def)
  then show "all_ok live_st ra'" using change_status_ok [OF c all_unsettled [OF assms(1) d] assms(2)] by simp
qed

subsection \<open>Receiving: the contract of a handler of replies\<close>

locale rsp_contract =
  fixes S :: "ems_status set" and h :: rsp_handler
  assumes handler: "all_ok S ra \<Longrightarrow> okres S (h d s ra)"
begin

lemma process_ok: "all_ok S ra \<Longrightarrow> okres S (dev_process_rsp e d s h ra)"
  unfolding dev_process_rsp_def Let_def
  by (rule okres_rules handler | assumption | (rule okres_res, rule handler) | rule okres_bind okres_prod | simp add: dev_key_def)+

lemma preprocess_ok: "all_ok S ra \<Longrightarrow> okres S (dev_preprocess e d s h ra)"
  unfolding dev_preprocess_def Let_def
  by (rule okres_rules | assumption | (rule okres_res, rule process_ok) | rule okres_bind okres_prod)+

lemma loop_ok: "all_ok S ra \<Longrightarrow> okres S (preprocess_loop e d s h ra)"
proof -
  have "all_ok S ra \<longrightarrow> h' = h \<longrightarrow> all_ok S (snd y)" if "preprocess_loop e d s h' ra = Some y" for e d s h' ra y
  proof (rule preprocess_loop.raw_induct [where P = "\<lambda>e d s h' ra y. all_ok S ra \<longrightarrow> h' = h \<longrightarrow> all_ok S (snd y)", OF _ that], intro impI)
    fix f :: "rad_env \<Rightarrow> nat \<Rightarrow> sess_id \<Rightarrow> rsp_handler \<Rightarrow> ems_radius \<Rightarrow> (int \<times> ems_radius) option"
      and e :: rad_env and d s h' and ra :: ems_radius and y
    assume IH: "\<And>e d s h' ra y. f e d s h' ra = Some y \<Longrightarrow> all_ok S ra \<longrightarrow> h' = h \<longrightarrow> all_ok S (snd y)"
      and b: "Option.bind (dev_preprocess e d s h' ra) (\<lambda>(ret, ra1).
        if ret = EMS_BUFFER_INSUFFICIENT \<or> ret = EMS_ERR then Some (EMS_ERR, ra1)
        else if ret = EMS_CONTINUE then Some (EMS_OK, ra1) else f e d s h' ra1) = Some y"
      and a: "all_ok S ra" "h' = h"
    obtain ret ra1 where p: "dev_preprocess e d s h' ra = Some (ret, ra1)" using b by (auto simp: bind_eq_Some_conv)
    have "all_ok S ra1" using okresD [OF preprocess_ok [OF a(1)]] p a(2) by simp
    then show "all_ok S (snd y)" using IH b p a(2) by (auto split: if_splits)
  qed
  then show "all_ok S ra \<Longrightarrow> okres S (preprocess_loop e d s h ra)" by (fastforce simp: okres_def)
qed

lemma recv_ok: "all_ok S ra \<Longrightarrow> okres S (ra_recv_msg e d s h rss ra)"
proof (induction rss arbitrary: ra)
  case (Cons rs rss)
  show ?case unfolding ra_recv_msg.simps Let_def
    by (rule okres_rules preprocess_ok Cons.IH | rule Cons.prems | assumption | (rule okres_res, rule loop_ok) | rule okres_bind okres_prod)+
qed (simp add: okres_def)

end

subsection \<open>Replies\<close>

lemma okres_acct_connect [okres_rules]: "all_ok live_st ra \<Longrightarrow> okres live_st (ra_connect_to_acct_server e d s ra)"
  unfolding ra_connect_to_acct_server_def Let_def
  by (rule okres_rules | assumption | (rule okres_res, rule okres_rules) | rule okres_bind okres_prod | simp add: dev_key_def all_emit)+

lemma okres_acct_user [okres_rules]: "all_ok live_st ra \<Longrightarrow> okres live_st (ra_start_to_acct_user e d s ra)"
  unfolding ra_start_to_acct_user_def Let_def
  by (rule okres_rules | assumption | (rule okres_res, rule okres_rules) | rule okres_bind okres_prod | simp add: dev_key_def all_emit)+

lemma okres_auth_rsp [okres_rules]: "all_ok live_st ra \<Longrightarrow> okres live_st (ra_auth_rsp e d s ra)"
  unfolding ra_auth_rsp_def Let_def
  by (rule okres_rules | assumption | (rule okres_res, rule okres_rules) | rule okres_bind okres_prod | simp add: dev_key_def all_emit)+

lemma okres_acct_rsp [okres_rules]: "all_ok live_st ra \<Longrightarrow> okres live_st (ra_acct_rsp e d s ra)"
  unfolding ra_acct_rsp_def Let_def
  by (rule okres_rules | assumption | (rule okres_res, rule okres_rules) | rule okres_bind okres_prod | simp add: dev_key_def all_emit)+

lemma okres_normal_rsp [okres_rules]: "all_ok live_st ra \<Longrightarrow> okres live_st (ra_normal_rsp d s ra)"
  unfolding ra_normal_rsp_def Let_def
  by (rule okres_rules | assumption | (rule okres_res, rule okres_rules) | rule okres_bind okres_prod | simp add: dev_key_def all_emit)+

lemma okres_stopped_rsp [okres_rules]: "all_ok S ra \<Longrightarrow> st_err \<notin> S \<Longrightarrow> okres S (ra_acct_stopped_rsp d s ra)"
  unfolding ra_acct_stopped_rsp_def Let_def
  by (rule okres_rules | assumption | (rule okres_res, rule okres_rules) | rule okres_bind okres_prod | simp add: dev_key_def all_emit)+

interpretation auth_rsp: rsp_contract live_st "ra_auth_rsp e" for e
  by unfold_locales (rule okres_auth_rsp)

interpretation acct_rsp: rsp_contract live_st "ra_acct_rsp e" for e
  by unfold_locales (rule okres_acct_rsp)

interpretation normal_rsp: rsp_contract live_st ra_normal_rsp
  by unfold_locales (rule okres_normal_rsp)

interpretation stopped_rsp: rsp_contract "S - {st_err}" ra_acct_stopped_rsp for S
  by unfold_locales (rule okres_stopped_rsp, simp_all)

subsection \<open>Events and timers\<close>

lemmas recv_rules [okres_rules] = auth_rsp.recv_ok acct_rsp.recv_ok normal_rsp.recv_ok

lemma recv_stopped [okres_rules]:
  "all_ok S ra \<Longrightarrow> st_err \<notin> S \<Longrightarrow> okres S (ra_recv_msg e d s ra_acct_stopped_rsp rss ra)"
  using stopped_rsp.recv_ok [of S ra e d s rss] by simp

lemma okres_send [okres_rules]: "all_ok S ra \<Longrightarrow> okres S (ra_send_msg d s rets ra)"
  unfolding ra_send_msg_def Let_def
  by (rule okres_rules | assumption | (rule okres_res, rule okres_rules) | rule okres_bind okres_prod | simp add: dev_key_def all_emit)+

lemma okres_auth [okres_rules]: "all_ok live_st ra \<Longrightarrow> okres live_st (ra_auth e d s flg rss rets ra)"
  unfolding ra_auth_def Let_def
  by (rule okres_rules | assumption | (rule okres_res, rule okres_rules) | rule okres_bind okres_prod | simp add: dev_key_def all_emit)+

lemma all_missed: "all_ok S ra \<Longrightarrow> dev_get d ra = Some x \<Longrightarrow> all_ok S (dev_put d (x\<lparr>disconnect_server := n\<rparr>) ra)"
  by (rule all_put) (auto simp: dev_key_def)

lemma okres_retry [okres_rules]: "all_ok live_st ra \<Longrightarrow> okres live_st (ra_retry_connect_server e d s ra)"
  unfolding ra_retry_connect_server_def Let_def
  by (rule okres_rules all_missed | assumption | (rule okres_res, rule okres_rules) | rule okres_bind okres_prod | simp add: dev_key_def all_emit)+

lemma okres_acct_failed [okres_rules]: "all_ok live_st ra \<Longrightarrow> okres live_st (acct_failed e d s ra)"
  unfolding acct_failed_def Let_def
  by (rule okres_rules | assumption | (rule okres_res, rule okres_rules) | rule okres_bind okres_prod | simp add: dev_key_def all_emit)+

lemma okres_if_res [okres_rules]:
  "all_ok S ra \<Longrightarrow> (b \<Longrightarrow> okres S m) \<Longrightarrow> (\<And>r ra1. all_ok S ra1 \<Longrightarrow> okres S (g r ra1)) \<Longrightarrow>
    okres S (Option.bind (if b then m else Some (r0, ra)) (\<lambda>(r, ra1). g r ra1))"
  by (auto simp: okres_def bind_eq_Some_conv split: if_splits)

lemma okres_acct [okres_rules]: "all_ok live_st ra \<Longrightarrow> okres live_st (ra_acct e d s flg rss rets ra)"
  unfolding ra_acct_def Let_def
  by (rule okres_rules | assumption | (rule okres_res, rule okres_rules) | rule okres_bind okres_prod | simp add: dev_key_def all_emit)+

lemma okres_normal [okres_rules]: "all_ok live_st ra \<Longrightarrow> okres live_st (ra_normal e d s flg rss ra)"
  unfolding ra_normal_def Let_def
  by (rule okres_rules | assumption | (rule okres_res, rule okres_rules) | rule okres_bind okres_prod | simp add: dev_key_def all_emit)+

lemma okres_ping_handle [okres_rules]: "all_ok live_st ra \<Longrightarrow> okres live_st (ra_ping_recv_handle e d s ra)"
  unfolding ra_ping_recv_handle_def Let_def
  by (rule okres_rules | assumption | (rule okres_res, rule okres_rules) | rule okres_bind okres_prod | simp add: dev_key_def all_emit)+

lemma okres_ping_loop [okres_rules]: "all_ok live_st ra \<Longrightarrow> okres live_st (ra_ping_loop e d s wr len rs ra)"
proof (induction rs arbitrary: ra)
  case (Cons r rs)
  obtain bs errno where r: "r = (bs, errno)" by fastforce
  show ?case unfolding r ra_ping_loop.simps Let_def
    by (rule okres_rules Cons.IH | rule Cons.prems | assumption | (rule okres_res, rule okres_rules) | rule okres_bind okres_prod)+
qed (simp add: okres_def)

lemma okres_ping [okres_rules]: "all_ok live_st ra \<Longrightarrow> okres live_st (ra_ping e d s flg rs rets ra)"
  unfolding ra_ping_def ra_ping_recv_def Let_def
  by (rule okres_rules | assumption | (rule okres_res, rule okres_rules) | rule okres_bind okres_prod | simp add: dev_key_def all_emit)+

lemma okres_stopped [okres_rules]: "all_ok S ra \<Longrightarrow> st_err \<notin> S \<Longrightarrow> okres S (ra_acct_stopped e d s flg rss rets ra)"
  unfolding ra_acct_stopped_def Let_def
  by (rule okres_rules | assumption | (rule okres_res, rule okres_rules) | rule okres_bind okres_prod | simp add: dev_key_def all_emit)+

lemma okres_to_auth [okres_rules]: "all_ok live_st ra \<Longrightarrow> okres live_st (ra_to_auth e d s ra)"
  unfolding ra_to_auth_def Let_def
  by (rule okres_rules | assumption | (rule okres_res, rule okres_rules) | rule okres_bind okres_prod | simp add: dev_key_def all_emit)+

lemma okres_to_acct [okres_rules]: "all_ok live_st ra \<Longrightarrow> okres live_st (ra_to_acct e d s ra)"
  unfolding ra_to_acct_def Let_def
  by (rule okres_rules | assumption | (rule okres_res, rule okres_rules) | rule okres_bind okres_prod | simp add: dev_key_def all_emit)+

lemma okres_to_normal [okres_rules]: "all_ok live_st ra \<Longrightarrow> okres live_st (ra_to_normal e d s ra)"
  unfolding ra_to_normal_def Let_def
  by (rule okres_rules | assumption | (rule okres_res, rule okres_rules) | rule okres_bind okres_prod | simp add: dev_key_def all_emit)+

lemma okres_to_ping [okres_rules]: "all_ok live_st ra \<Longrightarrow> okres live_st (ra_to_ping e d s ra)"
  unfolding ra_to_ping_def Let_def
  by (rule okres_rules | assumption | (rule okres_res, rule okres_rules) | rule okres_bind okres_prod | simp add: dev_key_def all_emit)+

lemma okres_to_stopped [okres_rules]: "all_ok S ra \<Longrightarrow> st_err \<notin> S \<Longrightarrow> okres S (ra_to_acct_stopped e d s ra)"
  unfolding ra_to_acct_stopped_def Let_def
  by (rule okres_rules | assumption | (rule okres_res, rule okres_rules) | rule okres_bind okres_prod | simp add: dev_key_def all_emit)+

subsection \<open>The dispatch\<close>

lemma okres_evt_run:
  assumes "all_ok S ra" and "S = live_st \<or> S = {st_acct_stop}"
  shows "okres S (dev_evt_run e d s flg rss rs rets ra)"
  unfolding dev_evt_run_def
proof (rule okres_get(1))
  fix x assume "dev_get d ra = Some x"
  then have "d_st x \<in> S" using assms(1) by (auto simp: dev_get_Some all_ok_def dev_good_def)
  then show "okres S (case d_st x of st_start \<Rightarrow> ra_start e d ra | st_auth \<Rightarrow> ra_auth e d s flg rss rets ra
      | st_acct \<Rightarrow> ra_acct e d s flg rss rets ra | st_normal \<Rightarrow> ra_normal e d s flg rss ra | st_hb \<Rightarrow> ra_ping e d s flg rs rets ra
      | st_acct_stop \<Rightarrow> ra_acct_stopped e d s flg rss rets ra | st_err \<Rightarrow> ra_err d ra | _ \<Rightarrow> None)"
  proof (cases "d_st x = st_acct_stop")
    case True
    then show ?thesis using assms okres_stopped [OF assms(1)] by auto
  next
    case False
    then have S: "S = live_st" "d_st x \<in> {st_auth, st_acct, st_normal, st_hb}"
      using \<open>d_st x \<in> S\<close> assms(2) by (auto simp: live_st_def)
    note a = assms(1) [unfolded S(1)]
    show ?thesis unfolding S(1) using S(2) okres_auth [OF a] okres_acct [OF a] okres_normal [OF a] okres_ping [OF a]
      by (elim insertE emptyE) simp_all
  qed
qed

lemma evt_cb_ok:
  assumes "all_ok S ra" and "S = live_st \<or> S = {st_acct_stop}" and "dev_evt_cb e d s err flg rss rs rets ra = Some ra'"
  shows "all_ok S ra'"
proof -
  obtain r where r: "(if err then fail_to_err RADIUS_ERR_NETWORK d ra else dev_evt_run e d s flg rss rs rets ra) = Some (r, ra')"
    using assms(3) by (auto simp: dev_evt_cb_def)
  have "st_err \<notin> S" using assms(2) by auto
  then have "okres S (if err then fail_to_err RADIUS_ERR_NETWORK d ra else dev_evt_run e d s flg rss rs rets ra)"
    using okres_fail_to_err [OF assms(1)] okres_evt_run [OF assms(1,2)] by simp
  then show ?thesis by (rule okresD [OF _ r])
qed

lemma okres_timeout_run:
  assumes "all_ok S ra" and "S = live_st \<or> S = {st_acct_stop}"
  shows "okres S (dev_timeout_run e d s ra)"
  unfolding dev_timeout_run_def
proof (rule okres_get(1))
  fix x assume "dev_get d ra = Some x"
  then have "d_st x \<in> S" using assms(1) by (auto simp: dev_get_Some all_ok_def dev_good_def)
  then show "okres S (case d_st x of st_auth \<Rightarrow> ra_to_auth e d s ra | st_acct \<Rightarrow> ra_to_acct e d s ra | st_normal \<Rightarrow> ra_to_normal e d s ra
      | st_hb \<Rightarrow> ra_to_ping e d s ra | st_acct_stop \<Rightarrow> ra_to_acct_stopped e d s ra | _ \<Rightarrow> Some (EMS_OK, ra))"
  proof (cases "d_st x = st_acct_stop")
    case True
    then show ?thesis using assms okres_to_stopped [OF assms(1)] by auto
  next
    case False
    then have S: "S = live_st" "d_st x \<in> {st_auth, st_acct, st_normal, st_hb}"
      using \<open>d_st x \<in> S\<close> assms(2) by (auto simp: live_st_def)
    note a = assms(1) [unfolded S(1)]
    show ?thesis unfolding S(1) using S(2) okres_to_auth [OF a] okres_to_acct [OF a] okres_to_normal [OF a] okres_to_ping [OF a]
      by (elim insertE emptyE) simp_all
  qed
qed

lemma timeout_cb_ok:
  assumes "all_ok S ra" and "S = live_st \<or> S = {st_acct_stop}" and "dev_timeout_cb e d s ra = Some ra'"
  shows "all_ok S ra'"
proof -
  obtain r where "dev_timeout_run e d s ra = Some (r, ra')" using assms(3) by (auto simp: dev_timeout_cb_def)
  then show ?thesis by (rule okresD [OF okres_timeout_run [OF assms(1,2)]])
qed

subsection \<open>The commands\<close>

text \<open>What \<open>malloc\<close> promises: the address of a new device is not in use.\<close>

definition fresh_rad :: "rad_env \<Rightarrow> bool" where
  "fresh_rad e \<longleftrightarrow> (\<forall>l d. new_device e l = Some d \<longrightarrow> d \<notin> set l)"

lemma okres_user_in:
  assumes "all_ok live_st ra" and "fresh_rad e"
  shows "okres live_st (radius_user_in e name pass ip mac ra)"
proof (cases "new_device e (dev_live ra)")
  case None
  then show ?thesis using assms(1) by (simp add: radius_user_in_def okres_basic)
next
  case (Some d)
  then have d: "d \<notin> set (dev_live ra)" using assms(2) by (simp add: fresh_rad_def)
  let ?x = "ems_device_new\<lparr>du_name := name, du_pass := pass, du_ip := ip, du_mac := mac,
            disconnect := max_missed ra, disconnect_server := max_missed ra\<rparr>"
  let ?ra = "ra\<lparr>dev_of := (dev_of ra)(d := ?x), dev_live := d # dev_live ra, dev_entry := dev_entry ra @ [d]\<rparr>"
  have tab: "dev_tab ra" using assms(1) by (simp add: all_ok_def)
  have "\<exists>v \<in> set (dev_live ?ra). dev_key (dev_of ?ra v) = k" if f: "fw_free (ra_out ?ra) k" for k
  proof -
    have "fw_free (ra_out ra) k" using f by simp
    then obtain v where v: "v \<in> set (dev_live ra)" "dev_key (dev_of ra v) = k" using tab unfolding dev_tab_def by blast
    then have "v \<noteq> d" using d by auto
    then show ?thesis using v by (intro bexI [of _ v]) auto
  qed
  then have "dev_tab ?ra" using tab d by (simp add: dev_tab_def)
  then have o1: "others_ok live_st d ?ra" using assms(1) d by (auto simp: others_ok_def all_ok_def)
  have st: "d_st (dev_of ?ra d) = st_stopped" by (simp add: ems_device_new_def)
  have g: "dev_get d ?ra = Some ?x" by (simp add: dev_get_def)
  have "okres live_st (dev_change_status e d st_start ?ra)" unfolding okres_def
  proof (intro allI impI)
    fix r ra' assume "dev_change_status e d st_start ?ra = Some (r, ra')"
    then have "ra_start e d (dev_put d (?x\<lparr>d_st := st_start\<rparr>) ?ra) = Some (r, ra')"
      using st g by (simp add: dev_change_status_def change_with_def)
    then show "all_ok live_st ra'" by (rule start_ok [OF _ status_others [OF o1 g]]) simp_all
  qed
  then show ?thesis using Some by (simp add: radius_user_in_def)
qed

lemma all_named: "all_ok S ra \<Longrightarrow> dev_get d ra = Some x \<Longrightarrow> all_ok S (dev_put d (x\<lparr>du_name := n, du_pass := p\<rparr>) ra)"
  by (rule all_put) (auto simp: dev_key_def)

lemma okres_cmd_auth:
  assumes "all_ok live_st ra" and "fresh_rad e"
  shows "okres live_st (radius_cmd_auth e root ra)"
proof (cases "radius_find_dev ra (ems_json_get_string_def root ''userip'')")
  case None
  then show ?thesis using assms okres_user_in okres_basic(1) by (simp add: radius_cmd_auth_def Let_def)
next
  case (Some d)
  show ?thesis unfolding radius_cmd_auth_def Let_def Some option.case
    by (rule okres_rules all_named okres_user_in | rule assms | assumption | (rule okres_res, rule okres_rules) | simp add: assms)+
qed

lemma okres_cmd_logout:
  assumes "all_ok live_st ra"
  shows "okres live_st (radius_cmd_logout e root ra)"
proof (cases "radius_find_dev ra (ems_json_get_string_def root ''userip'')")
  case None
  then show ?thesis using assms okres_basic(1) by (simp add: radius_cmd_logout_def Let_def)
next
  case (Some d)
  show ?thesis unfolding radius_cmd_logout_def Let_def Some option.case
    by (rule okres_rules | rule assms | assumption | (rule okres_res, rule okres_rules) | simp add: assms)+
qed

lemma reload_ok: "all_ok S ra \<Longrightarrow> fw_reload_loop ds ra = Some ra' \<Longrightarrow> all_ok S ra'"
proof (induction ds arbitrary: ra)
  case (Cons d ds)
  then obtain ra1 where 1: "ra_device_firewall_set_rules d True ra = Some ra1" "fw_reload_loop ds ra1 = Some ra'"
    by (auto simp: bind_eq_Some_conv)
  show ?case by (rule Cons.IH [OF keep_all [OF Cons.prems(1) keep_fw [OF 1(1)]] 1(2)])
qed simp

text \<open>When the client stops every device is being logged out or gone.\<close>

definition touches :: "addr \<Rightarrow> ems_radius \<Rightarrow> ems_radius \<Rightarrow> bool" where
  "touches d ra ra' \<longleftrightarrow> (\<forall>v. v \<noteq> d \<longrightarrow> dev_of ra' v = dev_of ra v \<and> (v \<in> set (dev_live ra') \<longleftrightarrow> v \<in> set (dev_live ra)))"

lemma keep_touches: "dev_keep d ra ra' \<Longrightarrow> touches d ra ra'"
  by (simp add: dev_keep_def touches_def)

lemma touches_trans: "touches d ra ra1 \<Longrightarrow> touches d ra1 ra' \<Longrightarrow> touches d ra ra'"
  by (simp add: touches_def)

lemma err_touches: "ra_err d ra = Some (r, ra') \<Longrightarrow> touches d ra ra' \<and> (distinct (dev_live ra) \<longrightarrow> d \<notin> set (dev_live ra'))"
  by (erule err_effect) (auto simp: touches_def dev_keep_def)

lemma to_err_gone:
  assumes "to_err d ra = Some (r, ra')" and "d_st (dev_of ra d) \<noteq> st_err"
  shows "touches d ra ra' \<and> (distinct (dev_live ra) \<longrightarrow> d \<notin> set (dev_live ra'))"
  using assms(1) unfolding to_err_def
proof (cases rule: change_cases)
  case 1
  then show ?thesis using assms(2) by simp
next
  case (2 x)
  then show ?thesis using err_touches [OF 2(3)] by (simp add: touches_def dev_put_def)
qed

lemma to_stop_effect:
  assumes "to_acct_stop e d ra = Some (r, ra')" and "distinct (dev_live ra)"
  shows "touches d ra ra' \<and> (d \<in> set (dev_live ra') \<longrightarrow> d_st (dev_of ra' d) = st_acct_stop)"
  using assms(1) unfolding to_acct_stop_def
proof (cases rule: change_cases)
  case 1
  then show ?thesis by (simp add: touches_def)
next
  case (2 x)
  let ?ra = "dev_put d (x\<lparr>d_st := st_acct_stop\<rparr>) ra"
  have t: "touches d ra ?ra" by (simp add: touches_def dev_put_def)
  from 2(3) show ?thesis
  proof (cases rule: into_acct_stop_cases)
    case 1
    then show ?thesis using touches_trans [OF t keep_touches [OF 1]] by (simp add: dev_keep_def)
  next
    case (2 ra3)
    have "touches d ra3 ra' \<and> (distinct (dev_live ra3) \<longrightarrow> d \<notin> set (dev_live ra'))"
      using 2(1) by (intro to_err_gone [OF 2(2)]) (simp add: dev_keep_def)
    moreover have "distinct (dev_live ra3)" using 2(1) assms(2) by (simp add: dev_keep_def)
    ultimately show ?thesis using touches_trans [OF touches_trans [OF t keep_touches [OF 2(1)]]] by blast
  qed
qed

lemma stop_loop_ok:
  assumes "all_ok live_st ra" and "\<forall>v \<in> set (dev_live ra). v \<notin> set ds \<longrightarrow> d_st (dev_of ra v) = st_acct_stop"
    and "radius_stop_loop e ds ra = Some ra'"
  shows "all_ok {st_acct_stop} ra'"
  using assms
proof (induction ds arbitrary: ra)
  case Nil
  then show ?case by (auto simp: all_ok_def dev_good_def)
next
  case (Cons d ds)
  obtain ra1 x ra2 where 1: "dev_upd d (\<lambda>x. x\<lparr>d_err := 7, reason := 7\<rparr>) ra = Some ra1" and x: "dev_get d ra1 = Some x"
    and 2: "(if d_st x \<noteq> st_acct_stop then map_option snd (dev_change_status e d st_acct_stop ra1) else Some ra1) = Some ra2"
    and 3: "radius_stop_loop e ds ra2 = Some ra'"
    using Cons.prems(3) by (auto simp: bind_eq_Some_conv)
  have k: "dev_keep d ra ra1" by (rule keep_upd [OF 1]) (simp add: dev_key_def)
  have a1: "all_ok live_st ra1" by (rule keep_all [OF Cons.prems(1) k])
  have "all_ok live_st ra2 \<and> touches d ra1 ra2 \<and> (d \<in> set (dev_live ra2) \<longrightarrow> d_st (dev_of ra2 d) = st_acct_stop)"
  proof (cases "d_st x = st_acct_stop")
    case True
    then show ?thesis using 2 x a1 by (auto simp: dev_get_Some touches_def)
  next
    case False
    then obtain r where c: "dev_change_status e d st_acct_stop ra1 = Some (r, ra2)" using 2 by auto
    then have s: "to_acct_stop e d ra1 = Some (r, ra2)" by (simp add: dev_change_status_def)
    have "distinct (dev_live ra1)" using a1 by (simp add: all_ok_def dev_tab_def)
    then show ?thesis using okresD [OF okres_change [OF a1] c] to_stop_effect [OF s] by simp
  qed
  moreover from this have "\<forall>v \<in> set (dev_live ra2). v \<notin> set ds \<longrightarrow> d_st (dev_of ra2 v) = st_acct_stop"
    using Cons.prems(2) touches_trans [OF keep_touches [OF k]] unfolding touches_def by (metis set_ConsD)
  ultimately show ?case using Cons.IH 3 by blast
qed

lemma stop_ok:
  assumes "all_ok live_st ra" and "radius_stop e ra = Some (r, ra')"
  shows "all_ok {st_acct_stop} ra'"
proof -
  have "radius_stop_loop e (dev_entry ra) (ra\<lparr>lasterr := 0\<rparr>) = Some ra'" using assms(2) by (auto simp: radius_stop_def)
  moreover have "all_ok live_st (ra\<lparr>lasterr := 0\<rparr>)" using assms(1) by simp
  ultimately show ?thesis using assms(1) by (intro stop_loop_ok) (auto simp: all_ok_def dev_tab_def)
qed

lemma stopped_live: "all_ok {st_acct_stop} ra \<Longrightarrow> all_ok live_st ra"
  by (auto simp: all_ok_def dev_good_def)

lemma config_ok: "all_ok S (snd (radius_start e ra)) = all_ok S ra"
  by (simp add: radius_start_def Let_def all_ok_def dev_tab_def)

end
