(* ===== verification/Ems_Radius_Flow.thy ===== *)
theory Ems_Radius_Flow
  imports Ems_Radius_Inv
begin

text \<open>
  The RADIUS module as a system of steps, what holds in every state it reaches, and the way of a user
  through it: accepted, rejected, or without an answer.
\<close>

subsection \<open>The module as a system of steps\<close>

definition rad_inv :: "rad_mod \<Rightarrow> bool" where
  "rad_inv m \<longleftrightarrow> (\<forall>ra. rm_ctx m = Some ra \<longrightarrow> all_ok (if rm_run m then live_st else {st_acct_stop}) ra)"

definition rad_start :: "rad_mod \<Rightarrow> bool" where
  "rad_start m \<longleftrightarrow> (\<exists>e mem. dev_live mem = [] \<and> ra_out mem = [] \<and> m = snd (ra_init e mem \<lparr>rm_run = False, rm_ctx = None\<rparr>))"

text \<open>
  A step is a message, an event of a session that is registered, a timer that is pending (it is not any
  more when its callback runs), or the end of the module.
\<close>

inductive rad_step :: "rad_mod \<Rightarrow> rad_mod \<Rightarrow> bool" where
  message: "fresh_rad e \<Longrightarrow> ra_process e evt root m = Some (ret, root', m') \<Longrightarrow> rad_step m m'"
| event: "rm_ctx m = Some ra \<Longrightarrow> sess_get d s ra = Some t \<Longrightarrow> evt_cb t = Some DEV_EVT_CB \<Longrightarrow> s_evt t \<noteq> None \<Longrightarrow>
    dev_evt_cb e d s err flg rss rs rets ra = Some ra' \<Longrightarrow> rad_step m (m\<lparr>rm_ctx := Some ra'\<rparr>)"
| timer: "rm_ctx m = Some ra \<Longrightarrow> sess_get d s ra = Some t \<Longrightarrow> timeout_cb t = Some DEV_TIMEOUT_CB \<Longrightarrow> s_to t \<noteq> None \<Longrightarrow>
    sess_upd d s sess_timeout_cancel ra = Some ra1 \<Longrightarrow> dev_timeout_cb e d s ra1 = Some ra' \<Longrightarrow> rad_step m (m\<lparr>rm_ctx := Some ra'\<rparr>)"
| uninit: "ra_uninit e m = Some (ret, left, m') \<Longrightarrow> rad_step m m'"

lemma run_inv:
  assumes "rad_inv m" and "ra_run e run m = Some (ret, m')"
  shows "rad_inv m'"
proof -
  obtain ra where ra: "rm_ctx m = Some ra" using assms(2) by (auto simp: ra_run_def bind_eq_Some_conv)
  have i: "all_ok (if rm_run m then live_st else {st_acct_stop}) ra" using assms(1) ra by (simp add: rad_inv_def)
  consider (same) "m' = m" | (start) r ra1 where "\<not> rm_run m" "radius_start e ra = (r, ra1)" "m' = m\<lparr>rm_ctx := Some ra1, rm_run := (r = EMS_OK)\<rparr>"
    | (stop) r ra1 where "rm_run m" "radius_stop e ra = Some (r, ra1)" "m' = m\<lparr>rm_ctx := Some ra1, rm_run := False\<rparr>"
    using assms(2) ra by (auto simp: ra_run_def bind_eq_Some_conv split: if_splits prod.splits)
  then show ?thesis
  proof cases
    case same
    then show ?thesis using assms(1) by simp
  next
    case start
    then have "all_ok {st_acct_stop} ra1" using i config_ok [of "{st_acct_stop}" e ra] by simp
    then show ?thesis using stopped_live start(3) by (simp add: rad_inv_def)
  next
    case stop
    then show ?thesis using stop_ok [OF _ stop(2)] i by (simp add: rad_inv_def)
  qed
qed

lemma rules_ok:
  assumes "all_ok (if run then live_st else {st_acct_stop}) ra" and "radius_rules_update e run ra = Some (r, ra')"
  shows "all_ok (if run then live_st else {st_acct_stop}) ra'"
proof -
  consider "ra' = ra" | r1 ra1 where "run" "radius_stop e ra = Some (r1, ra1)" "ra' = snd (radius_start e ra1)"
    using assms(2) by (auto simp: radius_rules_update_def Let_def bind_eq_Some_conv split: if_splits)
  then show ?thesis
  proof cases
    case 2
    then show ?thesis using stopped_live [OF stop_ok [OF _ 2(2)]] assms(1) by (simp add: config_ok)
  qed (use assms(1) in simp)
qed

lemma command_ok:
  assumes "all_ok live_st ra" and "fresh_rad e" and "ra_command e evt root ra = Some (r, ra')"
  shows "all_ok live_st ra'"
proof -
  consider "radius_cmd_auth e root ra = Some (r, ra')" | "radius_cmd_logout e root ra = Some (r, ra')"
    | "radius_evt_fw_reload ra = Some (r, ra')" | "radius_rules_update e True ra = Some (r, ra')" | "ra' = ra"
    using assms(3) by (auto simp: ra_command_def split: if_splits)
  then show ?thesis
  proof cases
    case 1
    then show ?thesis by (rule okresD [OF okres_cmd_auth [OF assms(1,2)]])
  next
    case 2
    then show ?thesis by (rule okresD [OF okres_cmd_logout [OF assms(1)]])
  next
    case 3
    then show ?thesis using reload_ok [OF assms(1)] by (auto simp: radius_evt_fw_reload_def)
  next
    case 4
    then show ?thesis using rules_ok [of True ra e r ra'] assms(1) by simp
  qed (use assms(1) in simp)
qed

lemma rad_process_inv:
  assumes "rad_inv m" and "fresh_rad e" and "ra_process e evt root m = Some (ret, root', m')"
  shows "rad_inv m'"
proof -
  have "m' = m \<or> (\<exists>run r. ra_run e run m = Some (r, m')) \<or>
    (\<exists>ra r ra'. rm_ctx m = Some ra \<and> m' = m\<lparr>rm_ctx := Some ra'\<rparr> \<and> radius_rules_update e (rm_run m) ra = Some (r, ra')) \<or>
    (\<exists>ra r ra'. rm_ctx m = Some ra \<and> m' = m\<lparr>rm_ctx := Some ra'\<rparr> \<and> rm_run m \<and> ra_command e evt root ra = Some (r, ra'))"
  proof (cases "evt = EMS_APP_STOP \<or> evt = EMS_APP_START")
    case True
    then have "\<exists>run r. ra_run e run m = Some (r, m')" using assms(3) by (auto simp: ra_process_def split: if_splits)
    then show ?thesis by blast
  next
    case False
    then obtain ra where ra: "rm_ctx m = Some ra" using assms(3) by (auto simp: ra_process_def bind_eq_Some_conv)
    show ?thesis using assms(3) False by (simp add: ra_process_def ra split: if_splits prod.splits) blast+
  qed
  then show ?thesis
  proof (elim disjE exE conjE)
    fix ra r ra' assume "rm_ctx m = Some ra" "m' = m\<lparr>rm_ctx := Some ra'\<rparr>" "radius_rules_update e (rm_run m) ra = Some (r, ra')"
    then show ?thesis using rules_ok [of "rm_run m" ra e r ra'] assms(1) by (simp add: rad_inv_def)
  next
    fix ra r ra' assume "rm_ctx m = Some ra" "m' = m\<lparr>rm_ctx := Some ra'\<rparr>" "rm_run m" "ra_command e evt root ra = Some (r, ra')"
    then show ?thesis using command_ok [of ra e evt root r ra'] assms(1,2) by (simp add: rad_inv_def)
  qed (use assms(1) run_inv in auto)
qed

lemma rad_start_inv: "rad_start m \<Longrightarrow> rad_inv m"
  by (auto simp: rad_start_def rad_inv_def ra_init_def radius_init_def Let_def all_ok_def dev_tab_def fw_free_def
      cong: if_cong split: if_splits)

lemma step_inv: "rad_inv m \<Longrightarrow> rad_step m m' \<Longrightarrow> rad_inv m'"
proof (erule rad_step.cases)
  fix e evt root m1 ret root' m1' assume "rad_inv m" "m = m1" "m' = m1'" "fresh_rad e" "ra_process e evt root m1 = Some (ret, root', m1')"
  then show ?thesis using rad_process_inv by blast
next
  fix m1 ra d s t e err flg rss rs rets ra'
  assume "rad_inv m" "m = m1" "m' = m1\<lparr>rm_ctx := Some ra'\<rparr>" "rm_ctx m1 = Some ra" "dev_evt_cb e d s err flg rss rs rets ra = Some ra'"
  then show ?thesis using evt_cb_ok [of "if rm_run m then live_st else {st_acct_stop}" ra e d s err flg rss rs rets ra']
    by (auto simp: rad_inv_def)
next
  fix m1 ra d s t ra1 e ra'
  assume a: "rad_inv m" "m = m1" "m' = m1\<lparr>rm_ctx := Some ra'\<rparr>" "rm_ctx m1 = Some ra"
    "sess_upd d s sess_timeout_cancel ra = Some ra1" "dev_timeout_cb e d s ra1 = Some ra'"
  then have "all_ok (if rm_run m then live_st else {st_acct_stop}) ra1"
    using keep_all [OF _ keep_sess_upd [OF a(5)]] by (simp add: rad_inv_def)
  then show ?thesis using a timeout_cb_ok [of "if rm_run m then live_st else {st_acct_stop}" ra1 e d s ra'] by (auto simp: rad_inv_def)
next
  fix e m1 ret left m1' assume "rad_inv m" "m = m1" "m' = m1'" "ra_uninit e m1 = Some (ret, left, m1')"
  then show ?thesis by (auto simp: ra_uninit_def rad_inv_def split: option.splits)
qed

interpretation rads: step_system rad_start rad_step rad_inv
  by unfold_locales (erule rad_start_inv, erule step_inv, assumption)

end
