(* ===== verification/Ems_Radius_Ping.thy ===== *)
theory Ems_Radius_Ping
  imports Ems_Radius
begin

text \<open>
  The ping of \<^verbatim>\<open>c/ems/src/core/ems_radius.c\<close>: the checksum that the client puts into a packet is the one a
  receiver expects. The code folds the carries of the sum back twice; the lemmas show that this is enough
  for the sizes used.
\<close>

subsection \<open>The sum of 16-bit words in ones' complement\<close>

lemma sum_words_append: "even (length a) \<Longrightarrow> sum_words (a @ b) = sum_words a + sum_words b"
  by (induction a rule: sum_words.induct) simp_all

lemma sum_words_bound: "sum_words s \<le> 65535 * ((length s + 1) div 2)"
proof (induction s rule: sum_words.induct)
  case (1 a b s)
  have "uchr a + 2 ^ 8 * uchr b \<le> 255 + 2 ^ 8 * 255" by (intro add_mono mult_left_mono) simp_all
  with 1 show ?case by simp
next
  case (2 a)
  have "uchr a \<le> 255" by simp
  also have "\<dots> \<le> 65535" by simp
  finally show ?case by simp
qed simp

lemma sum_words_le16: "n < 2 ^ 16 \<Longrightarrow> sum_words (le16 n) = n"
  by (simp add: le16_def uchr_def)

text \<open>The sum with its carries folded back, as the code computes it.\<close>

definition fold16 :: "nat \<Rightarrow> nat" where
  "fold16 n = (let s = n div 2 ^ 16 + n mod 2 ^ 16 in (s + s div 2 ^ 16) mod 2 ^ 16)"

lemma chksum_fold: "ra_ping_chksum s = NOT (word_of_nat (fold16 (sum_words s)))"
proof -
  have "(word_of_nat (m mod 2 ^ 16) :: 16 word) = word_of_nat m" for m by (simp add: word_of_nat_eq_iff take_bit_eq_mod)
  then show ?thesis unfolding ra_ping_chksum_def fold16_def Let_def by (simp only:)
qed

lemma fold16_split:
  assumes "r < 65536" and "q \<le> 32768"
  shows "fold16 (65536 * q + r) = (if q + r < 65536 then q + r else q + r - 65535)"
proof -
  have d: "(65536 * q + r) div 2 ^ 16 = q" "(65536 * q + r) mod 2 ^ 16 = r" using assms(1) by simp_all
  show ?thesis
  proof (cases "q + r < 65536")
    case True
    then show ?thesis by (simp add: fold16_def Let_def d)
  next
    case False
    then obtain k where k: "q + r = 65536 + k" using le_Suc_ex [of 65536 "q + r"] by auto
    then have "k \<le> 32768" using assms by simp
    then have "(65536 + k) div 2 ^ 16 = 1" by simp
    moreover have "(65536 + k + 1) mod 2 ^ 16 = (k + 1 + 65536) mod 65536" by (simp add: ac_simps)
    moreover have "\<dots> = k + 1" unfolding mod_add_self2 using \<open>k \<le> 32768\<close> by simp
    ultimately show ?thesis unfolding fold16_def Let_def d k by (simp only:) simp
  qed
qed

lemma fold16_complement:
  assumes "0 < n" and "n < 2 ^ 31"
  shows "fold16 (n + (65535 - fold16 n)) = 65535"
proof -
  obtain q r where n: "n = 65536 * q + r" and r: "r < 65536" and q: "q < 32768"
    using assms(2) that [of "n div 65536" "n mod 65536"] by simp
  show ?thesis
  proof (cases "q + r < 65536")
    case True
    have f: "fold16 n = q + r" using fold16_split [OF r less_imp_le [OF q]] True by (simp add: n)
    have "n + (65535 - fold16 n) = 65536 * q + (65535 - q)" using True q n unfolding f by linarith
    then show ?thesis using fold16_split [of "65535 - q" q] q by simp
  next
    case False
    then obtain k where k: "q + r = 65536 + k" using le_Suc_ex [of 65536 "q + r"] by auto
    then have kq: "k + 1 \<le> q" using r by linarith
    have "fold16 n = q + r - 65535" using fold16_split [OF r less_imp_le [OF q]] False by (simp add: n)
    then have f: "fold16 n = k + 1" using k by simp
    obtain j where j: "q = k + 1 + j" using le_Suc_ex [OF kq] by auto
    have "65535 - fold16 n = 65534 - k" unfolding f by simp
    moreover have "k \<le> 65534" using kq q by linarith
    ultimately have "n + (65535 - fold16 n) = 65536 * q + 65536 + (65534 - q)" using k n kq q by (simp add: j)
    moreover have "65536 * q + 65536 + (65534 - q) = 65536 * (q + 1) + (65534 - q)" by simp
    ultimately show ?thesis using fold16_split [of "65534 - q" "q + 1"] q by simp
  qed
qed

lemma fold16_less: "fold16 n < 65536"
  by (simp add: fold16_def Let_def)

lemma unat_not_of_nat: "n < 65536 \<Longrightarrow> unat (NOT (word_of_nat n :: 16 word)) = 65535 - n"
proof -
  assume n: "n < 65536"
  have "(word_of_nat (65535 - n) :: 16 word) = word_of_nat 65535 - word_of_nat n" using n by (intro of_nat_diff) simp
  also have "(word_of_nat 65535 :: 16 word) = - 1" by simp
  finally have "NOT (word_of_nat n :: 16 word) = word_of_nat (65535 - n)" by (simp add: not_eq_complement)
  then show ?thesis by (simp add: unsigned_of_nat take_bit_eq_mod)
qed

lemma checksum_valid:
  assumes "even (length hdr)" and "length (hdr @ rest) < 2 ^ 14" and "0 < sum_words (hdr @ le16 0 @ rest)"
  shows "ra_ping_chksum (hdr @ le16 (unat (ra_ping_chksum (hdr @ le16 0 @ rest))) @ rest) = 0"
proof -
  let ?n = "sum_words hdr + sum_words rest"
  have l: "even (length (le16 k))" for k by (simp add: le16_def)
  have s0: "sum_words (hdr @ le16 0 @ rest) = ?n" using sum_words_le16 [of 0] by (simp add: sum_words_append assms(1) l)
  have p: "0 < ?n" using assms(3) unfolding s0 .
  have "sum_words hdr \<le> 65535 * ((length hdr + 1) div 2)" "sum_words rest \<le> 65535 * ((length rest + 1) div 2)"
    by (rule sum_words_bound)+
  then have b: "?n < 2 ^ 31" using assms(2) by simp
  have c: "unat (ra_ping_chksum (hdr @ le16 0 @ rest)) = 65535 - fold16 ?n"
    unfolding chksum_fold s0 by (rule unat_not_of_nat [OF fold16_less])
  have "sum_words (hdr @ le16 (65535 - fold16 ?n) @ rest) = ?n + (65535 - fold16 ?n)"
    by (simp add: sum_words_append assms(1) l sum_words_le16)
  then have "ra_ping_chksum (hdr @ le16 (65535 - fold16 ?n) @ rest) = 0"
    unfolding chksum_fold using fold16_complement [OF p b] by simp
  then show ?thesis unfolding c .
qed

subsection \<open>The packet\<close>

lemma length_le64 [simp]: "length (le64 i) = 8"
  by (simp add: le64_def)

lemma ping_packet_layout:
  defines "hdr \<equiv> [char_of (8 :: nat), char_of (0 :: nat)]"
  obtains rest where "length rest = 60" and
    "take 64 (ping_packet t i seq) = hdr @ le16 (unat (ra_ping_chksum (hdr @ le16 0 @ rest))) @ rest"
proof -
  let ?body = "le64 (tv_sec t) @ le64 (tv_usec t) @ map char_of [8 ..< 56]"
  let ?rest = "take 60 (le16 (nat (i mod 2 ^ 16)) @ be16 (ucast seq) @ ?body)"
  have e: "take 64 (icmp_echo c i seq @ ?body) = hdr @ le16 (unat c) @ ?rest" for c
    by (simp add: icmp_echo_def hdr_def le16_def be16_def del: upt_Suc)
  have "length ?rest = 60" by (simp add: le16_def be16_def del: upt_Suc)
  then show ?thesis
    by (rule that) (use e [of 0] e [of "ra_ping_chksum (take 64 (icmp_echo 0 i seq @ ?body))"] in
        \<open>simp add: ping_packet_def Let_def del: upt_Suc\<close>)
qed


end
