(* ===== verification/Ems_Radius_User.thy ===== *)
theory Ems_Radius_User
  imports Ems_Radius_Flow
begin

text \<open>
  The way of a user through the RADIUS client: the request at login, what follows without an answer, when
  the server accepts and when it does not, and the effect of the firewall's reload.
\<close>

subsection \<open>Buffers and sockets\<close>

lemma seek_wr_from_clear:
  "length m = n \<Longrightarrow> k \<le> n \<Longrightarrow> ems_buffer_seek_wr \<lparr>bmem = m, brd = 0, bwr = 0\<rparr> (int k) 2 = (EMS_OK, \<lparr>bmem = m, brd = 0, bwr = k\<rparr>)"
  by (simp add: ems_buffer_seek_wr_def buf_len_def buf_left_def)

lemma clear_eq: "(ems_buffer_clear b)\<lparr>bmem := m\<rparr> = \<lparr>bmem = m, brd = 0, bwr = 0\<rparr>"
  by (simp add: ems_buffer_clear_def)

lemma contents_put: "length xs \<le> length m \<Longrightarrow> contents \<lparr>bmem = mem_write m 0 xs, brd = 0, bwr = length xs\<rparr> = xs"
  by (simp add: contents_def mem_write_def)

lemma seek_start: "ems_buffer_seek_rd b 0 1 = (EMS_OK, b\<lparr>brd := 0\<rparr>)"
proof -
  have "0 \<le> buf_len b + buf_trash b" by (simp add: buf_len_def buf_trash_def)
  then show ?thesis by (simp add: ems_buffer_seek_rd_def)
qed

lemma fresh_session:
  assumes "ra_session e x = Some t" and "d_sess x = None" and "r_alloc e"
  shows "length (bmem (buf_out t)) = 3072" and "length (bmem (buf_in t)) = 3072" and "brd (buf_in t) = 0" and "bwr (buf_in t) = 0"
  using assms by (auto simp: ra_session_def ems_session_new_def ems_session_init_def ems_buffer_init_def
      ems_buffer_increase_def ems_buffer_refresh_def buf_trash_def buf_left_def buf_len_def buf_size_def EMS_BUFFER_1K_def Let_def
      contents_def buf_ok_def simp del: upt_Suc)

lemma target_sock [simp]:
  "str_text (s_addr (sock (sess_target a port t))) = a" "s_port (sock (sess_target a port t)) = port"
  "buf_in (sess_target a port t) = buf_in t" "buf_out (sess_target a port t) = buf_out t"
  by (simp_all add: sess_target_def ems_sock_setaddr_def ems_sock_setport_def str_set_def str_text_def split: option.splits)

lemma connect_done:
  "gethost e a = Some h \<Longrightarrow> 0 < new_socket e \<Longrightarrow> connect_ok e h port \<Longrightarrow>
    ra_connect e (sess_target a port t) = (EMS_OK, (sess_target a port t)\<lparr>sock := snd (ems_sock_setfd (sock (sess_target a port t)) (new_socket e))\<rparr>)"
  by (simp add: ra_connect_def)

lemma mac_copy_ok: "length s < 32 \<Longrightarrow> mac_copy s = Some (ems_mac_update s)"
  by (simp add: mac_copy_def)

lemma nas_pairs: "length (i_bssid (iface e)) < 32 \<Longrightarrow> length (du_mac x) < 32 \<Longrightarrow> \<exists>vp'. ra_nas_avpairs e x vp = Some vp'"
  by (simp add: ra_nas_avpairs_def mac_copy_ok)

lemma auth_pairs: "length (i_bssid (iface e)) < 32 \<Longrightarrow> length (du_mac x) < 32 \<Longrightarrow> \<exists>vp'. ra_fill_auth_avpairs e x = Some vp'"
  using nas_pairs [of e x "vp_str e 2 (du_pass x) (vp_str e 1 (du_name x) (vp_out x))"]
  by (auto simp: ra_fill_auth_avpairs_def)

text \<open>What the client needs of the library and of its surroundings to send a request.\<close>

definition rad_lib_ok :: "rad_env \<Rightarrow> ems_radius \<Rightarrow> bool" where
  "rad_lib_ok e ra \<longleftrightarrow> length (i_bssid (iface e)) < 32 \<and> length (random_vector e) = 16 \<and>
    (\<forall>vp v. 16 \<le> length (rc_pack_list e vp (secret ra) v) \<and> length (rc_pack_list e vp (secret ra) v) + length (secret ra) \<le> 3000) \<and>
    (\<forall>s k. 16 \<le> length (rc_hmac_md5 e s k)) \<and> (\<forall>s. 16 \<le> length (rc_md5_calc e s))"

lemma rad_lib_okD:
  assumes "rad_lib_ok e ra"
  shows "length (i_bssid (iface e)) < 32" "length (random_vector e) = 16"
    "16 \<le> length (rc_pack_list e vp (secret ra) v)" "length (rc_pack_list e vp (secret ra) v) + length (secret ra) \<le> 3000"
    "16 \<le> length (rc_hmac_md5 e s k)" "16 \<le> length (rc_md5_calc e s)"
  using assms by (auto simp: rad_lib_ok_def)


subsection \<open>The request at login\<close>

text \<open>A request that is ready: its header, its length and the identifiers it is answered under.\<close>

definition auth_ready :: "rad_env \<Rightarrow> ems_radius \<Rightarrow> ems_device \<Rightarrow> ems_session \<Rightarrow> bool" where
  "auth_ready e ra x t \<longleftrightarrow>
    take 20 (contents (buf_out t)) = char_of (1 :: nat) # char_of (unat (seq_nbr ra)) # be16 (word_of_int (total_len x)) @ vector x \<and>
    int (length (contents (buf_out t))) = total_len x \<and> 36 \<le> total_len x \<and> total_len x \<le> 3020 \<and>
    length (bmem (buf_out t)) = 3072 \<and> brd (buf_out t) = 0 \<and> buf_ok (buf_out t) \<and> auth_out x = Some 0"

lemma auth_info_ready:
  assumes "rad_lib_ok e ra" and "dev_get d ra = Some x" and "d_sess x = Some t" and "length (bmem (buf_out t)) = 3072"
    and "length (du_mac x) < 32"
  obtains b vp n where "ra_fill_auth_request_info e d ra = Some (dev_put d (x\<lparr>d_sess := Some (t\<lparr>buf_out := b\<rparr>),
      vector := random_vector e, auth_out := Some 0, vp_out := vp, total_len := n\<rparr>) (ra\<lparr>seq_nbr := seq_nbr ra + 1\<rparr>))"
    and "auth_ready e ra (y\<lparr>vector := random_vector e, auth_out := Some 0, total_len := n\<rparr>) (t'\<lparr>buf_out := b\<rparr>)"
proof -
  note lib = rad_lib_okD [OF assms(1)]
  obtain vp where vp: "ra_fill_auth_avpairs e x = Some vp" using auth_pairs [OF lib(1) assms(5)] by blast
  define data where "data = rc_pack_list e vp (secret ra) (random_vector e)"
  define pkt where "pkt = char_of (1 :: nat) # char_of (unat (seq_nbr ra)) # be16 (word_of_nat (length data + 20)) @ random_vector e @ data"
  define bs where "bs = take (length data + 20 - 16) pkt @ take 16 (rc_hmac_md5 e pkt (secret ra))"
  let ?m = "mem_write (bmem (buf_out t)) 0 bs"
  let ?b = "\<lparr>bmem = ?m, brd = 0, bwr = length data + 20\<rparr>"
  have len: "16 \<le> length data" "length data \<le> 3000" using lib(3) [of vp "random_vector e"] lib(4) [of vp "random_vector e"] by (simp_all add: data_def)
  have p: "length pkt = length data + 20" by (simp add: pkt_def be16_def lib(2))
  have l: "length bs = length data + 20" using lib(5) [of pkt "secret ra"] len by (simp add: bs_def p min_def)
  have m: "mem_put (bmem (ems_buffer_clear (buf_out t))) 0 bs = Some ?m"
    using l len assms(4) by (simp add: mem_put_Some ems_buffer_clear_def)
  have s: "snd (ems_buffer_seek_wr ((ems_buffer_clear (buf_out t))\<lparr>bmem := ?m\<rparr>) (int (length data + 20)) 2) = ?b"
    unfolding clear_eq using seek_wr_from_clear [of ?m 3072 "length data + 20"] l len assms(4) by simp
  have c: "contents ?b = bs" using contents_put [of bs "bmem (buf_out t)"] l len assms(4) by simp
  have "take 20 bs = take 20 pkt" using len p by (simp add: bs_def min_def)
  also have "\<dots> = char_of (1 :: nat) # char_of (unat (seq_nbr ra)) # be16 (word_of_nat (length data + 20)) @ random_vector e"
    by (simp add: pkt_def be16_def lib(2))
  finally have h: "take 20 bs = \<dots>" .
  show ?thesis
  proof (rule that [where b = ?b and vp = vp and n = "int (length data + 20)"])
    show "ra_fill_auth_request_info e d ra = Some (dev_put d (x\<lparr>d_sess := Some (t\<lparr>buf_out := ?b\<rparr>),
      vector := random_vector e, auth_out := Some 0, vp_out := vp, total_len := int (length data + 20)\<rparr>) (ra\<lparr>seq_nbr := seq_nbr ra + 1\<rparr>))"
      by (simp only: ra_fill_auth_request_info_def assms(2,3) vp Let_def Option.bind_lunit data_def [symmetric] pkt_def [symmetric]
          bs_def [symmetric] m s)
    show "auth_ready e ra (y\<lparr>vector := random_vector e, auth_out := Some 0, total_len := int (length data + 20)\<rparr>) (t'\<lparr>buf_out := ?b\<rparr>)"
      using h l len assms(4) c by (simp add: auth_ready_def buf_ok_def)
  qed
qed


lemma login_effect:
  assumes lib: "rad_lib_ok e ra" and "length mac < 32" and new: "new_device e (dev_live ra) = Some d" and al: "r_alloc e"
    and conn: "gethost e (auth_addr ra) = Some h" "0 < new_socket e" "connect_ok e h (auth_port ra)"
  obtains ra' t where "radius_user_in e name pass ip mac ra = Some (EMS_OK, ra')"
    and "dev_entry ra' = dev_entry ra @ [d]" and "dev_live ra' = d # dev_live ra" and "\<forall>v. v \<noteq> d \<longrightarrow> dev_of ra' v = dev_of ra v"
    and "ra_out ra' = ra_out ra" and "seq_nbr ra' = seq_nbr ra + 1" and "d_sess (dev_of ra' d) = Some t" and "d_st (dev_of ra' d) = st_auth"
    and "dev_key (dev_of ra' d) = (ip, mac)" and "du_name (dev_of ra' d) = name" and "du_pass (dev_of ra' d) = pass"
    and "retry_times (dev_of ra' d) = ra_retry_times ra" and "reason (dev_of ra' d) = 0"
    and "auth_ready e ra (dev_of ra' d) t" and "s_evt t = Some (EMS_EVT_WRITE OR EMS_EVT_EDGE_TRIGGER)"
    and "s_to t = Some (timeout_deadline (r_now e) (ra_retry_timeout ra * 1000))" and "s_fd (sock t) = new_socket e"
    and "evt_cb t = Some DEV_EVT_CB" and "timeout_cb t = Some DEV_TIMEOUT_CB" and "rh ra' = rh ra"
    and "brd (buf_in t) = 0" and "bwr (buf_in t) = 0" and "length (bmem (buf_in t)) = 3072" and "secret ra' = secret ra"
    and "acct_addr ra' = acct_addr ra" and "acct_port ra' = acct_port ra"
proof -
  define x where "x = ems_device_new\<lparr>du_name := name, du_pass := pass, du_ip := ip, du_mac := mac,
            disconnect := max_missed ra, disconnect_server := max_missed ra, d_st := st_start\<rparr>"
  define ra0 where "ra0 = ra\<lparr>dev_live := d # dev_live ra, dev_entry := dev_entry ra @ [d], dev_of := (dev_of ra)(d := x)\<rparr>"
  have g0: "dev_get d ra0 = Some x" by (simp add: ra0_def dev_get_def)
  have in_start: "radius_user_in e name pass ip mac ra = ra_start e d ra0"
    using new by (simp add: radius_user_in_def dev_change_status_def change_with_def dev_get_def ems_device_new_def ra0_def x_def dev_put_def)
  have n: "d_sess x = None" by (simp add: x_def ems_device_new_def)
  then obtain t0 where t0: "ra_session e x = Some t0" using al by (simp add: ra_session_def ems_session_new_def)
  define t1 where "t1 = (sess_target (auth_addr ra) (auth_port ra) (t0\<lparr>cbarg := d\<rparr>))
    \<lparr>sock := snd (ems_sock_setfd (sock (sess_target (auth_addr ra) (auth_port ra) (t0\<lparr>cbarg := d\<rparr>))) (new_socket e))\<rparr>"
  have c: "ra_connect e (sess_target (auth_addr ra0) (auth_port ra0) (t0\<lparr>cbarg := d\<rparr>)) = (EMS_OK, t1)"
    using connect_done [OF conn, of "t0\<lparr>cbarg := d\<rparr>"] by (simp add: t1_def ra0_def)
  define ra1 where "ra1 = dev_put d (x\<lparr>d_sess := Some t1\<rparr>) ra0"
  have lib1: "rad_lib_ok e ra1" using lib by (simp add: ra1_def ra0_def rad_lib_ok_def dev_put_def)
  have g1: "dev_get d ra1 = Some (x\<lparr>d_sess := Some t1\<rparr>)" by (simp add: ra1_def ra0_def dev_get_def)
  have l1: "length (bmem (buf_out t1)) = 3072" using fresh_session(1) [OF t0 n al] by (simp add: t1_def)
  have m1: "length (du_mac (x\<lparr>d_sess := Some t1\<rparr>)) < 32" using assms(2) by (simp add: x_def)
  let ?y = "x\<lparr>retry_times := ra_retry_times ra, retry_timeout := ra_retry_timeout ra, reason := 0, d_st := st_auth\<rparr>"
  let ?t = "sess_watch e EMS_EVT_WRITE (ra_retry_timeout ra * 1000) t1"
  obtain b vp k where f: "ra_fill_auth_request_info e d ra1 = Some (dev_put d (x\<lparr>d_sess := Some (t1\<lparr>buf_out := b\<rparr>),
      vector := random_vector e, auth_out := Some 0, vp_out := vp, total_len := k\<rparr>) (ra1\<lparr>seq_nbr := seq_nbr ra1 + 1\<rparr>))"
    and r: "auth_ready e ra1 (?y\<lparr>vector := random_vector e, auth_out := Some 0, total_len := k\<rparr>) (?t\<lparr>buf_out := b\<rparr>)"
    by (rule auth_info_ready [OF lib1 g1 _ l1 m1, where y = ?y and t' = ?t], simp, rule that, simp, simp)
  let ?t' = "sess_watch e EMS_EVT_WRITE (ra_retry_timeout ra * 1000) (t1\<lparr>buf_out := b\<rparr>)"
  let ?ra' = "dev_put d (?y\<lparr>d_sess := Some ?t',
      vector := random_vector e, auth_out := Some 0, vp_out := vp, total_len := k\<rparr>) (ra1\<lparr>seq_nbr := seq_nbr ra1 + 1\<rparr>)"
  have "ra_start e d ra0 = Some (EMS_OK, ?ra')"
    by (simp add: ra_start_def g0 t0 c f ra1_def [symmetric])
      (simp add: dev_upd_def sess_upd_def sess_get_def dev_get_def dev_put_def ra1_def ra0_def dev_sess_def put_sess_def change_with_def
        sess_watch_def sess_timeout_set_def sess_event_set_def x_def ems_device_new_def)
  then show ?thesis
    by (intro that [of ?ra' ?t'])
      (use r fresh_session(2-4) [OF t0 n al] in \<open>simp_all add: in_start ra1_def ra0_def dev_put_def dev_key_def x_def auth_ready_def sess_watch_def sess_timeout_set_def
        sess_event_set_def t1_def ems_sock_setfd_def\<close>)
qed


subsection \<open>Without an answer\<close>

text \<open>The timer of the session to the server expires, once and \<open>n\<close> times.\<close>

definition rad_expire :: "rad_env \<Rightarrow> addr \<Rightarrow> ems_radius \<Rightarrow> ems_radius option" where
  "rad_expire e d ra = do { ra1 \<leftarrow> sess_upd d SRad sess_timeout_cancel ra; dev_timeout_cb e d SRad ra1 }"

fun expire_n :: "rad_env \<Rightarrow> addr \<Rightarrow> nat \<Rightarrow> ems_radius \<Rightarrow> ems_radius option" where
  "expire_n e d 0 ra = Some ra"
| "expire_n e d (Suc n) ra = do { ra1 \<leftarrow> rad_expire e d ra; expire_n e d n ra1 }"

text \<open>A user whose authentication is under way, with \<open>n\<close> attempts left.\<close>

definition auth_waits :: "addr \<Rightarrow> nat \<Rightarrow> ems_radius \<Rightarrow> bool" where
  "auth_waits d n ra \<longleftrightarrow> d \<in> set (dev_live ra) \<and> d_st (dev_of ra d) = st_auth \<and> retry_times (dev_of ra d) = int n \<and>
    (case d_sess (dev_of ra d) of None \<Rightarrow> False | Some t \<Rightarrow> timeout_cb t = Some DEV_TIMEOUT_CB \<and> s_to t \<noteq> None)"

text \<open>The request is sent again from its start.\<close>

definition auth_resends :: "addr \<Rightarrow> ems_radius \<Rightarrow> bool" where
  "auth_resends d ra \<longleftrightarrow> (case d_sess (dev_of ra d) of None \<Rightarrow> False | Some t \<Rightarrow>
    brd (buf_out t) = 0 \<and> s_evt t = Some (EMS_EVT_WRITE OR EMS_EVT_EDGE_TRIGGER))"

lemmas field_defs = dev_upd_def sess_upd_def sess_get_def dev_get_def dev_put_def dev_sess_def put_sess_def sess_watch_def
  sess_timeout_set_def sess_event_set_def sess_timeout_cancel_def sess_event_cancel_def

lemma expire_more:
  assumes "auth_waits d (Suc (Suc n)) ra"
  obtains ra1 where "rad_expire e d ra = Some ra1" and "auth_waits d (Suc n) ra1" and "auth_resends d ra1"
    and "ra_out ra1 = ra_out ra" and "dev_live ra1 = dev_live ra" and "dev_entry ra1 = dev_entry ra"
    and "user_obj (dev_of ra1 d) = user_obj (dev_of ra d)" and "device_obj (dev_of ra1 d) = device_obj (dev_of ra d)"
proof -
  obtain t where t: "d \<in> set (dev_live ra)" "d_st (dev_of ra d) = st_auth" "retry_times (dev_of ra d) = int (Suc (Suc n))" "d_sess (dev_of ra d) = Some t"
    using assms by (auto simp: auth_waits_def split: option.splits)
  obtain ra1 where r: "rad_expire e d ra = Some ra1" and ra1: "ra1 = ra\<lparr>dev_of := (dev_of ra)(d := (dev_of ra d)
      \<lparr>retry_times := int (Suc n), d_sess := Some (resend e (retry_timeout (dev_of ra d) * 1000) (t\<lparr>s_to := None\<rparr>))\<rparr>)\<rparr>"
    using t by (simp add: rad_expire_def dev_timeout_cb_def dev_timeout_run_def ra_to_auth_def field_defs resend_def)
  show ?thesis
    by (rule that [OF r]) (simp_all add: ra1 t(1,2) auth_waits_def auth_resends_def resend_def field_defs user_obj_def device_obj_def
        seek_start fun_eq_iff)
qed

lemma expire_last:
  assumes "auth_waits d (Suc 0) ra"
  obtains ra1 where "rad_expire e d ra = Some ra1" and "dev_live ra1 = remove1 d (dev_live ra)" and "dev_entry ra1 = remove1 d (dev_entry ra)"
    and "lasterr ra1 = RADIUS_ERR_CANNOT_CONNECT"
    and "ra_out ra1 = ra_out ra @
      [NicSend ty_radius ty_portal EMS_APP_CMD_RADIUS_AUTH_RSP (user_obj (dev_of ra d) RADIUS_ERR_CANNOT_CONNECT),
       NicProcess ty_radius ty_fw EMS_APP_FW_RADIUS_DEVICE_FREE (device_obj (dev_of ra d) False)]"
proof -
  obtain t where t: "d \<in> set (dev_live ra)" "d_st (dev_of ra d) = st_auth" "retry_times (dev_of ra d) = int (Suc 0)" "d_sess (dev_of ra d) = Some t"
    using assms by (auto simp: auth_waits_def split: option.splits)
  show ?thesis
    by (rule that [of "the (rad_expire e d ra)"])
      (simp_all add: t rad_expire_def dev_timeout_cb_def dev_timeout_run_def ra_to_auth_def field_defs fail_to_err_def to_err_def
        change_with_def ra_err_def RADIUS_ERR_CANNOT_CONNECT_def ra_device_firewall_set_rules_def ra_emit_def ems_device_destroy_def
        user_obj_def device_obj_def)
qed

lemma expire_timer:
  assumes "rm_ctx m = Some ra" and "auth_waits d n ra" and "rad_expire e d ra = Some ra1"
  shows "rad_step m (m\<lparr>rm_ctx := Some ra1\<rparr>)"
proof -
  obtain t where t: "sess_get d SRad ra = Some t" "timeout_cb t = Some DEV_TIMEOUT_CB" "s_to t \<noteq> None"
    using assms(2) by (auto simp: auth_waits_def sess_get_def dev_get_def dev_sess_def split: option.splits)
  obtain ra0 where "sess_upd d SRad sess_timeout_cancel ra = Some ra0" "dev_timeout_cb e d SRad ra0 = Some ra1"
    using assms(3) by (auto simp: rad_expire_def bind_eq_Some_conv)
  then show ?thesis by (rule rad_step.timer [OF assms(1) t])
qed


text \<open>What everybody else sees of the client while it waits.\<close>

definition user_view :: "addr \<Rightarrow> ems_radius \<Rightarrow> rad_evt list \<times> addr list \<times> addr list \<times> (int \<Rightarrow> json) \<times> (bool \<Rightarrow> json)" where
  "user_view d ra = (ra_out ra, dev_live ra, dev_entry ra, user_obj (dev_of ra d), device_obj (dev_of ra d))"

lemma expire_n_last: "expire_n e d (Suc n) ra = Option.bind (expire_n e d n ra) (rad_expire e d)"
proof (induction n arbitrary: ra)
  case 0
  have "expire_n e d 0 = Some" by (rule ext) simp
  then show ?case by simp
next
  case (Suc n)
  have "expire_n e d (Suc (Suc n)) ra = Option.bind (rad_expire e d ra) (\<lambda>r. expire_n e d (Suc n) r)" by (rule expire_n.simps(2))
  also have "\<dots> = Option.bind (rad_expire e d ra) (\<lambda>r. Option.bind (expire_n e d n r) (rad_expire e d))" by (simp only: Suc.IH)
  also have "\<dots> = Option.bind (expire_n e d (Suc n) ra) (rad_expire e d)" by simp
  finally show ?case .
qed

lemma expire_before:
  assumes "rm_ctx m = Some ra" and "auth_waits d n ra" and "k < n"
  shows "\<exists>rak. expire_n e d k ra = Some rak \<and> auth_waits d (n - k) rak \<and> (0 < k \<longrightarrow> auth_resends d rak) \<and>
    user_view d rak = user_view d ra \<and> rad_step\<^sup>*\<^sup>* m (m\<lparr>rm_ctx := Some rak\<rparr>)"
  using assms(3)
proof (induction k)
  case 0
  have "m\<lparr>rm_ctx := Some ra\<rparr> = m" using assms(1) by (cases m) simp
  then show ?case using assms(2) by simp
next
  case (Suc k)
  then obtain rak where b: "expire_n e d k ra = Some rak" "auth_waits d (n - k) rak" "user_view d rak = user_view d ra"
      "rad_step\<^sup>*\<^sup>* m (m\<lparr>rm_ctx := Some rak\<rparr>)" by auto
  have "n - k = Suc (Suc (n - Suc (Suc k)))" using Suc.prems by simp
  then have w: "auth_waits d (Suc (Suc (n - Suc (Suc k)))) rak" using b(2) by simp
  obtain ra1 where r: "rad_expire e d rak = Some ra1" and w1: "auth_waits d (Suc (n - Suc (Suc k))) ra1" "auth_resends d ra1"
    and v: "ra_out ra1 = ra_out rak" "dev_live ra1 = dev_live rak" "dev_entry ra1 = dev_entry rak"
      "user_obj (dev_of ra1 d) = user_obj (dev_of rak d)" "device_obj (dev_of ra1 d) = device_obj (dev_of rak d)"
    by (rule expire_more [OF w])
  have "rad_step (m\<lparr>rm_ctx := Some rak\<rparr>) (m\<lparr>rm_ctx := Some ra1\<rparr>)" using expire_timer [OF _ w r, of "m\<lparr>rm_ctx := Some rak\<rparr>"] by simp
  with b(4) have "rad_step\<^sup>*\<^sup>* m (m\<lparr>rm_ctx := Some ra1\<rparr>)" by (rule rtranclp.rtrancl_into_rtrancl)
  moreover have "Suc (n - Suc (Suc k)) = n - Suc k" using Suc.prems by simp
  moreover have "user_view d ra1 = user_view d rak" using v by (simp add: user_view_def)
  moreover have "expire_n e d (Suc k) ra = Some ra1" unfolding expire_n_last b(1) using r by simp
  ultimately show ?case using w1 b(3) by (intro exI [of _ ra1]) simp
qed

subsection \<open>A client with one user\<close>

definition re_1 :: rad_env where
  "re_1 = \<lparr>iface = \<lparr>i_bssid = ''00:11:22:33:44:55'', i_ssid = ''guests'', i_addr = ''10.0.0.1'', i_secret = ''secret'', i_auth_port = 1812,
      i_acct_port = 1813, i_acct_period = 300, i_offline = 1800, i_enable = True\<rparr>,
    r_now = \<lparr>tv_sec = 1000, tv_usec = 0\<rparr>, new_device = (\<lambda>l. if l = [] then Some 1 else None), r_alloc = True, r_garbage = (\<lambda>_. CHR 0x00),
    gethost = (\<lambda>s. if s = ''10.0.0.1'' then Some 0x0a000001 else None), new_socket = 7, connect_ok = (\<lambda>_ _. True), icmp_proto = True,
    raw_socket = 8, local_addr = 0x0a000002, random_vector = replicate 16 (CHR 0x07), random_num = 42, r_core_sn = ''sn'', r_getpid = 99,
    iptaccount = (\<lambda>_ _. []), rc_avpair_add = (\<lambda>vp a v n. vp @ [(a, v)]), rc_pack_list = (\<lambda>vp s v. replicate 18 (CHR 0x01)),
    rc_hmac_md5 = (\<lambda>s k. replicate 16 (CHR 0x05)), rc_md5_calc = (\<lambda>s. replicate 16 (CHR 0x06)), rc_check_reply = (\<lambda>p n s v i. 0),
    rc_avpair_gen = (\<lambda>s. []), rc_dict_ok = True\<rparr>"

definition rad_mem :: ems_radius where
  "rad_mem = \<lparr>dev_entry = [], rh = False, seq_nbr = 0, lasterr = 0, secret = [], auth_addr = [], auth_port = 0, acct_addr = [], acct_port = 0,
    ra_retry_times = 0, ra_retry_timeout = 0, ra_report_period = 0, ra_disconnect = 0, dev_of = (\<lambda>_. ems_device_new), dev_live = [], ra_out = []\<rparr>"

definition rad_m0 :: rad_mod where "rad_m0 = snd (ra_init re_1 rad_mem \<lparr>rm_run = False, rm_ctx = None\<rparr>)"

definition rad_r1 :: ems_radius where "rad_r1 = snd (radius_start re_1 (snd (radius_init re_1 rad_mem)))"

definition user_1 :: json where
  "user_1 = JObj [(''username'', JStr ''bob''), (''userpass'', JStr ''pw''), (''userip'', JStr ''10.0.0.9''), (''usermac'', JStr ''66:77:88:99:aa:bb'')]"

lemma rad_m0: "rad_start rad_m0"
  unfolding rad_start_def by (intro exI [of _ re_1] exI [of _ rad_mem]) (simp add: rad_m0_def rad_mem_def)

lemma fresh_1: "fresh_rad re_1"
  by (simp add: fresh_rad_def re_1_def)

lemma rad_r1 [simp]:
  "dev_entry rad_r1 = []" "dev_live rad_r1 = []" "ra_out rad_r1 = []" "rh rad_r1" "secret rad_r1 = ''secret''" "auth_addr rad_r1 = ''10.0.0.1''"
  "ra_retry_times rad_r1 = 3" "auth_port rad_r1 = 1812" "acct_addr rad_r1 = ''10.0.0.1''" "acct_port rad_r1 = 1813"
  by (simp_all add: rad_r1_def radius_start_def radius_init_def rad_mem_def re_1_def radius_get_int_def Let_def)

lemma rad_start_1: "rad_step rad_m0 \<lparr>rm_run = True, rm_ctx = Some rad_r1\<rparr>"
proof (rule rad_step.message [OF fresh_1])
  show "ra_process re_1 EMS_APP_START None rad_m0 = Some (EMS_OK, None, \<lparr>rm_run = True, rm_ctx = Some rad_r1\<rparr>)"
    by (simp add: ra_process_def ra_run_def rad_m0_def ra_init_def re_1_def radius_start_def rad_r1_def Let_def
        EMS_APP_START_def EMS_APP_STOP_def)
qed

lemma lib_1: "rad_lib_ok re_1 rad_r1"
  by (simp add: rad_lib_ok_def re_1_def)

lemma cmd_ids [simp]:
  "EMS_APP_CMD_RADIUS_AUTH = 0x0001" "EMS_APP_CMD_RADIUS_LOGOUT = 0x0002" "EMS_APP_RULES_UPDATE = 0x0005" "EMS_APP_EVT_STATUS = 0x0007"
  "EMS_APP_EVT_USERINFO = 0x001c" "EMS_APP_EVT_USERNUMBER = 0x001e" "EMS_APP_EVT_USERLIST = 0x001f" "EMS_APP_EVT_USERNAME = 0x0020"
  by (simp_all add: EMS_APP_CMD_RADIUS_AUTH_def EMS_APP_CMD_RADIUS_LOGOUT_def EMS_APP_RULES_UPDATE_def EMS_APP_EVT_STATUS_def
    EMS_APP_EVT_USERINFO_def EMS_APP_EVT_USERNUMBER_def EMS_APP_EVT_USERLIST_def EMS_APP_EVT_USERNAME_def)

lemma user_in_1:
  obtains ra' t where "rad_step\<^sup>*\<^sup>* rad_m0 \<lparr>rm_run = True, rm_ctx = Some ra'\<rparr>" and "dev_entry ra' = [1]" and "dev_live ra' = [1]"
    and "auth_waits 1 3 ra'" and "ra_out ra' = []" and "dev_key (dev_of ra' 1) = (''10.0.0.9'', ''66:77:88:99:aa:bb'')" and "rh ra'"
    and "d_sess (dev_of ra' 1) = Some t" and "auth_ready re_1 rad_r1 (dev_of ra' 1) t" and "s_fd (sock t) = 7" and "brd (buf_in t) = 0"
    and "bwr (buf_in t) = 0" and "length (bmem (buf_in t)) = 3072" and "secret ra' = ''secret''" and "acct_addr ra' = ''10.0.0.1''"
proof -
  have "new_device re_1 (dev_live rad_r1) = Some 1" "r_alloc re_1" "gethost re_1 (auth_addr rad_r1) = Some 0x0a000001" "0 < new_socket re_1"
    "connect_ok re_1 0x0a000001 (auth_port rad_r1)" "length ''66:77:88:99:aa:bb'' < 32"
    by (simp_all add: re_1_def)
  from login_effect [OF lib_1 this(6,1-5), of "''bob''" "''pw''" "''10.0.0.9''"] obtain ra' t
    where u: "radius_user_in re_1 ''bob'' ''pw'' ''10.0.0.9'' ''66:77:88:99:aa:bb'' rad_r1 = Some (EMS_OK, ra')"
      and p: "dev_entry ra' = [1]" "dev_live ra' = [1]" "ra_out ra' = []" "d_sess (dev_of ra' 1) = Some t" "d_st (dev_of ra' 1) = st_auth"
        "dev_key (dev_of ra' 1) = (''10.0.0.9'', ''66:77:88:99:aa:bb'')" "retry_times (dev_of ra' 1) = 3"
        "s_to t = Some (timeout_deadline (r_now re_1) (ra_retry_timeout rad_r1 * 1000))" "timeout_cb t = Some DEV_TIMEOUT_CB" "rh ra'"
        "auth_ready re_1 rad_r1 (dev_of ra' 1) t" "s_fd (sock t) = new_socket re_1" "brd (buf_in t) = 0" "bwr (buf_in t) = 0"
        "length (bmem (buf_in t)) = 3072" "secret ra' = ''secret''" "acct_addr ra' = ''10.0.0.1''"
    by simp metis
  have "radius_cmd_auth re_1 (Some user_1) rad_r1 = Some (EMS_OK, ra')"
    by (simp add: radius_cmd_auth_def user_1_def ems_json_get_string_def_def u radius_find_dev_def)
  then have "ra_process re_1 EMS_APP_CMD_RADIUS_AUTH (Some user_1) \<lparr>rm_run = True, rm_ctx = Some rad_r1\<rparr> =
      Some (EMS_OK, Some user_1, \<lparr>rm_run = True, rm_ctx = Some ra'\<rparr>)"
    by (simp add: ra_process_def ra_command_def EMS_APP_START_def EMS_APP_STOP_def)
  then have "rad_step \<lparr>rm_run = True, rm_ctx = Some rad_r1\<rparr> \<lparr>rm_run = True, rm_ctx = Some ra'\<rparr>" by (rule rad_step.message [OF fresh_1])
  then have "rad_step\<^sup>*\<^sup>* rad_m0 \<lparr>rm_run = True, rm_ctx = Some ra'\<rparr>" using rad_start_1 by simp
  then show ?thesis using p that [of ra' t] by (simp add: auth_waits_def re_1_def)
qed


subsection \<open>Properties of the reachable states\<close>

text \<open>
  C2: In every state the module reaches, the list of devices has no duplicates and is exactly the
  devices in memory; each device has its session to the server and is in one of the states of an
  authentication, an accounting, a user who is there, a ping or a logout, so that every event finds a
  handler; and when the module does not run, all users that are left are being logged out.
\<close>

theorem radius_devices_invariant:
  assumes "rad_start s" and "rad_step\<^sup>*\<^sup>* s m" and "rm_ctx m = Some ra"
  shows "distinct (dev_entry ra) \<and> set (dev_entry ra) = set (dev_live ra) \<and>
    (\<forall>d \<in> set (dev_entry ra). d_sess (dev_of ra d) \<noteq> None \<and> d_st (dev_of ra d) \<in> {st_auth, st_acct, st_normal, st_hb, st_acct_stop} \<and>
      (\<not> rm_run m \<longrightarrow> d_st (dev_of ra d) = st_acct_stop))"
proof -
  have a: "all_ok (if rm_run m then live_st else {st_acct_stop}) ra"
    using rads.reachable_inv [OF assms(1,2)] assms(3) by (simp add: rad_inv_def)
  then have "all_ok live_st ra" using stopped_live by (cases "rm_run m") simp_all
  with a show ?thesis by (auto simp: all_ok_def dev_tab_def dev_good_def live_st_def)
qed

theorem radius_devices_invariant_witness:
  "\<exists>(m :: rad_mod) ra. rm_ctx m = Some ra \<and> dev_entry ra = [1] \<and> distinct (dev_entry ra) \<and> d_sess (dev_of ra 1) \<noteq> None"
proof -
  obtain ra where a: "rad_step\<^sup>*\<^sup>* rad_m0 \<lparr>rm_run = True, rm_ctx = Some ra\<rparr>" "dev_entry ra = [1]" by (rule user_in_1)
  from radius_devices_invariant [OF rad_m0 a(1), of ra] a(2)
  have "distinct (dev_entry ra) \<and> d_sess (dev_of ra 1) \<noteq> None" by simp
  then show ?thesis using a(2) by (intro exI [of _ "\<lparr>rm_run = True, rm_ctx = Some ra\<rparr>"] exI [of _ ra]) simp
qed

text \<open>
  C1: The firewall never lets through an address the client has forgotten: in every reachable state, when
  the last message to the firewall about an address and a hardware address opened it, a device with
  these addresses is in the list.
\<close>

theorem radius_firewall_safe:
  assumes "rad_start s" and "rad_step\<^sup>*\<^sup>* s m" and "rm_ctx m = Some ra" and "fw_free (ra_out ra) (ip, mac)"
  shows "\<exists>d \<in> set (dev_entry ra). du_ip (dev_of ra d) = ip \<and> du_mac (dev_of ra d) = mac"
proof -
  have "dev_tab ra" using rads.reachable_inv [OF assms(1,2)] assms(3) by (simp add: rad_inv_def all_ok_def)
  then obtain d where "d \<in> set (dev_entry ra)" "dev_key (dev_of ra d) = (ip, mac)" using assms(4) unfolding dev_tab_def by blast
  then show ?thesis by (intro bexI [of _ d]) (simp_all add: dev_key_def)
qed

lemma reload_effect:
  "set ds \<subseteq> set (dev_live ra) \<Longrightarrow> fw_reload_loop ds ra = Some (ra\<lparr>ra_out := ra_out ra @
    map (\<lambda>d. NicProcess ty_radius ty_fw EMS_APP_FW_RADIUS_DEVICE_FREE (device_obj (dev_of ra d) True)) ds\<rparr>)"
proof (induction ds arbitrary: ra)
  case (Cons d ds)
  let ?ra1 = "ra_emit (NicProcess ty_radius ty_fw EMS_APP_FW_RADIUS_DEVICE_FREE (device_obj (dev_of ra d) True)) ra"
  have "fw_reload_loop (d # ds) ra = fw_reload_loop ds ?ra1"
    using Cons.prems by (simp add: ra_device_firewall_set_rules_def dev_get_def)
  also have "\<dots> = Some (?ra1\<lparr>ra_out := ra_out ?ra1 @
      map (\<lambda>d. NicProcess ty_radius ty_fw EMS_APP_FW_RADIUS_DEVICE_FREE (device_obj (dev_of ?ra1 d) True)) ds\<rparr>)"
    using Cons.prems by (intro Cons.IH) (simp add: ra_emit_def)
  finally show ?case by (simp add: ra_emit_def)
qed simp

lemma fw_free_all:
  "d \<in> set ds \<Longrightarrow> fw_free (evs @ map (\<lambda>d. NicProcess ty_radius ty_fw EMS_APP_FW_RADIUS_DEVICE_FREE (device_obj (g d) True)) ds) (dev_key (g d))"
proof (induction ds rule: rev_induct)
  case (snoc v ds)
  let ?m = "\<lambda>d. NicProcess ty_radius ty_fw EMS_APP_FW_RADIUS_DEVICE_FREE (device_obj (g d) True)"
  show ?case using snoc fw_free_snoc [of "evs @ map ?m ds" "?m v" "dev_key (g d)"] by auto
qed simp

text \<open>
  The reload of the firewall lets every device of the list through, in the order of the list and
  whatever its state: also a user whose password has not been checked yet.
\<close>

theorem radius_reload_frees_all:
  assumes "rad_start s" and "rad_step\<^sup>*\<^sup>* s m" and "rm_ctx m = Some ra"
  shows "\<exists>ra'. radius_evt_fw_reload ra = Some (EMS_OK, ra') \<and> dev_of ra' = dev_of ra \<and> dev_entry ra' = dev_entry ra \<and>
    ra_out ra' = ra_out ra @ map (\<lambda>d. NicProcess ty_radius ty_fw EMS_APP_FW_RADIUS_DEVICE_FREE (device_obj (dev_of ra d) True)) (dev_entry ra) \<and>
    (\<forall>d \<in> set (dev_entry ra). fw_free (ra_out ra') (du_ip (dev_of ra d), du_mac (dev_of ra d)))"
proof -
  have "dev_tab ra" using rads.reachable_inv [OF assms(1,2)] assms(3) by (simp add: rad_inv_def all_ok_def)
  then have l: "set (dev_entry ra) \<subseteq> set (dev_live ra)" by (simp add: dev_tab_def)
  show ?thesis using fw_free_all [of _ "dev_entry ra" "ra_out ra" "dev_of ra"]
    by (simp add: radius_evt_fw_reload_def reload_effect [OF l] dev_key_def [symmetric])
qed

theorem radius_reload_frees_all_witness:
  "\<exists>(m :: rad_mod) ra ra'. rad_step\<^sup>*\<^sup>* rad_m0 m \<and> rm_ctx m = Some ra \<and> auth_waits 1 3 ra \<and>
    radius_evt_fw_reload ra = Some (EMS_OK, ra') \<and> fw_free (ra_out ra') (''10.0.0.9'', ''66:77:88:99:aa:bb'')"
proof -
  obtain ra where a: "rad_step\<^sup>*\<^sup>* rad_m0 \<lparr>rm_run = True, rm_ctx = Some ra\<rparr>" "dev_entry ra = [1]" "auth_waits 1 3 ra"
    "dev_key (dev_of ra 1) = (''10.0.0.9'', ''66:77:88:99:aa:bb'')" by (rule user_in_1)
  from radius_reload_frees_all [OF rad_m0 a(1), of ra] a(2,4) obtain ra' where
    "radius_evt_fw_reload ra = Some (EMS_OK, ra')" "fw_free (ra_out ra') (''10.0.0.9'', ''66:77:88:99:aa:bb'')"
    by (auto simp: dev_key_def)
  then show ?thesis using a by (intro exI [of _ "\<lparr>rm_run = True, rm_ctx = Some ra\<rparr>"] exI [of _ ra] exI [of _ ra']) simp
qed

theorem radius_firewall_safe_witness:
  "\<exists>(m :: rad_mod) ra. rm_ctx m = Some ra \<and> fw_free (ra_out ra) (''10.0.0.9'', ''66:77:88:99:aa:bb'') \<and>
    (\<exists>d \<in> set (dev_entry ra). du_ip (dev_of ra d) = ''10.0.0.9'')"
proof -
  obtain ra where a: "rad_step\<^sup>*\<^sup>* rad_m0 \<lparr>rm_run = True, rm_ctx = Some ra\<rparr>" "dev_entry ra = [1]" "dev_live ra = [1]"
    "dev_key (dev_of ra 1) = (''10.0.0.9'', ''66:77:88:99:aa:bb'')" "rh ra" by (rule user_in_1)
  obtain ra' where r: "radius_evt_fw_reload ra = Some (EMS_OK, ra')" "fw_free (ra_out ra') (''10.0.0.9'', ''66:77:88:99:aa:bb'')"
    using reload_effect [of "[1]" ra] fw_free_all [of 1 "[1]" "ra_out ra" "dev_of ra"] a by (simp add: radius_evt_fw_reload_def)
  have "ra_process re_1 EMS_APP_EVT_FW_RELOAD None \<lparr>rm_run = True, rm_ctx = Some ra\<rparr> = Some (EMS_OK, None, \<lparr>rm_run = True, rm_ctx = Some ra'\<rparr>)"
    using a(5) r(1) by (simp add: ra_process_def ra_command_def EMS_APP_START_def EMS_APP_STOP_def EMS_APP_EVT_FW_RELOAD_def)
  then have s: "rad_step\<^sup>*\<^sup>* rad_m0 \<lparr>rm_run = True, rm_ctx = Some ra'\<rparr>"
    using rtranclp.rtrancl_into_rtrancl [OF a(1) rad_step.message [OF fresh_1]] by blast
  from radius_firewall_safe [OF rad_m0 s _ r(2)]
  have "\<exists>d \<in> set (dev_entry ra'). du_ip (dev_of ra' d) = ''10.0.0.9''" by auto
  then show ?thesis using r(2) by (intro exI [of _ "\<lparr>rm_run = True, rm_ctx = Some ra'\<rparr>"] exI [of _ ra']) simp
qed


subsection \<open>Login and its end without an answer\<close>



text \<open>
  C11: A server that never answers is given up after exactly as many timeouts as there are attempts. Each
  timeout before the last one is a step of the module that sends the request again from its start and
  tells nobody; the last one removes the device, tells the portal that the server cannot be reached and
  closes the firewall for the user.
\<close>

theorem radius_auth_gives_up:
  assumes "rad_start s" and "rad_step\<^sup>*\<^sup>* s m" and "rm_ctx m = Some ra" and "auth_waits d n ra" and "0 < n"
  shows "(\<forall>k \<in> {1 ..< n}. \<exists>rak. expire_n e d k ra = Some rak \<and> auth_waits d (n - k) rak \<and> auth_resends d rak \<and> ra_out rak = ra_out ra) \<and>
    (\<exists>ra'. expire_n e d n ra = Some ra' \<and> rad_step\<^sup>*\<^sup>* m (m\<lparr>rm_ctx := Some ra'\<rparr>) \<and> d \<notin> set (dev_live ra') \<and> d \<notin> set (dev_entry ra') \<and>
      lasterr ra' = RADIUS_ERR_CANNOT_CONNECT \<and>
      ra_out ra' = ra_out ra @
        [NicSend ty_radius ty_portal EMS_APP_CMD_RADIUS_AUTH_RSP (user_obj (dev_of ra d) RADIUS_ERR_CANNOT_CONNECT),
         NicProcess ty_radius ty_fw EMS_APP_FW_RADIUS_DEVICE_FREE (device_obj (dev_of ra d) False)])"
proof -
  have "dev_tab ra" using rads.reachable_inv [OF assms(1,2)] assms(3) by (simp add: rad_inv_def all_ok_def)
  then have dist: "distinct (dev_live ra)" "distinct (dev_entry ra)" by (simp_all add: dev_tab_def)
  obtain k where n: "n = Suc k" using assms(5) by (cases n) simp_all
  obtain rak where b: "expire_n e d k ra = Some rak" "auth_waits d (Suc 0) rak" "user_view d rak = user_view d ra"
      "rad_step\<^sup>*\<^sup>* m (m\<lparr>rm_ctx := Some rak\<rparr>)"
    using expire_before [OF assms(3,4), of k] n by auto
  obtain ra1 where r: "rad_expire e d rak = Some ra1" and l: "dev_live ra1 = remove1 d (dev_live rak)" "dev_entry ra1 = remove1 d (dev_entry rak)"
    "lasterr ra1 = RADIUS_ERR_CANNOT_CONNECT" "ra_out ra1 = ra_out rak @
    [NicSend ty_radius ty_portal EMS_APP_CMD_RADIUS_AUTH_RSP (user_obj (dev_of rak d) RADIUS_ERR_CANNOT_CONNECT),
     NicProcess ty_radius ty_fw EMS_APP_FW_RADIUS_DEVICE_FREE (device_obj (dev_of rak d) False)]"
    by (rule expire_last [OF b(2)])
  have "rad_step (m\<lparr>rm_ctx := Some rak\<rparr>) (m\<lparr>rm_ctx := Some ra1\<rparr>)" using expire_timer [OF _ b(2) r, of "m\<lparr>rm_ctx := Some rak\<rparr>"] by simp
  with b(4) have "rad_step\<^sup>*\<^sup>* m (m\<lparr>rm_ctx := Some ra1\<rparr>)" by (rule rtranclp.rtrancl_into_rtrancl)
  moreover have "expire_n e d n ra = Some ra1" unfolding n expire_n_last b(1) using r by simp
  moreover have "\<forall>k \<in> {1 ..< n}. \<exists>rak. expire_n e d k ra = Some rak \<and> auth_waits d (n - k) rak \<and> auth_resends d rak \<and> ra_out rak = ra_out ra"
    using expire_before [OF assms(3,4)] by (fastforce simp: user_view_def)
  ultimately show ?thesis using l b(3) dist by (simp add: user_view_def)
qed

theorem radius_auth_gives_up_witness:
  "\<exists>ra ra'. auth_waits 1 3 ra \<and> expire_n re_1 1 3 ra = Some ra' \<and> dev_entry ra = [1] \<and> 1 \<notin> set (dev_entry ra')"
proof -
  obtain ra where a: "rad_step\<^sup>*\<^sup>* rad_m0 \<lparr>rm_run = True, rm_ctx = Some ra\<rparr>" "dev_entry ra = [1]" "auth_waits 1 3 ra" by (rule user_in_1)
  from radius_auth_gives_up [OF rad_m0 a(1) _ a(3), of re_1] show ?thesis using a(2,3) by auto
qed

end
