(* ===== verification/Ems_Radius_Answer.thy ===== *)
theory Ems_Radius_Answer
  imports Ems_Radius_User
begin

text \<open>
  The answer of the RADIUS server to a request for authentication, from the datagram to the new state of the
  user: the way of an acceptance, and that of every other answer.
\<close>

subsection \<open>An answer of the server\<close>

text \<open>A datagram for a user whose authentication is under way: it is whole and the library accepts it.\<close>

definition auth_reply :: "rad_env \<Rightarrow> addr \<Rightarrow> ems_radius \<Rightarrow> ems_session \<Rightarrow> string \<Rightarrow> bool" where
  "auth_reply e d ra t pkt \<longleftrightarrow> d \<in> set (dev_live ra) \<and> d_st (dev_of ra d) = st_auth \<and> d_sess (dev_of ra d) = Some t \<and>
    auth_out (dev_of ra d) = Some 0 \<and> 0 < s_fd (sock t) \<and> brd (buf_in t) = 0 \<and> bwr (buf_in t) = 0 \<and>
    length (bmem (buf_in t)) = 3072 \<and> length (bmem (buf_out t)) = 3072 \<and>
    20 \<le> length pkt \<and> length pkt < 3072 \<and> dns_get_short pkt 2 = Some (4, word_of_nat (length pkt)) \<and>
    rc_check_reply e (mem_write (bmem (buf_in t)) 0 pkt) 3072 (secret ra) (vector (dev_of ra d)) (bmem (buf_out t) ! 1) = 0"

lemma short_prefix: "4 \<le> length a \<Longrightarrow> dns_get_short (a @ b) 2 = dns_get_short a 2"
  by (simp add: dns_get_short_def nth_append)

lemma short_take: "4 \<le> n \<Longrightarrow> n \<le> length a \<Longrightarrow> dns_get_short (take n a) 2 = dns_get_short a 2"
  by (simp add: dns_get_short_def)

lemma loop_more:
  "dev_preprocess e d s h ra = Some (ret, ra1) \<Longrightarrow> ret \<noteq> EMS_BUFFER_INSUFFICIENT \<Longrightarrow> ret \<noteq> EMS_ERR \<Longrightarrow> ret \<noteq> EMS_CONTINUE \<Longrightarrow>
    preprocess_loop e d s h ra = preprocess_loop e d s h ra1"
  by (subst preprocess_loop.simps) simp

lemma loop_stuck: "dev_preprocess e d s h ra = None \<Longrightarrow> preprocess_loop e d s h ra = None"
  by (subst preprocess_loop.simps) simp

lemma loop_ends: "sess_get d s ra = Some t \<Longrightarrow> buf_len (buf_in t) < 20 \<Longrightarrow> preprocess_loop e d s h ra = Some (EMS_OK, ra)"
  by (subst preprocess_loop.simps) (simp add: dev_preprocess_def EMS_CONTINUE_def EMS_BUFFER_INSUFFICIENT_def)

lemma read_datagram:
  assumes "0 < s_fd sk" and "length pkt < length (bmem b)" and "brd b = 0" and "bwr b = 0"
  shows "ems_sock_read [Got pkt, RFail EAGAIN] sk b =
    Some (- EAGAIN, sk, \<lparr>bmem = mem_write (bmem b) 0 pkt, brd = 0, bwr = length pkt\<rparr>)"
proof -
  obtain m where b: "b = \<lparr>bmem = m, brd = 0, bwr = 0\<rparr>" using assms(3,4) by (cases b) simp
  have r: "recv_loop [Got pkt, RFail EAGAIN] (length m) [] = Some (RAgain, pkt)"
    using assms(2) by (auto simp: b recv_loop.simps)
  show ?thesis unfolding b using assms(1,2) seek_wr_from_clear [of "mem_write m 0 pkt" "length m" "length pkt"]
    by (simp add: ems_sock_read_def buf_left_def r b)
qed

text \<open>The state in which the handler of the reply is called.\<close>

definition reply_state :: "rad_env \<Rightarrow> addr \<Rightarrow> ems_session \<Rightarrow> string \<Rightarrow> ems_radius \<Rightarrow> ems_radius" where
  "reply_state e d t pkt ra = dev_put d ((dev_of ra d)
    \<lparr>d_sess := Some (t\<lparr>buf_in := \<lparr>bmem = mem_write (bmem (buf_in t)) 0 pkt, brd = 0, bwr = length pkt\<rparr>\<rparr>),
     auth_in := Some 0, vp_in := (if 20 < length pkt then rc_avpair_gen e (drop 20 pkt) else [])\<rparr>) ra"

lemma reply_preprocess:
  assumes "auth_reply e d ra t pkt"
  defines "m \<equiv> mem_write (bmem (buf_in t)) 0 pkt"
  defines "ra1 \<equiv> dev_put d ((dev_of ra d)\<lparr>d_sess := Some (t\<lparr>buf_in := \<lparr>bmem = m, brd = 0, bwr = length pkt\<rparr>\<rparr>)\<rparr>) ra"
  shows "dev_preprocess e d SRad h ra1 = do {
      (_, ra2) \<leftarrow> h d SRad (reply_state e d t pkt ra);
      ra3 \<leftarrow> sess_upd d SRad (\<lambda>t. t\<lparr>buf_in := ems_buffer_refresh (snd (ems_buffer_seek_rd (buf_in t) (int (length pkt)) 2))\<rparr>) ra2;
      Some (EMS_OK, ra3) }"
proof -
  note a = assms(1) [unfolded auth_reply_def]
  have m: "m = pkt @ drop (length pkt) (bmem (buf_in t))" by (simp add: m_def mem_write_def)
  have l: "length m = 3072" using a by (simp add: m_def)
  have u: "unat (word_of_nat (length pkt) :: 16 word) = length pkt" using a by (simp add: unsigned_of_nat take_bit_nat_eq_self)
  then have u': "uint (word_of_nat (length pkt) :: 16 word) = int (length pkt)" by (metis uint_nat)
  have s: "dns_get_short m 2 = Some (4, word_of_nat (length pkt))" "dns_get_short (take 20 m) 2 = Some (4, word_of_nat (length pkt))"
    using a l by (simp_all add: short_take) (simp_all add: m short_prefix)
  have g: "sess_get d SRad ra1 = Some (t\<lparr>buf_in := \<lparr>bmem = m, brd = 0, bwr = length pkt\<rparr>\<rparr>)"
    using a by (simp add: ra1_def field_defs)
  have p: "ems_buffer_prefetch \<lparr>bmem = m, brd = 0, bwr = length pkt\<rparr> 20 = (20, take 20 m, \<lparr>bmem = m, brd = 0, bwr = length pkt\<rparr>)"
    using a by (simp add: ems_buffer_prefetch_def buffer_fetch_def buf_len_def)
  have d: "take (length pkt - 20) (drop 20 m) = drop 20 pkt" using a by (simp add: m)
  have c: "rc_check_reply e m 3072 (secret ra1) (vector (dev_of ra d)) (bmem (buf_out t) ! 1) = 0" using a by (simp add: ra1_def dev_put_def m_def)
  have pr: "dev_process_rsp e d SRad h ra1 = do { (_, ra2) \<leftarrow> h d SRad (reply_state e d t pkt ra); Some (EMS_OK, ra2) }"
    using a s(1) u c d l by (simp add: dev_process_rsp_def field_defs ra1_def buf_size_def reply_state_def m_def [symmetric])
  show ?thesis using s(2) u u' a l by (simp add: dev_preprocess_def g p pr buf_len_def buf_size_def Option.bind_assoc split_def)
qed


lemma reply_event:
  assumes "auth_reply e d ra t pkt"
  shows "dev_evt_cb e d SRad False EMS_EVT_READ [[Got pkt, RFail EAGAIN]] rs rets ra = map_option snd (do {
      (_, ra2) \<leftarrow> ra_auth_rsp e d SRad (reply_state e d t pkt ra);
      ra3 \<leftarrow> sess_upd d SRad (\<lambda>t. t\<lparr>buf_in := ems_buffer_refresh (snd (ems_buffer_seek_rd (buf_in t) (int (length pkt)) 2))\<rparr>) ra2;
      (ret, ra4) \<leftarrow> preprocess_loop e d SRad (ra_auth_rsp e) ra3;
      if ret = EMS_ERR then fail_to_err RADIUS_ERR_NETWORK d ra4 else Some (EMS_OK, ra4) })"
proof -
  note a = assms [unfolded auth_reply_def]
  let ?m = "mem_write (bmem (buf_in t)) 0 pkt"
  let ?ra1 = "dev_put d ((dev_of ra d)\<lparr>d_sess := Some (t\<lparr>buf_in := \<lparr>bmem = ?m, brd = 0, bwr = length pkt\<rparr>\<rparr>)\<rparr>) ra"
  have g: "dev_get d ra = Some (dev_of ra d)" "sess_get d SRad ra = Some t" using a by (simp_all add: field_defs)
  have rd: "ems_sock_read [Got pkt, RFail EAGAIN] (sock t) (buf_in t) = Some (- EAGAIN, sock t, \<lparr>bmem = ?m, brd = 0, bwr = length pkt\<rparr>)"
    using a by (intro read_datagram) simp_all
  have u: "sess_upd d SRad (\<lambda>t'. t'\<lparr>sock := sock t, buf_in := \<lparr>bmem = ?m, brd = 0, bwr = length pkt\<rparr>\<rparr>) ra = Some ?ra1"
    using a by (simp add: field_defs)
  have "dev_evt_cb e d SRad False EMS_EVT_READ [[Got pkt, RFail EAGAIN]] rs rets ra = map_option snd (do {
      (ret, ra4) \<leftarrow> preprocess_loop e d SRad (ra_auth_rsp e) ?ra1;
      if ret = EMS_ERR then fail_to_err RADIUS_ERR_NETWORK d ra4 else Some (EMS_OK, ra4) })"
    using a by (simp add: dev_evt_cb_def dev_evt_run_def g ra_auth_def rd u ems_flag_like_def split_def EMS_EVT_READ_def
        cong: option.case_cong split: option.splits Option.bind_splits)
  moreover have "preprocess_loop e d SRad (ra_auth_rsp e) ?ra1 = do {
      (_, ra2) \<leftarrow> ra_auth_rsp e d SRad (reply_state e d t pkt ra);
      ra3 \<leftarrow> sess_upd d SRad (\<lambda>t. t\<lparr>buf_in := ems_buffer_refresh (snd (ems_buffer_seek_rd (buf_in t) (int (length pkt)) 2))\<rparr>) ra2;
      preprocess_loop e d SRad (ra_auth_rsp e) ra3 }"
  proof (cases "dev_preprocess e d SRad (ra_auth_rsp e) ?ra1")
    case None
    then show ?thesis using loop_stuck [OF None] reply_preprocess [OF assms, of "ra_auth_rsp e"]
      by (auto simp: split_def split: Option.bind_splits)
  next
    case (Some y)
    then obtain ra2 ra3 r where 2: "ra_auth_rsp e d SRad (reply_state e d t pkt ra) = Some (r, ra2)"
      "sess_upd d SRad (\<lambda>t. t\<lparr>buf_in := ems_buffer_refresh (snd (ems_buffer_seek_rd (buf_in t) (int (length pkt)) 2))\<rparr>) ra2 = Some ra3"
      "y = (EMS_OK, ra3)"
      using reply_preprocess [OF assms, of "ra_auth_rsp e"] by (auto simp: bind_eq_Some_conv)
    then show ?thesis using loop_more [OF Some [unfolded 2(3)]] by (simp add: EMS_BUFFER_INSUFFICIENT_def EMS_CONTINUE_def)
  qed
  ultimately show ?thesis by (simp add: split_def)
qed


lemma fail_to_err_effect:
  assumes "d \<in> set (dev_live ra)" and "d_st (dev_of ra d) \<noteq> st_err"
  obtains ra' where "fail_to_err why d ra = Some (EMS_OK, ra')" and "dev_live ra' = remove1 d (dev_live ra)"
    and "dev_entry ra' = remove1 d (dev_entry ra)" and "lasterr ra' = why"
    and "ra_out ra' = ra_out ra @
      [NicSend ty_radius ty_portal EMS_APP_CMD_RADIUS_AUTH_RSP (user_obj (dev_of ra d) (if why = 0 then 4 else why)),
       NicProcess ty_radius ty_fw EMS_APP_FW_RADIUS_DEVICE_FREE (device_obj (dev_of ra d) False)]"
  by (rule that [of "snd (the (fail_to_err why d ra))"])
    (simp_all add: assms field_defs fail_to_err_def to_err_def change_with_def ra_err_def ra_device_firewall_set_rules_def ra_emit_def
      ems_device_destroy_def user_obj_def device_obj_def)

lemma reply_state_fields [simp]:
  "dev_live (reply_state e d t pkt ra) = dev_live ra" "dev_entry (reply_state e d t pkt ra) = dev_entry ra"
  "ra_out (reply_state e d t pkt ra) = ra_out ra" "d_st (dev_of (reply_state e d t pkt ra) d) = d_st (dev_of ra d)"
  "user_obj (dev_of (reply_state e d t pkt ra) d) = user_obj (dev_of ra d)"
  "device_obj (dev_of (reply_state e d t pkt ra) d) = device_obj (dev_of ra d)"
  by (simp_all add: reply_state_def user_obj_def device_obj_def fun_eq_iff)

lemma reply_code: "auth_reply e d ra t pkt \<Longrightarrow> rsp_code d SRad (reply_state e d t pkt ra) = Some (uchr (pkt ! 0))"
  by (auto simp: auth_reply_def rsp_code_def reply_state_def field_defs mem_write_def nth_append)

text \<open>
  C22: A reply that the library accepts and that is not an acceptance destroys the device while its
  event is being handled: the handler tells the portal and the firewall, and then releases the device and its
  session; what the caller does next, advancing the input buffer of that session, is a use of released
  memory in every such case.
\<close>

theorem radius_reject_use_after_free:
  assumes "rad_start s" and "rad_step\<^sup>*\<^sup>* s m" and "rm_ctx m = Some ra" and "auth_reply e d ra t pkt" and "uchr (pkt ! 0) \<noteq> 2"
  shows "(\<exists>ra'. ra_auth_rsp e d SRad (reply_state e d t pkt ra) = Some (EMS_OK, ra') \<and> d \<notin> set (dev_live ra') \<and>
      ra_out ra' = ra_out ra @
        [NicSend ty_radius ty_portal EMS_APP_CMD_RADIUS_AUTH_RSP
           (user_obj (dev_of ra d) (if uchr (pkt ! 0) = 11 then 11 else RADIUS_ERR_REJECT)),
         NicProcess ty_radius ty_fw EMS_APP_FW_RADIUS_DEVICE_FREE (device_obj (dev_of ra d) False)]) \<and>
    dev_evt_cb e d SRad False EMS_EVT_READ [[Got pkt, RFail EAGAIN]] rs rets ra = None"
proof -
  have "dev_tab ra" using rads.reachable_inv [OF assms(1,2)] assms(3) by (simp add: rad_inv_def all_ok_def)
  then have "distinct (dev_live ra)" by (simp add: dev_tab_def)
  moreover define why where "why = (if uchr (pkt ! 0) = 11 then 11 else RADIUS_ERR_REJECT)"
  have "why \<noteq> 0" by (simp add: why_def RADIUS_ERR_REJECT_def)
  have "d \<in> set (dev_live (reply_state e d t pkt ra))" "d_st (dev_of (reply_state e d t pkt ra) d) \<noteq> st_err"
    using assms(4) by (simp_all add: auth_reply_def)
  then obtain ra' where f: "fail_to_err why d (reply_state e d t pkt ra) = Some (EMS_OK, ra')"
    "dev_live ra' = remove1 d (dev_live ra)" "ra_out ra' = ra_out ra @
        [NicSend ty_radius ty_portal EMS_APP_CMD_RADIUS_AUTH_RSP (user_obj (dev_of ra d) why),
         NicProcess ty_radius ty_fw EMS_APP_FW_RADIUS_DEVICE_FREE (device_obj (dev_of ra d) False)]"
    using \<open>why \<noteq> 0\<close> by (rule_tac fail_to_err_effect [where why = why and ra = "reply_state e d t pkt ra" and d = d]) simp_all
  have "(if uchr (pkt ! 0) = 11 then int (uchr (pkt ! 0)) else RADIUS_ERR_REJECT) = why" by (simp add: why_def)
  then have r: "ra_auth_rsp e d SRad (reply_state e d t pkt ra) = Some (EMS_OK, ra')"
    using assms(5) f(1) by (simp only: ra_auth_rsp_def reply_code [OF assms(4)] Option.bind_lunit if_False split_def fst_conv snd_conv)
  ultimately have n: "d \<notin> set (dev_live ra')" using f(2) by simp
  then have "dev_evt_cb e d SRad False EMS_EVT_READ [[Got pkt, RFail EAGAIN]] rs rets ra = None"
    unfolding reply_event [OF assms(4)] r by (simp add: sess_upd_def sess_get_def dev_get_def)
  with r n f(3) show ?thesis unfolding why_def by blast
qed


subsection \<open>A failure of the connection\<close>

lemma same_sess: "d_sess x = Some t \<Longrightarrow> x\<lparr>d_sess := Some t\<rparr> = x" "sess_dev x = Some t \<Longrightarrow> x\<lparr>sess_dev := Some t\<rparr> = x"
  by (cases x, simp)+

lemma put_same: "sess_get d s ra = Some t \<Longrightarrow> sess_upd d s (\<lambda>t'. t'\<lparr>sock := sock t, buf_in := buf_in t\<rparr>) ra = Some ra"
  by (auto simp: sess_upd_def sess_get_def dev_get_Some dev_upd_def dev_put_def dev_sess_def put_sess_def bind_eq_Some_conv
      same_sess split: sess_id.splits)

lemma recv_dead:
  assumes "sess_get d s ra = Some t" and "s_fd (sock t) \<le> 0" and "buf_len (buf_in t) = 0"
  shows "ra_recv_msg e d s h rss ra = None"
proof (induction rss)
  case (Cons rs rss)
  have "ems_sock_read rs (sock t) (buf_in t) = Some (EMS_ERR, sock t, buf_in t)" using assms(2) by (simp add: ems_sock_read_def)
  then show ?case using Cons loop_ends [OF assms(1), of e h] assms by (simp add: put_same)
qed simp

text \<open>
  When \<open>recv\<close> fails on a session that has nothing in its buffer, the receiving loop never returns, whatever
  would be received later: the socket has been closed, every further attempt fails at once, and the flag
  that asks for another attempt is only cleared by \<open>EAGAIN\<close>. The whole process hangs.
\<close>

theorem radius_recv_error_hangs:
  assumes "sess_get d s ra = Some t" and "0 < s_fd (sock t)" and "brd (buf_in t) = 0" and "bwr (buf_in t) = 0"
    and "0 < length (bmem (buf_in t))" and "err \<noteq> EAGAIN" and "err \<noteq> 4"
  shows "ra_recv_msg e d s h ([RFail err] # rss) ra = None"
proof -
  let ?sk = "snd (ems_sock_close (sock t))"
  have "recv_loop [RFail err] (length (bmem (buf_in t))) [] = Some (RErr, [])" using assms(5-7) by (simp add: recv_loop.simps)
  then have r: "ems_sock_read [RFail err] (sock t) (buf_in t) = Some (-1, ?sk, buf_in t)"
    using assms(2,4) by (simp add: ems_sock_read_def buf_left_def)
  have live: "d \<in> set (dev_live ra)" using assms(1) by (auto simp: sess_get_def bind_eq_Some_conv dev_get_Some)
  obtain ra1 where u: "sess_upd d s (\<lambda>t'. t'\<lparr>sock := ?sk, buf_in := buf_in t\<rparr>) ra = Some ra1" and "sess_get d s ra1 = Some (t\<lparr>sock := ?sk\<rparr>)"
    using assms(1) live by (cases s) (auto simp: field_defs)
  moreover have "s_fd ?sk \<le> 0" using assms(2) by (simp add: ems_sock_close_def)
  moreover have z: "buf_len (buf_in t) = 0" using assms(3,4) by (simp add: buf_len_def)
  ultimately have "ra_recv_msg e d s h rss ra1 = None" "preprocess_loop e d s h ra1 = Some (EMS_OK, ra1)"
    by (auto intro!: recv_dead loop_ends)
  then show ?thesis by (simp add: assms(1) r u z)
qed

theorem radius_recv_error_hangs_witness:
  "\<exists>ra t. sess_get 1 SRad ra = Some t \<and> s_fd (sock t) = 7 \<and> ra_recv_msg re_1 1 SRad (ra_auth_rsp re_1) [[RFail 111], [Got ''x'']] ra = None"
proof -
  obtain ra :: ems_radius and t where a: "dev_live ra = [1]" "d_sess (dev_of ra 1) = Some t" "s_fd (sock t) = 7" "brd (buf_in t) = 0" "bwr (buf_in t) = 0"
    "length (bmem (buf_in t)) = 3072" by (rule user_in_1)
  have g: "sess_get 1 SRad ra = Some t" using a(1,2) by (simp add: field_defs)
  from radius_recv_error_hangs [OF g _ a(4,5), of 111 re_1 "ra_auth_rsp re_1" "[[Got ''x'']]"] a(3,6)
  have "ra_recv_msg re_1 1 SRad (ra_auth_rsp re_1) [[RFail 111], [Got ''x'']] ra = None" by simp
  then show ?thesis using g a(3) by blast
qed

subsection \<open>The user is accepted\<close>

text \<open>The accounting of a user that begins or goes on leaves the traffic alone.\<close>

lemma acct_pairs:
  assumes "length (i_bssid (iface e)) < 32" and "length (du_mac x) < 32" and "reason x = 1"
  obtains st sid vp where "ra_fill_acct_avpairs e x = Some (x\<lparr>du_start := st, du_sessid := sid, vp_out := vp\<rparr>)"
proof -
  obtain vp where vp: "ra_nas_avpairs e x (vp_str e 1 (du_name x) (vp_out x)) = Some vp" using nas_pairs [OF assms(1,2)] by blast
  show ?thesis
  proof (cases "du_sessid x = []")
    case True
    then show ?thesis using that [where st = "r_now e" and sid = "session_id e"] assms(3) by (simp add: ra_fill_acct_avpairs_def vp del: One_nat_def)
  next
    case False
    then show ?thesis using that [where st = "du_start x" and sid = "du_sessid x"] assms(3) by (simp add: ra_fill_acct_avpairs_def vp del: One_nat_def)
  qed
qed

lemma acct_info_effect:
  assumes "rad_lib_ok e ra" and "dev_get d ra = Some x" and "d_sess x = Some t" and "length (bmem (buf_out t)) = 3072"
    and "length (du_mac x) < 32" and "reason x = 1"
  obtains b vp n st sid vec where "ra_fill_acct_info e d ra = Some (dev_put d (x\<lparr>vp_in := [], auth_out := Some 0, du_start := st, du_sessid := sid,
      vp_out := vp, d_sess := Some (t\<lparr>buf_out := b\<rparr>), vector := vec, total_len := n\<rparr>) (ra\<lparr>seq_nbr := seq_nbr ra + 1\<rparr>))"
    and "take 4 (contents b) = char_of (4 :: nat) # char_of (unat (seq_nbr ra)) # be16 (word_of_int n)"
    and "int (length (contents b)) = n"
proof -
  note lib = rad_lib_okD [OF assms(1)]
  let ?x0 = "x\<lparr>vp_out := [], vp_in := [], auth_out := Some 0\<rparr>"
  obtain st sid vp where y: "ra_fill_acct_avpairs e ?x0 = Some (?x0\<lparr>du_start := st, du_sessid := sid, vp_out := vp\<rparr>)"
    by (rule acct_pairs [OF lib(1), of ?x0]) (use assms(5,6) in simp_all)
  let ?m = "bmem (buf_out t)"
  define data where "data = rc_pack_list e vp (secret ra) (take 16 (drop 4 ?m))"
  define n where "n = length data + 20"
  define pkt where "pkt = char_of (4 :: nat) # char_of (unat (seq_nbr ra)) # be16 (word_of_nat n) @ replicate 16 (char_of (0 :: nat)) @ data"
  define m1 where "m1 = mem_write ?m 0 pkt"
  define m2 where "m2 = mem_write m1 n (secret ra)"
  define vec where "vec = take 16 (rc_md5_calc e (take (n + length (secret ra)) m2))"
  define m3 where "m3 = mem_write m2 4 vec"
  have len: "16 \<le> length data" "length data + length (secret ra) \<le> 3000"
    using lib(3) [of vp "take 16 (drop 4 ?m)"] lib(4) [of vp "take 16 (drop 4 ?m)"] by (simp_all add: data_def)
  have p: "length pkt = n" by (simp add: pkt_def be16_def n_def)
  have fields: "bmem (ems_buffer_clear b) = bmem b" "vp_out (z\<lparr>vp_out := w\<rparr>) = w" for b :: "char ems_buffer" and z :: ems_device and w
    by (simp_all add: ems_buffer_clear_def)
  have n: "4 \<le> n" "n \<le> 3072" "n + length (secret ra) \<le> 3072" using len by (simp_all add: n_def)
  have l1: "length m1 = 3072" using len by (simp add: m1_def p n_def assms(4))
  have l2: "length m2 = 3072" using len by (simp add: m2_def n_def l1)
  have v: "length vec = 16" using lib(6) by (simp add: vec_def)
  have l3: "length m3 = 3072" by (simp add: m3_def l2 v)
  have puts: "mem_put ?m 0 pkt = Some m1" "mem_put m1 n (secret ra) = Some m2" "mem_put m2 4 vec = Some m3"
    using n by (simp_all add: mem_put_Some p assms(4) l1 l2 v m1_def [symmetric] m2_def [symmetric] m3_def [symmetric])
  let ?b = "\<lparr>bmem = m3, brd = 0, bwr = n\<rparr>"
  have s: "snd (ems_buffer_seek_wr ((ems_buffer_clear (buf_out t))\<lparr>bmem := m3\<rparr>) (int n) 2) = ?b"
    unfolding clear_eq using seek_wr_from_clear [OF l3, of n] len by (simp add: n_def)
  have "take 4 (contents ?b) = take 4 m3" using n by (simp add: contents_def min_def)
  also have "\<dots> = take 4 m2" by (simp add: m3_def l2)
  also have "\<dots> = take 4 (take n m2)" using n by (simp add: min_def)
  also have "\<dots> = take 4 (take n m1)" using n by (simp add: m2_def l1)
  also have "\<dots> = take 4 m1" using n by (simp add: min_def)
  also have "\<dots> = take 4 pkt" using p n by (simp add: m1_def mem_write_def)
  also have "\<dots> = char_of (4 :: nat) # char_of (unat (seq_nbr ra)) # be16 (word_of_int (int n))" by (simp add: pkt_def be16_def)
  finally have c: "take 4 (contents ?b) = \<dots>" .
  have "ra_fill_acct_info e d ra = Some (dev_put d (?x0\<lparr>du_start := st, du_sessid := sid, vp_out := vp,
      d_sess := Some (t\<lparr>buf_out := ?b\<rparr>), vector := vec, total_len := int n\<rparr>) (ra\<lparr>seq_nbr := seq_nbr ra + 1\<rparr>))"
    by (simp only: ra_fill_acct_info_def assms(2,3) y Let_def Option.bind_lunit fields data_def [symmetric] n_def [symmetric] pkt_def [symmetric]
        puts vec_def [symmetric] s)
  then show ?thesis by (intro that [where b = ?b and n = "int n" and st = st and sid = sid and vec = vec and vp = vp])
      (use c n l3 in \<open>simp_all add: contents_def\<close>)
qed


lemma accept_handler:
  assumes "auth_reply e d ra t pkt" and "pkt ! 0 = char_of (2 :: nat)"
    and "gethost e (acct_addr ra) = Some h" "0 < new_socket e" "connect_ok e h (acct_port ra)"
  obtains ra' x t' where "ra_auth_rsp e d SRad (reply_state e d t pkt ra) = st_into_acct e d ra'" and "dev_get d ra' = Some x"
    and "d_sess x = Some t'" and "length (bmem (buf_out t')) = 3072" and "s_fd (sock t') = new_socket e" and "brd (buf_in t') = 0"
    and "bwr (buf_in t') = 0" and "reason x = 1" and "d_st x = st_acct" and "user_obj x = user_obj (dev_of ra d)"
    and "device_obj x = device_obj (dev_of ra d)" and "dev_live ra' = dev_live ra" and "dev_entry ra' = dev_entry ra"
    and "secret ra' = secret ra" and "seq_nbr ra' = seq_nbr ra" and "ra_retry_times ra' = ra_retry_times ra"
    and "ra_retry_timeout ra' = ra_retry_timeout ra" and "ra_out ra' = ra_out ra @
      [NicSend ty_radius ty_portal EMS_APP_CMD_RADIUS_AUTH_RSP (user_obj (dev_of ra d) 0),
       NicProcess ty_radius ty_fw EMS_APP_FW_RADIUS_DEVICE_FREE (device_obj (dev_of ra d) True)]"
proof -
  note a = assms(1) [unfolded auth_reply_def]
  define ra1 where "ra1 = reply_state e d t pkt ra"
  define tr where "tr = t\<lparr>buf_in := \<lparr>bmem = mem_write (bmem (buf_in t)) 0 pkt, brd = 0, bwr = length pkt\<rparr>\<rparr>"
  let ?close = "\<lambda>t :: ems_session. let t1 = sess_timeout_cancel (sess_event_cancel t) in
        t1\<lparr>sock := snd (ems_sock_close (sock t1)), buf_out := ems_buffer_clear (buf_out t1), buf_in := ems_buffer_clear (buf_in t1)\<rparr>"
  define tn where "tn = (sess_target (acct_addr ra) (acct_port ra) (?close tr))
    \<lparr>sock := snd (ems_sock_setfd (sock (sess_target (acct_addr ra) (acct_port ra) (?close tr))) (new_socket e))\<rparr>"
  define ra2 where "ra2 = dev_put d (put_sess SRad (?close tr) (dev_of ra1 d)) ra1"
  define ra3 where "ra3 = dev_put d ((dev_of ra2 d)\<lparr>vp_out := [], vp_in := [], auth_out := None, auth_in := None\<rparr>) ra2"
  define ra4 where "ra4 = dev_put d (put_sess SRad tn (dev_of ra3 d)) ra3"
  define ra5 where "ra5 = ra_emit (NicSend ty_radius ty_portal EMS_APP_CMD_RADIUS_AUTH_RSP (user_obj (dev_of ra4 d) 0)) (ra4\<lparr>lasterr := RADIUS_ERR_SUCCESS\<rparr>)"
  define ra6 where "ra6 = ra_emit (NicProcess ty_radius ty_fw EMS_APP_FW_RADIUS_DEVICE_FREE (device_obj (dev_of ra5 d) True)) ra5"
  define ra7 where "ra7 = dev_put d ((dev_of ra6 d)\<lparr>reason := 1\<rparr>) ra6"
  define ra8 where "ra8 = dev_put d ((dev_of ra7 d)\<lparr>d_st := st_acct\<rparr>) ra7"
  note defs = ra1_def ra2_def ra3_def ra4_def ra5_def ra6_def ra7_def ra8_def ra_emit_def
  have live: "dev_live ra1 = dev_live ra" "dev_live ra2 = dev_live ra" "dev_live ra3 = dev_live ra" "dev_live ra4 = dev_live ra"
      "dev_live ra5 = dev_live ra" "dev_live ra6 = dev_live ra" "dev_live ra7 = dev_live ra" "dev_live ra8 = dev_live ra"
    by (simp_all add: defs)
  have s1: "d_sess (dev_of ra1 d) = Some tr" by (simp add: ra1_def reply_state_def tr_def)
  have u1: "sess_upd d SRad ?close ra1 = Some ra2" using a s1 by (simp add: field_defs live ra2_def)
  have u2: "dev_upd d (\<lambda>x. x\<lparr>vp_out := [], vp_in := [], auth_out := None, auth_in := None\<rparr>) ra2 = Some ra3"
    using a by (simp add: dev_upd_def dev_get_def live ra3_def)
  have s3: "sess_get d SRad ra3 = Some (?close tr)"
    using a by (simp add: sess_get_def dev_sess_def dev_get_def live ra3_def ra2_def put_sess_def)
  have c: "acct_addr ra3 = acct_addr ra" "acct_port ra3 = acct_port ra" by (simp_all add: defs reply_state_def dev_put_def)
  have cn: "ra_connect e (sess_target (acct_addr ra3) (acct_port ra3) (?close tr)) = (EMS_OK, tn)"
    unfolding c tn_def by (rule connect_done [OF assms(3-5)])
  have u3: "sess_upd d SRad (\<lambda>_. tn) ra3 = Some ra4" using s3 a by (simp add: sess_upd_def dev_upd_def dev_get_def live ra4_def)
  have g4: "dev_get d ra4 = Some (dev_of ra4 d)" using a by (simp add: dev_get_def live)
  have f5: "ra_device_firewall_set_rules d True ra5 = Some ra6"
    using a by (simp add: ra_device_firewall_set_rules_def dev_get_def live ra6_def)
  have u6: "dev_upd d (\<lambda>x. x\<lparr>reason := 1\<rparr>) ra6 = Some ra7" using a by (simp add: dev_upd_def dev_get_def live ra7_def)
  have st: "d_st (dev_of ra7 d) = st_auth" using a by (simp add: defs put_sess_def)
  have ch: "dev_change_status e d st_acct ra7 = st_into_acct e d ra8"
    using a st by (simp add: dev_change_status_def change_with_def dev_get_def live ra8_def)
  have conn: "ra_connect_to_acct_server e d SRad ra3 = st_into_acct e d ra8"
    using ch u6 f5 by (simp add: ra_connect_to_acct_server_def s3 cn u3 g4 ra5_def [symmetric])
  have "ra_auth_rsp e d SRad ra1 = st_into_acct e d ra8"
    using reply_code [OF assms(1)] assms(2) conn u2
    by (simp add: ra_auth_rsp_def ra1_def [symmetric] ra_start_to_acct_user_def u1)
  then show ?thesis
    by (rule that [of ra8 "dev_of ra8 d" tn, unfolded ra1_def [symmetric]])
      (use a in \<open>simp_all add: live dev_get_def\<close>, (simp_all add: defs put_sess_def tn_def tr_def reply_state_def dev_put_def user_obj_def
        device_obj_def fun_eq_iff Let_def sess_timeout_cancel_def sess_event_cancel_def ems_buffer_clear_def ems_sock_setfd_def a)?)
qed


lemma idle_refresh: "brd b = 0 \<Longrightarrow> bwr b = 0 \<Longrightarrow> ems_buffer_refresh (snd (ems_buffer_seek_rd b (int k) 2)) = b"
  by (cases "k = 0") (simp_all add: ems_buffer_seek_rd_def ems_buffer_refresh_def buf_len_def buf_trash_def)


subsection \<open>The answers to one user\<close>

definition answer_1 :: "nat \<Rightarrow> string" where
  "answer_1 code = char_of code # CHR 0x00 # be16 20 @ replicate 16 (CHR 0x00)"

lemma answered_1:
  obtains ra t where "rad_step\<^sup>*\<^sup>* rad_m0 \<lparr>rm_run = True, rm_ctx = Some ra\<rparr>" and "auth_reply re_1 1 ra t (answer_1 code)"
    and "rad_lib_ok re_1 ra" and "dev_key (dev_of ra 1) = (''10.0.0.9'', ''66:77:88:99:aa:bb'')" and "acct_addr ra = ''10.0.0.1''"
proof -
  obtain ra t where a: "rad_step\<^sup>*\<^sup>* rad_m0 \<lparr>rm_run = True, rm_ctx = Some ra\<rparr>" "dev_live ra = [1]" "auth_waits 1 3 ra"
    "dev_key (dev_of ra 1) = (''10.0.0.9'', ''66:77:88:99:aa:bb'')" "d_sess (dev_of ra 1) = Some t" "auth_ready re_1 rad_r1 (dev_of ra 1) t"
    "s_fd (sock t) = 7" "brd (buf_in t) = 0" "bwr (buf_in t) = 0" "length (bmem (buf_in t)) = 3072" "secret ra = ''secret''"
    "acct_addr ra = ''10.0.0.1''" by (rule user_in_1)
  have "dns_get_short (answer_1 code) 2 = Some (4, 20)"
    using get_short_be16 [of "[char_of code, CHR 0x00]" 2 20 "replicate 16 (CHR 0x00)"] by (simp add: answer_1_def)
  moreover have "length (answer_1 code) = 20" by (simp add: answer_1_def be16_def)
  ultimately have "auth_reply re_1 1 ra t (answer_1 code)"
    using a(2,3,5-11) by (simp add: auth_reply_def auth_ready_def auth_waits_def) (simp add: re_1_def)
  moreover have "rad_lib_ok re_1 ra" using a(11) by (simp add: rad_lib_ok_def re_1_def)
  ultimately show ?thesis using a(1,4,12) that by blast
qed

theorem radius_reject_use_after_free_witness:
  "\<exists>(m :: rad_mod) ra. rad_step\<^sup>*\<^sup>* rad_m0 m \<and> rm_ctx m = Some ra \<and>
    dev_evt_cb re_1 1 SRad False EMS_EVT_READ [[Got (answer_1 3), RFail EAGAIN]] [] [] ra = None"
proof -
  obtain ra t where a: "rad_step\<^sup>*\<^sup>* rad_m0 \<lparr>rm_run = True, rm_ctx = Some ra\<rparr>" "auth_reply re_1 1 ra t (answer_1 3)" by (rule answered_1)
  from radius_reject_use_after_free [OF rad_m0 a(1) _ a(2), of "[]" "[]"]
  have "dev_evt_cb re_1 1 SRad False EMS_EVT_READ [[Got (answer_1 3), RFail EAGAIN]] [] [] ra = None" by (simp add: answer_1_def)
  then show ?thesis using a(1) by (intro exI [of _ "\<lparr>rm_run = True, rm_ctx = Some ra\<rparr>"] exI [of _ ra]) simp
qed


end
