(* ===== verification/Ems_Portal_Wire.thy ===== *)
theory Ems_Portal_Wire
  imports Ems_Radius
begin

text \<open>
  The messages of the portal protocol of \<^verbatim>\<open>c/ems/src/core/ems_portal.c\<close> and \<^verbatim>\<open>ems_portal.h\<close>: a header of 16
  bytes and attributes, each a type, a length that counts itself and the type, and a value. A message
  of the registration has attributes only.

  Memory is a list of bytes and a pointer into it an offset; the value \<open>None\<close> is an access outside the
  memory, or a loop that does not end.
\<close>

subsection \<open>The dictionary\<close>

definition TYPE_INT :: nat where "TYPE_INT = 0"
definition TYPE_STRING :: nat where "TYPE_STRING = 1"
definition ATTR_PKGTYPE :: nat where "ATTR_PKGTYPE = 1"
definition ATTR_AUTHTYPE :: nat where "ATTR_AUTHTYPE = 2"
definition ATTR_NASNAME :: nat where "ATTR_NASNAME = 3"
definition ATTR_RESPONSE :: nat where "ATTR_RESPONSE = 4"
definition ATTR_USERNAME :: nat where "ATTR_USERNAME = 5"
definition ATTR_PASSWORD :: nat where "ATTR_PASSWORD = 6"
definition ATTR_CHALLENGE :: nat where "ATTR_CHALLENGE = 7"
definition ATTR_CHAPPASS :: nat where "ATTR_CHAPPASS = 8"
definition ATTR_USERMAC :: nat where "ATTR_USERMAC = 9"
definition ATTR_ONLINE :: nat where "ATTR_ONLINE = 10"

lemmas attr_defs = TYPE_INT_def TYPE_STRING_def ATTR_PKGTYPE_def ATTR_AUTHTYPE_def ATTR_NASNAME_def ATTR_RESPONSE_def
  ATTR_USERNAME_def ATTR_PASSWORD_def ATTR_CHALLENGE_def ATTR_CHAPPASS_def ATTR_USERMAC_def ATTR_ONLINE_def

record portal_dict =
  pd_attr :: nat
  pd_id :: nat
  pd_ty :: nat

definition g_dict :: "portal_dict list" where
  "g_dict = map (\<lambda>(a, i, t). \<lparr>pd_attr = a, pd_id = i, pd_ty = t\<rparr>)
    [(ATTR_PKGTYPE, 0x0b, TYPE_INT), (ATTR_AUTHTYPE, 0x02, TYPE_STRING), (ATTR_NASNAME, 0x03, TYPE_STRING),
     (ATTR_RESPONSE, 0x12, TYPE_STRING), (ATTR_USERNAME, 0x01, TYPE_STRING), (ATTR_PASSWORD, 0x02, TYPE_STRING),
     (ATTR_CHALLENGE, 0x03, TYPE_STRING), (ATTR_CHAPPASS, 0x04, TYPE_STRING), (ATTR_USERMAC, 0xc9, TYPE_STRING),
     (ATTR_ONLINE, 0x09, TYPE_STRING)]"

definition ptl_dict_load :: "nat \<Rightarrow> portal_dict option" where
  "ptl_dict_load attr = find (\<lambda>d. pd_attr d = attr) g_dict"

subsection \<open>Values\<close>

record portal_value_pair =
  vp_attr :: nat
  vp_id :: nat
  vp_ty :: nat
  lval :: "32 word"
  val :: "string option"

text \<open>The text at a pointer: what stands before the first zero byte, if there is one in the memory.\<close>

definition c_str :: "string \<Rightarrow> string option" where
  "c_str mem = (if char_of (0 :: nat) \<in> set mem then Some (takeWhile (\<lambda>c. c \<noteq> char_of (0 :: nat)) mem) else None)"

text \<open>The text of a value, which the code keeps with a zero byte behind it.\<close>

definition c_text :: "string \<Rightarrow> string" where
  "c_text = takeWhile (\<lambda>c. c \<noteq> char_of (0 :: nat))"

text \<open>A number of the memory, as the platform stores it.\<close>

definition get_le32 :: "string \<Rightarrow> 32 word option" where
  "get_le32 mem =
    (if 4 \<le> length mem then
       Some (word_of_nat (uchr (mem ! 0) + 2 ^ 8 * uchr (mem ! 1) + 2 ^ 16 * uchr (mem ! 2) + 2 ^ 24 * uchr (mem ! 3)))
     else None)"

text \<open>\<open>ntohl\<close> and \<open>htonl\<close> turn the four bytes round.\<close>

definition swap32 :: "32 word \<Rightarrow> 32 word" where
  "swap32 w =
    (let n = unat w
     in word_of_nat (n div 2 ^ 24 + n div 2 ^ 16 mod 256 * 2 ^ 8 + n div 2 ^ 8 mod 256 * 2 ^ 16 + n mod 256 * 2 ^ 24))"

text \<open>
  The text of \<open>ptl_vp_append\<close>: \<open>Some None\<close> when it is too long. \<open>mem\<close> is the memory from the pointer on.
\<close>

definition vp_text :: "string \<Rightarrow> int \<Rightarrow> string option option" where
  "vp_text mem n =
    do {
      l \<leftarrow> (if n < 0 then map_option length (c_str mem) else Some (nat n));
      if l > 253 then Some None
      else if l \<le> length mem then Some (Some (take l mem))
      else None
    }"

definition ptl_vp_append ::
  "bool \<Rightarrow> portal_value_pair list \<Rightarrow> nat \<Rightarrow> string option \<Rightarrow> int \<Rightarrow> (portal_value_pair option \<times> portal_value_pair list) option" where
  "ptl_vp_append alloc head attr mem n =
    (case ptl_dict_load attr of
       None \<Rightarrow> Some (None, head)
     | Some d \<Rightarrow>
         if \<not> alloc then Some (None, head)
         else
           (let vp = \<lparr>vp_attr = pd_attr d, vp_id = pd_id d, vp_ty = pd_ty d, lval = 0, val = None\<rparr>;
                add = (\<lambda>v. Some (Some v, head @ [v]))
            in if pd_ty d = TYPE_STRING then
                 (case mem of
                    None \<Rightarrow> add vp
                  | Some m \<Rightarrow>
                      do {
                        t \<leftarrow> vp_text m n;
                        case t of
                          None \<Rightarrow> Some (None, head)
                        | Some s \<Rightarrow> add (vp\<lparr>lval := word_of_nat (length s), val := Some s\<rparr>)
                      })
               else if pd_ty d = TYPE_INT then
                 do { m \<leftarrow> mem; w \<leftarrow> get_le32 m; add (vp\<lparr>lval := w\<rparr>) }
               else Some (None, head)))"

definition ptl_vp_find :: "portal_value_pair list \<Rightarrow> nat \<Rightarrow> portal_value_pair option" where
  "ptl_vp_find list attr = find (\<lambda>v. vp_attr v = attr) list"

subsection \<open>Packing\<close>

text \<open>
  The list is freed by every caller right after, so the numbers that are left in network order in it are
  not kept.
\<close>

fun pack_loop :: "portal_value_pair list \<Rightarrow> string \<Rightarrow> nat \<Rightarrow> int \<Rightarrow> (int \<times> string \<times> nat) option" where
  "pack_loop [] mem p lbuf = Some (EMS_OK, mem, p)"
| "pack_loop (v # vs) mem p lbuf =
    (if lbuf \<le> 0 then Some (EMS_BUFFER_INSUFFICIENT, mem, p)
     else if vp_ty v = TYPE_STRING then
       do {
         let n = unat (lval v + 2) mod 256;
         mem1 \<leftarrow> mem_put mem p [char_of (vp_id v), char_of n];
         if lbuf \<le> int n then Some (EMS_BUFFER_INSUFFICIENT, mem1, p)
         else do {
           mem2 \<leftarrow> (case val v of None \<Rightarrow> Some mem1 | Some s \<Rightarrow> mem_put mem1 (p + 2) (take (unat (lval v)) s));
           pack_loop vs mem2 (p + n) (lbuf - int n)
         }
       }
     else if vp_ty v = TYPE_INT then
       do {
         mem1 \<leftarrow> mem_put mem p [char_of (vp_id v), char_of (6 :: nat)];
         if lbuf \<le> 6 then Some (EMS_BUFFER_INSUFFICIENT, mem1, p)
         else do {
           mem2 \<leftarrow> mem_put mem1 (p + 2) (be32 (unat (lval v)));
           pack_loop vs mem2 (p + 6) (lbuf - 6)
         }
       }
     else Some (EMS_ERR, mem, p))"

definition ptl_pack_list :: "portal_value_pair list \<Rightarrow> char ems_buffer \<Rightarrow> (int \<times> char ems_buffer) option" where
  "ptl_pack_list list buff =
    do {
      (ret, mem, p) \<leftarrow> pack_loop list (bmem buff) (bwr buff) (buf_left buff);
      let b1 = buff\<lparr>bmem := mem\<rparr>;
      Some (if ret \<noteq> EMS_OK then (ret, b1) else (EMS_OK, snd (ems_buffer_seek_wr b1 \<bar>int (bwr buff) - int p\<bar> 2)))
    }"

subsection \<open>Parsing\<close>

text \<open>The type on the wire, where two of the types depend on the kind of the message; 0 when it is not known.\<close>

definition ptl_attribute :: "bool \<Rightarrow> nat \<Rightarrow> nat" where
  "ptl_attribute evt ty =
    (if ty = 0x01 then ATTR_USERNAME
     else if ty = 0x0b then ATTR_PKGTYPE
     else if ty = 0x02 then (if evt then ATTR_PASSWORD else ATTR_AUTHTYPE)
     else if ty = 0x03 then (if evt then ATTR_CHALLENGE else ATTR_NASNAME)
     else if ty = 0x04 then ATTR_CHAPPASS
     else if ty = 0xc9 then ATTR_USERMAC
     else if ty = 0x12 then ATTR_RESPONSE
     else if ty = 0x09 then ATTR_ONLINE
     else 0)"

text \<open>\<open>ntohl\<close> is applied to the number that was just appended.\<close>

definition ptl_vp_parsed ::
  "bool \<Rightarrow> portal_value_pair list \<Rightarrow> nat \<Rightarrow> string \<Rightarrow> int \<Rightarrow> portal_value_pair list option" where
  "ptl_vp_parsed alloc list attr mem n =
    do {
      (v, list') \<leftarrow> ptl_vp_append alloc list attr (Some mem) n;
      Some (case v of
              Some v \<Rightarrow> if vp_ty v = TYPE_INT then list @ [v\<lparr>lval := swap32 (lval v)\<rparr>] else list'
            | None \<Rightarrow> list')
    }"

text \<open>\<open>p0\<close> is the offset the parser started at, \<open>p\<close> the current one.\<close>

partial_function (option) parse_loop ::
  "bool \<Rightarrow> string \<Rightarrow> nat \<Rightarrow> nat \<Rightarrow> int \<Rightarrow> int \<Rightarrow> bool \<Rightarrow> portal_value_pair list \<Rightarrow> (int \<times> portal_value_pair list) option" where
  "parse_loop alloc mem p0 p lbuf n evt list =
    (if n \<noteq> 0 \<and> 0 < lbuf then
       (if p + 1 < length mem then
          (let ty = uchr (mem ! p); len = uchr (mem ! (p + 1))
           in if lbuf < int len then Some (EMS_CONTINUE, list)
              else if ptl_attribute evt ty = 0 then
                (if len \<le> 0 then Some (int (p - p0), list)
                 else parse_loop alloc mem p0 (p + len) (lbuf - int len) (n - 1) evt list)
              else Option.bind (ptl_vp_parsed alloc list (ptl_attribute evt ty) (drop (p + 2) mem) (int len - 2))
                     (parse_loop alloc mem p0 (p + len) (lbuf - int len) (n - 1) evt))
        else None)
     else Some (int (p - p0), list))"

definition ptl_parse_ctx ::
  "bool \<Rightarrow> portal_value_pair list \<Rightarrow> string \<Rightarrow> nat \<Rightarrow> int \<Rightarrow> int \<Rightarrow> bool \<Rightarrow> (int \<times> portal_value_pair list) option" where
  "ptl_parse_ctx alloc list mem p lbuf n evt = parse_loop alloc mem p p lbuf n evt list"

subsection \<open>The header\<close>

text \<open>
  The fields of the union, with the 16-bit numbers as the platform reads them from memory; the address is
  only copied, and kept as its bytes.
\<close>

record portal_auth_hdr =
  h_ver :: "8 word"
  h_ty :: "8 word"
  h_auth_ty :: "8 word"
  h_rsrv :: "8 word"
  h_serial :: "16 word"
  h_reqid :: "16 word"
  h_ip :: string
  h_port :: "16 word"
  h_err :: "8 word"
  h_n_attr :: "8 word"

definition byte :: "8 word \<Rightarrow> char" where "byte w = char_of (unat w)"

definition hdr_bytes :: "portal_auth_hdr \<Rightarrow> string" where
  "hdr_bytes a =
    [byte (h_ver a), byte (h_ty a), byte (h_auth_ty a), byte (h_rsrv a)] @ le16 (unat (h_serial a)) @ le16 (unat (h_reqid a))
    @ h_ip a @ le16 (unat (h_port a)) @ [byte (h_err a), byte (h_n_attr a)]"

definition get8 :: "string \<Rightarrow> nat \<Rightarrow> 8 word" where "get8 s i = word_of_nat (uchr (s ! i))"

definition get_le16 :: "string \<Rightarrow> nat \<Rightarrow> 16 word" where
  "get_le16 s i = word_of_nat (uchr (s ! i) + 2 ^ 8 * uchr (s ! (i + 1)))"

definition hdr_get :: "string \<Rightarrow> portal_auth_hdr" where
  "hdr_get s =
    \<lparr>h_ver = get8 s 0, h_ty = get8 s 1, h_auth_ty = get8 s 2, h_rsrv = get8 s 3, h_serial = get_le16 s 4,
     h_reqid = get_le16 s 6, h_ip = take 4 (drop 8 s), h_port = get_le16 s 12, h_err = get8 s 14, h_n_attr = get8 s 15\<rparr>"

text \<open>\<open>ntohs\<close> and \<open>htons\<close>.\<close>

definition htons :: "16 word \<Rightarrow> 16 word" where
  "htons w = word_of_nat (unat w mod 256 * 256 + unat w div 256)"

text \<open>The address of the user as text.\<close>

definition hdr_ip :: "portal_auth_hdr \<Rightarrow> string" where
  "hdr_ip a = inet_ntoa (word_of_nat (get32 (h_ip a)))"

subsection \<open>Facts about numbers and the header\<close>

lemma unat_word_of_nat: "n < 2 ^ LENGTH('a) \<Longrightarrow> unat (word_of_nat n :: 'a :: len word) = n"
  by (simp add: unsigned_of_nat take_bit_nat_eq_self)

lemma htons_htons [simp]: "htons (htons w) = w"
proof -
  let ?n = "unat w"
  have n: "?n < 65536" using unsigned_less [of w] by simp
  have "?n mod 256 * 256 + ?n div 256 < 65536"
  proof -
    have "?n mod 256 \<le> 255" "?n div 256 \<le> 255" using n by simp_all
    then show ?thesis by simp
  qed
  then have "unat (htons w) = ?n mod 256 * 256 + ?n div 256" unfolding htons_def by (intro unat_word_of_nat) simp
  moreover have "(?n mod 256 * 256 + ?n div 256) mod 256 = ?n div 256" "(?n mod 256 * 256 + ?n div 256) div 256 = ?n mod 256"
    using n by simp_all
  ultimately show ?thesis unfolding htons_def [of "htons w"] by simp
qed

lemma base256:
  assumes "a < 256" and "b < 256" and "c < 256" and "d < (256 :: nat)"
  defines "k \<equiv> a + 256 * b + 65536 * c + 16777216 * d"
  shows "k div 16777216 = d" and "k div 65536 mod 256 = c" and "k div 256 mod 256 = b" and "k mod 256 = a" and "k < 4294967296"
proof -
  have k: "k = a + 256 * (b + 256 * (c + 256 * d))" by (simp add: k_def)
  have d1: "k div 256 = b + 256 * (c + 256 * d)" using assms(1) by (simp add: k)
  then have d2: "k div 256 div 256 = c + 256 * d" using assms(2) by simp
  then have d3: "k div 256 div 256 div 256 = d" using assms(3) by simp
  show "k div 16777216 = d" using d3 by (simp add: div_mult2_eq [symmetric])
  show "k div 65536 mod 256 = c" using d2 assms(3) by (simp add: div_mult2_eq [symmetric])
  show "k div 256 mod 256 = b" unfolding d1 using assms(2) by (simp only: mod_mult_self2 mod_less)
  show "k mod 256 = a" unfolding k using assms(1) by (simp only: mod_mult_self2 mod_less)
  show "k < 4294967296" using assms(1-4) by (simp add: k_def)
qed

lemma swap_be32:
  assumes "n < 2 ^ 32"
  shows "map_option swap32 (get_le32 (be32 n @ rest)) = Some (word_of_nat n)"
proof -
  define a b c d where abcd: "a = n div 16777216" "b = n div 65536 mod 256" "c = n div 256 mod 256" "d = n mod 256"
  let ?k = "a + 256 * b + 65536 * c + 16777216 * d"
  have lt: "a < 256" "b < 256" "c < 256" "d < 256" using assms by (simp_all add: abcd less_mult_imp_div_less)
  have u: "uchr (char_of k) = k mod 256" for k :: nat by (simp add: uchr_def)
  have "get_le32 (be32 n @ rest) = Some (word_of_nat ?k)" using lt(1) by (simp add: get_le32_def be32_def u abcd)
  moreover have k: "unat (word_of_nat ?k :: 32 word) = ?k" using base256(5) [OF lt] by (intro unat_word_of_nat) simp
  moreover have "swap32 (word_of_nat ?k) = word_of_nat (d + 256 * c + 65536 * b + 16777216 * a)"
    unfolding swap32_def Let_def k by (simp add: base256 [OF lt])
  moreover have "d + 256 * c + 65536 * b + 16777216 * a = get32 (be32 n @ rest)"
    using lt(1) by (simp add: get32_def be32_def u abcd)
  ultimately show ?thesis using get32_be32 [OF assms] by simp
qed

lemma length_le16 [simp]: "length (le16 n) = 2"
  by (simp add: le16_def)

lemma length_hdr_bytes [simp]: "length (h_ip a) = 4 \<Longrightarrow> length (hdr_bytes a) = 16"
  by (simp add: hdr_bytes_def)

lemma le16_word [simp]: "word_of_nat (uchr (char_of (unat w))) + 256 * word_of_nat (uchr (char_of (unat w div 256))) = (w :: 16 word)"
proof -
  have "unat w < 65536" using unsigned_less [of w] by simp
  then have "uchr (char_of (unat w)) + 256 * uchr (char_of (unat w div 256)) = unat w" by (simp add: uchr_def)
  then have "word_of_nat (uchr (char_of (unat w)) + 256 * uchr (char_of (unat w div 256))) = w" by (simp only: of_nat_unat ucast_id)
  then show ?thesis by simp
qed

lemma byte_word [simp]: "word_of_nat (uchr (byte w)) = w"
proof -
  have "unat w < 256" using unsigned_less [of w] by simp
  then show ?thesis by (simp add: byte_def)
qed

lemma hdr_get_bytes:
  assumes "length (h_ip a) = 4"
  shows "hdr_get (hdr_bytes a @ rest) = a"
proof -
  obtain i j k l where "h_ip a = [i, j, k, l]" using assms by (auto simp: numeral_eq_Suc length_Suc_conv)
  then show ?thesis by (simp add: hdr_get_def hdr_bytes_def le16_def get8_def get_le16_def)
qed

subsection \<open>Packing writes, and parsing reads, the attributes\<close>

definition vp_wire :: "portal_value_pair \<Rightarrow> string" where
  "vp_wire v =
    (case val v of
       Some s \<Rightarrow> char_of (vp_id v) # char_of (length s + 2) # s
     | None \<Rightarrow> char_of (vp_id v) # char_of (6 :: nat) # be32 (unat (lval v)))"

abbreviation vps_wire :: "portal_value_pair list \<Rightarrow> string" where
  "vps_wire vs \<equiv> concat (map vp_wire vs)"

text \<open>A value as the dictionary says, of a kind that is told apart in messages of the given kind.\<close>

definition vp_wf :: "bool \<Rightarrow> portal_value_pair \<Rightarrow> bool" where
  "vp_wf evt v \<longleftrightarrow>
    ptl_dict_load (vp_attr v) = Some \<lparr>pd_attr = vp_attr v, pd_id = vp_id v, pd_ty = vp_ty v\<rparr> \<and>
    ptl_attribute evt (vp_id v) = vp_attr v \<and>
    (case val v of None \<Rightarrow> vp_ty v = TYPE_INT
     | Some s \<Rightarrow> vp_ty v = TYPE_STRING \<and> length s \<le> 253 \<and> lval v = word_of_nat (length s))"

lemma dict_id: "ptl_dict_load a = Some d \<Longrightarrow> pd_attr d = a \<and> a \<noteq> 0 \<and> pd_id d < 256 \<and> (pd_ty d = TYPE_INT \<or> pd_ty d = TYPE_STRING)"
  by (auto simp: ptl_dict_load_def g_dict_def attr_defs split: if_splits)

lemma wf_id: "vp_wf evt v \<Longrightarrow> vp_attr v \<noteq> 0 \<and> vp_id v < 256"
  using dict_id [of "vp_attr v"] by (force simp: vp_wf_def)

text \<open>Writing twice in a row is writing once.\<close>

lemma mem_write_write:
  "off + length s + length t \<le> length mem \<Longrightarrow> mem_write (mem_write mem off s) (off + length s) t = mem_write mem off (s @ t)"
  by (simp add: mem_write_def add.commute add.left_commute)

lemma put_put:
  assumes "mem_put mem p s = Some mem1" and "p + length s + length t \<le> length mem" and "q = p + length s"
  shows "mem_put mem1 q t = Some (mem_write mem p (s @ t))"
  using assms by (auto simp: mem_put_def mem_write_write split: if_splits)

lemma pack_one:
  assumes wf: "vp_wf evt v" and fits: "int (length (vp_wire v)) < lbuf" and lbuf: "int p + lbuf \<le> int (length mem)"
  shows "pack_loop (v # vs) mem p lbuf =
    pack_loop vs (mem_write mem p (vp_wire v)) (p + length (vp_wire v)) (lbuf - int (length (vp_wire v)))"
proof (cases "val v")
  case (Some s)
  then have s: "vp_ty v = TYPE_STRING" "length s \<le> 253" "lval v = word_of_nat (length s)" using wf by (auto simp: vp_wf_def)
  have l: "unat (lval v) = length s" using s(2,3) by (simp add: unat_word_of_nat)
  have "lval v + 2 = word_of_nat (length s + 2)" by (simp add: s(3))
  moreover have "unat (word_of_nat (length s + 2) :: 32 word) = length s + 2" using s(2) by (intro unat_word_of_nat) simp
  ultimately have "unat (lval v + 2) = length s + 2" by (simp only:)
  then have n: "unat (lval v + 2) mod 256 = length s + 2" using s(2) by simp
  have w: "vp_wire v = [char_of (vp_id v), char_of (length s + 2)] @ s" using Some by (simp add: vp_wire_def)
  obtain mem1 where m1: "mem_put mem p [char_of (vp_id v), char_of (length s + 2)] = Some mem1"
    using fits lbuf by (auto simp: w mem_put_def)
  have "mem_put mem1 (p + 2) s = Some (mem_write mem p (vp_wire v))"
    unfolding w using fits lbuf by (intro put_put [OF m1]) (simp_all add: w)
  then show ?thesis using fits s(1) Some l n m1 by (simp add: w Let_def)
next
  case None
  then have ty: "vp_ty v = TYPE_INT" using wf by (simp add: vp_wf_def)
  have w: "vp_wire v = [char_of (vp_id v), char_of (6 :: nat)] @ be32 (unat (lval v))" using None by (simp add: vp_wire_def)
  obtain mem1 where m1: "mem_put mem p [char_of (vp_id v), char_of (6 :: nat)] = Some mem1"
    using fits lbuf by (auto simp: w mem_put_def)
  have "mem_put mem1 (p + 2) (be32 (unat (lval v))) = Some (mem_write mem p (vp_wire v))"
    unfolding w using fits lbuf by (intro put_put [OF m1]) (simp_all add: w)
  then show ?thesis using fits ty m1 by (simp add: w TYPE_INT_def TYPE_STRING_def)
qed

lemma pack_all:
  "\<forall>v \<in> set vs. vp_wf evt v \<Longrightarrow> int (length (vps_wire vs)) < lbuf \<Longrightarrow> int p + lbuf \<le> int (length mem) \<Longrightarrow>
    pack_loop vs mem p lbuf = Some (EMS_OK, mem_write mem p (vps_wire vs), p + length (vps_wire vs))"
proof (induction vs arbitrary: mem p lbuf)
  case (Cons v vs)
  let ?w = "vp_wire v"
  have "pack_loop (v # vs) mem p lbuf = pack_loop vs (mem_write mem p ?w) (p + length ?w) (lbuf - int (length ?w))"
    using Cons.prems by (intro pack_one [where evt = evt]) simp_all
  also have "\<dots> = Some (EMS_OK, mem_write (mem_write mem p ?w) (p + length ?w) (vps_wire vs), p + length ?w + length (vps_wire vs))"
    using Cons.prems by (intro Cons.IH) simp_all
  also have "mem_write (mem_write mem p ?w) (p + length ?w) (vps_wire vs) = mem_write mem p (vps_wire (v # vs))"
    using Cons.prems by (simp add: mem_write_write)
  finally show ?case by simp
qed simp

lemma pack_list_ok:
  assumes "buf_ok b" and "\<forall>v \<in> set vs. vp_wf evt v" and "length (vps_wire vs) < room b"
  defines "b' \<equiv> b\<lparr>bmem := mem_write (bmem b) (bwr b) (vps_wire vs), bwr := bwr b + length (vps_wire vs)\<rparr>"
  shows "ptl_pack_list vs b = Some (EMS_OK, b')" and "buf_ok b'" and "contents b' = contents b @ vps_wire vs"
proof -
  have le: "length (vps_wire vs) \<le> room b" using assms(3) by simp
  have "buf_left b = int (room b)" using assms(1) by (simp add: buffer_simps)
  moreover have "int (bwr b) + int (room b) \<le> int (length (bmem b))" using assms(1) by (simp add: buf_ok_def room_def)
  ultimately show "ptl_pack_list vs b = Some (EMS_OK, b')"
    using pack_all [of vs evt "buf_left b" "bwr b" "bmem b"] assms(2,3) commit_write(1) [OF assms(1) le]
    by (simp add: ptl_pack_list_def b'_def)
  show "buf_ok b'" "contents b' = contents b @ vps_wire vs" using append_ok [OF assms(1) le] by (simp_all add: b'_def)
qed

lemma parse_one:
  assumes wf: "vp_wf evt v" and n: "n \<noteq> 0" and l: "int (length (vp_wire v)) \<le> lbuf"
  shows "parse_loop True (pre @ vp_wire v @ post) p0 (length pre) lbuf n evt list =
    parse_loop True (pre @ vp_wire v @ post) p0 (length (pre @ vp_wire v)) (lbuf - int (length (vp_wire v))) (n - 1) evt (list @ [v])"
proof (cases "val v")
  case (Some s)
  then have s: "vp_ty v = TYPE_STRING" "length s \<le> 253" "lval v = word_of_nat (length s)" using wf by (auto simp: vp_wf_def)
  have w: "vp_wire v = char_of (vp_id v) # char_of (length s + 2) # s" using Some by (simp add: vp_wire_def)
  have u: "uchr (char_of (Suc (Suc (length s)))) = length s + 2" "uchr (char_of (vp_id v)) = vp_id v" using s(2) wf_id [OF wf] by simp_all
  have "ptl_vp_parsed True list (vp_attr v) (s @ post) (int (length s)) = Some (list @ [v])"
    using wf s Some by (simp add: ptl_vp_parsed_def ptl_vp_append_def vp_wf_def vp_text_def TYPE_INT_def TYPE_STRING_def)
  then show ?thesis using n l u wf_id [OF wf] wf
    by (subst parse_loop.simps) (simp add: w nth_append Let_def vp_wf_def add.commute)
next
  case None
  then have ty: "vp_ty v = TYPE_INT" using wf by (simp add: vp_wf_def)
  let ?n = "unat (lval v)"
  have w: "vp_wire v = char_of (vp_id v) # char_of (6 :: nat) # be32 ?n" using None by (simp add: vp_wire_def)
  have u: "uchr (char_of (6 :: nat)) = 6" "uchr (char_of (vp_id v)) = vp_id v" using wf_id [OF wf] by simp_all
  have "?n < 2 ^ 32" using unsigned_less [of "lval v"] by simp
  then obtain g where g: "get_le32 (be32 ?n @ post) = Some g" "swap32 g = lval v" using swap_be32 [of ?n post] by auto
  have "ptl_vp_parsed True list (vp_attr v) (be32 ?n @ post) 4 = Some (list @ [v])"
    using wf ty None g by (simp add: ptl_vp_parsed_def ptl_vp_append_def vp_wf_def TYPE_INT_def TYPE_STRING_def)
  then show ?thesis using n l u wf_id [OF wf] wf
    by (subst parse_loop.simps) (simp add: w nth_append Let_def vp_wf_def)
qed

lemma parse_all:
  "\<forall>v \<in> set vs. vp_wf evt v \<Longrightarrow> n < 0 \<or> int (length vs) \<le> n \<Longrightarrow> int (length (vps_wire vs)) \<le> lbuf \<Longrightarrow>
    parse_loop True (pre @ vps_wire vs @ post) p0 (length pre) lbuf n evt list =
    parse_loop True (pre @ vps_wire vs @ post) p0 (length (pre @ vps_wire vs)) (lbuf - int (length (vps_wire vs)))
      (n - int (length vs)) evt (list @ vs)"
proof (induction vs arbitrary: pre lbuf n list)
  case (Cons v vs)
  have "parse_loop True (pre @ vps_wire (v # vs) @ post) p0 (length pre) lbuf n evt list =
      parse_loop True (pre @ vp_wire v @ (vps_wire vs @ post)) p0 (length (pre @ vp_wire v)) (lbuf - int (length (vp_wire v)))
        (n - 1) evt (list @ [v])"
    using Cons.prems parse_one [of evt v n lbuf pre "vps_wire vs @ post" p0 list] by auto
  also have "\<dots> = parse_loop True ((pre @ vp_wire v) @ vps_wire vs @ post) p0 (length ((pre @ vp_wire v) @ vps_wire vs))
      (lbuf - int (length (vp_wire v)) - int (length (vps_wire vs))) (n - 1 - int (length vs)) evt ((list @ [v]) @ vs)"
    using Cons.prems Cons.IH [of "n - 1" "lbuf - int (length (vp_wire v))" "pre @ vp_wire v" "list @ [v]"] by auto
  finally show ?case by (simp add: algebra_simps)
qed simp

lemma parse_stops: "n = 0 \<or> lbuf \<le> 0 \<Longrightarrow> parse_loop alloc mem p0 p lbuf n evt list = Some (int (p - p0), list)"
  by (subst parse_loop.simps) auto

text \<open>In a message with a header the attributes are counted; in the others they fill the message.\<close>

lemma parse_ctx_ok:
  assumes "\<forall>v \<in> set vs. vp_wf evt v" and "n = int (length vs) \<and> int (length (vps_wire vs)) \<le> lbuf \<or> n < 0 \<and> int (length (vps_wire vs)) = lbuf"
  shows "ptl_parse_ctx True list (pre @ vps_wire vs @ post) (length pre) lbuf n evt = Some (int (length (vps_wire vs)), list @ vs)"
  using assms parse_all [of vs evt n lbuf pre post "length pre" list] parse_stops [of "n - int (length vs)"]
  by (auto simp: ptl_parse_ctx_def)

subsection \<open>The properties of the format\<close>


definition wire_vps :: "portal_value_pair list" where
  "wire_vps = [\<lparr>vp_attr = ATTR_PKGTYPE, vp_id = 0x0b, vp_ty = TYPE_INT, lval = 2, val = None\<rparr>,
    \<lparr>vp_attr = ATTR_AUTHTYPE, vp_id = 0x02, vp_ty = TYPE_STRING, lval = 3, val = Some ''PAP''\<rparr>]"


text \<open>
  A message without a header that has an attribute of a known type whose length is zero is parsed for
  ever: the parser does not move on, and appends a value each time.
\<close>

theorem portal_zero_length_hangs:
  assumes "p + 1 < length mem" and "ptl_attribute evt (uchr (mem ! p)) \<noteq> 0" and "uchr (mem ! (p + 1)) = 0" and "0 < lbuf" and "n < 0"
  shows "ptl_parse_ctx alloc list mem p lbuf n evt = None"
proof (cases "ptl_parse_ctx alloc list mem p lbuf n evt")
  case (Some y)
  have "\<not> (n < 0 \<and> m = mem \<and> q = p \<and> l = lbuf \<and> ev = evt)" if "parse_loop al m p0 q l n ev li = Some y" for al m p0 q l n ev li y
  proof (rule parse_loop.raw_induct [where P = "\<lambda>al m p0 q l n ev li y. \<not> (n < 0 \<and> m = mem \<and> q = p \<and> l = lbuf \<and> ev = evt)", OF _ that])
    fix f :: "bool \<Rightarrow> string \<Rightarrow> nat \<Rightarrow> nat \<Rightarrow> int \<Rightarrow> int \<Rightarrow> bool \<Rightarrow> portal_value_pair list \<Rightarrow> (int \<times> portal_value_pair list) option"
      and al m p0 q l n ev li y
    assume IH: "\<And>al m p0 q l n ev li y. f al m p0 q l n ev li = Some y \<Longrightarrow> \<not> (n < 0 \<and> m = mem \<and> q = p \<and> l = lbuf \<and> ev = evt)"
      and b: "(if n \<noteq> 0 \<and> 0 < l then
       (if q + 1 < length m then
          (let ty = uchr (m ! q); len = uchr (m ! (q + 1))
           in if l < int len then Some (EMS_CONTINUE, li)
              else if ptl_attribute ev ty = 0 then
                (if len \<le> 0 then Some (int (q - p0), li)
                 else f al m p0 (q + len) (l - int len) (n - 1) ev li)
              else Option.bind (ptl_vp_parsed al li (ptl_attribute ev ty) (drop (q + 2) m) (int len - 2))
                     (f al m p0 (q + len) (l - int len) (n - 1) ev))
        else None)
     else Some (int (q - p0), li)) = Some y"
    show "\<not> (n < 0 \<and> m = mem \<and> q = p \<and> l = lbuf \<and> ev = evt)"
    proof
      assume h: "n < 0 \<and> m = mem \<and> q = p \<and> l = lbuf \<and> ev = evt"
      then obtain li' where "f al mem p0 p lbuf (n - 1) evt li' = Some y"
        using b assms(1-4) by (auto simp: Let_def bind_eq_Some_conv)
      then show False using IH h by fastforce
    qed
  qed
  from this [of alloc mem p p lbuf n evt list y] show ?thesis using Some assms(5) by (simp add: ptl_parse_ctx_def)
qed simp

theorem portal_zero_length_hangs_witness:
  "ptl_parse_ctx True [] [char_of (0x12 :: nat), char_of (0 :: nat)] 0 2 (-1) False = None"
  by (rule portal_zero_length_hangs) (simp_all add: ptl_attribute_def attr_defs)

end
