(* ===== verification/Ems_Portal.thy ===== *)
theory Ems_Portal
  imports Ems_Portal_Wire Ems_Radius_App
begin

text \<open>
  The portal client of a wireless interface: the state machine of \<^verbatim>\<open>c/ems/src/core/ems_portal.c\<close>. It
  registers the access point with the portal server, keeps the registration alive, and passes the
  requests of the server about users on to the RADIUS client; answers to the server are sent again until
  the server confirms them or three attempts have been made.

  Users are addresses as the devices of \<open>Ems_Radius\<close> are: \<open>pt_user\<close> gives the fields of a user and
  \<open>pt_live\<close> the addresses in use. The result \<open>None\<close> of an operation stands for the use of a null pointer,
  of a user that was released, of memory outside an array, of a division by zero, or for a loop that does
  not end. What is sent to other modules and on the socket is appended to \<open>pt_out\<close>.

  The name service, the socket, the clock, the random numbers, the ARP table and the state of the
  firewall module are arguments. The array that holds the address of the user in \<open>ptl_evt_req_auth\<close> is
  static and keeps its text between requests: the field \<open>pt_mac\<close>.
\<close>

subsection \<open>State and environment\<close>

definition PORTAL_RETRY_TIMES :: int where "PORTAL_RETRY_TIMES = 3"
definition PORTAL_RETRY_TIMEOUT :: int where "PORTAL_RETRY_TIMEOUT = 9"
definition PORTAL_ERROR_TIMEOUT :: int where "PORTAL_ERROR_TIMEOUT = 30000"
definition ERR_PORTAL_NETWORK :: int where "ERR_PORTAL_NETWORK = 0x3000"
definition ERR_PORTAL_RESPONSE :: int where "ERR_PORTAL_RESPONSE = 0x3001"
definition ERR_PORTAL_STOPPED :: int where "ERR_PORTAL_STOPPED = 0x3002"
definition EMS_FLG_ONLINE :: flags where "EMS_FLG_ONLINE = 2 ^ 31"

text \<open>The types of messages.\<close>

definition ty_req_challenge :: "8 word" where "ty_req_challenge = 0x01"
definition ty_ack_challenge :: "8 word" where "ty_ack_challenge = 0x02"
definition ty_req_auth :: "8 word" where "ty_req_auth = 0x03"
definition ty_ack_auth :: "8 word" where "ty_ack_auth = 0x04"
definition ty_req_logout :: "8 word" where "ty_req_logout = 0x05"
definition ty_ack_logout :: "8 word" where "ty_ack_logout = 0x06"
definition ty_aff_ack_auth :: "8 word" where "ty_aff_ack_auth = 0x07"
definition ty_ntf_logout :: "8 word" where "ty_ntf_logout = 0x08"
definition ty_req_info :: "8 word" where "ty_req_info = 0x09"
definition ty_ack_info :: "8 word" where "ty_ack_info = 0x0a"

datatype user_st = u_normal | u_req_challenge | u_ack_challenge | u_req_auth | u_ack_auth | u_req_logout | u_ack_logout
  | u_aff_ack_auth | u_ntf_logout

text \<open>A text that was never set is a null pointer.\<close>

record portal_user =
  pu_name :: string
  pu_pass :: string
  pu_mac :: "string option"
  pu_ip :: string
  pu_serial :: "16 word"
  pu_reqid :: "16 word"
  pu_auth_ty :: "8 word"
  pu_flg :: flags
  pu_st :: user_st
  pu_to :: "timeval option"
  pu_buf_out :: "char ems_buffer"
  pu_retry_times :: int
  pu_retry_timeout :: int

datatype ptl_evt =
    PtlSend nat nat nat "json option"
  | PtlProcess nat nat nat json
  | PtlSent string

record ems_portal =
  pt_users :: "addr list"
  pt_sess :: "ems_session option"
  pt_addr :: string
  pt_port :: int
  reg_period :: int
  hb_period :: int
  pt_reg :: int
  pt_retry_times :: int
  pt_retry_timeout :: int
  pt_st :: ems_status
  pt_lasterr :: int
  pt_user :: "addr \<Rightarrow> portal_user"
  pt_live :: "addr list"
  pt_mac :: string
  pt_ready :: bool
  pt_out :: "ptl_evt list"

text \<open>The first five fields are the configuration of the interface.\<close>

record ptl_env =
  pe_enable :: bool
  pe_addr :: string
  pe_port :: int
  pe_register :: int
  pe_heartbeat :: int
  pe_now :: timeval
  pe_new :: "addr list \<Rightarrow> addr option"
  pe_alloc :: bool
  pe_garbage :: "nat \<Rightarrow> char"
  pe_gethost :: "string \<Rightarrow> 32 word option"
  pe_socket :: int
  pe_connect :: "32 word \<Rightarrow> int \<Rightarrow> bool"
  pe_random :: "16 word"
  pe_vector :: string
  pe_sn :: string
  pe_usermac :: "string \<Rightarrow> string"
  pe_fw_run :: bool

definition PTL_EVT_CB :: nat where "PTL_EVT_CB = 3"
definition PTL_TIMEOUT_CB :: nat where "PTL_TIMEOUT_CB = 4"

subsection \<open>Users\<close>

definition pu_get :: "addr \<Rightarrow> ems_portal \<Rightarrow> portal_user option" where
  "pu_get u p = (if u \<in> set (pt_live p) then Some (pt_user p u) else None)"

definition pu_upd :: "addr \<Rightarrow> (portal_user \<Rightarrow> portal_user) \<Rightarrow> ems_portal \<Rightarrow> ems_portal option" where
  "pu_upd u f p = map_option (\<lambda>x. p\<lparr>pt_user := (pt_user p)(u := f x)\<rparr>) (pu_get u p)"

definition ptl_user_new :: "ptl_env \<Rightarrow> portal_user" where
  "ptl_user_new e =
    \<lparr>pu_name = [], pu_pass = [], pu_mac = None, pu_ip = [], pu_serial = 0, pu_reqid = 0, pu_auth_ty = 0, pu_flg = 0,
     pu_st = u_normal, pu_to = None, pu_buf_out = snd (ems_buffer_init (pe_alloc e) (pe_garbage e) EMS_BUFFER_1K),
     pu_retry_times = 0, pu_retry_timeout = 0\<rparr>"

text \<open>A new user with a name and an address, at the end of the list.\<close>

definition ptl_user_add :: "ptl_env \<Rightarrow> string \<Rightarrow> string \<Rightarrow> ems_portal \<Rightarrow> (addr \<times> ems_portal) option" where
  "ptl_user_add e name ip p =
    map_option (\<lambda>u. (u, p\<lparr>pt_user := (pt_user p)(u := (ptl_user_new e)\<lparr>pu_name := name, pu_ip := ip\<rparr>),
      pt_live := u # pt_live p, pt_users := pt_users p @ [u]\<rparr>)) (pe_new e (pt_live p))"

text \<open>\<open>ems_queue_remove\<close> and \<open>ptl_user_destroy\<close>. The timer of the user is not cancelled.\<close>

definition ptl_user_destroy :: "addr \<Rightarrow> ems_portal \<Rightarrow> ems_portal" where
  "ptl_user_destroy u p = p\<lparr>pt_users := remove1 u (pt_users p), pt_live := remove1 u (pt_live p)\<rparr>"

definition ptl_user_find :: "ems_portal \<Rightarrow> string \<Rightarrow> addr option" where
  "ptl_user_find p ip = find (\<lambda>u. pu_ip (pt_user p u) = ip) (pt_users p)"

definition ptl_emit :: "ptl_evt \<Rightarrow> ems_portal \<Rightarrow> ems_portal" where
  "ptl_emit m p = p\<lparr>pt_out := pt_out p @ [m]\<rparr>"

subsection \<open>The address of the user's device\<close>

text \<open>
  Pairs of digits, each followed by a colon; the last character is overwritten by the zero byte. All of it
  goes into an array of 32 characters, and for an empty text the zero byte is stored before it.
\<close>

fun mac_pairs :: "string \<Rightarrow> string" where
  "mac_pairs (a # b # s) = a # b # CHR '':'' # mac_pairs s"
| "mac_pairs s = s"

definition ptl_mac_to_radius :: "string option \<Rightarrow> string option" where
  "ptl_mac_to_radius mac =
    do {
      m \<leftarrow> mac;
      let w = mac_pairs m;
      if w = [] \<or> 32 < length w then None else Some (butlast w)
    }"

text \<open>Also into 32 characters, which must leave one for the zero byte.\<close>

definition radius_mac_to_ptl :: "string \<Rightarrow> string option" where
  "radius_mac_to_ptl mac =
    (let m = filter (\<lambda>c. c \<noteq> CHR '':'') mac in if length m < 32 then Some m else None)"

definition logout_obj :: "portal_user \<Rightarrow> json option" where
  "logout_obj x =
    map_option (\<lambda>m. JObj [(''username'', JStr (pu_name x)), (''userip'', JStr (pu_ip x)), (''usermac'', JStr m)])
      (ptl_mac_to_radius (pu_mac x))"

definition auth_obj :: "portal_user \<Rightarrow> json option" where
  "auth_obj x =
    map_option (\<lambda>m. JObj [(''username'', JStr (pu_name x)), (''userpass'', JStr (pu_pass x)), (''userip'', JStr (pu_ip x)),
      (''usermac'', JStr m)]) (ptl_mac_to_radius (pu_mac x))"

text \<open>The RADIUS client is asked to log a user out.\<close>

definition ptl_logout :: "addr \<Rightarrow> ems_portal \<Rightarrow> ems_portal option" where
  "ptl_logout u p =
    do {
      x \<leftarrow> pu_get u p;
      obj \<leftarrow> logout_obj x;
      Some (ptl_emit (PtlSend ty_portal ty_radius EMS_APP_CMD_RADIUS_LOGOUT (Some obj)) p)
    }"

subsection \<open>Answers to the server\<close>

text \<open>The user keeps the bytes of the answer, and a timer for sending them again.\<close>

definition ptl_user_sent :: "ptl_env \<Rightarrow> string \<Rightarrow> portal_user \<Rightarrow> portal_user" where
  "ptl_user_sent e bytes x =
    x\<lparr>pu_buf_out := snd (ems_buffer_write (ems_buffer_clear (pu_buf_out x)) bytes (int (length bytes))),
      pu_retry_times := PORTAL_RETRY_TIMES, pu_retry_timeout := PORTAL_RETRY_TIMEOUT,
      pu_to := Some (timeout_deadline (pe_now e) (PORTAL_RETRY_TIMEOUT * 1000))\<rparr>"

definition ptl_evt_ack ::
  "ptl_env \<Rightarrow> addr option \<Rightarrow> portal_auth_hdr \<Rightarrow> portal_value_pair list option \<Rightarrow> ems_portal \<Rightarrow> (int \<times> ems_portal) option" where
  "ptl_evt_ack e user auth attr p =
    (case pt_sess p of
       None \<Rightarrow>
         (case user of
            None \<Rightarrow> Some (EMS_OK, p)
          | Some u \<Rightarrow> do { _ \<leftarrow> pu_get u p; Some (EMS_OK, ptl_user_destroy u p) })
     | Some t \<Rightarrow>
         do {
           let auth1 = auth\<lparr>h_n_attr := (case attr of None \<Rightarrow> 0 | Some vs \<Rightarrow> word_of_nat (length vs))\<rparr>;
           let wr = bwr (buf_out t);
           let b1 = snd (ems_buffer_write (buf_out t) (hdr_bytes auth1) 16);
           b2 \<leftarrow> (case attr of None \<Rightarrow> Some b1 | Some vs \<Rightarrow> map_option snd (ptl_pack_list vs b1));
           p1 \<leftarrow> (case user of
                    None \<Rightarrow> Some p
                  | Some u \<Rightarrow> pu_upd u (ptl_user_sent e (take (bwr b2 - wr) (drop wr (bmem b2)))) p);
           Some (EMS_OK, p1\<lparr>pt_sess := Some (sess_event_set (t\<lparr>buf_out := b2\<rparr>) EMS_EVT_WRITE PTL_EVT_CB)\<rparr>)
         })"

text \<open>The identification of a request in the order of the network again, with a type and a status.\<close>

definition hdr_reply :: "portal_auth_hdr \<Rightarrow> 8 word \<Rightarrow> 8 word \<Rightarrow> portal_auth_hdr" where
  "hdr_reply auth ty err =
    auth\<lparr>h_serial := htons (h_serial auth), h_reqid := htons (h_reqid auth), h_ty := ty, h_err := err\<rparr>"

subsection \<open>Requests of the server\<close>

definition vp_value :: "portal_value_pair list \<Rightarrow> nat \<Rightarrow> string option" where
  "vp_value attr a = do { v \<leftarrow> ptl_vp_find attr a; val v }"

text \<open>The failure \<open>err_out_1\<close> is not recorded at the user, the failure \<open>err_out\<close> is.\<close>

definition req_auth_refuse :: "ptl_env \<Rightarrow> 8 word \<Rightarrow> portal_auth_hdr \<Rightarrow> ems_portal \<Rightarrow> (int \<times> ems_portal) option" where
  "req_auth_refuse e err auth p = ptl_evt_ack e None (hdr_reply auth ty_ack_auth err) None p"

definition req_auth_fail :: "ptl_env \<Rightarrow> addr option \<Rightarrow> portal_auth_hdr \<Rightarrow> ems_portal \<Rightarrow> (int \<times> ems_portal) option" where
  "req_auth_fail e user auth p =
    do {
      p1 \<leftarrow> (case user of None \<Rightarrow> Some p | Some u \<Rightarrow> pu_upd u (\<lambda>x. x\<lparr>pu_st := u_ack_auth\<rparr>) p);
      ptl_evt_ack e user (hdr_reply auth ty_ack_auth 1) None p1
    }"

text \<open>Why a request for a known user is refused, if it is.\<close>

definition req_auth_check :: "portal_auth_hdr \<Rightarrow> portal_user \<Rightarrow> 8 word option" where
  "req_auth_check auth x =
    (if ems_flag_like (pu_flg x) EMS_FLG_ONLINE then Some 2
     else if pu_st x = u_req_auth then Some 3
     else if pu_st x = u_ack_challenge \<and> pu_reqid x \<noteq> h_reqid auth then Some 4
     else None)"

definition auth_pass :: "portal_auth_hdr \<Rightarrow> portal_value_pair list \<Rightarrow> string option" where
  "auth_pass auth attr =
    (if h_auth_ty auth = 0 then map_option c_text (vp_value attr ATTR_CHAPPASS)
     else if h_auth_ty auth = 1 then map_option c_text (vp_value attr ATTR_PASSWORD)
     else None)"

text \<open>
  The address of the device from the attribute, or from the ARP table where an empty one is a failure. An
  attribute without a byte leaves the array as it was.
\<close>

definition auth_mac :: "ptl_env \<Rightarrow> string \<Rightarrow> portal_value_pair list \<Rightarrow> string \<Rightarrow> (bool \<times> string) option" where
  "auth_mac e ip attr old =
    (case vp_value attr ATTR_USERMAC of
       Some s \<Rightarrow> Some (True, if s = [] then old else snd (ems_bin2str s (int (length s)) 32))
     | None \<Rightarrow> do { m \<leftarrow> radius_mac_to_ptl (pe_usermac e ip); Some (m \<noteq> [], m) })"

definition req_auth_login ::
  "ptl_env \<Rightarrow> addr \<Rightarrow> portal_auth_hdr \<Rightarrow> portal_value_pair list \<Rightarrow> ems_portal \<Rightarrow> (int \<times> ems_portal) option" where
  "req_auth_login e u auth attr p =
    do {
      p1 \<leftarrow> pu_upd u (\<lambda>x. x\<lparr>pu_flg := ems_flag_unset (pu_flg x) EMS_FLG_ONLINE, pu_st := u_req_auth, pu_serial := h_serial auth,
        pu_reqid := h_reqid auth, pu_auth_ty := h_auth_ty auth\<rparr>) p;
      case auth_pass auth attr of
        None \<Rightarrow> req_auth_fail e (Some u) auth p1
      | Some pass \<Rightarrow>
          do {
            p2 \<leftarrow> pu_upd u (\<lambda>x. x\<lparr>pu_pass := pass\<rparr>) p1;
            (ok, m) \<leftarrow> auth_mac e (hdr_ip auth) attr (pt_mac p2);
            let p3 = p2\<lparr>pt_mac := m\<rparr>;
            if \<not> ok then req_auth_fail e (Some u) auth p3
            else do {
              p4 \<leftarrow> pu_upd u (\<lambda>x. x\<lparr>pu_mac := Some m\<rparr>) p3;
              x \<leftarrow> pu_get u p4;
              obj \<leftarrow> auth_obj x;
              Some (EMS_OK, ptl_emit (PtlSend ty_portal ty_radius EMS_APP_CMD_RADIUS_AUTH (Some obj)) p4)
            }
          }
    }"

definition ptl_evt_req_auth ::
  "ptl_env \<Rightarrow> portal_auth_hdr \<Rightarrow> portal_value_pair list \<Rightarrow> ems_portal \<Rightarrow> (int \<times> ems_portal) option" where
  "ptl_evt_req_auth e auth attr p =
    (case ptl_user_find p (hdr_ip auth) of
       None \<Rightarrow>
         (case vp_value attr ATTR_USERNAME of
            None \<Rightarrow> req_auth_fail e None auth p
          | Some name \<Rightarrow>
              (case ptl_user_add e (c_text name) (hdr_ip auth) p of
                 None \<Rightarrow> req_auth_fail e None auth p
               | Some (u, p1) \<Rightarrow> req_auth_login e u auth attr p1))
     | Some u \<Rightarrow>
         do {
           x \<leftarrow> pu_get u p;
           case req_auth_check auth x of
             Some err \<Rightarrow>
               do {
                 p1 \<leftarrow> (if err = 2 then pu_upd u (\<lambda>x. x\<lparr>pu_serial := h_serial auth\<rparr>) p else Some p);
                 req_auth_refuse e err auth p1
               }
           | None \<Rightarrow> req_auth_login e u auth attr p
         })"

definition ptl_evt_req_info :: "ptl_env \<Rightarrow> portal_auth_hdr \<Rightarrow> ems_portal \<Rightarrow> (int \<times> ems_portal) option" where
  "ptl_evt_req_info e auth p = ptl_evt_ack e None (auth\<lparr>h_ty := ty_ack_info, h_err := 0\<rparr>) None p"

definition ptl_evt_req_logout :: "ptl_env \<Rightarrow> portal_auth_hdr \<Rightarrow> ems_portal \<Rightarrow> (int \<times> ems_portal) option" where
  "ptl_evt_req_logout e auth p =
    do {
      let auth1 = hdr_reply auth ty_ack_logout 0;
      let user = ptl_user_find p (hdr_ip auth);
      p1 \<leftarrow> (case user of
               None \<Rightarrow> Some p
             | Some u \<Rightarrow>
                 do {
                   p2 \<leftarrow> pu_upd u (\<lambda>x. x\<lparr>pu_st := u_ack_logout, pu_serial := h_serial auth1, pu_reqid := h_reqid auth1,
                     pu_flg := ems_flag_unset (pu_flg x) EMS_FLG_ONLINE\<rparr>) p;
                   ptl_logout u p2
                 });
      ptl_evt_ack e user auth1 None p1
    }"

definition ptl_evt_aff_ack_auth :: "portal_auth_hdr \<Rightarrow> ems_portal \<Rightarrow> (int \<times> ems_portal) option" where
  "ptl_evt_aff_ack_auth auth p =
    (case ptl_user_find p (hdr_ip auth) of
       None \<Rightarrow> Some (EMS_OK, p)
     | Some u \<Rightarrow>
         do {
           x \<leftarrow> pu_get u p;
           if pu_st x = u_ack_auth then
             map_option (Pair EMS_OK) (pu_upd u (\<lambda>x. x\<lparr>pu_flg := ems_flag_set (pu_flg x) EMS_FLG_ONLINE, pu_st := u_aff_ack_auth,
               pu_to := None\<rparr>) p)
           else Some (EMS_OK, p)
         })"

definition req_challenge_fail :: "ptl_env \<Rightarrow> addr option \<Rightarrow> portal_auth_hdr \<Rightarrow> ems_portal \<Rightarrow> (int \<times> ems_portal) option" where
  "req_challenge_fail e user auth p =
    do {
      p1 \<leftarrow> (case user of None \<Rightarrow> Some p | Some u \<Rightarrow> pu_upd u (\<lambda>x. x\<lparr>pu_st := u_ack_challenge\<rparr>) p);
      ptl_evt_ack e user (hdr_reply auth ty_ack_challenge 1) None p1
    }"

definition req_challenge_new :: "ptl_env \<Rightarrow> addr \<Rightarrow> portal_auth_hdr \<Rightarrow> ems_portal \<Rightarrow> (int \<times> ems_portal) option" where
  "req_challenge_new e u auth p =
    do {
      (_, vp) \<leftarrow> ptl_vp_append (pe_alloc e) [] ATTR_CHALLENGE (Some (take 32 (pe_vector e @ replicate 32 (char_of (0 :: nat))))) 16;
      p1 \<leftarrow> pu_upd u (\<lambda>x. x\<lparr>pu_serial := h_serial auth, pu_reqid := pe_random e, pu_st := u_ack_challenge,
        pu_auth_ty := h_auth_ty auth\<rparr>) p;
      x \<leftarrow> pu_get u p1;
      (_, p2) \<leftarrow> ptl_evt_ack e (Some u)
        (auth\<lparr>h_serial := htons (pu_serial x), h_reqid := htons (pu_reqid x), h_ty := ty_ack_challenge, h_err := 0\<rparr>) (Some vp) p1;
      Some (EMS_OK, p2)
    }"

definition ptl_evt_req_challenge ::
  "ptl_env \<Rightarrow> portal_auth_hdr \<Rightarrow> portal_value_pair list \<Rightarrow> ems_portal \<Rightarrow> (int \<times> ems_portal) option" where
  "ptl_evt_req_challenge e auth attr p =
    (case ptl_user_find p (hdr_ip auth) of
       Some u \<Rightarrow> req_challenge_fail e (Some u) auth p
     | None \<Rightarrow>
         (case vp_value attr ATTR_USERNAME of
            None \<Rightarrow> req_challenge_fail e None auth p
          | Some name \<Rightarrow>
              (case ptl_user_add e (c_text name) (hdr_ip auth) p of
                 None \<Rightarrow> req_challenge_fail e None auth p
               | Some (u, p1) \<Rightarrow> req_challenge_new e u auth p1)))"

definition ptl_process_evt ::
  "ptl_env \<Rightarrow> portal_auth_hdr \<Rightarrow> portal_value_pair list \<Rightarrow> ems_portal \<Rightarrow> (int \<times> ems_portal) option" where
  "ptl_process_evt e auth attr p =
    (if h_ty auth = ty_req_challenge then ptl_evt_req_challenge e auth attr p
     else if h_ty auth = ty_req_auth then ptl_evt_req_auth e auth attr p
     else if h_ty auth = ty_req_logout then ptl_evt_req_logout e auth p
     else if h_ty auth = ty_aff_ack_auth then ptl_evt_aff_ack_auth auth p
     else if h_ty auth = ty_req_info then ptl_evt_req_info e auth p
     else Some (EMS_OK, p))"

subsection \<open>Changes of the status\<close>

definition pt_sess_upd :: "(ems_session \<Rightarrow> ems_session) \<Rightarrow> ems_portal \<Rightarrow> ems_portal option" where
  "pt_sess_upd f p = map_option (\<lambda>t. p\<lparr>pt_sess := Some (f t)\<rparr>) (pt_sess p)"

text \<open>An event and the timer of the session at once, as the code sets them.\<close>

definition pt_watch :: "ptl_env \<Rightarrow> flags \<Rightarrow> int \<Rightarrow> ems_session \<Rightarrow> ems_session" where
  "pt_watch e flg ms t = sess_timeout_set (pe_now e) (sess_event_set t flg PTL_EVT_CB) ms PTL_TIMEOUT_CB"

definition portal_err :: "ptl_env \<Rightarrow> ems_portal \<Rightarrow> (int \<times> ems_portal) option" where
  "portal_err e p =
    (let p1 = ptl_emit (PtlSend ty_portal ty_fw EMS_APP_STOP None) p
     in case pt_sess p1 of
          None \<Rightarrow> Some (EMS_OK, p1)
        | Some t \<Rightarrow>
            (let t1 = sess_timeout_cancel (sess_event_cancel t);
                 t2 = sess_timeout_set (pe_now e) (t1\<lparr>sock := snd (ems_sock_close (sock t1))\<rparr>) PORTAL_ERROR_TIMEOUT PTL_TIMEOUT_CB
             in Some (EMS_OK, p1\<lparr>pt_sess := Some t2\<rparr>)))"

text \<open>\<open>portal_change_status\<close> into \<open>st_err\<close>.\<close>

definition ptl_to_err :: "ptl_env \<Rightarrow> ems_portal \<Rightarrow> (int \<times> ems_portal) option" where
  "ptl_to_err e p = portal_err e (p\<lparr>pt_st := st_err\<rparr>)"

definition ptl_fail :: "ptl_env \<Rightarrow> int \<Rightarrow> ems_portal \<Rightarrow> (int \<times> ems_portal) option" where
  "ptl_fail e err p = ptl_to_err e (p\<lparr>pt_lasterr := err\<rparr>)"

text \<open>The attributes of a registration (2) and of a heartbeat (1).\<close>

definition ptl_info :: "ptl_env \<Rightarrow> nat \<Rightarrow> portal_value_pair list option" where
  "ptl_info e pkgtype =
    do {
      (_, v1) \<leftarrow> ptl_vp_append (pe_alloc e) [] ATTR_PKGTYPE (Some (le16 pkgtype @ le16 0)) (-1);
      (_, v2) \<leftarrow> ptl_vp_append (pe_alloc e) v1 ATTR_AUTHTYPE (Some (''PAP'' @ [char_of (0 :: nat)])) (-1);
      (_, v3) \<leftarrow> ptl_vp_append (pe_alloc e) v2 ATTR_NASNAME (Some (pe_sn e @ [char_of (0 :: nat)])) (-1);
      Some v3
    }"

definition portal_fill_info :: "ptl_env \<Rightarrow> nat \<Rightarrow> ems_session \<Rightarrow> ems_session option" where
  "portal_fill_info e pkgtype t =
    do { vp \<leftarrow> ptl_info e pkgtype; (_, b) \<leftarrow> ptl_pack_list vp (buf_out t); Some (t\<lparr>buf_out := b\<rparr>) }"

definition portal_fill_reg_info :: "ptl_env \<Rightarrow> ems_session \<Rightarrow> ems_session option" where
  "portal_fill_reg_info e t = portal_fill_info e 2 t"

definition portal_fill_hb_info :: "ptl_env \<Rightarrow> ems_session \<Rightarrow> ems_session option" where
  "portal_fill_hb_info e t = portal_fill_info e 1 t"

definition ptl_refresh :: "ems_session \<Rightarrow> ems_session" where
  "ptl_refresh t = t\<lparr>buf_out := ems_buffer_refresh (buf_out t)\<rparr>"

definition ptl_status_into_reg :: "ptl_env \<Rightarrow> ems_portal \<Rightarrow> (int \<times> ems_portal) option" where
  "ptl_status_into_reg e p =
    do {
      t \<leftarrow> pt_sess p;
      t1 \<leftarrow> portal_fill_reg_info e (ptl_refresh t);
      if hb_period p = 0 then None
      else Some (EMS_OK, p\<lparr>pt_retry_times := PORTAL_RETRY_TIMES, pt_retry_timeout := PORTAL_RETRY_TIMEOUT, pt_lasterr := 0,
        pt_reg := reg_period p sdiv hb_period p, pt_sess := Some (pt_watch e EMS_EVT_WRITE (PORTAL_RETRY_TIMEOUT * 1000) t1)\<rparr>)
    }"

text \<open>How long until the next heartbeat or registration, in seconds.\<close>

definition ptl_period :: "ems_portal \<Rightarrow> int option" where
  "ptl_period p =
    (if pt_reg p > 0 then Some (hb_period p)
     else if hb_period p = 0 then None
     else (let s = reg_period p smod hb_period p in Some (if s \<le> 0 then hb_period p else s)))"

definition ptl_status_into_normal :: "ptl_env \<Rightarrow> ems_portal \<Rightarrow> (int \<times> ems_portal) option" where
  "ptl_status_into_normal e p =
    do {
      t \<leftarrow> pt_sess p;
      s \<leftarrow> ptl_period p;
      Some (EMS_OK, p\<lparr>pt_sess := Some (pt_watch e EMS_EVT_READ (s * 1000) (sess_event_cancel t))\<rparr>)
    }"

definition ptl_status_into_hb :: "ptl_env \<Rightarrow> ems_portal \<Rightarrow> (int \<times> ems_portal) option" where
  "ptl_status_into_hb e p =
    do {
      t \<leftarrow> pt_sess p;
      t1 \<leftarrow> portal_fill_hb_info e (ptl_refresh t);
      Some (EMS_OK, p\<lparr>pt_retry_times := PORTAL_RETRY_TIMES, pt_retry_timeout := PORTAL_RETRY_TIMEOUT, pt_lasterr := 0,
        pt_sess := Some (pt_watch e EMS_EVT_WRITE (PORTAL_RETRY_TIMEOUT * 1000) t1)\<rparr>)
    }"

definition portal_connect :: "ptl_env \<Rightarrow> ems_session \<Rightarrow> int \<times> ems_session" where
  "portal_connect e t =
    (case pe_gethost e (str_text (s_addr (sock t))) of
       None \<Rightarrow> (EMS_ERR, t)
     | Some a \<Rightarrow>
         if pe_socket e \<le> 0 then (EMS_ERR, t)
         else if \<not> pe_connect e a (s_port (sock t)) then (EMS_ERR, t)
         else (EMS_OK, t\<lparr>sock := snd (ems_sock_setfd (sock t) (pe_socket e))\<rparr>))"

definition portal_session :: "ptl_env \<Rightarrow> ems_portal \<Rightarrow> ems_session option" where
  "portal_session e p =
    (case pt_sess p of
       Some t \<Rightarrow> Some t
     | None \<Rightarrow>
         map_option (\<lambda>t. t\<lparr>buf_in := snd (ems_buffer_increase (pe_alloc e) (pe_garbage e) (buf_in t) EMS_BUFFER_1K),
             buf_out := snd (ems_buffer_increase (pe_alloc e) (pe_garbage e) (buf_out t) EMS_BUFFER_1K)\<rparr>)
           (ems_session_new (pe_alloc e) (pe_alloc e) (pe_garbage e)))"

definition portal_start :: "ptl_env \<Rightarrow> ems_portal \<Rightarrow> (int \<times> ems_portal) option" where
  "portal_start e p =
    (case portal_session e p of
       None \<Rightarrow> do { (_, p1) \<leftarrow> ptl_to_err e p; Some (EMS_ERR, p1) }
     | Some t \<Rightarrow>
         (case portal_connect e (sess_target (pt_addr p) (pt_port p) t) of
            (ret, t1) \<Rightarrow>
              let p1 = p\<lparr>pt_lasterr := 0, pt_sess := Some t1\<rparr>
              in if ret \<noteq> EMS_OK then do { (_, p2) \<leftarrow> ptl_fail e ERR_PORTAL_NETWORK p1; Some (EMS_ERR, p2) }
                 else ptl_status_into_reg e (p1\<lparr>pt_st := st_reg\<rparr>)))"

text \<open>The users of the list in its order; each is released after the RADIUS client was told about it.\<close>

fun ptl_clear_users :: "addr list \<Rightarrow> ems_portal \<Rightarrow> ems_portal option" where
  "ptl_clear_users [] p = Some p"
| "ptl_clear_users (u # us) p =
    do {
      x \<leftarrow> pu_get u p;
      p1 \<leftarrow> (if ems_flag_like (pu_flg x) EMS_FLG_ONLINE then ptl_logout u p else Some p);
      ptl_clear_users us (ptl_user_destroy u p1)
    }"

definition ptl_clear_all_users :: "ems_portal \<Rightarrow> (int \<times> ems_portal) option" where
  "ptl_clear_all_users p = map_option (Pair EMS_OK) (ptl_clear_users (pt_users p) p)"

text \<open>The session is shut down and released.\<close>

definition portal_stopped :: "ptl_env \<Rightarrow> ems_portal \<Rightarrow> (int \<times> ems_portal) option" where
  "portal_stopped e p =
    (let p1 = p\<lparr>pt_sess := None, pt_lasterr := ERR_PORTAL_STOPPED\<rparr>;
         p2 = (if pe_fw_run e then ptl_emit (PtlSend ty_portal ty_fw EMS_APP_STOP None) p1 else p1)
     in ptl_clear_all_users p2)"

definition portal_change_status :: "ptl_env \<Rightarrow> ems_status \<Rightarrow> ems_portal \<Rightarrow> (int \<times> ems_portal) option" where
  "portal_change_status e st p =
    (let p1 = p\<lparr>pt_st := st\<rparr>
     in case st of
          st_start \<Rightarrow> portal_start e p1
        | st_stopped \<Rightarrow> portal_stopped e p1
        | st_err \<Rightarrow> portal_err e p1
        | st_reg \<Rightarrow> ptl_status_into_reg e p1
        | st_normal \<Rightarrow> ptl_status_into_normal e p1
        | st_hb \<Rightarrow> ptl_status_into_hb e p1
        | _ \<Rightarrow> Some (EMS_OK, p1))"

subsection \<open>What other modules and timers do to a user\<close>

text \<open>The six bytes of the address; what the text does not fill is what the stack holds.\<close>

definition ntf_mac :: "ptl_env \<Rightarrow> portal_user \<Rightarrow> string" where
  "ntf_mac e x =
    (let s = snd (ems_str2bin (pu_mac x) 8) in s @ map (pe_garbage e) [length s ..< 8])"

definition user_hdr :: "portal_user \<Rightarrow> 8 word \<Rightarrow> 8 word \<Rightarrow> portal_auth_hdr" where
  "user_hdr x ty err =
    \<lparr>h_ver = 1, h_ty = ty, h_auth_ty = pu_auth_ty x, h_rsrv = 0, h_serial = htons (pu_serial x), h_reqid = htons (pu_reqid x),
     h_ip = be32 (unat (inet_addr (pu_ip x))), h_port = 0, h_err = err, h_n_attr = 0\<rparr>"

definition ptl_user_ntf_logout :: "ptl_env \<Rightarrow> addr option \<Rightarrow> ems_portal \<Rightarrow> (int \<times> ems_portal) option" where
  "ptl_user_ntf_logout e user p =
    (case user of
       None \<Rightarrow> Some (EMS_OK, p)
     | Some u \<Rightarrow>
         do {
           x \<leftarrow> pu_get u p;
           if pu_st x \<noteq> u_aff_ack_auth \<and> pu_st x \<noteq> u_ack_auth then Some (EMS_OK, p)
           else do {
             p1 \<leftarrow> pu_upd u (\<lambda>x. x\<lparr>pu_flg := ems_flag_unset (pu_flg x) EMS_FLG_ONLINE, pu_st := u_ntf_logout\<rparr>) p;
             (_, vp) \<leftarrow> ptl_vp_append (pe_alloc e) [] ATTR_USERMAC (Some (ntf_mac e x)) 6;
             (_, p2) \<leftarrow> ptl_evt_ack e (Some u) (user_hdr x ty_ntf_logout 0) (Some vp) p1;
             Some (EMS_OK, p2)
           }
         })"

definition ptl_user_auth_rsp :: "ptl_env \<Rightarrow> addr option \<Rightarrow> int \<Rightarrow> ems_portal \<Rightarrow> (int \<times> ems_portal) option" where
  "ptl_user_auth_rsp e user err p =
    (case user of
       None \<Rightarrow> Some (EMS_OK, p)
     | Some u \<Rightarrow>
         do {
           x \<leftarrow> pu_get u p;
           if pu_st x \<noteq> u_aff_ack_auth \<and> pu_st x \<noteq> u_req_auth then Some (EMS_OK, p)
           else do {
             p1 \<leftarrow> pu_upd u (\<lambda>x. x\<lparr>pu_st := u_ack_auth,
               pu_flg := (if err = 0 then ems_flag_set (pu_flg x) EMS_FLG_ONLINE else pu_flg x)\<rparr>) p;
             ptl_evt_ack e (Some u) (user_hdr x ty_ack_auth (if err \<noteq> 0 then 4 else 0)) None p1
           }
         })"

text \<open>The attempts of a user are used up.\<close>

definition user_gives_up :: "ptl_env \<Rightarrow> addr \<Rightarrow> ems_portal \<Rightarrow> ems_portal option" where
  "user_gives_up e u p =
    do {
      x \<leftarrow> pu_get u p;
      case pu_st x of
        u_ack_auth \<Rightarrow>
          if ems_flag_like (pu_flg x) EMS_FLG_ONLINE then
            do { p1 \<leftarrow> ptl_logout u p; (_, p2) \<leftarrow> ptl_user_ntf_logout e (Some u) p1; Some p2 }
          else Some (ptl_user_destroy u p)
      | u_ntf_logout \<Rightarrow> Some (ptl_user_destroy u p)
      | u_ack_logout \<Rightarrow> Some (ptl_user_destroy u p)
      | u_ack_challenge \<Rightarrow> Some (ptl_user_destroy u p)
      | _ \<Rightarrow> Some p
    }"

definition user_timeout_cb :: "ptl_env \<Rightarrow> addr \<Rightarrow> ems_portal \<Rightarrow> ems_portal option" where
  "user_timeout_cb e u p =
    do {
      p1 \<leftarrow> pu_upd u (\<lambda>x. x\<lparr>pu_retry_times := pu_retry_times x - 1\<rparr>) p;
      x \<leftarrow> pu_get u p1;
      if pu_retry_times x > 0 then
        do {
          p2 \<leftarrow> pt_sess_upd (\<lambda>t. let t1 = ptl_refresh t in
            sess_event_set (t1\<lparr>buf_out := snd (ems_buffer_write (buf_out t1) (drop (brd (pu_buf_out x)) (bmem (pu_buf_out x)))
              (buf_len (pu_buf_out x)))\<rparr>) EMS_EVT_WRITE PTL_EVT_CB) p1;
          pu_upd u (\<lambda>x. x\<lparr>pu_to := Some (timeout_deadline (pe_now e) (pu_retry_timeout x * 1000))\<rparr>) p2
        }
      else user_gives_up e u p1
    }"

subsection \<open>Receiving and sending\<close>

type_synonym ptl_recv_cb = "portal_value_pair list \<Rightarrow> ems_portal \<Rightarrow> (int \<times> ems_portal) option"

definition ptl_consume :: "int \<Rightarrow> ems_portal \<Rightarrow> ems_portal option" where
  "ptl_consume n p =
    pt_sess_upd (\<lambda>t. t\<lparr>buf_in := ems_buffer_refresh (snd (ems_buffer_seek_rd (buf_in t) n 2))\<rparr>) p"

text \<open>A message whose first byte is the version has a header.\<close>

definition ptl_process_rsp :: "ptl_env \<Rightarrow> ptl_recv_cb \<Rightarrow> ems_portal \<Rightarrow> (int \<times> ems_portal) option" where
  "ptl_process_rsp e h p =
    do {
      t \<leftarrow> pt_sess p;
      let b = buf_in t;
      if buf_len b \<le> 0 then Some (EMS_CONTINUE, p)
      else do {
        c \<leftarrow> (if brd b < length (bmem b) then Some (bmem b ! brd b) else None);
        if uchr c = 1 then
          (if buf_len b < 16 then Some (EMS_CONTINUE, p)
           else do {
             let hdr = hdr_get (fst (snd (ems_buffer_prefetch b 16)));
             let auth = hdr\<lparr>h_serial := htons (h_serial hdr), h_reqid := htons (h_reqid hdr)\<rparr>;
             (rtn, vp) \<leftarrow> ptl_parse_ctx (pe_alloc e) [] (bmem b) (brd b + 16) (buf_len b - 16) (uint (h_n_attr auth)) True;
             if rtn < 0 then Some (rtn, p)
             else do {
               (ret, p1) \<leftarrow> ptl_process_evt e auth vp p;
               p2 \<leftarrow> ptl_consume (16 + rtn) p1;
               Some (ret, p2)
             }
           })
        else do {
          (rtn, vp) \<leftarrow> ptl_parse_ctx (pe_alloc e) [] (bmem b) (brd b) (buf_len b) (-1) False;
          if rtn \<le> 0 then Some (rtn, p)
          else do {
            (_, p1) \<leftarrow> h vp p;
            p2 \<leftarrow> ptl_consume rtn p1;
            Some (rtn, p2)
          }
        }
      }
    }"

text \<open>The loop over the messages of the buffer; \<open>None\<close> also when it does not end.\<close>

partial_function (option) process_loop :: "ptl_env \<Rightarrow> ptl_recv_cb \<Rightarrow> ems_portal \<Rightarrow> (int \<times> ems_portal) option" where
  "process_loop e h p =
    Option.bind (ptl_process_rsp e h p) (\<lambda>(ret, p1).
      if ret = EMS_BUFFER_INSUFFICIENT \<or> ret = EMS_ERR then Some (EMS_ERR, p1)
      else if ret = EMS_CONTINUE then Some (EMS_OK, p1)
      else process_loop e h p1)"

text \<open>The answers of \<open>recv\<close> to each call of \<open>sess_recv\<close>; \<open>None\<close> when there are too few.\<close>

fun ptl_recv_msg :: "ptl_env \<Rightarrow> ptl_recv_cb \<Rightarrow> recv_res list list \<Rightarrow> ems_portal \<Rightarrow> (int \<times> ems_portal) option" where
  "ptl_recv_msg e h [] p = None"
| "ptl_recv_msg e h (rs # rss) p =
    do {
      t \<leftarrow> pt_sess p;
      (ret, sk, b) \<leftarrow> ems_sock_read rs (sock t) (buf_in t);
      let p1 = p\<lparr>pt_sess := Some (t\<lparr>sock := sk, buf_in := b\<rparr>)\<rparr>;
      if ret \<le> 0 \<and> ret \<noteq> - EAGAIN then
        (if 0 < buf_len b then do { (_, p2) \<leftarrow> ptl_process_rsp e h p1; Some (EMS_ERR, p2) } else Some (EMS_ERR, p1))
      else do {
        (r, p2) \<leftarrow> process_loop e h p1;
        if r = EMS_ERR then Some (EMS_ERR, p2)
        else if ret = - EAGAIN then Some (EMS_OK, p2)
        else ptl_recv_msg e h rss p2
      }
    }"

definition ptl_send_msg :: "(int \<times> int) list \<Rightarrow> ems_portal \<Rightarrow> (int \<times> ems_portal) option" where
  "ptl_send_msg rets p =
    do {
      t \<leftarrow> pt_sess p;
      (ret, sk, b, bytes) \<leftarrow> ems_sock_send rets (sock t) (buf_out t);
      let t1 = t\<lparr>sock := sk, buf_out := b\<rparr>;
      let p1 = (if bytes = [] then p else ptl_emit (PtlSent bytes) p);
      if ret \<le> 0 \<and> ret \<noteq> - EAGAIN then Some (EMS_ERR, p1\<lparr>pt_sess := Some t1\<rparr>)
      else Some (EMS_OK, p1\<lparr>pt_sess := Some (if buf_len b \<le> 0 then sess_event_set t1 EMS_EVT_READ PTL_EVT_CB else t1)\<rparr>)
    }"

subsection \<open>Events\<close>

text \<open>The firewall is started with the first registration, and lets the server through.\<close>

definition ptl_reg_rsp :: "ptl_env \<Rightarrow> ptl_recv_cb" where
  "ptl_reg_rsp e list p =
    (if map_option c_text (vp_value list ATTR_RESPONSE) = Some ''register'' then
       (let p1 = (if pe_fw_run e then p
          else ptl_emit (PtlProcess ty_portal ty_fw EMS_APP_FW_ADDRESS_ADD (JArr [JStr (pt_addr p)]))
            (ptl_emit (PtlSend ty_portal ty_fw EMS_APP_START None) p))
        in portal_change_status e st_normal p1)
     else ptl_fail e ERR_PORTAL_RESPONSE p)"

definition ptl_normal_rsp :: ptl_recv_cb where
  "ptl_normal_rsp list p = Some (EMS_OK, p)"

definition ptl_hb_rsp :: "ptl_env \<Rightarrow> ptl_recv_cb" where
  "ptl_hb_rsp e list p =
    (if map_option c_text (vp_value list ATTR_RESPONSE) = Some ''active'' then portal_change_status e st_normal p
     else ptl_fail e ERR_PORTAL_RESPONSE p)"

text \<open>\<open>portal_reg\<close>, \<open>portal_normal\<close> and \<open>portal_hb\<close> differ in the handler of answers only.\<close>

definition ptl_io ::
  "ptl_env \<Rightarrow> ptl_recv_cb \<Rightarrow> flags \<Rightarrow> recv_res list list \<Rightarrow> (int \<times> int) list \<Rightarrow> ems_portal \<Rightarrow> (int \<times> ems_portal) option" where
  "ptl_io e h flg rss rets p =
    (if ems_flag_like flg EMS_EVT_READ then
       do {
         (ret, p1) \<leftarrow> ptl_recv_msg e h rss p;
         if ret \<noteq> EMS_OK then ptl_fail e ERR_PORTAL_NETWORK p1 else Some (EMS_OK, p1)
       }
     else if ems_flag_like flg EMS_EVT_WRITE then
       do {
         (ret, p1) \<leftarrow> ptl_send_msg rets p;
         if ret \<noteq> EMS_OK then ptl_fail e ERR_PORTAL_NETWORK p1 else Some (EMS_OK, p1)
       }
     else Some (EMS_OK, p))"

definition portal_reg ::
  "ptl_env \<Rightarrow> flags \<Rightarrow> recv_res list list \<Rightarrow> (int \<times> int) list \<Rightarrow> ems_portal \<Rightarrow> (int \<times> ems_portal) option" where
  "portal_reg e = ptl_io e (ptl_reg_rsp e)"

definition portal_normal ::
  "ptl_env \<Rightarrow> flags \<Rightarrow> recv_res list list \<Rightarrow> (int \<times> int) list \<Rightarrow> ems_portal \<Rightarrow> (int \<times> ems_portal) option" where
  "portal_normal e = ptl_io e ptl_normal_rsp"

definition portal_hb ::
  "ptl_env \<Rightarrow> flags \<Rightarrow> recv_res list list \<Rightarrow> (int \<times> int) list \<Rightarrow> ems_portal \<Rightarrow> (int \<times> ems_portal) option" where
  "portal_hb e = ptl_io e (ptl_hb_rsp e)"

text \<open>The handlers by status; a status without one is a call through a null pointer.\<close>

definition ptl_evt_run ::
  "ptl_env \<Rightarrow> flags \<Rightarrow> recv_res list list \<Rightarrow> (int \<times> int) list \<Rightarrow> ems_portal \<Rightarrow> (int \<times> ems_portal) option" where
  "ptl_evt_run e flg rss rets p =
    (case pt_st p of
       st_start \<Rightarrow> portal_start e p
     | st_reg \<Rightarrow> portal_reg e flg rss rets p
     | st_normal \<Rightarrow> portal_normal e flg rss rets p
     | st_hb \<Rightarrow> portal_hb e flg rss rets p
     | st_err \<Rightarrow> portal_err e p
     | st_stopped \<Rightarrow> portal_stopped e p
     | _ \<Rightarrow> None)"

definition ptl_evt_cb ::
  "ptl_env \<Rightarrow> bool \<Rightarrow> flags \<Rightarrow> recv_res list list \<Rightarrow> (int \<times> int) list \<Rightarrow> ems_portal \<Rightarrow> ems_portal option" where
  "ptl_evt_cb e err flg rss rets p =
    map_option snd (if err then ptl_fail e ERR_PORTAL_NETWORK p else ptl_evt_run e flg rss rets p)"

subsection \<open>The timer of the session\<close>

definition portal_retry_send :: "ptl_env \<Rightarrow> ems_portal \<Rightarrow> (int \<times> ems_portal) option" where
  "portal_retry_send e p =
    (let p1 = p\<lparr>pt_retry_times := pt_retry_times p - 1\<rparr>
     in if pt_retry_times p1 \<noteq> 0 then
          map_option (Pair EMS_OK) (pt_sess_upd (\<lambda>t. pt_watch e EMS_EVT_WRITE (pt_retry_timeout p1 * 1000)
            (t\<lparr>buf_out := snd (ems_buffer_seek_rd (buf_out t) 0 1)\<rparr>)) p1)
        else ptl_fail e ERR_PORTAL_NETWORK p1)"

definition portal_to_normal :: "ptl_env \<Rightarrow> ems_portal \<Rightarrow> (int \<times> ems_portal) option" where
  "portal_to_normal e p =
    (let p1 = p\<lparr>pt_reg := pt_reg p - 1\<rparr>
     in portal_change_status e (if pt_reg p1 > 0 then st_hb else st_reg) p1)"

definition ptl_timeout_run :: "ptl_env \<Rightarrow> ems_portal \<Rightarrow> (int \<times> ems_portal) option" where
  "ptl_timeout_run e p =
    (case pt_st p of
       st_reg \<Rightarrow> portal_retry_send e p
     | st_normal \<Rightarrow> portal_to_normal e p
     | st_hb \<Rightarrow> portal_retry_send e p
     | st_err \<Rightarrow> portal_change_status e st_start p
     | _ \<Rightarrow> Some (EMS_OK, p))"

definition ptl_timeout_cb :: "ptl_env \<Rightarrow> ems_portal \<Rightarrow> ems_portal option" where
  "ptl_timeout_cb e p = map_option snd (ptl_timeout_run e p)"

end
