(* ===== verification/Ems_Portal_App.thy ===== *)
theory Ems_Portal_App
  imports Ems_Portal
begin

text \<open>
  The module of \<^verbatim>\<open>c/ems/src/core/app_portal.c\<close> around the portal client: its creation and end, the
  configuration, the answers of the RADIUS client, the queries, and the dispatch of messages.
\<close>

definition EMS_APP_EVT_DETAIL :: nat where "EMS_APP_EVT_DETAIL = 0x001a"

text \<open>The module: \<open>FLG_RUN\<close> and the client, a null pointer when it is \<open>None\<close>.\<close>

record ptl_mod =
  pm_run :: bool
  pm_ctx :: "ems_portal option"

subsection \<open>Start and stop\<close>

text \<open>\<open>mem\<close> is what is left of the model's stores, with no user in use; the code clears the memory.\<close>

definition portal_init :: "ptl_env \<Rightarrow> ems_portal \<Rightarrow> ptl_mod \<Rightarrow> int \<times> ptl_mod" where
  "portal_init e mem m =
    (if pe_alloc e then
       (EMS_OK, m\<lparr>pm_ctx := Some (mem\<lparr>pt_users := [], pt_sess := None, pt_addr := [], pt_port := 0, reg_period := 0, hb_period := 0,
         pt_reg := 0, pt_retry_times := 0, pt_retry_timeout := 0, pt_st := st_stopped, pt_lasterr := 0\<rparr>)\<rparr>)
     else (EMS_ERR, m))"

text \<open>The result also has what is left of the client when its memory is released; its session is not.\<close>

definition portal_uninit :: "ptl_mod \<Rightarrow> int \<times> ems_portal option \<times> ptl_mod" where
  "portal_uninit m =
    (EMS_OK, map_option (\<lambda>p. (fold ptl_user_destroy (pt_users p) p)\<lparr>pt_addr := []\<rparr>) (pm_ctx m), m\<lparr>pm_ctx := None\<rparr>)"

definition ptl_start :: "ptl_env \<Rightarrow> ems_portal \<Rightarrow> (int \<times> ems_portal) option" where
  "ptl_start e p =
    (if \<not> pe_enable e then
       Some (EMS_ERR, ptl_emit (PtlSend ty_portal ty_http EMS_APP_STOP None)
         (ptl_emit (PtlSend ty_portal ty_radius EMS_APP_STOP None) (ptl_emit (PtlSend ty_portal ty_fw EMS_APP_STOP None) p)))
     else
       (let p1 = p\<lparr>pt_addr := pe_addr e, pt_port := pe_port e, reg_period := pe_register e, hb_period := pe_heartbeat e\<rparr>;
            p2 = (if pt_addr p1 \<noteq> ''127.0.0.1'' then p1\<lparr>pt_ready := True\<rparr> else p1)
        in portal_change_status e st_start p2))"

definition ptl_stop :: "ptl_env \<Rightarrow> ems_portal \<Rightarrow> (int \<times> ems_portal) option" where
  "ptl_stop e p =
    portal_change_status e st_stopped (ptl_emit (PtlProcess ty_portal ty_fw EMS_APP_FW_ADDRESS_DEL (JArr [JStr (pt_addr p)])) p)"

definition portal_run :: "ptl_env \<Rightarrow> bool \<Rightarrow> ptl_mod \<Rightarrow> (int \<times> ptl_mod) option" where
  "portal_run e run m =
    do {
      p \<leftarrow> pm_ctx m;
      if run then
        (if pm_run m then Some (EMS_OK, m)
         else do { (ret, p1) \<leftarrow> ptl_start e p; Some (EMS_OK, m\<lparr>pm_ctx := Some p1, pm_run := (ret = EMS_OK)\<rparr>) })
      else if \<not> pm_run m then Some (EMS_OK, m)
      else do { (_, p1) \<leftarrow> ptl_stop e p; Some (EMS_OK, m\<lparr>pm_ctx := Some p1, pm_run := False\<rparr>) }
    }"

subsection \<open>Messages\<close>

definition portal_rules_update :: "ptl_env \<Rightarrow> bool \<Rightarrow> ems_portal \<Rightarrow> (int \<times> ems_portal) option" where
  "portal_rules_update e run p =
    (let restart = (pe_addr e \<noteq> pt_addr p \<or> pe_port e \<noteq> pt_port p \<or> pe_register e \<noteq> reg_period p \<or> pe_heartbeat e \<noteq> hb_period p)
     in if run \<and> restart then
          do { (_, p1) \<leftarrow> ptl_stop e p; (_, p2) \<leftarrow> ptl_start e p1; Some (EMS_OK, p2) }
        else Some (EMS_OK, p))"

text \<open>The address of a user in a message; a message without one is refused.\<close>

definition json_userip :: "json option \<Rightarrow> string option" where
  "json_userip root = (case json_object_object_get root ''userip'' of Some (JStr s) \<Rightarrow> Some s | _ \<Rightarrow> None)"

definition portal_app_auth_rsp :: "ptl_env \<Rightarrow> json option \<Rightarrow> ems_portal \<Rightarrow> (int \<times> ems_portal) option" where
  "portal_app_auth_rsp e root p =
    (case json_userip root of
       None \<Rightarrow> Some (EMS_ERR, p)
     | Some ip \<Rightarrow> ptl_user_auth_rsp e (ptl_user_find p ip) (ems_json_get_int_def root ''error_code'' 0) p)"

definition portal_app_logout :: "ptl_env \<Rightarrow> json option \<Rightarrow> ems_portal \<Rightarrow> (int \<times> ems_portal) option" where
  "portal_app_logout e root p =
    (case json_userip root of
       None \<Rightarrow> Some (EMS_ERR, p)
     | Some ip \<Rightarrow> ptl_user_ntf_logout e (ptl_user_find p ip) p)"

definition portal_app_evt_status :: "bool \<Rightarrow> ems_portal \<Rightarrow> int" where
  "portal_app_evt_status run p = (if \<not> run then EMS_OK else pt_lasterr p)"

definition portal_app_evt_detail :: "bool \<Rightarrow> json option \<Rightarrow> json option" where
  "portal_app_evt_detail run root = json_add [(''portal'', JObj [(''status'', JInt (of_bool run))])] root"

definition portal_evt_fw_reload :: "ems_portal \<Rightarrow> ems_portal" where
  "portal_evt_fw_reload p = ptl_emit (PtlProcess ty_portal ty_fw EMS_APP_FW_ADDRESS_ADD (JArr [JStr (pt_addr p)])) p"

text \<open>Messages that only the client handles.\<close>

definition portal_command :: "ptl_env \<Rightarrow> bool \<Rightarrow> nat \<Rightarrow> json option \<Rightarrow> ems_portal \<Rightarrow> (int \<times> ems_portal) option" where
  "portal_command e run evt root p =
    (if evt = EMS_APP_RULES_UPDATE \<or> evt = EMS_APP_SERVER_RULES_UPDATE then portal_rules_update e run p
     else if evt = EMS_APP_CMD_RADIUS_AUTH_RSP then portal_app_auth_rsp e root p
     else if evt = EMS_APP_CMD_PORTAL_LOGOUT then portal_app_logout e root p
     else if \<not> run then Some (EMS_ERR, p)
     else if evt = EMS_APP_EVT_FW_RELOAD then Some (EMS_OK, portal_evt_fw_reload p)
     else Some (EMS_OK, p))"

definition portal_process :: "ptl_env \<Rightarrow> nat \<Rightarrow> json option \<Rightarrow> ptl_mod \<Rightarrow> (int \<times> json option \<times> ptl_mod) option" where
  "portal_process e evt root m =
    (if evt = EMS_APP_START then map_option (\<lambda>(ret, m'). (ret, root, m')) (portal_run e True m)
     else if evt = EMS_APP_STOP then map_option (\<lambda>(ret, m'). (ret, root, m')) (portal_run e False m)
     else if evt = EMS_APP_EVT_DETAIL then Some (EMS_OK, portal_app_evt_detail (pm_run m) root, m)
     else if evt = EMS_APP_EVT_STATUS \<and> \<not> pm_run m then Some (EMS_OK, root, m)
     else do {
       p \<leftarrow> pm_ctx m;
       if evt = EMS_APP_EVT_STATUS then Some (portal_app_evt_status (pm_run m) p, root, m)
       else map_option (\<lambda>(ret, p'). (ret, root, m\<lparr>pm_ctx := Some p'\<rparr>)) (portal_command e (pm_run m) evt root p)
     })"

end
