(* ===== verification/Ems_Portal_Inv.thy ===== *)
theory Ems_Portal_Inv
  imports Ems_Portal_App
begin

text \<open>
  The invariant of the portal client and that each of its operations keeps it: the list is the set of
  users in memory, with one user for an address, a user that waits for the server has a timer with
  attempts left, and the session of a started client is always under a timer.
\<close>

subsection \<open>The invariant\<close>

text \<open>The states of a user in which an answer to the server waits for its confirmation.\<close>

definition user_waits :: "portal_user \<Rightarrow> bool" where
  "user_waits x \<longleftrightarrow> pu_st x \<in> {u_ack_challenge, u_ack_auth, u_ack_logout, u_ntf_logout}"

definition user_ok :: "portal_user \<Rightarrow> bool" where
  "user_ok x \<longleftrightarrow> (user_waits x \<longrightarrow> pu_to x \<noteq> None) \<and>
    (pu_to x \<noteq> None \<longrightarrow> pu_retry_times x \<in> {1..3} \<and> pu_retry_timeout x = PORTAL_RETRY_TIMEOUT)"

text \<open>The users of \<open>X\<close> are being changed.\<close>

definition ptab_ok :: "addr set \<Rightarrow> ems_portal \<Rightarrow> bool" where
  "ptab_ok X p \<longleftrightarrow> distinct (pt_users p) \<and> distinct (pt_live p) \<and> set (pt_live p) = set (pt_users p) \<and>
    inj_on (\<lambda>u. pu_ip (pt_user p u)) (set (pt_users p)) \<and>
    (\<forall>u \<in> set (pt_users p) - X. user_ok (pt_user p u)) \<and>
    (pt_users p \<noteq> [] \<longrightarrow> pt_sess p \<noteq> None)"

definition sess_timed :: "ems_session \<Rightarrow> bool" where
  "sess_timed t \<longleftrightarrow> s_to t \<noteq> None \<and> timeout_cb t = Some PTL_TIMEOUT_CB"

definition sess_inv :: "ems_portal \<Rightarrow> bool" where
  "sess_inv p \<longleftrightarrow> pt_st p \<in> {st_stopped, st_reg, st_normal, st_hb, st_err} \<and>
    (pt_st p \<in> {st_reg, st_normal, st_hb} \<longrightarrow> pt_sess p \<noteq> None) \<and>
    (pt_st p = st_stopped \<longrightarrow> pt_sess p = None) \<and>
    (\<forall>t. pt_sess p = Some t \<longrightarrow> sess_timed t)"

definition ptl_inv :: "addr set \<Rightarrow> ems_portal \<Rightarrow> bool" where
  "ptl_inv X p \<longleftrightarrow> ptab_ok X p \<and> sess_inv p"

definition fresh_ptl :: "ptl_env \<Rightarrow> bool" where
  "fresh_ptl e \<longleftrightarrow> (\<forall>L u. pe_new e L = Some u \<longrightarrow> u \<notin> set L)"

definition pok :: "addr set \<Rightarrow> (int \<times> ems_portal) option \<Rightarrow> bool" where
  "pok X m \<longleftrightarrow> (\<forall>r p'. m = Some (r, p') \<longrightarrow> ptl_inv X p')"

named_theorems pok_rules \<open>rules that take the body of an operation of the portal apart\<close>

lemma pokD: "pok X m \<Longrightarrow> m = Some (r, p') \<Longrightarrow> ptl_inv X p'"
  by (simp add: pok_def)

lemma pok_basic [pok_rules]:
  "ptl_inv X p \<Longrightarrow> pok X (Some (r, p))" "pok X None"
  "(b \<Longrightarrow> pok X m) \<Longrightarrow> (\<not> b \<Longrightarrow> pok X m') \<Longrightarrow> pok X (if b then m else m')"
  by (simp_all add: pok_def)

lemma pok_bind: "(\<And>y. m = Some y \<Longrightarrow> pok X (g y)) \<Longrightarrow> pok X (Option.bind m g)"
  by (auto simp: pok_def bind_eq_Some_conv)

lemma pok_prod: "(\<And>a b. y = (a, b) \<Longrightarrow> pok X (g a b)) \<Longrightarrow> pok X (case y of (a, b) \<Rightarrow> g a b)"
  by (cases y) simp

lemma pok_res: "pok X m \<Longrightarrow> (\<And>r p1. ptl_inv X p1 \<Longrightarrow> pok Y (g r p1)) \<Longrightarrow> pok Y (Option.bind m (\<lambda>(r, p1). g r p1))"
  by (auto simp: pok_def bind_eq_Some_conv)

lemma pok_option: "(m = None \<Longrightarrow> pok X a) \<Longrightarrow> (\<And>y. m = Some y \<Longrightarrow> pok X (g y)) \<Longrightarrow> pok X (case m of None \<Rightarrow> a | Some y \<Rightarrow> g y)"
  by (cases m) auto

subsection \<open>Users\<close>

lemma pu_get_in: "pu_get u p = Some x \<Longrightarrow> u \<in> set (pt_live p) \<and> x = pt_user p u"
  by (simp add: pu_get_def split: if_splits)

lemma find_in: "ptl_user_find p ip = Some u \<Longrightarrow> u \<in> set (pt_users p) \<and> pu_ip (pt_user p u) = ip"
  by (auto simp: ptl_user_find_def find_Some_iff)

lemma upd_eq: "pu_upd u f p = Some p' \<Longrightarrow> u \<in> set (pt_live p) \<and> p' = p\<lparr>pt_user := (pt_user p)(u := f (pt_user p u))\<rparr>"
  by (auto simp: pu_upd_def pu_get_def split: if_splits)

lemma tab_upd:
  assumes "ptab_ok X p" and "pu_upd u f p = Some p'" and "pu_ip (f (pt_user p u)) = pu_ip (pt_user p u)"
    and "u \<in> Y \<or> user_ok (f (pt_user p u))" and "X \<subseteq> insert u Y"
  shows "ptab_ok Y p'"
proof -
  note u = upd_eq [OF assms(2)]
  have ip: "(\<lambda>v. pu_ip (((pt_user p)(u := f (pt_user p u))) v)) = (\<lambda>v. pu_ip (pt_user p v))"
    using assms(3) by (intro ext) simp
  have "\<forall>v \<in> set (pt_users p) - Y. user_ok (((pt_user p)(u := f (pt_user p u))) v)"
    using assms(1,4,5) by (auto simp: ptab_ok_def)
  then show ?thesis using assms(1) u ip by (simp add: ptab_ok_def)
qed

lemma inv_upd:
  assumes "ptl_inv X p" and "pu_upd u f p = Some p'" and "\<And>x. pu_ip (f x) = pu_ip x"
    and "u \<in> Y \<or> (user_ok (pt_user p u) \<longrightarrow> user_ok (f (pt_user p u))) \<and> u \<notin> X \<or> user_ok (f (pt_user p u))" and "X \<subseteq> insert u Y"
  shows "ptl_inv Y p'"
proof -
  note u = upd_eq [OF assms(2)]
  have t: "ptab_ok X p" and s: "sess_inv p" using assms(1) by (simp_all add: ptl_inv_def)
  have "u \<in> Y \<or> user_ok (f (pt_user p u))" using assms(4) t u by (auto simp: ptab_ok_def)
  then have "ptab_ok Y p'" using tab_upd [OF t assms(2,3) _ assms(5)] by simp
  moreover have "sess_inv p'" using s u by (simp add: sess_inv_def)
  ultimately show ?thesis by (simp add: ptl_inv_def)
qed

lemma pok_upd:
  assumes "ptl_inv X p" and "\<And>x. pu_ip (f x) = pu_ip x" and "u \<in> Y" and "X \<subseteq> Y" and "\<And>p1. ptl_inv Y p1 \<Longrightarrow> pok Z (g p1)"
  shows "pok Z (Option.bind (pu_upd u f p) g)"
  by (rule pok_bind) (use assms inv_upd [where Y = Y] in blast)

text \<open>A change that leaves a well-formed user well formed.\<close>

lemma pok_upd_keep:
  assumes "ptl_inv X p" and "\<And>x. pu_ip (f x) = pu_ip x" and "\<And>x. user_ok x \<Longrightarrow> user_ok (f x)" and "\<And>p1. ptl_inv X p1 \<Longrightarrow> pok Z (g p1)"
  shows "pok Z (Option.bind (pu_upd u f p) g)"
proof (rule pok_bind)
  fix p1 assume u: "pu_upd u f p = Some p1"
  have "ptl_inv X p1" using inv_upd [OF assms(1) u assms(2), of X] assms(3) by auto
  then show "pok Z (g p1)" by (rule assms(4))
qed

lemma inv_emit [simp]: "ptl_inv X (ptl_emit m p) = ptl_inv X p"
  by (simp add: ptl_emit_def ptl_inv_def ptab_ok_def sess_inv_def)

lemma inv_mac [simp]: "ptl_inv X (p\<lparr>pt_mac := m\<rparr>) = ptl_inv X p"
  by (simp add: ptl_inv_def ptab_ok_def sess_inv_def)

lemma inv_mono: "ptl_inv X p \<Longrightarrow> X \<subseteq> Y \<Longrightarrow> ptl_inv Y p"
  by (auto simp: ptl_inv_def ptab_ok_def)

lemma tab_destroy: "ptab_ok (insert u X) p \<Longrightarrow> ptab_ok X (ptl_user_destroy u p)"
  by (auto simp: ptab_ok_def ptl_user_destroy_def inj_on_def dest: notin_set_remove1)

lemma inv_destroy: "ptl_inv (insert u X) p \<Longrightarrow> ptl_inv X (ptl_user_destroy u p)"
  by (auto simp: ptl_inv_def tab_destroy) (simp add: sess_inv_def ptl_user_destroy_def)

lemma inv_logout: "ptl_inv X p \<Longrightarrow> ptl_logout u p = Some p' \<Longrightarrow> ptl_inv X p'"
  by (auto simp: ptl_logout_def bind_eq_Some_conv)

lemma user_new_ok: "user_ok ((ptl_user_new e)\<lparr>pu_name := n, pu_ip := ip\<rparr>)"
  by (simp add: user_ok_def user_waits_def ptl_user_new_def)

lemma inv_add:
  assumes "ptl_inv X p" and "fresh_ptl e" and "ptl_user_find p ip = None" and "pt_sess p \<noteq> None"
    and "ptl_user_add e name ip p = Some (u, p1)"
  shows "ptl_inv X p1"
proof -
  have a: "pe_new e (pt_live p) = Some u" "p1 = p\<lparr>pt_user := (pt_user p)(u := (ptl_user_new e)\<lparr>pu_name := name, pu_ip := ip\<rparr>),
      pt_live := u # pt_live p, pt_users := pt_users p @ [u]\<rparr>"
    using assms(5) by (auto simp: ptl_user_add_def)
  have t: "ptab_ok X p" and s: "sess_inv p" using assms(1) by (simp_all add: ptl_inv_def)
  have new: "u \<notin> set (pt_live p)" "u \<notin> set (pt_users p)" using a(1) assms(2) t by (auto simp: fresh_ptl_def ptab_ok_def)
  have ips: "\<forall>v \<in> set (pt_users p). pu_ip (pt_user p v) \<noteq> ip" using assms(3) by (auto simp: ptl_user_find_def find_None_iff)
  have "inj_on (\<lambda>v. pu_ip (pt_user p1 v)) (set (pt_users p1))"
    using t new(2) ips by (auto simp: a(2) ptab_ok_def inj_on_def)
  moreover have "\<forall>v \<in> set (pt_users p1) - X. user_ok (pt_user p1 v)" using t user_new_ok new(2) by (auto simp: a(2) ptab_ok_def)
  ultimately have "ptab_ok X p1" using t new assms(4) by (auto simp: a(2) ptab_ok_def)
  moreover have "sess_inv p1" using s by (simp add: a(2) sess_inv_def)
  ultimately show ?thesis by (simp add: ptl_inv_def)
qed

subsection \<open>The session and the answers\<close>

lemma inv_sess:
  assumes "ptl_inv X p" and "pt_sess p = Some t" and "s_to t' = s_to t" and "timeout_cb t' = timeout_cb t"
  shows "ptl_inv X (p\<lparr>pt_sess := Some t'\<rparr>)"
  using assms by (auto simp: ptl_inv_def ptab_ok_def sess_inv_def sess_timed_def)

lemma inv_sess_upd:
  assumes "ptl_inv X p" and "pt_sess_upd f p = Some p'" and "\<And>t. s_to (f t) = s_to t \<and> timeout_cb (f t) = timeout_cb t"
  shows "ptl_inv X p'"
  using assms(2) inv_sess [OF assms(1)] assms(3) by (auto simp: pt_sess_upd_def)

lemma sent_ok: "user_ok (ptl_user_sent e bytes x)" "pu_ip (ptl_user_sent e bytes x) = pu_ip x"
  by (simp_all add: user_ok_def ptl_user_sent_def PORTAL_RETRY_TIMES_def)

lemma event_set_timer [simp]: "s_to (sess_event_set t f c) = s_to t" "timeout_cb (sess_event_set t f c) = timeout_cb t"
  by (simp_all add: sess_event_set_def)

text \<open>The answer to a request leaves its user with a timer, or without a session no user.\<close>

lemma ack_ok [pok_rules]:
  assumes "ptl_inv (X \<union> set_option user) p"
  shows "pok X (ptl_evt_ack e user auth attr p)"
proof (cases "pt_sess p")
  case None
  then show ?thesis using assms inv_destroy
    by (cases user) (auto simp: ptl_evt_ack_def pok_def bind_eq_Some_conv)
next
  case (Some t)
  have "ptl_inv X p'" if r: "ptl_evt_ack e user auth attr p = Some (r, p')" for r p'
  proof -
    obtain b2 p1 bytes where b2: "p' = p1\<lparr>pt_sess := Some (sess_event_set (t\<lparr>buf_out := b2\<rparr>) EMS_EVT_WRITE PTL_EVT_CB)\<rparr>"
      and p1: "(case user of None \<Rightarrow> Some p | Some u \<Rightarrow> pu_upd u (ptl_user_sent e bytes) p) = Some p1"
      using r Some by (auto simp: ptl_evt_ack_def Let_def bind_eq_Some_conv)
    have "ptl_inv X p1"
    proof (cases user)
      case None
      then show ?thesis using p1 assms by simp
    next
      case (Some u)
      then have "pu_upd u (ptl_user_sent e bytes) p = Some p1" and "ptl_inv (insert u X) p" using p1 assms by simp_all
      then show ?thesis by (intro inv_upd [of "insert u X" p u "ptl_user_sent e bytes" p1 X]) (auto simp: sent_ok)
    qed
    moreover have "pt_sess p1 = Some t" using p1 Some by (cases user) (auto dest: upd_eq)
    ultimately show ?thesis unfolding b2 by (intro inv_sess) auto
  qed
  then show ?thesis by (simp add: pok_def)
qed

subsection \<open>Requests of the server\<close>

lemma ack_noneI: "ptl_inv X p \<Longrightarrow> pok X (ptl_evt_ack e None auth attr p)"
  by (rule ack_ok) simp

lemma ack_someI: "ptl_inv {u} p \<Longrightarrow> pok {} (ptl_evt_ack e (Some u) auth attr p)"
  by (rule ack_ok) simp

lemma auth_fail_ok: "ptl_inv (set_option user) p \<Longrightarrow> pok {} (req_auth_fail e user auth p)"
  unfolding req_auth_fail_def
  by (rule pok_bind, rule ack_ok, cases user) (auto intro: inv_upd [where Y = "{_}"])

lemma auth_fail_none: "ptl_inv {} p \<Longrightarrow> pok {} (req_auth_fail e None auth p)"
  by (rule auth_fail_ok) simp

lemma challenge_fail_ok: "ptl_inv {} p \<Longrightarrow> pok {} (req_challenge_fail e user auth p)"
  unfolding req_challenge_fail_def
  by (rule pok_bind, rule ack_ok, cases user) (auto intro: inv_upd [where Y = "{_}"])

text \<open>A user that is being logged in waits for the RADIUS client, not for the server.\<close>

lemma login_user_ok: "user_ok x \<Longrightarrow> user_ok (x\<lparr>pu_flg := f, pu_st := u_req_auth, pu_serial := s, pu_reqid := r, pu_auth_ty := a\<rparr>)"
  by (simp add: user_ok_def user_waits_def)

lemma login_ok: "ptl_inv {} p \<Longrightarrow> pok {} (req_auth_login e u auth attr p)"
  unfolding req_auth_login_def Let_def
  apply (rule pok_upd_keep, assumption, simp, erule login_user_ok)
  apply (rule pok_option)
   apply (rule auth_fail_ok, erule inv_mono, simp)
  apply (rule pok_upd_keep, assumption, simp, simp add: user_ok_def user_waits_def)
  apply (rule pok_bind, rule pok_prod, rule pok_basic)
   apply (rule auth_fail_ok, simp, erule inv_mono, simp)
  apply (rule pok_upd_keep [where X = "{}"], simp, simp, simp add: user_ok_def user_waits_def)
  apply (rule pok_bind)+
  apply (rule pok_basic, simp)
  done

lemma req_auth_ok:
  assumes "ptl_inv {} p" and "fresh_ptl e" and "pt_sess p \<noteq> None"
  shows "pok {} (ptl_evt_req_auth e auth attr p)"
proof (cases "ptl_user_find p (hdr_ip auth)")
  case None
  have "ptl_inv {} p1" if "ptl_user_add e name (hdr_ip auth) p = Some (u, p1)" for name u p1
    using inv_add [OF assms(1,2) None assms(3) that] .
  then show ?thesis unfolding ptl_evt_req_auth_def None option.case
    by (intro pok_option pok_prod) (auto intro: auth_fail_none login_ok assms(1))
next
  case (Some u)
  have serial: "user_ok (x\<lparr>pu_serial := s\<rparr>) = user_ok x" for x s by (simp add: user_ok_def user_waits_def)
  have "pok {} (Option.bind (if err = 2 then pu_upd u (\<lambda>x. x\<lparr>pu_serial := h_serial auth\<rparr>) p else Some p) (req_auth_refuse e err auth))" for err
    using assms(1) by (auto simp: req_auth_refuse_def serial intro!: pok_upd_keep ack_noneI)
  then show ?thesis unfolding ptl_evt_req_auth_def Some option.case
    by - (rule pok_bind, rule pok_option, auto intro: login_ok assms(1))
qed

lemma req_logout_ok: "ptl_inv {} p \<Longrightarrow> pok {} (ptl_evt_req_logout e auth p)"
  unfolding ptl_evt_req_logout_def Let_def
proof (rule pok_bind)
  fix p1
  let ?u = "ptl_user_find p (hdr_ip auth)"
  assume a: "ptl_inv {} p" and "(case ?u of None \<Rightarrow> Some p
    | Some u \<Rightarrow> do {
        p2 \<leftarrow> pu_upd u (\<lambda>x. x\<lparr>pu_st := u_ack_logout, pu_serial := h_serial (hdr_reply auth ty_ack_logout 0),
          pu_reqid := h_reqid (hdr_reply auth ty_ack_logout 0), pu_flg := ems_flag_unset (pu_flg x) EMS_FLG_ONLINE\<rparr>) p;
        ptl_logout u p2 }) = Some p1"
  then have "ptl_inv (set_option ?u) p1"
    by (cases ?u) (auto simp: bind_eq_Some_conv intro!: inv_logout [where p' = p1] elim!: inv_upd [where X = "{}"])
  then show "pok {} (ptl_evt_ack e ?u (hdr_reply auth ty_ack_logout 0) None p1)" by (intro ack_ok) simp
qed

lemma aff_ack_ok: "ptl_inv {} p \<Longrightarrow> pok {} (ptl_evt_aff_ack_auth auth p)"
  unfolding ptl_evt_aff_ack_auth_def
proof (intro pok_option pok_bind pok_basic)
  fix u assume a: "ptl_inv {} p"
  show "pok {} (map_option (Pair EMS_OK) (pu_upd u (\<lambda>x. x\<lparr>pu_flg := ems_flag_set (pu_flg x) EMS_FLG_ONLINE, pu_st := u_aff_ack_auth,
      pu_to := None\<rparr>) p))"
    using a by (auto simp: pok_def user_ok_def user_waits_def intro!: inv_upd [of "{}" p u _ _ "{}"])
qed

lemma challenge_new_ok: "ptl_inv {} p \<Longrightarrow> pok {} (req_challenge_new e u auth p)"
  unfolding req_challenge_new_def
  by (rule pok_bind, rule pok_prod, rule pok_upd [where Y = "{u}"], assumption, simp, simp, simp, rule pok_bind,
      rule pok_res, rule ack_someI, assumption, rule pok_basic)

lemma req_challenge_ok:
  assumes "ptl_inv {} p" and "fresh_ptl e" and "pt_sess p \<noteq> None"
  shows "pok {} (ptl_evt_req_challenge e auth attr p)"
proof (cases "ptl_user_find p (hdr_ip auth)")
  case None
  have "ptl_inv {} p1" if "ptl_user_add e name (hdr_ip auth) p = Some (u, p1)" for name u p1
    using inv_add [OF assms(1,2) None assms(3) that] .
  then show ?thesis unfolding ptl_evt_req_challenge_def None option.case
    by (intro pok_option pok_prod) (auto intro: challenge_fail_ok challenge_new_ok assms(1))
next
  case (Some u)
  then show ?thesis by (simp add: ptl_evt_req_challenge_def challenge_fail_ok assms(1))
qed

lemma process_evt_ok:
  assumes "ptl_inv {} p" and "fresh_ptl e" and "pt_sess p \<noteq> None"
  shows "pok {} (ptl_process_evt e auth attr p)"
  unfolding ptl_process_evt_def ptl_evt_req_info_def
  by (intro pok_basic req_challenge_ok req_auth_ok req_logout_ok aff_ack_ok ack_noneI assms)

subsection \<open>Changes of the status\<close>

text \<open>
  A change of the status arms the timer of the session, whatever its state was before; so the table is
  all that has to be right.
\<close>

lemma watch_timed: "sess_timed (pt_watch e f ms t)"
  by (simp add: sess_timed_def pt_watch_def sess_timeout_set_def)

lemma tab_sess: "ptab_ok X p \<Longrightarrow> ptab_ok X (p\<lparr>pt_sess := Some t\<rparr>)"
  by (simp add: ptab_ok_def)

lemma tab_frame:
  "ptab_ok X p \<Longrightarrow> pt_users p' = pt_users p \<Longrightarrow> pt_live p' = pt_live p \<Longrightarrow> pt_user p' = pt_user p \<Longrightarrow>
    (pt_sess p \<noteq> None \<longrightarrow> pt_sess p' \<noteq> None) \<Longrightarrow> ptab_ok X p'"
  by (auto simp: ptab_ok_def)

lemma inv_running:
  assumes "ptab_ok X p" and "sess_timed t" and "pt_st p \<in> {st_reg, st_normal, st_hb, st_err}"
  shows "ptl_inv X (p\<lparr>pt_sess := Some t\<rparr>)"
  using assms by (auto simp: ptl_inv_def sess_inv_def tab_sess)

lemma err_ok:
  assumes "ptab_ok {} p"
  shows "pok {} (ptl_to_err e p)"
proof -
  have t: "ptab_ok {} (ptl_emit m (p\<lparr>pt_st := st_err\<rparr>))" for m using assms by (rule tab_frame) (simp_all add: ptl_emit_def)
  show ?thesis
  proof (cases "pt_sess p")
    case None
    then show ?thesis using t by (simp add: ptl_to_err_def portal_err_def pok_def ptl_inv_def sess_inv_def ptl_emit_def)
  next
    case (Some s)
    then show ?thesis using t
      by (auto simp: ptl_to_err_def portal_err_def pok_def Let_def ptl_emit_def sess_timeout_set_def sess_timed_def intro!: inv_running)
  qed
qed

lemma fail_ok: "ptab_ok {} p \<Longrightarrow> pok {} (ptl_fail e err p)"
  unfolding ptl_fail_def by (rule err_ok) (rule tab_frame, assumption, simp_all)

lemma reg_ok:
  assumes "ptab_ok {} p"
  shows "pok {} (ptl_status_into_reg e (p\<lparr>pt_st := st_reg\<rparr>))"
  using assms watch_timed
  by (auto simp: pok_def ptl_status_into_reg_def bind_eq_Some_conv intro!: inv_running tab_frame [OF assms] split: if_splits)

lemma normal_ok:
  assumes "ptab_ok {} p"
  shows "pok {} (ptl_status_into_normal e (p\<lparr>pt_st := st_normal\<rparr>))"
  using assms watch_timed
  by (auto simp: pok_def ptl_status_into_normal_def bind_eq_Some_conv intro!: inv_running tab_frame [OF assms])

lemma hb_ok:
  assumes "ptab_ok {} p"
  shows "pok {} (ptl_status_into_hb e (p\<lparr>pt_st := st_hb\<rparr>))"
  using assms watch_timed
  by (auto simp: pok_def ptl_status_into_hb_def bind_eq_Some_conv intro!: inv_running tab_frame [OF assms])

lemma portal_start_ok:
  assumes "ptab_ok {} p"
  shows "pok {} (portal_start e p)"
proof (cases "portal_session e p")
  case None
  then show ?thesis using err_ok [OF assms] by (auto simp: portal_start_def pok_def bind_eq_Some_conv)
next
  case (Some t)
  obtain ret t1 where c: "portal_connect e (sess_target (pt_addr p) (pt_port p) t) = (ret, t1)" by (cases "portal_connect e (sess_target (pt_addr p) (pt_port p) t)")
  have t: "ptab_ok {} (p\<lparr>pt_lasterr := 0, pt_sess := Some t1\<rparr>)" using assms by (rule tab_frame) simp_all
  then have "pok {} (ptl_fail e err (p\<lparr>pt_lasterr := 0, pt_sess := Some t1\<rparr>))" for err by (rule fail_ok)
  then show ?thesis using reg_ok [OF t] Some c by (auto simp: portal_start_def pok_def bind_eq_Some_conv Let_def split: if_splits)
qed

lemma clear_users:
  "ptl_clear_users us p = Some p' \<Longrightarrow> pt_users p = us \<Longrightarrow> distinct us \<Longrightarrow> distinct (pt_live p) \<Longrightarrow> set (pt_live p) = set us \<Longrightarrow>
    pt_users p' = [] \<and> pt_live p' = [] \<and> pt_sess p' = pt_sess p \<and> pt_st p' = pt_st p"
proof (induction us arbitrary: p)
  case (Cons u us)
  obtain x :: portal_user and p1 where x: "(if ems_flag_like (pu_flg x) EMS_FLG_ONLINE then ptl_logout u p else Some p) = Some p1"
    and r: "ptl_clear_users us (ptl_user_destroy u p1) = Some p'"
    using Cons.prems(1) unfolding ptl_clear_users.simps bind_eq_Some_conv by blast
  have p1: "pt_users p1 = u # us" "pt_live p1 = pt_live p" "pt_sess p1 = pt_sess p" "pt_st p1 = pt_st p"
    using x Cons.prems(2) by (auto simp: bind_eq_Some_conv ptl_logout_def ptl_emit_def split: if_splits)
  have "pt_users p' = [] \<and> pt_live p' = [] \<and> pt_sess p' = pt_sess (ptl_user_destroy u p1) \<and> pt_st p' = pt_st (ptl_user_destroy u p1)"
    using Cons.prems p1 by (intro Cons.IH [OF r]) (auto simp: ptl_user_destroy_def)
  then show ?case using p1 by (simp add: ptl_user_destroy_def)
qed simp

lemma stopped_ok:
  assumes "ptab_ok {} p" and "pt_st p = st_stopped"
  shows "pok {} (portal_stopped e p)"
proof -
  have "ptl_inv {} p'" if r: "portal_stopped e p = Some (r, p')" for r p'
  proof -
    obtain p2 where p2: "ptl_clear_users (pt_users p2) p2 = Some p'" "pt_users p2 = pt_users p" "pt_live p2 = pt_live p"
      "pt_sess p2 = None" "pt_st p2 = st_stopped"
      using r assms(2) by (auto simp: portal_stopped_def Let_def ptl_clear_all_users_def ptl_emit_def split: if_splits)
    have "pt_users p' = [] \<and> pt_live p' = [] \<and> pt_sess p' = pt_sess p2 \<and> pt_st p' = pt_st p2"
      using assms(1) p2 by (intro clear_users [OF p2(1)]) (auto simp: ptab_ok_def)
    then show ?thesis using p2(4,5) by (simp add: ptl_inv_def ptab_ok_def sess_inv_def)
  qed
  then show ?thesis by (simp add: pok_def)
qed

lemma change_ok:
  assumes "ptab_ok {} p" and "st \<in> {st_start, st_stopped, st_err, st_reg, st_normal, st_hb}"
  shows "pok {} (portal_change_status e st p)"
proof -
  have t: "ptab_ok {} (p\<lparr>pt_st := st\<rparr>)" using assms(1) by (rule tab_frame) simp_all
  then show ?thesis using assms portal_start_ok [OF t] stopped_ok [OF t] reg_ok normal_ok hb_ok err_ok [OF assms(1), of e]
    by (auto simp: portal_change_status_def Let_def ptl_to_err_def)
qed

lemma inv_tab: "ptl_inv X p \<Longrightarrow> ptab_ok X p"
  by (simp add: ptl_inv_def)

subsection \<open>Users, by other modules and timers\<close>

lemma ntf_ok:
  assumes "ptl_inv {} p"
  shows "pok {} (ptl_user_ntf_logout e user p)"
proof (cases user)
  case (Some u)
  show ?thesis unfolding Some ptl_user_ntf_logout_def option.case
    by (rule pok_bind, rule pok_basic, rule pok_basic, rule assms, rule pok_upd [where Y = "{u}"], rule assms, simp, simp, simp,
        rule pok_bind, rule pok_prod, rule pok_res, rule ack_someI, assumption, rule pok_basic)
qed (use assms in \<open>simp add: ptl_user_ntf_logout_def pok_basic\<close>)

lemma auth_rsp_ok:
  assumes "ptl_inv {} p"
  shows "pok {} (ptl_user_auth_rsp e user err p)"
proof (cases user)
  case (Some u)
  show ?thesis unfolding Some ptl_user_auth_rsp_def option.case
    by (rule pok_bind, rule pok_basic, rule pok_basic, rule assms, rule pok_upd [where Y = "{u}"], rule assms, simp, simp, simp,
        rule ack_someI)
qed (use assms in \<open>simp add: ptl_user_auth_rsp_def pok_basic\<close>)

text \<open>The timer of a user ran out: it is not pending any more when its callback runs.\<close>

lemma gives_up_ok:
  assumes "ptl_inv {u} p" and "user_gives_up e u p = Some p'" and "\<And>x. pu_get u p = Some x \<Longrightarrow> pu_to x = None"
  shows "ptl_inv {} p'"
proof -
  obtain x where x: "pu_get u p = Some x" using assms(2) by (auto simp: user_gives_up_def bind_eq_Some_conv)
  have u: "u \<in> set (pt_live p)" "x = pt_user p u" using pu_get_in [OF x] by simp_all
  consider (out) p1 r where "ptl_logout u p = Some p1" "ptl_user_ntf_logout e (Some u) p1 = Some (r, p')" "pu_st x = u_ack_auth"
    | (gone) "p' = ptl_user_destroy u p" | (same) "p' = p" "\<not> user_waits x"
    using assms(2) x by (cases "pu_st x") (auto simp: user_gives_up_def bind_eq_Some_conv user_waits_def split: if_splits)
  then show ?thesis
  proof cases
    case out
    have i: "ptl_inv {u} p1" using inv_logout [OF assms(1) out(1)] .
    have g: "pu_get u p1 = Some x" using out(1) x by (auto simp: ptl_logout_def bind_eq_Some_conv ptl_emit_def pu_get_def split: if_splits)
    have "pok {} (ptl_user_ntf_logout e (Some u) p1)"
      unfolding ptl_user_ntf_logout_def option.case g bind.bind_lunit using out(3)
      by - (rule pok_basic, simp, rule pok_upd [OF i, where Y = "{u}"], simp, simp, simp, rule pok_bind, rule pok_prod,
        rule pok_res, rule ack_someI, assumption, rule pok_basic)
    then show ?thesis using out(2) by (rule pokD)
  next
    case gone
    then show ?thesis using assms(1) by (simp add: inv_destroy)
  next
    case same
    have "user_ok (pt_user p u)" using same(2) assms(3) [OF x] u by (simp add: user_ok_def)
    then show ?thesis using assms(1) same(1) by (auto simp: ptl_inv_def ptab_ok_def)
  qed
qed

lemma user_timeout_ok:
  assumes "ptl_inv {} p" and "pu_to (pt_user p u) \<noteq> None"
    and "pu_upd u (\<lambda>x. x\<lparr>pu_to := None\<rparr>) p = Some p0" and "user_timeout_cb e u p0 = Some p'"
  shows "ptl_inv {} p'"
proof -
  let ?x = "pt_user p u"
  have u: "u \<in> set (pt_live p)" and p0: "p0 = p\<lparr>pt_user := (pt_user p)(u := ?x\<lparr>pu_to := None\<rparr>)\<rparr>" using upd_eq [OF assms(3)] by simp_all
  have "user_ok ?x" using assms(1) u by (auto simp: ptl_inv_def ptab_ok_def)
  then have rt: "pu_retry_times ?x \<in> {1..3}" "pu_retry_timeout ?x = PORTAL_RETRY_TIMEOUT" using assms(2) by (simp_all add: user_ok_def)
  have i0: "ptl_inv {u} p0" using inv_upd [OF assms(1,3), of "{u}"] by simp
  obtain p1 where p1: "pu_upd u (\<lambda>x. x\<lparr>pu_retry_times := pu_retry_times x - 1\<rparr>) p0 = Some p1"
    using assms(4) by (auto simp: user_timeout_cb_def bind_eq_Some_conv)
  have i1: "ptl_inv {u} p1" using inv_upd [OF i0 p1, of "{u}"] by simp
  have x1: "pt_user p1 u = ?x\<lparr>pu_to := None, pu_retry_times := pu_retry_times ?x - 1\<rparr>" using upd_eq [OF p1] by (simp add: p0)
  have g1: "pu_get u p1 = Some (pt_user p1 u)" using upd_eq [OF p1] u by (simp add: p0 pu_get_def)
  show ?thesis
  proof (cases "pu_retry_times ?x - 1 > 0")
    case True
    then obtain p2 f where p2: "pt_sess_upd f p1 = Some p2" "\<And>t. s_to (f t) = s_to t \<and> timeout_cb (f t) = timeout_cb t"
      and p': "pu_upd u (\<lambda>x. x\<lparr>pu_to := Some (timeout_deadline (pe_now e) (pu_retry_timeout x * 1000))\<rparr>) p2 = Some p'"
      using assms(4) p1 g1 x1 by (auto simp: user_timeout_cb_def bind_eq_Some_conv Let_def ptl_refresh_def)
    have i2: "ptl_inv {u} p2" using inv_sess_upd [OF i1 p2] .
    have "pt_user p2 u = pt_user p1 u" using p2(1) by (auto simp: pt_sess_upd_def)
    then have "user_ok ((pt_user p2 u)\<lparr>pu_to := Some (timeout_deadline (pe_now e) (pu_retry_timeout (pt_user p2 u) * 1000))\<rparr>)"
      using rt True by (simp add: x1 user_ok_def)
    then show ?thesis using inv_upd [OF i2 p', of "{}"] by simp
  next
    case False
    then have "user_gives_up e u p1 = Some p'" using assms(4) p1 g1 x1 by (simp add: user_timeout_cb_def)
    then show ?thesis using gives_up_ok [OF i1] g1 x1 by simp
  qed
qed

subsection \<open>Receiving: the contract of a handler of answers\<close>

lemma pok_consume: "ptl_inv {} p \<Longrightarrow> pok {} (Option.bind (ptl_consume n p) (\<lambda>p2. Some (r, p2)))"
  unfolding ptl_consume_def by (rule pok_bind, rule pok_basic, erule inv_sess_upd, assumption, simp)

lemma pok_process_evt: "pt_sess p = Some t \<Longrightarrow> ptl_inv {} p \<Longrightarrow> fresh_ptl e \<Longrightarrow> pok {} (ptl_process_evt e auth attr p)"
  by (simp add: process_evt_ok)

text \<open>A step of the socket, with what was sent.\<close>

lemma inv_io:
  assumes "ptl_inv {} p" and "pt_sess p = Some t" and "s_to t' = s_to t" and "timeout_cb t' = timeout_cb t"
  shows "ptl_inv {} ((if b then p else ptl_emit m p)\<lparr>pt_sess := Some t'\<rparr>)"
  using inv_sess [of "{}" "ptl_emit m p" t t'] inv_sess [OF assms] assms by (simp add: ptl_emit_def [of m p] inv_emit [unfolded ptl_emit_def])

lemma send_ok: "ptl_inv {} p \<Longrightarrow> pok {} (ptl_send_msg rets p)"
  unfolding ptl_send_msg_def Let_def
  by (rule pok_bind, rule pok_bind, rule pok_prod, rule pok_prod, rule pok_prod)
    (rule pok_basic | (erule inv_io, assumption) | simp)+

locale ptl_contract =
  fixes h :: ptl_recv_cb
  assumes handler: "ptl_inv {} p \<Longrightarrow> pok {} (h vp p)"
begin

lemma process_ok:
  assumes "ptl_inv {} p" and "fresh_ptl e"
  shows "pok {} (ptl_process_rsp e h p)"
  unfolding ptl_process_rsp_def Let_def
  by (rule pok_bind)
    (rule pok_basic assms(1) pok_consume | assumption | (rule pok_res, rule pok_process_evt, assumption, rule assms(1), rule assms(2))
      | (rule pok_res, rule handler) | rule pok_bind pok_prod)+

lemma loop_ok:
  assumes "ptl_inv {} p" and "fresh_ptl e"
  shows "pok {} (process_loop e h p)"
proof -
  have "ptl_inv {} p \<longrightarrow> fresh_ptl e \<longrightarrow> h' = h \<longrightarrow> ptl_inv {} (snd y)" if "process_loop e h' p = Some y" for e h' p y
  proof (rule process_loop.raw_induct [where P = "\<lambda>e h' p y. ptl_inv {} p \<longrightarrow> fresh_ptl e \<longrightarrow> h' = h \<longrightarrow> ptl_inv {} (snd y)", OF _ that], intro impI)
    fix f :: "ptl_env \<Rightarrow> ptl_recv_cb \<Rightarrow> ems_portal \<Rightarrow> (int \<times> ems_portal) option" and e h' p y
    assume IH: "\<And>e h' p y. f e h' p = Some y \<Longrightarrow> ptl_inv {} p \<longrightarrow> fresh_ptl e \<longrightarrow> h' = h \<longrightarrow> ptl_inv {} (snd y)"
      and b: "Option.bind (ptl_process_rsp e h' p) (\<lambda>(ret, p1).
        if ret = EMS_BUFFER_INSUFFICIENT \<or> ret = EMS_ERR then Some (EMS_ERR, p1)
        else if ret = EMS_CONTINUE then Some (EMS_OK, p1) else f e h' p1) = Some y"
      and a: "ptl_inv {} p" "fresh_ptl e" "h' = h"
    obtain ret p1 where p: "ptl_process_rsp e h' p = Some (ret, p1)" using b by (auto simp: bind_eq_Some_conv)
    have "ptl_inv {} p1" using pokD [OF process_ok [OF a(1,2)]] p a(3) by simp
    then show "ptl_inv {} (snd y)" using IH b p a(2,3) by (auto split: if_splits)
  qed
  then show ?thesis using assms by (fastforce simp: pok_def)
qed

lemma recv_ok: "ptl_inv {} p \<Longrightarrow> fresh_ptl e \<Longrightarrow> pok {} (ptl_recv_msg e h rss p)"
proof (induction rss arbitrary: p)
  case (Cons rs rss)
  show ?case unfolding ptl_recv_msg.simps Let_def
    by (rule pok_bind, rule pok_bind, rule pok_prod, rule pok_prod)
      (rule pok_basic Cons.IH Cons.prems(2) | assumption | (rule inv_sess, rule Cons.prems(1), assumption, simp, simp)
        | (rule pok_res, rule process_ok) | (rule pok_res, rule loop_ok))+
qed (simp add: pok_def)

lemma io_ok: "ptl_inv {} p \<Longrightarrow> fresh_ptl e \<Longrightarrow> pok {} (ptl_io e h flg rss rets p)"
  unfolding ptl_io_def
  by (rule pok_basic | assumption | (rule pok_res, rule recv_ok) | (rule pok_res, rule send_ok) | (rule fail_ok, erule inv_tab))+

end

end
