(* ===== verification/Ems_Portal_Flow.thy ===== *)
theory Ems_Portal_Flow
  imports Ems_Portal_Inv
begin

text \<open>
  The portal module as a system of steps: every handler of answers meets the contract of the receive
  path, events and timers keep the invariant, and what follows for every state that can be reached.
\<close>

subsection \<open>The handlers of answers\<close>

lemma tab_emit: "ptab_ok {} p \<Longrightarrow> ptab_ok {} (ptl_emit m p)"
  by (simp add: ptl_emit_def ptab_ok_def)

lemma reg_rsp_ok: "ptl_inv {} p \<Longrightarrow> pok {} (ptl_reg_rsp e vp p)"
  unfolding ptl_reg_rsp_def Let_def
  by (rule pok_basic, rule change_ok) (auto intro!: tab_emit fail_ok dest: inv_tab)

lemma hb_rsp_ok: "ptl_inv {} p \<Longrightarrow> pok {} (ptl_hb_rsp e vp p)"
  unfolding ptl_hb_rsp_def by (rule pok_basic, rule change_ok) (auto intro!: fail_ok dest: inv_tab)

interpretation reg_contract: ptl_contract "ptl_reg_rsp e" for e
  by unfold_locales (rule reg_rsp_ok)

interpretation normal_contract: ptl_contract ptl_normal_rsp
  by unfold_locales (simp add: ptl_normal_rsp_def pok_basic)

interpretation hb_contract: ptl_contract "ptl_hb_rsp e" for e
  by unfold_locales (rule hb_rsp_ok)

subsection \<open>Events and timers\<close>

lemma evt_run_ok:
  assumes "ptl_inv {} p" and "fresh_ptl e"
  shows "pok {} (ptl_evt_run e flg rss rets p)"
proof -
  have e: "portal_err e p = ptl_to_err e p" if st: "pt_st p = st_err"
  proof -
    have "p\<lparr>pt_st := st_err\<rparr> = p" using st by (intro ems_portal.equality) simp_all
    then show ?thesis by (simp add: ptl_to_err_def)
  qed
  show ?thesis using assms portal_start_ok [OF inv_tab [OF assms(1)]] stopped_ok [OF inv_tab [OF assms(1)]]
      err_ok [OF inv_tab [OF assms(1)]] e
    by (auto simp: ptl_evt_run_def portal_reg_def portal_normal_def portal_hb_def pok_basic
        intro: reg_contract.io_ok normal_contract.io_ok hb_contract.io_ok split: ems_status.splits)
qed

lemma ptl_evt_cb_inv:
  assumes "ptl_inv {} p" and "fresh_ptl e" and "ptl_evt_cb e err flg rss rets p = Some p'"
  shows "ptl_inv {} p'"
  using assms evt_run_ok [OF assms(1,2), of flg rss rets] fail_ok [OF inv_tab [OF assms(1)], of e ERR_PORTAL_NETWORK]
  by (auto simp: ptl_evt_cb_def pok_def split: if_splits)

lemma retry_ok:
  assumes "ptab_ok {} p" and "pt_st p \<in> {st_reg, st_hb}"
  shows "pok {} (portal_retry_send e p)"
proof (cases "pt_retry_times p - 1 = 0")
  case True
  have "ptab_ok {} (p\<lparr>pt_retry_times := pt_retry_times p - 1\<rparr>)" using assms(1) by (rule tab_frame) simp_all
  then show ?thesis using True fail_ok by (simp add: portal_retry_send_def Let_def)
next
  case False
  have "ptab_ok {} (p\<lparr>pt_retry_times := pt_retry_times p - 1\<rparr>)" using assms(1) by (rule tab_frame) simp_all
  then show ?thesis using False assms(2) watch_timed
    by (auto simp: portal_retry_send_def Let_def pok_def pt_sess_upd_def intro!: inv_running)
qed

lemma timeout_cb_inv:
  assumes "ptl_inv {} p" and "pt_sess p = Some t" and "ptl_timeout_cb e (p\<lparr>pt_sess := Some (sess_timeout_cancel t)\<rparr>) = Some p'"
  shows "ptl_inv {} p'"
proof -
  let ?p = "p\<lparr>pt_sess := Some (sess_timeout_cancel t)\<rparr>"
  have t: "ptab_ok {} ?p" using inv_tab [OF assms(1)] by (rule tab_sess)
  have n: "ptab_ok {} (?p\<lparr>pt_reg := pt_reg p - 1\<rparr>)" using t by (rule tab_frame) simp_all
  have st: "pt_st p \<in> {st_reg, st_normal, st_hb, st_err}" using assms(1,2) by (auto simp: ptl_inv_def sess_inv_def)
  have "pok {} (ptl_timeout_run e ?p)"
    using st retry_ok [OF t] change_ok [OF n] change_ok [OF t]
    by (auto simp: ptl_timeout_run_def portal_to_normal_def Let_def)
  then show ?thesis using assms(3) by (auto simp: ptl_timeout_cb_def pok_def)
qed

subsection \<open>The module as a system of steps\<close>

definition ptl_mod_inv :: "ptl_mod \<Rightarrow> bool" where
  "ptl_mod_inv m \<longleftrightarrow> (\<forall>p. pm_ctx m = Some p \<longrightarrow> ptl_inv {} p)"

definition ptl_initial :: "ptl_mod \<Rightarrow> bool" where
  "ptl_initial m \<longleftrightarrow> (\<exists>e mem. pt_live mem = [] \<and> m = snd (portal_init e mem \<lparr>pm_run = False, pm_ctx = None\<rparr>))"

text \<open>
  A step is a message, an event of the session, its timer or the timer of a user that ran out (a timer is
  not pending any more when its callback runs), or the end of the module.
\<close>

inductive ptl_step :: "ptl_mod \<Rightarrow> ptl_mod \<Rightarrow> bool" where
  message: "fresh_ptl e \<Longrightarrow> portal_process e evt root m = Some (ret, root', m') \<Longrightarrow> ptl_step m m'"
| event: "pm_ctx m = Some p \<Longrightarrow> fresh_ptl e \<Longrightarrow> pt_sess p = Some t \<Longrightarrow> evt_cb t = Some PTL_EVT_CB \<Longrightarrow> s_evt t \<noteq> None \<Longrightarrow>
    ptl_evt_cb e err flg rss rets p = Some p' \<Longrightarrow> ptl_step m (m\<lparr>pm_ctx := Some p'\<rparr>)"
| timer: "pm_ctx m = Some p \<Longrightarrow> pt_sess p = Some t \<Longrightarrow> s_to t \<noteq> None \<Longrightarrow> timeout_cb t = Some PTL_TIMEOUT_CB \<Longrightarrow>
    ptl_timeout_cb e (p\<lparr>pt_sess := Some (sess_timeout_cancel t)\<rparr>) = Some p' \<Longrightarrow> ptl_step m (m\<lparr>pm_ctx := Some p'\<rparr>)"
| user_timer: "pm_ctx m = Some p \<Longrightarrow> pu_to (pt_user p u) \<noteq> None \<Longrightarrow> pu_upd u (\<lambda>x. x\<lparr>pu_to := None\<rparr>) p = Some p0 \<Longrightarrow>
    user_timeout_cb e u p0 = Some p' \<Longrightarrow> ptl_step m (m\<lparr>pm_ctx := Some p'\<rparr>)"
| uninit: "portal_uninit m = (ret, left, m') \<Longrightarrow> ptl_step m m'"

lemma ptl_start_ok:
  assumes "ptl_inv {} p"
  shows "pok {} (ptl_start e p)"
proof -
  have "ptab_ok {} (if b then p\<lparr>pt_addr := a, pt_port := po, reg_period := r, hb_period := h, pt_ready := True\<rparr>
    else p\<lparr>pt_addr := a, pt_port := po, reg_period := r, hb_period := h\<rparr>)" for b a po r h
    using inv_tab [OF assms] by (rule tab_frame) auto
  from change_ok [OF this, of st_start] show ?thesis using assms
    by (auto simp: ptl_start_def Let_def pok_basic)
qed

lemma ptl_stop_ok: "ptl_inv {} p \<Longrightarrow> pok {} (ptl_stop e p)"
  unfolding ptl_stop_def by (rule change_ok) (auto intro: tab_emit dest: inv_tab)

lemma rules_update_ok: "ptl_inv {} p \<Longrightarrow> pok {} (portal_rules_update e run p)"
  unfolding portal_rules_update_def Let_def
  by (rule pok_basic | assumption | (rule pok_res, rule ptl_stop_ok) | (rule pok_res, rule ptl_start_ok))+

lemma portal_command_ok: "ptl_inv {} p \<Longrightarrow> pok {} (portal_command e run evt root p)"
  unfolding portal_command_def portal_app_auth_rsp_def portal_app_logout_def
  by (auto intro!: pok_basic rules_update_ok auth_rsp_ok ntf_ok simp: portal_evt_fw_reload_def split: option.split)

lemma portal_run_inv:
  assumes "ptl_mod_inv m" and "portal_run e run m = Some (r, m')"
  shows "ptl_mod_inv m'"
proof -
  obtain p where p: "pm_ctx m = Some p" using assms(2) by (auto simp: portal_run_def bind_eq_Some_conv)
  then have i: "ptl_inv {} p" using assms(1) by (simp add: ptl_mod_inv_def)
  have "m' = m \<or> (\<exists>r1 p1. (ptl_start e p = Some (r1, p1) \<or> ptl_stop e p = Some (r1, p1)) \<and> pm_ctx m' = Some p1)"
    using assms(2) p by (auto simp: portal_run_def bind_eq_Some_conv split: if_splits)
  then show ?thesis using assms(1) pokD [OF ptl_start_ok [OF i]] pokD [OF ptl_stop_ok [OF i]] by (auto simp: ptl_mod_inv_def)
qed

lemma portal_process_inv:
  assumes "ptl_mod_inv m" and "portal_process e evt root m = Some (ret, root', m')"
  shows "ptl_mod_inv m'"
proof -
  have "m' = m \<or> (\<exists>run r. portal_run e run m = Some (r, m')) \<or>
    (\<exists>p r p'. pm_ctx m = Some p \<and> m' = m\<lparr>pm_ctx := Some p'\<rparr> \<and> portal_command e (pm_run m) evt root p = Some (r, p'))"
    using assms(2) by (simp add: portal_process_def bind_eq_Some_conv split: if_splits) blast+
  then show ?thesis
  proof (elim disjE exE conjE)
    fix p r p' assume "pm_ctx m = Some p" "m' = m\<lparr>pm_ctx := Some p'\<rparr>" "portal_command e (pm_run m) evt root p = Some (r, p')"
    then show ?thesis using assms(1) portal_command_ok [of p e "pm_run m" evt root] by (auto simp: ptl_mod_inv_def pok_def)
  qed (use assms(1) portal_run_inv in auto)
qed

lemma ptl_initial_inv: "ptl_initial m \<Longrightarrow> ptl_mod_inv m"
  by (auto simp: ptl_initial_def ptl_mod_inv_def portal_init_def ptl_inv_def ptab_ok_def sess_inv_def split: if_splits)

lemma ptl_step_inv: "ptl_mod_inv m \<Longrightarrow> ptl_step m m' \<Longrightarrow> ptl_mod_inv m'"
proof (erule ptl_step.cases, goal_cases)
  case (1 e evt root m1 ret root' m1')
  then show ?case using portal_process_inv by blast
next
  case (2 m1 p e t err flg rss rets p')
  then show ?case using ptl_evt_cb_inv [of p e err flg rss rets p'] by (simp add: ptl_mod_inv_def)
next
  case (3 m1 p t e p')
  then show ?case using timeout_cb_inv [of p t e p'] by (simp add: ptl_mod_inv_def)
next
  case (4 m1 p u p0 e p')
  then show ?case using user_timeout_ok [of p u p0 e p'] by (simp add: ptl_mod_inv_def)
next
  case (5 m1 ret left m1')
  then show ?case by (auto simp: portal_uninit_def ptl_mod_inv_def)
qed

interpretation ptls: step_system ptl_initial ptl_step ptl_mod_inv
  by unfold_locales (erule ptl_initial_inv, erule ptl_step_inv, assumption)

end
