(* ===== verification/Ems_Portal_Addr.thy ===== *)
theory Ems_Portal_Addr
  imports Ems_Portal_Flow
begin

text \<open>
  The texts of addresses that the portal exchanges with the RADIUS client: an IP address written by
  \<open>inet_ntoa\<close> is read back by \<open>inet_addr\<close>, and a hardware address becomes pairs of digits with colons.
\<close>

subsection \<open>Decimal numbers\<close>

lemma digits_snoc: "\<forall>c \<in> set s. digit_val c < b \<Longrightarrow> digit_val c < b \<Longrightarrow> digits_val b a (s @ [c]) = digits_val b a s * b + digit_val c"
  by (induction s arbitrary: a) auto

lemma digit_val_digit: "n < 10 \<Longrightarrow> digit_val (char_of (48 + n)) = n"
  by (simp add: digit_val_def Let_def)

lemma dec_string_val: "(\<forall>c \<in> set (dec_string n). digit_val c < 10) \<and> digits_val 10 0 (dec_string n) = n"
proof (induction n rule: dec_string.induct)
  case (1 n)
  show ?case
  proof (cases "n < 10")
    case True
    then show ?thesis by (simp add: dec_string.simps [of n] digit_val_digit)
  next
    case False
    then show ?thesis using 1 digits_snoc [of "dec_string (n div 10)" 10 "char_of (48 + n mod 10)" 0] digit_val_digit [of "n mod 10"]
      by (simp add: dec_string.simps [of n])
  qed
qed

lemma dec_string_hd: "0 < n \<Longrightarrow> dec_string n \<noteq> [] \<and> hd (dec_string n) \<noteq> CHR ''0''"
proof (induction n rule: dec_string.induct)
  case (1 n)
  show ?case
  proof (cases "n < 10")
    case True
    have "char_of (48 + n) \<noteq> CHR ''0''"
    proof
      assume "char_of (48 + n) = CHR ''0''"
      then have "uchr (char_of (48 + n)) = uchr CHR ''0''" by (rule arg_cong)
      then show False using True 1(2) by (simp add: uchr_def)
    qed
    then show ?thesis using True by (simp add: dec_string.simps [of n])
  next
    case False
    then show ?thesis using 1(1) by (simp add: dec_string.simps [of n])
  qed
qed

lemma dec_string_0: "dec_string 0 = ''0''"
proof -
  have "char_of (uchr CHR ''0'') = CHR ''0''" by (rule char_of_uchr)
  then show ?thesis by (simp add: dec_string.simps [of 0] uchr_def)
qed

text \<open>The end of a part: the end of the text or a dot.\<close>

lemma take_digits:
  assumes "r = [] \<or> hd r = CHR ''.''"
  shows "takeWhile (\<lambda>c. digit_val c < 10) (dec_string n @ r) = dec_string n" and "dropWhile (\<lambda>c. digit_val c < 10) (dec_string n @ r) = r"
  using dec_string_val [of n] assms by (cases r; simp add: digit_val_def uchr_def)+

lemma inet_part_dec:
  assumes "r = [] \<or> hd r = CHR ''.''"
  shows "inet_part (dec_string n @ r) = (n, r)"
proof (cases "n = 0")
  case True
  have "digit_val (CHR ''.'') = 255" "digit_val (CHR ''0'') = 0" by (simp_all add: digit_val_def uchr_def)
  then show ?thesis using assms True by (cases r) (auto simp: inet_part_def dec_string_0 Let_def)
next
  case False
  then obtain c s where c: "dec_string n = c # s" "c \<noteq> CHR ''0''" using dec_string_hd [of n] by (cases "dec_string n") auto
  have "inet_part (dec_string n @ r) = (digits_val 10 0 (takeWhile (\<lambda>c. digit_val c < 10) (dec_string n @ r)),
      dropWhile (\<lambda>c. digit_val c < 10) (dec_string n @ r))"
    using c by (simp add: inet_part_def Let_def)
  then show ?thesis using take_digits [OF assms] dec_string_val [of n] by simp
qed

lemma dec_string_start: "dec_string n @ r \<noteq> [] \<and> digit_val (hd (dec_string n @ r)) < 10"
proof (cases "dec_string n")
  case Nil
  then show ?thesis using dec_string.simps [of n] by (simp split: if_splits)
next
  case (Cons c s)
  then show ?thesis using dec_string_val [of n] by auto
qed

lemma inet_loop_dot:
  "n < 256 \<Longrightarrow> inet_loop (Suc k) acc (dec_string n @ CHR ''.'' # r) = inet_loop k (acc * 256 + n) r"
  using dec_string_start [of n "CHR ''.'' # r"] inet_part_dec [of "CHR ''.'' # r" n]
  by (subst inet_loop.simps) (simp add: not_le)

lemma inet_loop_end: "n < 256 \<Longrightarrow> inet_loop 0 acc (dec_string n) = Some (acc * 256 + n)"
  using dec_string_start [of n "[]"] inet_part_dec [of "[]" n]
  by (subst inet_loop.simps) (simp add: not_le)

text \<open>What \<open>inet_ntoa\<close> writes, \<open>inet_addr\<close> reads.\<close>

lemma inet_addr_ntoa: "inet_addr (inet_ntoa a) = a"
proof -
  let ?n = "unat a"
  have n: "?n < 4294967296" using unsigned_less [of a] by simp
  have "inet_loop 3 0 (inet_ntoa a) = Some (((?n div 16777216 * 256 + ?n div 65536 mod 256) * 256 + ?n div 256 mod 256) * 256 + ?n mod 256)"
    using n by (simp add: inet_ntoa_def Let_def numeral_3_eq_3 inet_loop_dot inet_loop_end less_mult_imp_div_less)
  also have "((?n div 16777216 * 256 + ?n div 65536 mod 256) * 256 + ?n div 256 mod 256) * 256 + ?n mod 256 = ?n"
  proof -
    have "?n div 16777216 = ?n div 65536 div 256" "?n div 65536 = ?n div 256 div 256" by (simp_all add: div_mult2_eq [symmetric])
    then show ?thesis by (simp only: div_mult_mod_eq)
  qed
  finally show ?thesis by (simp add: inet_addr_def)
qed

lemma be32_get32: "length s = 4 \<Longrightarrow> be32 (get32 s) = s"
proof -
  assume "length s = 4"
  then obtain a b c d where s: "s = [a, b, c, d]" by (auto simp: numeral_eq_Suc length_Suc_conv)
  have lt: "uchr d < 256" "uchr c < 256" "uchr b < 256" "uchr a < 256" by simp_all
  have k: "get32 s = uchr d + 256 * uchr c + 65536 * uchr b + 16777216 * uchr a" by (simp add: get32_def s)
  have m: "char_of k = (char_of (k mod 256) :: char)" for k by simp
  show ?thesis unfolding be32_def k using base256 [OF lt] m [of "_ div 65536"] m [of "_ div 256"] m
    by (simp add: s) (metis char_of_uchr m)
qed

lemma get32_less: "length s = 4 \<Longrightarrow> get32 s < 2 ^ 32"
proof -
  assume "length s = 4"
  then obtain a b c d where s: "s = [a, b, c, d]" by (auto simp: numeral_eq_Suc length_Suc_conv)
  show ?thesis using base256(5) [of "uchr d" "uchr c" "uchr b" "uchr a"] by (simp add: get32_def s add.commute add.left_commute mult.commute)
qed

text \<open>The address of a request comes back in the answer.\<close>

lemma hdr_ip_back: "length (h_ip a) = 4 \<Longrightarrow> be32 (unat (inet_addr (hdr_ip a))) = h_ip a"
  using get32_less [of "h_ip a"] unat_word_of_nat [of "get32 (h_ip a)", where 'a = 32]
  by (simp add: hdr_ip_def inet_addr_ntoa be32_get32)

subsection \<open>Hardware addresses\<close>

definition hex_pair :: "char \<Rightarrow> string" where
  "hex_pair c = [hex_char (uchr c div 16), hex_char (uchr c mod 16)]"

lemma bin2str_pairs: "int (2 * length s) < d \<Longrightarrow> bin2str_loop s d = concat (map hex_pair s)"
proof (induction s arbitrary: d)
  case (Cons c s)
  have "nat (d - 1) = Suc (Suc (nat (d - 3)))" using Cons.prems by simp
  then show ?case using Cons.prems Cons.IH [of "d - 2"] by (simp add: hex_pair_def)
qed simp

lemma mac_pairs_hex: "mac_pairs (concat (map hex_pair s)) = concat (map (\<lambda>c. hex_pair c @ '':'') s)"
  by (induction s) (simp_all add: hex_pair_def)

text \<open>The text the RADIUS client gets: digits in pairs with colons between them.\<close>

definition mac_text :: "string \<Rightarrow> string" where
  "mac_text s = butlast (concat (map (\<lambda>c. hex_pair c @ '':'') s))"

lemma length_pairs: "length (concat (map (\<lambda>c. hex_pair c @ '':'') s)) = 3 * length s" "length (concat (map hex_pair s)) = 2 * length s"
  by (induction s) (simp_all add: hex_pair_def)

lemma bin2str_cut: "0 < d \<Longrightarrow> d \<le> int (2 * length s) \<Longrightarrow> int (length (bin2str_loop s d)) = d - 1"
proof (induction s arbitrary: d)
  case (Cons c s)
  consider "d = 1" | "d = 2" | "2 < d" using Cons.prems(1) by linarith
  then show ?case
  proof cases
    case 3
    then show ?thesis using Cons.prems Cons.IH [of "d - 2"] by (simp add: min_def)
  qed (cases s; simp)+
qed simp

lemma length_mac_pairs: "length (mac_pairs w) = length w + length w div 2"
  by (induction w rule: mac_pairs.induct) auto

lemma mac_to_radius:
  assumes "s \<noteq> []"
  shows "ptl_mac_to_radius (Some (snd (ems_bin2str s (int (length s)) 32))) = (if length s \<le> 10 then Some (mac_text s) else None)"
proof (cases "length s < 16")
  case True
  then have "snd (ems_bin2str s (int (length s)) 32) = concat (map hex_pair s)" by (simp add: ems_bin2str_def bin2str_pairs)
  moreover have "length s \<le> 10 \<longleftrightarrow> 3 * length s \<le> 32" by auto
  ultimately show ?thesis using assms True length_pairs(1) [of s]
    by (auto simp: ptl_mac_to_radius_def mac_pairs_hex mac_text_def Let_def simp del: length_concat)
next
  case False
  then have "int (length (snd (ems_bin2str s (int (length s)) 32))) = 31" using bin2str_cut [of 32 s] by (simp add: ems_bin2str_def)
  then have "length (mac_pairs (snd (ems_bin2str s (int (length s)) 32))) = 46" by (simp add: length_mac_pairs)
  then show ?thesis using False by (simp add: ptl_mac_to_radius_def Let_def)
qed

end
