(* ===== verification/Ems_Portal_User.thy ===== *)
theory Ems_Portal_User
  imports Ems_Portal_Addr Ems_Radius_User
begin

text \<open>
  The way of a user through the portal: the request of the server and the RADIUS client's answer to it,
  the timers that end it, and the requests that the client does not survive or misreads.
\<close>

subsection \<open>Answers\<close>

text \<open>The buffer after an answer without attributes.\<close>

definition ack_buf :: "portal_auth_hdr \<Rightarrow> char ems_buffer \<Rightarrow> char ems_buffer" where
  "ack_buf a b = snd (ems_buffer_write b (hdr_bytes (a\<lparr>h_n_attr := 0\<rparr>)) 16)"

lemma ack_buf_ok:
  assumes "buf_ok b" and "16 \<le> room b" and "length (h_ip a) = 4"
  shows "ack_buf a b = b\<lparr>bmem := mem_write (bmem b) (bwr b) (hdr_bytes (a\<lparr>h_n_attr := 0\<rparr>)), bwr := bwr b + 16\<rparr>"
    and "contents (ack_buf a b) = contents b @ hdr_bytes (a\<lparr>h_n_attr := 0\<rparr>)" and "buf_ok (ack_buf a b)"
    and "take (bwr (ack_buf a b) - bwr b) (drop (bwr b) (bmem (ack_buf a b))) = hdr_bytes (a\<lparr>h_n_attr := 0\<rparr>)"
proof -
  let ?h = "hdr_bytes (a\<lparr>h_n_attr := 0\<rparr>)"
  have l: "length ?h = 16" using assms(3) by simp
  show e: "ack_buf a b = b\<lparr>bmem := mem_write (bmem b) (bwr b) ?h, bwr := bwr b + 16\<rparr>"
    using write_eq [OF assms(1), of 16 ?h] assms(2) l by (simp add: ack_buf_def min_def)
  have "length ?h \<le> room b" using l assms(2) by simp
  from append_ok [OF assms(1) this] show "contents (ack_buf a b) = contents b @ ?h" "buf_ok (ack_buf a b)" by (simp_all add: e l)
  have "bwr b \<le> length (bmem b)" using assms(1) by (simp add: buf_ok_def)
  then show "take (bwr (ack_buf a b) - bwr b) (drop (bwr b) (bmem (ack_buf a b))) = ?h"
    using mem_write_region [of "bwr b" "bmem b" ?h] l by (simp add: e)
qed

definition ack_sess :: "portal_auth_hdr \<Rightarrow> ems_session \<Rightarrow> ems_session" where
  "ack_sess a t = sess_event_set (t\<lparr>buf_out := ack_buf a (buf_out t)\<rparr>) EMS_EVT_WRITE PTL_EVT_CB"

lemma ack_none: "pt_sess p = Some t \<Longrightarrow> ptl_evt_ack e None a None p = Some (EMS_OK, p\<lparr>pt_sess := Some (ack_sess a t)\<rparr>)"
  by (simp add: ptl_evt_ack_def ack_sess_def ack_buf_def Let_def)

lemma ack_some:
  assumes "pt_sess p = Some t" and "u \<in> set (pt_live p)"
  shows "\<exists>bytes. ptl_evt_ack e (Some u) a None p =
      Some (EMS_OK, p\<lparr>pt_user := (pt_user p)(u := ptl_user_sent e bytes (pt_user p u)), pt_sess := Some (ack_sess a t)\<rparr>) \<and>
    (buf_ok (buf_out t) \<and> 16 \<le> room (buf_out t) \<and> length (h_ip a) = 4 \<longrightarrow> bytes = hdr_bytes (a\<lparr>h_n_attr := 0\<rparr>))"
  using assms ack_buf_ok(4) [of "buf_out t" a]
  by (auto simp: ptl_evt_ack_def ack_sess_def ack_buf_def Let_def pu_upd_def pu_get_def)

lemma sent_contents:
  assumes "length bytes \<le> length (bmem (pu_buf_out x))"
  shows "contents (pu_buf_out (ptl_user_sent e bytes x)) = bytes"
proof -
  let ?b = "ems_buffer_clear (pu_buf_out x)"
  have b: "buf_ok ?b" "room ?b = length (bmem (pu_buf_out x))" by (simp_all add: ems_buffer_clear_def buf_ok_def room_def)
  have "ems_buffer_write ?b bytes (int (length bytes)) = (int (length bytes), ?b\<lparr>bmem := mem_write (bmem ?b) 0 bytes, bwr := length bytes\<rparr>)"
    using write_eq [OF b(1), of "length bytes" bytes] assms b(2) by (simp add: min_def ems_buffer_clear_def Let_def)
  then show ?thesis using assms by (simp add: ptl_user_sent_def contents_def ems_buffer_clear_def mem_write_def)
qed

lemma sent_fields [simp]:
  "pu_name (ptl_user_sent e b x) = pu_name x" "pu_mac (ptl_user_sent e b x) = pu_mac x" "pu_ip (ptl_user_sent e b x) = pu_ip x"
  "pu_st (ptl_user_sent e b x) = pu_st x" "pu_flg (ptl_user_sent e b x) = pu_flg x" "pu_retry_times (ptl_user_sent e b x) = 3"
  "pu_retry_timeout (ptl_user_sent e b x) = 9" "pu_to (ptl_user_sent e b x) = Some (timeout_deadline (pe_now e) 9000)"
  by (simp_all add: ptl_user_sent_def PORTAL_RETRY_TIMES_def PORTAL_RETRY_TIMEOUT_def)

lemma ack_sess_fields [simp]:
  "buf_out (ack_sess a t) = ack_buf a (buf_out t)" "s_evt (ack_sess a t) = Some (EMS_EVT_WRITE OR EMS_EVT_EDGE_TRIGGER)"
  "s_to (ack_sess a t) = s_to t" "timeout_cb (ack_sess a t) = timeout_cb t"
  by (simp_all add: ack_sess_def sess_event_set_def)

subsection \<open>A login\<close>

text \<open>A request of the server for a login by password with everything the client needs, for a user it does not have.\<close>

definition login_ready :: "portal_auth_hdr \<Rightarrow> portal_value_pair list \<Rightarrow> string \<Rightarrow> string \<Rightarrow> string \<Rightarrow> bool" where
  "login_ready auth attr name pass mac \<longleftrightarrow> h_ty auth = ty_req_auth \<and> h_auth_ty auth = 1 \<and> vp_value attr ATTR_USERNAME = Some name \<and>
    vp_value attr ATTR_PASSWORD = Some pass \<and> vp_value attr ATTR_USERMAC = Some mac \<and> mac \<noteq> [] \<and> length mac \<le> 10"

definition login_user :: "ptl_env \<Rightarrow> portal_auth_hdr \<Rightarrow> string \<Rightarrow> string \<Rightarrow> string \<Rightarrow> portal_user" where
  "login_user e auth name pass mac =
    (ptl_user_new e)\<lparr>pu_name := c_text name, pu_ip := hdr_ip auth, pu_flg := 0, pu_st := u_req_auth, pu_serial := h_serial auth,
      pu_reqid := h_reqid auth, pu_auth_ty := 1, pu_pass := c_text pass, pu_mac := Some (snd (ems_bin2str mac (int (length mac)) 32))\<rparr>"

definition login_obj :: "portal_auth_hdr \<Rightarrow> string \<Rightarrow> string \<Rightarrow> string \<Rightarrow> json" where
  "login_obj auth name pass mac = JObj [(''username'', JStr (c_text name)), (''userpass'', JStr (c_text pass)),
    (''userip'', JStr (hdr_ip auth)), (''usermac'', JStr (mac_text mac))]"

lemma portal_types: "ty_req_auth \<noteq> ty_req_challenge" "ty_req_logout \<noteq> ty_req_challenge" "ty_req_logout \<noteq> ty_req_auth"
  by (simp_all add: ty_req_auth_def ty_req_challenge_def ty_req_logout_def)

lemma flag_unset_0 [simp]: "ems_flag_unset 0 f = 0"
  by (simp add: ems_flag_unset_def ems_flag_like_def)

lemma login_step:
  assumes "login_ready auth attr name pass mac" and "ptl_user_find p (hdr_ip auth) = None" and "pe_new e (pt_live p) = Some u"
  shows "ptl_process_evt e auth attr p = Some (EMS_OK, p\<lparr>pt_user := (pt_user p)(u := login_user e auth name pass mac),
    pt_live := u # pt_live p, pt_users := pt_users p @ [u], pt_mac := snd (ems_bin2str mac (int (length mac)) 32),
    pt_out := pt_out p @ [PtlSend ty_portal ty_radius EMS_APP_CMD_RADIUS_AUTH (Some (login_obj auth name pass mac))]\<rparr>)"
proof -
  have r: "h_ty auth = ty_req_auth" "h_auth_ty auth = 1" "vp_value attr ATTR_USERNAME = Some name" "vp_value attr ATTR_PASSWORD = Some pass"
    "vp_value attr ATTR_USERMAC = Some mac" "mac \<noteq> []" "length mac \<le> 10" using assms(1) by (simp_all add: login_ready_def)
  have m: "ptl_mac_to_radius (Some (snd (ems_bin2str mac (int (length mac)) 32))) = Some (mac_text mac)"
    using mac_to_radius [OF r(6)] r(7) by simp
  have pass: "auth_pass auth attr = Some (c_text pass)" using r(2,4) by (simp add: auth_pass_def)
  have new: "pu_flg (ptl_user_new e) = 0" by (simp add: ptl_user_new_def)
  show ?thesis using r(1,2,3,5,6) assms(2,3) portal_types m pass new
    by (simp add: ptl_process_evt_def ptl_evt_req_auth_def ptl_user_add_def req_auth_login_def auth_mac_def pu_upd_def pu_get_def
        auth_obj_def login_obj_def login_user_def ptl_emit_def Let_def; rule ems_portal.equality; simp)
qed

text \<open>
  C9: A login that the server asks for reaches the RADIUS client complete: the portal's message, handed to a
  RADIUS module that runs and has no device of this address, makes it log in a user with the name, the
  password and the addresses of the request, the hardware address as digits with colons.
\<close>

theorem portal_login_reaches_radius:
  assumes "login_ready auth attr name pass mac" and "ptl_user_find p (hdr_ip auth) = None" and "pe_new e (pt_live p) = Some u"
    and "c_text name \<noteq> []" and "c_text pass \<noteq> []"
    and "rm_ctx m = Some ra" and "rm_run m" and "rh ra" and "radius_find_dev ra (hdr_ip auth) = None"
  shows "\<exists>p' obj. ptl_process_evt e auth attr p = Some (EMS_OK, p') \<and> pt_users p' = pt_users p @ [u] \<and>
    pu_st (pt_user p' u) = u_req_auth \<and>
    pt_out p' = pt_out p @ [PtlSend ty_portal ty_radius EMS_APP_CMD_RADIUS_AUTH (Some obj)] \<and>
    ra_process er EMS_APP_CMD_RADIUS_AUTH (Some obj) m =
      map_option (\<lambda>(ret, ra'). (ret, Some obj, m\<lparr>rm_ctx := Some ra'\<rparr>))
        (radius_user_in er (c_text name) (c_text pass) (hdr_ip auth) (mac_text mac) ra)"
proof -
  have "mac \<noteq> []" using assms(1) by (simp add: login_ready_def)
  then have "2 \<le> 3 * length mac" by (cases mac) simp_all
  then have "length (mac_text mac) \<noteq> 0" using length_pairs(1) [of mac] by (simp add: mac_text_def del: length_concat)
  then have mac: "mac_text mac \<noteq> []" by auto
  have ip: "hdr_ip auth \<noteq> []" by (simp add: hdr_ip_def inet_ntoa_def Let_def)
  have "radius_cmd_auth er (Some (login_obj auth name pass mac)) ra =
      radius_user_in er (c_text name) (c_text pass) (hdr_ip auth) (mac_text mac) ra"
    using assms(4,5,9) mac ip by (simp add: radius_cmd_auth_def login_obj_def ems_json_get_string_def_def Let_def)
  then have "ra_process er EMS_APP_CMD_RADIUS_AUTH (Some (login_obj auth name pass mac)) m =
      map_option (\<lambda>(ret, ra'). (ret, Some (login_obj auth name pass mac), m\<lparr>rm_ctx := Some ra'\<rparr>))
        (radius_user_in er (c_text name) (c_text pass) (hdr_ip auth) (mac_text mac) ra)"
    using assms(6,7,8) by (simp add: ra_process_def ra_command_def EMS_APP_START_def EMS_APP_STOP_def)
  then show ?thesis using login_step [OF assms(1-3)] by (simp add: login_user_def)
qed

subsection \<open>The answer of the RADIUS client\<close>

lemma find_snoc: "\<forall>v \<in> set xs. \<not> P v \<Longrightarrow> P u \<Longrightarrow> find P (xs @ [u]) = Some u"
  by (induction xs) auto

lemma find_added:
  assumes "ptl_inv {} p" and "fresh_ptl e" and "ptl_user_find p ip = None" and "pe_new e (pt_live p) = Some u" and "pu_ip x = ip"
  shows "ptl_user_find (p\<lparr>pt_user := (pt_user p)(u := x), pt_live := l, pt_users := pt_users p @ [u], pt_mac := mm, pt_out := out\<rparr>) ip = Some u"
proof -
  have u: "u \<notin> set (pt_users p)" using assms(1,2,4) by (auto simp: ptl_inv_def ptab_ok_def fresh_ptl_def)
  have "find (\<lambda>v. pu_ip (((pt_user p)(u := x)) v) = ip) (pt_users p @ [u]) = Some u"
    using assms(3,5) u by (intro find_snoc) (auto simp: ptl_user_find_def find_None_iff)
  then show ?thesis by (simp add: ptl_user_find_def)
qed

text \<open>The message of a device with a status, as the RADIUS client sends it.\<close>

lemma rsp_obj:
  "json_userip (Some (user_obj d code)) = Some (du_ip d)"
  "ems_json_get_int_def (Some (user_obj d code)) ''error_code'' 0 = 0 \<longleftrightarrow> code = 0"
  by (auto simp: json_userip_def user_obj_def ems_json_get_int_def_def)

text \<open>The header of the answer to a request: the same user and the same numbers, in the order of the network.\<close>

definition auth_answer :: "portal_auth_hdr \<Rightarrow> int \<Rightarrow> portal_auth_hdr" where
  "auth_answer auth code =
    \<lparr>h_ver = 1, h_ty = ty_ack_auth, h_auth_ty = h_auth_ty auth, h_rsrv = 0, h_serial = htons (h_serial auth),
     h_reqid = htons (h_reqid auth), h_ip = h_ip auth, h_port = 0, h_err = (if code = 0 then 0 else 4), h_n_attr = 0\<rparr>"


subsection \<open>A server, a session and a request\<close>

definition pe_1 :: ptl_env where
  "pe_1 = \<lparr>pe_enable = True, pe_addr = ''10.0.0.1'', pe_port = 2000, pe_register = 60, pe_heartbeat = 20, pe_now = \<lparr>tv_sec = 0, tv_usec = 0\<rparr>,
    pe_new = (\<lambda>L. if 1 \<notin> set L then Some 1 else if 2 \<notin> set L then Some 2 else None), pe_alloc = True, pe_garbage = (\<lambda>_. CHR ''x''), pe_gethost = (\<lambda>_. Some 0x0a000001),
    pe_socket = 7, pe_connect = (\<lambda>_ _. True), pe_random = 9, pe_vector = ''0123456789abcdef'', pe_sn = ''sn1'', pe_usermac = (\<lambda>_. []),
    pe_fw_run = True\<rparr>"

definition sess_1 :: ems_session where
  "sess_1 = \<lparr>sock = \<lparr>s_addr = str_init, s_port = 2000, s_fd = 7\<rparr>, obj = 0, rsrv = 0, sflg = 0,
    buf_in = \<lparr>bmem = replicate 64 CHR ''x'', brd = 0, bwr = 0\<rparr>, buf_out = \<lparr>bmem = replicate 64 CHR ''x'', brd = 0, bwr = 0\<rparr>,
    s_to = Some \<lparr>tv_sec = 20, tv_usec = 0\<rparr>, s_evt = Some EMS_EVT_READ, s_fdno = 7, evt_cb = Some PTL_EVT_CB,
    timeout_cb = Some PTL_TIMEOUT_CB, cbarg = 0\<rparr>"

definition portal_1 :: ems_portal where
  "portal_1 = \<lparr>pt_users = [], pt_sess = Some sess_1, pt_addr = ''10.0.0.1'', pt_port = 2000, reg_period = 60, hb_period = 20, pt_reg = 3,
    pt_retry_times = 3, pt_retry_timeout = 9, pt_st = st_normal, pt_lasterr = 0, pt_user = (\<lambda>_. ptl_user_new pe_1), pt_live = [],
    pt_mac = [], pt_ready = True, pt_out = []\<rparr>"

definition auth_1 :: portal_auth_hdr where
  "auth_1 = \<lparr>h_ver = 1, h_ty = ty_req_auth, h_auth_ty = 1, h_rsrv = 0, h_serial = 0x0102, h_reqid = 0x0304,
    h_ip = map char_of [10, 0, 0, 9 :: nat], h_port = 0, h_err = 0, h_n_attr = 3\<rparr>"

definition text_vp :: "nat \<Rightarrow> string \<Rightarrow> portal_value_pair" where
  "text_vp a s = \<lparr>vp_attr = a, vp_id = pd_id (the (ptl_dict_load a)), vp_ty = TYPE_STRING, lval = word_of_nat (length s), val = Some s\<rparr>"

definition attr_1 :: "portal_value_pair list" where
  "attr_1 = [text_vp ATTR_USERNAME ''bob'', text_vp ATTR_PASSWORD ''pw'', text_vp ATTR_USERMAC ''abcdef'']"

lemma ready_1: "login_ready auth_1 attr_1 ''bob'' ''pw'' ''abcdef''"
  by (simp add: login_ready_def auth_1_def attr_1_def text_vp_def vp_value_def ptl_vp_find_def attr_defs)

lemma fresh_pe_1: "fresh_ptl pe_1"
  by (simp add: fresh_ptl_def pe_1_def)

lemma inv_1: "ptl_inv {} portal_1"
  by (simp add: ptl_inv_def ptab_ok_def sess_inv_def portal_1_def sess_timed_def sess_1_def)

lemma find_1: "ptl_user_find portal_1 ip = None"
  by (simp add: ptl_user_find_def portal_1_def)

lemma new_1: "pe_new pe_1 (pt_live portal_1) = Some 1"
  by (simp add: pe_1_def portal_1_def)

text \<open>The device of the RADIUS client that belongs to the request.\<close>

definition dev_1 :: ems_device where
  "dev_1 = (dev_of rad_r1 0)\<lparr>du_ip := hdr_ip auth_1\<rparr>"

theorem portal_login_reaches_radius_witness:
  "\<exists>p' obj. ptl_process_evt pe_1 auth_1 attr_1 portal_1 = Some (EMS_OK, p') \<and> pt_users p' = [1] \<and>
    pt_out p' = [PtlSend ty_portal ty_radius EMS_APP_CMD_RADIUS_AUTH (Some obj)]"
proof -
  have "c_text ''bob'' \<noteq> []" "c_text ''pw'' \<noteq> []" by (simp_all add: c_text_def char_of_def)
  moreover have "radius_find_dev rad_r1 (hdr_ip auth_1) = None" "rh rad_r1" by (simp_all add: radius_find_dev_def)
  ultimately have "\<exists>p' obj. ptl_process_evt pe_1 auth_1 attr_1 portal_1 = Some (EMS_OK, p') \<and> pt_users p' = pt_users portal_1 @ [1] \<and>
    pt_out p' = pt_out portal_1 @ [PtlSend ty_portal ty_radius EMS_APP_CMD_RADIUS_AUTH (Some obj)]"
    using portal_login_reaches_radius [OF ready_1 find_1 new_1, of "\<lparr>rm_run = True, rm_ctx = Some rad_r1\<rparr>" rad_r1 re_1] by auto
  then show ?thesis by (simp add: portal_1_def)
qed


end
