(* ===== verification/Ems_Portal_Wait.thy ===== *)
theory Ems_Portal_Wait
  imports Ems_Portal_User
begin

text \<open>
  What the timers of the portal client do when nothing else happens: answers are sent again and given up,
  a login that is not confirmed is undone, and a server that does not answer is dropped and tried again.
\<close>

subsection \<open>The timer of a user\<close>

definition user_expire :: "ptl_env \<Rightarrow> addr \<Rightarrow> ems_portal \<Rightarrow> ems_portal option" where
  "user_expire e u p =
    (if pu_to (pt_user p u) = None then None
     else do { p0 \<leftarrow> pu_upd u (\<lambda>x. x\<lparr>pu_to := None\<rparr>) p; user_timeout_cb e u p0 })"

fun user_expire_n :: "ptl_env \<Rightarrow> addr \<Rightarrow> nat \<Rightarrow> ems_portal \<Rightarrow> ems_portal option" where
  "user_expire_n e u 0 p = Some p"
| "user_expire_n e u (Suc n) p = Option.bind (user_expire e u p) (user_expire_n e u n)"

lemma user_expire_add: "user_expire_n e u (m + n) p = Option.bind (user_expire_n e u m p) (user_expire_n e u n)"
proof (induction m arbitrary: p)
  case (Suc m)
  then show ?case by (cases "user_expire e u p") simp_all
qed simp

lemma user_expire_snoc: "user_expire_n e u (Suc n) p = Option.bind (user_expire_n e u n p) (user_expire e u)"
proof -
  have "Option.bind m (user_expire_n e u 0) = m" for m by (cases m) simp_all
  then show ?thesis using user_expire_add [of e u n 1 p] by (cases "user_expire_n e u n p") simp_all
qed

text \<open>What stays the same while an answer is sent again.\<close>

definition same_rest :: "addr \<Rightarrow> ems_portal \<Rightarrow> ems_portal \<Rightarrow> bool" where
  "same_rest u p p' \<longleftrightarrow> pt_users p' = pt_users p \<and> pt_out p' = pt_out p \<and> pt_st p' = pt_st p \<and>
    pu_st (pt_user p' u) = pu_st (pt_user p u) \<and> pu_flg (pt_user p' u) = pu_flg (pt_user p u) \<and>
    pu_mac (pt_user p' u) = pu_mac (pt_user p u) \<and> pu_name (pt_user p' u) = pu_name (pt_user p u) \<and>
    pu_ip (pt_user p' u) = pu_ip (pt_user p u) \<and> (\<forall>v. v \<noteq> u \<longrightarrow> pt_user p' v = pt_user p v)"

lemma same_rest_trans: "same_rest u p q \<Longrightarrow> same_rest u q r \<Longrightarrow> same_rest u p r"
  by (simp add: same_rest_def)

lemma live_users: "ptl_inv X p \<Longrightarrow> u \<in> set (pt_users p) \<Longrightarrow> u \<in> set (pt_live p) \<and> (\<exists>t. pt_sess p = Some t)"
  by (auto simp: ptl_inv_def ptab_ok_def)

lemma users_ok: "ptl_inv {} p \<Longrightarrow> u \<in> set (pt_users p) \<Longrightarrow> user_ok (pt_user p u)"
  by (simp add: ptl_inv_def ptab_ok_def)

lemma user_expire_inv: "ptl_inv {} p \<Longrightarrow> user_expire e u p = Some p' \<Longrightarrow> ptl_inv {} p'"
  by (auto simp: user_expire_def bind_eq_Some_conv intro: user_timeout_ok split: if_splits)

text \<open>With more attempts left the answer goes into the buffer of the session again.\<close>

lemma expire_resend:
  assumes "ptl_inv {} p" and "u \<in> set (pt_users p)" and "pu_to (pt_user p u) \<noteq> None" and "1 < pu_retry_times (pt_user p u)"
  shows "\<exists>p'. user_expire e u p = Some p' \<and> same_rest u p p' \<and> pu_to (pt_user p' u) \<noteq> None \<and>
    pu_retry_times (pt_user p' u) = pu_retry_times (pt_user p u) - 1"
proof -
  obtain t where t: "u \<in> set (pt_live p)" "pt_sess p = Some t" using live_users [OF assms(1,2)] by blast
  then show ?thesis using assms(3,4)
    by (simp add: user_expire_def user_timeout_cb_def pu_upd_def pu_get_def pt_sess_upd_def same_rest_def Let_def)
qed

text \<open>The last attempt.\<close>

lemma expire_gone:
  assumes "ptl_inv {} p" and "u \<in> set (pt_users p)" and "pu_to (pt_user p u) \<noteq> None" and "pu_retry_times (pt_user p u) = 1"
    and "user_waits (pt_user p u)" and "\<not> (pu_st (pt_user p u) = u_ack_auth \<and> ems_flag_like (pu_flg (pt_user p u)) EMS_FLG_ONLINE)"
  shows "\<exists>p'. user_expire e u p = Some p' \<and> pt_users p' = remove1 u (pt_users p) \<and> pt_out p' = pt_out p \<and> u \<notin> set (pt_live p')"
proof -
  have l: "u \<in> set (pt_live p)" "distinct (pt_live p)" using live_users [OF assms(1,2)] assms(1) by (auto simp: ptl_inv_def ptab_ok_def)
  then show ?thesis using assms(3-6)
    by (auto simp: user_expire_def user_timeout_cb_def user_gives_up_def pu_upd_def pu_get_def ptl_user_destroy_def user_waits_def)
qed

text \<open>From any number of attempts.\<close>

lemma expire_until_last:
  assumes "ptl_inv {} p" and "u \<in> set (pt_users p)" and "pu_to (pt_user p u) \<noteq> None" and "pu_retry_times (pt_user p u) = int (Suc n)"
  shows "\<exists>p'. user_expire_n e u n p = Some p' \<and> ptl_inv {} p' \<and> same_rest u p p' \<and> pu_to (pt_user p' u) \<noteq> None \<and>
    pu_retry_times (pt_user p' u) = 1"
  using assms
proof (induction n arbitrary: p)
  case (Suc n)
  obtain q where q: "user_expire e u p = Some q" "same_rest u p q" "pu_to (pt_user q u) \<noteq> None"
    "pu_retry_times (pt_user q u) = pu_retry_times (pt_user p u) - 1"
    using expire_resend [OF Suc.prems(1-3), of e] Suc.prems(4) by auto
  have "ptl_inv {} q" using user_expire_inv [OF Suc.prems(1) q(1)] .
  moreover have "u \<in> set (pt_users q)" using q(2) Suc.prems(2) by (simp add: same_rest_def)
  moreover have "pu_retry_times (pt_user q u) = int (Suc n)" using q(4) Suc.prems(4) by simp
  ultimately obtain p' where "user_expire_n e u n q = Some p'" "ptl_inv {} p'" "same_rest u q p'" "pu_to (pt_user p' u) \<noteq> None"
    "pu_retry_times (pt_user p' u) = 1"
    using Suc.IH [of q] q(3) by blast
  then show ?case using q(1,2) same_rest_trans by (auto intro!: exI [of _ p'])
qed (auto simp: same_rest_def)

lemma attempts: "ptl_inv {} p \<Longrightarrow> u \<in> set (pt_users p) \<Longrightarrow> user_waits (pt_user p u) \<Longrightarrow>
    pu_to (pt_user p u) \<noteq> None \<and> (\<exists>n. pu_retry_times (pt_user p u) = int (Suc n))"
proof -
  assume "ptl_inv {} p" "u \<in> set (pt_users p)" "user_waits (pt_user p u)"
  then have to: "pu_to (pt_user p u) \<noteq> None" and r: "pu_retry_times (pt_user p u) \<in> {1..3}"
    using users_ok [of p u] by (auto simp: user_ok_def)
  then have "pu_retry_times (pt_user p u) = int (Suc (nat (pu_retry_times (pt_user p u) - 1)))" by simp
  then show ?thesis using to by blast
qed

lemma expire_all:
  assumes "ptl_inv {} p" and "u \<in> set (pt_users p)" and "user_waits (pt_user p u)"
    and "\<not> (pu_st (pt_user p u) = u_ack_auth \<and> ems_flag_like (pu_flg (pt_user p u)) EMS_FLG_ONLINE)"
  shows "\<exists>p'. user_expire_n e u (nat (pu_retry_times (pt_user p u))) p = Some p' \<and> pt_users p' = remove1 u (pt_users p) \<and>
    pt_out p' = pt_out p \<and> u \<notin> set (pt_live p')"
proof -
  obtain n where n: "pu_to (pt_user p u) \<noteq> None" "pu_retry_times (pt_user p u) = int (Suc n)" using attempts [OF assms(1-3)] by blast
  obtain q where q: "user_expire_n e u n p = Some q" "ptl_inv {} q" "same_rest u p q" "pu_to (pt_user q u) \<noteq> None" "pu_retry_times (pt_user q u) = 1"
    using expire_until_last [OF assms(1,2) n, of e] by blast
  have "user_waits (pt_user q u)" "pt_users q = pt_users p" "pt_out q = pt_out p" using q(3) assms(3) by (auto simp: same_rest_def user_waits_def)
  moreover from this obtain p' where "user_expire e u q = Some p'" "pt_users p' = remove1 u (pt_users q)" "pt_out p' = pt_out q" "u \<notin> set (pt_live p')"
    using expire_gone [OF q(2) _ q(4,5), of e] assms(2,4) q(3) by (auto simp: same_rest_def)
  moreover have "nat (pu_retry_times (pt_user p u)) = Suc n" using n(2) by simp
  ultimately show ?thesis using q(1) by (simp add: user_expire_snoc del: user_expire_n.simps)
qed

text \<open>
  A user who waits for a confirmation of the server is given up: when only his timer runs, as often as he
  has attempts left, he is not in the list any more, and no other module was told anything.
\<close>

theorem portal_waiting_user_leaves:
  assumes "ptl_inv {} p" and "u \<in> set (pt_users p)" and "user_waits (pt_user p u)"
    and "\<not> (pu_st (pt_user p u) = u_ack_auth \<and> ems_flag_like (pu_flg (pt_user p u)) EMS_FLG_ONLINE)"
  shows "0 < pu_retry_times (pt_user p u) \<and> pu_retry_times (pt_user p u) \<le> 3 \<and>
    (\<exists>p'. user_expire_n e u (nat (pu_retry_times (pt_user p u))) p = Some p' \<and> u \<notin> set (pt_users p') \<and> pt_out p' = pt_out p)"
proof -
  have "pu_retry_times (pt_user p u) \<in> {1..3}" using users_ok [OF assms(1,2)] assms(3) by (auto simp: user_ok_def)
  moreover have "distinct (pt_users p)" using assms(1) by (simp add: ptl_inv_def ptab_ok_def)
  ultimately show ?thesis using expire_all [OF assms, of e] by auto
qed

subsection \<open>A login without confirmation\<close>

lemma flag_unset_bit: "\<not> ems_flag_like (ems_flag_unset f (2 ^ n)) (2 ^ n)"
proof -
  have "(f XOR 2 ^ n) AND 2 ^ n = (0 :: flags)" if "bit f n"
    by (rule bit_word_eqI) (use that in \<open>auto simp: bit_simps\<close>)
  then show ?thesis by (auto simp: ems_flag_unset_def ems_flag_like_bit) (simp add: ems_flag_like_def flip: ems_flag_like_bit)
qed

lemma flag_unset_online: "\<not> ems_flag_like (ems_flag_unset f EMS_FLG_ONLINE) EMS_FLG_ONLINE"
  unfolding EMS_FLG_ONLINE_def by (rule flag_unset_bit)

text \<open>An answer with attributes, in a buffer with room for it.\<close>

lemma ack_attr:
  assumes "pt_sess p = Some t" and "u \<in> set (pt_live p)" and "buf_ok (buf_out t)" and "length (h_ip a) = 4"
    and "\<forall>v \<in> set vs. vp_wf True v" and "16 + length (vps_wire vs) < room (buf_out t)"
  shows "\<exists>b bytes. ptl_evt_ack e (Some u) a (Some vs) p =
      Some (EMS_OK, p\<lparr>pt_user := (pt_user p)(u := ptl_user_sent e bytes (pt_user p u)),
        pt_sess := Some (sess_event_set (t\<lparr>buf_out := b\<rparr>) EMS_EVT_WRITE PTL_EVT_CB)\<rparr>) \<and>
    contents b = contents (buf_out t) @ hdr_bytes (a\<lparr>h_n_attr := word_of_nat (length vs)\<rparr>) @ vps_wire vs"
proof -
  let ?h = "hdr_bytes (a\<lparr>h_n_attr := word_of_nat (length vs)\<rparr>)" and ?b = "buf_out t"
  let ?b1 = "?b\<lparr>bmem := mem_write (bmem ?b) (bwr ?b) ?h, bwr := bwr ?b + 16\<rparr>"
  have l: "length ?h = 16" "length ?h \<le> room ?b" using assms(4,6) by simp_all
  have w: "ems_buffer_write ?b ?h 16 = (16, ?b1)" using write_eq [OF assms(3), of 16 ?h] l by (simp add: min_def Let_def)
  have b1: "buf_ok ?b1" "contents ?b1 = contents ?b @ ?h" "room ?b1 = room ?b - 16"
    using append_ok [OF assms(3) l(2)] l(1) by simp_all
  have "length (vps_wire vs) < room ?b1" using assms(6) b1(3) by simp
  from pack_list_ok [OF b1(1) assms(5) this] obtain b2 where b2: "ptl_pack_list vs ?b1 = Some (EMS_OK, b2)" "contents b2 = contents ?b1 @ vps_wire vs" by blast
  show ?thesis using assms(1,2) w b1(2) b2
    by (intro exI [of _ b2] exI [of _ "take (bwr b2 - bwr ?b) (drop (bwr ?b) (bmem b2))"])
      (simp add: ptl_evt_ack_def Let_def pu_upd_def pu_get_def)
qed

definition mac_vp :: "string \<Rightarrow> portal_value_pair" where
  "mac_vp s = \<lparr>vp_attr = ATTR_USERMAC, vp_id = 0xc9, vp_ty = TYPE_STRING, lval = word_of_nat (length s), val = Some s\<rparr>"

lemma mac_vp: "length s \<le> 253 \<Longrightarrow> vp_wf True (mac_vp s)" "vps_wire [mac_vp s] = char_of (201 :: nat) # char_of (length s + 2) # s"
  by (simp_all add: mac_vp_def vp_wf_def vp_wire_def ptl_dict_load_def g_dict_def ptl_attribute_def attr_defs)

text \<open>The bytes of the hardware address come out of the text as they went in.\<close>

lemma ntf_mac_bytes:
  assumes "length mac = 6" and "pu_mac x = Some (snd (ems_bin2str mac 6 32))"
  shows "\<exists>g. ntf_mac e x = mac @ g"
proof -
  have "str2bin_loop (bin2str_loop mac 32) 8 = mac" using assms(1) by (intro str2bin_bin2str) simp_all
  then show ?thesis using assms by (simp add: ntf_mac_def ems_bin2str_def ems_str2bin_def)
qed

lemma append_mac: "length mac = 6 \<Longrightarrow> ptl_vp_append True [] ATTR_USERMAC (Some (mac @ g)) 6 = Some (Some (mac_vp mac), [mac_vp mac])"
  by (simp add: ptl_vp_append_def ptl_dict_load_def g_dict_def attr_defs vp_text_def mac_vp_def)

definition logout_msg :: "portal_user \<Rightarrow> string \<Rightarrow> ptl_evt" where
  "logout_msg x mac = PtlSend ty_portal ty_radius EMS_APP_CMD_RADIUS_LOGOUT
    (Some (JObj [(''username'', JStr (pu_name x)), (''userip'', JStr (pu_ip x)), (''usermac'', JStr (mac_text mac))]))"

lemma expire_online:
  assumes "u \<in> set (pt_live p)" and "pt_user p u = x" and "pu_to x \<noteq> None" and "pu_retry_times x = 1"
    and "pu_st x = u_ack_auth" and "ems_flag_like (pu_flg x) EMS_FLG_ONLINE" and "length mac = 6"
    and "pu_mac x = Some (snd (ems_bin2str mac 6 32))" and "pe_alloc e"
    and "pt_sess p = Some t" and "buf_ok (buf_out t)" and "25 \<le> room (buf_out t)"
  shows "\<exists>p' t'. user_expire e u p = Some p' \<and> pt_users p' = pt_users p \<and> pu_st (pt_user p' u) = u_ntf_logout \<and>
    pu_retry_times (pt_user p' u) = 3 \<and> pt_out p' = pt_out p @ [logout_msg x mac] \<and> pt_sess p' = Some t' \<and>
    contents (buf_out t') = contents (buf_out t) @ hdr_bytes ((user_hdr x ty_ntf_logout 0)\<lparr>h_n_attr := 1\<rparr>) @
      char_of (201 :: nat) # char_of (8 :: nat) # mac"
proof -
  let ?x = "x\<lparr>pu_to := None, pu_retry_times := 0\<rparr>"
  let ?p1 = "p\<lparr>pt_user := (pt_user p)(u := ?x)\<rparr>"
  let ?p2 = "ptl_emit (logout_msg x mac) ?p1"
  let ?y = "?x\<lparr>pu_flg := ems_flag_unset (pu_flg x) EMS_FLG_ONLINE, pu_st := u_ntf_logout\<rparr>"
  let ?p3 = "?p2\<lparr>pt_user := (pt_user ?p2)(u := ?y)\<rparr>"
  have "mac \<noteq> []" using assms(7) by auto
  from mac_to_radius [OF this] have mr: "ptl_mac_to_radius (pu_mac x) = Some (mac_text mac)" using assms(7,8) by simp
  have l: "ptl_logout u ?p1 = Some ?p2"
    using assms(1) mr by (simp add: ptl_logout_def pu_get_def logout_obj_def logout_msg_def)
  obtain g where g: "ntf_mac e ?x = mac @ g" using ntf_mac_bytes [OF assms(7), of ?x e] assms(8) by auto
  have hdr: "user_hdr ?x ty_ntf_logout 0 = user_hdr x ty_ntf_logout 0" "length (h_ip (user_hdr x ty_ntf_logout 0)) = 4"
    by (simp_all add: user_hdr_def)
  have wf: "\<forall>v \<in> set [mac_vp mac]. vp_wf True v" using mac_vp(1) [of mac] assms(7) by simp
  have wire: "vps_wire [mac_vp mac] = char_of (201 :: nat) # char_of (8 :: nat) # mac" using mac_vp(2) [of mac] assms(7) by simp
  have room: "16 + length (vps_wire [mac_vp mac]) < room (buf_out t)" using assms(7,12) by (simp only: wire) simp
  have p3: "pt_sess ?p3 = Some t" "u \<in> set (pt_live ?p3)" "pt_user ?p3 u = ?y" using assms(1,10) by (simp_all add: ptl_emit_def)
  obtain b bytes where ack: "ptl_evt_ack e (Some u) (user_hdr x ty_ntf_logout 0) (Some [mac_vp mac]) ?p3 =
      Some (EMS_OK, ?p3\<lparr>pt_user := (pt_user ?p3)(u := ptl_user_sent e bytes ?y),
        pt_sess := Some (sess_event_set (t\<lparr>buf_out := b\<rparr>) EMS_EVT_WRITE PTL_EVT_CB)\<rparr>)"
    and b: "contents b = contents (buf_out t) @ hdr_bytes ((user_hdr x ty_ntf_logout 0)\<lparr>h_n_attr := word_of_nat (length [mac_vp mac])\<rparr>) @ vps_wire [mac_vp mac]"
    using ack_attr [OF p3(1,2) assms(11) hdr(2) wf room, of e] unfolding p3(3) by blast
  have ntf: "ptl_user_ntf_logout e (Some u) ?p2 = Some (EMS_OK, ?p3\<lparr>pt_user := (pt_user ?p3)(u := ptl_user_sent e bytes ?y),
        pt_sess := Some (sess_event_set (t\<lparr>buf_out := b\<rparr>) EMS_EVT_WRITE PTL_EVT_CB)\<rparr>)"
    using assms(1,5,9) g hdr(1) append_mac [OF assms(7), of g] ack
    by (simp add: ptl_user_ntf_logout_def pu_get_def pu_upd_def ptl_emit_def)
  have "user_expire e u p = Some (?p3\<lparr>pt_user := (pt_user ?p3)(u := ptl_user_sent e bytes ?y),
        pt_sess := Some (sess_event_set (t\<lparr>buf_out := b\<rparr>) EMS_EVT_WRITE PTL_EVT_CB)\<rparr>)"
    using assms(1-6) l ntf by (simp add: user_expire_def user_timeout_cb_def user_gives_up_def pu_upd_def pu_get_def)
  then show ?thesis using b [unfolded wire] by (simp add: ptl_emit_def sess_event_set_def)
qed

text \<open>
  C7: A login that the server does not confirm is undone: when the last attempt of a user who is online runs
  out, the RADIUS client is asked to log him out, and the server is sent a notification with his hardware
  address, byte for byte the one of the request; after three more attempts he is not in the list any more.
\<close>

theorem portal_unconfirmed_login:
  assumes "ptl_inv {} p" and "u \<in> set (pt_users p)" and "pt_user p u = x" and "pu_retry_times x = 1"
    and "pu_st x = u_ack_auth" and "ems_flag_like (pu_flg x) EMS_FLG_ONLINE" and "length mac = 6"
    and "pu_mac x = Some (snd (ems_bin2str mac 6 32))" and "pe_alloc e"
    and "pt_sess p = Some t" and "buf_ok (buf_out t)" and "25 \<le> room (buf_out t)"
  shows "\<exists>q t' p'. user_expire e u p = Some q \<and> pt_sess q = Some t' \<and>
    contents (buf_out t') = contents (buf_out t) @ hdr_bytes ((user_hdr x ty_ntf_logout 0)\<lparr>h_n_attr := 1\<rparr>) @
      char_of (201 :: nat) # char_of (8 :: nat) # mac \<and>
    pt_out q = pt_out p @ [logout_msg x mac] \<and>
    user_expire_n e u 3 q = Some p' \<and> u \<notin> set (pt_users p') \<and> pt_out p' = pt_out q"
proof -
  have to: "pu_to x \<noteq> None" using users_ok [OF assms(1,2)] assms(3,5) by (simp add: user_ok_def user_waits_def)
  have live: "u \<in> set (pt_live p)" using live_users [OF assms(1,2)] by simp
  obtain q t' where q: "user_expire e u p = Some q" "pt_users q = pt_users p" "pu_st (pt_user q u) = u_ntf_logout"
    "pu_retry_times (pt_user q u) = 3" "pt_out q = pt_out p @ [logout_msg x mac]" "pt_sess q = Some t'"
    "contents (buf_out t') = contents (buf_out t) @ hdr_bytes ((user_hdr x ty_ntf_logout 0)\<lparr>h_n_attr := 1\<rparr>) @
      char_of (201 :: nat) # char_of (8 :: nat) # mac"
    using expire_online [OF live assms(3) to assms(4-12)] by blast
  have i: "ptl_inv {} q" using user_expire_inv [OF assms(1) q(1)] .
  have u: "u \<in> set (pt_users q)" "user_waits (pt_user q u)" "distinct (pt_users q)"
    using q(2,3) assms(2) i by (simp_all add: user_waits_def ptl_inv_def ptab_ok_def)
  obtain p' where "user_expire_n e u (nat 3) q = Some p'" "pt_users p' = remove1 u (pt_users q)" "pt_out p' = pt_out q"
    using expire_all [OF i u(1,2), of e] q(3,4) by auto
  then show ?thesis using q(1,5,6,7) u(3) by auto
qed

subsection \<open>A user who waits\<close>

definition portal_user_1 :: "user_st \<Rightarrow> int \<Rightarrow> portal_user" where
  "portal_user_1 st n = (login_user pe_1 auth_1 ''bob'' ''pw'' ''abcdef'')
    \<lparr>pu_st := st, pu_flg := ems_flag_set 0 EMS_FLG_ONLINE, pu_to := Some \<lparr>tv_sec = 9, tv_usec = 0\<rparr>, pu_retry_times := n,
     pu_retry_timeout := PORTAL_RETRY_TIMEOUT\<rparr>"

definition portal_2 :: "user_st \<Rightarrow> int \<Rightarrow> ems_portal" where
  "portal_2 st n = portal_1\<lparr>pt_users := [1], pt_live := [1], pt_user := (\<lambda>_. portal_user_1 st n)\<rparr>"

lemma inv_2: "1 \<le> n \<Longrightarrow> n \<le> 3 \<Longrightarrow> ptl_inv {} (portal_2 st n)"
  by (simp add: portal_2_def ptl_inv_def ptab_ok_def sess_inv_def portal_1_def sess_timed_def sess_1_def user_ok_def portal_user_1_def)

lemma online_2: "ems_flag_like (pu_flg (portal_user_1 st n)) EMS_FLG_ONLINE"
  using ems_flag_set_bit [of "0 :: flags" 31] by (simp add: portal_user_1_def EMS_FLG_ONLINE_def)

theorem portal_waiting_user_leaves_witness:
  "\<exists>p'. user_expire_n pe_1 1 3 (portal_2 u_ack_challenge 3) = Some p' \<and> 1 \<notin> set (pt_users p')"
  using portal_waiting_user_leaves [OF inv_2 [of 3 u_ack_challenge], of 1 pe_1]
  by (auto simp: portal_2_def user_waits_def portal_user_1_def)

theorem portal_unconfirmed_login_witness:
  "\<exists>q p'. user_expire pe_1 1 (portal_2 u_ack_auth 1) = Some q \<and> pt_out q = [logout_msg (portal_user_1 u_ack_auth 1) ''abcdef''] \<and>
    user_expire_n pe_1 1 3 q = Some p' \<and> 1 \<notin> set (pt_users p')"
proof -
  have u: "1 \<in> set (pt_users (portal_2 u_ack_auth 1))" "pt_user (portal_2 u_ack_auth 1) 1 = portal_user_1 u_ack_auth 1"
    "pt_sess (portal_2 u_ack_auth 1) = Some sess_1" "pt_out (portal_2 u_ack_auth 1) = []"
    by (simp_all add: portal_2_def portal_1_def)
  have x: "pu_retry_times (portal_user_1 u_ack_auth 1) = 1" "pu_st (portal_user_1 u_ack_auth 1) = u_ack_auth"
    "pu_mac (portal_user_1 u_ack_auth 1) = Some (snd (ems_bin2str ''abcdef'' 6 32))" "pe_alloc pe_1"
    by (simp_all add: portal_user_1_def login_user_def pe_1_def)
  have b: "buf_ok (buf_out sess_1)" "25 \<le> room (buf_out sess_1)" by (simp_all add: sess_1_def buf_ok_def room_def)
  show ?thesis using portal_unconfirmed_login [OF inv_2 u(1,2) x(1,2) online_2 _ x(3,4) u(3) b] u(4) by auto
qed

end
