(* ===== verification/Ems_Portal_Server.thy ===== *)
theory Ems_Portal_Server
  imports Ems_Portal_Wait
begin

text \<open>
  The portal client and its server: the connection and the registration it sends, what happens when no
  answer comes, and what holds of the users and of the session in every state that can be reached.
\<close>

subsection \<open>The message of a registration and of a heartbeat\<close>

definition info_vps :: "nat \<Rightarrow> string \<Rightarrow> portal_value_pair list" where
  "info_vps pkgtype sn =
    [\<lparr>vp_attr = ATTR_PKGTYPE, vp_id = 0x0b, vp_ty = TYPE_INT, lval = word_of_nat pkgtype, val = None\<rparr>,
     \<lparr>vp_attr = ATTR_AUTHTYPE, vp_id = 0x02, vp_ty = TYPE_STRING, lval = 3, val = Some ''PAP''\<rparr>,
     \<lparr>vp_attr = ATTR_NASNAME, vp_id = 0x03, vp_ty = TYPE_STRING, lval = word_of_nat (length sn), val = Some sn\<rparr>]"

text \<open>The bytes: the kind as a number of four bytes, the way of the login and the name of the access point.\<close>

definition info_msg :: "nat \<Rightarrow> string \<Rightarrow> string" where
  "info_msg pkgtype sn = char_of (0x0b :: nat) # char_of (6 :: nat) # be32 pkgtype @
    char_of (2 :: nat) # char_of (5 :: nat) # ''PAP'' @ char_of (3 :: nat) # char_of (length sn + 2) # sn"

definition sn_ok :: "string \<Rightarrow> bool" where
  "sn_ok sn \<longleftrightarrow> char_of (0 :: nat) \<notin> set sn \<and> length sn \<le> 253"

lemma c_str_text: "char_of (0 :: nat) \<notin> set s \<Longrightarrow> c_str (s @ [char_of (0 :: nat)]) = Some s"
  by (induction s) (auto simp: c_str_def split: if_splits)

lemma vp_text_str: "sn_ok s \<Longrightarrow> vp_text (s @ [char_of (0 :: nat)]) (-1) = Some (Some s)"
  by (simp add: vp_text_def c_str_text sn_ok_def)

lemma info_wf: "sn_ok sn \<Longrightarrow> \<forall>v \<in> set (info_vps k sn). vp_wf False v"
  by (simp add: info_vps_def sn_ok_def vp_wf_def ptl_dict_load_def g_dict_def ptl_attribute_def attr_defs)

lemma info_wire: "k < 2 ^ 32 \<Longrightarrow> vps_wire (info_vps k sn) = info_msg k sn"
  by (simp add: info_vps_def vp_wire_def info_msg_def unat_word_of_nat)

lemma info_length: "length (info_msg k sn) = 13 + length sn"
  by (simp add: info_msg_def be32_def)

lemma pkgtype_le: "k \<in> {1, 2} \<Longrightarrow> get_le32 (le16 k @ le16 0) = Some (word_of_nat k)"
  by (auto simp: get_le32_def le16_def uchr_def)

lemma info_ok:
  assumes "pe_alloc e" and "sn_ok (pe_sn e)" and "k \<in> {1, 2}"
  shows "ptl_info e k = Some (info_vps k (pe_sn e))"
proof -
  have pap: "vp_text (''PAP'' @ [char_of (0 :: nat)]) (-1) = Some (Some ''PAP'')" by (rule vp_text_str) (simp add: sn_ok_def char_of_def)
  show ?thesis using assms vp_text_str [OF assms(2)] pkgtype_le [OF assms(3)] pap
    by (simp add: ptl_info_def ptl_vp_append_def ptl_dict_load_def g_dict_def attr_defs info_vps_def)
qed

lemma fill_ok:
  assumes "pe_alloc e" and "sn_ok (pe_sn e)" and "k \<in> {1, 2}" and "buf_ok (buf_out t)"
    and "length (contents (buf_out t)) + 13 + length (pe_sn e) < length (bmem (buf_out t))"
  shows "\<exists>b. portal_fill_info e k (ptl_refresh t) = Some (t\<lparr>buf_out := b\<rparr>) \<and> buf_ok b \<and>
    contents b = contents (buf_out t) @ info_msg k (pe_sn e)"
proof -
  let ?b = "ems_buffer_refresh (buf_out t)"
  note r = refresh_eq [OF assms(4)]
  have k: "vps_wire (info_vps k (pe_sn e)) = info_msg k (pe_sn e)" using assms(3) by (intro info_wire) auto
  have "room ?b = length (bmem (buf_out t)) - length (contents (buf_out t))"
    using length_contents [OF r(1)] r by (simp add: room_def)
  then have room: "length (vps_wire (info_vps k (pe_sn e))) < room ?b" unfolding k using assms(5) by (simp add: info_length)
  note p = pack_list_ok [OF r(1) info_wf [OF assms(2)] room]
  show ?thesis using p info_ok [OF assms(1-3)] r(2) unfolding k
    by (intro exI [of _ "?b\<lparr>bmem := mem_write (bmem ?b) (bwr ?b) (info_msg k (pe_sn e)), bwr := bwr ?b + length (info_msg k (pe_sn e))\<rparr>"])
      (simp add: portal_fill_info_def ptl_refresh_def)
qed

subsection \<open>The connection\<close>

definition net_ok :: "ptl_env \<Rightarrow> ems_portal \<Rightarrow> bool" where
  "net_ok e p \<longleftrightarrow> (case pe_gethost e (pt_addr p) of None \<Rightarrow> False | Some a \<Rightarrow> 0 < pe_socket e \<and> pe_connect e a (pt_port p))"

lemma net_ok_cong: "pt_addr p = pt_addr q \<Longrightarrow> pt_port p = pt_port q \<Longrightarrow> net_ok e p = net_ok e q"
  by (simp add: net_ok_def cong: option.case_cong)

lemma connected:
  assumes "net_ok e p"
  shows "portal_connect e (sess_target (pt_addr p) (pt_port p) t) =
    (EMS_OK, (sess_target (pt_addr p) (pt_port p) t)\<lparr>sock := (sock (sess_target (pt_addr p) (pt_port p) t))\<lparr>s_fd := pe_socket e\<rparr>\<rparr>)"
  using assms by (cases "pe_gethost e (pt_addr p)") (simp_all add: portal_connect_def net_ok_def ems_sock_setfd_def)

lemma not_connected:
  assumes "\<not> net_ok e p"
  shows "portal_connect e (sess_target (pt_addr p) (pt_port p) t) = (EMS_ERR, sess_target (pt_addr p) (pt_port p) t)"
  using assms by (auto simp: portal_connect_def net_ok_def split: option.splits)

lemma new_portal_session:
  assumes "pe_alloc e" and "pt_sess p = None"
  shows "\<exists>t. portal_session e p = Some t \<and> buf_ok (buf_out t) \<and> contents (buf_out t) = [] \<and> length (bmem (buf_out t)) = 2048 \<and> s_fd (sock t) = 0"
  using assms by (simp add: portal_session_def ems_session_new_def ems_session_init_def ems_buffer_init_def ems_sock_init_def
      ems_buffer_increase_def ems_buffer_refresh_def buf_trash_def buf_left_def buf_len_def buf_size_def EMS_BUFFER_1K_def Let_def
      contents_def buf_ok_def del: upt_Suc)

lemma watch_fields [simp]:
  "buf_out (pt_watch e f ms t) = buf_out t" "sock (pt_watch e f ms t) = sock t" "s_to (pt_watch e f ms t) = Some (timeout_deadline (pe_now e) ms)"
  "s_evt (pt_watch e f ms t) = Some (f OR EMS_EVT_EDGE_TRIGGER)" "s_fdno (pt_watch e f ms t) = s_fd (sock t)"
  by (simp_all add: pt_watch_def sess_timeout_set_def sess_event_set_def)

text \<open>A registration under way: its message is the last of what is to be sent, and the session waits to send it.\<close>

definition registering :: "ptl_env \<Rightarrow> string \<Rightarrow> ems_portal \<Rightarrow> bool" where
  "registering e old p \<longleftrightarrow> pt_st p = st_reg \<and> pt_lasterr p = 0 \<and> pt_retry_times p = 3 \<and> pt_reg p = reg_period p sdiv hb_period p \<and>
    (\<exists>t. pt_sess p = Some t \<and> contents (buf_out t) = old @ info_msg 2 (pe_sn e) \<and> buf_ok (buf_out t) \<and>
      s_fd (sock t) = pe_socket e \<and> s_fdno t = pe_socket e \<and> sess_wants t EMS_EVT_WRITE \<and> s_to t = Some (timeout_deadline (pe_now e) 9000))"

lemma start_registers:
  assumes "portal_session e p = Some t" and "net_ok e p" and "pe_alloc e" and "sn_ok (pe_sn e)" and "hb_period p \<noteq> 0"
    and "buf_ok (buf_out t)" and "length (contents (buf_out t)) + 13 + length (pe_sn e) < length (bmem (buf_out t))"
  shows "\<exists>p'. portal_start e p = Some (EMS_OK, p') \<and> registering e (contents (buf_out t)) p' \<and>
    pt_users p' = pt_users p \<and> pt_out p' = pt_out p"
proof -
  let ?t = "(sess_target (pt_addr p) (pt_port p) t)\<lparr>sock := (sock (sess_target (pt_addr p) (pt_port p) t))\<lparr>s_fd := pe_socket e\<rparr>\<rparr>"
  obtain b where b: "portal_fill_info e 2 (ptl_refresh ?t) = Some (?t\<lparr>buf_out := b\<rparr>)" "buf_ok b"
    "contents b = contents (buf_out t) @ info_msg 2 (pe_sn e)"
    using fill_ok [OF assms(3,4), of 2 ?t] assms(6,7) by auto
  then show ?thesis using assms(1,5) connected [OF assms(2), of t]
    by (simp add: portal_start_def ptl_status_into_reg_def portal_fill_reg_info_def registering_def PORTAL_RETRY_TIMES_def
        PORTAL_RETRY_TIMEOUT_def sess_wants_def ems_flag_like_def EMS_EVT_WRITE_def EMS_EVT_EDGE_TRIGGER_def)
qed

text \<open>
  C12: A portal client that can reach its server registers with it: it is connected, the buffer of its session
  holds exactly the registration, which the client's own parser reads back as the kind, the way of the
  login and the name of the access point, the session waits to send it, and a timer of nine seconds runs.
\<close>

theorem portal_start_registers:
  assumes "pt_sess p = None" and "net_ok e p" and "pe_alloc e" and "sn_ok (pe_sn e)" and "hb_period p \<noteq> 0"
  shows "\<exists>p' t. portal_start e p = Some (EMS_OK, p') \<and> registering e [] p' \<and> pt_sess p' = Some t \<and>
    ptl_parse_ctx True [] (contents (buf_out t)) 0 (int (length (contents (buf_out t)))) (-1) False =
      Some (int (length (contents (buf_out t))), info_vps 2 (pe_sn e))"
proof -
  obtain t where t: "portal_session e p = Some t" "buf_ok (buf_out t)" "contents (buf_out t) = []" "length (bmem (buf_out t)) = 2048"
    using new_portal_session [OF assms(3,1)] by blast
  have "length (contents (buf_out t)) + 13 + length (pe_sn e) < length (bmem (buf_out t))" using assms(4) t(3,4) by (simp add: sn_ok_def)
  from start_registers [OF t(1) assms(2-5) t(2) this] obtain p' t' where p': "portal_start e p = Some (EMS_OK, p')" "registering e [] p'"
    "pt_sess p' = Some t'" "contents (buf_out t') = info_msg 2 (pe_sn e)"
    using t(3) by (auto simp: registering_def)
  have "ptl_parse_ctx True [] ([] @ vps_wire (info_vps 2 (pe_sn e)) @ []) (length []) (int (length (vps_wire (info_vps 2 (pe_sn e))))) (-1) False =
      Some (int (length (vps_wire (info_vps 2 (pe_sn e)))), [] @ info_vps 2 (pe_sn e))"
    using parse_ctx_ok [OF info_wf [OF assms(4), of 2], of "-1" "int (length (vps_wire (info_vps 2 (pe_sn e))))" "[]" "[]" "[]"] by simp
  moreover have "vps_wire (info_vps 2 (pe_sn e)) = info_msg 2 (pe_sn e)" by (rule info_wire) simp
  ultimately have "ptl_parse_ctx True [] (info_msg 2 (pe_sn e)) 0 (int (length (info_msg 2 (pe_sn e)))) (-1) False =
      Some (int (length (info_msg 2 (pe_sn e))), info_vps 2 (pe_sn e))" by (simp only: append_Nil append_Nil2 list.size)
  then show ?thesis using p' by auto
qed

definition portal_0 :: ems_portal where "portal_0 = portal_1\<lparr>pt_sess := None, pt_st := st_stopped\<rparr>"

theorem portal_start_registers_witness:
  "\<exists>p'. portal_start pe_1 portal_0 = Some (EMS_OK, p') \<and> registering pe_1 [] p'"
proof -
  have "pt_sess portal_0 = None" "net_ok pe_1 portal_0" "pe_alloc pe_1" "sn_ok (pe_sn pe_1)" "hb_period portal_0 \<noteq> 0"
    by (simp_all add: portal_0_def portal_1_def pe_1_def net_ok_def sn_ok_def char_of_def)
  from portal_start_registers [OF this] show ?thesis by blast
qed

subsection \<open>A server that does not answer\<close>

text \<open>The timer of the session runs out.\<close>

definition ptl_expire :: "ptl_env \<Rightarrow> ems_portal \<Rightarrow> ems_portal option" where
  "ptl_expire e p =
    (case pt_sess p of
       None \<Rightarrow> None
     | Some t \<Rightarrow> if s_to t = None then None else ptl_timeout_cb e (p\<lparr>pt_sess := Some (sess_timeout_cancel t)\<rparr>))"

fun ptl_expire_n :: "ptl_env \<Rightarrow> nat \<Rightarrow> ems_portal \<Rightarrow> ems_portal option" where
  "ptl_expire_n e 0 p = Some p"
| "ptl_expire_n e (Suc n) p = Option.bind (ptl_expire e p) (ptl_expire_n e n)"

text \<open>The client waits for an answer, with \<open>n\<close> attempts and what is in the buffer behind its first byte.\<close>

definition asking :: "nat \<Rightarrow> char ems_buffer \<Rightarrow> ems_portal \<Rightarrow> bool" where
  "asking n b p \<longleftrightarrow> pt_st p \<in> {st_reg, st_hb} \<and> pt_retry_times p = int n \<and>
    (\<exists>t. pt_sess p = Some t \<and> s_to t \<noteq> None \<and> buf_ok (buf_out t) \<and> (buf_out t)\<lparr>brd := 0\<rparr> = b\<lparr>brd := 0\<rparr>)"

definition given_up :: "ptl_env \<Rightarrow> char ems_buffer \<Rightarrow> ems_portal \<Rightarrow> bool" where
  "given_up e b p \<longleftrightarrow> pt_st p = st_err \<and> pt_lasterr p = ERR_PORTAL_NETWORK \<and>
    (\<exists>t. pt_sess p = Some t \<and> s_fd (sock t) \<le> 0 \<and> s_evt t = None \<and> s_to t = Some (timeout_deadline (pe_now e) 30000) \<and>
      buf_ok (buf_out t) \<and> (buf_out t)\<lparr>brd := 0\<rparr> = b\<lparr>brd := 0\<rparr>)"

lemma rewound: "(x :: char ems_buffer)\<lparr>brd := 0\<rparr> = b\<lparr>brd := 0\<rparr> \<Longrightarrow> bwr x = bwr b \<and> bmem x = bmem b"
  by (cases x; cases b) simp

lemma asks_again:
  assumes "asking (Suc (Suc n)) b p"
  shows "\<exists>q t. ptl_expire e p = Some q \<and> asking (Suc n) b q \<and> pt_sess q = Some t \<and> buf_out t = b\<lparr>brd := 0\<rparr> \<and> sess_wants t EMS_EVT_WRITE \<and>
    pt_users q = pt_users p \<and> pt_out q = pt_out p"
  using assms
  by (auto simp: asking_def ptl_expire_def ptl_timeout_cb_def ptl_timeout_run_def portal_retry_send_def Let_def pt_sess_upd_def seek_start
      buf_ok_def sess_timeout_cancel_def sess_wants_def ems_flag_like_def EMS_EVT_WRITE_def EMS_EVT_EDGE_TRIGGER_def dest: rewound)

lemma gives_up:
  assumes "asking (Suc 0) b p"
  shows "\<exists>q. ptl_expire e p = Some q \<and> given_up e b q \<and> pt_users q = pt_users p \<and>
    pt_out q = pt_out p @ [PtlSend ty_portal ty_fw EMS_APP_STOP None]"
  using assms
  by (auto simp: asking_def given_up_def ptl_expire_def ptl_timeout_cb_def ptl_timeout_run_def portal_retry_send_def Let_def ptl_fail_def
      ptl_to_err_def portal_err_def ptl_emit_def sess_timeout_cancel_def sess_event_cancel_def sess_timeout_set_def ems_sock_close_def
      PORTAL_ERROR_TIMEOUT_def)

lemma gives_up_after:
  "asking (Suc n) b p \<Longrightarrow> \<exists>q. ptl_expire_n e (Suc n) p = Some q \<and> given_up e b q \<and> pt_users q = pt_users p \<and>
    pt_out q = pt_out p @ [PtlSend ty_portal ty_fw EMS_APP_STOP None]"
proof (induction n arbitrary: p)
  case 0
  then show ?case using gives_up [of b p e] by auto
next
  case (Suc n)
  obtain q t where q: "ptl_expire e p = Some q" "asking (Suc n) b q" "pt_users q = pt_users p" "pt_out q = pt_out p"
    using asks_again [OF Suc.prems, of e] by blast
  from Suc.IH [OF q(2)] show ?case using q by simp
qed

lemma reconnects:
  assumes "given_up e b p" and "net_ok e' p" and "pe_alloc e'" and "sn_ok (pe_sn e')" and "hb_period p \<noteq> 0"
    and "bwr b + 13 + length (pe_sn e') < length (bmem b)"
  shows "\<exists>q old. ptl_expire e' p = Some q \<and> registering e' old q \<and> pt_users q = pt_users p"
proof -
  obtain t where t: "s_to t \<noteq> None" "(buf_out t)\<lparr>brd := 0\<rparr> = b\<lparr>brd := 0\<rparr>" "pt_st p = st_err" "buf_ok (buf_out t)" "pt_sess p = Some t"
    using assms(1) by (auto simp: given_up_def)
  let ?t = "sess_timeout_cancel t"
  let ?p = "p\<lparr>pt_sess := Some ?t, pt_st := st_start\<rparr>"
  have b: "bwr (buf_out t) = bwr b" "bmem (buf_out t) = bmem b"
    using rewound [OF t(2)] by simp_all
  have ok: "buf_ok (buf_out ?t)" "length (contents (buf_out ?t)) + 13 + length (pe_sn e') < length (bmem (buf_out ?t))"
    using assms(6) t(4) b by (simp_all add: buf_ok_def contents_def sess_timeout_cancel_def)
  have "portal_session e' ?p = Some ?t" "net_ok e' ?p" "hb_period ?p \<noteq> 0"
    using assms(2,5) by (simp_all add: portal_session_def net_ok_def cong: option.case_cong)
  from start_registers [OF this(1,2) assms(3,4) this(3) ok] obtain q where
    q: "portal_start e' ?p = Some (EMS_OK, q)" "registering e' (contents (buf_out ?t)) q" "pt_users q = pt_users ?p" by blast
  have "ptl_expire e' p = map_option snd (portal_start e' ?p)"
    using t(1,3,5) by (auto simp: ptl_expire_def ptl_timeout_cb_def ptl_timeout_run_def portal_change_status_def)
  then show ?thesis using q by auto
qed

text \<open>
  C8: A server that does not answer a registration or a heartbeat is asked again while attempts are left, from
  the first byte of the buffer, and given up with the last one: the socket is closed, the firewall is told
  to stop and a timer of thirty seconds runs; the users stay. When it runs out and the network works, the
  client registers again.
\<close>

theorem portal_unanswered:
  assumes "asking (Suc n) b p"
  shows "(0 < n \<longrightarrow> (\<exists>q t. ptl_expire e p = Some q \<and> asking n b q \<and> pt_sess q = Some t \<and> buf_out t = b\<lparr>brd := 0\<rparr> \<and>
      sess_wants t EMS_EVT_WRITE)) \<and>
    (\<exists>q. ptl_expire_n e (Suc n) p = Some q \<and> given_up e b q \<and> pt_users q = pt_users p \<and>
      pt_out q = pt_out p @ [PtlSend ty_portal ty_fw EMS_APP_STOP None] \<and>
      (net_ok e' q \<and> pe_alloc e' \<and> sn_ok (pe_sn e') \<and> hb_period q \<noteq> 0 \<and> bwr b + 13 + length (pe_sn e') < length (bmem b) \<longrightarrow>
        (\<exists>r old. ptl_expire e' q = Some r \<and> registering e' old r \<and> pt_users r = pt_users q)))"
proof (intro conjI impI)
  assume "0 < n"
  then obtain m where "n = Suc m" by (cases n) auto
  then show "\<exists>q t. ptl_expire e p = Some q \<and> asking n b q \<and> pt_sess q = Some t \<and> buf_out t = b\<lparr>brd := 0\<rparr> \<and> sess_wants t EMS_EVT_WRITE"
    using asks_again [of m b p e] assms by blast
next
  obtain q where q: "ptl_expire_n e (Suc n) p = Some q" "given_up e b q" "pt_users q = pt_users p"
    "pt_out q = pt_out p @ [PtlSend ty_portal ty_fw EMS_APP_STOP None]" using gives_up_after [OF assms, of e] by blast
  then show "\<exists>q. ptl_expire_n e (Suc n) p = Some q \<and> given_up e b q \<and> pt_users q = pt_users p \<and>
      pt_out q = pt_out p @ [PtlSend ty_portal ty_fw EMS_APP_STOP None] \<and>
      (net_ok e' q \<and> pe_alloc e' \<and> sn_ok (pe_sn e') \<and> hb_period q \<noteq> 0 \<and> bwr b + 13 + length (pe_sn e') < length (bmem b) \<longrightarrow>
        (\<exists>r old. ptl_expire e' q = Some r \<and> registering e' old r \<and> pt_users r = pt_users q))"
    using reconnects [OF q(2), of e'] by (intro exI [of _ q]) blast
qed

definition portal_3 :: ems_portal where "portal_3 = portal_1\<lparr>pt_st := st_reg\<rparr>"

theorem portal_unanswered_witness:
  "asking 3 (buf_out sess_1) portal_3 \<and> (\<exists>q. ptl_expire_n pe_1 3 portal_3 = Some q \<and> given_up pe_1 (buf_out sess_1) q)"
proof -
  have a: "asking (Suc 2) (buf_out sess_1) portal_3" by (simp add: asking_def portal_3_def portal_1_def sess_1_def buf_ok_def)
  moreover have "Suc 2 = (3 :: nat)" by simp
  ultimately show ?thesis using portal_unanswered [OF a, of pe_1] by metis
qed

end
