(* ===== verification/Ems_Portal_Fault.thy ===== *)
theory Ems_Portal_Fault
  imports Ems_Portal_Server Ems_Radius_Answer
begin

text \<open>
  What holds of the portal module in every state that can be reached, and where it fails: requests that
  the client does not survive or never finishes, timers and sessions that outlive what they belong to, and
  users that are forgotten without a logout.
\<close>

subsection \<open>Reachable states\<close>

text \<open>
  C3: In every state that the module can reach, whatever messages, events and timers came, the list holds
  exactly the users in memory, each once and no two with one address; a user who waits for a confirmation
  has a timer and one to three attempts; there are users only with a session, and every session has the
  timer of the client, so the client is never left without a next step.
\<close>

theorem portal_users_invariant:
  assumes "ptl_initial m0" and "ptl_step\<^sup>*\<^sup>* m0 m" and "pm_ctx m = Some p"
  shows "distinct (pt_users p) \<and> set (pt_live p) = set (pt_users p) \<and>
    (\<forall>u \<in> set (pt_users p). ptl_user_find p (pu_ip (pt_user p u)) = Some u) \<and>
    (\<forall>u \<in> set (pt_users p). user_waits (pt_user p u) \<longrightarrow>
      pu_to (pt_user p u) \<noteq> None \<and> 1 \<le> pu_retry_times (pt_user p u) \<and> pu_retry_times (pt_user p u) \<le> 3) \<and>
    (pt_users p \<noteq> [] \<or> pt_st p \<in> {st_reg, st_normal, st_hb} \<longrightarrow> pt_sess p \<noteq> None) \<and>
    (\<forall>t. pt_sess p = Some t \<longrightarrow> s_to t \<noteq> None \<and> timeout_cb t = Some PTL_TIMEOUT_CB)"
proof -
  have i: "ptl_inv {} p" using ptls.reachable_inv [OF assms(1,2)] assms(3) by (simp add: ptl_mod_inv_def)
  have "ptl_user_find p (pu_ip (pt_user p u)) = Some u" if u: "u \<in> set (pt_users p)" for u
  proof (cases "ptl_user_find p (pu_ip (pt_user p u))")
    case None
    then show ?thesis using u by (auto simp: ptl_user_find_def find_None_iff)
  next
    case (Some v)
    then have "v \<in> set (pt_users p)" "pu_ip (pt_user p v) = pu_ip (pt_user p u)" using find_in [OF Some] by simp_all
    then show ?thesis using i u Some by (auto simp: ptl_inv_def ptab_ok_def dest: inj_onD)
  qed
  then show ?thesis using i
    by (auto simp: ptl_inv_def ptab_ok_def sess_inv_def sess_timed_def user_ok_def)
qed

subsection \<open>A first connection that fails\<close>

lemma start_fails:
  assumes "pe_alloc e" and "pt_sess p = None" and "\<not> net_ok e p"
  shows "\<exists>p' t. portal_start e p = Some (EMS_ERR, p') \<and> pt_st p' = st_err \<and> pt_lasterr p' = ERR_PORTAL_NETWORK \<and> pt_sess p' = Some t \<and>
    buf_ok (buf_out t) \<and> contents (buf_out t) = [] \<and> length (bmem (buf_out t)) = 2048 \<and>
    s_to t = Some (timeout_deadline (pe_now e) 30000) \<and> pt_addr p' = pt_addr p \<and> pt_port p' = pt_port p \<and> hb_period p' = hb_period p"
proof -
  obtain t where "portal_session e p = Some t" "buf_ok (buf_out t)" "contents (buf_out t) = []" "length (bmem (buf_out t)) = 2048"
    using new_portal_session [OF assms(1,2)] by blast
  then show ?thesis using not_connected [OF assms(3), of t]
    by (simp add: portal_start_def ptl_fail_def ptl_to_err_def portal_err_def ptl_emit_def Let_def sess_timeout_cancel_def sess_event_cancel_def
        sess_timeout_set_def PORTAL_ERROR_TIMEOUT_def)
qed

lemma err_expire:
  assumes "pt_st p = st_err" and "pt_sess p = Some t" and "s_to t \<noteq> None"
  shows "ptl_expire e p = map_option snd (portal_start e (p\<lparr>pt_sess := Some (sess_timeout_cancel t), pt_st := st_start\<rparr>))"
  using assms by (auto simp: ptl_expire_def ptl_timeout_cb_def ptl_timeout_run_def portal_change_status_def)

lemma failed_start:
  assumes "pm_ctx m = Some p" and "\<not> pm_run m" and "pt_sess p = None" and "pe_enable e" and "pe_alloc e"
    and "\<not> net_ok e (p\<lparr>pt_addr := pe_addr e, pt_port := pe_port e\<rparr>)"
  shows "\<exists>p1 t. portal_process e EMS_APP_START root m = Some (EMS_OK, root, m\<lparr>pm_ctx := Some p1, pm_run := False\<rparr>) \<and>
    pt_st p1 = st_err \<and> pt_sess p1 = Some t \<and> buf_ok (buf_out t) \<and> contents (buf_out t) = [] \<and> length (bmem (buf_out t)) = 2048 \<and>
    s_to t \<noteq> None \<and> pt_addr p1 = pe_addr e \<and> pt_port p1 = pe_port e \<and> hb_period p1 = pe_heartbeat e"
proof -
  define p0 where "p0 = (let p1 = p\<lparr>pt_addr := pe_addr e, pt_port := pe_port e, reg_period := pe_register e, hb_period := pe_heartbeat e\<rparr>
    in if pe_addr e \<noteq> ''127.0.0.1'' then p1\<lparr>pt_ready := True\<rparr> else p1)\<lparr>pt_st := st_start\<rparr>"
  have p0: "pt_sess p0 = None" "pt_addr p0 = pe_addr e" "pt_port p0 = pe_port e" "hb_period p0 = pe_heartbeat e"
    using assms(3) by (simp_all add: p0_def Let_def)
  have s: "ptl_start e p = portal_start e p0"
    using assms(4) by (simp add: ptl_start_def Let_def p0_def portal_change_status_def)
  have "\<not> net_ok e p0" using assms(6) net_ok_cong [of p0 "p\<lparr>pt_addr := pe_addr e, pt_port := pe_port e\<rparr>" e] p0 by simp
  from start_fails [OF assms(5) p0(1) this] show ?thesis using assms(1,2) s p0 by (auto simp: portal_process_def portal_run_def)
qed

text \<open>
  When the first connection fails, the module does not count as running although its timer is set: a
  request to stop it is ignored, and thirty seconds later, when the network works, it connects and
  registers with the server it was stopped for.
\<close>

theorem portal_stop_after_failed_start:
  assumes "pm_ctx m = Some p" and "\<not> pm_run m" and "pt_sess p = None" and "pe_enable e" and "pe_alloc e"
    and "\<not> net_ok e (p\<lparr>pt_addr := pe_addr e, pt_port := pe_port e\<rparr>)"
    and "net_ok e' (p\<lparr>pt_addr := pe_addr e, pt_port := pe_port e\<rparr>)" and "pe_alloc e'" and "sn_ok (pe_sn e')" and "pe_heartbeat e \<noteq> 0"
  shows "\<exists>m1 p1 q old. portal_process e EMS_APP_START root m = Some (EMS_OK, root, m1) \<and>
    portal_process e EMS_APP_STOP root m1 = Some (EMS_OK, root, m1) \<and> \<not> pm_run m1 \<and> pm_ctx m1 = Some p1 \<and>
    ptl_expire e' p1 = Some q \<and> registering e' old q"
proof -
  obtain p1 t where start: "portal_process e EMS_APP_START root m = Some (EMS_OK, root, m\<lparr>pm_ctx := Some p1, pm_run := False\<rparr>)"
    and p1: "pt_st p1 = st_err" "pt_sess p1 = Some t" "buf_ok (buf_out t)" "contents (buf_out t) = []" "length (bmem (buf_out t)) = 2048"
      "s_to t \<noteq> None" "pt_addr p1 = pe_addr e" "pt_port p1 = pe_port e" "hb_period p1 = pe_heartbeat e"
    using failed_start [OF assms(1-6), of root] by blast
  let ?m1 = "m\<lparr>pm_ctx := Some p1, pm_run := False\<rparr>" and ?t = "sess_timeout_cancel t"
  let ?p1 = "p1\<lparr>pt_sess := Some ?t, pt_st := st_start\<rparr>"
  have stop: "portal_process e EMS_APP_STOP root ?m1 = Some (EMS_OK, root, ?m1)"
    by (simp add: portal_process_def portal_run_def EMS_APP_START_def EMS_APP_STOP_def)
  have ok: "portal_session e' ?p1 = Some ?t" "net_ok e' ?p1" "hb_period ?p1 \<noteq> 0" "buf_ok (buf_out ?t)"
    "length (contents (buf_out ?t)) + 13 + length (pe_sn e') < length (bmem (buf_out ?t))"
    using assms(7,9,10) p1 net_ok_cong [of ?p1 "p\<lparr>pt_addr := pe_addr e, pt_port := pe_port e\<rparr>" e'] by (simp_all add: portal_session_def sess_timeout_cancel_def sn_ok_def)
  from start_registers [OF ok(1,2) assms(8,9) ok(3-5)] obtain q where "portal_start e' ?p1 = Some (EMS_OK, q)" "registering e' (contents (buf_out ?t)) q" by blast
  then show ?thesis using start stop err_expire [OF p1(1,2,6), of e'] by (intro exI [of _ ?m1]) auto
qed

definition pe_down :: ptl_env where "pe_down = pe_1\<lparr>pe_gethost := (\<lambda>_. None)\<rparr>"

definition ptl_m0 :: ptl_mod where "ptl_m0 = snd (portal_init pe_1 portal_0 \<lparr>pm_run = False, pm_ctx = None\<rparr>)"

lemma ptl_m0_ctx: "\<exists>p. pm_ctx ptl_m0 = Some p \<and> \<not> pm_run ptl_m0 \<and> pt_sess p = None"
  by (simp add: ptl_m0_def portal_init_def pe_1_def)

lemma down_1: "pe_enable pe_down" "pe_alloc pe_down" "\<not> net_ok pe_down p" "fresh_ptl pe_down" "pe_addr pe_down = ''10.0.0.1''" "pe_heartbeat pe_down = 20"
  by (simp_all add: pe_down_def pe_1_def net_ok_def fresh_ptl_def)

lemma up_1: "net_ok pe_1 p" "pe_alloc pe_1" "sn_ok (pe_sn pe_1)"
  by (simp_all add: net_ok_def pe_1_def sn_ok_def char_of_def)

theorem portal_users_invariant_witness:
  "\<exists>m p t. ptl_step\<^sup>*\<^sup>* ptl_m0 m \<and> pm_ctx m = Some p \<and> pt_sess p = Some t \<and> timeout_cb t = Some PTL_TIMEOUT_CB"
proof -
  have i: "ptl_initial ptl_m0" unfolding ptl_initial_def
    by (intro exI [of _ pe_1] exI [of _ portal_0]) (simp add: ptl_m0_def portal_0_def portal_1_def)
  obtain p where p: "pm_ctx ptl_m0 = Some p" "\<not> pm_run ptl_m0" "pt_sess p = None" using ptl_m0_ctx by blast
  obtain p1 t where a: "portal_process pe_down EMS_APP_START None ptl_m0 = Some (EMS_OK, None, ptl_m0\<lparr>pm_ctx := Some p1, pm_run := False\<rparr>)"
    "pt_sess p1 = Some t" using failed_start [OF p down_1(1,2,3), of None] by blast
  let ?m = "ptl_m0\<lparr>pm_ctx := Some p1, pm_run := False\<rparr>"
  have s: "ptl_step\<^sup>*\<^sup>* ptl_m0 ?m" using ptl_step.message [OF down_1(4) a(1)] by simp
  have "pm_ctx ?m = Some p1" by simp
  from portal_users_invariant [OF i s this] a(2) have "timeout_cb t = Some PTL_TIMEOUT_CB" by blast
  then show ?thesis using s a(2) by (intro exI [of _ ?m] exI [of _ p1] exI [of _ t]) simp
qed

theorem portal_stop_after_failed_start_witness:
  "\<exists>m1 p1 q old. portal_process pe_down EMS_APP_START None ptl_m0 = Some (EMS_OK, None, m1) \<and>
    portal_process pe_down EMS_APP_STOP None m1 = Some (EMS_OK, None, m1) \<and> pm_ctx m1 = Some p1 \<and>
    ptl_expire pe_1 p1 = Some q \<and> registering pe_1 old q"
proof -
  obtain p where p: "pm_ctx ptl_m0 = Some p" "\<not> pm_run ptl_m0" "pt_sess p = None" using ptl_m0_ctx by blast
  from portal_stop_after_failed_start [OF p down_1(1,2,3) up_1, of None] down_1(6) show ?thesis by auto
qed

subsection \<open>Requests\<close>

lemma new_login:
  assumes "h_ty auth = ty_req_auth" and "h_auth_ty auth = 1" and "vp_value attr ATTR_USERNAME = Some name"
    and "vp_value attr ATTR_PASSWORD = Some pass" and "vp_value attr ATTR_USERMAC = Some mac"
    and "ptl_user_find p (hdr_ip auth) = None" and "pe_new e (pt_live p) = Some u"
  shows "ptl_process_evt e auth attr p =
    (let m = if mac = [] then pt_mac p else snd (ems_bin2str mac (int (length mac)) 32);
         x = (ptl_user_new e)\<lparr>pu_name := c_text name, pu_ip := hdr_ip auth, pu_flg := 0, pu_st := u_req_auth, pu_serial := h_serial auth,
           pu_reqid := h_reqid auth, pu_auth_ty := 1, pu_pass := c_text pass, pu_mac := Some m\<rparr>
     in map_option (\<lambda>t. (EMS_OK, p\<lparr>pt_user := (pt_user p)(u := x), pt_live := u # pt_live p, pt_users := pt_users p @ [u], pt_mac := m,
       pt_out := pt_out p @ [PtlSend ty_portal ty_radius EMS_APP_CMD_RADIUS_AUTH
         (Some (JObj [(''username'', JStr (c_text name)), (''userpass'', JStr (c_text pass)), (''userip'', JStr (hdr_ip auth)), (''usermac'', JStr t)]))]\<rparr>))
       (ptl_mac_to_radius (Some m)))"
proof -
  have pass: "auth_pass auth attr = Some (c_text pass)" using assms(2,4) by (simp add: auth_pass_def)
  have new: "pu_flg (ptl_user_new e) = 0" by (simp add: ptl_user_new_def)
  define m where "m = (if mac = [] then pt_mac p else snd (ems_bin2str mac (int (length mac)) 32))"
  have am: "auth_mac e (hdr_ip auth) attr (pt_mac p) = Some (True, m)" using assms(5) by (simp add: auth_mac_def m_def)
  note defs = ptl_process_evt_def ptl_evt_req_auth_def ptl_user_add_def req_auth_login_def pu_upd_def pu_get_def auth_obj_def ptl_emit_def
  show ?thesis
  proof (cases "ptl_mac_to_radius (Some m)")
    case None
    then show ?thesis using assms(1-4,6,7) portal_types pass new am unfolding Let_def m_def [symmetric] by (simp add: defs)
  next
    case (Some x)
    show ?thesis using assms(1-4,6,7) portal_types pass new am unfolding Let_def m_def [symmetric] Some
      by (simp add: defs Some; rule ems_portal.equality; simp)
  qed
qed

text \<open>
  C20: A request for a login by password with all its attributes, for a user the client does not have, is
  carried out exactly when its hardware address has at most ten bytes: from eleven bytes on, and the
  length is the server's, the text with the colons is written past the end of its array.
\<close>

theorem portal_mac_bound:
  assumes "h_ty auth = ty_req_auth" and "h_auth_ty auth = 1" and "vp_value attr ATTR_USERNAME = Some name"
    and "vp_value attr ATTR_PASSWORD = Some pass" and "vp_value attr ATTR_USERMAC = Some mac" and "mac \<noteq> []"
    and "ptl_user_find p (hdr_ip auth) = None" and "pe_new e (pt_live p) = Some u"
  shows "(\<exists>p'. ptl_process_evt e auth attr p = Some (EMS_OK, p')) \<longleftrightarrow> length mac \<le> 10"
  using new_login [OF assms(1-5,7,8)] mac_to_radius [OF assms(6)] assms(6) by (auto simp: Let_def)

theorem portal_mac_bound_witness:
  "\<not> (\<exists>p'. ptl_process_evt pe_1 auth_1 [text_vp ATTR_USERNAME ''bob'', text_vp ATTR_PASSWORD ''pw'', text_vp ATTR_USERMAC ''abcdefghijk''] portal_1
    = Some (EMS_OK, p'))"
proof -
  let ?a = "[text_vp ATTR_USERNAME ''bob'', text_vp ATTR_PASSWORD ''pw'', text_vp ATTR_USERMAC ''abcdefghijk'']"
  have h: "h_ty auth_1 = ty_req_auth" "h_auth_ty auth_1 = 1" "vp_value ?a ATTR_USERNAME = Some ''bob''"
    "vp_value ?a ATTR_PASSWORD = Some ''pw''" "vp_value ?a ATTR_USERMAC = Some ''abcdefghijk''"
    by (simp_all add: auth_1_def text_vp_def vp_value_def ptl_vp_find_def attr_defs)
  from portal_mac_bound [OF h _ find_1 new_1] show ?thesis by simp
qed

text \<open>
  An attribute with the hardware address that has no byte does not count as missing: the client asks the
  RADIUS client to log the user in with the address of the user whose request came before.
\<close>

theorem portal_mac_of_other_user:
  assumes "login_ready auth attr name pass mac" and "ptl_user_find p (hdr_ip auth) = None" and "pe_new e (pt_live p) = Some u"
    and "ptl_process_evt e auth attr p = Some (EMS_OK, p1)"
    and "h_ty auth2 = ty_req_auth" and "h_auth_ty auth2 = 1" and "vp_value attr2 ATTR_USERNAME = Some name2"
    and "vp_value attr2 ATTR_PASSWORD = Some pass2" and "vp_value attr2 ATTR_USERMAC = Some []"
    and "ptl_user_find p1 (hdr_ip auth2) = None" and "pe_new e (pt_live p1) = Some u2"
  shows "\<exists>p2. ptl_process_evt e auth2 attr2 p1 = Some (EMS_OK, p2) \<and>
    pt_out p2 = pt_out p @ [PtlSend ty_portal ty_radius EMS_APP_CMD_RADIUS_AUTH (Some (login_obj auth name pass mac)),
      PtlSend ty_portal ty_radius EMS_APP_CMD_RADIUS_AUTH (Some (login_obj auth2 name2 pass2 mac))]"
proof -
  have mac: "mac \<noteq> []" "length mac \<le> 10" using assms(1) by (simp_all add: login_ready_def)
  have p1: "pt_mac p1 = snd (ems_bin2str mac (int (length mac)) 32)"
    "pt_out p1 = pt_out p @ [PtlSend ty_portal ty_radius EMS_APP_CMD_RADIUS_AUTH (Some (login_obj auth name pass mac))]"
    using assms(4) login_step [OF assms(1-3)] by auto
  show ?thesis using new_login [OF assms(5-11)] mac_to_radius [OF mac(1)] mac(2) p1 by (simp add: Let_def login_obj_def)
qed

definition auth_2 :: portal_auth_hdr where
  "auth_2 = auth_1\<lparr>h_ip := map char_of [10, 0, 0, 8 :: nat]\<rparr>"

definition attr_2 :: "portal_value_pair list" where
  "attr_2 = [text_vp ATTR_USERNAME ''eve'', text_vp ATTR_PASSWORD ''pw2'', text_vp ATTR_USERMAC []]"

lemma ips_differ: "hdr_ip auth_1 \<noteq> hdr_ip auth_2"
proof
  assume e: "hdr_ip auth_1 = hdr_ip auth_2"
  have "h_ip auth_1 = be32 (unat (inet_addr (hdr_ip auth_1)))" by (rule hdr_ip_back [symmetric]) (simp add: auth_1_def)
  also have "\<dots> = h_ip auth_2" unfolding e by (rule hdr_ip_back) (simp add: auth_2_def)
  finally have "map uchr (h_ip auth_1) = map uchr (h_ip auth_2)" by simp
  then show False by (simp add: auth_1_def auth_2_def uchr_def)
qed

theorem portal_mac_of_other_user_witness:
  "\<exists>p1 p2. ptl_process_evt pe_1 auth_1 attr_1 portal_1 = Some (EMS_OK, p1) \<and> ptl_process_evt pe_1 auth_2 attr_2 p1 = Some (EMS_OK, p2) \<and>
    pt_out p2 = [PtlSend ty_portal ty_radius EMS_APP_CMD_RADIUS_AUTH (Some (login_obj auth_1 ''bob'' ''pw'' ''abcdef'')),
      PtlSend ty_portal ty_radius EMS_APP_CMD_RADIUS_AUTH (Some (login_obj auth_2 ''eve'' ''pw2'' ''abcdef''))]"
proof -
  note s = login_step [OF ready_1 find_1 new_1]
  have h: "h_ty auth_2 = ty_req_auth" "h_auth_ty auth_2 = 1" "vp_value attr_2 ATTR_USERNAME = Some ''eve''"
    "vp_value attr_2 ATTR_PASSWORD = Some ''pw2''" "vp_value attr_2 ATTR_USERMAC = Some []"
    by (simp_all add: auth_2_def auth_1_def attr_2_def text_vp_def vp_value_def ptl_vp_find_def attr_defs)
  obtain p1 where p1: "ptl_process_evt pe_1 auth_1 attr_1 portal_1 = Some (EMS_OK, p1)" "ptl_user_find p1 (hdr_ip auth_2) = None"
    "pe_new pe_1 (pt_live p1) = Some 2"
    using s ips_differ by (simp add: ptl_user_find_def login_user_def portal_1_def) (simp add: pe_1_def)
  from portal_mac_of_other_user [OF ready_1 find_1 new_1 p1(1) h p1(2,3)] show ?thesis using p1(1) by (simp add: portal_1_def)
qed

text \<open>A challenge for a user the client does not have.\<close>

definition challenge_vp :: "ptl_env \<Rightarrow> portal_value_pair" where
  "challenge_vp e = text_vp ATTR_CHALLENGE (take 16 (pe_vector e))"

lemma challenge_step:
  assumes "pt_sess p = Some t" and "pe_alloc e" and "16 \<le> length (pe_vector e)" and "h_ty auth = ty_req_challenge" and "length (h_ip auth) = 4"
    and "vp_value attr ATTR_USERNAME = Some name" and "ptl_user_find p (hdr_ip auth) = None" and "pe_new e (pt_live p) = Some u"
    and "buf_ok (buf_out t)" and "35 \<le> room (buf_out t)"
  shows "\<exists>p1. ptl_process_evt e auth attr p = Some (EMS_OK, p1) \<and> pt_users p1 = pt_users p @ [u] \<and> pt_live p1 = u # pt_live p \<and>
    pu_st (pt_user p1 u) = u_ack_challenge \<and> pu_mac (pt_user p1 u) = None \<and> pu_ip (pt_user p1 u) = hdr_ip auth \<and>
    (\<forall>v. v \<noteq> u \<longrightarrow> pt_user p1 v = pt_user p v) \<and> pt_out p1 = pt_out p"
proof -
  let ?a = "ptl_vp_append True [] ATTR_CHALLENGE (Some (take 32 (pe_vector e @ replicate 32 (char_of (0 :: nat))))) 16"
  have "take 16 (take 32 (pe_vector e @ replicate 32 (char_of (0 :: nat)))) = take 16 (pe_vector e)" using assms(3) by (simp add: min_def)
  then have a: "?a = Some (Some (challenge_vp e), [challenge_vp e])"
    using assms(3) by (simp add: ptl_vp_append_def ptl_dict_load_def g_dict_def attr_defs vp_text_def challenge_vp_def text_vp_def)
  have wf: "\<forall>v \<in> set [challenge_vp e]. vp_wf True v" "length (vps_wire [challenge_vp e]) = 18"
    using assms(3) by (simp_all add: challenge_vp_def text_vp_def vp_wf_def vp_wire_def ptl_dict_load_def g_dict_def ptl_attribute_def attr_defs)
  let ?x = "(ptl_user_new e)\<lparr>pu_name := c_text name, pu_ip := hdr_ip auth, pu_serial := h_serial auth, pu_reqid := pe_random e,
    pu_st := u_ack_challenge, pu_auth_ty := h_auth_ty auth\<rparr>"
  let ?p = "p\<lparr>pt_live := u # pt_live p, pt_users := pt_users p @ [u], pt_user := (pt_user p)(u := ?x)\<rparr>"
  let ?h = "auth\<lparr>h_serial := htons (h_serial auth), h_reqid := htons (pe_random e), h_ty := ty_ack_challenge, h_err := 0\<rparr>"
  have q: "pt_sess ?p = Some t" "u \<in> set (pt_live ?p)" "length (h_ip ?h) = 4" "16 + length (vps_wire [challenge_vp e]) < room (buf_out t)"
    using assms(1,5,10) wf(2) by simp_all
  obtain b bytes where ack: "ptl_evt_ack e (Some u) ?h (Some [challenge_vp e]) ?p =
      Some (EMS_OK, ?p\<lparr>pt_user := (pt_user ?p)(u := ptl_user_sent e bytes (pt_user ?p u)),
        pt_sess := Some (sess_event_set (t\<lparr>buf_out := b\<rparr>) EMS_EVT_WRITE PTL_EVT_CB)\<rparr>)"
    using ack_attr [OF q(1,2) assms(9) q(3) wf(1) q(4), of e] by blast
  have mac: "pu_mac (ptl_user_new e) = None" by (simp add: ptl_user_new_def)
  have "ptl_process_evt e auth attr p = ptl_evt_req_challenge e auth attr p" using assms(4) by (simp add: ptl_process_evt_def)
  also have "\<dots> = map_option (\<lambda>(_, p2). (EMS_OK, p2)) (ptl_evt_ack e (Some u) ?h (Some [challenge_vp e]) ?p)"
    using assms(2,6,7,8) a
    by (simp add: ptl_evt_req_challenge_def ptl_user_add_def req_challenge_new_def pu_upd_def pu_get_def; cases "ptl_evt_ack e (Some u) ?h (Some [challenge_vp e]) ?p"; auto)
  finally show ?thesis unfolding ack using mac by simp
qed

text \<open>
  A challenge and then a logout for the same new user take the client down: the logout uses the text of
  the hardware address, which only a login sets.
\<close>

theorem portal_challenge_then_logout:
  assumes "ptl_inv {} p" and "fresh_ptl e" and "pt_sess p = Some t" and "buf_ok (buf_out t)" and "35 \<le> room (buf_out t)"
    and "pe_alloc e" and "16 \<le> length (pe_vector e)" and "h_ty auth = ty_req_challenge" and "length (h_ip auth) = 4"
    and "vp_value attr ATTR_USERNAME = Some name" and "ptl_user_find p (hdr_ip auth) = None" and "pe_new e (pt_live p) = Some u"
    and "h_ty auth2 = ty_req_logout" and "h_ip auth2 = h_ip auth"
  shows "\<exists>p1. ptl_process_evt e auth attr p = Some (EMS_OK, p1) \<and> pt_users p1 = pt_users p @ [u] \<and> ptl_process_evt e auth2 attr2 p1 = None"
proof -
  obtain p1 where p1: "ptl_process_evt e auth attr p = Some (EMS_OK, p1)" "pt_users p1 = pt_users p @ [u]" "pt_live p1 = u # pt_live p"
    "pu_mac (pt_user p1 u) = None" "pu_ip (pt_user p1 u) = hdr_ip auth" "\<forall>v. v \<noteq> u \<longrightarrow> pt_user p1 v = pt_user p v"
    using challenge_step [OF assms(3,6,7,8,9,10,11,12,4,5)] by blast
  have u: "u \<notin> set (pt_users p)" using assms(1,2,12) by (auto simp: ptl_inv_def ptab_ok_def fresh_ptl_def)
  have "find (\<lambda>v. pu_ip (pt_user p1 v) = hdr_ip auth) (pt_users p @ [u]) = Some u"
    using assms(11) u p1(5,6) by (intro find_snoc) (auto simp: ptl_user_find_def find_None_iff)
  then have f: "ptl_user_find p1 (hdr_ip auth2) = Some u" using p1(2) assms(14) by (simp add: ptl_user_find_def hdr_ip_def)
  have "ptl_process_evt e auth2 attr2 p1 = None"
    using f p1(3,4) assms(13) portal_types
    by (simp add: ptl_process_evt_def ptl_evt_req_logout_def Let_def pu_upd_def pu_get_def ptl_logout_def logout_obj_def ptl_mac_to_radius_def)
  then show ?thesis using p1(1,2) by blast
qed

text \<open>
  A user who is online and for whom the server asks a challenge is forgotten without a logout: after three
  timeouts he is not in the list any more, and the RADIUS client and the firewall, which still let him
  through, were not told anything.
\<close>

theorem portal_challenge_forgets_user:
  assumes "ptl_inv {} p" and "fresh_ptl e" and "pt_sess p = Some t" and "h_ty auth = ty_req_challenge"
    and "ptl_user_find p (hdr_ip auth) = Some u" and "ems_flag_like (pu_flg (pt_user p u)) EMS_FLG_ONLINE"
  shows "\<exists>p1 p2. ptl_process_evt e auth attr p = Some (EMS_OK, p1) \<and> ems_flag_like (pu_flg (pt_user p1 u)) EMS_FLG_ONLINE \<and>
    user_expire_n e u 3 p1 = Some p2 \<and> u \<notin> set (pt_users p2) \<and> pt_out p2 = pt_out p"
proof -
  have u: "u \<in> set (pt_users p)" using find_in [OF assms(5)] by simp
  then have l: "u \<in> set (pt_live p)" using live_users [OF assms(1)] by simp
  let ?x = "(pt_user p u)\<lparr>pu_st := u_ack_challenge\<rparr>"
  let ?p = "p\<lparr>pt_user := (pt_user p)(u := ?x)\<rparr>"
  let ?a = "hdr_reply auth ty_ack_challenge 1"
  have q: "pt_sess ?p = Some t" "u \<in> set (pt_live ?p)" using assms(3) l by simp_all
  obtain bytes where ack: "ptl_evt_ack e (Some u) ?a None ?p =
      Some (EMS_OK, ?p\<lparr>pt_user := (pt_user ?p)(u := ptl_user_sent e bytes (pt_user ?p u)), pt_sess := Some (ack_sess ?a t)\<rparr>)"
    using ack_some [OF q, of e ?a] by blast
  define p1 where "p1 = ?p\<lparr>pt_user := (pt_user ?p)(u := ptl_user_sent e bytes ?x), pt_sess := Some (ack_sess ?a t)\<rparr>"
  have s: "ptl_process_evt e auth attr p = Some (EMS_OK, p1)" using assms(4,5) l ack
    by (simp add: ptl_process_evt_def ptl_evt_req_challenge_def req_challenge_fail_def pu_upd_def pu_get_def p1_def)
  have i: "ptl_inv {} p1" using pokD [OF process_evt_ok [OF assms(1,2)] s] assms(3) by simp
  have p1: "u \<in> set (pt_users p1)" "pu_st (pt_user p1 u) = u_ack_challenge" "pu_retry_times (pt_user p1 u) = 3" "pt_out p1 = pt_out p"
    "pu_flg (pt_user p1 u) = pu_flg (pt_user p u)" using u by (simp_all add: p1_def)
  have "user_waits (pt_user p1 u)" "\<not> (pu_st (pt_user p1 u) = u_ack_auth \<and> ems_flag_like (pu_flg (pt_user p1 u)) EMS_FLG_ONLINE)"
    using p1(2) by (simp_all add: user_waits_def)
  from expire_all [OF i p1(1) this, of e] obtain p2 where p2: "user_expire_n e u 3 p1 = Some p2" "pt_users p2 = remove1 u (pt_users p1)" "pt_out p2 = pt_out p1"
    using p1(3) by auto
  have "u \<notin> set (pt_users p2)" using i p2(2) by (simp add: ptl_inv_def ptab_ok_def)
  then show ?thesis using s p1(4,5) p2(1,3) assms(6) by auto
qed

subsection \<open>Timers and descriptors that are left behind\<close>

definition logout_ready :: "portal_user \<Rightarrow> bool" where
  "logout_ready x \<longleftrightarrow> (ems_flag_like (pu_flg x) EMS_FLG_ONLINE \<longrightarrow> ptl_mac_to_radius (pu_mac x) \<noteq> None)"

lemma clear_users_done:
  "set us \<subseteq> set (pt_live p) \<Longrightarrow> distinct us \<Longrightarrow> distinct (pt_live p) \<Longrightarrow> \<forall>u \<in> set us. logout_ready (pt_user p u) \<Longrightarrow>
    \<exists>p'. ptl_clear_users us p = Some p' \<and> pt_user p' = pt_user p"
proof (induction us arbitrary: p)
  case (Cons u us)
  have l: "u \<in> set (pt_live p)" using Cons.prems(1) by simp
  obtain p1 where p1: "(if ems_flag_like (pu_flg (pt_user p u)) EMS_FLG_ONLINE then ptl_logout u p else Some p) = Some p1"
    "pt_user p1 = pt_user p" "pt_live p1 = pt_live p"
    using Cons.prems(4) l that
    by (cases "ems_flag_like (pu_flg (pt_user p u)) EMS_FLG_ONLINE") (auto simp: logout_ready_def ptl_logout_def pu_get_def logout_obj_def ptl_emit_def)
  let ?q = "ptl_user_destroy u p1"
  have q: "pt_user ?q = pt_user p" "set us \<subseteq> set (pt_live ?q)" "distinct (pt_live ?q)"
    using Cons.prems(1-3) p1 by (auto simp: ptl_user_destroy_def)
  then obtain p' where "ptl_clear_users us ?q = Some p'" "pt_user p' = pt_user ?q"
    using Cons.IH [of ?q] Cons.prems(2,4) by auto
  then show ?case using l p1 q(1) by (simp add: pu_get_def)
qed simp

text \<open>
  Stopping the client releases its users with their timers still set: the callback of such a timer, which
  the event loop runs later, uses the released user.
\<close>

theorem portal_stop_leaves_timers:
  assumes "ptl_inv {} p" and "u \<in> set (pt_users p)" and "pu_to (pt_user p u) \<noteq> None" and "\<forall>v \<in> set (pt_users p). logout_ready (pt_user p v)"
  shows "\<exists>p'. ptl_stop e p = Some (EMS_OK, p') \<and> pt_users p' = [] \<and> pu_to (pt_user p' u) \<noteq> None \<and> user_timeout_cb e' u p' = None"
proof -
  define p1 where "p1 = (let q = (ptl_emit (PtlProcess ty_portal ty_fw EMS_APP_FW_ADDRESS_DEL (JArr [JStr (pt_addr p)])) p)
    \<lparr>pt_st := st_stopped, pt_sess := None, pt_lasterr := ERR_PORTAL_STOPPED\<rparr>
    in if pe_fw_run e then ptl_emit (PtlSend ty_portal ty_fw EMS_APP_STOP None) q else q)"
  have f: "pt_users p1 = pt_users p" "pt_live p1 = pt_live p" "pt_user p1 = pt_user p" by (simp_all add: p1_def Let_def ptl_emit_def)
  have s: "ptl_stop e p = map_option (Pair EMS_OK) (ptl_clear_users (pt_users p1) p1)"
    by (simp add: ptl_stop_def portal_change_status_def portal_stopped_def ptl_clear_all_users_def p1_def Let_def)
  have t: "set (pt_live p) = set (pt_users p)" "distinct (pt_users p)" "distinct (pt_live p)" using assms(1) by (simp_all add: ptl_inv_def ptab_ok_def)
  obtain p' where p': "ptl_clear_users (pt_users p1) p1 = Some p'" "pt_user p' = pt_user p"
    using clear_users_done [of "pt_users p1" p1] t assms(4) f by auto
  have "pt_users p' = [] \<and> pt_live p' = []" using clear_users [OF p'(1)] t f by simp
  then show ?thesis using s p' assms(3) by (simp add: user_timeout_cb_def pu_upd_def pu_get_def)
qed

text \<open>
  A user who waits when the connection is given up makes the event loop watch descriptor 0, which is not
  the client's: his timer sends the answer again through the session whose socket is closed.
\<close>

theorem portal_error_watches_zero:
  assumes "ptl_inv {} p" and "pt_sess p = Some t" and "0 < s_fd (sock t)" and "u \<in> set (pt_users p)"
    and "user_waits (pt_user p u)" and "1 < pu_retry_times (pt_user p u)"
  shows "\<exists>q q' t'. ptl_fail e err p = Some (EMS_OK, q) \<and> user_expire e' u q = Some q' \<and> pt_sess q' = Some t' \<and> s_fdno t' = 0 \<and> sess_wants t' EMS_EVT_WRITE"
proof -
  have l: "u \<in> set (pt_live p)" using live_users [OF assms(1,4)] by simp
  have "pu_to (pt_user p u) \<noteq> None" using attempts [OF assms(1,4,5)] by simp
  then show ?thesis using assms(2,3,6) l
    by (simp add: ptl_fail_def ptl_to_err_def portal_err_def ptl_emit_def Let_def sess_timeout_cancel_def sess_event_cancel_def
        sess_timeout_set_def ems_sock_close_def user_expire_def pu_upd_def pu_get_def user_timeout_cb_def pt_sess_upd_def ptl_refresh_def
        sess_event_set_def sess_wants_def ems_flag_like_def EMS_EVT_WRITE_def EMS_EVT_EDGE_TRIGGER_def)
qed

subsection \<open>A message without a header that is never read\<close>

lemma stuck_loop:
  assumes "ptl_process_rsp e h p = Some (0, p)"
  shows "process_loop e h p = None"
proof (cases "process_loop e h p")
  case (Some y)
  have "\<not> (e1 = e \<and> h1 = h \<and> p1 = p)" if "process_loop e1 h1 p1 = Some y" for e1 h1 p1 y
  proof (rule process_loop.raw_induct [where P = "\<lambda>e1 h1 p1 y. \<not> (e1 = e \<and> h1 = h \<and> p1 = p)", OF _ that])
    fix f :: "ptl_env \<Rightarrow> ptl_recv_cb \<Rightarrow> ems_portal \<Rightarrow> (int \<times> ems_portal) option" and e1 h1 p1 y
    assume IH: "\<And>e1 h1 p1 y. f e1 h1 p1 = Some y \<Longrightarrow> \<not> (e1 = e \<and> h1 = h \<and> p1 = p)"
      and b: "Option.bind (ptl_process_rsp e1 h1 p1) (\<lambda>(ret, p1).
        if ret = EMS_BUFFER_INSUFFICIENT \<or> ret = EMS_ERR then Some (EMS_ERR, p1)
        else if ret = EMS_CONTINUE then Some (EMS_OK, p1) else f e1 h1 p1) = Some y"
    show "\<not> (e1 = e \<and> h1 = h \<and> p1 = p)" using IH b assms by (cases y) (fastforce simp: EMS_BUFFER_INSUFFICIENT_def EMS_CONTINUE_def)
  qed
  from this [OF Some] show ?thesis by simp
qed simp

lemma zero_length_unknown:
  assumes "p + 1 < length mem" and "ptl_attribute evt (uchr (mem ! p)) = 0" and "uchr (mem ! (p + 1)) = 0" and "0 < lbuf" and "n < 0"
  shows "ptl_parse_ctx alloc list mem p lbuf n evt = Some (0, list)"
  using assms unfolding ptl_parse_ctx_def by (subst parse_loop.simps) (simp add: Let_def)

text \<open>
  C19: A message of the server whose first byte is not the version and whose second byte, the length of its
  first attribute, is zero is never finished: the client does not return to the event loop, whether it
  knows the type of the attribute or not.
\<close>

theorem portal_recv_hangs:
  assumes "pt_sess p = Some t" and "ems_sock_read rs (sock t) (buf_in t) = Some (ret, sk, b)" and "0 < ret \<or> ret = - EAGAIN"
    and "buf_ok b" and "contents b = c # char_of (0 :: nat) # rest" and "uchr c \<noteq> 1"
  shows "ptl_recv_msg e h (rs # rss) p = None"
proof -
  let ?p = "p\<lparr>pt_sess := Some (t\<lparr>sock := sk, buf_in := b\<rparr>)\<rparr>"
  have len: "buf_len b = int (2 + length rest)" "brd b + 1 < length (bmem b)"
  proof -
    have "2 + length rest = bwr b - brd b" "bwr b \<le> length (bmem b)" "brd b \<le> bwr b"
      using length_contents [OF assms(4)] assms(4,5) by (simp_all add: buf_ok_def)
    then show "buf_len b = int (2 + length rest)" "brd b + 1 < length (bmem b)" unfolding buf_len_def by linarith+
  qed
  have nth: "bmem b ! brd b = c" "uchr (bmem b ! (brd b + 1)) = 0"
  proof -
    have "contents b ! i = bmem b ! (brd b + i)" if "i < length (contents b)" for i
      using that assms(4) by (simp add: contents_def buf_ok_def)
    from this [of 0] this [of 1] have "bmem b ! brd b = c" "bmem b ! (brd b + 1) = char_of (0 :: nat)" by (simp_all add: assms(5))
    then show "bmem b ! brd b = c" "uchr (bmem b ! (brd b + 1)) = 0" by simp_all
  qed
  have "ptl_parse_ctx (pe_alloc e) [] (bmem b) (brd b) (buf_len b) (-1) False = None \<or>
      ptl_parse_ctx (pe_alloc e) [] (bmem b) (brd b) (buf_len b) (-1) False = Some (0, [])"
    using portal_zero_length_hangs [OF len(2) _ nth(2), where n = "-1" and lbuf = "buf_len b"]
      zero_length_unknown [OF len(2) _ nth(2), where n = "-1" and lbuf = "buf_len b"] len(1) by fastforce
  then have "ptl_process_rsp e h ?p = None \<or> ptl_process_rsp e h ?p = Some (0, ?p)"
    using len nth(1) assms(6) by (auto simp: ptl_process_rsp_def)
  then have "process_loop e h ?p = None"
    using stuck_loop [of e h ?p] by (auto simp: process_loop.simps [of e h ?p])
  then show ?thesis using assms(1-3) by auto
qed

theorem portal_recv_hangs_witness:
  "ptl_recv_msg pe_1 ptl_normal_rsp [[Got [char_of (0x12 :: nat), char_of (0 :: nat)], RFail 11]] portal_1 = None"
proof -
  let ?s = "[char_of (0x12 :: nat), char_of (0 :: nat)]"
  let ?b = "\<lparr>bmem = mem_write (bmem (buf_in sess_1)) 0 ?s, brd = 0, bwr = length ?s\<rparr>"
  have b: "ems_sock_read [Got ?s, RFail 11] (sock sess_1) (buf_in sess_1) = Some (- 11, sock sess_1, ?b)"
    by (rule read_datagram) (simp_all add: sess_1_def)
  have "buf_ok ?b" "contents ?b = char_of (0x12 :: nat) # char_of (0 :: nat) # []"
    using contents_put [of ?s "bmem (buf_in sess_1)"] by (simp_all add: buf_ok_def mem_write_def sess_1_def)
  moreover have "pt_sess portal_1 = Some sess_1" "uchr (char_of (0x12 :: nat)) \<noteq> 1" by (simp_all add: portal_1_def)
  ultimately show ?thesis using portal_recv_hangs [OF _ b] by simp
qed

subsection \<open>The failures at concrete users\<close>

definition auth_of :: "8 word \<Rightarrow> portal_auth_hdr" where "auth_of ty = auth_1\<lparr>h_ty := ty\<rparr>"

lemma auth_of [simp]: "h_ty (auth_of ty) = ty" "h_ip (auth_of ty) = h_ip auth_1" "hdr_ip (auth_of ty) = hdr_ip auth_1"
  by (simp_all add: auth_of_def hdr_ip_def)

lemma portal_2 [simp]:
  "pt_users (portal_2 st n) = [1]" "pt_sess (portal_2 st n) = Some sess_1" "pt_out (portal_2 st n) = []"
  "pt_user (portal_2 st n) u = portal_user_1 st n"
  by (simp_all add: portal_2_def portal_1_def)

lemma portal_user_1 [simp]:
  "pu_st (portal_user_1 st n) = st" "pu_retry_times (portal_user_1 st n) = n" "pu_to (portal_user_1 st n) \<noteq> None"
  "pu_ip (portal_user_1 st n) = hdr_ip auth_1"
  by (simp_all add: portal_user_1_def login_user_def)

theorem portal_challenge_then_logout_witness:
  "\<exists>p1. ptl_process_evt pe_1 (auth_of ty_req_challenge) attr_1 portal_1 = Some (EMS_OK, p1) \<and> pt_users p1 = [1] \<and>
    ptl_process_evt pe_1 (auth_of ty_req_logout) [] p1 = None"
proof -
  have s: "pt_sess portal_1 = Some sess_1" "buf_ok (buf_out sess_1)" "35 \<le> room (buf_out sess_1)" "pe_alloc pe_1" "16 \<le> length (pe_vector pe_1)"
    by (simp_all add: portal_1_def sess_1_def buf_ok_def room_def pe_1_def)
  have r: "length (h_ip (auth_of ty_req_challenge)) = 4" "vp_value attr_1 ATTR_USERNAME = Some ''bob''"
    "ptl_user_find portal_1 (hdr_ip (auth_of ty_req_challenge)) = None"
    using find_1 by (simp_all add: auth_1_def attr_1_def text_vp_def vp_value_def ptl_vp_find_def)
  show ?thesis
    using portal_challenge_then_logout [OF inv_1 fresh_pe_1 s auth_of(1) r(1,2,3) new_1 auth_of(1), of "[]"] by (simp add: portal_1_def)
qed

theorem portal_challenge_forgets_user_witness:
  "\<exists>p1 p2. ptl_process_evt pe_1 (auth_of ty_req_challenge) attr_1 (portal_2 u_aff_ack_auth 3) = Some (EMS_OK, p1) \<and>
    ems_flag_like (pu_flg (pt_user p1 1)) EMS_FLG_ONLINE \<and> user_expire_n pe_1 1 3 p1 = Some p2 \<and> 1 \<notin> set (pt_users p2) \<and> pt_out p2 = []"
proof -
  have f: "ptl_user_find (portal_2 u_aff_ack_auth 3) (hdr_ip (auth_of ty_req_challenge)) = Some 1" by (simp add: ptl_user_find_def)
  show ?thesis using portal_challenge_forgets_user [OF inv_2 fresh_pe_1 portal_2(2) auth_of(1) f, of attr_1] online_2 by simp
qed

theorem portal_stop_leaves_timers_witness:
  "\<exists>p'. ptl_stop pe_1 (portal_2 u_ack_auth 3) = Some (EMS_OK, p') \<and> pu_to (pt_user p' 1) \<noteq> None \<and> user_timeout_cb pe_1 1 p' = None"
proof -
  have "ptl_mac_to_radius (pu_mac (portal_user_1 u_ack_auth 3)) = Some (mac_text ''abcdef'')"
    using mac_to_radius [of "''abcdef''"] by (simp add: portal_user_1_def login_user_def)
  then have "\<forall>v \<in> set (pt_users (portal_2 u_ack_auth 3)). logout_ready (pt_user (portal_2 u_ack_auth 3) v)" by (simp add: logout_ready_def)
  from portal_stop_leaves_timers [OF inv_2 _ _ this, of 1 pe_1 pe_1] show ?thesis using portal_user_1(3) by auto
qed

theorem portal_error_watches_zero_witness:
  "\<exists>q q' t'. ptl_fail pe_1 ERR_PORTAL_NETWORK (portal_2 u_ack_auth 3) = Some (EMS_OK, q) \<and> user_expire pe_1 1 q = Some q' \<and>
    pt_sess q' = Some t' \<and> s_fdno t' = 0"
proof -
  have "0 < s_fd (sock sess_1)" by (simp add: sess_1_def)
  from portal_error_watches_zero [OF inv_2 [of 3 u_ack_auth] portal_2(2) this, where u = 1 and e = pe_1 and e' = pe_1 and err = ERR_PORTAL_NETWORK]
  show ?thesis by (simp add: user_waits_def) blast
qed

end
