(* ===== verification/Ems_Http_Header.thy ===== *)
theory Ems_Http_Header
  imports Ems_Text Ems_Portal_Wire
begin

text \<open>
  The requests of the web server, \<^verbatim>\<open>c/ems/src/core/ems_http_utils.c\<close>: whether a text is a request, whether its
  header is complete, and the fields of the header that the server uses.

  The text is what stands in the input buffer of a session, which nothing ends with a zero byte: a search
  that finds neither what it looks for nor a zero byte reads past the memory, the value \<open>None\<close>.
\<close>

subsection \<open>Fields\<close>

datatype http_request_key = HTTP_Method | HTTP_Param | HTTP_Version | HTTP_Host | HTTP_UserAgent | HTTP_MAX

type_synonym http_header = "http_request_key \<Rightarrow> ems_str"

definition http_header_init :: http_header where
  "http_header_init = (\<lambda>_. str_init)"

text \<open>\<open>http_header_uninit\<close>, also called \<open>http_header_clear\<close>.\<close>

definition http_header_uninit :: "http_header \<Rightarrow> http_header" where
  "http_header_uninit hdr = (\<lambda>ty. case str_clear (Some (hdr ty)) of None \<Rightarrow> hdr ty | Some s \<Rightarrow> s)"

definition http_header_get :: "http_header \<Rightarrow> http_request_key \<Rightarrow> string option" where
  "http_header_get hdr ty = (if ty \<noteq> HTTP_MAX then str_data (hdr ty) else None)"

definition http_header_set :: "http_header \<Rightarrow> http_request_key \<Rightarrow> string option \<Rightarrow> http_header" where
  "http_header_set hdr ty text =
    (if ty \<noteq> HTTP_MAX then hdr(ty := (case fst (str_set True (Some (hdr ty)) text) of None \<Rightarrow> hdr ty | Some s \<Rightarrow> s)) else hdr)"

definition gkeymap :: "(http_request_key \<times> string) list" where
  "gkeymap = [(HTTP_Host, ''Host''), (HTTP_UserAgent, ''User-Agent'')]"

definition http_request_key_get :: "string option \<Rightarrow> http_request_key" where
  "http_request_key_get name =
    (case name of
       None \<Rightarrow> HTTP_MAX
     | Some v \<Rightarrow> if v = [] then HTTP_MAX else (case find (\<lambda>(k, s). s = v) gkeymap of None \<Rightarrow> HTTP_MAX | Some (k, _) \<Rightarrow> k))"

subsection \<open>Parsing\<close>

definition CRLF :: string where "CRLF = [CHR 0x0D, CHR 0x0A]"

text \<open>\<open>strstr\<close> in memory: outside the memory, not found, or the rest from the first match on.\<close>

definition mem_strstr :: "string \<Rightarrow> string \<Rightarrow> string option option" where
  "mem_strstr mem n =
    (case strstr (c_text mem) n of
       Some q \<Rightarrow> Some (Some q)
     | None \<Rightarrow> if char_of (0 :: nat) \<in> set mem then Some None else None)"

text \<open>The first line has three words, every other one a name and a value. \<open>alloc\<close> is whether the nodes of the list are allocated.\<close>

definition http_parse_line :: "bool \<Rightarrow> http_header \<Rightarrow> string \<Rightarrow> http_header option" where
  "http_parse_line alloc hdr line =
    (if http_header_get hdr HTTP_Method = None then
       do {
         (_, list) \<leftarrow> ems_string_split (\<lambda>_. alloc) [] (Some line) (Some '' '');
         Some (if ems_split_len list = 3 then
                 http_header_set (http_header_set (http_header_set hdr HTTP_Method (ems_split_get_str list 0))
                   HTTP_Param (ems_split_get_str list 1)) HTTP_Version (ems_split_get_str list 2)
               else hdr)
       }
     else
       do {
         (_, list) \<leftarrow> ems_string_split (\<lambda>_. alloc) [] (Some line) (Some '': '');
         Some (if ems_split_len list = 2 then
                 http_header_set hdr (http_request_key_get (ems_split_get_str list 0)) (ems_split_get_str list 1)
               else hdr)
       })"

text \<open>
  The loop of \<open>http_header_parse\<close>: \<open>stop\<close> is what is left of the text at its \<open>end\<close>, \<open>left\<close> the room of the buffer a
  line is copied to; a line that is too long is skipped.
\<close>

function parse_lines :: "bool \<Rightarrow> nat \<Rightarrow> nat \<Rightarrow> string \<Rightarrow> http_header \<Rightarrow> http_header option" where
  "parse_lines alloc left stop req hdr =
    (if stop < length req then
       (case strstr req CRLF of
          None \<Rightarrow> None
        | Some p \<Rightarrow>
            let len = length req - length p
            in Option.bind (if len < left then http_parse_line alloc hdr (take len req) else Some hdr)
                 (parse_lines alloc left stop (drop 2 p)))
     else Some hdr)"
  by auto
termination
proof (relation "measure (\<lambda>(alloc, left, stop, req, hdr). length req)", goal_cases)
  case (2 alloc left stop req hdr p)
  then show ?case using strstr_len_le [OF 2(2)] by auto
qed simp

declare parse_lines.simps [simp del]

definition http_header_parse :: "bool \<Rightarrow> nat \<Rightarrow> http_header \<Rightarrow> string \<Rightarrow> http_header option" where
  "http_header_parse alloc left hdr mem =
    do {
      q \<leftarrow> mem_strstr mem (CRLF @ CRLF);
      case q of
        None \<Rightarrow> Some (http_header_uninit hdr)
      | Some e \<Rightarrow> parse_lines alloc left (length e) (c_text mem) (http_header_uninit hdr)
    }"

definition http_header_full :: "string \<Rightarrow> bool option" where
  "http_header_full mem = map_option (\<lambda>q. q \<noteq> None) (mem_strstr mem (CRLF @ CRLF))"

definition http_msg_is_web :: "string \<Rightarrow> bool" where
  "http_msg_is_web mem \<longleftrightarrow> strncmp_eq (c_text mem) ''GET'' 3 \<or> strncmp_eq (c_text mem) ''POST'' 4"

subsection \<open>Searching and splitting\<close>

lemma strstr_skip: "c \<notin> set s \<Longrightarrow> strstr (s @ t) (c # n) = strstr t (c # n)"
  by (induction s) auto

lemma strstr_here [simp]: "strstr (n @ t) n = Some (n @ t)"
proof -
  have "prefix n (n @ t)" by simp
  then show ?thesis by (cases "n @ t") auto
qed

lemma strstr_at: "c \<notin> set s \<Longrightarrow> strstr (s @ (c # n) @ t) (c # n) = Some ((c # n) @ t)"
  using strstr_skip [of c s "(c # n) @ t" n] strstr_here [of "c # n" t] by simp

lemma strstr_no_char: "c \<notin> set s \<Longrightarrow> strstr s (c # n) = None"
  using strstr_skip [of c s "[]" n] by simp

lemma split_one: "strstr p sep = None \<Longrightarrow> split_loop (\<lambda>_. True) k p sep = Some (if p = [] then [] else [mk_str p])"
  by (subst split_loop.simps) (simp add: split_piece_eq)

lemma split_next:
  assumes "c \<notin> set a" and "length a \<le> 511"
  shows "split_loop (\<lambda>_. True) k (a @ (c # n) @ t) (c # n) = map_option (\<lambda>ps. mk_str a # ps) (split_loop (\<lambda>_. True) (Suc k) t (c # n))"
proof -
  have s: "strstr (a @ (c # n) @ t) (c # n) = Some ((c # n) @ t)" by (rule strstr_at [OF assms(1)])
  have l: "length (a @ (c # n) @ t) - length ((c # n) @ t) = length a" by simp
  show ?thesis
    unfolding split_loop.simps [of _ k] s option.case Let_def l
    using assms(2) by (cases "split_loop (\<lambda>_. True) (Suc k) t (c # n)") (simp_all add: split_piece_eq)
qed

text \<open>A word of the first line, and the name and the value of another.\<close>

definition word_ok :: "string \<Rightarrow> bool" where
  "word_ok w \<longleftrightarrow> w \<noteq> [] \<and> length w \<le> 511 \<and> CHR '' '' \<notin> set w \<and> CHR 0x0D \<notin> set w \<and> char_of (0 :: nat) \<notin> set w"

definition field_ok :: "string \<times> string \<Rightarrow> bool" where
  "field_ok = (\<lambda>(k, v). k \<noteq> [] \<and> v \<noteq> [] \<and> length k \<le> 511 \<and> CHR '':'' \<notin> set k \<and> strstr v '': '' = None \<and>
    CHR 0x0D \<notin> set (k @ v) \<and> char_of (0 :: nat) \<notin> set (k @ v))"

definition first_line :: "string \<Rightarrow> string \<Rightarrow> string \<Rightarrow> string" where
  "first_line m p v = m @ '' '' @ p @ '' '' @ v"

definition field_line :: "string \<times> string \<Rightarrow> string" where
  "field_line = (\<lambda>(k, v). k @ '': '' @ v)"

lemma parse_first_line:
  assumes "word_ok m" and "word_ok p" and "word_ok v" and "str_data (hdr HTTP_Method) = None"
  shows "http_parse_line True hdr (first_line m p v) = Some (hdr(HTTP_Method := mk_str m, HTTP_Param := mk_str p, HTTP_Version := mk_str v))"
proof -
  have "split_loop (\<lambda>_. True) 0 (m @ '' '' @ p @ '' '' @ v) '' '' = Some [mk_str m, mk_str p, mk_str v]"
    using assms(1-3) split_next [of "CHR '' ''" m 0 "[]" "p @ '' '' @ v"] split_next [of "CHR '' ''" p "Suc 0" "[]" v]
      split_one [of v "'' ''" "Suc (Suc 0)"] strstr_no_char [of "CHR '' ''" v "[]"]
    by (simp add: word_ok_def)
  then show ?thesis using assms(4)
    by (simp add: http_parse_line_def first_line_def http_header_get_def ems_string_split_def ems_split_len_def ems_split_get_str_def
        http_header_set_def str_set_def mk_str_def)
qed

lemma parse_field_line:
  assumes "field_ok f" and "str_data (hdr HTTP_Method) \<noteq> None"
  shows "http_parse_line True hdr (field_line f) = Some (http_header_set hdr (http_request_key_get (Some (fst f))) (Some (snd f)))"
proof -
  obtain k v where f: "f = (k, v)" by (cases f)
  have "split_loop (\<lambda>_. True) 0 (k @ '': '' @ v) '': '' = Some [mk_str k, mk_str v]"
    using assms(1) split_next [of "CHR '':''" k 0 "'' ''" v] split_one [of v "'': ''" "Suc 0"]
    by (simp add: field_ok_def f)
  then show ?thesis using assms(2)
    by (auto simp: http_parse_line_def field_line_def f http_header_get_def ems_string_split_def ems_split_len_def ems_split_get_str_def mk_str_def)
qed

subsection \<open>A whole request\<close>

definition request_text :: "string \<Rightarrow> string \<Rightarrow> string \<Rightarrow> (string \<times> string) list \<Rightarrow> string" where
  "request_text m p v fs = concat (map (\<lambda>l. l @ CRLF) (first_line m p v # map field_line fs)) @ CRLF"

abbreviation set_field :: "string \<times> string \<Rightarrow> http_header \<Rightarrow> http_header" where
  "set_field f hdr \<equiv> http_header_set hdr (http_request_key_get (Some (fst f))) (Some (snd f))"

definition plain_line :: "string \<Rightarrow> bool" where
  "plain_line l \<longleftrightarrow> l \<noteq> [] \<and> CHR 0x0D \<notin> set l \<and> char_of (0 :: nat) \<notin> set l"

lemma char_0: "char_of (0 :: nat) \<noteq> CHR '' ''" "char_of (0 :: nat) \<noteq> CHR '':''" "char_of (0 :: nat) \<noteq> CHR 0x0D" "char_of (0 :: nat) \<noteq> CHR 0x0A"
  by (simp_all add: char_of_def)

lemma lines_plain:
  "word_ok m \<Longrightarrow> word_ok p \<Longrightarrow> word_ok v \<Longrightarrow> plain_line (first_line m p v)"
  "field_ok f \<Longrightarrow> plain_line (field_line f)"
  using char_0 by (auto simp: plain_line_def first_line_def field_line_def word_ok_def field_ok_def split: prod.splits)

lemma line_step:
  assumes "CHR 0x0D \<notin> set l" and "stop < length (l @ CRLF @ r)"
  shows "parse_lines alloc left stop (l @ CRLF @ r) hdr =
    Option.bind (if length l < left then http_parse_line alloc hdr l else Some hdr) (parse_lines alloc left stop r)"
proof -
  have s: "strstr (l @ CRLF @ r) CRLF = Some (CRLF @ r)"
    using strstr_at [OF assms(1), of "[CHR 0x0A]" r] by (simp add: CRLF_def)
  have "length (l @ CRLF @ r) - length (CRLF @ r) = length l" "drop 2 (CRLF @ r) = r" by (simp_all add: CRLF_def)
  then show ?thesis unfolding parse_lines.simps [of alloc left stop "l @ CRLF @ r"] s option.case Let_def using assms(2) by simp
qed

lemma parse_fields:
  "\<forall>f \<in> set fs. field_ok f \<and> length (field_line f) < left \<Longrightarrow> str_data (hdr HTTP_Method) \<noteq> None \<Longrightarrow>
    parse_lines True left (4 + length rest) (concat (map (\<lambda>l. l @ CRLF) (map field_line fs)) @ CRLF @ rest) hdr = Some (fold set_field fs hdr)"
proof (induction fs arbitrary: hdr)
  case Nil
  show ?case by (subst parse_lines.simps) (simp add: CRLF_def)
next
  case (Cons f fs)
  let ?r = "concat (map (\<lambda>l. l @ CRLF) (map field_line fs)) @ CRLF @ rest"
  have p: "plain_line (field_line f)" using Cons.prems(1) lines_plain(2) by simp
  then have "4 + length rest < length (field_line f @ CRLF @ ?r)" by (cases "field_line f") (simp_all add: plain_line_def CRLF_def)
  from line_step [OF _ this, of True left hdr] p Cons.prems
  have "parse_lines True left (4 + length rest) (field_line f @ CRLF @ ?r) hdr = parse_lines True left (4 + length rest) ?r (set_field f hdr)"
    using parse_field_line [of f hdr] by (simp add: plain_line_def)
  also have "str_data (set_field f hdr HTTP_Method) \<noteq> None"
    using Cons.prems(2) by (auto simp: http_header_set_def str_set_def)
  then have "parse_lines True left (4 + length rest) ?r (set_field f hdr) = Some (fold set_field fs (set_field f hdr))"
    using Cons.prems(1) by (intro Cons.IH) auto
  finally show ?case by simp
qed

lemma header_end:
  "\<forall>l \<in> set (l0 # ls). plain_line l \<Longrightarrow>
    strstr (concat (map (\<lambda>l. l @ CRLF) (l0 # ls)) @ CRLF @ rest) (CRLF @ CRLF) = Some (CRLF @ CRLF @ rest)"
proof (induction ls arbitrary: l0)
  case Nil
  then show ?case using strstr_at [of "CHR 0x0D" l0 "CHR 0x0A # CRLF" rest] by (simp add: plain_line_def CRLF_def)
next
  case (Cons l1 ls)
  let ?t = "concat (map (\<lambda>l. l @ CRLF) (l1 # ls)) @ CRLF @ rest"
  obtain c s where t: "?t = c # s" "c \<noteq> CHR 0x0D" using Cons.prems by (cases l1) (auto simp: plain_line_def)
  have "strstr (l0 @ CRLF @ ?t) (CRLF @ CRLF) = strstr (CRLF @ ?t) (CRLF @ CRLF)"
    using strstr_skip [of "CHR 0x0D" l0 "CRLF @ ?t" "CHR 0x0A # CRLF"] Cons.prems by (simp add: plain_line_def CRLF_def)
  also have "\<dots> = strstr ?t (CRLF @ CRLF)" unfolding t(1) using t(2) by (simp add: CRLF_def)
  also have "\<dots> = Some (CRLF @ CRLF @ rest)" using Cons.prems by (intro Cons.IH) simp
  finally show ?case by simp
qed

lemma c_text_app: "char_of (0 :: nat) \<notin> set s \<Longrightarrow> c_text (s @ t) = s @ c_text t"
  unfolding c_text_def by (rule takeWhile_append2) auto

lemma fields_get:
  assumes "k \<in> {''Host'', ''User-Agent''}"
  shows "str_data (fold set_field fs hdr (http_request_key_get (Some k))) =
    (case map_of (rev fs) k of None \<Rightarrow> str_data (hdr (http_request_key_get (Some k))) | Some v \<Rightarrow> Some v)"
proof (induction fs arbitrary: hdr)
  case (Cons f fs)
  have "str_data (set_field f hdr (http_request_key_get (Some k))) = (if fst f = k then Some (snd f) else str_data (hdr (http_request_key_get (Some k))))"
    using assms by (auto simp: http_request_key_get_def gkeymap_def http_header_set_def str_set_def)
  then show ?case using Cons.IH [of "set_field f hdr"] by (cases f) (auto simp: map_add_def split: option.splits)
qed simp

lemma fields_others:
  "ty \<in> {HTTP_Method, HTTP_Param, HTTP_Version} \<Longrightarrow> fold set_field fs hdr ty = hdr ty"
proof (induction fs arbitrary: hdr)
  case (Cons f fs)
  then have "set_field f hdr ty = hdr ty" by (auto simp: http_request_key_get_def gkeymap_def http_header_set_def)
  then show ?case using Cons by simp
qed simp

text \<open>The end of a request is found, and its lines are what is parsed.\<close>

lemma request_found:
  assumes "word_ok m" and "word_ok p" and "word_ok v" and "\<forall>f \<in> set fs. field_ok f"
  shows "c_text (request_text m p v fs @ rest) = concat (map (\<lambda>l. l @ CRLF) (first_line m p v # map field_line fs)) @ CRLF @ c_text rest"
    and "mem_strstr (request_text m p v fs @ rest) (CRLF @ CRLF) = Some (Some (CRLF @ CRLF @ c_text rest))"
proof -
  let ?ls = "first_line m p v # map field_line fs"
  have pl: "\<forall>l \<in> set ?ls. plain_line l" using assms lines_plain by auto
  then have z: "char_of (0 :: nat) \<notin> set (request_text m p v fs)"
    using char_0 by (auto simp: request_text_def plain_line_def CRLF_def)
  show tx: "c_text (request_text m p v fs @ rest) = concat (map (\<lambda>l. l @ CRLF) ?ls) @ CRLF @ c_text rest"
    unfolding c_text_app [OF z] by (simp add: request_text_def)
  show "mem_strstr (request_text m p v fs @ rest) (CRLF @ CRLF) = Some (Some (CRLF @ CRLF @ c_text rest))"
    using header_end [OF pl, of "c_text rest"] by (simp only: mem_strstr_def tx option.case)
qed

lemma request_complete:
  assumes "word_ok m" and "word_ok p" and "word_ok v" and "\<forall>f \<in> set fs. field_ok f"
  shows "http_header_full (request_text m p v fs @ rest) = Some True"
  using request_found(2) [OF assms] by (simp add: http_header_full_def)

lemma request_read:
  assumes "word_ok m" and "word_ok p" and "word_ok v" and "\<forall>f \<in> set fs. field_ok f \<and> length (field_line f) < left"
    and "length (first_line m p v) < left"
  shows "\<exists>h. http_header_parse True left hdr (request_text m p v fs @ rest) = Some h \<and>
      http_header_get h HTTP_Method = Some m \<and> http_header_get h HTTP_Param = Some p \<and> http_header_get h HTTP_Version = Some v \<and>
      http_header_get h HTTP_Host = map_of (rev fs) ''Host'' \<and> http_header_get h HTTP_UserAgent = map_of (rev fs) ''User-Agent''"
proof -
  have f: "\<forall>f \<in> set fs. field_ok f" using assms(4) by blast
  let ?ls = "first_line m p v # map field_line fs" and ?h0 = "http_header_uninit hdr"
  note tx = request_found(1) [OF assms(1-3) f, of rest] and fnd = request_found(2) [OF assms(1-3) f, of rest]
  have len: "length (CRLF @ CRLF @ c_text rest) = 4 + length (c_text rest)" by (simp add: CRLF_def)
  have empty: "str_data (?h0 ty) = None" for ty by (simp add: http_header_uninit_def str_clear_def str_set_def)
  let ?h1 = "?h0(HTTP_Method := mk_str m, HTTP_Param := mk_str p, HTTP_Version := mk_str v)"
  let ?r = "concat (map (\<lambda>l. l @ CRLF) (map field_line fs)) @ CRLF @ c_text rest"
  have "plain_line (first_line m p v)" using assms(1-3) f lines_plain by auto
  then have "CHR 0x0D \<notin> set (first_line m p v)" "4 + length (c_text rest) < length (first_line m p v @ CRLF @ ?r)"
    by (auto simp: plain_line_def CRLF_def)
  from line_step [OF this, of True left ?h0]
  have "parse_lines True left (4 + length (c_text rest)) (first_line m p v @ CRLF @ ?r) ?h0 = parse_lines True left (4 + length (c_text rest)) ?r ?h1"
    using assms(5) parse_first_line [OF assms(1-3) empty] by simp
  also have "\<dots> = Some (fold set_field fs ?h1)" using assms(4) by (intro parse_fields) (simp_all add: mk_str_def)
  finally have parse: "http_header_parse True left hdr (request_text m p v fs @ rest) = Some (fold set_field fs ?h1)"
    unfolding http_header_parse_def fnd tx bind.bind_lunit option.case len by simp
  have keys: "http_request_key_get (Some ''Host'') = HTTP_Host" "http_request_key_get (Some ''User-Agent'') = HTTP_UserAgent"
    by (simp_all add: http_request_key_get_def gkeymap_def)
  show ?thesis using parse empty fields_get [of "''Host''" fs ?h1] fields_get [of "''User-Agent''" fs ?h1] fields_others [of _ fs ?h1]
    by (auto simp: http_header_get_def keys mk_str_def split: option.splits)
qed

text \<open>
  C16: A complete request is read back: whatever follows it in the buffer, the server finds it complete and gets
  the words of its first line and, of the fields it uses, the value that was given last.
\<close>

theorem http_header_roundtrip:
  assumes "word_ok m" and "word_ok p" and "word_ok v" and "\<forall>f \<in> set fs. field_ok f \<and> length (field_line f) < left"
    and "length (first_line m p v) < left"
  shows "http_header_full (request_text m p v fs @ rest) = Some True \<and>
    (\<exists>h. http_header_parse True left hdr (request_text m p v fs @ rest) = Some h \<and>
      http_header_get h HTTP_Method = Some m \<and> http_header_get h HTTP_Param = Some p \<and> http_header_get h HTTP_Version = Some v \<and>
      http_header_get h HTTP_Host = map_of (rev fs) ''Host'' \<and> http_header_get h HTTP_UserAgent = map_of (rev fs) ''User-Agent'')"
  using request_complete [OF assms(1-3)] request_read [OF assms] assms(4) by blast

theorem http_header_roundtrip_witness:
  "\<exists>h. http_header_parse True 8192 http_header_init (request_text ''GET'' ''/a'' ''HTTP/1.1'' [(''Host'', ''b.c''), (''Accept'', ''*'')] @ ''xyz'') = Some h \<and>
    http_header_get h HTTP_Param = Some ''/a'' \<and> http_header_get h HTTP_Host = Some ''b.c'' \<and> http_header_get h HTTP_UserAgent = None"
proof -
  have "word_ok ''GET''" "word_ok ''/a''" "word_ok ''HTTP/1.1''" "\<forall>f \<in> set [(''Host'', ''b.c''), (''Accept'', ''*'')]. field_ok f \<and> length (field_line f) < 8192"
    "length (first_line ''GET'' ''/a'' ''HTTP/1.1'') < 8192"
    by (simp_all add: word_ok_def field_ok_def field_line_def first_line_def char_of_def)
  from http_header_roundtrip [OF this, of "''xyz''" http_header_init] show ?thesis by auto
qed

end
