(* ===== verification/Ems_Http.thy ===== *)
theory Ems_Http
  imports Ems_Http_Header Ems_Radius_App
begin

text \<open>
  The web server that sends the clients of an interface to the portal, first part: its state, the clients that
  probe for a captive network (\<^verbatim>\<open>c/ems/src/core/ems_http_cna.c\<close>) and the replies of \<^verbatim>\<open>ems_http.c\<close>.

  Sessions and probing clients are addresses, with a store for each and the list of those in memory. The
  result \<open>None\<close> stands for the use of a null pointer, of a released object or of memory outside an array. The
  buffer of the core, which other modules write commands to, is the field \<open>ht_core\<close>. What is told to other
  modules and sent is appended to \<open>ht_out\<close>; the answers of the other modules, the clock, the ARP table, the
  configuration and the text of JSON objects are arguments. The server and its header are allocated
  together. A null pointer is printed as \<open>(null)\<close>.
\<close>

subsection \<open>State and environment\<close>

definition EMS_FLG_HTTP_ENABLE_CNA :: flags where "EMS_FLG_HTTP_ENABLE_CNA = 2 ^ 14"
definition EMS_FLG_HTTP_ENABLE_URL :: flags where "EMS_FLG_HTTP_ENABLE_URL = 2 ^ 13"
definition EMS_FLG_HTTP_ENABLE_NASGETINFO :: flags where "EMS_FLG_HTTP_ENABLE_NASGETINFO = 2 ^ 12"
definition EMS_FLG_HTTP_ENABLE_GREYLIST :: flags where "EMS_FLG_HTTP_ENABLE_GREYLIST = 2 ^ 11"
definition FLG_SESSION_IS_WEB :: flags where "FLG_SESSION_IS_WEB = 2 ^ 24"
definition SESSION_FLAG_DIE_AFTER_SEND :: flags where "SESSION_FLAG_DIE_AFTER_SEND = 2 ^ 30"
definition EMS_CMD_TIMEOUT :: int where "EMS_CMD_TIMEOUT = 3000"
definition EMS_BUFFER_2K :: nat where "EMS_BUFFER_2K = 2048"
definition EMS_BUFFER_8k :: int where "EMS_BUFFER_8k = 8192"
definition HTTP_RETURN_FAILED :: int where "HTTP_RETURN_FAILED = 0x100"
definition HTTP_RETURN_SUCCESS :: int where "HTTP_RETURN_SUCCESS = 0x101"
definition HTTP_RETURN_PORTAL :: int where "HTTP_RETURN_PORTAL = 0x102"

record ems_cna_rule =
  cr_host :: ems_str
  cr_param :: ems_str

text \<open>A probing client: \<open>cn_st\<close> is one of the five numbers of \<open>cna_st_init\<close> to \<open>cna_st_phase_exit\<close>.\<close>

definition cna_st_init :: nat where "cna_st_init = 0"
definition cna_st_phase_one :: nat where "cna_st_phase_one = 1"
definition cna_st_phase_two :: nat where "cna_st_phase_two = 2"
definition cna_st_phase_three :: nat where "cna_st_phase_three = 3"

record ems_cna =
  cn_ip :: ems_str
  cn_host :: ems_str
  cn_param :: ems_str
  cn_st :: nat
  cn_to :: "timeval option"

datatype http_evt =
    HProcess nat nat json
  | HSend nat nat
  | HPutReleased
  | HSent addr string
  | HClose int

record ems_http =
  ht_flg :: flags
  ht_sess :: "ems_session option"
  ht_cmd :: "addr list"
  ht_st :: ems_status
  ht_src :: int
  ht_dst :: int
  ht_nas :: ems_str
  ht_url :: "ems_str list"
  ht_cna :: "ems_cna_rule list"
  ht_cna_list :: "addr list"
  ht_grey :: "ems_str list"
  ht_hdr :: http_header
  ht_sess_of :: "addr \<Rightarrow> ems_session"
  ht_sess_live :: "addr list"
  ht_cna_of :: "addr \<Rightarrow> ems_cna"
  ht_cna_live :: "addr list"
  ht_core :: "char ems_buffer"
  ht_out :: "http_evt list"

text \<open>\<open>he_weixin\<close> is the option \<open>WEIXIN\<close> of the build, \<open>he_listen\<close> the socket for a port that can be listened to.\<close>

record http_env =
  he_now :: timeval
  he_alloc :: bool
  he_garbage :: "nat \<Rightarrow> char"
  he_new_sess :: "addr list \<Rightarrow> addr option"
  he_new_cna :: "addr list \<Rightarrow> addr option"
  he_listen :: "int \<Rightarrow> int option"
  he_first_config :: bool
  he_network_ready :: bool
  he_config_ready :: bool
  he_subdomain :: bool
  he_weixin :: bool
  he_tm :: string
  he_gw :: string
  he_sn :: string
  he_devicetype :: string
  he_ac_mac :: string
  he_ssid :: string
  he_bssid :: string
  he_portal :: string
  he_redirect_port :: int
  he_usermac :: "string \<Rightarrow> string option"
  he_process :: "nat \<Rightarrow> nat \<Rightarrow> json \<Rightarrow> int \<times> json"
  he_json_text :: "json option \<Rightarrow> string"
  he_json_parse :: "string \<Rightarrow> json option"

definition http_emit :: "http_evt \<Rightarrow> ems_http \<Rightarrow> ems_http" where
  "http_emit x h = h\<lparr>ht_out := ht_out h @ [x]\<rparr>"

text \<open>\<open>nic_processmsg\<close>: a message that another module handles at once; it may change the object.\<close>

definition http_ask :: "http_env \<Rightarrow> nat \<Rightarrow> nat \<Rightarrow> json \<Rightarrow> ems_http \<Rightarrow> int \<times> json \<times> ems_http" where
  "http_ask e d evt j h = (case he_process e d evt j of (ret, j') \<Rightarrow> (ret, j', http_emit (HProcess d evt j) h))"

definition hs_get :: "addr \<Rightarrow> ems_http \<Rightarrow> ems_session option" where
  "hs_get s h = (if s \<in> set (ht_sess_live h) then Some (ht_sess_of h s) else None)"

definition hs_put :: "addr \<Rightarrow> ems_session \<Rightarrow> ems_http \<Rightarrow> ems_http" where
  "hs_put s x h = h\<lparr>ht_sess_of := (ht_sess_of h)(s := x)\<rparr>"

definition hc_put :: "addr \<Rightarrow> ems_cna \<Rightarrow> ems_http \<Rightarrow> ems_http" where
  "hc_put c x h = h\<lparr>ht_cna_of := (ht_cna_of h)(c := x)\<rparr>"

subsection \<open>Probing clients\<close>

definition http_cna_new :: ems_cna where
  "http_cna_new = \<lparr>cn_ip = str_init, cn_host = str_init, cn_param = str_init, cn_st = cna_st_init, cn_to = None\<rparr>"

text \<open>\<open>ems_queue_remove\<close> and \<open>http_cna_destroy\<close>.\<close>

definition http_cna_destroy :: "addr \<Rightarrow> ems_http \<Rightarrow> ems_http" where
  "http_cna_destroy c h = h\<lparr>ht_cna_list := remove1 c (ht_cna_list h), ht_cna_live := remove1 c (ht_cna_live h)\<rparr>"

definition http_cna_user_find :: "ems_http \<Rightarrow> string \<Rightarrow> addr option" where
  "http_cna_user_find h ip = find (\<lambda>c. str_data (cn_ip (ht_cna_of h c)) = Some ip) (ht_cna_list h)"

text \<open>Whether the text of a client is another one; a comparison with a null pointer is undefined.\<close>

definition cna_differs :: "ems_str \<Rightarrow> string option \<Rightarrow> bool option" where
  "cna_differs s t =
    (if str_len s = 0 then Some True
     else (case (str_data s, t) of (Some a, Some b) \<Rightarrow> Some (a \<noteq> b) | _ \<Rightarrow> None))"

definition str_set_opt :: "ems_str \<Rightarrow> string option \<Rightarrow> ems_str" where
  "str_set_opt s t = (case fst (str_set True (Some s) t) of None \<Rightarrow> s | Some s' \<Rightarrow> s')"

definition cna_version_st :: "string \<Rightarrow> nat \<Rightarrow> nat" where
  "cna_version_st ver st =
    (if st \<in> {cna_st_init, cna_st_phase_two, cna_st_phase_three} then (if ver \<noteq> ''HTTP/1.0'' then cna_st_phase_one else st)
     else if st = cna_st_phase_one then (if ver \<noteq> ''HTTP/1.1'' then cna_st_init else st)
     else st)"

definition update_cna_status :: "ems_cna \<Rightarrow> string option \<Rightarrow> string option \<Rightarrow> string option \<Rightarrow> ems_cna option" where
  "update_cna_status c host param ver =
    do {
      d1 \<leftarrow> cna_differs (cn_host c) host;
      let c1 = (if d1 then c\<lparr>cn_host := str_set_opt (cn_host c) host, cn_st := cna_st_init\<rparr> else c);
      d2 \<leftarrow> cna_differs (cn_param c1) param;
      let c2 = (if d2 then c1\<lparr>cn_param := str_set_opt (cn_param c1) param, cn_st := cna_st_init\<rparr> else c1);
      Some (case ver of None \<Rightarrow> c2 | Some v \<Rightarrow> c2\<lparr>cn_st := cna_version_st v (cn_st c2)\<rparr>)
    }"

definition cna_wait :: "http_env \<Rightarrow> nat \<Rightarrow> int \<Rightarrow> ems_cna \<Rightarrow> ems_cna" where
  "cna_wait e st msecs c = c\<lparr>cn_st := st, cn_to := Some (timeout_deadline (he_now e) msecs)\<rparr>"

definition cna_answer :: "http_env \<Rightarrow> ems_cna \<Rightarrow> int \<times> ems_cna" where
  "cna_answer e c =
    (if cn_st c = cna_st_init then (HTTP_RETURN_FAILED, cna_wait e cna_st_phase_one 10000 c)
     else if cn_st c = cna_st_phase_one then (HTTP_RETURN_PORTAL, cna_wait e cna_st_phase_two 15000 c)
     else if cn_st c = cna_st_phase_two then (HTTP_RETURN_SUCCESS, cna_wait e cna_st_phase_three 30000 c)
     else if cn_st c = cna_st_phase_three then (HTTP_RETURN_SUCCESS, cna_wait e cna_st_phase_three 30000 c)
     else (HTTP_RETURN_PORTAL, c))"

text \<open>The client with its answer; a client that is not known yet is added to the list.\<close>

definition http_cna_user_run ::
  "http_env \<Rightarrow> addr option \<Rightarrow> string \<Rightarrow> string option \<Rightarrow> string option \<Rightarrow> ems_http \<Rightarrow> (int \<times> ems_http) option" where
  "http_cna_user_run e cna ip host param h =
    (let known = (case cna of
           Some c \<Rightarrow> Some (c, h)
         | None \<Rightarrow> map_option (\<lambda>c. (c, (hc_put c (http_cna_new\<lparr>cn_ip := str_set_opt str_init (Some ip)\<rparr>) h)
               \<lparr>ht_cna_live := c # ht_cna_live h, ht_cna_list := ht_cna_list h @ [c]\<rparr>)) (he_new_cna e (ht_cna_live h)))
     in case known of
          None \<Rightarrow> Some (EMS_ERR, h)
        | Some (c, h1) \<Rightarrow>
            do {
              x \<leftarrow> update_cna_status (ht_cna_of h1 c) host param (http_header_get (ht_hdr h1) HTTP_Version);
              Some (case cna_answer e x of (rtn, y) \<Rightarrow> (rtn, hc_put c y h1))
            })"

definition http_cna_timeout_cb :: "addr \<Rightarrow> ems_http \<Rightarrow> ems_http option" where
  "http_cna_timeout_cb c h = (if c \<in> set (ht_cna_live h) then Some (http_cna_destroy c h) else None)"

subsection \<open>Printing into a buffer\<close>

definition fmt_s :: "string option \<Rightarrow> string" where
  "fmt_s s = (case s of None \<Rightarrow> ''(null)'' | Some t \<Rightarrow> t)"

text \<open>\<open>snprintf\<close> to the write position: the text is cut to the room left, and the result is its whole length.\<close>

definition buf_printf :: "string \<Rightarrow> char ems_buffer \<Rightarrow> int \<times> char ems_buffer" where
  "buf_printf s b =
    (int (length s),
     if buf_left b \<le> 0 then b
     else b\<lparr>bmem := mem_write (bmem b) (bwr b) (take (nat (buf_left b) - 1) s @ [char_of (0 :: nat)])\<rparr>)"

text \<open>The position is only moved when the whole text has room.\<close>

definition buf_print :: "string \<Rightarrow> char ems_buffer \<Rightarrow> char ems_buffer" where
  "buf_print s b = (case buf_printf s b of (len, b1) \<Rightarrow> snd (ems_buffer_seek_wr b1 len 2))"

text \<open>The text at the read position; without a zero byte the memory is left.\<close>

definition buf_text :: "char ems_buffer \<Rightarrow> string option" where
  "buf_text b =
    (let m = drop (brd b) (bmem b)
     in if bmem b = [] then Some ''(null)'' else if char_of (0 :: nat) \<in> set m then Some (c_text m) else None)"

text \<open>The fields of a header that end with a line each.\<close>

definition http_lines :: "string list \<Rightarrow> string" where
  "http_lines ls = concat (map (\<lambda>l. l @ CRLF) ls)"

definition http_version :: "ems_http \<Rightarrow> string" where
  "http_version h = fmt_s (http_header_get (ht_hdr h) HTTP_Version)"

definition homepage_text :: "http_env \<Rightarrow> string \<Rightarrow> string \<Rightarrow> string" where
  "homepage_text e ver page =
    http_lines [ver @ '' 302 Moved Temporarily'', ''Server: yingkewifi'', ''Connection: close'', ''Date: '' @ he_tm e @ '' GMT'',
      ''Location: http://'' @ he_gw e @ page, ''Content-Type: text/plain'', [], ''<html></html>'']"

definition mgmt_text :: "http_env \<Rightarrow> string" where
  "mgmt_text e =
    http_lines [''HTTP/1.1 302 Found'', ''Server: yingkewifi'', ''Connection: close'', ''Date: '' @ he_tm e @ '' GMT'',
      ''Location: http://'' @ he_gw e @ ''/cgi-bin/luci/link_fail'', ''Content-Type: text/plain'', []]"

definition same_page_text :: "http_env \<Rightarrow> string \<Rightarrow> string \<Rightarrow> string" where
  "same_page_text e ver url =
    http_lines [ver @ '' 302 Moved Temporarily'', ''Server: yingkewifi'', ''Connection: close'', ''Date: '' @ he_tm e @ '' GMT'',
      ''Location: '' @ url, ''Content-Type: text/plain'', [], ''<html></html>'']"

definition portal_text :: "http_env \<Rightarrow> string \<Rightarrow> string \<Rightarrow> string" where
  "portal_text e ver args =
    http_lines [ver @ '' 302 Found'', ''Date: '' @ he_tm e @ '' GMT'', ''Server: yingkewifi'', ''Connection: close'',
      ''Location: http://'' @ he_portal e @ '':'' @ ems_itoa (he_redirect_port e) @ ''/portal/Login.do?'' @ args,
      ''Content-Type: text/plain;charset=utf-8'', [], ''<html></html>'']"

definition cna_text :: "http_env \<Rightarrow> string \<Rightarrow> string \<Rightarrow> string" where
  "cna_text e ver word =
    http_lines [ver @ '' 200 OK'', ''Date: '' @ he_tm e @ '' GMT'', ''Server: yingkewifi'', ''Connection: close'',
      ''Content-Type: text/plain;charset=utf-8'', []]
    @ ''<HTML><HEAD><TITLE>'' @ word @ ''</TITLE></HEAD><BODY>'' @ word @ ''</BODY></HTML>''"

definition nasinfo_text :: "http_env \<Rightarrow> string \<Rightarrow> string \<Rightarrow> string \<Rightarrow> string" where
  "nasinfo_text e ver func ctx =
    http_lines [ver @ '' 200 OK'', ''Date: '' @ he_tm e @ '' GMT'', ''Server: yingkewifi'', ''Connection: close'',
      ''Content-Length: '' @ ems_itoa (int (length ctx + length func + 3)), ''Content-Type: text/plain;charset=utf-8'', []]
    @ func @ ''('' @ ctx @ '');''"

end
