(* ===== verification/Ems_Http_Server.thy ===== *)
theory Ems_Http_Server
  imports Ems_Http
begin

text \<open>
  The web server of \<^verbatim>\<open>c/ems/src/core/ems_http.c\<close>, second part: how a request is answered, the connections, and the
  start and the end of the server. A command that is run by another module while a request is answered
  overwrites only the unused part of the buffer of the core, which each answer fills anew.
\<close>

subsection \<open>Replies\<close>

definition HTTP_EVT_CB :: nat where "HTTP_EVT_CB = 5"
definition EVT_CMD_CB :: nat where "EVT_CMD_CB = 6"
definition TIMEOUT_CMD_CB :: nat where "TIMEOUT_CMD_CB = 7"

text \<open>The connection is to be written to, and closed when all is sent.\<close>

definition http_reply_set :: "http_env \<Rightarrow> ems_session \<Rightarrow> ems_session" where
  "http_reply_set e x =
    (let x1 = sess_timeout_set (he_now e) (sess_event_set x (EMS_EVT_READ OR EMS_EVT_WRITE) EVT_CMD_CB) EMS_CMD_TIMEOUT TIMEOUT_CMD_CB
     in x1\<lparr>sflg := ems_flag_set (sflg x1) SESSION_FLAG_DIE_AFTER_SEND\<rparr>)"

text \<open>\<open>ems_buffer_write\<close> of a number of bytes from the buffer of the core, which must not leave its memory.\<close>

definition write_core :: "char ems_buffer \<Rightarrow> int \<Rightarrow> ems_session \<Rightarrow> ems_session option" where
  "write_core core len x =
    (let src = drop (brd core) (bmem core)
     in if int (length src) < min len (buf_left (buf_out x)) then None
        else Some (x\<lparr>buf_out := snd (ems_buffer_write (buf_out x) src len)\<rparr>))"

text \<open>The common part of \<open>http_web_redirect_to_homepage\<close> and \<open>http_web_redirect_to_mgmt\<close>.\<close>

definition redirect_with :: "http_env \<Rightarrow> string \<Rightarrow> addr \<Rightarrow> ems_http \<Rightarrow> ems_http option" where
  "redirect_with e text s h =
    (case buf_printf text (ht_core h) of
       (len, core) \<Rightarrow>
         do {
           x \<leftarrow> hs_get s h;
           x1 \<leftarrow> write_core core len x;
           Some (hs_put s (http_reply_set e x1) (h\<lparr>ht_core := core\<rparr>))
         })"

definition http_web_redirect_to_homepage :: "http_env \<Rightarrow> addr \<Rightarrow> ems_http \<Rightarrow> ems_http option" where
  "http_web_redirect_to_homepage e s h = redirect_with e (homepage_text e (http_version h) ''/cgi-bin/luci/'') s h"

definition http_web_redirect_to_mgmt :: "http_env \<Rightarrow> addr \<Rightarrow> ems_http \<Rightarrow> ems_http option" where
  "http_web_redirect_to_mgmt e s h = redirect_with e (mgmt_text e) s h"

text \<open>The replies that are printed into the buffer of the core.\<close>

definition http_core_print :: "string \<Rightarrow> ems_http \<Rightarrow> ems_http" where
  "http_core_print text h = h\<lparr>ht_core := buf_print text (ht_core h)\<rparr>"

definition http_web_redirect_to_error :: "http_env \<Rightarrow> ems_http \<Rightarrow> ems_http" where
  "http_web_redirect_to_error e h = http_core_print (homepage_text e (http_version h) ''/cgi-bin/luci/guide_fail'') h"

definition http_web_redirect_to_same_page :: "http_env \<Rightarrow> string option \<Rightarrow> ems_http \<Rightarrow> ems_http" where
  "http_web_redirect_to_same_page e srcurl h =
    http_core_print (same_page_text e (http_version h) (case srcurl of None \<Rightarrow> ''no'' | Some u \<Rightarrow> u)) h"

definition http_cna_return_failed :: "http_env \<Rightarrow> ems_http \<Rightarrow> ems_http" where
  "http_cna_return_failed e h = http_core_print (cna_text e (http_version h) ''Failed'') h"

definition http_cna_return_success :: "http_env \<Rightarrow> ems_http \<Rightarrow> ems_http" where
  "http_cna_return_success e h = http_core_print (cna_text e (http_version h) ''Success'') h"

text \<open>The encoded text with the buffer it was written to; a null pointer is not encoded.\<close>

definition ems_urlencode :: "http_env \<Rightarrow> char ems_buffer \<Rightarrow> char ems_buffer \<Rightarrow> bool \<Rightarrow> (int \<times> char ems_buffer) option" where
  "ems_urlencode e dst src autoinc =
    (if \<not> he_alloc e then Some (EMS_ERR, dst)
     else if bmem src = [] then None
     else
       (let buf = url_encode (c_text (drop (brd src) (bmem src))) (nat (buf_len src));
            len = int (length buf);
            dst1 = (if buf_left dst \<le> len \<and> autoinc then snd (ems_buffer_increase (he_alloc e) (he_garbage e) dst (length buf)) else dst)
        in if buf_left dst1 \<le> len then Some (EMS_BUFFER_INSUFFICIENT, dst1)
           else (let dst2 = snd (ems_buffer_write dst1 buf len)
                 in Some (EMS_OK, dst2\<lparr>bmem := mem_write (bmem dst2) (bwr dst2) [char_of (0 :: nat)]\<rparr>))))"

text \<open>The arguments of the page the portal shows, in a buffer of 2 KB.\<close>

definition portal_args :: "http_env \<Rightarrow> string \<Rightarrow> string \<Rightarrow> string \<Rightarrow> string" where
  "portal_args e ip um am =
    ''wlanuserip='' @ ip @ ''&wlanacname='' @ he_sn e @ ''&ssid='' @ he_ssid e @ ''&wlanusermac='' @ um @ ''&wlanapmac='' @ am
      @ ''&apsn='' @ he_sn e"

definition put_text :: "string \<Rightarrow> char ems_buffer \<Rightarrow> char ems_buffer" where
  "put_text s b = snd (ems_buffer_write b s (int (length s)))"

definition args_buffer :: "http_env \<Rightarrow> string \<Rightarrow> string option \<Rightarrow> char ems_buffer" where
  "args_buffer e args srcurl =
    (let b = snd (ems_buffer_init (he_alloc e) (he_garbage e) EMS_BUFFER_2K);
         b0 = buf_print args (b\<lparr>bmem := map (\<lambda>_. char_of (0 :: nat)) (bmem b)\<rparr>);
         b1 = (if he_alloc e then put_text (url_encode (he_devicetype e) (length (he_devicetype e))) (put_text ''&devicetype='' b0) else b0);
         b2 = (case srcurl of None \<Rightarrow> b1 | Some u \<Rightarrow> put_text u (put_text ''&srcurl='' b1))
     in if he_weixin e \<and> he_alloc e then
          put_text (url_encode (c_text (drop (brd b2) (bmem b2))) (nat (buf_len b2))) (put_text ''&auth='' b2)
        else b2)"

text \<open>The reply is cut to the room in the buffer of the core.\<close>

definition http_web_portal_fill_with :: "http_env \<Rightarrow> addr \<Rightarrow> string option \<Rightarrow> ems_http \<Rightarrow> ems_http option" where
  "http_web_portal_fill_with e s srcurl h =
    do {
      x \<leftarrow> hs_get s h;
      ip \<leftarrow> str_data (s_addr (sock x));
      mac \<leftarrow> he_usermac e ip;
      um \<leftarrow> mac_copy mac;
      am \<leftarrow> mac_copy (he_bssid e);
      args \<leftarrow> buf_text (args_buffer e (portal_args e ip um am) srcurl);
      Some (case buf_printf (portal_text e (http_version h) args) (ht_core h) of
        (rtn, core) \<Rightarrow> h\<lparr>ht_core := snd (ems_buffer_seek_wr core (min rtn (buf_left core)) 2)\<rparr>)
    }"

subsection \<open>Queries about a user\<close>

text \<open>What follows \<open>callback=\<close>, and the parameter, which is cut at the next ampersand.\<close>

definition http_web_callback :: "string \<Rightarrow> string option \<times> string" where
  "http_web_callback param =
    (case strstr param ''callback='' of
       None \<Rightarrow> (None, param)
     | Some p \<Rightarrow>
         (let q = drop 9 p
          in case strchr q (CHR ''&'') of
               None \<Rightarrow> (Some q, param)
             | Some r \<Rightarrow> (Some (take (length q - length r) q), take (length param - length r) param)))"

text \<open>The object is released twice: what the second time does depends on the allocator, and is only noted.\<close>

definition http_get_userinfo :: "http_env \<Rightarrow> string \<Rightarrow> ems_http \<Rightarrow> string \<times> string \<times> ems_http" where
  "http_get_userinfo e ip h =
    (if he_alloc e then
       (case http_ask e ty_radius EMS_APP_EVT_USERINFO (JObj [(''ip'', JStr ip)]) h of
          (_, info, h1) \<Rightarrow>
            (ems_json_get_string_def (Some info) ''nick'', ems_json_get_string_def (Some info) ''mac'', http_emit HPutReleased h1))
     else ([], [], h))"

definition http_kickout_user :: "http_env \<Rightarrow> string \<Rightarrow> string \<Rightarrow> string \<Rightarrow> ems_http \<Rightarrow> int \<times> ems_http" where
  "http_kickout_user e ip user mac h =
    (if he_alloc e then
       (case http_ask e ty_radius EMS_APP_CMD_RADIUS_LOGOUT (JObj [(''userip'', JStr ip), (''usermac'', JStr mac), (''username'', JStr user)]) h of
          (_, _, h1) \<Rightarrow> (EMS_OK, h1))
     else (EMS_ERR, h))"

definition nasinfo_obj :: "http_env \<Rightarrow> string \<Rightarrow> string \<Rightarrow> string \<Rightarrow> string \<Rightarrow> string \<Rightarrow> json" where
  "nasinfo_obj e user um ip apmac acmac =
    JObj [(''portalip'', JStr (he_portal e)), (''username'', JStr user), (''wlanusermac'', JStr um), (''wlanuserip'', JStr ip),
      (''ssid'', JStr (he_ssid e)), (''wlanapmac'', JStr apmac), (''wlanacmac'', JStr acmac), (''wlanacname'', JStr (he_sn e)),
      (''devicetype'', JStr (he_devicetype e)), (''sn'', JStr (he_sn e)), (''acip'', JStr (he_gw e))]"

definition http_web_nasinfo_fill_with :: "http_env \<Rightarrow> addr \<Rightarrow> string option \<Rightarrow> ems_http \<Rightarrow> ems_http option" where
  "http_web_nasinfo_fill_with e s func h =
    do {
      x \<leftarrow> hs_get s h;
      ip \<leftarrow> str_data (s_addr (sock x));
      let (user, mac, h1) = http_get_userinfo e ip h;
      let usermac = take 31 (fmt_s (he_usermac e ip));
      apmac \<leftarrow> mac_copy (he_bssid e);
      acmac \<leftarrow> mac_copy (he_ac_mac e);
      let known = (user \<noteq> [] \<and> mac \<noteq> [] \<and> mac = usermac);
      let h2 = (if \<not> known \<and> user \<noteq> [] then snd (http_kickout_user e ip user mac h1) else h1);
      let data = nasinfo_obj e (if known then user else []) (ems_mac_update usermac) ip apmac acmac;
      let ctx = he_json_text e (Some (JObj [(''result'', JInt (if known then 0 else 1)), (''data'', data)]));
      Some (http_core_print (nasinfo_text e (http_version h2) (case func of None \<Rightarrow> ''afunc'' | Some f \<Rightarrow> f) ctx) h2)
    }"

text \<open>The length of a text, 0 for a null pointer.\<close>

definition ems_strlen :: "string option \<Rightarrow> nat" where
  "ems_strlen s = (case s of None \<Rightarrow> 0 | Some t \<Rightarrow> length t)"

definition http_web_try_nasgetinfo :: "ems_http \<Rightarrow> string option \<Rightarrow> string option \<Rightarrow> bool" where
  "http_web_try_nasgetinfo h param host \<longleftrightarrow>
    9 < ems_strlen param \<and> strncmp_eq (fmt_s param) ''/portal/?'' 9 \<and>
    str_len (ht_nas h) \<le> ems_strlen host \<and>
    (str_len (ht_nas h) = 0 \<or> strncmp_eq (str_text (ht_nas h)) (fmt_s host) (str_len (ht_nas h)))"

definition http_web_try_subdomain :: "http_env \<Rightarrow> string option \<Rightarrow> ems_http \<Rightarrow> (bool \<times> ems_http) option" where
  "http_web_try_subdomain e host h =
    do {
      t \<leftarrow> host;
      Some (case http_ask e ty_fw EMS_APP_CHECK_SUBDOMAIN (JObj [(''url'', JStr t)]) h of (ret, _, h1) \<Rightarrow> (ret = 1, h1))
    }"

text \<open>No key of the list is empty, so that none is looked for in a null pointer.\<close>

definition url_hit :: "string option \<Rightarrow> ems_str \<Rightarrow> bool" where
  "url_hit param k \<longleftrightarrow>
    (case param of None \<Rightarrow> False | Some t \<Rightarrow> str_len k \<le> length t \<and> strstr t (str_text k) \<noteq> None)"

definition http_web_try_urlwhitelist :: "http_env \<Rightarrow> string option \<Rightarrow> string option \<Rightarrow> ems_http \<Rightarrow> (bool \<times> ems_http) option" where
  "http_web_try_urlwhitelist e param host h =
    (if \<exists>k \<in> set (ht_url h). url_hit param k then
       do { t \<leftarrow> host; Some (True, snd (snd (http_ask e ty_fw EMS_APP_CHECK_URL_WHITELIST (JObj [(''addr'', JStr t)]) h))) }
     else Some (False, h))"

definition cna_hit :: "string option \<Rightarrow> ems_cna_rule \<Rightarrow> bool" where
  "cna_hit host r \<longleftrightarrow> str_len (cr_host r) = ems_strlen host \<and> (str_len (cr_host r) = 0 \<or> str_data (cr_host r) = host)"

text \<open>Whether the request was answered as the one of a probing client.\<close>

definition http_web_try_cnarequest :: "http_env \<Rightarrow> addr \<Rightarrow> string option \<Rightarrow> string option \<Rightarrow> ems_http \<Rightarrow> (bool \<times> ems_http) option" where
  "http_web_try_cnarequest e s param host h =
    (if \<exists>r \<in> set (ht_cna h). cna_hit host r then
       do {
         x \<leftarrow> hs_get s h;
         ip \<leftarrow> str_data (s_addr (sock x));
         (rtn, h1) \<leftarrow> http_cna_user_run e (http_cna_user_find h ip) ip host param h;
         Some (if rtn = HTTP_RETURN_FAILED then (True, http_cna_return_failed e h1)
               else if rtn = HTTP_RETURN_SUCCESS then (True, http_cna_return_success e h1)
               else (False, h1))
       }
     else Some (False, h))"

end
