(* ===== verification/Ems_Http_Conn.thy ===== *)
theory Ems_Http_Conn
  imports Ems_Http_Server
begin

text \<open>
  The web server of \<^verbatim>\<open>c/ems/src/core/ems_http.c\<close>, third part: the dispatch of a request, the events of a
  connection, the listening socket, the start and the end.
\<close>

subsection \<open>Requests\<close>

text \<open>Addresses that name the page the client wanted: \<open>http://host:port/page\<close>.\<close>

definition url_text :: "ems_http \<Rightarrow> string option \<Rightarrow> string option \<Rightarrow> string" where
  "url_text h host param = ''http://'' @ fmt_s host @ '':'' @ ems_itoa (ht_src h) @ fmt_s param"

definition url_buffer :: "http_env \<Rightarrow> string option \<Rightarrow> string option \<Rightarrow> ems_http \<Rightarrow> char ems_buffer" where
  "url_buffer e host param h =
    buf_print (url_text h host param)
      (snd (ems_buffer_init (he_alloc e) (he_garbage e) (ems_strlen param + ems_strlen host + EMS_BUFFER_1K)))"

text \<open>The address as \<open>http_web_redirect_to_same_page\<close> gets it, \<open>no\<close> for a null pointer.\<close>

definition url_arg :: "char ems_buffer \<Rightarrow> string option option" where
  "url_arg url = (if bmem url = [] then Some None else map_option Some (buf_text url))"

text \<open>The last part of \<open>http_web_do_redirect\<close>: a probing client, or the page of the portal.\<close>

definition redirect_rest ::
  "http_env \<Rightarrow> addr \<Rightarrow> string option \<Rightarrow> string option \<Rightarrow> char ems_buffer \<Rightarrow> ems_http \<Rightarrow> ems_http option" where
  "redirect_rest e s param host url h =
    do {
      x \<leftarrow> hs_get s h;
      (_, b) \<leftarrow> ems_urlencode e (ems_buffer_clear (buf_in x)) url True;
      let h1 = hs_put s (x\<lparr>buf_in := b\<rparr>) h;
      srcurl \<leftarrow> (if 0 < buf_len b \<and> param \<noteq> None \<and> host \<noteq> None then map_option Some (buf_text b) else Some None);
      (done, h2) \<leftarrow> (if ems_flag_like (ht_flg h1) EMS_FLG_HTTP_ENABLE_CNA then http_web_try_cnarequest e s param host h1 else Some (False, h1));
      if done then Some h2
      else if he_config_ready e then http_web_portal_fill_with e s srcurl h2
      else Some (http_web_redirect_to_error e h2)
    }"

definition http_web_do_redirect :: "http_env \<Rightarrow> addr \<Rightarrow> ems_http \<Rightarrow> ems_http option" where
  "http_web_do_redirect e s h =
    (let param = http_header_get (ht_hdr h) HTTP_Param; host = http_header_get (ht_hdr h) HTTP_Host; url = url_buffer e host param h
     in if ems_flag_like (ht_flg h) EMS_FLG_HTTP_ENABLE_NASGETINFO \<and> http_web_try_nasgetinfo h param host then
          (case http_web_callback (fmt_s param) of
             (func, param') \<Rightarrow>
               http_web_nasinfo_fill_with e s func
                 (h\<lparr>ht_hdr := (ht_hdr h)(HTTP_Param := (ht_hdr h HTTP_Param)\<lparr>str_data := Some param'\<rparr>)\<rparr>))
        else
          do {
            (sub, h1) \<leftarrow> (if he_subdomain e then http_web_try_subdomain e host h else Some (False, h));
            if sub then map_option (\<lambda>u. http_web_redirect_to_same_page e u h1) (url_arg url)
            else do {
              (white, h2) \<leftarrow> (if ems_flag_like (ht_flg h1) EMS_FLG_HTTP_ENABLE_URL then http_web_try_urlwhitelist e param host h1 else Some (False, h1));
              if white then map_option (\<lambda>u. http_web_redirect_to_same_page e u h2) (url_arg url)
              else redirect_rest e s param host url h2
            }
          })"

definition http_web_redirect_to_portal :: "http_env \<Rightarrow> addr \<Rightarrow> ems_http \<Rightarrow> ems_http option" where
  "http_web_redirect_to_portal e s h =
    do {
      x \<leftarrow> hs_get s h;
      hdr \<leftarrow> http_header_parse (he_alloc e) (nat (buf_left (ht_core h))) (ht_hdr h) (drop (brd (buf_in x)) (bmem (buf_in x)));
      h1 \<leftarrow> http_web_do_redirect e s (h\<lparr>ht_hdr := hdr\<rparr>);
      x1 \<leftarrow> hs_get s h1;
      let len = buf_len (ht_core h1);
      let x2 = (if buf_left (buf_out x1) \<le> len then
                  x1\<lparr>buf_out := snd (ems_buffer_increase (he_alloc e) (he_garbage e) (buf_out x1) (nat len))\<rparr> else x1);
      x3 \<leftarrow> write_core (ht_core h1) len x2;
      Some (hs_put s (http_reply_set e x3) h1)
    }"

definition http_web_msg_redirect :: "http_env \<Rightarrow> addr \<Rightarrow> ems_http \<Rightarrow> ems_http option" where
  "http_web_msg_redirect e s h =
    do {
      x \<leftarrow> hs_get s h;
      let h1 = (hs_put s (x\<lparr>sflg := ems_flag_set (sflg x) FLG_SESSION_IS_WEB\<rparr>) h)\<lparr>ht_core := ems_buffer_clear (ht_core h)\<rparr>;
      if he_first_config e then http_web_redirect_to_homepage e s h1
      else if he_network_ready e then http_web_redirect_to_portal e s h1
      else http_web_redirect_to_mgmt e s h1
    }"

subsection \<open>Connections\<close>

definition http_cmd_process :: "http_env \<Rightarrow> addr \<Rightarrow> ems_http \<Rightarrow> (int \<times> ems_http) option" where
  "http_cmd_process e s h =
    do {
      x \<leftarrow> hs_get s h;
      let mem = drop (brd (buf_in x)) (bmem (buf_in x));
      if ems_flag_like (sflg x) FLG_SESSION_IS_WEB then
        Some (EMS_CONTINUE, hs_put s (x\<lparr>buf_in := ems_buffer_clear (buf_in x)\<rparr>) h)
      else if \<not> http_msg_is_web mem then Some (EMS_ERR, h)
      else do {
        full \<leftarrow> http_header_full mem;
        if \<not> full then
          (if EMS_BUFFER_8k \<le> buf_size (buf_in x) then Some (EMS_ERR, h)
           else Some (EMS_CONTINUE, hs_put s (x\<lparr>buf_in := snd (ems_buffer_increase (he_alloc e) (he_garbage e) (buf_in x) EMS_BUFFER_1K)\<rparr>) h))
        else do {
          h1 \<leftarrow> http_web_msg_redirect e s h;
          x1 \<leftarrow> hs_get s h1;
          Some (EMS_OK, hs_put s (x1\<lparr>buf_in := ems_buffer_clear (buf_in x1)\<rparr>) h1)
        }
      }
    }"

text \<open>The answers of \<open>recv\<close> to each call of \<open>sess_recv\<close>; \<open>None\<close> when there are too few.\<close>

fun http_cmd_read :: "http_env \<Rightarrow> addr \<Rightarrow> recv_res list list \<Rightarrow> ems_http \<Rightarrow> (int \<times> ems_http) option" where
  "http_cmd_read e s [] h = None"
| "http_cmd_read e s (rs # rss) h =
    do {
      x \<leftarrow> hs_get s h;
      (ret, sk, b) \<leftarrow> ems_sock_read rs (sock x) (ems_buffer_refresh (buf_in x));
      let h1 = hs_put s (x\<lparr>sock := sk, buf_in := b\<rparr>) h;
      if ret \<le> 0 \<and> ret \<noteq> - EAGAIN then Some (EMS_ERR, h1)
      else do {
        (r, h2) \<leftarrow> http_cmd_process e s h1;
        if r \<noteq> EMS_CONTINUE \<and> r \<noteq> EMS_OK then Some (EMS_ERR, h2)
        else if ret = - EAGAIN then Some (EMS_OK, h2)
        else http_cmd_read e s rss h2
      }
    }"

definition http_cmd_write :: "http_env \<Rightarrow> addr \<Rightarrow> (int \<times> int) list \<Rightarrow> ems_http \<Rightarrow> (int \<times> ems_http) option" where
  "http_cmd_write e s rets h =
    do {
      x \<leftarrow> hs_get s h;
      (ret, sk, b, bytes) \<leftarrow> ems_sock_send rets (sock x) (buf_out x);
      let x1 = x\<lparr>sock := sk, buf_out := b\<rparr>;
      let h1 = (if bytes = [] then h else http_emit (HSent s bytes) h);
      if ret \<le> 0 \<and> ret \<noteq> - EAGAIN then Some (EMS_ERR, hs_put s x1 h1)
      else if buf_len b \<le> 0 then
        (if ems_flag_like (sflg x1) SESSION_FLAG_DIE_AFTER_SEND then Some (EMS_ERR, hs_put s x1 h1)
         else (let x2 = sess_timeout_set (he_now e) (sess_event_set x1 EMS_EVT_READ EVT_CMD_CB) EMS_CMD_TIMEOUT TIMEOUT_CMD_CB
               in Some (EMS_OK, hs_put s (x2\<lparr>buf_out := ems_buffer_refresh (buf_out x2)\<rparr>) h1)))
      else Some (EMS_OK, hs_put s x1 h1)
    }"

text \<open>\<open>ems_queue_remove\<close> and \<open>ems_session_shutdown_and_destroy\<close>.\<close>

definition http_cmd_release :: "addr \<Rightarrow> ems_http \<Rightarrow> ems_http" where
  "http_cmd_release s h =
    (hs_put s (snd (ems_session_shutdown_and_destroy (ht_sess_of h s))) h)
      \<lparr>ht_cmd := remove1 s (ht_cmd h), ht_sess_live := remove1 s (ht_sess_live h)\<rparr>"

definition evt_cmd_cb ::
  "http_env \<Rightarrow> addr \<Rightarrow> bool \<Rightarrow> flags \<Rightarrow> recv_res list list \<Rightarrow> (int \<times> int) list \<Rightarrow> ems_http \<Rightarrow> ems_http option" where
  "evt_cmd_cb e s err flg rss rets h =
    do {
      _ \<leftarrow> hs_get s h;
      if err then Some (http_cmd_release s h)
      else do {
        (r1, h1) \<leftarrow> (if ems_flag_like flg EMS_EVT_READ then http_cmd_read e s rss h else Some (EMS_OK, h));
        if r1 = EMS_ERR then Some (http_cmd_release s h1)
        else do {
          (r2, h2) \<leftarrow> (if ems_flag_like flg EMS_EVT_WRITE then http_cmd_write e s rets h1 else Some (EMS_OK, h1));
          if r2 = EMS_ERR then Some (http_cmd_release s h2) else Some h2
        }
      }
    }"

definition timeout_cmd_cb :: "addr \<Rightarrow> ems_http \<Rightarrow> ems_http option" where
  "timeout_cmd_cb s h = do { _ \<leftarrow> hs_get s h; Some (http_cmd_release s h) }"

subsection \<open>The listening socket\<close>

definition http_sess_in :: "http_env \<Rightarrow> int \<Rightarrow> string \<Rightarrow> int \<Rightarrow> ems_http \<Rightarrow> int \<times> ems_http" where
  "http_sess_in e fd a port h =
    (case he_new_sess e (ht_sess_live h) of
       None \<Rightarrow> (EMS_ERR, h)
     | Some s \<Rightarrow>
         (let x = ems_session_init (he_alloc e) (he_garbage e);
              sk = snd (ems_sock_setfd (snd (ems_sock_setport (snd (ems_sock_setaddr True (sock x) (Some a))) port)) fd);
              x1 = sess_timeout_set (he_now e) (sess_event_set (x\<lparr>sock := sk, cbarg := 1\<rparr>) EMS_EVT_READ EVT_CMD_CB) EMS_CMD_TIMEOUT TIMEOUT_CMD_CB
          in (EMS_OK, (hs_put s x1 h)\<lparr>ht_sess_live := s # ht_sess_live h, ht_cmd := ht_cmd h @ [s]\<rparr>)))"

datatype accept_res = Accepted int string int | AFail int

text \<open>Whether there may be another connection; \<open>EINTR\<close> is 4, \<open>ECONNABORTED\<close> 103.\<close>

definition http_accept_next :: "http_env \<Rightarrow> accept_res \<Rightarrow> ems_http \<Rightarrow> bool \<times> ems_http" where
  "http_accept_next e r h =
    (case r of
       AFail err \<Rightarrow> (err = 4 \<or> err = 103, h)
     | Accepted fd a port \<Rightarrow>
         (case http_sess_in e fd a port h of (ret, h1) \<Rightarrow> (True, if ret \<noteq> EMS_OK then http_emit (HClose fd) h1 else h1)))"

text \<open>The answers of \<open>accept\<close>; \<open>None\<close> when there are too few.\<close>

fun http_accept_all :: "http_env \<Rightarrow> accept_res list \<Rightarrow> ems_http \<Rightarrow> ems_http option" where
  "http_accept_all e [] h = None"
| "http_accept_all e (r # rs) h = (case http_accept_next e r h of (next, h1) \<Rightarrow> if next then http_accept_all e rs h1 else Some h1)"

definition http_normal :: "http_env \<Rightarrow> flags \<Rightarrow> accept_res list \<Rightarrow> ems_http \<Rightarrow> ems_http option" where
  "http_normal e flg rs h = (if \<not> ems_flag_like flg EMS_EVT_READ then Some h else http_accept_all e rs h)"

subsection \<open>Start and end\<close>

definition free_obj :: "string option \<Rightarrow> bool \<Rightarrow> ems_http \<Rightarrow> json" where
  "free_obj a enable h =
    JObj ((case a of None \<Rightarrow> [] | Some t \<Rightarrow> [(''addr'', JStr t)])
      @ [(''srcport'', JInt (ht_src h)), (''dstport'', JInt (ht_dst h)), (''enable'', JInt (of_bool enable))])"

definition http_set_grey_free :: "bool \<Rightarrow> ems_http \<Rightarrow> ems_http" where
  "http_set_grey_free enable h =
    fold (\<lambda>k h. if inet_addr (str_text k) = INADDR_NONE then h
                else http_emit (HProcess ty_fw EMS_APP_FW_SET_GREY_FREE (free_obj (Some (str_text k)) enable h)) h) (ht_grey h) h"

definition http_set_nas_free :: "bool \<Rightarrow> ems_http \<Rightarrow> ems_http" where
  "http_set_nas_free enable h =
    (if inet_addr (str_text (ht_nas h)) = INADDR_NONE then h
     else http_emit (HProcess ty_fw EMS_APP_FW_SET_NAS_FREE (free_obj (Some (str_text (ht_nas h))) enable h)) h)"

definition http_set_http_free :: "bool \<Rightarrow> ems_http \<Rightarrow> ems_http" where
  "http_set_http_free enable h = http_emit (HProcess ty_fw EMS_APP_FW_SET_HTTP_FREE (free_obj None enable h)) h"

text \<open>The calls of the three that \<open>http_stopped\<close> and \<open>http_fw_reload\<close> have in common.\<close>

definition http_set_free :: "bool \<Rightarrow> ems_http \<Rightarrow> ems_http" where
  "http_set_free enable h =
    (let h1 = (if ems_flag_like (ht_flg h) EMS_FLG_HTTP_ENABLE_NASGETINFO then http_set_nas_free enable h else h);
         h2 = (if ems_flag_like (ht_flg h1) EMS_FLG_HTTP_ENABLE_GREYLIST then http_set_grey_free enable h1 else h1)
     in http_set_http_free enable h2)"

text \<open>The loop over the ports, with the port the server ends with.\<close>

function http_bind_loop :: "(int \<Rightarrow> int option) \<Rightarrow> int \<Rightarrow> ems_session \<Rightarrow> int \<times> int \<times> ems_session" where
  "http_bind_loop listen port x =
    (let x1 = x\<lparr>sock := snd (ems_sock_setport (sock x) port)\<rparr>
     in case listen port of
          None \<Rightarrow> if port + 1 \<le> 9220 then http_bind_loop listen (port + 1) x1 else (EMS_ERR, port + 1, x1)
        | Some fd \<Rightarrow> (EMS_OK, port, x1\<lparr>sock := snd (ems_sock_setfd (sock x1) fd)\<rparr>))"
  by auto
termination by (relation "measure (\<lambda>(listen, p, x). nat (9221 - p))") auto

declare http_bind_loop.simps [simp del]

definition http_start :: "http_env \<Rightarrow> ems_http \<Rightarrow> int \<times> ems_http" where
  "http_start e h =
    (case (case ht_sess h of
             Some x \<Rightarrow> Some x
           | None \<Rightarrow> map_option (\<lambda>x. x\<lparr>sock := snd (ems_sock_setaddr True (sock x) (Some ''0.0.0.0''))\<rparr>)
                       (ems_session_new (he_alloc e) (he_alloc e) (he_garbage e))) of
       None \<Rightarrow> (EMS_ERR, h)
     | Some x \<Rightarrow>
         (case http_bind_loop (he_listen e) 9200 x of
            (ret, port, x1) \<Rightarrow>
              if ret \<noteq> EMS_OK then (EMS_ERR, h\<lparr>ht_sess := Some x1, ht_dst := port\<rparr>)
              else (EMS_OK, h\<lparr>ht_sess := Some (sess_event_set (x1\<lparr>cbarg := 1\<rparr>) EMS_EVT_READ HTTP_EVT_CB), ht_dst := port, ht_st := st_normal\<rparr>)))"

definition http_stopped :: "ems_http \<Rightarrow> int \<times> ems_http" where
  "http_stopped h =
    (let h1 = (http_set_free False h)\<lparr>ht_sess := None\<rparr>;
         h2 = fold http_cmd_release (ht_cmd h1) h1
     in (EMS_OK, fold http_cna_destroy (ht_cna_list h2) h2))"

definition ems_http_change_status :: "http_env \<Rightarrow> ems_status \<Rightarrow> ems_http \<Rightarrow> int \<times> ems_http" where
  "ems_http_change_status e st h =
    (let h1 = h\<lparr>ht_st := st\<rparr>
     in if st = st_start then http_start e h1 else if st = st_stopped then http_stopped h1 else (EMS_OK, h1))"

text \<open>The event of the listening socket, by the state of the server.\<close>

definition http_evt_run :: "http_env \<Rightarrow> flags \<Rightarrow> accept_res list \<Rightarrow> ems_http \<Rightarrow> ems_http option" where
  "http_evt_run e flg rs h =
    (if ht_st h = st_normal then http_normal e flg rs h
     else if ht_st h = st_start then Some (snd (http_start e h))
     else if ht_st h = st_stopped then Some (snd (http_stopped h))
     else Some h)"

definition evt_http_cb :: "http_env \<Rightarrow> bool \<Rightarrow> flags \<Rightarrow> accept_res list \<Rightarrow> ems_http \<Rightarrow> ems_http option" where
  "evt_http_cb e err flg rs h =
    (if err then Some (snd (ems_http_change_status e st_start (snd (ems_http_change_status e st_stopped h))))
     else http_evt_run e flg rs h)"

end
