(* ===== verification/Ems_Http_App.thy ===== *)
theory Ems_Http_App
  imports Ems_Http_Conn
begin

text \<open>
  The module of \<^verbatim>\<open>c/ems/src/core/app_http.c\<close>: one web server for each port of its rules, which are read from a
  JSON object. Servers are addresses, with the store \<open>hm_of\<close>; whether the nodes of split texts and the
  entries of the lists can be allocated is \<open>he_alloc\<close>, as in the server. The buffer of the core is the one of
  the environment when a server is made.
\<close>

record http_mgmt =
  hm_list :: "addr list"
  hm_live :: "addr list"
  hm_of :: "addr \<Rightarrow> ems_http"
  hm_rule :: "json option"
  hm_out :: "http_evt list"

record http_mod =
  hd_run :: bool
  hd_ctx :: "http_mgmt option"

record http_app_env = http_env +
  he_new_http :: "addr list \<Rightarrow> addr option"
  he_core :: "char ems_buffer"
  he_mem :: ems_http

text \<open>The environment of a single server.\<close>

abbreviation server_env :: "http_app_env \<Rightarrow> http_env" where
  "server_env e \<equiv> http_env.truncate e"

subsection \<open>Rules\<close>

definition ems_http_default_rules :: json where
  "ems_http_default_rules = JObj [(''port'', JArr [JStr (ems_itoa 80)]), (''nas'', JStr ''115.28.38.73'')]"

text \<open>\<open>he_mem\<close> is what is left in the stores of the model, with nothing in use.\<close>

definition ems_http_new :: "http_app_env \<Rightarrow> ems_http" where
  "ems_http_new e = (he_mem e)\<lparr>ht_flg := 0, ht_sess := None, ht_cmd := [], ht_url := [], ht_grey := [], ht_cna := [], ht_cna_list := [],
     ht_src := 0, ht_dst := 0, ht_nas := str_init, ht_st := st_stopped, ht_hdr := http_header_init, ht_sess_live := [], ht_cna_live := [],
     ht_core := he_core e, ht_out := []\<rparr>"

text \<open>What is left of the server when its memory is released.\<close>

definition ems_http_destroy :: "ems_http \<Rightarrow> ems_http" where
  "ems_http_destroy h = h\<lparr>ht_url := [], ht_grey := [], ht_cna := [], ht_nas := str_init, ht_hdr := http_header_uninit (ht_hdr h)\<rparr>"

definition ems_http_is_own :: "ems_str list \<Rightarrow> int \<Rightarrow> bool" where
  "ems_http_is_own list src_port \<longleftrightarrow> ems_split_len list = 1 \<or> ems_split_find list (ems_itoa src_port) \<noteq> None"

text \<open>The pieces of a rule between colons, if it applies to the port of the server and its first piece is not empty.\<close>

definition own_rule :: "bool \<Rightarrow> int \<Rightarrow> string \<Rightarrow> ems_str list option option" where
  "own_rule alloc src_port s =
    map_option (\<lambda>(_, list). if ems_split_get_str list 0 \<notin> {None, Some []} \<and> ems_http_is_own list src_port then Some list else None)
      (ems_string_split (\<lambda>_. alloc) [] (Some s) (Some '':''))"

definition piece :: "ems_str list \<Rightarrow> int \<Rightarrow> ems_str" where
  "piece list i = str_set_opt str_init (ems_split_get_str list i)"

definition ems_http_get_nas :: "bool \<Rightarrow> json option \<Rightarrow> ems_http \<Rightarrow> ems_http option" where
  "ems_http_get_nas alloc root h =
    (case root of
       Some (JStr s) \<Rightarrow>
         map_option (\<lambda>r. case r of None \<Rightarrow> h
                         | Some list \<Rightarrow> h\<lparr>ht_nas := piece list 0, ht_flg := ems_flag_set (ht_flg h) EMS_FLG_HTTP_ENABLE_NASGETINFO\<rparr>)
           (own_rule alloc (ht_src h) s)
     | _ \<Rightarrow> Some h)"

text \<open>The texts of an array, each with what it adds to the server.\<close>

fun add_rules :: "bool \<Rightarrow> (ems_str list \<Rightarrow> ems_http \<Rightarrow> ems_http) \<Rightarrow> string list \<Rightarrow> ems_http \<Rightarrow> ems_http option" where
  "add_rules alloc f [] h = Some h"
| "add_rules alloc f (s # ss) h =
    do {
      r \<leftarrow> own_rule alloc (ht_src h) s;
      add_rules alloc f ss (case r of None \<Rightarrow> h | Some list \<Rightarrow> if alloc then f list h else h)
    }"

definition array_rules :: "bool \<Rightarrow> (ems_str list \<Rightarrow> ems_http \<Rightarrow> ems_http) \<Rightarrow> json option \<Rightarrow> ems_http \<Rightarrow> ems_http option" where
  "array_rules alloc f ary h = (case ary of Some (JArr js) \<Rightarrow> add_rules alloc f (json_strings js) h | _ \<Rightarrow> Some h)"

definition ems_http_get_url_whitelist :: "bool \<Rightarrow> json option \<Rightarrow> ems_http \<Rightarrow> ems_http option" where
  "ems_http_get_url_whitelist alloc =
    array_rules alloc (\<lambda>list h. h\<lparr>ht_url := ht_url h @ [piece list 0], ht_flg := ems_flag_set (ht_flg h) EMS_FLG_HTTP_ENABLE_URL\<rparr>)"

definition ems_http_get_cna_list :: "bool \<Rightarrow> json option \<Rightarrow> ems_http \<Rightarrow> ems_http option" where
  "ems_http_get_cna_list alloc =
    array_rules alloc (\<lambda>list h. h\<lparr>ht_cna := ht_cna h @ [\<lparr>cr_host = piece list 0, cr_param = piece list 1\<rparr>],
      ht_flg := ems_flag_set (ht_flg h) EMS_FLG_HTTP_ENABLE_CNA\<rparr>)"

definition ems_http_get_url_greylist :: "bool \<Rightarrow> json option \<Rightarrow> ems_http \<Rightarrow> ems_http option" where
  "ems_http_get_url_greylist alloc =
    array_rules alloc (\<lambda>list h. h\<lparr>ht_grey := ht_grey h @ [piece list 0], ht_flg := ems_flag_set (ht_flg h) EMS_FLG_HTTP_ENABLE_GREYLIST\<rparr>)"

subsection \<open>Servers\<close>

text \<open>The messages of a server that is released are kept.\<close>

definition ems_http_create_new :: "http_app_env \<Rightarrow> int \<Rightarrow> http_mgmt \<Rightarrow> (int \<times> http_mgmt) option" where
  "ems_http_create_new e src_port m =
    do {
      i \<leftarrow> he_new_http e (hm_live m);
      h1 \<leftarrow> ems_http_get_nas (he_alloc e) (json_object_object_get (hm_rule m) ''nas'') ((ems_http_new e)\<lparr>ht_src := src_port\<rparr>);
      h2 \<leftarrow> ems_http_get_url_whitelist (he_alloc e) (json_object_object_get (hm_rule m) ''url'') h1;
      h3 \<leftarrow> ems_http_get_cna_list (he_alloc e) (json_object_object_get (hm_rule m) ''cna'') h2;
      h4 \<leftarrow> ems_http_get_url_greylist (he_alloc e) (json_object_object_get (hm_rule m) ''grey'') h3;
      Some (case ems_http_change_status (server_env e) st_start h4 of
        (ret, h5) \<Rightarrow>
          if ret \<noteq> EMS_OK then (EMS_ERR, m\<lparr>hm_out := hm_out m @ ht_out (snd (ems_http_change_status (server_env e) st_stopped h5))\<rparr>)
          else (EMS_OK, m\<lparr>hm_of := (hm_of m)(i := h5), hm_live := i # hm_live m, hm_list := hm_list m @ [i]\<rparr>))
    }"

fun start_ports :: "http_app_env \<Rightarrow> string list \<Rightarrow> http_mgmt \<Rightarrow> http_mgmt option" where
  "start_ports e [] m = Some m"
| "start_ports e (s # ss) m = do { (_, m1) \<leftarrow> ems_http_create_new e (ems_atoi (Some s)) m; start_ports e ss m1 }"

text \<open>Without a list of ports the module sends itself a stop and a start.\<close>

definition http_start_all :: "http_app_env \<Rightarrow> http_mgmt \<Rightarrow> (int \<times> http_mgmt) option" where
  "http_start_all e m =
    (let rule = (case hm_rule m of None \<Rightarrow> ems_http_default_rules | Some r \<Rightarrow> r); m1 = m\<lparr>hm_rule := Some rule\<rparr>
     in case json_object_object_get (Some rule) ''port'' of
          None \<Rightarrow> Some (EMS_ERR, m1\<lparr>hm_out := hm_out m1 @ [HSend ty_http EMS_APP_STOP, HSend ty_http EMS_APP_START]\<rparr>)
        | Some ary \<Rightarrow> do { js \<leftarrow> json_elems ary; m2 \<leftarrow> start_ports e (json_strings js) m1; Some (EMS_OK, m2) })"

definition stop_server :: "http_app_env \<Rightarrow> addr \<Rightarrow> http_mgmt \<Rightarrow> http_mgmt" where
  "stop_server e i m =
    (let h = snd (ems_http_change_status (server_env e) st_stopped (hm_of m i))
     in m\<lparr>hm_of := (hm_of m)(i := ems_http_destroy h), hm_list := remove1 i (hm_list m), hm_live := remove1 i (hm_live m),
          hm_out := hm_out m @ ht_out h\<rparr>)"

definition http_stop_all :: "http_app_env \<Rightarrow> http_mgmt \<Rightarrow> http_mgmt" where
  "http_stop_all e m = (fold (stop_server e) (hm_list m) m)\<lparr>hm_rule := None\<rparr>"

subsection \<open>The module\<close>

definition http_init :: "bool \<Rightarrow> http_mgmt \<Rightarrow> http_mod \<Rightarrow> int \<times> http_mod" where
  "http_init alloc mem m =
    (if alloc then (EMS_OK, m\<lparr>hd_ctx := Some (mem\<lparr>hm_list := [], hm_live := [], hm_rule := None, hm_out := []\<rparr>)\<rparr>) else (EMS_ERR, m))"

text \<open>The rules, if there are any, are not released: the test for them is the wrong way round.\<close>

definition http_uninit :: "http_mod \<Rightarrow> (int \<times> json option \<times> http_mod) option" where
  "http_uninit m = map_option (\<lambda>c. (EMS_OK, hm_rule c, m\<lparr>hd_ctx := None\<rparr>)) (hd_ctx m)"

definition http_run :: "http_app_env \<Rightarrow> bool \<Rightarrow> http_mod \<Rightarrow> (int \<times> http_mod) option" where
  "http_run e run m =
    do {
      c \<leftarrow> hd_ctx m;
      if run then
        (if hd_run m then Some (EMS_OK, m)
         else do { (ret, c1) \<leftarrow> http_start_all e c; Some (EMS_OK, m\<lparr>hd_ctx := Some c1, hd_run := (ret = EMS_OK)\<rparr>) })
      else if \<not> hd_run m then Some (EMS_OK, m)
      else Some (EMS_OK, m\<lparr>hd_ctx := Some (http_stop_all e c), hd_run := False\<rparr>)
    }"

definition http_server_rules_update :: "http_app_env \<Rightarrow> json option \<Rightarrow> http_mod \<Rightarrow> (int \<times> http_mod) option" where
  "http_server_rules_update e root m =
    do {
      c \<leftarrow> hd_ctx m;
      if root = None \<or> he_json_text e root = he_json_text e (hm_rule c) then Some (EMS_OK, m)
      else do {
        let c1 = (http_stop_all e c)\<lparr>hm_rule := he_json_parse e (he_json_text e root)\<rparr>;
        c2 \<leftarrow> (if hd_run m then map_option snd (http_start_all e c1) else Some c1);
        Some (EMS_OK, m\<lparr>hd_ctx := Some c2\<rparr>)
      }
    }"

definition http_fw_reload :: "http_mgmt \<Rightarrow> http_mgmt" where
  "http_fw_reload c = fold (\<lambda>i c. c\<lparr>hm_of := (hm_of c)(i := http_set_free True (hm_of c i))\<rparr>) (hm_list c) c"

definition http_process :: "http_app_env \<Rightarrow> nat \<Rightarrow> json option \<Rightarrow> http_mod \<Rightarrow> (int \<times> http_mod) option" where
  "http_process e evt root m =
    (if evt = EMS_APP_SERVER_RULES_UPDATE then http_server_rules_update e root m
     else if evt = EMS_APP_EVT_FW_RELOAD then do { c \<leftarrow> hd_ctx m; Some (EMS_OK, m\<lparr>hd_ctx := Some (http_fw_reload c)\<rparr>) }
     else if evt = EMS_APP_START then http_run e True m
     else if evt = EMS_APP_STOP then http_run e False m
     else Some (EMS_OK, m))"

end
