(* ===== verification/Ems_Http_Inv.thy ===== *)
theory Ems_Http_Inv
  imports Ems_Http_App
begin

text \<open>
  The invariant of a web server and that each of its operations keeps it: the list of connections is the set of
  sessions in memory, each under a timer and watched for requests; the list of probing clients is the set
  of those in memory, one for an address, each with a timer; a server without its listening socket has neither.
\<close>

subsection \<open>The invariant\<close>

definition cmd_ok :: "ems_session \<Rightarrow> bool" where
  "cmd_ok x \<longleftrightarrow> s_to x \<noteq> None \<and> timeout_cb x = Some TIMEOUT_CMD_CB \<and> evt_cb x = Some EVT_CMD_CB \<and> sess_wants x EMS_EVT_READ
    \<and> str_data (s_addr (sock x)) \<noteq> None"

definition cna_ok :: "ems_cna \<Rightarrow> bool" where
  "cna_ok c \<longleftrightarrow> str_data (cn_ip c) \<noteq> None \<and> cn_to c \<noteq> None \<and> cn_st c \<in> {cna_st_phase_one, cna_st_phase_two, cna_st_phase_three}"

definition conns_ok :: "ems_http \<Rightarrow> bool" where
  "conns_ok h \<longleftrightarrow> distinct (ht_cmd h) \<and> distinct (ht_sess_live h) \<and> set (ht_cmd h) = set (ht_sess_live h) \<and>
    (\<forall>s \<in> set (ht_cmd h). cmd_ok (ht_sess_of h s))"

definition cnas_ok :: "ems_http \<Rightarrow> bool" where
  "cnas_ok h \<longleftrightarrow> distinct (ht_cna_list h) \<and> distinct (ht_cna_live h) \<and> set (ht_cna_list h) = set (ht_cna_live h) \<and>
    inj_on (\<lambda>c. str_data (cn_ip (ht_cna_of h c))) (set (ht_cna_list h)) \<and> (\<forall>c \<in> set (ht_cna_list h). cna_ok (ht_cna_of h c))"

definition listens :: "ems_http \<Rightarrow> bool" where
  "listens h \<longleftrightarrow> (\<exists>x. ht_sess h = Some x \<and> sess_wants x EMS_EVT_READ \<and> evt_cb x = Some HTTP_EVT_CB) \<and> 9200 \<le> ht_dst h \<and> ht_dst h \<le> 9220"

definition server_ok :: "ems_http \<Rightarrow> bool" where
  "server_ok h \<longleftrightarrow> ht_st h \<in> {st_start, st_stopped, st_normal} \<and> (ht_st h = st_normal \<longrightarrow> listens h) \<and>
    (ht_st h = st_stopped \<longrightarrow> ht_sess h = None) \<and> (ht_st h \<noteq> st_normal \<longrightarrow> ht_cmd h = [] \<and> ht_cna_list h = [])"

definition http_inv :: "ems_http \<Rightarrow> bool" where
  "http_inv h \<longleftrightarrow> conns_ok h \<and> cnas_ok h \<and> server_ok h"

lemmas http_inv_defs = http_inv_def conns_ok_def cnas_ok_def server_ok_def listens_def

definition fresh_http :: "http_env \<Rightarrow> bool" where
  "fresh_http e \<longleftrightarrow> (\<forall>L a. he_new_sess e L = Some a \<longrightarrow> a \<notin> set L) \<and> (\<forall>L a. he_new_cna e L = Some a \<longrightarrow> a \<notin> set L)"

subsection \<open>Results\<close>

definition hres :: "('a \<Rightarrow> bool) \<Rightarrow> 'a option \<Rightarrow> bool" where
  "hres P m \<longleftrightarrow> (\<forall>y. m = Some y \<longrightarrow> P y)"

abbreviation hok :: "ems_http option \<Rightarrow> bool" where "hok \<equiv> hres http_inv"
abbreviation hok2 :: "('a \<times> ems_http) option \<Rightarrow> bool" where "hok2 \<equiv> hres (\<lambda>y. http_inv (snd y))"

named_theorems hres_rules \<open>rules that take the body of an operation of the web server apart\<close>

lemma hresD: "hres P m \<Longrightarrow> m = Some y \<Longrightarrow> P y"
  by (simp add: hres_def)

lemma hres_basic [hres_rules]:
  "hres P None" "P y \<Longrightarrow> hres P (Some y)" "(b \<Longrightarrow> hres P m) \<Longrightarrow> (\<not> b \<Longrightarrow> hres P m') \<Longrightarrow> hres P (if b then m else m')"
  by (simp_all add: hres_def)

lemma hres_bind: "(\<And>y. m = Some y \<Longrightarrow> hres P (g y)) \<Longrightarrow> hres P (Option.bind m g)"
  by (auto simp: hres_def bind_eq_Some_conv)

lemma hres_then: "hres Q m \<Longrightarrow> (\<And>y. Q y \<Longrightarrow> hres P (g y)) \<Longrightarrow> hres P (Option.bind m g)"
  by (auto simp: hres_def bind_eq_Some_conv)

lemma hres_step: "hres Q m \<Longrightarrow> (\<And>y. m = Some y \<Longrightarrow> Q y \<Longrightarrow> hres P (g y)) \<Longrightarrow> hres P (Option.bind m g)"
  by (auto simp: hres_def bind_eq_Some_conv)

lemma hres_map: "(\<And>y. P (f y)) \<Longrightarrow> hres P (map_option f m)"
  by (auto simp: hres_def)

lemma hres_prod: "(\<And>a b. y = (a, b) \<Longrightarrow> hres P (g a b)) \<Longrightarrow> hres P (case y of (a, b) \<Rightarrow> g a b)"
  by (cases y) simp

subsection \<open>Parts that the invariant does not look at\<close>

lemma inv_frame [simp]:
  "http_inv (http_emit m h) = http_inv h" "http_inv (h\<lparr>ht_core := b\<rparr>) = http_inv h" "http_inv (h\<lparr>ht_hdr := d\<rparr>) = http_inv h"
  "http_inv (http_core_print t h) = http_inv h"
  by (simp_all add: http_emit_def http_core_print_def http_inv_defs)

lemma inv_replies [simp]:
  "http_inv (http_web_redirect_to_error e h) = http_inv h" "http_inv (http_web_redirect_to_same_page e u h) = http_inv h"
  "http_inv (http_cna_return_failed e h) = http_inv h" "http_inv (http_cna_return_success e h) = http_inv h"
  by (simp_all add: http_web_redirect_to_error_def http_web_redirect_to_same_page_def http_cna_return_failed_def http_cna_return_success_def)

lemma inv_ask: "http_inv h \<Longrightarrow> http_inv (snd (snd (http_ask e d evt j h)))"
  by (simp add: http_ask_def split: prod.splits)

lemma get_in: "hs_get s h = Some x \<Longrightarrow> s \<in> set (ht_sess_live h) \<and> x = ht_sess_of h s"
  by (simp add: hs_get_def split: if_splits)

lemma get_ok: "http_inv h \<Longrightarrow> hs_get s h = Some x \<Longrightarrow> cmd_ok x"
  using get_in [of s h x] by (auto simp: http_inv_def conns_ok_def)

lemma inv_put:
  assumes "http_inv h" and "hs_get s h \<noteq> None" and "cmd_ok x"
  shows "http_inv (hs_put s x h)"
  using assms by (auto simp: hs_put_def http_inv_defs hs_get_def split: if_splits)

lemma get_put [simp]: "hs_get t (hs_put s x h) = (if t = s \<and> s \<in> set (ht_sess_live h) then Some x else hs_get t h)"
  by (auto simp: hs_get_def hs_put_def)

lemma get_frame [simp]:
  "hs_get s (http_emit m h) = hs_get s h" "hs_get s (h\<lparr>ht_core := b\<rparr>) = hs_get s h" "hs_get s (h\<lparr>ht_hdr := d\<rparr>) = hs_get s h"
  by (simp_all add: hs_get_def http_emit_def)

text \<open>Changes of a session that keep its timer and its event.\<close>

lemma cmd_ok_upd:
  "cmd_ok x \<Longrightarrow> cmd_ok (x\<lparr>sflg := f\<rparr>)" "cmd_ok x \<Longrightarrow> cmd_ok (x\<lparr>buf_in := b\<rparr>)" "cmd_ok x \<Longrightarrow> cmd_ok (x\<lparr>buf_out := b\<rparr>)"
  "cmd_ok x \<Longrightarrow> s_addr sk = s_addr (sock x) \<Longrightarrow> cmd_ok (x\<lparr>sock := sk\<rparr>)"
  by (simp_all add: cmd_ok_def sess_wants_def)

lemma cmd_ok_set:
  "str_data (s_addr (sock x)) \<noteq> None \<Longrightarrow> cmd_ok (sess_timeout_set t (sess_event_set x EMS_EVT_READ EVT_CMD_CB) ms TIMEOUT_CMD_CB)"
  "cmd_ok x \<Longrightarrow> cmd_ok (http_reply_set e x)"
  by (simp_all add: cmd_ok_def http_reply_set_def sess_timeout_set_def sess_event_set_def sess_wants_def Let_def ems_flag_like_def
      EMS_EVT_READ_def EMS_EVT_WRITE_def EMS_EVT_EDGE_TRIGGER_def)

lemma write_core_ok: "write_core core len x = Some x1 \<Longrightarrow> cmd_ok x \<Longrightarrow> cmd_ok x1"
  by (auto simp: write_core_def Let_def intro: cmd_ok_upd split: if_splits)

lemma close_addr: "s_addr (snd (ems_sock_close sk)) = s_addr sk"
  by (simp add: ems_sock_close_def)

lemma read_addr: "ems_sock_read rs sk b = Some (r, sk', b') \<Longrightarrow> s_addr sk' = s_addr sk"
  by (auto simp: ems_sock_read_def Let_def close_addr split: if_splits option.splits prod.splits recv_end.splits)

lemma send_addr: "ems_sock_send rs sk b = Some (r, sk', b', out) \<Longrightarrow> s_addr sk' = s_addr sk"
  by (auto simp: ems_sock_send_def close_addr split: if_splits option.splits prod.splits send_res.splits)

subsection \<open>Probing clients\<close>

lemma update_ip: "update_cna_status c host param ver = Some c' \<Longrightarrow> cn_ip c' = cn_ip c"
  by (auto simp: update_cna_status_def bind_eq_Some_conv Let_def split: if_splits option.splits)

lemma version_st: "st < 4 \<Longrightarrow> cna_version_st v st < 4"
  by (auto simp: cna_version_st_def cna_st_init_def cna_st_phase_one_def)

lemma update_st: "update_cna_status c host param ver = Some c' \<Longrightarrow> cn_st c < 4 \<Longrightarrow> cn_st c' < 4"
  by (auto simp: update_cna_status_def bind_eq_Some_conv Let_def cna_st_init_def intro!: version_st split: if_splits option.splits)

lemma answer_ok:
  assumes "cn_st x < 4" and "str_data (cn_ip x) \<noteq> None" and "cna_answer e x = (r, y)"
  shows "cna_ok y \<and> cn_ip y = cn_ip x"
  using assms by (auto simp: cna_answer_def cna_wait_def cna_ok_def cna_st_init_def cna_st_phase_one_def cna_st_phase_two_def
      cna_st_phase_three_def split: if_splits)

lemma cna_ok_st: "cna_ok c \<Longrightarrow> cn_st c < 4 \<and> str_data (cn_ip c) \<noteq> None"
  by (auto simp: cna_ok_def cna_st_phase_one_def cna_st_phase_two_def cna_st_phase_three_def)

lemma inv_cna_put:
  assumes "http_inv h" and "c \<in> set (ht_cna_list h)" and "cna_ok y" and "cn_ip y = cn_ip (ht_cna_of h c)"
  shows "http_inv (hc_put c y h)"
proof -
  have "(\<lambda>d. str_data (cn_ip (((ht_cna_of h)(c := y)) d))) = (\<lambda>d. str_data (cn_ip (ht_cna_of h d)))"
    using assms(4) by (intro ext) simp
  moreover have "inj_on (\<lambda>d. str_data (cn_ip (ht_cna_of h d))) (set (ht_cna_list h))"
    using assms(1) unfolding http_inv_def cnas_ok_def by blast
  ultimately have "inj_on (\<lambda>d. str_data (cn_ip (((ht_cna_of h)(c := y)) d))) (set (ht_cna_list h))" by (simp only:)
  then show ?thesis using assms(1-3) unfolding http_inv_defs hc_put_def by simp
qed

lemma inv_cna_add:
  assumes "http_inv h" and "ht_st h = st_normal" and "c \<notin> set (ht_cna_live h)" and "cna_ok y" and "str_data (cn_ip y) = Some ip"
    and "http_cna_user_find h ip = None"
  shows "http_inv ((hc_put c y h)\<lparr>ht_cna_live := c # ht_cna_live h, ht_cna_list := ht_cna_list h @ [c]\<rparr>)"
proof -
  have n: "c \<notin> set (ht_cna_list h)" using assms(1,3) by (simp add: http_inv_def cnas_ok_def)
  have "\<forall>d \<in> set (ht_cna_list h). str_data (cn_ip (ht_cna_of h d)) \<noteq> Some ip"
    using assms(6) by (auto simp: http_cna_user_find_def find_None_iff)
  then have "inj_on (\<lambda>d. str_data (cn_ip (((ht_cna_of h)(c := y)) d))) (set (ht_cna_list h @ [c]))"
    using assms(1,5) n by (auto simp: http_inv_def cnas_ok_def inj_on_def)
  then show ?thesis using assms(1-4) n unfolding http_inv_defs hc_put_def by auto
qed

lemma user_find_some: "http_cna_user_find h ip = Some c \<Longrightarrow> c \<in> set (ht_cna_list h) \<and> str_data (cn_ip (ht_cna_of h c)) = Some ip"
  by (auto simp: http_cna_user_find_def find_Some_iff)

lemma str_set_init: "str_set_opt str_init (Some ip) = \<lparr>str_len = length ip, str_data = Some ip\<rparr>"
  by (simp add: str_set_opt_def str_set_def)

lemma run_normal: "http_inv h \<Longrightarrow> hs_get s h = Some x \<Longrightarrow> ht_st h = st_normal"
  by (auto simp: http_inv_defs hs_get_def split: if_splits)

lemma inv_user_run:
  assumes "http_inv h" and "hs_get s h = Some x" and "fresh_http e"
  shows "hok2 (http_cna_user_run e (http_cna_user_find h ip) ip host param h)"
proof (cases "http_cna_user_find h ip")
  case (Some c)
  then have c: "c \<in> set (ht_cna_list h)" using user_find_some by blast
  then have "cn_st (ht_cna_of h c) < 4" "str_data (cn_ip (ht_cna_of h c)) \<noteq> None"
    using assms(1) by (auto simp: http_inv_def cnas_ok_def dest!: cna_ok_st)
  then have "http_inv (hc_put c y h)" if "update_cna_status (ht_cna_of h c) host param v = Some z" "cna_answer e z = (r, y)" for v z r y
    using inv_cna_put [OF assms(1) c] update_st [OF that(1)] update_ip [OF that(1)] answer_ok [OF _ _ that(2)] by simp
  then show ?thesis
    unfolding http_cna_user_run_def Some option.case Let_def prod.case
    by (intro hres_bind hres_basic) (simp split: prod.splits)
next
  case None
  show ?thesis
  proof (cases "he_new_cna e (ht_cna_live h)")
    case (Some c)
    then have c: "c \<notin> set (ht_cna_live h)" using assms(3) by (simp add: fresh_http_def)
    let ?n = "http_cna_new\<lparr>cn_ip := str_set_opt str_init (Some ip)\<rparr>"
    let ?h1 = "(hc_put c ?n h)\<lparr>ht_cna_live := c # ht_cna_live h, ht_cna_list := ht_cna_list h @ [c]\<rparr>"
    have "http_inv (hc_put c y ?h1)" if "update_cna_status ?n host param v = Some z" "cna_answer e z = (r, y)" for v z r y
    proof -
      have "cn_st z < 4" using update_st [OF that(1)] by (simp add: http_cna_new_def cna_st_init_def)
      moreover have ip: "str_data (cn_ip z) = Some ip" using update_ip [OF that(1)] by (simp add: str_set_init)
      ultimately have y: "cna_ok y" "str_data (cn_ip y) = Some ip" using answer_ok [OF _ _ that(2)] by auto
      have "hc_put c y ?h1 = (hc_put c y h)\<lparr>ht_cna_live := c # ht_cna_live h, ht_cna_list := ht_cna_list h @ [c]\<rparr>"
        by (simp add: hc_put_def)
      then show ?thesis using inv_cna_add [OF assms(1) run_normal [OF assms(1,2)] c y None] by simp
    qed
    then show ?thesis
      unfolding http_cna_user_run_def None Some option.case option.map Let_def prod.case
      by (intro hres_bind hres_basic) (auto simp: hc_put_def split: prod.splits)
  qed (use assms(1) None in \<open>simp add: http_cna_user_run_def hres_def\<close>)
qed

lemma inv_cna_destroy: "http_inv h \<Longrightarrow> http_inv (http_cna_destroy c h)"
  by (auto simp: http_cna_destroy_def http_inv_defs intro: inj_on_subset)

lemma inv_cna_timeout: "http_inv h \<Longrightarrow> hok (http_cna_timeout_cb c h)"
  by (simp add: http_cna_timeout_cb_def hres_def inv_cna_destroy)


subsection \<open>Requests\<close>

text \<open>A result that keeps the invariant and the session \<open>s\<close> in memory.\<close>

definition serves :: "addr \<Rightarrow> ems_http \<Rightarrow> bool" where
  "serves s h \<longleftrightarrow> http_inv h \<and> s \<in> set (ht_sess_live h)"

lemma servesI: "http_inv h \<Longrightarrow> hs_get s h = Some x \<Longrightarrow> serves s h"
  using get_in [of s h x] by (simp add: serves_def)

lemma serves_get: "serves s h \<Longrightarrow> \<exists>x. hs_get s h = Some x \<and> cmd_ok x"
  by (auto simp: serves_def hs_get_def http_inv_def conns_ok_def)

lemma serves_put: "serves s h \<Longrightarrow> cmd_ok x \<Longrightarrow> serves s (hs_put s x h)"
  using inv_put [of h s x] by (auto simp: serves_def hs_get_def) (simp add: hs_put_def)

lemma serves_frame [simp]:
  "serves s (http_emit m h) = serves s h" "serves s (h\<lparr>ht_core := b\<rparr>) = serves s h" "serves s (h\<lparr>ht_hdr := d\<rparr>) = serves s h"
  "serves s (http_core_print t h) = serves s h"
  by (simp_all add: serves_def) (simp_all add: http_emit_def http_core_print_def)

lemma serves_replies [simp]:
  "serves s (http_web_redirect_to_error e h) = serves s h" "serves s (http_web_redirect_to_same_page e u h) = serves s h"
  "serves s (http_cna_return_failed e h) = serves s h" "serves s (http_cna_return_success e h) = serves s h"
  by (simp_all add: http_web_redirect_to_error_def http_web_redirect_to_same_page_def http_cna_return_failed_def http_cna_return_success_def)

lemma serves_ask: "serves s h \<Longrightarrow> serves s (snd (snd (http_ask e d evt j h)))"
  by (simp add: http_ask_def split: prod.splits)

abbreviation sok :: "addr \<Rightarrow> ems_http option \<Rightarrow> bool" where "sok s \<equiv> hres (serves s)"
abbreviation sok2 :: "addr \<Rightarrow> ('a \<times> ems_http) option \<Rightarrow> bool" where "sok2 s \<equiv> hres (\<lambda>y. serves s (snd y))"

text \<open>A session that is changed and put back.\<close>

lemma sok_sess:
  "serves s h \<Longrightarrow> (\<And>x. hs_get s h = Some x \<Longrightarrow> cmd_ok x \<Longrightarrow> hres P (g x)) \<Longrightarrow> hres P (Option.bind (hs_get s h) g)"
  using serves_get by fastforce

lemma sok_redirect_with: "serves s h \<Longrightarrow> sok s (redirect_with e text s h)"
  unfolding redirect_with_def
proof (intro hres_prod sok_sess hres_bind hres_basic, goal_cases)
  case (2 len core x x1)
  then have "cmd_ok (http_reply_set e x1)" using cmd_ok_set(2) write_core_ok by blast
  then show ?case using 2(1) by (intro serves_put) simp_all
qed simp

lemma sok_home:
  "serves s h \<Longrightarrow> sok s (http_web_redirect_to_homepage e s h)" "serves s h \<Longrightarrow> sok s (http_web_redirect_to_mgmt e s h)"
  by (simp_all add: http_web_redirect_to_homepage_def http_web_redirect_to_mgmt_def sok_redirect_with)

lemma sok_portal: "serves s h \<Longrightarrow> sok s (http_web_portal_fill_with e s srcurl h)"
  unfolding http_web_portal_fill_with_def by (intro sok_sess hres_bind hres_basic) (auto split: prod.splits)

lemma serves_userinfo: "serves s h \<Longrightarrow> serves s (snd (snd (http_get_userinfo e ip h)))"
  by (simp add: http_get_userinfo_def http_ask_def split: prod.splits)

lemma serves_kickout: "serves s h \<Longrightarrow> serves s (snd (http_kickout_user e ip user mac h))"
  by (simp add: http_kickout_user_def http_ask_def split: prod.splits)

lemma sok_nasinfo: "serves s h \<Longrightarrow> sok s (http_web_nasinfo_fill_with e s func h)"
  unfolding http_web_nasinfo_fill_with_def Let_def
proof (intro sok_sess hres_bind hres_prod hres_basic, goal_cases)
  case (2 x ip user r mac h1 apmac acmac)
  then have "serves s h1" using serves_userinfo [of s h e ip] by simp
  then show ?case by (simp add: serves_kickout)
qed

lemma sok_sub: "serves s h \<Longrightarrow> sok2 s (http_web_try_subdomain e host h)"
  unfolding http_web_try_subdomain_def http_ask_def by (intro hres_bind hres_basic) (simp split: prod.splits)

lemma sok_white: "serves s h \<Longrightarrow> sok2 s (http_web_try_urlwhitelist e param host h)"
  unfolding http_web_try_urlwhitelist_def by (intro hres_bind hres_basic) (auto intro: serves_ask)

lemma live_user_run: "http_cna_user_run e cna ip host param h = Some (r, h') \<Longrightarrow> ht_sess_live h' = ht_sess_live h"
  by (auto simp: http_cna_user_run_def hc_put_def bind_eq_Some_conv split_beta split: option.splits)

lemma sok_user_run: "serves s h \<Longrightarrow> fresh_http e \<Longrightarrow> sok2 s (http_cna_user_run e (http_cna_user_find h ip) ip host param h)"
  using serves_get [of s h] inv_user_run [of h s _ e ip host param] live_user_run [of e _ ip host param h]
  by (fastforce simp: hres_def serves_def)

lemma sok_cna: "serves s h \<Longrightarrow> fresh_http e \<Longrightarrow> sok2 s (http_web_try_cnarequest e s param host h)"
  unfolding http_web_try_cnarequest_def
  by (intro sok_sess hres_bind hres_prod hres_basic hres_then [OF sok_user_run]) auto


lemma sok_rest:
  assumes "serves s h" and "fresh_http e"
  shows "sok s (redirect_rest e s param host url h)"
  unfolding redirect_rest_def Let_def
proof (rule sok_sess [OF assms(1)], rule hres_bind, rule hres_prod, rule hres_bind)
  fix x y r b srcurl
  assume "cmd_ok x"
  then have h1: "serves s (hs_put s (x\<lparr>buf_in := b\<rparr>) h)" using assms(1) by (intro serves_put cmd_ok_upd)
  show "sok s (do {
      (done, h2) \<leftarrow> (if ems_flag_like (ht_flg (hs_put s (x\<lparr>buf_in := b\<rparr>) h)) EMS_FLG_HTTP_ENABLE_CNA
        then http_web_try_cnarequest e s param host (hs_put s (x\<lparr>buf_in := b\<rparr>) h) else Some (False, hs_put s (x\<lparr>buf_in := b\<rparr>) h));
      if done then Some h2 else if he_config_ready e then http_web_portal_fill_with e s srcurl h2 else Some (http_web_redirect_to_error e h2)
    })"
    by (rule hres_then [where Q = "\<lambda>y. serves s (snd y)"]; intro hres_prod hres_basic sok_cna)
      (use h1 assms in \<open>auto simp: sok_portal\<close>)
qed

lemma sok_do_redirect: "serves s h \<Longrightarrow> fresh_http e \<Longrightarrow> sok s (http_web_do_redirect e s h)"
  unfolding http_web_do_redirect_def Let_def
  by (intro hres_prod hres_basic hres_then [where Q = "\<lambda>y. serves s (snd y)"] hres_map)
    (auto simp: sok_nasinfo sok_sub sok_white sok_rest)

lemma sok_to_portal:
  assumes "serves s h" and "fresh_http e"
  shows "sok s (http_web_redirect_to_portal e s h)"
  unfolding http_web_redirect_to_portal_def Let_def
proof (rule sok_sess [OF assms(1)], rule hres_bind, rule hres_then [OF sok_do_redirect])
  fix x hdr h1 assume h1: "serves s h1"
  show "sok s (do {
      x1 \<leftarrow> hs_get s h1;
      x3 \<leftarrow> write_core (ht_core h1) (buf_len (ht_core h1))
        (if buf_left (buf_out x1) \<le> buf_len (ht_core h1)
         then x1\<lparr>buf_out := snd (ems_buffer_increase (he_alloc e) (he_garbage e) (buf_out x1) (nat (buf_len (ht_core h1))))\<rparr> else x1);
      Some (hs_put s (http_reply_set e x3) h1)
    })"
    by (rule sok_sess [OF h1], rule hres_bind, rule hres_basic(2), rule serves_put [OF h1], rule cmd_ok_set(2), erule write_core_ok)
      (auto intro: cmd_ok_upd)
qed (use assms in simp_all)

lemma sok_msg_redirect: "serves s h \<Longrightarrow> fresh_http e \<Longrightarrow> sok s (http_web_msg_redirect e s h)"
  unfolding http_web_msg_redirect_def Let_def
  by (intro sok_sess hres_basic sok_home sok_to_portal) (auto intro!: serves_put cmd_ok_upd)

subsection \<open>Connections\<close>

lemma sok_process: "serves s h \<Longrightarrow> fresh_http e \<Longrightarrow> sok2 s (http_cmd_process e s h)"
  unfolding http_cmd_process_def Let_def
  by (intro sok_sess hres_basic hres_bind hres_then [OF sok_msg_redirect]) (auto intro: serves_put cmd_ok_upd)

lemma serves_read: "serves s h \<Longrightarrow> cmd_ok x \<Longrightarrow> ems_sock_read rs (sock x) b0 = Some (r, sk, b) \<Longrightarrow> serves s (hs_put s (x\<lparr>sock := sk, buf_in := b\<rparr>) h)"
  using read_addr [of rs "sock x" b0 r sk b] cmd_ok_upd(2,4) by (intro serves_put) auto

lemma sok_read: "serves s h \<Longrightarrow> fresh_http e \<Longrightarrow> sok2 s (http_cmd_read e s rss h)"
proof (induction e s rss h rule: http_cmd_read.induct)
  case (2 e s rs rss h)
  show ?case
    unfolding http_cmd_read.simps Let_def
  proof (rule sok_sess [OF 2(2)], rule hres_bind, (rule hres_prod)+)
    fix x y ret c sk b
    assume x: "hs_get s h = Some x" "cmd_ok x" and y: "ems_sock_read rs (sock x) (ems_buffer_refresh (buf_in x)) = Some y" "y = (ret, c)" "c = (sk, b)"
    let ?h1 = "hs_put s (x\<lparr>sock := sk, buf_in := b\<rparr>) h"
    have h1: "serves s ?h1" using serves_read [OF 2(2) x(2)] y by simp
    show "sok2 s (if ret \<le> 0 \<and> ret \<noteq> - EAGAIN then Some (EMS_ERR, ?h1)
       else do {
         (r, h2) \<leftarrow> http_cmd_process e s ?h1;
         if r \<noteq> EMS_CONTINUE \<and> r \<noteq> EMS_OK then Some (EMS_ERR, h2)
         else if ret = - EAGAIN then Some (EMS_OK, h2) else http_cmd_read e s rss h2
       })"
    proof (cases "ret \<le> 0 \<and> ret \<noteq> - EAGAIN")
      case False
      show ?thesis
        unfolding if_not_P [OF False]
        by (rule hres_step [OF sok_process [OF h1 2(3)]], rule hres_prod, intro hres_basic 2(1) [OF x(1) y(1) y(2) [symmetric] y(3) [symmetric] refl False _ refl _ _ _ 2(3)])
          auto
    qed (use h1 in \<open>simp add: hres_basic\<close>)
  qed
qed (simp add: hres_def)

lemma sok_write: "serves s h \<Longrightarrow> sok2 s (http_cmd_write e s rets h)"
  unfolding http_cmd_write_def Let_def
proof (intro sok_sess hres_bind hres_prod, goal_cases)
  case (2 x y ret z sk w b out)
  have x: "cmd_ok (x\<lparr>sock := sk, buf_out := b\<rparr>)" using 2 send_addr [of rets "sock x"] cmd_ok_upd(3,4) by auto
  moreover have "str_data (s_addr (sock (x\<lparr>sock := sk, buf_out := b\<rparr>))) \<noteq> None" using x by (simp add: cmd_ok_def)
  ultimately show ?case using 2(1) by (auto intro!: hres_basic serves_put cmd_ok_upd cmd_ok_set)
qed simp

lemma inv_release: "http_inv h \<Longrightarrow> http_inv (http_cmd_release s h)"
  by (auto simp: http_cmd_release_def hs_put_def http_inv_defs)

lemma serves_inv: "serves s h \<Longrightarrow> http_inv h"
  by (simp add: serves_def)

lemma inv_evt_cmd: "http_inv h \<Longrightarrow> fresh_http e \<Longrightarrow> hok (evt_cmd_cb e s err flg rss rets h)"
  unfolding evt_cmd_cb_def
  by (intro hres_bind hres_basic hres_then [where Q = "\<lambda>y. serves s (snd y)"] hres_prod)
    (auto intro: inv_release servesI sok_read sok_write dest: serves_inv)

lemma inv_timeout_cmd: "http_inv h \<Longrightarrow> hok (timeout_cmd_cb s h)"
  unfolding timeout_cmd_cb_def by (intro hres_bind hres_basic inv_release)


subsection \<open>The listening socket, start and end\<close>

lemma inv_sess_in:
  assumes "http_inv h" and "fresh_http e" and "ht_st h = st_normal"
  shows "http_inv (snd (http_sess_in e fd a port h))" "ht_st (snd (http_sess_in e fd a port h)) = st_normal"
proof -
  show "http_inv (snd (http_sess_in e fd a port h))"
  proof (cases "he_new_sess e (ht_sess_live h)")
    case (Some s)
    then have "s \<notin> set (ht_sess_live h)" using assms(2) by (simp add: fresh_http_def)
    then show ?thesis
      using assms(1,3) unfolding http_sess_in_def Some option.case Let_def snd_conv
      by (auto simp: http_inv_defs hs_put_def ems_sock_setfd_def ems_sock_setport_def ems_sock_setaddr_def str_set_def intro!: cmd_ok_set)
  qed (use assms in \<open>simp add: http_sess_in_def\<close>)
  show "ht_st (snd (http_sess_in e fd a port h)) = st_normal"
    using assms(3) by (simp add: http_sess_in_def hs_put_def Let_def split: option.splits)
qed

lemma inv_accept_next:
  assumes "http_inv h" and "fresh_http e" and "ht_st h = st_normal"
  shows "http_inv (snd (http_accept_next e r h)) \<and> ht_st (snd (http_accept_next e r h)) = st_normal"
proof (cases r)
  case (Accepted fd a port)
  show ?thesis using inv_sess_in [OF assms, of fd a port]
    by (cases "http_sess_in e fd a port h") (simp add: http_accept_next_def Accepted, simp add: http_emit_def)
qed (use assms in \<open>simp add: http_accept_next_def\<close>)

lemma inv_accept_all:
  "http_inv h \<Longrightarrow> fresh_http e \<Longrightarrow> ht_st h = st_normal \<Longrightarrow> hres (\<lambda>h'. http_inv h' \<and> ht_st h' = st_normal) (http_accept_all e rs h)"
proof (induction e rs h rule: http_accept_all.induct)
  case (2 e r rs h)
  then show ?case using inv_accept_next [OF 2(2-4), of r] by (auto intro!: hres_basic split: prod.splits)
qed (simp add: hres_def)

text \<open>Nothing but the record of what was told is changed.\<close>

definition only_out :: "ems_http \<Rightarrow> ems_http \<Rightarrow> bool" where
  "only_out h h' \<longleftrightarrow> (\<exists>out. h' = h\<lparr>ht_out := out\<rparr>)"

lemma only_out_refl: "only_out h h"
  unfolding only_out_def by (rule exI [of _ "ht_out h"]) simp

lemma only_out_trans: "only_out h h1 \<Longrightarrow> only_out h1 h2 \<Longrightarrow> only_out h h2"
  by (auto simp: only_out_def)

lemma only_out_emit: "only_out h (http_emit m h)"
  by (auto simp: only_out_def http_emit_def)

lemma only_out_fold: "(\<And>k h. only_out h (f k h)) \<Longrightarrow> only_out h (fold f ks h)"
  by (induction ks arbitrary: h) (auto intro: only_out_refl only_out_trans)

lemma only_out_grey: "only_out h (http_set_grey_free b h)"
  unfolding http_set_grey_free_def by (rule only_out_fold) (simp add: only_out_refl only_out_emit)

lemma only_out_nas: "only_out h (http_set_nas_free b h)"
  by (simp add: http_set_nas_free_def only_out_refl only_out_emit)

lemma only_out_if: "only_out h h' \<Longrightarrow> only_out h (if c then h' else h)"
  by (simp add: only_out_refl)

lemma set_free_frame: "only_out h (http_set_free b h)"
  unfolding http_set_free_def Let_def http_set_http_free_def
  by (rule only_out_trans [OF only_out_trans [OF only_out_if [OF only_out_nas] only_out_if [OF only_out_grey]] only_out_emit])

lemma inv_only_out: "only_out h h' \<Longrightarrow> http_inv h' = http_inv h"
  unfolding only_out_def by (elim exE) (simp add: http_inv_defs)

lemma fold_release: "\<exists>so. fold http_cmd_release ss h =
   h\<lparr>ht_sess_of := so, ht_cmd := fold remove1 ss (ht_cmd h), ht_sess_live := fold remove1 ss (ht_sess_live h)\<rparr>"
proof (induction ss arbitrary: h)
  case Nil
  show ?case by (rule exI [of _ "ht_sess_of h"]) simp
next
  case (Cons s ss)
  show ?case using Cons.IH [of "http_cmd_release s h"] by (auto simp: http_cmd_release_def hs_put_def)
qed

lemma fold_destroy: "fold http_cna_destroy cs h =
   h\<lparr>ht_cna_list := fold remove1 cs (ht_cna_list h), ht_cna_live := fold remove1 cs (ht_cna_live h)\<rparr>"
proof (induction cs arbitrary: h)
  case (Cons c cs)
  show ?case by (simp, subst Cons.IH) (simp add: http_cna_destroy_def)
qed simp

lemma fold_remove1_self: "distinct xs \<Longrightarrow> distinct ys \<Longrightarrow> set xs = set ys \<Longrightarrow> fold remove1 xs ys = []"
  using set_fold_remove1 [of ys xs] by simp

lemma stopped_eq:
  assumes "conns_ok h" and "cnas_ok h"
  shows "\<exists>out sess_of. snd (http_stopped h) =
    h\<lparr>ht_out := out, ht_sess_of := sess_of, ht_sess := None, ht_cmd := [], ht_sess_live := [], ht_cna_list := [], ht_cna_live := []\<rparr>"
proof -
  obtain out where f: "http_set_free False h = h\<lparr>ht_out := out\<rparr>" using set_free_frame by (auto simp: only_out_def)
  have e: "fold remove1 (ht_cmd h) (ht_cmd h) = []" "fold remove1 (ht_cmd h) (ht_sess_live h) = []"
    "fold remove1 (ht_cna_list h) (ht_cna_list h) = []" "fold remove1 (ht_cna_list h) (ht_cna_live h) = []"
    using assms by (auto simp: conns_ok_def cnas_ok_def intro!: fold_remove1_self)
  obtain so where r: "fold http_cmd_release (ht_cmd (h\<lparr>ht_out := out, ht_sess := None\<rparr>)) (h\<lparr>ht_out := out, ht_sess := None\<rparr>)
      = h\<lparr>ht_out := out, ht_sess := None, ht_sess_of := so, ht_cmd := [], ht_sess_live := []\<rparr>"
    using fold_release [of "ht_cmd h" "h\<lparr>ht_out := out, ht_sess := None\<rparr>"] e by auto
  show ?thesis unfolding http_stopped_def Let_def snd_conv f r fold_destroy
    by (rule exI [of _ out], rule exI [of _ so]) (use e in simp)
qed

lemma inv_stopped:
  assumes "http_inv h" and "ht_st h = st_stopped \<or> ht_st h = st_start \<or> ht_st h = st_normal"
  shows "http_inv (snd (ems_http_change_status e st_stopped h)) \<and> ht_st (snd (ems_http_change_status e st_stopped h)) = st_stopped"
proof -
  have "conns_ok (h\<lparr>ht_st := st_stopped\<rparr>) = conns_ok h" "cnas_ok (h\<lparr>ht_st := st_stopped\<rparr>) = cnas_ok h"
    by (simp_all add: conns_ok_def cnas_ok_def)
  then have i: "conns_ok (h\<lparr>ht_st := st_stopped\<rparr>)" "cnas_ok (h\<lparr>ht_st := st_stopped\<rparr>)" using assms(1) by (simp_all add: http_inv_def)
  obtain out so where "snd (http_stopped (h\<lparr>ht_st := st_stopped\<rparr>)) = (h\<lparr>ht_st := st_stopped\<rparr>)
      \<lparr>ht_out := out, ht_sess_of := so, ht_sess := None, ht_cmd := [], ht_sess_live := [], ht_cna_list := [], ht_cna_live := []\<rparr>"
    using stopped_eq [OF i] by auto
  then show ?thesis by (simp add: ems_http_change_status_def http_inv_defs)
qed

lemma bind_loop_port: "http_bind_loop listen port x = (r, p, x') \<Longrightarrow> port \<le> 9220 \<Longrightarrow> r = EMS_OK \<Longrightarrow> port \<le> p \<and> p \<le> 9220"
proof (induction listen port x rule: http_bind_loop.induct)
  case (1 listen port x)
  from 1(2,3,4) show ?case
    by (subst (asm) http_bind_loop.simps) (auto simp: Let_def split: option.splits if_splits dest: 1(1) [OF refl])
qed

lemma inv_start:
  assumes "http_inv h" and "ht_cmd h = []" and "ht_cna_list h = []"
  shows "http_inv (snd (http_start e (h\<lparr>ht_st := st_start\<rparr>)))"
    and "fst (http_start e (h\<lparr>ht_st := st_start\<rparr>)) = EMS_OK \<Longrightarrow> ht_st (snd (http_start e (h\<lparr>ht_st := st_start\<rparr>))) = st_normal"
proof -
  have "s_evt x = Some (EMS_EVT_READ OR EMS_EVT_EDGE_TRIGGER) \<Longrightarrow> sess_wants x EMS_EVT_READ" for x
    by (simp add: sess_wants_def ems_flag_like_def EMS_EVT_READ_def EMS_EVT_EDGE_TRIGGER_def)
  then show "http_inv (snd (http_start e (h\<lparr>ht_st := st_start\<rparr>)))"
    using assms by (auto simp: http_start_def http_inv_defs sess_event_set_def dest: bind_loop_port split: option.splits prod.splits)
  show "fst (http_start e (h\<lparr>ht_st := st_start\<rparr>)) = EMS_OK \<Longrightarrow> ht_st (snd (http_start e (h\<lparr>ht_st := st_start\<rparr>))) = st_normal"
    by (auto simp: http_start_def split: option.splits prod.splits if_splits)
qed

lemma inv_evt_http:
  assumes "http_inv h" and "fresh_http e" and "ht_sess h \<noteq> None"
  shows "hok (evt_http_cb e err flg rs h)"
proof (cases err)
  case True
  let ?g = "snd (ems_http_change_status e st_stopped h)"
  have "http_inv ?g" "ht_st ?g = st_stopped" using inv_stopped [OF assms(1)] assms(1) by (auto simp: http_inv_def server_ok_def)
  then have "http_inv (snd (http_start e (?g\<lparr>ht_st := st_start\<rparr>)))" by (intro inv_start(1)) (simp_all add: http_inv_def server_ok_def)
  then show ?thesis using True by (simp add: evt_http_cb_def hres_def ems_http_change_status_def)
next
  case False
  have "ht_st h = st_normal \<or> ht_st h = st_start" using assms(1,3) by (auto simp: http_inv_def server_ok_def)
  then show ?thesis
  proof
    assume n: "ht_st h = st_normal"
    then show ?thesis using False inv_accept_all [OF assms(1,2) n] assms(1)
      by (simp add: evt_http_cb_def http_evt_run_def http_normal_def hres_def)
  next
    assume s: "ht_st h = st_start"
    have e: "h\<lparr>ht_st := st_start\<rparr> = h" using s by (intro ems_http.equality) simp_all
    have "ht_cmd h = []" "ht_cna_list h = []" using assms(1) s by (simp_all add: http_inv_def server_ok_def)
    from inv_start(1) [OF assms(1) this, of e] have "http_inv (snd (http_start e h))" unfolding e .
    then show ?thesis using False s by (simp add: evt_http_cb_def http_evt_run_def hres_def)
  qed
qed

lemma inv_set_free: "http_inv h \<Longrightarrow> http_inv (http_set_free b h)"
  using inv_only_out [OF set_free_frame] by simp

end
