(* ===== verification/Ems_Http_Flow.thy ===== *)
theory Ems_Http_Flow
  imports Ems_Http_Inv
begin

text \<open>
  The web module as a system of steps: messages, requests and timers of connections, timers of probing clients
  and events of the listening sockets keep the invariant, which therefore holds in every state that can be
  reached.
\<close>

subsection \<open>The module\<close>

definition mgmt_ok :: "http_mgmt \<Rightarrow> bool" where
  "mgmt_ok c \<longleftrightarrow> distinct (hm_list c) \<and> distinct (hm_live c) \<and> set (hm_list c) = set (hm_live c) \<and>
    (\<forall>i \<in> set (hm_list c). http_inv (hm_of c i))"

text \<open>A module that does not run has no server.\<close>

definition mod_ok :: "http_mod \<Rightarrow> bool" where
  "mod_ok m \<longleftrightarrow> (\<forall>c. hd_ctx m = Some c \<longrightarrow> mgmt_ok c \<and> (\<not> hd_run m \<longrightarrow> hm_list c = []))"

definition fresh_app :: "http_app_env \<Rightarrow> bool" where
  "fresh_app e \<longleftrightarrow> (\<forall>L a. he_new_http e L = Some a \<longrightarrow> a \<notin> set L)"

lemma mgmt_frame [simp]: "mgmt_ok (c\<lparr>hm_rule := r\<rparr>) = mgmt_ok c" "mgmt_ok (c\<lparr>hm_out := out\<rparr>) = mgmt_ok c"
  by (simp_all add: mgmt_ok_def)

text \<open>A server with its rules, before it is started.\<close>

definition idle :: "ems_http \<Rightarrow> bool" where
  "idle h \<longleftrightarrow> ht_st h = st_stopped \<and> ht_sess h = None \<and> ht_cmd h = [] \<and> ht_cna_list h = [] \<and> ht_sess_live h = [] \<and> ht_cna_live h = []"

lemma idle_inv: "idle h \<Longrightarrow> http_inv h"
  by (simp add: idle_def http_inv_defs)

lemma idle_nas: "ems_http_get_nas alloc root h = Some h' \<Longrightarrow> idle h \<Longrightarrow> idle h'"
  by (auto simp: ems_http_get_nas_def idle_def split: option.splits json.splits)

lemma idle_add: "(\<And>l h. idle h \<Longrightarrow> idle (f l h)) \<Longrightarrow> add_rules alloc f ss h = Some h' \<Longrightarrow> idle h \<Longrightarrow> idle h'"
proof (induction alloc f ss h rule: add_rules.induct)
  case (2 alloc f s ss h)
  then obtain r where r: "own_rule alloc (ht_src h) s = Some r"
    "add_rules alloc f ss (case r of None \<Rightarrow> h | Some list \<Rightarrow> if alloc then f list h else h) = Some h'"
    by (auto simp: bind_eq_Some_conv)
  have "idle (case r of None \<Rightarrow> h | Some list \<Rightarrow> if alloc then f list h else h)" using 2(2,4) by (cases r) auto
  with 2(1) [OF r(1)] r(2) 2(2) show ?case by blast
qed simp

lemma idle_array: "(\<And>l h. idle h \<Longrightarrow> idle (f l h)) \<Longrightarrow> array_rules alloc f ary h = Some h' \<Longrightarrow> idle h \<Longrightarrow> idle h'"
  unfolding array_rules_def by (cases ary; cases "the ary") (auto intro: idle_add)

lemma idle_rules:
  "ems_http_get_url_whitelist alloc r h = Some h' \<Longrightarrow> idle h \<Longrightarrow> idle h'"
  "ems_http_get_cna_list alloc r h = Some h' \<Longrightarrow> idle h \<Longrightarrow> idle h'"
  "ems_http_get_url_greylist alloc r h = Some h' \<Longrightarrow> idle h \<Longrightarrow> idle h'"
  unfolding ems_http_get_url_whitelist_def ems_http_get_cna_list_def ems_http_get_url_greylist_def
  by (erule (1) idle_array [rotated], simp add: idle_def)+

lemma http_create_ok:
  assumes "ems_http_create_new e port c = Some (r, c')" and "mgmt_ok c" and "fresh_app e"
  shows "mgmt_ok c' \<and> hm_rule c' = hm_rule c"
proof -
  from assms(1) obtain i h1 h2 h3 h4 where
    i: "he_new_http e (hm_live c) = Some i" and
    r1: "ems_http_get_nas (he_alloc e) (json_object_object_get (hm_rule c) ''nas'') ((ems_http_new e)\<lparr>ht_src := port\<rparr>) = Some h1" and
    r2: "ems_http_get_url_whitelist (he_alloc e) (json_object_object_get (hm_rule c) ''url'') h1 = Some h2" and
    r3: "ems_http_get_cna_list (he_alloc e) (json_object_object_get (hm_rule c) ''cna'') h2 = Some h3" and
    r4: "ems_http_get_url_greylist (he_alloc e) (json_object_object_get (hm_rule c) ''grey'') h3 = Some h4" and
    c': "(r, c') = (case ems_http_change_status (server_env e) st_start h4 of
        (ret, h5) \<Rightarrow>
          if ret \<noteq> EMS_OK then (EMS_ERR, c\<lparr>hm_out := hm_out c @ ht_out (snd (ems_http_change_status (server_env e) st_stopped h5))\<rparr>)
          else (EMS_OK, c\<lparr>hm_of := (hm_of c)(i := h5), hm_live := i # hm_live c, hm_list := hm_list c @ [i]\<rparr>))"
    unfolding ems_http_create_new_def by (auto simp: bind_eq_Some_conv)
  have "idle ((ems_http_new e)\<lparr>ht_src := port\<rparr>)" by (simp add: ems_http_new_def idle_def)
  then have h4: "idle h4" using idle_nas [OF r1] idle_rules(1) [OF r2] idle_rules(2) [OF r3] idle_rules(3) [OF r4] by simp
  then have "http_inv (snd (http_start (server_env e) (h4\<lparr>ht_st := st_start\<rparr>)))"
    by (intro inv_start(1) idle_inv) (simp_all add: idle_def)
  then have h5: "http_inv (snd (ems_http_change_status (server_env e) st_start h4))" by (simp add: ems_http_change_status_def)
  have "i \<notin> set (hm_live c)" using assms(3) i by (simp add: fresh_app_def)
  then show ?thesis using c' h5 assms(2) by (auto simp: mgmt_ok_def split: prod.splits if_splits)
qed

lemma ports_ok: "start_ports e ss c = Some c' \<Longrightarrow> mgmt_ok c \<Longrightarrow> fresh_app e \<Longrightarrow> mgmt_ok c'"
proof (induction e ss c rule: start_ports.induct)
  case (2 e s ss c)
  from 2(2) obtain r c1 where c1: "ems_http_create_new e (ems_atoi (Some s)) c = Some (r, c1)" "start_ports e ss c1 = Some c'"
    by (auto simp: bind_eq_Some_conv)
  show ?case using 2(1) [OF c1(1) refl c1(2)] http_create_ok [OF c1(1) 2(3,4)] 2(4) by blast
qed simp

lemma start_all_ok:
  assumes "http_start_all e c = Some (r, c')" and "mgmt_ok c" and "fresh_app e"
  shows "mgmt_ok c' \<and> (r \<noteq> EMS_OK \<longrightarrow> hm_list c' = hm_list c)"
proof -
  define rule where "rule = (case hm_rule c of None \<Rightarrow> ems_http_default_rules | Some r \<Rightarrow> r)"
  have m1: "mgmt_ok (c\<lparr>hm_rule := Some rule\<rparr>)" using assms(2) by simp
  show ?thesis
  proof (cases "json_object_object_get (Some rule) ''port''")
    case None
    then show ?thesis using assms(1,2) unfolding http_start_all_def Let_def rule_def [symmetric] by auto
  next
    case (Some ary)
    then obtain js where "start_ports e (json_strings js) (c\<lparr>hm_rule := Some rule\<rparr>) = Some c'" "r = EMS_OK"
      using assms(1) unfolding http_start_all_def Let_def rule_def [symmetric] by (auto simp: bind_eq_Some_conv)
    then show ?thesis using ports_ok [OF _ m1 assms(3)] by simp
  qed
qed

lemma stop_server_ok: "mgmt_ok c \<Longrightarrow> mgmt_ok (stop_server e i c) \<and> hm_list (stop_server e i c) = remove1 i (hm_list c)"
  by (auto simp: stop_server_def Let_def mgmt_ok_def)

lemma stop_fold: "mgmt_ok c \<Longrightarrow> mgmt_ok (fold (stop_server e) is c) \<and> hm_list (fold (stop_server e) is c) = fold remove1 is (hm_list c)"
  by (induction "is" arbitrary: c) (auto simp: stop_server_ok)

lemma stop_all_ok: "mgmt_ok c \<Longrightarrow> mgmt_ok (http_stop_all e c) \<and> hm_list (http_stop_all e c) = []"
proof -
  assume c: "mgmt_ok c"
  then have "fold remove1 (hm_list c) (hm_list c) = []" by (intro fold_remove1_self) (simp_all add: mgmt_ok_def)
  then show ?thesis using stop_fold [OF c, of e "hm_list c"] by (simp add: http_stop_all_def)
qed

lemma http_reload_ok:
  assumes "mgmt_ok c"
  shows "mgmt_ok (http_fw_reload c) \<and> hm_list (http_fw_reload c) = hm_list c"
proof -
  have "mgmt_ok (fold (\<lambda>i c. c\<lparr>hm_of := (hm_of c)(i := http_set_free True (hm_of c i))\<rparr>) is c)
      \<and> hm_list (fold (\<lambda>i c. c\<lparr>hm_of := (hm_of c)(i := http_set_free True (hm_of c i))\<rparr>) is c) = hm_list c" if "mgmt_ok c" for "is" c
    using that
  proof (induction "is" arbitrary: c)
    case (Cons i "is")
    then have "mgmt_ok (c\<lparr>hm_of := (hm_of c)(i := http_set_free True (hm_of c i))\<rparr>)" by (simp add: mgmt_ok_def inv_set_free)
    from Cons.IH [OF this] show ?case by (simp only: fold_simps o_apply) simp
  qed simp
  then show ?thesis using assms by (simp add: http_fw_reload_def)
qed

lemma run_ok:
  assumes "http_run e run m = Some (r, m')" and "mod_ok m" and "fresh_app e"
  shows "mod_ok m'"
  using assms stop_all_ok by (auto simp: http_run_def mod_ok_def bind_eq_Some_conv split: if_splits dest!: start_all_ok)

lemma update_ok:
  assumes "http_server_rules_update e root m = Some (r, m')" and "mod_ok m" and "fresh_app e"
  shows "mod_ok m'"
proof -
  obtain c where c: "hd_ctx m = Some c" "mgmt_ok c" using assms(1,2) by (auto simp: http_server_rules_update_def mod_ok_def bind_eq_Some_conv)
  show ?thesis using assms stop_all_ok [OF c(2), of e] c
    by (auto simp: http_server_rules_update_def mod_ok_def bind_eq_Some_conv Let_def split: if_splits dest!: start_all_ok)
qed

lemma http_process_ok:
  assumes "http_process e evt root m = Some (r, m')" and "mod_ok m" and "fresh_app e"
  shows "mod_ok m'"
proof (cases "evt = EMS_APP_EVT_FW_RELOAD")
  case True
  then obtain c where "hd_ctx m = Some c" "m' = m\<lparr>hd_ctx := Some (http_fw_reload c)\<rparr>"
    using assms(1) by (auto simp: http_process_def bind_eq_Some_conv EMS_APP_EVT_FW_RELOAD_def EMS_APP_SERVER_RULES_UPDATE_def)
  then show ?thesis using assms(2) http_reload_ok by (simp add: mod_ok_def)
next
  case False
  then show ?thesis using assms run_ok update_ok by (auto simp: http_process_def split: if_splits)
qed

subsection \<open>Steps\<close>

text \<open>An event of a server changes it in the store, with an environment of its own.\<close>

definition at_server :: "addr \<Rightarrow> (ems_http \<Rightarrow> ems_http option) \<Rightarrow> http_mod \<Rightarrow> http_mod option" where
  "at_server i f m =
    do {
      c \<leftarrow> hd_ctx m;
      h \<leftarrow> (if i \<in> set (hm_list c) then f (hm_of c i) else None);
      Some (m\<lparr>hd_ctx := Some (c\<lparr>hm_of := (hm_of c)(i := h)\<rparr>)\<rparr>)
    }"

lemma at_server_ok:
  assumes "at_server i f m = Some m'" and "mod_ok m" and "\<And>h. http_inv h \<Longrightarrow> hok (f h)"
  shows "mod_ok m'"
proof -
  from assms(1) obtain c h where c: "hd_ctx m = Some c" "i \<in> set (hm_list c)" "f (hm_of c i) = Some h"
    "m' = m\<lparr>hd_ctx := Some (c\<lparr>hm_of := (hm_of c)(i := h)\<rparr>)\<rparr>"
    by (auto simp: at_server_def bind_eq_Some_conv split: if_splits)
  have ok: "mgmt_ok c" "\<not> hd_run m \<longrightarrow> hm_list c = []" using assms(2) c(1) by (simp_all add: mod_ok_def)
  then have "http_inv h" using assms(3) c(2,3) by (auto simp: mgmt_ok_def hres_def)
  then show ?thesis using c(4) ok by (auto simp: mod_ok_def mgmt_ok_def)
qed

text \<open>A message, an event or the timer of a connection, the timer of a probing client, an event of a listening socket.\<close>

inductive http_step :: "http_mod \<Rightarrow> http_mod \<Rightarrow> bool" where
  message: "fresh_app e \<Longrightarrow> http_process e evt root m = Some (r, m') \<Longrightarrow> http_step m m'"
| request: "fresh_http e \<Longrightarrow> at_server i (evt_cmd_cb e s err flg rss rets) m = Some m' \<Longrightarrow> http_step m m'"
| idle: "at_server i (timeout_cmd_cb s) m = Some m' \<Longrightarrow> http_step m m'"
| probe: "at_server i (http_cna_timeout_cb c) m = Some m' \<Longrightarrow> http_step m m'"
| connection: "fresh_http e \<Longrightarrow> at_server i (\<lambda>h. if ht_sess h = None then None else evt_http_cb e err flg rs h) m = Some m' \<Longrightarrow> http_step m m'"

inductive_cases http_stepE: "http_step m m'"

definition http_begin :: "http_mod \<Rightarrow> bool" where
  "http_begin m \<longleftrightarrow> (\<exists>mem m0. \<not> hd_run m0 \<and> http_init True mem m0 = (EMS_OK, m))"

lemma begin_ok: "http_begin m \<Longrightarrow> mod_ok m"
  by (auto simp: http_begin_def http_init_def mod_ok_def mgmt_ok_def)

lemma step_ok:
  assumes "mod_ok m" and "http_step m m'"
  shows "mod_ok m'"
  using assms(2)
proof cases
  case (connection e i err flg rs)
  show ?thesis by (rule at_server_ok [OF connection(2) assms(1)]) (auto simp: hres_basic intro: inv_evt_http connection(1))
next
  case (message e evt root r)
  then show ?thesis using http_process_ok assms(1) by blast
next
  case (request e i s err flg rss rets)
  then show ?thesis using at_server_ok [OF request(2) assms(1)] inv_evt_cmd by blast
next
  case (idle i s)
  then show ?thesis using at_server_ok [OF idle assms(1)] inv_timeout_cmd by blast
next
  case (probe i c)
  then show ?thesis using at_server_ok [OF probe assms(1)] inv_cna_timeout by blast
qed

interpretation http_sys: step_system http_begin http_step mod_ok
  by unfold_locales (auto intro: begin_ok step_ok)

end
