(* ===== verification/Ems_Http_Redirect.thy ===== *)
theory Ems_Http_Redirect
  imports Ems_Http_Flow
begin

text \<open>
  The way of a request through the web server: the buffers the replies are printed to, the arguments for the page
  of the portal, and the reply to a client that has not logged in.
\<close>

subsection \<open>Buffers that hold a text\<close>

abbreviation NUL :: char where "NUL \<equiv> char_of (0 :: nat)"

definition nul_end :: "char ems_buffer \<Rightarrow> bool" where
  "nul_end b \<longleftrightarrow> bwr b < length (bmem b) \<and> bmem b ! bwr b = NUL"

lemma mem_from_rd: "buf_ok b \<Longrightarrow> drop (brd b) (bmem b) = contents b @ drop (bwr b) (bmem b)"
  using append_take_drop_id [of "bwr b - brd b" "drop (brd b) (bmem b)"] by (simp add: contents_def buf_ok_def)

lemma c_text_end: "NUL \<notin> set s \<Longrightarrow> c_text (s @ NUL # t) = s"
  by (subst c_text_app) (simp_all add: c_text_def)

lemma text_at_rd: "buf_ok b \<Longrightarrow> nul_end b \<Longrightarrow> NUL \<notin> set (contents b) \<Longrightarrow>
    c_text (drop (brd b) (bmem b)) = contents b \<and> NUL \<in> set (drop (brd b) (bmem b)) \<and> bmem b \<noteq> []"
  by (auto simp: mem_from_rd nul_end_def c_text_end simp flip: Cons_nth_drop_Suc)

lemma buf_text_eq: "buf_ok b \<Longrightarrow> nul_end b \<Longrightarrow> NUL \<notin> set (contents b) \<Longrightarrow> buf_text b = Some (contents b)"
  using text_at_rd by (simp add: buf_text_def)

lemma buf_print_fits:
  assumes "buf_ok b" and "length s < room b"
  shows "buf_ok (buf_print s b)" and "contents (buf_print s b) = contents b @ s" and "nul_end (buf_print s b)"
    and "length (bmem (buf_print s b)) = length (bmem b)" and "room (buf_print s b) = room b - length s"
proof -
  let ?m = "mem_write (bmem b) (bwr b) (s @ [NUL])"
  have l: "bwr b + length s < length (bmem b)" using assms by (auto simp: buf_ok_def room_def)
  have left: "buf_left b = int (room b)" using assms(1) by (simp add: buffer_simps)
  have t: "take (nat (buf_left b) - 1) s = s" using assms(2) left by simp
  have ok: "buf_ok (b\<lparr>bmem := ?m\<rparr>)" "length s \<le> room (b\<lparr>bmem := ?m\<rparr>)" using assms(1) l by (simp_all add: buf_ok_def room_def)
  have e: "buf_print s b = b\<lparr>bmem := ?m, bwr := bwr b + length s\<rparr>"
    using assms(2) left t seek_wr_cur [OF ok] by (simp add: buf_print_def buf_printf_def)
  have "b\<lparr>bmem := ?m, bwr := bwr b + length s\<rparr> = b\<lparr>bmem := mem_write (bmem b) (bwr b) s, bwr := bwr b + length s\<rparr>\<lparr>bmem := ?m\<rparr>" by simp
  note a = append_ok [OF assms(1), of s]
  have tk: "take (bwr b + length s) ?m = take (bwr b) (bmem b) @ s" using l by (simp add: mem_write_def)
  have tk': "take (bwr b + length s) (mem_write (bmem b) (bwr b) s) = take (bwr b) (bmem b) @ s" using l by (intro take_mem_write_extend) simp
  have c: "contents (b\<lparr>bmem := ?m, bwr := bwr b + length s\<rparr>) = contents b @ s"
    using a(2) assms(2) tk tk' by (simp add: contents_def drop_take [symmetric])
  have n: "?m ! (bwr b + length s) = NUL" using l by (simp add: mem_write_def nth_append)
  show "contents (buf_print s b) = contents b @ s" using e c by simp
  show "buf_ok (buf_print s b)" "nul_end (buf_print s b)" "length (bmem (buf_print s b)) = length (bmem b)"
    "room (buf_print s b) = room b - length s"
    using e n l assms(1) by (simp_all add: buf_ok_def nul_end_def room_def)
qed

lemma put_nul:
  assumes "buf_ok b" and "0 < room b"
  shows "buf_ok (b\<lparr>bmem := mem_write (bmem b) (bwr b) [NUL]\<rparr>)" and "nul_end (b\<lparr>bmem := mem_write (bmem b) (bwr b) [NUL]\<rparr>)"
    and "contents (b\<lparr>bmem := mem_write (bmem b) (bwr b) [NUL]\<rparr>) = contents b"
proof -
  have c: "contents x = drop (brd x) (take (bwr x) (bmem x))" for x :: "char ems_buffer" by (simp add: contents_def drop_take)
  have l: "bwr b < length (bmem b)" using assms(2) by (simp add: room_def)
  then show "contents (b\<lparr>bmem := mem_write (bmem b) (bwr b) [NUL]\<rparr>) = contents b" unfolding c by simp
  show "buf_ok (b\<lparr>bmem := mem_write (bmem b) (bwr b) [NUL]\<rparr>)" "nul_end (b\<lparr>bmem := mem_write (bmem b) (bwr b) [NUL]\<rparr>)"
    using l assms(1) by (simp_all add: buf_ok_def nul_end_def mem_write_def nth_append)
qed

lemma clear_fresh: "buf_ok (ems_buffer_clear b)" "contents (ems_buffer_clear b) = []" "room (ems_buffer_clear b) = length (bmem b)"
  "length (bmem (ems_buffer_clear b)) = length (bmem b)"
  by (simp_all add: ems_buffer_clear_def buf_ok_def contents_def room_def)

lemma url_plain: "NUL \<notin> set (url_encode s n)"
proof -
  have "\<not> url_safe NUL" by (simp add: url_safe_def is_alnum_def uchr_def char_of_def)
  then show ?thesis using url_encode_spec [of s n] by (auto simp: list_all_iff)
qed

subsection \<open>The encoded address\<close>

lemma increase_empty:
  assumes "contents b = []" and "buf_ok b" and "bmem b \<noteq> []" and "length (bmem b) + inc < 2 ^ 32" and "ems_buffer_increase True g b inc = (r, b')"
  shows "inc < room b' \<and> buf_ok b' \<and> contents b' = []"
proof -
  note r = refresh_eq [OF assms(2)]
  have w: "bwr (ems_buffer_refresh b) = 0" using r assms(1) length_contents [OF r(1)] by simp
  have "buf_size (ems_buffer_refresh b) = int (length (bmem b))" by (simp add: buf_size_def r(4))
  then show ?thesis using increase_ok [OF assms(2,5,4)] assms w r
    by (auto simp: ems_buffer_increase_def Let_def buf_left_def room_def buf_len_def split: if_splits)
qed

lemma urlencode_eq:
  assumes "he_alloc e" and "buf_ok src" and "nul_end src" and "NUL \<notin> set (contents src)"
    and "buf_ok dst" and "contents dst = []" and "bmem dst \<noteq> []" and "length (bmem dst) + 3 * length (contents src) < 2 ^ 32"
  defines "enc \<equiv> url_encode (contents src) (length (contents src))"
  shows "\<exists>b. ems_urlencode e dst src True = Some (EMS_OK, b) \<and> buf_ok b \<and> contents b = enc \<and> buf_text b = Some enc"
proof -
  note t = text_at_rd [OF assms(2-4)]
  have len: "nat (buf_len src) = length (contents src)" using assms(2) by (simp add: buffer_simps)
  have le: "length enc \<le> 3 * length (contents src)" unfolding enc_def using url_encode_spec by blast
  define dst1 where "dst1 = (if buf_left dst \<le> int (length enc) then snd (ems_buffer_increase True (he_garbage e) dst (length enc)) else dst)"
  have d: "buf_ok dst1" "contents dst1 = []" "length enc < room dst1"
  proof -
    obtain r b' where i: "ems_buffer_increase True (he_garbage e) dst (length enc) = (r, b')" by fastforce
    have "length (bmem dst) + length enc < 2 ^ 32" using assms(8) le by linarith
    from increase_empty [OF assms(6,5,7) this i] show "buf_ok dst1" "contents dst1 = []" "length enc < room dst1"
      using i assms(1,5,6) by (auto simp: dst1_def buffer_simps split: if_splits)
  qed
  let ?b = "snd (ems_buffer_write dst1 enc (int (length enc)))"
  have w: "?b = dst1\<lparr>bmem := mem_write (bmem dst1) (bwr dst1) enc, bwr := bwr dst1 + length enc\<rparr>"
    using write_eq [OF d(1), of "length enc" enc] d(3) by (simp add: Let_def)
  note ap = append_ok [OF d(1), of enc]
  have b: "buf_ok ?b" "contents ?b = enc" "0 < room ?b" using ap d by (simp_all add: w)
  let ?c = "?b\<lparr>bmem := mem_write (bmem ?b) (bwr ?b) [NUL]\<rparr>"
  have c: "buf_ok ?c" "nul_end ?c" "contents ?c = enc" using put_nul [OF b(1,3)] b(2) by simp_all
  have "ems_urlencode e dst src True = Some (EMS_OK, ?c)"
  proof -
    have left: "\<not> buf_left dst1 \<le> int (length enc)" using d(1,3) by (simp add: buffer_simps)
    have "ems_urlencode e dst src True =
        (if buf_left dst1 \<le> int (length enc) then Some (EMS_BUFFER_INSUFFICIENT, dst1) else Some (EMS_OK, ?c))"
      using assms(1) t len by (simp only: ems_urlencode_def Let_def enc_def [symmetric] simp_thms if_True if_False dst1_def [symmetric])
    then show ?thesis using left by simp
  qed
  then show ?thesis using c buf_text_eq [OF c(1,2)] url_plain by (auto simp: enc_def)
qed

subsection \<open>The arguments of the page of the portal\<close>

text \<open>A buffer of zeros, filled from its start as far as the text fits.\<close>

definition zbuf :: "nat \<Rightarrow> string \<Rightarrow> char ems_buffer" where
  "zbuf n t = \<lparr>bmem = take n t @ replicate (n - length t) NUL, brd = 0, bwr = min n (length t)\<rparr>"

lemma zbuf_ok: "buf_ok (zbuf n t)" "contents (zbuf n t) = take n t" "room (zbuf n t) = n - length t" "length (bmem (zbuf n t)) = n"
  by (auto simp: zbuf_def buf_ok_def contents_def room_def min_def)

lemma zbuf_put: "put_text s (zbuf n t) = zbuf n (t @ s)"
proof -
  have "put_text s (zbuf n t) = (zbuf n t)\<lparr>bmem := mem_write (bmem (zbuf n t)) (bwr (zbuf n t)) (take (min (length s) (room (zbuf n t))) s),
      bwr := bwr (zbuf n t) + min (length s) (room (zbuf n t))\<rparr>"
    unfolding put_text_def using write_eq [OF zbuf_ok(1), of "length s" s n t] by (simp add: Let_def)
  also have "\<dots> = zbuf n (t @ s)"
    by (cases "n \<le> length t"; cases "n \<le> length t + length s") (auto simp: zbuf_def room_def mem_write_def min_def)
  finally show ?thesis .
qed

lemma zbuf_print:
  assumes "length s < n"
  shows "buf_print s (zbuf n []) = zbuf n s"
proof -
  have "mem_write (replicate n NUL) 0 (s @ [NUL]) = s @ replicate (n - length s) NUL"
    using assms by (simp add: mem_write_def Suc_diff_Suc flip: replicate_Suc)
  then show ?thesis
    using assms seek_wr_cur [of "(zbuf n [])\<lparr>bmem := s @ replicate (n - length s) NUL\<rparr>" "length s"]
    by (simp add: buf_print_def buf_printf_def zbuf_def buf_left_def buf_ok_def room_def)
qed

lemma zbuf_text: "NUL \<notin> set t \<Longrightarrow> 0 < n \<Longrightarrow> buf_text (zbuf n t) = (if length t < n then Some t else None)"
  using c_text_end [of t "replicate (n - Suc (length t)) NUL"]
  by (auto simp: buf_text_def zbuf_def Let_def Suc_diff_Suc dest: in_set_takeD simp flip: replicate_Suc)

definition all_args :: "http_env \<Rightarrow> string \<Rightarrow> string \<Rightarrow> string \<Rightarrow> string option \<Rightarrow> string" where
  "all_args e ip um am srcurl =
    portal_args e ip um am @ ''&devicetype='' @ url_encode (he_devicetype e) (length (he_devicetype e))
      @ (case srcurl of None \<Rightarrow> [] | Some u \<Rightarrow> ''&srcurl='' @ u)"

lemma args_buffer_eq:
  assumes "he_alloc e" and "\<not> he_weixin e" and "length (portal_args e ip um am) < 2048"
  shows "args_buffer e (portal_args e ip um am) srcurl = zbuf 2048 (all_args e ip um am srcurl)"
proof -
  let ?b = "snd (ems_buffer_init (he_alloc e) (he_garbage e) EMS_BUFFER_2K)"
  have "?b\<lparr>bmem := map (\<lambda>_. NUL) (bmem ?b)\<rparr> = zbuf 2048 []"
    using assms(1) by (simp add: ems_buffer_init_def zbuf_def EMS_BUFFER_2K_def map_replicate_const comp_def)
  then show ?thesis
    using assms by (simp add: args_buffer_def Let_def zbuf_print zbuf_put all_args_def split: option.splits)
qed


subsection \<open>The reply to a client\<close>

definition plain :: "string \<Rightarrow> bool" where
  "plain s \<longleftrightarrow> NUL \<notin> set s"

text \<open>
  The arguments go into 2 KB, and are read back from there as a text: with 2048 characters there is no zero
  byte left to end it, and the page is printed from memory behind the buffer.
\<close>

lemma all_args_plain:
  assumes "plain ip" and "plain um" and "plain am" and "plain (he_sn e)" and "plain (he_ssid e)" and "\<And>u. srcurl = Some u \<Longrightarrow> plain u"
  shows "plain (all_args e ip um am srcurl)"
  using assms char_0 url_plain unfolding plain_def all_args_def portal_args_def
  by (auto simp: char_of_def split: option.splits)

lemma portal_fill_eq:
  assumes "hs_get s h = Some x" and "str_data (s_addr (sock x)) = Some ip" and "he_usermac e ip = Some mac"
    and "length mac < 32" and "length (he_bssid e) < 32" and "he_alloc e" and "\<not> he_weixin e"
    and "plain (all_args e ip (ems_mac_update mac) (ems_mac_update (he_bssid e)) srcurl)"
    and "length (portal_args e ip (ems_mac_update mac) (ems_mac_update (he_bssid e))) < 2048"
  defines "args \<equiv> all_args e ip (ems_mac_update mac) (ems_mac_update (he_bssid e)) srcurl"
  shows "http_web_portal_fill_with e s srcurl h =
    (if length args < 2048 then
       Some (case buf_printf (portal_text e (http_version h) args) (ht_core h) of
         (rtn, core) \<Rightarrow> h\<lparr>ht_core := snd (ems_buffer_seek_wr core (min rtn (buf_left core)) 2)\<rparr>)
     else None)"
  using assms by (simp add: http_web_portal_fill_with_def mac_copy_def args_buffer_eq zbuf_text plain_def)


text \<open>A server without the special cases: every request is sent to the portal.\<close>

definition sends_to_portal :: "http_env \<Rightarrow> ems_http \<Rightarrow> bool" where
  "sends_to_portal e h \<longleftrightarrow> he_alloc e \<and> \<not> he_weixin e \<and> \<not> he_first_config e \<and> he_network_ready e \<and> he_config_ready e \<and> \<not> he_subdomain e \<and>
    \<not> ems_flag_like (ht_flg h) EMS_FLG_HTTP_ENABLE_NASGETINFO \<and> \<not> ems_flag_like (ht_flg h) EMS_FLG_HTTP_ENABLE_URL \<and>
    \<not> ems_flag_like (ht_flg h) EMS_FLG_HTTP_ENABLE_CNA"

text \<open>A connection as \<open>http_sess_in\<close> makes it, from the address \<open>ip\<close>.\<close>

definition new_conn :: "string \<Rightarrow> ems_session \<Rightarrow> bool" where
  "new_conn ip x \<longleftrightarrow> str_data (s_addr (sock x)) = Some ip \<and> 0 < s_fd (sock x) \<and> sflg x = 0 \<and>
    buf_ok (buf_in x) \<and> brd (buf_in x) = 0 \<and> bwr (buf_in x) = 0 \<and> length (bmem (buf_in x)) = 1024 \<and>
    buf_ok (buf_out x) \<and> contents (buf_out x) = [] \<and> length (bmem (buf_out x)) = 1024"

definition client_args :: "http_env \<Rightarrow> string \<Rightarrow> string \<Rightarrow> string \<Rightarrow> string" where
  "client_args e ip mac url = all_args e ip (ems_mac_update mac) (ems_mac_update (he_bssid e)) (Some (url_encode url (length url)))"

text \<open>What is known of the client and of the access point: their texts have no zero byte and fit.\<close>

definition client_ok :: "http_env \<Rightarrow> string \<Rightarrow> string \<Rightarrow> string \<Rightarrow> bool" where
  "client_ok e ip mac url \<longleftrightarrow> he_usermac e ip = Some mac \<and> length mac < 32 \<and> length (he_bssid e) < 32 \<and>
    plain ip \<and> plain mac \<and> plain (he_bssid e) \<and> plain (he_sn e) \<and> plain (he_ssid e) \<and> plain url"

lemma mac_plain: "plain m \<Longrightarrow> plain (ems_mac_update m)"
  by (auto simp: plain_def ems_mac_update_def char_of_def)

lemma client_args_plain: "client_ok e ip mac url \<Longrightarrow> plain (client_args e ip mac url)"
  unfolding client_args_def client_ok_def by (intro all_args_plain) (auto intro: mac_plain simp: url_plain plain_def [of "url_encode url n" for n])

lemma url_length: "length (url_text h (Some host) (Some p)) < length p + length host + 1024"
proof -
  have "length (ems_itoa i) \<le> 63" for i by (simp add: ems_itoa_def)
  from this [of "ht_src h"] show ?thesis by (simp add: url_text_def fmt_s_def)
qed

lemma url_buffer_eq:
  assumes "he_alloc e"
  shows "buf_ok (url_buffer e (Some host) (Some p) h)" and "contents (url_buffer e (Some host) (Some p) h) = url_text h (Some host) (Some p)"
    and "nul_end (url_buffer e (Some host) (Some p) h)"
proof -
  let ?b = "snd (ems_buffer_init (he_alloc e) (he_garbage e) (length p + length host + 1024))"
  have b: "buf_ok ?b" "contents ?b = []" "room ?b = length p + length host + 1024"
    using assms by (auto simp: ems_buffer_init_def buf_ok_def contents_def room_def)
  note f = buf_print_fits [OF b(1), of "url_text h (Some host) (Some p)"]
  have u: "url_buffer e (Some host) (Some p) h = buf_print (url_text h (Some host) (Some p)) ?b"
    by (simp add: url_buffer_def ems_strlen_def EMS_BUFFER_1K_def)
  show "buf_ok (url_buffer e (Some host) (Some p) h)" "contents (url_buffer e (Some host) (Some p) h) = url_text h (Some host) (Some p)"
    "nul_end (url_buffer e (Some host) (Some p) h)"
    unfolding u using f b url_length by auto
qed

lemma print_min:
  assumes "buf_ok b" and "length s < room b"
  shows "(case buf_printf s b of (rtn, core) \<Rightarrow> h\<lparr>ht_core := snd (ems_buffer_seek_wr core (min rtn (buf_left core)) 2)\<rparr>) = h\<lparr>ht_core := buf_print s b\<rparr>"
proof -
  have "buf_left (snd (buf_printf s b)) = int (room b)"
    using assms by (auto simp: buf_printf_def buffer_simps) (auto simp: buf_left_def room_def buf_ok_def)
  then show ?thesis using assms(2) by (simp add: buf_print_def min_def split: prod.splits) (auto simp: buf_printf_def)
qed

lemma redirect_plain:
  assumes "sends_to_portal e h" and "hs_get s h = Some x" and "str_data (s_addr (sock x)) = Some ip" and "bmem (buf_in x) \<noteq> []"
    and "length (bmem (buf_in x)) + 3 * (length p + length host + 1024) < 2 ^ 32"
    and "http_header_get (ht_hdr h) HTTP_Param = Some p" and "http_header_get (ht_hdr h) HTTP_Host = Some host"
    and "buf_ok (ht_core h)" and "client_ok e ip mac (url_text h (Some host) (Some p))"
    and "length (portal_args e ip (ems_mac_update mac) (ems_mac_update (he_bssid e))) < 2048"
    and "length (client_args e ip mac (url_text h (Some host) (Some p))) < 2048 \<Longrightarrow> length (portal_text e (http_version h) (client_args e ip mac (url_text h (Some host) (Some p)))) < room (ht_core h)"
  shows "\<exists>b. http_web_do_redirect e s h =
    (if length (client_args e ip mac (url_text h (Some host) (Some p))) < 2048
     then Some ((hs_put s (x\<lparr>buf_in := b\<rparr>) h)
       \<lparr>ht_core := buf_print (portal_text e (http_version h) (client_args e ip mac (url_text h (Some host) (Some p)))) (ht_core h)\<rparr>)
     else None)"
proof -
  let ?u = "url_text h (Some host) (Some p)"
  have al: "he_alloc e" "\<not> he_weixin e" using assms(1) by (simp_all add: sends_to_portal_def)
  note u = url_buffer_eq [OF al(1), of host p h]
  have up: "NUL \<notin> set ?u" using assms(9) by (simp add: client_ok_def plain_def)
  note c = clear_fresh [of "buf_in x"]
  have "length (bmem (ems_buffer_clear (buf_in x))) + 3 * length (contents (url_buffer e (Some host) (Some p) h)) < 2 ^ 32"
    unfolding u(2) c(4) by (rule le_less_trans [OF _ assms(5)]) (use url_length [of h host p] in simp)
  moreover have "bmem (ems_buffer_clear (buf_in x)) \<noteq> []" using assms(4) by (simp add: ems_buffer_clear_def)
  ultimately obtain b where b: "ems_urlencode e (ems_buffer_clear (buf_in x)) (url_buffer e (Some host) (Some p) h) True = Some (EMS_OK, b)"
      "buf_ok b" "contents b = url_encode ?u (length ?u)" "buf_text b = Some (url_encode ?u (length ?u))"
    using urlencode_eq [OF al(1) u(1,3) _ c(1,2)] up u(2) by auto
  have ne: "0 < buf_len b"
  proof -
    have "url_encode ?u (length ?u) \<noteq> []" by (simp add: url_text_def)
    then show ?thesis using b(2,3) by (simp add: buffer_simps)
  qed
  let ?h1 = "hs_put s (x\<lparr>buf_in := b\<rparr>) h"
  have h1: "hs_get s ?h1 = Some (x\<lparr>buf_in := b\<rparr>)" "http_version ?h1 = http_version h" "ht_core ?h1 = ht_core h"
    "ht_flg ?h1 = ht_flg h"
    using get_in [OF assms(2)] by (simp, simp_all add: hs_put_def http_version_def)
  have portal: "http_web_portal_fill_with e s (Some (url_encode ?u (length ?u))) ?h1
      = (if length (client_args e ip mac ?u) < 2048
         then Some (?h1\<lparr>ht_core := buf_print (portal_text e (http_version h) (client_args e ip mac ?u)) (ht_core h)\<rparr>) else None)"
  proof -
    have k: "he_usermac e ip = Some mac" "length mac < 32" "length (he_bssid e) < 32" using assms(9) by (simp_all add: client_ok_def)
    have pl: "plain (all_args e ip (ems_mac_update mac) (ems_mac_update (he_bssid e)) (Some (url_encode ?u (length ?u))))"
      using client_args_plain [OF assms(9)] by (simp add: client_args_def)
    have a: "str_data (s_addr (sock (x\<lparr>buf_in := b\<rparr>))) = Some ip" using assms(3) by simp
    show ?thesis
      using portal_fill_eq [OF h1(1) a k al pl assms(10)] print_min [OF assms(8,11), of ?h1]
      by (simp add: client_args_def h1(2,3))
  qed
  have fl: "he_config_ready e" "\<not> he_subdomain e" "\<not> ems_flag_like (ht_flg h) EMS_FLG_HTTP_ENABLE_NASGETINFO"
    "\<not> ems_flag_like (ht_flg h) EMS_FLG_HTTP_ENABLE_URL" "\<not> ems_flag_like (ht_flg h) EMS_FLG_HTTP_ENABLE_CNA"
    using assms(1) by (simp_all add: sends_to_portal_def)
  have "redirect_rest e s (Some p) (Some host) (url_buffer e (Some host) (Some p) h) h
      = (if length (client_args e ip mac ?u) < 2048
         then Some (?h1\<lparr>ht_core := buf_print (portal_text e (http_version h) (client_args e ip mac ?u)) (ht_core h)\<rparr>) else None)"
    using b ne fl portal h1 by (simp add: redirect_rest_def assms(2))
  then have "http_web_do_redirect e s h
      = (if length (client_args e ip mac ?u) < 2048
         then Some (?h1\<lparr>ht_core := buf_print (portal_text e (http_version h) (client_args e ip mac ?u)) (ht_core h)\<rparr>) else None)"
    using fl by (simp add: http_web_do_redirect_def assms(6,7))
  then show ?thesis by blast
qed

end
