(* ===== verification/Ems_Http_Page.thy ===== *)
theory Ems_Http_Page
  imports Ems_Http_Redirect
begin

text \<open>
  A whole request of a client that has not logged in, from the bytes on its connection to the reply and the end of
  the connection.
\<close>

subsection \<open>Reading\<close>

lemma read_request:
  assumes "new_conn ip x" and "req \<noteq> []" and "length req < 1024"
  shows "\<exists>b rest. ems_sock_read [Got req, RFail 11] (sock x) (ems_buffer_refresh (buf_in x)) = Some (- EAGAIN, sock x, b) \<and>
    drop (brd b) (bmem b) = req @ rest \<and> length (bmem b) = 1024"
proof -
  have x: "brd (buf_in x) = 0" "bwr (buf_in x) = 0" "length (bmem (buf_in x)) = 1024" "0 < s_fd (sock x)" using assms(1) by (simp_all add: new_conn_def)
  have r: "ems_buffer_refresh (buf_in x) = buf_in x" using x by (simp add: ems_buffer_refresh_def buf_trash_def)
  have l: "recv_loop [Got req, RFail 11] 1024 [] = Some (RAgain, req)" using assms(3) by (simp add: recv_loop.simps)
  let ?b = "(buf_in x)\<lparr>bmem := mem_write (bmem (buf_in x)) 0 req\<rparr>"
  have b: "length (bmem ?b) = 1024" using x assms(3) by simp
  have "ems_buffer_seek_wr ?b (int (length req)) 2 = (EMS_OK, ?b\<lparr>bwr := length req\<rparr>)"
    using seek_wr_cur [of ?b "length req"] x b assms(3) by (simp add: buf_ok_def room_def)
  then have "ems_sock_read [Got req, RFail 11] (sock x) (buf_in x) = Some (- EAGAIN, sock x, ?b\<lparr>bwr := length req\<rparr>)"
    using l x by (simp add: ems_sock_read_def buf_left_def)
  then show ?thesis unfolding r using x b by (auto simp: mem_write_def)
qed

lemma line_fits:
  "f \<in> set fs \<Longrightarrow> length (field_line f) \<le> length (request_text m p v fs)" "length (first_line m p v) \<le> length (request_text m p v fs)"
proof -
  show "length (field_line f) \<le> length (request_text m p v fs)" if "f \<in> set fs"
    using member_le_sum_list [of "length (field_line f @ CRLF)" "map (\<lambda>l. length (l @ CRLF)) (map field_line fs)"] that
    by (auto simp: request_text_def length_concat comp_def)
  show "length (first_line m p v) \<le> length (request_text m p v fs)" by (simp add: request_text_def)
qed

lemma request_is_web: "word_ok p \<Longrightarrow> http_msg_is_web (request_text ''GET'' p v fs @ rest)"
  by (simp add: http_msg_is_web_def request_text_def first_line_def c_text_def strncmp_eq_def char_of_def)

subsection \<open>The reply in the buffer of the connection\<close>

lemma out_room:
  fixes g :: "nat \<Rightarrow> char"
  assumes "buf_ok b" and "contents b = []" and "length (bmem b) = 1024" and "n < 8192"
  defines "b' \<equiv> (if buf_left b \<le> int n then snd (ems_buffer_increase True g b n) else b)"
  shows "buf_ok b' \<and> contents b' = [] \<and> n \<le> room b'"
proof -
  obtain r c where c: "ems_buffer_increase True g b n = (r, c)" by fastforce
  have "length (bmem b) + n < 2 ^ 32" using assms(3,4) by simp
  from increase_ok [OF assms(1) c this] show ?thesis using assms(1,2) c by (auto simp: b'_def buffer_simps)
qed

lemma write_core_text:
  assumes "buf_ok core" and "contents core = text" and "buf_ok (buf_out x)" and "contents (buf_out x) = []" and "length text \<le> room (buf_out x)"
  shows "\<exists>b. write_core core (buf_len core) x = Some (x\<lparr>buf_out := b\<rparr>) \<and> buf_ok b \<and> contents b = text"
proof -
  have s: "drop (brd core) (bmem core) = text @ drop (bwr core) (bmem core)" using mem_from_rd [OF assms(1)] assms(2) by simp
  have l: "buf_len core = int (length text)" "buf_left (buf_out x) = int (room (buf_out x))" using assms(1-3) by (simp_all add: buffer_simps)
  let ?b = "snd (ems_buffer_write (buf_out x) (drop (brd core) (bmem core)) (int (length text)))"
  have w: "?b = (buf_out x)\<lparr>bmem := mem_write (bmem (buf_out x)) (bwr (buf_out x)) text, bwr := bwr (buf_out x) + length text\<rparr>"
    using write_eq [OF assms(3), of "length text" "drop (brd core) (bmem core)"] assms(5) by (simp add: s Let_def)
  have "write_core core (buf_len core) x = Some (x\<lparr>buf_out := ?b\<rparr>)"
    using arg_cong [OF s, of length] assms(5) by (simp add: write_core_def Let_def l)
  moreover have "buf_ok ?b" "contents ?b = text" using append_ok [OF assms(3,5)] assms(4) by (simp_all add: w)
  ultimately show ?thesis by blast
qed

text \<open>What the buffer and the flags of the connection are when its reply is ready.\<close>

definition reply_ready :: "string \<Rightarrow> ems_sock \<Rightarrow> ems_session \<Rightarrow> bool" where
  "reply_ready text sk x \<longleftrightarrow> buf_ok (buf_out x) \<and> contents (buf_out x) = text \<and> sock x = sk \<and> ems_flag_like (sflg x) SESSION_FLAG_DIE_AFTER_SEND
    \<and> ems_flag_like (sflg x) FLG_SESSION_IS_WEB"

lemma flags_set: "ems_flag_like (ems_flag_set (ems_flag_set 0 FLG_SESSION_IS_WEB) SESSION_FLAG_DIE_AFTER_SEND) SESSION_FLAG_DIE_AFTER_SEND"
  "ems_flag_like (ems_flag_set (ems_flag_set 0 FLG_SESSION_IS_WEB) SESSION_FLAG_DIE_AFTER_SEND) FLG_SESSION_IS_WEB"
  by (simp_all add: ems_flag_like_def ems_flag_set_def FLG_SESSION_IS_WEB_def SESSION_FLAG_DIE_AFTER_SEND_def)

lemma reply_set_ready:
  "buf_ok (buf_out x) \<Longrightarrow> contents (buf_out x) = text \<Longrightarrow> sflg x = ems_flag_set 0 FLG_SESSION_IS_WEB \<Longrightarrow> reply_ready text (sock x) (http_reply_set e x)"
  using flags_set by (simp add: reply_ready_def http_reply_set_def Let_def sess_timeout_set_def sess_event_set_def)

lemma frame_put [simp]: "ht_cmd (hs_put s x h) = ht_cmd h" "ht_out (hs_put s x h) = ht_out h" "ht_core (hs_put s x h) = ht_core h"
  "ht_hdr (hs_put s x h) = ht_hdr h" "ht_flg (hs_put s x h) = ht_flg h" "ht_src (hs_put s x h) = ht_src h"
  "ht_sess_live (hs_put s x h) = ht_sess_live h"
  by (simp_all add: hs_put_def)

text \<open>The header of a request that was read, and that its address and its host fit 1 KB.\<close>

lemma request_parsed:
  assumes "word_ok p" and "word_ok v" and "\<forall>f \<in> set fs. field_ok f" and "length (request_text ''GET'' p v fs) < 1024"
    and "map_of (rev fs) ''Host'' = Some host"
  shows "\<exists>d. http_header_parse True 8192 hdr (request_text ''GET'' p v fs @ rest) = Some d \<and> http_header_get d HTTP_Param = Some p \<and>
    http_header_get d HTTP_Version = Some v \<and> http_header_get d HTTP_Host = Some host"
    and "length p + length host < 1024"
proof -
  have w: "word_ok ''GET''" by (simp add: word_ok_def char_of_def)
  have "\<forall>f \<in> set fs. field_ok f \<and> length (field_line f) < 8192" "length (first_line ''GET'' p v) < 8192"
    using assms(3,4) line_fits [where fs = fs and m = "''GET''" and p = p and v = v] by fastforce+
  from request_read [OF w assms(1,2) this, of hdr rest]
  show "\<exists>d. http_header_parse True 8192 hdr (request_text ''GET'' p v fs @ rest) = Some d \<and> http_header_get d HTTP_Param = Some p \<and>
      http_header_get d HTTP_Version = Some v \<and> http_header_get d HTTP_Host = Some host"
    using assms(5) by auto
  have "(''Host'', host) \<in> set fs" using map_of_SomeD [OF assms(5)] by simp
  moreover have "length (field_line (''Host'', host)) + length (first_line ''GET'' p v) \<le> length (request_text ''GET'' p v fs)"
    using member_le_sum_list [of "length (field_line (''Host'', host) @ CRLF)" "map (\<lambda>l. length (l @ CRLF)) (map field_line fs)"] calculation
    by (auto simp: request_text_def length_concat comp_def)
  ultimately show "length p + length host < 1024" using assms(4) by (simp add: field_line_def first_line_def)
qed

text \<open>The whole redirection: \<open>y\<close> is the connection with the request in its buffer.\<close>

lemma to_portal:
  assumes "sends_to_portal e h" and "hs_get s h = Some y" and "str_data (s_addr (sock y)) = Some ip"
    and "drop (brd (buf_in y)) (bmem (buf_in y)) = request_text ''GET'' p v fs @ rest" and "length (bmem (buf_in y)) = 1024"
    and "buf_ok (buf_out y)" and "contents (buf_out y) = []" and "length (bmem (buf_out y)) = 1024" and "sflg y = ems_flag_set 0 FLG_SESSION_IS_WEB"
    and "buf_ok (ht_core h)" and "contents (ht_core h) = []" and "room (ht_core h) = 8192"
    and "word_ok p" and "word_ok v" and "\<forall>f \<in> set fs. field_ok f" and "length (request_text ''GET'' p v fs) < 1024"
    and "map_of (rev fs) ''Host'' = Some host" and "client_ok e ip mac (url_text h (Some host) (Some p))"
    and "length (client_args e ip mac (url_text h (Some host) (Some p))) < 2048"
    and "length (portal_text e v (client_args e ip mac (url_text h (Some host) (Some p)))) < 8192"
  shows "\<exists>h1 z. http_web_redirect_to_portal e s h = Some h1 \<and> hs_get s h1 = Some z \<and> ht_cmd h1 = ht_cmd h \<and> ht_sess_live h1 = ht_sess_live h \<and> ht_out h1 = ht_out h \<and>
    reply_ready (portal_text e v (client_args e ip mac (url_text h (Some host) (Some p)))) (sock y) z"
proof -
  let ?t = "portal_text e v (client_args e ip mac (url_text h (Some host) (Some p)))"
  have al: "he_alloc e" using assms(1) by (simp add: sends_to_portal_def)
  have left: "nat (buf_left (ht_core h)) = 8192" using assms(10,12) by (simp add: buffer_simps)
  obtain d where
    d: "http_header_parse True 8192 (ht_hdr h) (request_text ''GET'' p v fs @ rest) = Some d"
      "http_header_get d HTTP_Param = Some p" "http_header_get d HTTP_Version = Some v" "http_header_get d HTTP_Host = Some host"
    using request_parsed(1) [OF assms(13-17)] by blast
  note len = request_parsed(2) [OF assms(13-17)]
  let ?h = "h\<lparr>ht_hdr := d\<rparr>"
  have ver: "http_version ?h = v" using d(3) by (simp add: http_version_def fmt_s_def)
  have u: "url_text ?h = url_text h" by (simp add: url_text_def fun_eq_iff)
  have s: "sends_to_portal e ?h" using assms(1) by (simp add: sends_to_portal_def)
  have la: "length (portal_args e ip (ems_mac_update mac) (ems_mac_update (he_bssid e))) < 2048"
    using assms(19) by (simp add: client_args_def all_args_def)
  have "\<exists>b. http_web_do_redirect e s ?h = Some ((hs_put s (y\<lparr>buf_in := b\<rparr>) ?h)\<lparr>ht_core := buf_print ?t (ht_core h)\<rparr>)"
    using redirect_plain [OF s _ assms(3), of s p host mac] assms(2,5,10,12,18,19,20) d(2,4) len la ver u by fastforce
  then obtain b where b: "http_web_do_redirect e s ?h = Some ((hs_put s (y\<lparr>buf_in := b\<rparr>) ?h)\<lparr>ht_core := buf_print ?t (ht_core h)\<rparr>)" by blast
  let ?h1 = "(hs_put s (y\<lparr>buf_in := b\<rparr>) ?h)\<lparr>ht_core := buf_print ?t (ht_core h)\<rparr>"
  have tl: "length ?t < room (ht_core h)" using assms(12,20) by simp
  note core = buf_print_fits [OF assms(10) tl]
  have cl: "buf_len (buf_print ?t (ht_core h)) = int (length ?t)" using core(1,2) assms(11) by (simp add: buffer_simps)
  let ?o = "if buf_left (buf_out y) \<le> int (length ?t) then snd (ems_buffer_increase True (he_garbage e) (buf_out y) (length ?t)) else buf_out y"
  note o = out_room [OF assms(6-8,20), of "he_garbage e"]
  let ?x2 = "if buf_left (buf_out y) \<le> int (length ?t) then y\<lparr>buf_in := b, buf_out := snd (ems_buffer_increase True (he_garbage e) (buf_out y) (length ?t))\<rparr>
    else y\<lparr>buf_in := b\<rparr>"
  have x2: "buf_out ?x2 = ?o" "sock ?x2 = sock y" "sflg ?x2 = sflg y" by simp_all
  obtain c where c: "write_core (buf_print ?t (ht_core h)) (buf_len (buf_print ?t (ht_core h))) ?x2 = Some (?x2\<lparr>buf_out := c\<rparr>)" "buf_ok c" "contents c = ?t"
    using write_core_text [OF core(1), of ?t ?x2] core(2) assms(11) o x2 by auto
  let ?z = "http_reply_set e (?x2\<lparr>buf_out := c\<rparr>)"
  have get: "hs_get s ?h1 = Some (y\<lparr>buf_in := b\<rparr>)" using get_in [OF assms(2)] by simp
  have "http_web_redirect_to_portal e s h = Some (hs_put s ?z ?h1)"
    using assms(2,4) al left d(1) b get c(1) cl by (simp add: http_web_redirect_to_portal_def Let_def cong: if_cong)
  moreover have "reply_ready ?t (sock y) ?z"
    using reply_set_ready [of "?x2\<lparr>buf_out := c\<rparr>" ?t e] c(2,3) x2 assms(9) by simp
  moreover have "hs_get s (hs_put s ?z ?h1) = Some ?z" using get_in [OF assms(2)] by simp
  ultimately show ?thesis by auto
qed


subsection \<open>From the request to the end of the connection\<close>

lemma process_request:
  assumes "sends_to_portal e h" and "hs_get s h = Some y" and "str_data (s_addr (sock y)) = Some ip"
    and "drop (brd (buf_in y)) (bmem (buf_in y)) = request_text ''GET'' p v fs @ rest" and "length (bmem (buf_in y)) = 1024"
    and "buf_ok (buf_out y)" and "contents (buf_out y) = []" and "length (bmem (buf_out y)) = 1024" and "sflg y = 0"
    and "length (bmem (ht_core h)) = 8192"
    and "word_ok p" and "word_ok v" and "\<forall>f \<in> set fs. field_ok f" and "length (request_text ''GET'' p v fs) < 1024"
    and "map_of (rev fs) ''Host'' = Some host" and "client_ok e ip mac (url_text h (Some host) (Some p))"
    and "length (client_args e ip mac (url_text h (Some host) (Some p))) < 2048"
    and "length (portal_text e v (client_args e ip mac (url_text h (Some host) (Some p)))) < 8192"
  shows "\<exists>h1 z. http_cmd_process e s h = Some (EMS_OK, h1) \<and> hs_get s h1 = Some z \<and> ht_cmd h1 = ht_cmd h \<and> ht_sess_live h1 = ht_sess_live h \<and>
    ht_out h1 = ht_out h \<and> reply_ready (portal_text e v (client_args e ip mac (url_text h (Some host) (Some p)))) (sock y) z"
proof -
  let ?t = "portal_text e v (client_args e ip mac (url_text h (Some host) (Some p)))"
  let ?y = "y\<lparr>sflg := ems_flag_set 0 FLG_SESSION_IS_WEB\<rparr>"
  let ?h = "(hs_put s ?y h)\<lparr>ht_core := ems_buffer_clear (ht_core h)\<rparr>"
  have w: "word_ok ''GET''" by (simp add: word_ok_def char_of_def)
  have full: "http_header_full (request_text ''GET'' p v fs @ rest) = Some True"
    using request_complete [OF w assms(11-13), of rest] by simp
  have web: "http_msg_is_web (request_text ''GET'' p v fs @ rest)" by (rule request_is_web [OF assms(11)])
  have u: "url_text ?h = url_text h" by (simp add: url_text_def fun_eq_iff)
  have s: "sends_to_portal e ?h" using assms(1) by (simp add: sends_to_portal_def)
  have g: "hs_get s ?h = Some ?y" using get_in [OF assms(2)] by simp
  have core: "buf_ok (ht_core ?h)" "contents (ht_core ?h) = []" "room (ht_core ?h) = 8192" using clear_fresh [of "ht_core h"] assms(10) by simp_all
  obtain h1 z where r: "http_web_redirect_to_portal e s ?h = Some h1" "hs_get s h1 = Some z" "ht_cmd h1 = ht_cmd h" "ht_sess_live h1 = ht_sess_live h"
      "ht_out h1 = ht_out h" "reply_ready ?t (sock y) z"
    using to_portal [OF s g, of ip p v fs rest host mac] assms core u by auto
  have m: "http_web_msg_redirect e s h = Some h1"
    using assms(1,2,9) r(1) by (simp add: http_web_msg_redirect_def Let_def sends_to_portal_def)
  have nw: "\<not> ems_flag_like (sflg y) FLG_SESSION_IS_WEB" using assms(9) by (simp add: ems_flag_like_def)
  have "http_cmd_process e s h = Some (EMS_OK, hs_put s (z\<lparr>buf_in := ems_buffer_clear (buf_in z)\<rparr>) h1)"
    using nw web full m r(2) by (simp add: http_cmd_process_def assms(2,4) Let_def)
  moreover have "hs_get s (hs_put s (z\<lparr>buf_in := ems_buffer_clear (buf_in z)\<rparr>) h1) = Some (z\<lparr>buf_in := ems_buffer_clear (buf_in z)\<rparr>)"
    using get_in [OF r(2)] by simp
  moreover have "reply_ready ?t (sock y) (z\<lparr>buf_in := ems_buffer_clear (buf_in z)\<rparr>)" using r(6) by (simp add: reply_ready_def)
  ultimately show ?thesis using r(3-5) by auto
qed

lemma write_reply:
  assumes "hs_get s h = Some z" and "reply_ready text sk z" and "0 < s_fd sk" and "text \<noteq> []"
  shows "\<exists>h2. evt_cmd_cb e s False EMS_EVT_WRITE [] [(int (length text), 0)] h = Some h2 \<and> ht_out h2 = ht_out h @ [HSent s text] \<and>
    ht_cmd h2 = remove1 s (ht_cmd h) \<and> ht_sess_live h2 = remove1 s (ht_sess_live h)"
proof -
  have z: "buf_ok (buf_out z)" "contents (buf_out z) = text" "sock z = sk" "ems_flag_like (sflg z) SESSION_FLAG_DIE_AFTER_SEND"
    using assms(2) by (simp_all add: reply_ready_def)
  have l: "buf_len (buf_out z) = int (length text)" using z by (simp add: buffer_simps)
  have loop: "send_loop [(int (length text), 0)] 0 (int (length text)) = Some (send_res.Sent (int (length text)))"
    using assms(4) by (simp add: send_loop.simps)
  let ?b = "snd (ems_buffer_seek_rd (buf_out z) (int (length text)) 2)"
  have b: "?b = (buf_out z)\<lparr>brd := brd (buf_out z) + length text\<rparr>" using seek_rd_cur [OF z(1), of "length text"] z(2) by simp
  have e: "buf_len ?b \<le> 0" unfolding b using drain_ok(1,2) [OF z(1), of "length text"] z(2) by (simp add: buffer_simps)
  have "ems_sock_send [(int (length text), 0)] sk (buf_out z) = Some (int (length text), sk, ?b, text)"
    using assms(3) loop z(2) l by (simp add: ems_sock_send_def)
  then have "http_cmd_write e s [(int (length text), 0)] h = Some (EMS_ERR, hs_put s (z\<lparr>sock := sk, buf_out := ?b\<rparr>) (http_emit (HSent s text) h))"
    using e z(3,4) assms(1,4) by (simp add: http_cmd_write_def Let_def)
  moreover have "\<not> ems_flag_like EMS_EVT_WRITE EMS_EVT_READ" "ems_flag_like EMS_EVT_WRITE EMS_EVT_WRITE"
    by (simp_all add: ems_flag_like_def EMS_EVT_READ_def EMS_EVT_WRITE_def)
  ultimately show ?thesis
    using assms(1) by (simp add: evt_cmd_cb_def http_cmd_release_def http_emit_def)
qed

text \<open>
  C5: A client that has not logged in asks for any page: the server answers with one redirection to the page of the
  portal, whose address carries the client's addresses and, encoded, the page it asked for; when the reply
  is sent the connection is closed and released.
\<close>

theorem http_request_redirected:
  assumes "sends_to_portal e h" and "hs_get s h = Some x" and "new_conn ip x" and "length (bmem (ht_core h)) = 8192"
    and "word_ok p" and "word_ok v" and "\<forall>f \<in> set fs. field_ok f" and "length (request_text ''GET'' p v fs) < 1024"
    and "map_of (rev fs) ''Host'' = Some host"
    and "client_ok e ip mac (''http://'' @ host @ '':'' @ ems_itoa (ht_src h) @ p)"
    and "length (client_args e ip mac (''http://'' @ host @ '':'' @ ems_itoa (ht_src h) @ p)) < 2048"
    and "length (portal_text e v (client_args e ip mac (''http://'' @ host @ '':'' @ ems_itoa (ht_src h) @ p))) < 8192"
  defines "reply \<equiv> portal_text e v (client_args e ip mac (''http://'' @ host @ '':'' @ ems_itoa (ht_src h) @ p))"
  shows "\<exists>h1 h2. evt_cmd_cb e s False EMS_EVT_READ [[Got (request_text ''GET'' p v fs), RFail 11]] [] h = Some h1 \<and>
    ht_cmd h1 = ht_cmd h \<and> ht_out h1 = ht_out h \<and>
    evt_cmd_cb e s False EMS_EVT_WRITE [] [(int (length reply), 0)] h1 = Some h2 \<and>
    ht_out h2 = ht_out h @ [HSent s reply] \<and> ht_cmd h2 = remove1 s (ht_cmd h) \<and> ht_sess_live h2 = remove1 s (ht_sess_live h)"
proof -
  let ?req = "request_text ''GET'' p v fs"
  have u: "''http://'' @ host @ '':'' @ ems_itoa (ht_src h) @ p = url_text h (Some host) (Some p)" by (simp add: url_text_def fmt_s_def)
  have "?req \<noteq> []" by (simp add: request_text_def CRLF_def)
  then obtain b rest where b: "ems_sock_read [Got ?req, RFail 11] (sock x) (ems_buffer_refresh (buf_in x)) = Some (- EAGAIN, sock x, b)"
      "drop (brd b) (bmem b) = ?req @ rest" "length (bmem b) = 1024"
    using read_request [OF assms(3) _ assms(8)] by blast
  let ?y = "x\<lparr>sock := sock x, buf_in := b\<rparr>" and ?h = "hs_put s (x\<lparr>sock := sock x, buf_in := b\<rparr>) h"
  have x: "str_data (s_addr (sock x)) = Some ip" "0 < s_fd (sock x)" "sflg x = 0" "buf_ok (buf_out x)" "contents (buf_out x) = []" "length (bmem (buf_out x)) = 1024"
    using assms(3) by (simp_all add: new_conn_def)
  have s: "sends_to_portal e ?h" using assms(1) by (simp add: sends_to_portal_def)
  have u2: "url_text ?h = url_text h" by (simp add: url_text_def fun_eq_iff)
  have g: "hs_get s ?h = Some ?y" using get_in [OF assms(2)] by simp
  obtain h1 z where p: "http_cmd_process e s ?h = Some (EMS_OK, h1)" "hs_get s h1 = Some z" "ht_cmd h1 = ht_cmd h" "ht_sess_live h1 = ht_sess_live h"
      "ht_out h1 = ht_out h" "reply_ready reply (sock x) z"
    using process_request [OF s g, of ip p v fs rest host mac] assms(4-12) b(2,3) x u2 unfolding u reply_def by auto
  have "http_cmd_read e s [[Got ?req, RFail 11]] h = Some (EMS_OK, h1)" using b(1) p(1) assms(2) by (simp add: Let_def)
  moreover have "\<not> ems_flag_like EMS_EVT_READ EMS_EVT_WRITE" "ems_flag_like EMS_EVT_READ EMS_EVT_READ"
    by (simp_all add: ems_flag_like_def EMS_EVT_READ_def EMS_EVT_WRITE_def)
  ultimately have "evt_cmd_cb e s False EMS_EVT_READ [[Got ?req, RFail 11]] [] h = Some h1"
    using assms(2) by (simp add: evt_cmd_cb_def)
  moreover have "reply \<noteq> []" by (simp add: reply_def portal_text_def http_lines_def CRLF_def)
  ultimately show ?thesis using write_reply [OF p(2,6) x(2), of e] p(3-5) by auto
qed


subsection \<open>An example\<close>

definition http_env_ex :: http_env where
  "http_env_ex = \<lparr>he_now = \<lparr>tv_sec = 100, tv_usec = 0\<rparr>, he_alloc = True, he_garbage = (\<lambda>_. CHR ''x''), he_new_sess = (\<lambda>L. if L = [] then Some 2 else None),
     he_new_cna = (\<lambda>L. if L = [] then Some 2 else None), he_listen = (\<lambda>_. Some 5), he_first_config = False, he_network_ready = True, he_config_ready = True,
     he_subdomain = False, he_weixin = False, he_tm = ''Thu Jan  1 00:00:00 1970'', he_gw = ''10.0.0.1'', he_sn = ''sn1'', he_devicetype = ''ap'',
     he_ac_mac = ''00:11'', he_ssid = ''wifi'', he_bssid = ''aa:bb'', he_portal = ''10.0.0.9'', he_redirect_port = 80,
     he_usermac = (\<lambda>_. Some ''cc:dd''), he_process = (\<lambda>_ _ j. (0, j)), he_json_text = (\<lambda>_. []), he_json_parse = (\<lambda>_. None)\<rparr>"

definition conn_ex :: ems_session where
  "conn_ex = (ems_session_init True (\<lambda>_. CHR ''x''))\<lparr>sock := \<lparr>s_addr = \<lparr>str_len = 8, str_data = Some ''10.0.0.7''\<rparr>, s_port = 1025, s_fd = 7\<rparr>\<rparr>"

definition http_ex :: ems_http where
  "http_ex = \<lparr>ht_flg = 0, ht_sess = None, ht_cmd = [1], ht_st = st_normal, ht_src = 80, ht_dst = 9200, ht_nas = str_init, ht_url = [], ht_cna = [],
     ht_cna_list = [], ht_grey = [], ht_hdr = http_header_init, ht_sess_of = (\<lambda>_. conn_ex), ht_sess_live = [1], ht_cna_of = (\<lambda>_. http_cna_new),
     ht_cna_live = [], ht_core = \<lparr>bmem = replicate 8192 CHR ''x'', brd = 0, bwr = 0\<rparr>, ht_out = []\<rparr>"

lemma ex_server: "sends_to_portal http_env_ex http_ex" "hs_get 1 http_ex = Some conn_ex" "length (bmem (ht_core http_ex)) = 8192" "ht_src http_ex = 80"
  by (simp_all add: sends_to_portal_def http_env_ex_def http_ex_def hs_get_def ems_flag_like_def)

lemma ex_conn: "new_conn ''10.0.0.7'' conn_ex"
  by (simp add: new_conn_def conn_ex_def ems_session_init_def ems_buffer_init_def buf_ok_def contents_def EMS_BUFFER_1K_def)

lemma ex_client: "plain url \<Longrightarrow> client_ok http_env_ex ''10.0.0.7'' ''cc:dd'' url"
  by (simp add: client_ok_def http_env_ex_def plain_def char_of_def)

lemma ex_80: "ems_itoa 80 = ''80''"
  by code_simp

lemma ex_portal_args: "length (portal_args http_env_ex ''10.0.0.7'' (ems_mac_update ''cc:dd'') (ems_mac_update (he_bssid http_env_ex))) = 87"
  by (simp add: portal_args_def http_env_ex_def ems_mac_update_def)

lemma ex_args: "length (client_args http_env_ex ''10.0.0.7'' ''cc:dd'' url) = 109 + length (url_encode url (length url))"
proof -
  have "length (url_encode (he_devicetype http_env_ex) (length (he_devicetype http_env_ex))) = 2"
    by (simp add: http_env_ex_def is_alnum_def uchr_def)
  then show ?thesis using ex_portal_args by (simp add: client_args_def all_args_def)
qed

theorem http_request_redirected_witness:
  "\<exists>h1 h2 t. evt_cmd_cb http_env_ex 1 False EMS_EVT_READ [[Got (request_text ''GET'' ''/a'' ''HTTP/1.1'' [(''Host'', ''b.c'')]), RFail 11]] [] http_ex = Some h1 \<and>
    evt_cmd_cb http_env_ex 1 False EMS_EVT_WRITE [] [(int (length t), 0)] h1 = Some h2 \<and> ht_out h2 = [HSent 1 t] \<and> ht_cmd h2 = []"
proof -
  let ?url = "''http://b.c:80/a''"
  have w: "word_ok ''/a''" "word_ok ''HTTP/1.1''" "\<forall>f \<in> set [(''Host'', ''b.c'')]. field_ok f"
    "length (request_text ''GET'' ''/a'' ''HTTP/1.1'' [(''Host'', ''b.c'')]) < 1024" "map_of (rev [(''Host'', ''b.c'')]) ''Host'' = Some ''b.c''"
    by (simp_all add: word_ok_def field_ok_def request_text_def first_line_def field_line_def CRLF_def char_of_def)
  have c: "client_ok http_env_ex ''10.0.0.7'' ''cc:dd'' ?url" by (rule ex_client) (simp add: plain_def char_of_def)
  have l: "length (client_args http_env_ex ''10.0.0.7'' ''cc:dd'' ?url) \<le> 164"
    using url_encode_spec [of ?url "length ?url"] ex_args [of ?url] by simp
  then have p: "length (portal_text http_env_ex ''HTTP/1.1'' (client_args http_env_ex ''10.0.0.7'' ''cc:dd'' ?url)) < 8192"
    by (simp add: portal_text_def http_lines_def CRLF_def) (simp add: http_env_ex_def ex_80)
  have u: "''http://'' @ ''b.c'' @ '':'' @ ems_itoa (ht_src http_ex) @ ''/a'' = ?url" by (simp add: ex_server(4) ex_80)
  show ?thesis
    using http_request_redirected [OF ex_server(1,2) ex_conn ex_server(3) w, of "''cc:dd''"] c l p unfolding u by (auto simp: http_ex_def)
qed

end
