(* ===== verification/Ems_Http_Fault.thy ===== *)
theory Ems_Http_Fault
  imports Ems_Http_Page
begin

text \<open>
  The reachable states of the web module, what a probing client is told, and requests that the server does not
  survive.
\<close>

subsection \<open>Reachable states\<close>

text \<open>
  C6: In every reachable state the connections of a server are exactly its sessions in memory, each of them watched for
  requests and under a timer; its probing clients are exactly those in memory, one for an address, each under
  a timer; a server that accepts connections listens on one of the ports 9200 to 9220, any other one has no
  connection; and a module that does not run has no server.
\<close>

theorem http_servers_invariant:
  assumes "http_begin m0" and "http_step\<^sup>*\<^sup>* m0 m" and "hd_ctx m = Some c" and "i \<in> set (hm_list c)"
  shows "hd_run m \<and> (let h = hm_of c i in
    distinct (ht_cmd h) \<and> set (ht_cmd h) = set (ht_sess_live h) \<and>
    (\<forall>s \<in> set (ht_cmd h). s_to (ht_sess_of h s) \<noteq> None \<and> timeout_cb (ht_sess_of h s) = Some TIMEOUT_CMD_CB \<and> sess_wants (ht_sess_of h s) EMS_EVT_READ) \<and>
    distinct (ht_cna_list h) \<and> set (ht_cna_list h) = set (ht_cna_live h) \<and>
    inj_on (\<lambda>c. str_data (cn_ip (ht_cna_of h c))) (set (ht_cna_list h)) \<and> (\<forall>c \<in> set (ht_cna_list h). cn_to (ht_cna_of h c) \<noteq> None) \<and>
    (if ht_st h = st_normal then ht_sess h \<noteq> None \<and> 9200 \<le> ht_dst h \<and> ht_dst h \<le> 9220 else ht_cmd h = [] \<and> ht_cna_list h = []))"
proof -
  have m: "mod_ok m" by (rule http_sys.reachable_inv [OF assms(1,2)])
  then have "hd_run m" "http_inv (hm_of c i)" using assms(3,4) by (auto simp: mod_ok_def mgmt_ok_def)
  then show ?thesis by (auto simp: Let_def http_inv_defs cmd_ok_def cna_ok_def)
qed

definition http_app_ex :: http_app_env where
  "http_app_ex = http_env.extend http_env_ex \<lparr>he_new_http = (\<lambda>L. if L = [] then Some 1 else None),
     he_core = \<lparr>bmem = replicate 8192 CHR ''x'', brd = 0, bwr = 0\<rparr>, he_mem = http_ex\<rparr>"

definition mgmt_ex :: http_mgmt where
  "mgmt_ex = \<lparr>hm_list = [], hm_live = [], hm_of = (\<lambda>_. http_ex), hm_rule = None, hm_out = []\<rparr>"

lemma fresh_ex: "fresh_app http_app_ex"
  by (auto simp: fresh_app_def http_app_ex_def http_env.defs split: if_splits)

lemma start_ex: "\<exists>m c. http_process http_app_ex EMS_APP_START None \<lparr>hd_run = False, hd_ctx = Some mgmt_ex\<rparr> = Some (EMS_OK, m) \<and>
    hd_ctx m = Some c \<and> hm_list c = [1]"
proof -
  have o: "own_rule True 80 ''115.28.38.73'' = Some (Some [\<lparr>str_len = 12, str_data = Some ''115.28.38.73''\<rparr>])"
    by (simp add: own_rule_def ems_string_split_def split_loop.simps split_piece_def ems_split_new_def str_set_def ems_split_get_str_def
        ems_http_is_own_def ems_split_len_def)
  have a: "ems_atoi (Some (ems_itoa 80)) = 80" by code_simp
  let ?h = "(ems_http_new http_app_ex)\<lparr>ht_src := 80\<rparr>"
  have al: "he_alloc http_app_ex" by (simp add: http_app_ex_def http_env.defs http_env_ex_def)
  have srv: "server_env http_app_ex = http_env_ex" by (simp add: http_app_ex_def http_env.defs)
  have new: "he_new_http http_app_ex [] = Some 1" by (simp add: http_app_ex_def http_env.defs)
  have st: "fst (http_start http_env_ex g) = EMS_OK" if "ht_sess g = None" for g
    using that by (simp add: http_start_def ems_session_new_def http_env_ex_def http_bind_loop.simps)
  have r: "json_object_object_get (Some ems_http_default_rules) ''nas'' = Some (JStr ''115.28.38.73'')"
    "json_object_object_get (Some ems_http_default_rules) ''port'' = Some (JArr [JStr (ems_itoa 80)])"
    "json_object_object_get (Some ems_http_default_rules) ''url'' = None" "json_object_object_get (Some ems_http_default_rules) ''cna'' = None"
    "json_object_object_get (Some ems_http_default_rules) ''grey'' = None"
    by (simp_all add: ems_http_default_rules_def)
  obtain g where g: "ems_http_get_nas True (Some (JStr ''115.28.38.73'')) ?h = Some g" "ht_sess g = None"
    using o by (auto simp: ems_http_get_nas_def ems_http_new_def)
  define h5 where "h5 = snd (http_start http_env_ex (g\<lparr>ht_st := st_start\<rparr>))"
  have cs: "ems_http_change_status http_env_ex st_start g = (EMS_OK, h5)"
    using st [of "g\<lparr>ht_st := st_start\<rparr>"] g(2) by (simp add: ems_http_change_status_def h5_def prod_eq_iff)
  let ?m = "mgmt_ex\<lparr>hm_rule := Some ems_http_default_rules\<rparr>"
  let ?c = "?m\<lparr>hm_of := (hm_of ?m)(1 := h5), hm_live := 1 # hm_live ?m, hm_list := hm_list ?m @ [1]\<rparr>"
  have l: "hm_live ?m = []" "hm_rule ?m = Some ems_http_default_rules" by (simp_all add: mgmt_ex_def)
  have c: "ems_http_create_new http_app_ex 80 ?m = Some (EMS_OK, ?c)"
    unfolding ems_http_create_new_def l new al srv r(1,3,4,5) bind.bind_lunit g(1)
      ems_http_get_url_whitelist_def ems_http_get_cna_list_def ems_http_get_url_greylist_def array_rules_def option.case by (simp add: g(1) cs al)
  have n: "hm_rule mgmt_ex = None" by (simp add: mgmt_ex_def)
  have "start_ports http_app_ex [ems_itoa 80] ?m = Some ?c" by (simp only: start_ports.simps a c bind.bind_lunit prod.case)
  then have "http_start_all http_app_ex mgmt_ex = Some (EMS_OK, ?c)"
    by (simp only: http_start_all_def n r(2) json_strings_def map_filter_simps Let_def option.case json_elems.simps json_string.simps bind.bind_lunit)
  then show ?thesis
    by (simp add: http_process_def http_run_def EMS_APP_START_def EMS_APP_SERVER_RULES_UPDATE_def EMS_APP_EVT_FW_RELOAD_def) (simp add: mgmt_ex_def)
qed

theorem http_servers_invariant_witness:
  "\<exists>m c. http_step\<^sup>*\<^sup>* \<lparr>hd_run = False, hd_ctx = Some mgmt_ex\<rparr> m \<and> hd_ctx m = Some c \<and> hm_list c = [1] \<and> hd_run m"
proof -
  have b: "http_begin \<lparr>hd_run = False, hd_ctx = Some mgmt_ex\<rparr>"
    unfolding http_begin_def by (rule exI [of _ mgmt_ex], rule exI [of _ "\<lparr>hd_run = False, hd_ctx = None\<rparr>"]) (simp add: http_init_def mgmt_ex_def)
  obtain m c where m: "http_process http_app_ex EMS_APP_START None \<lparr>hd_run = False, hd_ctx = Some mgmt_ex\<rparr> = Some (EMS_OK, m)"
    "hd_ctx m = Some c" "hm_list c = [1]" using start_ex by blast
  have s: "http_step\<^sup>*\<^sup>* \<lparr>hd_run = False, hd_ctx = Some mgmt_ex\<rparr> m" using http_step.message [OF fresh_ex m(1)] by blast
  from http_servers_invariant [OF b s m(2), of 1] m(3) have "hd_run m" by simp
  with s m(2,3) show ?thesis by blast
qed

subsection \<open>Probing clients\<close>


definition probed_ex :: ems_http where
  "probed_ex = http_ex\<lparr>ht_hdr := http_header_set http_header_init HTTP_Version (Some ''HTTP/1.0''), ht_cna_list := [2], ht_cna_live := [2],
     ht_cna_of := (\<lambda>_. \<lparr>cn_ip = \<lparr>str_len = 8, str_data = Some ''10.0.0.7''\<rparr>, cn_host = \<lparr>str_len = 3, str_data = Some ''b.c''\<rparr>,
       cn_param = \<lparr>str_len = 2, str_data = Some ''/a''\<rparr>, cn_st = cna_st_phase_two, cn_to = Some \<lparr>tv_sec = 1, tv_usec = 0\<rparr>\<rparr>)\<rparr>"


subsection \<open>Requests that leave the memory\<close>

text \<open>
  The bytes of a request are searched as a text although nothing ends them: a request that fills the buffer without
  the end of a header makes the server read past its memory.
\<close>

theorem http_unterminated_overread:
  assumes "hs_get s h = Some x" and "new_conn ip x" and "length req = 1024" and "take 3 req = ''GET''"
    and "\<not> sublist [CHR 0x0D, CHR 0x0A, CHR 0x0D, CHR 0x0A] req" and "char_of (0 :: nat) \<notin> set req"
  shows "evt_cmd_cb e s False EMS_EVT_READ (([Got req]) # rss) [] h = None"
proof -
  have x: "brd (buf_in x) = 0" "bwr (buf_in x) = 0" "length (bmem (buf_in x)) = 1024" "0 < s_fd (sock x)" "sflg x = 0" using assms(2) by (simp_all add: new_conn_def)
  have r: "ems_buffer_refresh (buf_in x) = buf_in x" using x by (simp add: ems_buffer_refresh_def buf_trash_def)
  have l: "recv_loop [Got req] 1024 [] = Some (Full, req)" using assms(3) by (simp add: recv_loop.simps)
  let ?b = "(buf_in x)\<lparr>bmem := req\<rparr>"
  have m: "mem_write (bmem (buf_in x)) 0 req = req" using x(3) assms(3) by (simp add: mem_write_def)
  have "ems_buffer_seek_wr ?b (int (length req)) 2 = (EMS_OK, ?b\<lparr>bwr := length req\<rparr>)"
    using seek_wr_cur [of ?b "length req"] x assms(3) by (simp add: buf_ok_def room_def)
  then have rd: "ems_sock_read [Got req] (sock x) (buf_in x) = Some (1024, sock x, ?b\<lparr>bwr := length req\<rparr>)"
    using l x m assms(3) by (simp add: ems_sock_read_def buf_left_def)
  let ?y = "x\<lparr>sock := sock x, buf_in := ?b\<lparr>bwr := length req\<rparr>\<rparr>"
  have g: "hs_get s (hs_put s ?y h) = Some ?y" using get_in [OF assms(1)] by simp
  have t: "c_text req = req" using assms(6) by (auto simp: c_text_def takeWhile_eq_all_conv)
  have web: "http_msg_is_web req" using assms(4) t by (simp add: http_msg_is_web_def strncmp_eq_def)
  have "strstr req (CRLF @ CRLF) = None" using assms(5) by (simp add: strstr_None_iff CRLF_def)
  then have full: "http_header_full req = None" using t assms(6) by (simp add: http_header_full_def mem_strstr_def)
  have "\<not> ems_flag_like (sflg x) FLG_SESSION_IS_WEB" using x(5) by (simp add: ems_flag_like_def)
  then have "http_cmd_process e s (hs_put s ?y h) = None" using g web full x(1) by (simp add: http_cmd_process_def Let_def)
  then have "http_cmd_read e s ([Got req] # rss) h = None" using rd assms(1) by (simp add: r Let_def)
  moreover have "ems_flag_like EMS_EVT_READ EMS_EVT_READ" by (simp add: ems_flag_like_def EMS_EVT_READ_def)
  ultimately show ?thesis using assms(1) by (simp add: evt_cmd_cb_def)
qed

theorem http_unterminated_overread_witness:
  "evt_cmd_cb http_env_ex 1 False EMS_EVT_READ [[Got (''GET /'' @ replicate 1019 CHR ''a'')]] [] http_ex = None"
proof -
  have "CHR 0x0D \<notin> set (''GET /'' @ replicate 1019 CHR ''a'')" by simp
  then have "\<not> sublist [CHR 0x0D, CHR 0x0A, CHR 0x0D, CHR 0x0A] (''GET /'' @ replicate 1019 CHR ''a'')"
    by (metis list.set_intros(1) set_mono_sublist subsetD)
  from http_unterminated_overread [OF ex_server(2) ex_conn _ _ this, of http_env_ex "[]"] show ?thesis by (simp add: char_of_def)
qed

text \<open>
  C23: The arguments for the page of the portal are collected in 2 KB: a request of less than 1 KB, whose address becomes
  longer by the encoding, fills them, and the reply is printed from memory behind the buffer.
\<close>

theorem http_long_page_overread:
  assumes "sends_to_portal e h" and "hs_get s h = Some x" and "new_conn ip x" and "length (bmem (ht_core h)) = 8192"
    and "word_ok p" and "word_ok v" and "\<forall>f \<in> set fs. field_ok f" and "length (request_text ''GET'' p v fs) < 1024"
    and "map_of (rev fs) ''Host'' = Some host"
    and "client_ok e ip mac (''http://'' @ host @ '':'' @ ems_itoa (ht_src h) @ p)"
    and "length (portal_args e ip (ems_mac_update mac) (ems_mac_update (he_bssid e))) < 2048"
    and "2048 \<le> length (client_args e ip mac (''http://'' @ host @ '':'' @ ems_itoa (ht_src h) @ p))"
  shows "evt_cmd_cb e s False EMS_EVT_READ [[Got (request_text ''GET'' p v fs), RFail 11]] [] h = None"
proof -
  let ?req = "request_text ''GET'' p v fs"
  have u: "''http://'' @ host @ '':'' @ ems_itoa (ht_src h) @ p = url_text h (Some host) (Some p)" by (simp add: url_text_def fmt_s_def)
  have "?req \<noteq> []" by (simp add: request_text_def CRLF_def)
  then obtain b rest where b: "ems_sock_read [Got ?req, RFail 11] (sock x) (ems_buffer_refresh (buf_in x)) = Some (- EAGAIN, sock x, b)"
      "drop (brd b) (bmem b) = ?req @ rest" "length (bmem b) = 1024"
    using read_request [OF assms(3) _ assms(8)] by blast
  let ?y = "x\<lparr>sock := sock x, buf_in := b, sflg := ems_flag_set (sflg x) FLG_SESSION_IS_WEB\<rparr>"
  let ?h0 = "hs_put s (x\<lparr>sock := sock x, buf_in := b\<rparr>) h"
  let ?h1 = "(hs_put s ?y ?h0)\<lparr>ht_core := ems_buffer_clear (ht_core h)\<rparr>"
  have w: "word_ok ''GET''" by (simp add: word_ok_def char_of_def)
  have full: "http_header_full (?req @ rest) = Some True" using request_complete [OF w assms(5-7), of rest] by simp
  have g0: "hs_get s ?h0 = Some (x\<lparr>sock := sock x, buf_in := b\<rparr>)" "hs_get s ?h1 = Some ?y" using get_in [OF assms(2)] by simp_all
  have nw: "\<not> ems_flag_like (sflg x) FLG_SESSION_IS_WEB" using assms(3) by (simp add: new_conn_def ems_flag_like_def)
  obtain d where d: "http_header_parse True 8192 (ht_hdr h) (?req @ rest) = Some d"
      "http_header_get d HTTP_Param = Some p" "http_header_get d HTTP_Host = Some host"
    using request_parsed(1) [OF assms(5-9)] by blast
  have core: "nat (buf_left (ht_core ?h1)) = 8192" "buf_ok (ht_core ?h1)" using clear_fresh [of "ht_core h"] assms(4) by (simp_all add: buffer_simps)
  have ut: "url_text (?h1\<lparr>ht_hdr := d\<rparr>) = url_text h" by (simp add: url_text_def fun_eq_iff)
  have fits: "length (bmem (buf_in ?y)) + 3 * (length p + length host + 1024) < 2 ^ 32" using request_parsed(2) [OF assms(5-9)] b(3) by simp
  have "http_web_do_redirect e s (?h1\<lparr>ht_hdr := d\<rparr>) = None"
  proof -
    have "sends_to_portal e (?h1\<lparr>ht_hdr := d\<rparr>)" using assms(1) by (simp add: sends_to_portal_def)
    moreover have "hs_get s (?h1\<lparr>ht_hdr := d\<rparr>) = Some ?y" using g0(2) by simp
    moreover have "str_data (s_addr (sock ?y)) = Some ip" "bmem (buf_in ?y) \<noteq> []" using assms(3) b(3) by (auto simp: new_conn_def)
    ultimately show ?thesis
      using redirect_plain [of e "?h1\<lparr>ht_hdr := d\<rparr>" s ?y ip p host mac] fits d(2,3) core(2) assms(10,11,12) unfolding ut u by auto
  qed
  then have "http_web_redirect_to_portal e s ?h1 = None"
    using g0(2) b(2) core(1) d(1) assms(1) by (simp add: http_web_redirect_to_portal_def sends_to_portal_def)
  then have "http_web_msg_redirect e s ?h0 = None"
    using g0(1) assms(1) by (simp add: http_web_msg_redirect_def Let_def sends_to_portal_def)
  then have "http_cmd_process e s ?h0 = None"
    using g0(1) nw full request_is_web [OF assms(5), of v fs rest] b(2) by (simp add: http_cmd_process_def Let_def)
  then have "http_cmd_read e s [[Got ?req, RFail 11]] h = None" using b(1) assms(2) by (simp add: Let_def)
  moreover have "ems_flag_like EMS_EVT_READ EMS_EVT_READ" by (simp add: ems_flag_like_def EMS_EVT_READ_def)
  ultimately show ?thesis using assms(2) by (simp add: evt_cmd_cb_def)
qed


lemma encode_marks: "length (url_encode (replicate n CHR ''!'') n) = 3 * n"
  by (induction n) (simp_all add: is_alnum_def uchr_def)

lemma encode_app: "length (url_encode (s @ t) (length (s @ t))) = length (url_encode s (length s)) + length (url_encode t (length t))"
  by (induction s) simp_all

theorem http_long_page_overread_witness:
  "evt_cmd_cb http_env_ex 1 False EMS_EVT_READ
    [[Got (request_text ''GET'' (CHR ''/'' # replicate 400 CHR ''!'') ''HTTP/1.1'' [(''Host'', replicate 400 CHR ''!'')]), RFail 11]] [] http_ex = None"
proof -
  let ?m = "replicate 400 CHR ''!''" and ?h = "''Host''"
  let ?p = "CHR ''/'' # ?m"
  let ?url = "''http://'' @ ?m @ '':80/'' @ ?m"
  have v: "strstr ?m '': '' = None" by (rule strstr_no_char) simp
  have w: "word_ok ?p" "word_ok ''HTTP/1.1''" "\<forall>f \<in> set [(?h, ?m)]. field_ok f"
    "length (request_text ''GET'' ?p ''HTTP/1.1'' [(?h, ?m)]) < 1024" "map_of (rev [(?h, ?m)]) ?h = Some ?m"
    using v by (simp_all add: word_ok_def field_ok_def request_text_def first_line_def field_line_def CRLF_def char_of_def)
  have c: "client_ok http_env_ex ''10.0.0.7'' ''cc:dd'' ?url" by (rule ex_client) (simp add: plain_def char_of_def)
  have "2400 \<le> length (url_encode ?url (length ?url))"
    unfolding encode_app using encode_marks [of 400] by simp
  then have l: "2048 \<le> length (client_args http_env_ex ''10.0.0.7'' ''cc:dd'' ?url)" unfolding ex_args by linarith
  have u: "''http://'' @ ?m @ '':'' @ ems_itoa (ht_src http_ex) @ ?p = ?url" by (simp add: ex_server(4) ex_80)
  show ?thesis
    using http_long_page_overread [OF ex_server(1,2) ex_conn ex_server(3) w, of "''cc:dd''"] c l ex_portal_args unfolding u by simp
qed


subsection \<open>Rules without a port\<close>

text \<open>The module handles the stop and the start that it sends itself, \<open>n\<close> times.\<close>

fun http_rounds :: "http_app_env \<Rightarrow> nat \<Rightarrow> http_mod \<Rightarrow> http_mod option" where
  "http_rounds e 0 m = Some m"
| "http_rounds e (Suc n) m =
    do { (_, m1) \<leftarrow> http_process e EMS_APP_STOP None m; (_, m2) \<leftarrow> http_process e EMS_APP_START None m1; http_rounds e n m2 }"

abbreviation restart :: "http_evt list" where
  "restart \<equiv> [HSend ty_http EMS_APP_STOP, HSend ty_http EMS_APP_START]"

lemma http_evts: "http_process e EMS_APP_STOP root m = http_run e False m" "http_process e EMS_APP_START root m = http_run e True m"
  "http_process e EMS_APP_SERVER_RULES_UPDATE root m = http_server_rules_update e root m"
  by (simp_all add: http_process_def EMS_APP_STOP_def EMS_APP_START_def EMS_APP_SERVER_RULES_UPDATE_def EMS_APP_EVT_FW_RELOAD_def)

lemma start_no_port:
  assumes "\<not> hd_run m" and "hd_ctx m = Some c" and "hm_rule c = Some root" and "json_object_object_get (Some root) ''port'' = None"
  shows "http_process e EMS_APP_START None m = Some (EMS_OK, m\<lparr>hd_ctx := Some (c\<lparr>hm_out := hm_out c @ restart\<rparr>)\<rparr>)"
proof -
  have s: "http_start_all e c = Some (EMS_ERR, (c\<lparr>hm_rule := Some root\<rparr>)\<lparr>hm_out := hm_out (c\<lparr>hm_rule := Some root\<rparr>) @ restart\<rparr>)"
    unfolding http_start_all_def assms(3) option.case Let_def assms(4) by simp
  have c: "c\<lparr>hm_rule := Some root\<rparr> = c" using assms(3) by (intro http_mgmt.equality) simp_all
  have r: "m\<lparr>hd_ctx := x, hd_run := False\<rparr> = m\<lparr>hd_ctx := x\<rparr>" for x using assms(1) by (intro http_mod.equality) simp_all
  show ?thesis using s assms(1,2) r by (simp add: http_evts http_run_def c)
qed

lemma rounds_no_port:
  assumes "\<not> hd_run m" and "hd_ctx m = Some c" and "hm_rule c = Some root" and "json_object_object_get (Some root) ''port'' = None"
  shows "http_rounds e n m = Some (m\<lparr>hd_ctx := Some (c\<lparr>hm_out := hm_out c @ concat (replicate n restart)\<rparr>)\<rparr>)"
  using assms
proof (induction n arbitrary: m c)
  case 0
  then show ?case by (intro http_rounds.simps(1) [THEN trans]) (simp add: http_mod.equality)
next
  case (Suc n)
  have stop: "http_process e EMS_APP_STOP None m = Some (EMS_OK, m)" using Suc.prems(1,2) by (simp add: http_evts http_run_def)
  show ?case
    using Suc.IH [of "m\<lparr>hd_ctx := Some (c\<lparr>hm_out := hm_out c @ restart\<rparr>)\<rparr>" "c\<lparr>hm_out := hm_out c @ restart\<rparr>"] Suc.prems
    by (simp add: stop start_no_port [OF Suc.prems])
qed

text \<open>
  C24: Rules without ports that arrive while the module is stopped are kept; its start then fails and sends it a stop,
  which is ignored, and a start, and so on without end: every round sends the messages of the next one.
\<close>

theorem http_start_without_port:
  assumes "\<not> hd_run m" and "hd_ctx m = Some c" and "hm_list c = []" and "json_object_object_get (Some root) ''port'' = None"
    and "he_json_parse e (he_json_text e (Some root)) = Some root" and "he_json_text e (Some root) \<noteq> he_json_text e (hm_rule c)"
  shows "\<exists>m1 m2. http_process e EMS_APP_SERVER_RULES_UPDATE (Some root) m = Some (EMS_OK, m1) \<and> http_process e EMS_APP_START None m1 = Some (EMS_OK, m2) \<and>
    (\<forall>n. \<exists>m3 c3. http_rounds e n m2 = Some m3 \<and> \<not> hd_run m3 \<and> hd_ctx m3 = Some c3 \<and> hm_list c3 = [] \<and>
      hm_out c3 = hm_out c @ concat (replicate (Suc n) restart))"
proof -
  let ?c = "c\<lparr>hm_rule := Some root\<rparr>"
  let ?m1 = "m\<lparr>hd_ctx := Some ?c\<rparr>" and ?m2 = "m\<lparr>hd_ctx := Some (?c\<lparr>hm_out := hm_out c @ restart\<rparr>)\<rparr>"
  have u: "http_process e EMS_APP_SERVER_RULES_UPDATE (Some root) m = Some (EMS_OK, ?m1)"
    using assms by (simp add: http_evts http_server_rules_update_def http_stop_all_def)
  have s: "http_process e EMS_APP_START None ?m1 = Some (EMS_OK, ?m2)"
    using start_no_port [of ?m1 ?c root e] assms(1,4) by simp
  have "http_rounds e n ?m2 = Some (?m2\<lparr>hd_ctx := Some (?c\<lparr>hm_out := hm_out c @ restart @ concat (replicate n restart)\<rparr>)\<rparr>)" for n
    using rounds_no_port [of ?m2 "?c\<lparr>hm_out := hm_out c @ restart\<rparr>" root e n] assms(1,4) by simp
  then show ?thesis using u s assms(1,3) by (intro exI [of _ ?m1] exI [of _ ?m2]) auto
qed

theorem http_start_without_port_witness:
  "\<exists>e m1 m2 m3. http_process e EMS_APP_SERVER_RULES_UPDATE (Some (JObj [])) \<lparr>hd_run = False, hd_ctx = Some mgmt_ex\<rparr> = Some (EMS_OK, m1) \<and>
    http_process e EMS_APP_START None m1 = Some (EMS_OK, m2) \<and> http_rounds e 1000 m2 = Some m3 \<and> \<not> hd_run m3"
proof -
  let ?e = "http_app_ex\<lparr>he_json_text := (\<lambda>r. case r of None \<Rightarrow> ''null'' | Some _ \<Rightarrow> ''{}''), he_json_parse := (\<lambda>_. Some (JObj []))\<rparr>"
  have h: "\<not> hd_run \<lparr>hd_run = False, hd_ctx = Some mgmt_ex\<rparr>" "hd_ctx \<lparr>hd_run = False, hd_ctx = Some mgmt_ex\<rparr> = Some mgmt_ex" "hm_list mgmt_ex = []"
    "json_object_object_get (Some (JObj [])) ''port'' = None" "he_json_parse ?e (he_json_text ?e (Some (JObj []))) = Some (JObj [])"
    "he_json_text ?e (Some (JObj [])) \<noteq> he_json_text ?e (hm_rule mgmt_ex)"
    by (simp_all add: mgmt_ex_def)
  from http_start_without_port [OF h] show ?thesis by blast
qed

end
