(* ===== verification/Ems_Http_User.thy ===== *)
theory Ems_Http_User
  imports Ems_Http_Page Ems_Radius_User
begin

text \<open>
  The question of the portal's page who the client is: the web server asks the RADIUS client of the interface, and
  has a user logged out whose address is used by another device.
\<close>

text \<open>The environment answers as the RADIUS module in the state \<open>m\<close> does.\<close>

definition asks_radius :: "http_env \<Rightarrow> rad_env \<Rightarrow> rad_mod \<Rightarrow> bool" where
  "asks_radius e re m \<longleftrightarrow> (\<forall>evt j r j' m'. ra_process re evt (Some j) m = Some (r, Some j', m') \<longrightarrow> he_process e ty_radius evt j = (r, j'))"

lemma userinfo_answer:
  assumes "rm_run m" and "rm_ctx m = Some ra" and "rh ra" and "radius_find_dev ra ip = Some d" and "ip \<noteq> []"
  shows "ra_process re EMS_APP_EVT_USERINFO (Some (JObj [(''ip'', JStr ip)])) m =
    Some (EMS_OK, Some (JObj [(''ip'', JStr ip), (''nick'', JStr (du_name (dev_of ra d))), (''pwd'', JStr (du_pass (dev_of ra d))),
      (''mac'', JStr (du_mac (dev_of ra d))), (''status'', JInt (status_no (d_st (dev_of ra d))))]), m)"
  using assms
  by (simp add: ra_process_def radius_userinfo_def ems_json_get_string_def_def Let_def EMS_APP_STOP_def EMS_APP_START_def EMS_APP_RULES_UPDATE_def
      EMS_APP_EVT_STATUS_def EMS_APP_EVT_USERLIST_def EMS_APP_EVT_USERNUMBER_def EMS_APP_EVT_USERNAME_def EMS_APP_EVT_USERINFO_def)

text \<open>The answer to the page: a user, or nobody.\<close>

definition nasinfo_answer :: "http_env \<Rightarrow> string \<Rightarrow> string \<Rightarrow> string option \<Rightarrow> string" where
  "nasinfo_answer e ip mac user =
    he_json_text e (Some (JObj [(''result'', JInt (case user of None \<Rightarrow> 1 | Some _ \<Rightarrow> 0)),
      (''data'', nasinfo_obj e (case user of None \<Rightarrow> [] | Some u \<Rightarrow> u) (ems_mac_update mac) ip (ems_mac_update (he_bssid e)) (ems_mac_update (he_ac_mac e)))]))"

lemma userinfo_eq:
  assumes "asks_radius e re m" and "he_alloc e" and "rm_run m" and "rm_ctx m = Some ra" and "rh ra" and "radius_find_dev ra ip = Some d" and "ip \<noteq> []"
  shows "http_get_userinfo e ip h = (du_name (dev_of ra d), du_mac (dev_of ra d),
    http_emit HPutReleased (http_emit (HProcess ty_radius EMS_APP_EVT_USERINFO (JObj [(''ip'', JStr ip)])) h))"
proof -
  have "he_process e ty_radius EMS_APP_EVT_USERINFO (JObj [(''ip'', JStr ip)]) = (EMS_OK, JObj [(''ip'', JStr ip), (''nick'', JStr (du_name (dev_of ra d))),
      (''pwd'', JStr (du_pass (dev_of ra d))), (''mac'', JStr (du_mac (dev_of ra d))), (''status'', JInt (status_no (d_st (dev_of ra d))))])"
    using assms(1) userinfo_answer [OF assms(3-7), of re] by (auto simp: asks_radius_def)
  then show ?thesis using assms(2) by (simp add: http_get_userinfo_def http_ask_def ems_json_get_string_def_def)
qed

text \<open>
  C17: The page of the portal asks who the client is. A user whom the RADIUS client has under the client's address and
  hardware address is named, whatever his state there. When the hardware address is another one, nobody is
  named and the RADIUS client is asked to log the user out. In both cases an object is released twice.
\<close>

theorem http_user_query:
  assumes "asks_radius e re m" and "he_alloc e" and "rm_run m" and "rm_ctx m = Some ra" and "rh ra" and "radius_find_dev ra ip = Some d"
    and "ip \<noteq> []" and "du_name (dev_of ra d) \<noteq> []" and "du_mac (dev_of ra d) \<noteq> []"
    and "hs_get s h = Some x" and "str_data (s_addr (sock x)) = Some ip" and "he_usermac e ip = Some mac" and "length mac < 32"
    and "length (he_bssid e) < 32" and "length (he_ac_mac e) < 32"
  shows "\<exists>h'. http_web_nasinfo_fill_with e s func h = Some h' \<and>
    (if du_mac (dev_of ra d) = mac then
       ht_core h' = buf_print (nasinfo_text e (http_version h) (case func of None \<Rightarrow> ''afunc'' | Some f \<Rightarrow> f)
         (nasinfo_answer e ip mac (Some (du_name (dev_of ra d))))) (ht_core h) \<and>
       ht_out h' = ht_out h @ [HProcess ty_radius EMS_APP_EVT_USERINFO (JObj [(''ip'', JStr ip)]), HPutReleased]
     else
       ht_core h' = buf_print (nasinfo_text e (http_version h) (case func of None \<Rightarrow> ''afunc'' | Some f \<Rightarrow> f) (nasinfo_answer e ip mac None)) (ht_core h) \<and>
       ht_out h' = ht_out h @ [HProcess ty_radius EMS_APP_EVT_USERINFO (JObj [(''ip'', JStr ip)]), HPutReleased,
         HProcess ty_radius EMS_APP_CMD_RADIUS_LOGOUT (JObj [(''userip'', JStr ip), (''usermac'', JStr (du_mac (dev_of ra d))), (''username'', JStr (du_name (dev_of ra d)))])])"
proof -
  note u = userinfo_eq [OF assms(1-7), of h]
  have m: "take 31 (fmt_s (he_usermac e ip)) = mac" using assms(12,13) by (simp add: fmt_s_def)
  have c: "mac_copy (he_bssid e) = Some (ems_mac_update (he_bssid e))" "mac_copy (he_ac_mac e) = Some (ems_mac_update (he_ac_mac e))"
    using assms(14,15) by (simp_all add: mac_copy_def)
  show ?thesis
    using assms(2,8,9) unfolding http_web_nasinfo_fill_with_def assms(10,11) bind.bind_lunit u prod.case m c Let_def
    by (cases "du_mac (dev_of ra d) = mac")
      (simp_all add: http_core_print_def http_emit_def http_kickout_user_def http_ask_def nasinfo_answer_def http_version_def split_beta)
qed


definition ra_bob :: ems_radius where
  "ra_bob = rad_r1\<lparr>dev_entry := [1], dev_live := [1], dev_of := (\<lambda>_. ems_device_new\<lparr>du_name := ''bob'', du_ip := ''10.0.0.7'', du_mac := ''cc:dd''\<rparr>)\<rparr>"

theorem http_user_query_witness:
  "\<exists>e h'. asks_radius e re_1 \<lparr>rm_run = True, rm_ctx = Some ra_bob\<rparr> \<and> http_web_nasinfo_fill_with e 1 (Some ''cb'') http_ex = Some h' \<and>
    ht_core h' = buf_print (nasinfo_text e ''(null)'' ''cb'' (nasinfo_answer e ''10.0.0.7'' ''cc:dd'' (Some ''bob''))) (ht_core http_ex)"
proof -
  let ?m = "\<lparr>rm_run = True, rm_ctx = Some ra_bob\<rparr>"
  let ?e = "http_env_ex\<lparr>he_process := (\<lambda>_ evt j. case ra_process re_1 evt (Some j) ?m of Some (r, Some j', _) \<Rightarrow> (r, j') | _ \<Rightarrow> (0, j))\<rparr>"
  have a: "asks_radius ?e re_1 ?m" unfolding asks_radius_def by (intro allI impI) simp
  have e: "he_alloc ?e" "he_usermac ?e ''10.0.0.7'' = Some ''cc:dd''" "length (he_bssid ?e) < 32" "length (he_ac_mac ?e) < 32"
    by (simp_all add: http_env_ex_def)
  have x: "str_data (s_addr (sock conn_ex)) = Some ''10.0.0.7''" by (simp add: conn_ex_def)
  have r: "rm_run ?m" "rm_ctx ?m = Some ra_bob" "rh ra_bob" "radius_find_dev ra_bob ''10.0.0.7'' = Some 1" "du_name (dev_of ra_bob 1) = ''bob''"
    "du_mac (dev_of ra_bob 1) = ''cc:dd''"
    by (simp_all add: ra_bob_def radius_find_dev_def)
  have v: "http_version http_ex = ''(null)''"
    by (simp add: http_version_def http_header_get_def http_ex_def http_header_init_def str_init_def fmt_s_def)
  from http_user_query [OF a e(1) r(1-4) _ _ _ ex_server(2) x e(2) _ e(3,4), of "Some ''cb''"] r(5,6) v a show ?thesis by auto
qed

end
