(* ===== verification/Spec2Isabelle.thy ===== *)
theory Spec2Isabelle
  imports Ems_Prelude Ems_Queue Ems_Str Ems_Hash Ems_Buffer Ems_Timer Ems_Text Ems_Mem Ems_Event Ems_Msg Ems_Md5
    Ems_Session Ems_Dns_Wire Ems_Fw_Rules Ems_Fw_Tables Ems_Dns Ems_Fw Ems_Dns_Inv Ems_Fw_Inv Ems_Dns_Flow
    Ems_Radius Ems_Radius_App Ems_Radius_Inv Ems_Radius_Flow Ems_Radius_Ping Ems_Radius_User Ems_Radius_Answer
    Ems_Portal_Wire Ems_Portal Ems_Portal_App Ems_Portal_Inv Ems_Portal_Flow Ems_Portal_Addr Ems_Portal_User Ems_Portal_Wait
    Ems_Portal_Server Ems_Portal_Fault
    Ems_Http_Header Ems_Http Ems_Http_Server Ems_Http_Conn Ems_Http_App Ems_Http_Inv Ems_Http_Flow Ems_Http_Redirect Ems_Http_Page
    Ems_Http_Fault Ems_Http_User
begin

text \<open>
  Verification of the embedded management system \<^verbatim>\<open>c/ems\<close>, the program that runs on the wireless access
  points of the repository.

  \<^bold>\<open>The program.\<close> One process serves an event loop (\<^verbatim>\<open>src/event\<close>) over sessions (\<^verbatim>\<open>src/utils/ems_session.c\<close>):
  sockets with two buffers, a timer and a callback. On it run modules (\<^verbatim>\<open>src/core/app_*.c\<close>) that exchange
  messages with a type, a source and a destination. Four modules of an interface are modelled in full. The
  portal client registers the access point with a portal server and carries out what it asks for: a login
  becomes a message to the RADIUS client, whose result is answered to the server. The
  firewall builds a tree of \<open>iptables\<close> chains, keeps the lists of allowed and forbidden names, and forwards
  the DNS requests of the clients to the name server, so that the addresses of listed names can be let
  through as soon as a client asks for them. The RADIUS client authenticates the users the portal sends
  it, accounts them while they answer pings, and tells the firewall whom to let through. The web server
  receives the requests of clients that are not let through, and redirects them to the page of the portal,
  which in turn asks it who the client is. Below the modules
  lies a library of containers and text functions (\<^verbatim>\<open>inc\<close>, \<^verbatim>\<open>src/utils\<close>).

  \<^bold>\<open>The theories\<close>, in the order of the calls:

  \<^item> \<^verbatim>\<open>Ems_Prelude\<close>: types, status codes, flags and the functions of the C library on strings; the locale
    \<open>step_system\<close>, which gives invariants of reachable states once the steps keep them.
  \<^item> \<^verbatim>\<open>Ems_Queue\<close> (\<^verbatim>\<open>inc/ems_queue.h\<close>): the links \<open>prev\<close> and \<open>next\<close> of an explicit store, each macro a
    function on it; rings refine lists (C40).
  \<^item> \<^verbatim>\<open>Ems_Str\<close>, \<^verbatim>\<open>Ems_Hash\<close> (\<^verbatim>\<open>ems_str.c\<close>, \<^verbatim>\<open>ems_hash.c\<close>): the growing string, and the chained table with
    its string hash; the table refines a partial map (C38).
  \<^item> \<^verbatim>\<open>Ems_Buffer\<close> (\<^verbatim>\<open>ems_buffer.c\<close>): memory, read and write position; a bounded first-in first-out sequence
    (C39).
  \<^item> \<^verbatim>\<open>Ems_Timer\<close> (\<^verbatim>\<open>ems_timer.c\<close>): the list of timers, ordered by deadline, on the links of
    \<^verbatim>\<open>Ems_Queue\<close>; the expiry loop takes fuel, and a ring of \<open>n\<close> timers needs \<open>n + 1\<close> of it (C36, C37).
  \<^item> \<^verbatim>\<open>Ems_Text\<close> (\<^verbatim>\<open>ems_split.c\<close>, \<^verbatim>\<open>ems_urlcode.c\<close>, \<^verbatim>\<open>ems_utils.c\<close>): splitting, URL encoding, hexadecimal text,
    trimming and numbers.
  \<^item> \<^verbatim>\<open>Ems_Mem\<close> (\<^verbatim>\<open>ems_mem.c\<close>): the slab allocator with its classes, slabs and chunks (C33).
  \<^item> \<^verbatim>\<open>Ems_Event\<close> (\<^verbatim>\<open>ems_event.c\<close>, \<^verbatim>\<open>evt_epoll.c\<close>): registration of descriptors and the dispatch of a batch
    (C34).
  \<^item> \<^verbatim>\<open>Ems_Msg\<close> (\<^verbatim>\<open>ems_sock.c\<close>, \<^verbatim>\<open>ems_msg.c\<close>): the transfer loops and the packing of messages (C35).
  \<^item> \<^verbatim>\<open>Ems_Md5\<close> (\<^verbatim>\<open>ems_md5.c\<close>): the digest, against the definition of RFC 1321 (C32).
  \<^item> \<^verbatim>\<open>Ems_Session\<close> (\<^verbatim>\<open>ems_session.c\<close>): creation, events and timers of a session.
  \<^item> \<^verbatim>\<open>Ems_Dns_Wire\<close> (\<^verbatim>\<open>ems_dns.h\<close> and the parsers of \<^verbatim>\<open>ems_dns_fwd.c\<close> and \<^verbatim>\<open>ems_dns.c\<close>): headers, names,
    questions and answers on bytes (C30, C31). A name that points to itself is a computation that does not
    end, the value \<open>None\<close> of a \<open>partial_function\<close>.
  \<^item> \<^verbatim>\<open>Ems_Fw_Rules\<close>, \<^verbatim>\<open>Ems_Fw_Tables\<close> (\<^verbatim>\<open>ems_fw.c\<close>, \<^verbatim>\<open>app_g_fw.c\<close>): the commands the firewall runs, as a log, and
    what \<open>iptables\<close> documents of them, as a function on tables and the hypothesis of C29.
  \<^item> \<^verbatim>\<open>Ems_Dns\<close> (\<^verbatim>\<open>ems_dns.c\<close>, \<^verbatim>\<open>ems_dns_fwd.c\<close>, the constructors of \<^verbatim>\<open>app_fw.c\<close>): the forwarder. The record
    \<open>ems_fw\<close> holds the lists by address, the stores of users and names, the two tables, the two
    sessions, the log of the commands and what was sent.
  \<^item> \<^verbatim>\<open>Ems_Fw\<close> (\<^verbatim>\<open>ems_fw.c\<close>, \<^verbatim>\<open>app_fw.c\<close>, \<^verbatim>\<open>app_bwlist.c\<close>): the lists of names, the module with each message it
    handles, and the lists of the server.
  \<^item> \<^verbatim>\<open>Ems_Dns_Inv\<close>, \<^verbatim>\<open>Ems_Fw_Inv\<close>: the invariants of users (\<open>users_ok\<close>) and names (\<open>names_ok\<close>) and that
    each operation keeps them; the module as the relation \<open>fw_step\<close> (a message, an event of either socket,
    the schedule, an expired timer), an instance of \<open>step_system\<close>.
  \<^item> \<^verbatim>\<open>Ems_Dns_Flow\<close>: what follows for the reachable states and for the way of a request (C13, C14, C26--C28).
  \<^item> \<^verbatim>\<open>Ems_Radius\<close> (\<^verbatim>\<open>ems_radius.c\<close>): the state machine of a user. The record \<open>ems_radius\<close> holds the list of
    devices by address, their store, the configuration and what was told to the portal, the firewall and
    the servers.
  \<^item> \<^verbatim>\<open>Ems_Radius_App\<close> (\<^verbatim>\<open>app_radius.c\<close>): configuration, login and logout, queries, the dispatch of messages.
  \<^item> \<^verbatim>\<open>Ems_Radius_Inv\<close>: the invariant \<open>all_ok\<close> (the list is the set of devices in memory, each has a session and
    a state with handlers, the firewall is open only for devices of the list); the rules of the collection
    \<open>okres_rules\<close> take the body of a handler apart, and the locale \<open>rsp_contract\<close> carries the invariant through
    the receive path once a handler of replies keeps it.
  \<^item> \<^verbatim>\<open>Ems_Radius_Flow\<close>: the module as the relation \<open>rad_step\<close> (a message, an event, an expired timer, the end),
    an instance of \<open>step_system\<close>.
  \<^item> \<^verbatim>\<open>Ems_Radius_User\<close>, \<^verbatim>\<open>Ems_Radius_Answer\<close>: the reachable states and the reload of the firewall (C1, C2), login
    and its end without an answer (C11, C21), acceptance (C10), every other answer (C22), a failed connection.
  \<^item> \<^verbatim>\<open>Ems_Radius_Ping\<close>: the checksum of the ping (C25).
  \<^item> \<^verbatim>\<open>Ems_Portal_Wire\<close> (\<^verbatim>\<open>ems_portal.h\<close> and the attributes of \<^verbatim>\<open>ems_portal.c\<close>): packing and parsing on bytes (C15).
  \<^item> \<^verbatim>\<open>Ems_Portal\<close> (\<^verbatim>\<open>ems_portal.c\<close>): the state machine. The record \<open>ems_portal\<close> holds the list of users by address,
    their store, the session, the configuration and what was told to other modules and sent.
  \<^item> \<^verbatim>\<open>Ems_Portal_App\<close> (\<^verbatim>\<open>app_portal.c\<close>): the module with its messages.
  \<^item> \<^verbatim>\<open>Ems_Portal_Inv\<close>, \<^verbatim>\<open>Ems_Portal_Flow\<close>: the invariant \<open>ptl_inv\<close> and that each operation keeps it, by the rules of
    the collection \<open>pok_rules\<close>; the locale \<open>ptl_contract\<close> of the handlers of answers, interpreted for all three;
    the module as the relation \<open>ptl_step\<close>, an instance of \<open>step_system\<close>.
  \<^item> \<^verbatim>\<open>Ems_Portal_Addr\<close>: the texts of addresses that portal and RADIUS client exchange.
  \<^item> \<^verbatim>\<open>Ems_Portal_User\<close>: the way of a login through the portal, the RADIUS client and back (C4, C9).
  \<^item> \<^verbatim>\<open>Ems_Portal_Wait\<close>, \<^verbatim>\<open>Ems_Portal_Server\<close>: what the timers do: a login without confirmation (C7), a server without an
    answer (C8), the registration (C12).
  \<^item> \<^verbatim>\<open>Ems_Portal_Fault\<close>: the reachable states (C3) and the failures (C19, C20 and others).
  \<^item> \<^verbatim>\<open>Ems_Http_Header\<close> (\<^verbatim>\<open>ems_http_utils.c\<close>): the fields of a request and its parser on bytes (C16).
  \<^item> \<^verbatim>\<open>Ems_Http\<close> (\<^verbatim>\<open>ems_http_cna.c\<close> and the texts of the replies), \<^verbatim>\<open>Ems_Http_Server\<close> (replies and queries),
    \<^verbatim>\<open>Ems_Http_Conn\<close> (requests, connections, the listening socket, start and end; all three \<^verbatim>\<open>ems_http.c\<close>): a web
    server. The record \<open>ems_http\<close> holds the connections and the probing clients by address, their stores, the
    rules, the parsed request and what was told to other modules and sent.
  \<^item> \<^verbatim>\<open>Ems_Http_App\<close> (\<^verbatim>\<open>app_http.c\<close>): the module, with a server for each port of its rules.
  \<^item> \<^verbatim>\<open>Ems_Http_Inv\<close>, \<^verbatim>\<open>Ems_Http_Flow\<close>: the invariant \<open>http_inv\<close> of a server and that each operation keeps it, by the rules
    of the collection \<open>hres_rules\<close>; the module as the relation \<open>http_step\<close> (a message, an event or a timer of one of its
    servers), an instance of \<open>step_system\<close>.
  \<^item> \<^verbatim>\<open>Ems_Http_Redirect\<close>, \<^verbatim>\<open>Ems_Http_Page\<close>: from the bytes of a request to the redirection and the end of the
    connection (C5).
  \<^item> \<^verbatim>\<open>Ems_Http_Fault\<close>: the reachable states (C6), the probing clients (C18) and the failures (C23, C24).
  \<^item> \<^verbatim>\<open>Ems_Http_User\<close>: the query for a user, answered by the RADIUS client (C17).

  \<^bold>\<open>Correspondence.\<close> Functions, fields and constants keep their names. A pointer is an address, a
  structure in memory a store from addresses to records; the allocator, the clock, the random numbers, the
  kernel and the other side of a connection are arguments (records \<open>dns_env\<close>, \<open>fw_env\<close>, \<open>rad_env\<close>, \<open>ptl_env\<close>,
  \<open>http_env\<close>, lists of results). The value \<open>None\<close> of an operation is a use of a null pointer, of released memory or of memory
  outside an object, which C leaves undefined; a theorem that shows \<open>Some\<close> shows its absence, and C20, C22 and C23
  show its presence. The freeradius library is the part of \<open>rad_env\<close> whose fields begin with \<open>rc_\<close>; \<open>rad_lib_ok\<close> states
  the sizes that the client relies on.

  \<^bold>\<open>Not modelled.\<close> Logging and the length limit of a command line (512 characters); the failure of copying
  a string in \<open>str_set\<close>; the failure of registering a descriptor that was just made; \<open>fw_clear_all\<close> with its
  null firewall; the loading of the RADIUS dictionary, whose success is a field of \<open>rad_env\<close>. The second
  release of an object by the web server depends on the allocator and is only noted, as \<open>HPutReleased\<close>. Of the
  program's other modules the tunnel, the client of the controller, the
  configuration files and the command line are not modelled; nor are the libraries the repository carries
  (json-c, libpcap, libfuse) and the other programs of the repository.
\<close>

end
